(* ===== verification/Prelude.thy ===== *)
theory Prelude
  imports Main "HOL-Library.AList" "HOL-Library.Code_Target_Numeral"
begin

text \<open>
  Shared vocabulary of the development: theorem collections, results with errors as values, and
  the JavaScript containers that every component uses.  A \<open>Record<string, V>\<close> is an
  association list in insertion order; \<open>Object.entries(r).find(...)\<close> is \<open>find\<close> on it and
  assignment to a key is \<open>AList.update\<close>, which overwrites in place or appends, as a JavaScript
  object does for string keys that are not array indices.
\<close>

named_theorems guard_simps \<open>characteristic equations of guard chains\<close>
named_theorems str_simps \<open>string functions of the JavaScript standard library\<close>

section \<open>Results\<close>

text \<open>A \<open>throw\<close> is \<open>Inl\<close>; a normal return is \<open>Inr\<close>.\<close>

definition andThen :: "'e + 'a \<Rightarrow> ('a \<Rightarrow> 'e + 'b) \<Rightarrow> 'e + 'b" where
  "andThen r f = (case r of Inl e \<Rightarrow> Inl e | Inr a \<Rightarrow> f a)"

lemma andThen_simps [simp]:
  "andThen (Inl e) f = Inl e"
  "andThen (Inr a) f = f a"
  by (simp_all add: andThen_def)

lemma andThen_Inr [simp]: "andThen r f = Inr y \<longleftrightarrow> (\<exists>x. r = Inr x \<and> f x = Inr y)"
  by (cases r) auto

text \<open>The first error of a list of checks, in order: \<open>for (x of xs) if (bad x) throw\<close>.\<close>

fun first_error :: "('a \<Rightarrow> 'e option) \<Rightarrow> 'a list \<Rightarrow> 'e option" where
  "first_error f [] = None"
| "first_error f (x # xs) = (case f x of Some e \<Rightarrow> Some e | None \<Rightarrow> first_error f xs)"

lemma first_error_None [simp]: "first_error f xs = None \<longleftrightarrow> (\<forall>x \<in> set xs. f x = None)"
  by (induction xs) (auto split: option.splits)

text \<open>A chain of guards that each yield at most one error; the first one wins.\<close>

fun first_some :: "'e option list \<Rightarrow> 'e option" where
  "first_some [] = None"
| "first_some (None # xs) = first_some xs"
| "first_some (Some e # xs) = Some e"

lemma first_some_None [simp]: "first_some xs = None \<longleftrightarrow> (\<forall>x \<in> set xs. x = None)"
  by (induction xs rule: first_some.induct) auto

lemma first_some_in: "first_some xs = Some e \<Longrightarrow> Some e \<in> set xs"
  by (induction xs rule: first_some.induct) auto

text \<open>\<open>if (b) throw e\<close> as an optional error.\<close>

definition throw_if :: "bool \<Rightarrow> 'e \<Rightarrow> 'e option" where
  "throw_if b e = (if b then Some e else None)"

lemma throw_if_None [simp]: "throw_if b e = None \<longleftrightarrow> \<not> b"
  by (simp add: throw_if_def)

lemma throw_if_Some [simp]: "throw_if b e = Some e' \<longleftrightarrow> b \<and> e = e'"
  by (auto simp: throw_if_def)

text \<open>\<open>xs.map(f)\<close> where \<open>f\<close> may throw.\<close>

fun map_throw :: "('a \<Rightarrow> 'e + 'b) \<Rightarrow> 'a list \<Rightarrow> 'e + 'b list" where
  "map_throw f [] = Inr []"
| "map_throw f (x # xs) = andThen (f x) (\<lambda>y. andThen (map_throw f xs) (\<lambda>ys. Inr (y # ys)))"

lemma map_throw_Inr:
  "map_throw f xs = Inr ys \<longleftrightarrow> length xs = length ys \<and> (\<forall>i < length xs. f (xs ! i) = Inr (ys ! i))"
proof (induction xs arbitrary: ys)
  case Nil
  then show ?case by auto
next
  case (Cons x xs)
  show ?case
  proof (cases ys)
    case (Cons y zs)
    show ?thesis unfolding Cons by (auto simp: Cons.IH nth_Cons less_Suc_eq_0_disj split: nat.splits)
  qed simp
qed

section \<open>Optional fields\<close>

text \<open>\<open>xs?.some(p)\<close>: \<open>undefined\<close> counts as false.\<close>

fun opt_any :: "('a \<Rightarrow> bool) \<Rightarrow> 'a list option \<Rightarrow> bool" where
  "opt_any p None = False"
| "opt_any p (Some xs) = (\<exists>x \<in> set xs. p x)"

text \<open>\<open>xs?.length\<close> as a condition: present and not empty.\<close>

fun nonempty :: "'a list option \<Rightarrow> bool" where
  "nonempty None = False"
| "nonempty (Some xs) = (xs \<noteq> [])"

text \<open>\<open>xs ?? []\<close>.\<close>

fun or_nil :: "'a list option \<Rightarrow> 'a list" where
  "or_nil None = []"
| "or_nil (Some xs) = xs"

text \<open>\<open>x ?? d\<close>.\<close>

definition or_else :: "'a option \<Rightarrow> 'a \<Rightarrow> 'a" where
  "or_else x d = (case x of None \<Rightarrow> d | Some y \<Rightarrow> y)"

lemma or_else_simps [simp]: "or_else None d = d" "or_else (Some y) d = y"
  by (simp_all add: or_else_def)

lemma nonempty_or_nil: "nonempty x \<longleftrightarrow> or_nil x \<noteq> []"
  by (cases x) auto

lemma opt_any_or_nil: "opt_any p x \<longleftrightarrow> (\<exists>y \<in> set (or_nil x). p y)"
  by (cases x) auto

section \<open>Association lists\<close>

lemma find_map_of:
  assumes "distinct (map fst xs)" "(k, v) \<in> set xs"
  shows "map_of xs k = Some v"
  using assms by simp

lemma find_SomeD: "find p xs = Some x \<Longrightarrow> p x \<and> x \<in> set xs"
  by (auto simp: find_Some_iff)

lemma find_NoneD: "find p xs = None \<Longrightarrow> x \<in> set xs \<Longrightarrow> \<not> p x"
  by (auto simp: find_None_iff)

lemma find_append: "find p (xs @ ys) = (case find p xs of Some x \<Rightarrow> Some x | None \<Rightarrow> find p ys)"
  by (induction xs) auto

text \<open>An element is the one that \<open>find\<close> returns when it alone satisfies the predicate.\<close>

lemma find_unique:
  assumes "x \<in> set xs" "p x" "\<And>y. y \<in> set xs \<Longrightarrow> p y \<Longrightarrow> y = x"
  shows "find p xs = Some x"
proof (cases "find p xs")
  case None
  then show ?thesis using assms(1,2) by (auto dest: find_NoneD)
next
  case (Some y)
  then show ?thesis using assms(3) by (auto dest: find_SomeD)
qed

lemma sum_list_member_le:
  fixes f :: "'a \<Rightarrow> nat"
  shows "x \<in> set xs \<Longrightarrow> f x \<le> sum_list (map f xs)"
  by (induction xs) auto

end
