(* ===== verification/JsStrings.thy ===== *)
theory JsStrings
  imports Prelude "HOL-Library.List_Lexorder" "HOL-Library.Char_ord"
begin

text \<open>
  The part of the JavaScript standard library the program uses on strings and numbers: case
  folding, \<open>js_slice\<close>, \<open>padStart\<close>, \<open>split\<close>, radix conversion (\<open>toString(16)\<close>, \<open>BigInt(s)\<close>,
  \<open>Number(s)\<close>) and the anchored regular expressions over hexadecimal and decimal digits.  A
  string is a list of characters; the model is exact on ASCII text, which is all that the
  addresses, selectors and numbers of the program contain.  A JavaScript \<open>number\<close> that the code
  treats as an integer and a \<open>bigint\<close> are both \<open>int\<close>.
\<close>

section \<open>Characters\<close>

definition ord :: "char \<Rightarrow> nat" where
  "ord c = of_char c"

lemma ord_bound: "ord c < 256"
  by (simp add: ord_def)

lemma ord_inject [simp]: "ord c = ord d \<longleftrightarrow> c = d"
  by (simp add: ord_def)

lemma ord_char_of [simp]: "n < 256 \<Longrightarrow> ord (char_of n) = n"
  by (simp add: ord_def)

definition is_digit :: "char \<Rightarrow> bool" where
  "is_digit c \<longleftrightarrow> 48 \<le> ord c \<and> ord c \<le> 57"

text \<open>The value of a hexadecimal digit, of either case.\<close>

definition hex_val :: "char \<Rightarrow> nat option" where
  "hex_val c =
     (if 48 \<le> ord c \<and> ord c \<le> 57 then Some (ord c - 48)
      else if 97 \<le> ord c \<and> ord c \<le> 102 then Some (ord c - 87)
      else if 65 \<le> ord c \<and> ord c \<le> 70 then Some (ord c - 55)
      else None)"

definition is_hex :: "char \<Rightarrow> bool" where
  "is_hex c \<longleftrightarrow> hex_val c \<noteq> None"

definition lower_char :: "char \<Rightarrow> char" where
  "lower_char c = (if 65 \<le> ord c \<and> ord c \<le> 90 then char_of (ord c + 32) else c)"

definition upper_char :: "char \<Rightarrow> char" where
  "upper_char c = (if 97 \<le> ord c \<and> ord c \<le> 122 then char_of (ord c - 32) else c)"

definition digit_char :: "nat \<Rightarrow> char" where
  "digit_char d = (if d < 10 then char_of (48 + d) else char_of (87 + d))"

text \<open>Equations on the bits of a character, which evaluate faster than arithmetic on its code.\<close>

definition low_bits :: "bool \<Rightarrow> bool \<Rightarrow> bool \<Rightarrow> bool \<Rightarrow> nat" where
  "low_bits b0 b1 b2 b3 =
     (if b3 then (if b2 then (if b1 then (if b0 then 15 else 14) else (if b0 then 13 else 12))
                  else (if b1 then (if b0 then 11 else 10) else (if b0 then 9 else 8)))
      else (if b2 then (if b1 then (if b0 then 7 else 6) else (if b0 then 5 else 4))
            else (if b1 then (if b0 then 3 else 2) else (if b0 then 1 else 0))))"

lemma hex_val_code [code]:
  "hex_val (Char b0 b1 b2 b3 b4 b5 b6 b7) =
     (if b7 then None
      else if b6 then (if b4 \<or> b3 \<or> (\<not> b0 \<and> \<not> b1 \<and> \<not> b2) \<or> (b0 \<and> b1 \<and> b2) then None
                       else Some (low_bits b0 b1 b2 False + 9))
      else if b5 \<and> b4 \<and> \<not> (b3 \<and> (b1 \<or> b2)) then Some (low_bits b0 b1 b2 b3)
      else None)"
  by (cases b0; cases b1; cases b2; cases b3; cases b4; cases b5; cases b6; cases b7)
    (simp_all add: hex_val_def ord_def low_bits_def)

lemma is_hex_code [code]: "is_hex c = (case hex_val c of None \<Rightarrow> False | Some _ \<Rightarrow> True)"
  by (simp add: is_hex_def split: option.splits)

lemma lower_char_code [code]:
  "lower_char (Char b0 b1 b2 b3 b4 b5 b6 b7) =
     (if \<not> b7 \<and> b6 \<and> \<not> b5 \<and> (b0 \<or> b1 \<or> b2 \<or> b3 \<or> b4) \<and> \<not> (b4 \<and> b3 \<and> (b2 \<or> (b1 \<and> b0)))
      then Char b0 b1 b2 b3 b4 True b6 b7 else Char b0 b1 b2 b3 b4 b5 b6 b7)"
  by (cases b0; cases b1; cases b2; cases b3; cases b4; cases b5; cases b6; cases b7)
    (simp_all add: lower_char_def ord_def char_of_def bit_0)

lemma digit_char_code [code]:
  "digit_char d = (if d < 16 then ''0123456789abcdef'' ! d else char_of (87 + d))"
proof -
  have "list_all (\<lambda>d. digit_char d = ''0123456789abcdef'' ! d) [0..<16]" by code_simp
  then have "d < 16 \<Longrightarrow> digit_char d = ''0123456789abcdef'' ! d" for d
    by (simp add: list_all_iff)
  then show ?thesis by (simp add: digit_char_def)
qed

lemma ord_lower: "ord (lower_char c) = (if 65 \<le> ord c \<and> ord c \<le> 90 then ord c + 32 else ord c)"
  by (simp add: lower_char_def)

lemma ord_upper: "ord (upper_char c) = (if 97 \<le> ord c \<and> ord c \<le> 122 then ord c - 32 else ord c)"
proof -
  have "ord c - 32 < 256" using ord_bound [of c] by arith
  then show ?thesis by (simp add: upper_char_def)
qed

lemma ord_digit_char: "d < 36 \<Longrightarrow> ord (digit_char d) = (if d < 10 then 48 + d else 87 + d)"
  by (simp add: digit_char_def)

lemma char_eqI: "ord c = ord d \<Longrightarrow> c = d"
  by simp

lemma lower_lower_char [simp]: "lower_char (lower_char c) = lower_char c"
  by (rule char_eqI) (simp add: ord_lower)

lemma lower_upper_char [simp]: "lower_char (upper_char c) = lower_char c"
  by (rule char_eqI) (auto simp: ord_lower ord_upper)

lemma hex_val_lower [simp]: "hex_val (lower_char c) = hex_val c"
  by (auto simp: hex_val_def ord_lower)

lemma hex_val_upper [simp]: "hex_val (upper_char c) = hex_val c"
  by (auto simp: hex_val_def ord_upper)

lemma is_hex_lower [simp]: "is_hex (lower_char c) = is_hex c"
  by (simp add: is_hex_def)

lemma is_hex_upper [simp]: "is_hex (upper_char c) = is_hex c"
  by (simp add: is_hex_def)

lemma hex_val_digit_char [simp]: "d < 16 \<Longrightarrow> hex_val (digit_char d) = Some d"
  by (auto simp: hex_val_def ord_digit_char)

lemma is_hex_digit_char [simp]: "d < 16 \<Longrightarrow> is_hex (digit_char d)"
  by (simp add: is_hex_def)

lemma hex_val_bound: "hex_val c = Some d \<Longrightarrow> d < 16"
  by (auto simp: hex_val_def split: if_splits)

lemma is_digit_hex: "is_digit c \<Longrightarrow> is_hex c"
  by (auto simp: is_digit_def is_hex_def hex_val_def)

lemma is_digit_digit_char [simp]: "d < 10 \<Longrightarrow> is_digit (digit_char d)"
  by (auto simp: is_digit_def ord_digit_char)

lemma lower_digit_char [simp]: "d < 36 \<Longrightarrow> lower_char (digit_char d) = digit_char d"
  by (rule char_eqI) (auto simp: ord_lower ord_digit_char)

lemma digit_char_hex_val: "hex_val c = Some d \<Longrightarrow> digit_char d = lower_char c"
proof (rule char_eqI)
  assume h: "hex_val c = Some d"
  then have "d < 16" by (rule hex_val_bound)
  with h show "ord (digit_char d) = ord (lower_char c)"
    by (simp add: ord_lower ord_digit_char) (auto simp: hex_val_def split: if_splits)
qed

section \<open>Strings\<close>

definition lower :: "string \<Rightarrow> string" where
  "lower s = map lower_char s"

lemma lower_idem [simp]: "lower (lower s) = lower s"
  by (simp add: lower_def)

lemma length_lower [simp]: "length (lower s) = length s"
  by (simp add: lower_def)

lemma lower_append [simp]: "lower (s @ t) = lower s @ lower t"
  by (simp add: lower_def)

lemma lower_drop: "lower (drop n s) = drop n (lower s)"
  by (simp add: lower_def drop_map)

lemma lower_take: "lower (take n s) = take n (lower s)"
  by (simp add: lower_def take_map)

lemma lower_Nil_iff [simp]: "lower s = [] \<longleftrightarrow> s = []"
  by (simp add: lower_def)

text \<open>\<open>s.js_slice(a, b)\<close> with \<open>0 \<le> a \<le> b\<close>.\<close>

definition js_slice :: "nat \<Rightarrow> nat \<Rightarrow> 'a list \<Rightarrow> 'a list" where
  "js_slice a b s = take (b - a) (drop a s)"

lemma length_js_slice: "length (js_slice a b s) = min (b - a) (length s - a)"
  by (simp add: js_slice_def)

definition pad_start :: "nat \<Rightarrow> char \<Rightarrow> string \<Rightarrow> string" where
  "pad_start n c s = replicate (n - length s) c @ s"

lemma length_pad_start [simp]: "length (pad_start n c s) = max n (length s)"
  by (simp add: pad_start_def)

text \<open>\<open>s.split(c)\<close> for a single separator character.\<close>

fun split_on :: "char \<Rightarrow> string \<Rightarrow> string list" where
  "split_on c [] = [[]]"
| "split_on c (x # xs) =
     (if x = c then [] # split_on c xs
      else (case split_on c xs of [] \<Rightarrow> [[x]] | p # ps \<Rightarrow> (x # p) # ps))"

fun join_with :: "char \<Rightarrow> string list \<Rightarrow> string" where
  "join_with c [] = []"
| "join_with c [s] = s"
| "join_with c (s # ss) = s @ c # join_with c ss"

lemma split_on_nonempty [simp]: "split_on c s \<noteq> []"
  by (induction s) (auto split: list.splits)

lemma split_on_no_sep: "c \<notin> set s \<Longrightarrow> split_on c s = [s]"
  by (induction s) auto

lemma split_on_append: "c \<notin> set s \<Longrightarrow> split_on c (s @ c # t) = s # split_on c t"
  by (induction s) auto

lemma split_on_parts: "p \<in> set (split_on c s) \<Longrightarrow> c \<notin> set p"
  by (induction s arbitrary: p) (auto split: list.splits if_splits)

lemma join_split [simp]: "join_with c (split_on c s) = s"
proof (induction s)
  case Nil
  then show ?case by simp
next
  case (Cons x xs)
  obtain p ps where sp: "split_on c xs = p # ps"
    by (cases "split_on c xs") auto
  have j: "\<And>y. join_with c ((y # p) # ps) = y # join_with c (p # ps)"
    by (cases ps) auto
  show ?case using Cons sp j by auto
qed

text \<open>Prefix tests and stripping.\<close>

definition starts_with :: "string \<Rightarrow> string \<Rightarrow> bool" where
  "starts_with p s \<longleftrightarrow> take (length p) s = p"

lemma starts_with_append [simp]: "starts_with p (p @ s)"
  by (simp add: starts_with_def)

lemma starts_withE: "starts_with p s \<Longrightarrow> s = p @ drop (length p) s"
  by (metis starts_with_def append_take_drop_id)

fun strip_while :: "('a \<Rightarrow> bool) \<Rightarrow> 'a list \<Rightarrow> 'a list" where
  "strip_while p [] = []"
| "strip_while p (x # xs) = (if p x then strip_while p xs else x # xs)"

lemma strip_while_dropWhile: "strip_while p xs = dropWhile p xs"
  by (induction xs) auto

section \<open>Radix conversion\<close>

fun to_base :: "nat \<Rightarrow> nat \<Rightarrow> nat list" where
  "to_base b n = (if b < 2 \<or> n < b then [n] else to_base b (n div b) @ [n mod b])"

declare to_base.simps [simp del]

lemma to_base_small: "n < b \<Longrightarrow> to_base b n = [n]"
  by (subst to_base.simps) simp

lemma to_base_step: "2 \<le> b \<Longrightarrow> b \<le> n \<Longrightarrow> to_base b n = to_base b (n div b) @ [n mod b]"
  by (subst to_base.simps) simp

definition of_base :: "nat \<Rightarrow> nat list \<Rightarrow> nat" where
  "of_base b ds = foldl (\<lambda>a d. a * b + d) 0 ds"

lemma of_base_Nil [simp]: "of_base b [] = 0"
  by (simp add: of_base_def)

lemma of_base_snoc [simp]: "of_base b (ds @ [d]) = of_base b ds * b + d"
  by (simp add: of_base_def)

lemma foldl_base:
  fixes a b :: nat
  shows "foldl (\<lambda>a d. a * b + d) a ds = a * b ^ length ds + foldl (\<lambda>a d. a * b + d) 0 ds"
proof (induction ds arbitrary: a)
  case (Cons d ds)
  have "foldl (\<lambda>a d. a * b + d) a (d # ds) =
        (a * b + d) * b ^ length ds + foldl (\<lambda>a d. a * b + d) 0 ds"
    using Cons [of "a * b + d"] by simp
  moreover have "foldl (\<lambda>a d. a * b + d) 0 (d # ds) =
        d * b ^ length ds + foldl (\<lambda>a d. a * b + d) 0 ds"
    using Cons [of d] by simp
  ultimately show ?case by (simp add: add_mult_distrib)
qed simp

lemma of_base_append: "of_base b (xs @ ys) = of_base b xs * b ^ length ys + of_base b ys"
  by (simp add: of_base_def foldl_base [of b "foldl (\<lambda>a d. a * b + d) 0 xs"])

lemma of_base_Cons: "of_base b (d # ds) = d * b ^ length ds + of_base b ds"
  using of_base_append [of b "[d]" ds] by (simp add: of_base_def)

lemma of_base_replicate0 [simp]: "of_base b (replicate n 0 @ ds) = of_base b ds"
  by (induction n) (simp_all add: of_base_Cons)

lemma of_base_bound: "\<forall>d \<in> set ds. d < b \<Longrightarrow> of_base b ds < b ^ length ds"
proof (induction ds rule: rev_induct)
  case (snoc d ds)
  then have "of_base b ds + 1 \<le> b ^ length ds" and "d < b" by auto
  then have "(of_base b ds + 1) * b \<le> b ^ length ds * b" by (intro mult_le_mono1)
  moreover have "(of_base b ds + 1) * b = of_base b ds * b + b" by (simp add: algebra_simps)
  ultimately have "of_base b ds * b + b \<le> b ^ length (ds @ [d])" by (simp add: mult.commute)
  with \<open>d < b\<close> show ?case by (simp del: length_append)
qed simp

lemma of_to_base [simp]: "2 \<le> b \<Longrightarrow> of_base b (to_base b n) = n"
proof (induction b n rule: to_base.induct)
  case (1 b n)
  show ?case
  proof (cases "n < b")
    case True
    then show ?thesis by (simp add: to_base_small of_base_Cons)
  next
    case False
    with 1 show ?thesis by (simp add: to_base_step)
  qed
qed

lemma to_base_digits: "2 \<le> b \<Longrightarrow> d \<in> set (to_base b n) \<Longrightarrow> d < b"
proof (induction b n rule: to_base.induct)
  case (1 b n)
  then show ?case by (cases "n < b") (auto simp: to_base_small to_base_step)
qed

lemma to_base_nonempty [simp]: "to_base b n \<noteq> []"
  by (subst to_base.simps) simp

lemma to_base_hd: "2 \<le> b \<Longrightarrow> hd (to_base b n) = 0 \<Longrightarrow> n = 0"
proof (induction b n rule: to_base.induct)
  case (1 b n)
  show ?case
  proof (cases "n < b")
    case False
    with 1 have "n div b = 0" by (simp add: to_base_step)
    with False 1(2) show ?thesis by (simp add: div_eq_0_iff)
  qed (use 1 in \<open>simp add: to_base_small\<close>)
qed

lemma of_base_inj:
  "length xs = length ys \<Longrightarrow> \<forall>d \<in> set xs. d < b \<Longrightarrow> \<forall>d \<in> set ys. d < b \<Longrightarrow>
   of_base b xs = of_base b ys \<Longrightarrow> xs = ys"
proof (induction xs arbitrary: ys rule: rev_induct)
  case (snoc x xs)
  obtain y ys' where ys: "ys = ys' @ [y]"
    using snoc.prems(1) by (cases ys rule: rev_cases) auto
  have xy: "x < b" "y < b" using snoc.prems ys by auto
  have eq: "of_base b xs * b + x = of_base b ys' * b + y" using snoc.prems ys by simp
  from eq have "(of_base b xs * b + x) mod b = (of_base b ys' * b + y) mod b" by simp
  with xy have "x = y" by simp
  with eq xy have "of_base b xs = of_base b ys'" by simp
  with \<open>x = y\<close> snoc.IH [of ys'] snoc.prems ys show ?case by simp
qed auto

end
