(* ===== verification/JsNumbers.thy ===== *)
theory JsNumbers
  imports JsStrings
begin

text \<open>
  Printing and parsing of numbers as the program does it: \<open>toString(radix)\<close>, \<open>BigInt(text)\<close> with
  its full literal grammar, and the anchored regular expressions over digits.  The parse/print
  round trips proved here carry the encoders, the CAIP parsers and the amount formatter.
\<close>

section \<open>Printing\<close>

definition show_base :: "nat \<Rightarrow> nat \<Rightarrow> string" where
  "show_base b n = map digit_char (to_base b n)"

abbreviation show_nat :: "nat \<Rightarrow> string" where "show_nat n \<equiv> show_base 10 n"
abbreviation show_hex :: "nat \<Rightarrow> string" where "show_hex n \<equiv> show_base 16 n"

definition show_int :: "int \<Rightarrow> string" where
  "show_int i = (if i < 0 then CHR ''-'' # show_nat (nat (- i)) else show_nat (nat i))"

text \<open>\<open>n.toString(16).padStart(w, "0")\<close>.\<close>

definition hex_padded :: "nat \<Rightarrow> nat \<Rightarrow> string" where
  "hex_padded w n = pad_start w CHR ''0'' (show_hex n)"

section \<open>Parsing\<close>

definition digit_val :: "nat \<Rightarrow> char \<Rightarrow> nat option" where
  "digit_val b c = (case hex_val c of Some d \<Rightarrow> if d < b then Some d else None | None \<Rightarrow> None)"

definition digits_of :: "nat \<Rightarrow> string \<Rightarrow> nat list" where
  "digits_of b s = map (\<lambda>c. case digit_val b c of Some d \<Rightarrow> d | None \<Rightarrow> 0) s"

text \<open>A non-empty run of digits of the radix.\<close>

definition parse_base :: "nat \<Rightarrow> string \<Rightarrow> nat option" where
  "parse_base b s =
     (if s \<noteq> [] \<and> (\<forall>c \<in> set s. digit_val b c \<noteq> None) then Some (of_base b (digits_of b s)) else None)"

definition is_space :: "char \<Rightarrow> bool" where
  "is_space c \<longleftrightarrow> (9 \<le> ord c \<and> ord c \<le> 13) \<or> ord c = 32 \<or> ord c = 160"

definition trim :: "string \<Rightarrow> string" where
  "trim s = rev (strip_while is_space (rev (strip_while is_space s)))"

text \<open>
  \<open>BigInt(text)\<close>: surrounding white space is ignored, the empty string is zero, a decimal literal
  may carry a sign, and a radix prefix (\<open>0x\<close>, \<open>0o\<close>, \<open>0b\<close>, either case) excludes one.  \<open>None\<close> is
  the \<open>SyntaxError\<close>.
\<close>

definition bigint_of :: "string \<Rightarrow> int option" where
  "bigint_of text =
     (let s = trim text in
      case s of
        [] \<Rightarrow> Some 0
      | c # r \<Rightarrow>
          if c = CHR ''0'' \<and> r \<noteq> [] \<and> lower_char (hd r) = CHR ''x'' then map_option int (parse_base 16 (tl r))
          else if c = CHR ''0'' \<and> r \<noteq> [] \<and> lower_char (hd r) = CHR ''o'' then map_option int (parse_base 8 (tl r))
          else if c = CHR ''0'' \<and> r \<noteq> [] \<and> lower_char (hd r) = CHR ''b'' then map_option int (parse_base 2 (tl r))
          else if c = CHR ''-'' then map_option (\<lambda>n. - int n) (parse_base 10 r)
          else if c = CHR ''+'' then map_option int (parse_base 10 r)
          else map_option int (parse_base 10 s))"

section \<open>Regular expressions over digits\<close>

text \<open>\<open>/^0x[0-9a-fA-F]{n}$/\<close>.\<close>

definition hex_literal :: "nat \<Rightarrow> string \<Rightarrow> bool" where
  "hex_literal n s \<longleftrightarrow> starts_with ''0x'' s \<and> length s = n + 2 \<and> (\<forall>c \<in> set (drop 2 s). is_hex c)"

text \<open>\<open>/^0x[0-9a-fA-F]+$/\<close>.\<close>

definition hex_run :: "string \<Rightarrow> bool" where
  "hex_run s \<longleftrightarrow> starts_with ''0x'' s \<and> 2 < length s \<and> (\<forall>c \<in> set (drop 2 s). is_hex c)"

text \<open>\<open>/^0x([0-9a-fA-F]{2})*$/\<close>.\<close>

definition hex_bytes_literal :: "string \<Rightarrow> bool" where
  "hex_bytes_literal s \<longleftrightarrow>
     starts_with ''0x'' s \<and> even (length s) \<and> (\<forall>c \<in> set (drop 2 s). is_hex c)"

text \<open>\<open>/^[1-9]\d*$/\<close> and \<open>/^(?:0|[1-9][0-9]*)$/\<close>.\<close>

definition positive_decimal :: "string \<Rightarrow> bool" where
  "positive_decimal s \<longleftrightarrow> s \<noteq> [] \<and> (\<forall>c \<in> set s. is_digit c) \<and> hd s \<noteq> CHR ''0''"

definition canonical_decimal :: "string \<Rightarrow> bool" where
  "canonical_decimal s \<longleftrightarrow> s = ''0'' \<or> positive_decimal s"

section \<open>Integer ranges\<close>

definition max_safe :: int where "max_safe = 9007199254740991"
definition uint256_max :: int where "uint256_max = 2 ^ 256 - 1"
definition uint128_max :: int where "uint128_max = 2 ^ 128 - 1"
definition u64_max :: int where "u64_max = 2 ^ 64 - 1"
definition i64_max :: int where "i64_max = 2 ^ 63 - 1"

lemma uint256_max_code [code]:
  "uint256_max = 115792089237316195423570985008687907853269984665640564039457584007913129639935"
  by (simp add: uint256_max_def)

text \<open>\<open>Number.isSafeInteger\<close>.\<close>

definition safe_integer :: "int \<Rightarrow> bool" where
  "safe_integer n \<longleftrightarrow> - max_safe \<le> n \<and> n \<le> max_safe"

section \<open>Round trips\<close>

lemma digit_char_0: "digit_char 0 = CHR ''0''"
  by (rule char_eqI) (simp add: ord_digit_char, simp add: ord_def)

lemma is_hex_0 [simp]: "is_hex CHR ''0''"
  by (simp add: is_hex_def hex_val_def ord_def)

lemma digit_val_hex [simp]: "digit_val 16 c = hex_val c"
  by (auto simp: digit_val_def dest: hex_val_bound split: option.splits)

lemma digit_val_bound: "digit_val b c = Some d \<Longrightarrow> d < b"
  by (auto simp: digit_val_def split: option.splits if_splits)

lemma digit_val_digit_char: "d < b \<Longrightarrow> b \<le> 16 \<Longrightarrow> digit_val b (digit_char d) = Some d"
  by (simp add: digit_val_def)

lemma digits_of_bound: "0 < b \<Longrightarrow> d \<in> set (digits_of b s) \<Longrightarrow> d < b"
  by (auto simp: digits_of_def dest: digit_val_bound split: option.splits)

lemma digits_of_show: "b \<le> 16 \<Longrightarrow> \<forall>d \<in> set ds. d < b \<Longrightarrow> digits_of b (map digit_char ds) = ds"
  by (induction ds) (auto simp: digits_of_def digit_val_digit_char)

lemma show_base_nonempty [simp]: "show_base b n \<noteq> []"
  by (simp add: show_base_def)

lemma show_base_hex: "2 \<le> b \<Longrightarrow> b \<le> 16 \<Longrightarrow> c \<in> set (show_base b n) \<Longrightarrow> is_hex c"
  using to_base_digits [of b _ n] by (force simp: show_base_def)

lemma show_nat_digits: "c \<in> set (show_nat n) \<Longrightarrow> is_digit c"
  using to_base_digits [of 10 _ n] by (auto simp: show_base_def)

lemma parse_show [simp]: "2 \<le> b \<Longrightarrow> b \<le> 16 \<Longrightarrow> parse_base b (show_base b n) = Some n"
  using to_base_digits [of b _ n]
  by (auto simp: parse_base_def show_base_def digits_of_show digit_val_digit_char)

lemma parse_base_replicate0:
  assumes "parse_base b s = Some n" "0 < b"
  shows "parse_base b (replicate k CHR ''0'' @ s) = Some n"
proof -
  have z: "digit_val b CHR ''0'' = Some 0"
    using assms(2) by (simp add: digit_val_def hex_val_def ord_def)
  then have "digits_of b (replicate k CHR ''0'' @ s) = replicate k 0 @ digits_of b s"
    by (simp add: digits_of_def)
  with assms z show ?thesis by (auto simp: parse_base_def split: if_splits)
qed

lemma parse_hex_padded [simp]: "parse_base 16 (hex_padded w n) = Some n"
  by (simp add: hex_padded_def pad_start_def parse_base_replicate0)

lemma to_base_length: "2 \<le> b \<Longrightarrow> 0 < k \<Longrightarrow> n < b ^ k \<Longrightarrow> length (to_base b n) \<le> k"
proof (induction b n arbitrary: k rule: to_base.induct)
  case (1 b n)
  show ?case
  proof (cases "n < b")
    case False
    then obtain k' where k: "k = Suc k'" "0 < k'"
      using 1(3,4) by (cases k; cases "k - 1") auto
    then have "n div b < b ^ k'" using 1(2,4) by (simp add: less_mult_imp_div_less mult.commute)
    then have "length (to_base b (n div b)) \<le> k'" using 1 False k by auto
    then show ?thesis using False 1(2) k by (simp add: to_base_step)
  qed (use 1 in \<open>simp add: to_base_small\<close>)
qed

lemma length_hex_padded: "0 < w \<Longrightarrow> n < 16 ^ w \<Longrightarrow> length (hex_padded w n) = w"
  using to_base_length [of 16 w n] by (simp add: hex_padded_def show_base_def)

lemma hex_padded_hex: "c \<in> set (hex_padded w n) \<Longrightarrow> is_hex c"
  using show_base_hex [of 16 c n]
  by (auto simp: hex_padded_def pad_start_def)

lemma lower_show_base: "2 \<le> b \<Longrightarrow> b \<le> 16 \<Longrightarrow> lower (show_base b n) = show_base b n"
  using to_base_digits [of b _ n] by (fastforce simp: show_base_def lower_def)

lemma lower_char_zero [simp]: "lower_char CHR ''0'' = CHR ''0''"
  by (simp add: lower_char_def ord_def)

lemma lower_hex_padded [simp]: "lower (hex_padded w n) = hex_padded w n"
  using lower_show_base [of 16 n] by (simp add: hex_padded_def pad_start_def lower_def)

lemma hex_padded_inj: "hex_padded w m = hex_padded w n \<Longrightarrow> m = n"
  by (metis option.inject parse_hex_padded)

lemma show_base_inj: "2 \<le> b \<Longrightarrow> b \<le> 16 \<Longrightarrow> show_base b m = show_base b n \<Longrightarrow> m = n"
  by (metis option.inject parse_show)

text \<open>A canonical decimal prints back as itself.\<close>

lemma to_base_of_base:
  assumes "2 \<le> b" "ds \<noteq> []" "\<forall>d \<in> set ds. d < b" "length ds = 1 \<or> hd ds \<noteq> 0"
  shows "to_base b (of_base b ds) = ds"
  using assms
proof (induction ds rule: rev_induct)
  case (snoc d ds)
  show ?case
  proof (cases "ds = []")
    case True
    with snoc show ?thesis by (simp add: to_base_small of_base_Cons)
  next
    case False
    with snoc.prems have h: "hd ds \<noteq> 0" "d < b" by auto
    have "of_base b ds \<noteq> 0"
    proof
      assume "of_base b ds = 0"
      moreover obtain x xs where "ds = x # xs" using False by (cases ds) auto
      ultimately show False using h snoc.prems by (auto simp: of_base_Cons)
    qed
    then have "b \<le> of_base b ds * b + d" using snoc.prems
      by (metis One_nat_def Suc_leI le_add1 le_trans mult_le_mono1 nat_mult_1 neq0_conv)
    moreover have "to_base b (of_base b ds) = ds" using snoc False h by auto
    ultimately show ?thesis using snoc.prems h by (simp add: to_base_step)
  qed
qed simp

lemma digit_val_10: "digit_val 10 c \<noteq> None \<longleftrightarrow> is_digit c"
  by (auto simp: digit_val_def hex_val_def is_digit_def split: option.splits)

lemma map_digit_char_digits:
  assumes "\<forall>c \<in> set s. is_digit c"
  shows "map digit_char (digits_of 10 s) = s"
  using assms
proof (induction s)
  case (Cons c s)
  have "digit_val 10 c = Some (ord c - 48)" "ord c - 48 < 10"
    using Cons.prems by (auto simp: is_digit_def digit_val_def hex_val_def)
  moreover have "digit_char (ord c - 48) = c"
  proof -
    have "ord (digit_char (ord c - 48)) = 48 + (ord c - 48)" and "48 \<le> ord c"
      using Cons.prems by (auto simp: is_digit_def ord_digit_char simp del: ord_inject)
    then have "ord (digit_char (ord c - 48)) = ord c" by linarith
    then show ?thesis by simp
  qed
  ultimately show ?case using Cons by (simp add: digits_of_def digit_val_10 [symmetric])
qed (simp add: digits_of_def)

lemma parse_canonical_decimal:
  assumes "canonical_decimal s"
  shows "\<exists>n. parse_base 10 s = Some n \<and> show_nat n = s"
proof -
  have d: "s \<noteq> []" "\<forall>c \<in> set s. is_digit c" "length s = 1 \<or> hd s \<noteq> CHR ''0''"
    using assms by (auto simp: canonical_decimal_def positive_decimal_def is_digit_def ord_def)
  have p: "parse_base 10 s = Some (of_base 10 (digits_of 10 s))"
    using d digit_val_10 by (auto simp: parse_base_def)
  have b: "\<forall>x \<in> set (digits_of 10 s). x < 10" using digits_of_bound [of 10] by auto
  have l: "length (digits_of 10 s) = length s" by (simp add: digits_of_def)
  have "hd (digits_of 10 s) = 0 \<Longrightarrow> hd s = CHR ''0''"
  proof -
    assume z: "hd (digits_of 10 s) = 0"
    have "digit_char (hd (digits_of 10 s)) = hd s"
      using map_digit_char_digits [OF d(2)] d(1) l by (metis hd_map length_0_conv)
    with z show "hd s = CHR ''0''" by (simp add: digit_char_0)
  qed
  with d l have "length (digits_of 10 s) = 1 \<or> hd (digits_of 10 s) \<noteq> 0" by auto
  then have "to_base 10 (of_base 10 (digits_of 10 s)) = digits_of 10 s"
    using b d(1) l by (intro to_base_of_base) auto
  with p map_digit_char_digits [OF d(2)] show ?thesis by (simp add: show_base_def)
qed

lemma canonical_decimal_show [simp]: "canonical_decimal (show_nat n)"
proof (cases "n = 0")
  case True
  then show ?thesis
    by (simp add: canonical_decimal_def show_base_def to_base_small digit_char_0)
next
  case False
  have "hd (show_nat n) \<noteq> CHR ''0''"
  proof
    assume "hd (show_nat n) = CHR ''0''"
    then have "digit_char (hd (to_base 10 n)) = CHR ''0''" by (simp add: show_base_def hd_map)
    then have "ord (digit_char (hd (to_base 10 n))) = 48" by (simp add: ord_def)
    moreover have "hd (to_base 10 n) < 10"
      using to_base_digits [of 10 "hd (to_base 10 n)" n] by simp
    ultimately have "hd (to_base 10 n) = 0" by (simp add: ord_digit_char)
    then show False using False to_base_hd [of 10 n] by simp
  qed
  then show ?thesis using show_nat_digits by (auto simp: canonical_decimal_def positive_decimal_def)
qed

lemma parse_zero: "parse_base 10 ''0'' = Some 0"
  by (simp add: parse_base_def digits_of_def digit_val_def hex_val_def ord_def of_base_Cons)

lemma show_nat_positive:
  assumes "0 < n"
  shows "positive_decimal (show_nat n)"
proof -
  have "parse_base 10 (show_nat n) = Some n" by (rule parse_show) simp_all
  then have "show_nat n \<noteq> ''0''" using assms parse_zero by (metis option.inject less_irrefl)
  then show ?thesis using canonical_decimal_show [of n] by (simp add: canonical_decimal_def)
qed

lemma strip_while_none: "(\<forall>c \<in> set s. \<not> p c) \<Longrightarrow> strip_while p s = s"
  by (cases s) auto

lemma trim_no_space: "(\<forall>c \<in> set s. \<not> is_space c) \<Longrightarrow> trim s = s"
  by (simp add: trim_def strip_while_none)

lemma is_hex_not_space: "is_hex c \<Longrightarrow> \<not> is_space c"
  by (auto simp: is_hex_def hex_val_def is_space_def split: if_splits)

lemma bigint_of_decimal:
  assumes "canonical_decimal s"
  shows "bigint_of s = map_option int (parse_base 10 s)"
proof -
  have d: "s \<noteq> []" "\<forall>c \<in> set s. is_digit c"
    using assms by (auto simp: canonical_decimal_def positive_decimal_def is_digit_def ord_def)
  have t: "trim s = s" using d is_digit_hex is_hex_not_space by (intro trim_no_space) auto
  obtain c r where s: "s = c # r" using d by (cases s) auto
  have "is_digit c" using d s by simp
  then have c: "c \<noteq> CHR ''-''" "c \<noteq> CHR ''+''" by (auto simp: is_digit_def ord_def)
  have r: "r \<noteq> [] \<Longrightarrow> is_digit (hd r)" using d s by (cases r) auto
  have nl: "\<And>x. is_digit x \<Longrightarrow> lower_char x = x" by (rule char_eqI) (auto simp: ord_lower is_digit_def)
  have "\<And>x. is_digit x \<Longrightarrow> x \<noteq> CHR ''x'' \<and> x \<noteq> CHR ''o'' \<and> x \<noteq> CHR ''b''"
    by (auto simp: is_digit_def ord_def)
  with r nl have "r \<noteq> [] \<Longrightarrow> lower_char (hd r) \<notin> {CHR ''x'', CHR ''o'', CHR ''b''}" by auto
  with c t s show ?thesis by (auto simp: bigint_of_def Let_def)
qed

lemma bigint_of_show [simp]: "bigint_of (show_nat n) = Some (int n)"
  by (simp add: bigint_of_decimal)

lemma bigint_of_hex: "(\<forall>c \<in> set s. is_hex c) \<Longrightarrow> bigint_of (''0x'' @ s) = map_option int (parse_base 16 s)"
proof -
  assume h: "\<forall>c \<in> set s. is_hex c"
  have "trim (''0x'' @ s) = ''0x'' @ s"
    using h is_hex_not_space by (intro trim_no_space) (auto simp: is_space_def ord_def)
  then show ?thesis by (simp add: bigint_of_def lower_char_def ord_def)
qed

lemma parse_hex_Some: "s \<noteq> [] \<Longrightarrow> (\<forall>c \<in> set s. is_hex c) \<Longrightarrow> \<exists>n. parse_base 16 s = Some n"
  by (auto simp: parse_base_def is_hex_def)

lemma parse_hex_bound: "parse_base 16 s = Some n \<Longrightarrow> n < 16 ^ length s"
proof -
  assume p: "parse_base 16 s = Some n"
  have "of_base 16 (digits_of 16 s) < 16 ^ length (digits_of 16 s)"
    using digits_of_bound [of 16] by (intro of_base_bound) auto
  with p show ?thesis by (auto simp: parse_base_def digits_of_def split: if_splits)
qed

end
