(* ===== verification/Bytes.thy ===== *)
theory Bytes
  imports JsNumbers "HOL-Library.Word"
begin

text \<open>
  Byte arrays and the hexadecimal codec.  A \<open>Uint8Array\<close> is a list of 8-bit words.  The codec is
  the repository's own (wallet-engine/src/signers/rlp.ts, \<open>hexToBytes\<close>); its inverse prints two
  lower-case digits per byte.  On top of it stand the 32-byte word of the ABI and EIP-712
  encoders and the decoding lemmas that make concatenations of fixed-width fields unambiguous.
\<close>

type_synonym byte = "8 word"
type_synonym bytes = "byte list"

section \<open>Hexadecimal codec\<close>

definition byte_of_hex :: "char \<Rightarrow> char \<Rightarrow> byte" where
  "byte_of_hex c d =
     word_of_nat ((case hex_val c of Some x \<Rightarrow> x | None \<Rightarrow> 0) * 16
       + (case hex_val d of Some y \<Rightarrow> y | None \<Rightarrow> 0))"

fun byte_pairs :: "string \<Rightarrow> bytes" where
  "byte_pairs (c # d # s) = byte_of_hex c d # byte_pairs s"
| "byte_pairs _ = []"

text \<open>Complete bytes of hexadecimal digits, without a prefix; \<open>None\<close> is the error.\<close>

definition hex_decode :: "string \<Rightarrow> bytes option" where
  "hex_decode raw =
     (if odd (length raw) \<or> \<not> (\<forall>c \<in> set raw. is_hex c) then None else Some (byte_pairs raw))"

text \<open>\<open>hexToBytes\<close> of the RLP module also accepts an optional \<open>0x\<close> prefix.\<close>

definition hexToBytes :: "string \<Rightarrow> bytes option" where
  "hexToBytes hex = hex_decode (if starts_with ''0x'' hex then drop 2 hex else hex)"

definition byte_hex :: "byte \<Rightarrow> string" where
  "byte_hex b = [digit_char (unat b div 16), digit_char (unat b mod 16)]"

definition bytesToHex :: "bytes \<Rightarrow> string" where
  "bytesToHex bs = concat (map byte_hex bs)"

lemma unat_byte: "unat (b :: byte) < 256"
  using unsigned_less [of b, where ?'a = nat] by simp

lemma unat_word_of_nat_byte: "n < 256 \<Longrightarrow> unat (word_of_nat n :: byte) = n"
  by (simp add: unsigned_of_nat take_bit_eq_mod)

lemma byte_nibbles [simp]: "unat (b :: byte) div 16 < 16" "unat b mod 16 < 16"
  using unat_byte [of b] by auto

lemma byte_of_byte_hex [simp]:
  "byte_of_hex (digit_char (unat (b :: byte) div 16)) (digit_char (unat b mod 16)) = b"
  by (simp add: byte_of_hex_def)

lemma length_bytesToHex [simp]: "length (bytesToHex bs) = 2 * length bs"
  by (induction bs) (auto simp: bytesToHex_def byte_hex_def)

lemma bytesToHex_Nil [simp]: "bytesToHex [] = []"
  by (simp add: bytesToHex_def)

lemma bytesToHex_Cons: "bytesToHex (b # bs) = byte_hex b @ bytesToHex bs"
  by (simp add: bytesToHex_def)

lemma bytesToHex_append [simp]: "bytesToHex (xs @ ys) = bytesToHex xs @ bytesToHex ys"
  by (simp add: bytesToHex_def)

lemma bytesToHex_hex: "c \<in> set (bytesToHex bs) \<Longrightarrow> is_hex c"
  by (auto simp: bytesToHex_def byte_hex_def)

lemma lower_bytesToHex [simp]: "lower (bytesToHex bs) = bytesToHex bs"
proof (induction bs)
  case (Cons b bs)
  have "lower_char (digit_char (unat b div 16)) = digit_char (unat b div 16)"
    and "lower_char (digit_char (unat b mod 16)) = digit_char (unat b mod 16)"
    by (rule lower_digit_char, use byte_nibbles [of b] in linarith)+
  with Cons show ?case
    by (simp add: bytesToHex_Cons byte_hex_def lower_def)
qed (simp add: lower_def)

lemma byte_pairs_bytesToHex [simp]: "byte_pairs (bytesToHex bs) = bs"
  by (induction bs) (auto simp: bytesToHex_Cons byte_hex_def)

lemma bytesToHex_inj: "bytesToHex xs = bytesToHex ys \<longleftrightarrow> xs = ys"
  by (metis byte_pairs_bytesToHex)

lemma hex_not_x: "is_hex c \<Longrightarrow> c \<noteq> CHR ''x''"
  by (auto simp: is_hex_def hex_val_def ord_def)

lemma hex_no_prefix: "(\<forall>c \<in> set s. is_hex c) \<Longrightarrow> \<not> starts_with ''0x'' s"
  by (cases s; cases "tl s") (auto simp: starts_with_def dest: hex_not_x)

lemma hex_decode_bytesToHex [simp]: "hex_decode (bytesToHex bs) = Some bs"
  using bytesToHex_hex [of _ bs] by (auto simp: hex_decode_def)

lemma hexToBytes_bytesToHex [simp]: "hexToBytes (bytesToHex bs) = Some bs"
  using bytesToHex_hex [of _ bs] hex_no_prefix [of "bytesToHex bs"] by (simp add: hexToBytes_def)

lemma hex_decode_Some:
  "(\<forall>c \<in> set s. is_hex c) \<Longrightarrow> even (length s) \<Longrightarrow> hex_decode s = Some (byte_pairs s)"
  by (simp add: hex_decode_def)

lemma length_byte_pairs [simp]: "length (byte_pairs s) = length s div 2"
  by (induction s rule: byte_pairs.induct) auto

lemma byte_pairs_append: "even (length s) \<Longrightarrow> byte_pairs (s @ t) = byte_pairs s @ byte_pairs t"
  by (induction s rule: byte_pairs.induct) auto

lemma byte_pairs_lower [simp]: "byte_pairs (lower s) = byte_pairs s"
  by (induction s rule: byte_pairs.induct) (auto simp: lower_def byte_of_hex_def)

lemma byte_hex_of_hex:
  assumes "is_hex c" "is_hex d"
  shows "byte_hex (byte_of_hex c d) = [lower_char c, lower_char d]"
proof -
  obtain x y where xy: "hex_val c = Some x" "hex_val d = Some y"
    using assms by (auto simp: is_hex_def)
  then have b: "x < 16" "y < 16" by (auto dest: hex_val_bound)
  then have "unat (word_of_nat (x * 16 + y) :: byte) = x * 16 + y"
    by (intro unat_word_of_nat_byte) simp
  with xy b show ?thesis by (simp add: byte_hex_def byte_of_hex_def digit_char_hex_val)
qed

lemma bytesToHex_byte_pairs:
  "even (length s) \<Longrightarrow> (\<forall>c \<in> set s. is_hex c) \<Longrightarrow> bytesToHex (byte_pairs s) = lower s"
  by (induction s rule: byte_pairs.induct) (auto simp: bytesToHex_Cons byte_hex_of_hex lower_def)

lemma byte_pairs_inj:
  assumes "even (length s)" "\<forall>c \<in> set s. is_hex c" "even (length t)" "\<forall>c \<in> set t. is_hex c"
  shows "byte_pairs s = byte_pairs t \<longleftrightarrow> lower s = lower t"
  using assms by (metis bytesToHex_byte_pairs byte_pairs_lower)

section \<open>Fixed-width fields\<close>

text \<open>Concatenations whose first parts have equal length split in only one way.\<close>

lemma append_eq_split:
  "length a = length b \<Longrightarrow> a @ x = b @ y \<longleftrightarrow> a = b \<and> x = y"
  by simp

text \<open>Equal-width blocks: the list of blocks is determined by their concatenation.\<close>

lemma concat_blocks_inj:
  assumes "\<forall>x \<in> set xs. length x = n" "\<forall>y \<in> set ys. length y = n" "0 < n" "concat xs = concat ys"
  shows "xs = ys"
  using assms
proof (induction xs arbitrary: ys)
  case Nil
  then show ?case by (cases ys) auto
next
  case (Cons x xs)
  from Cons.prems obtain y ys' where ys: "ys = y # ys'"
    by (cases ys) auto
  have "length x = length y" using Cons.prems ys by simp
  with Cons.prems ys have "x = y" "concat xs = concat ys'" by simp_all
  moreover have "xs = ys'" using Cons.prems ys \<open>concat xs = concat ys'\<close> by (intro Cons.IH) simp_all
  ultimately show ?case using ys by simp
qed

text \<open>An unsigned integer as \<open>n\<close> big-endian bytes, by way of its padded hexadecimal text.\<close>

definition uint_bytes :: "nat \<Rightarrow> nat \<Rightarrow> bytes" where
  "uint_bytes n v = byte_pairs (hex_padded (2 * n) v)"

lemma length_uint_bytes: "0 < n \<Longrightarrow> v < 256 ^ n \<Longrightarrow> length (uint_bytes n v) = n"
  using length_hex_padded [of "2 * n" v] by (simp add: uint_bytes_def power_mult)

lemma uint_bytes_inj:
  assumes "0 < n" "u < 256 ^ n" "v < 256 ^ n" "uint_bytes n u = uint_bytes n v"
  shows "u = v"
proof -
  have "length (hex_padded (2 * n) u) = 2 * n" "length (hex_padded (2 * n) v) = 2 * n"
    using assms by (simp_all add: length_hex_padded power_mult)
  then have "lower (hex_padded (2 * n) u) = lower (hex_padded (2 * n) v)"
    using assms(4) by (simp add: uint_bytes_def byte_pairs_inj hex_padded_hex)
  then show ?thesis by (auto dest: hex_padded_inj)
qed

text \<open>The number that bytes spell, most significant first.\<close>

definition be_value :: "bytes \<Rightarrow> nat" where
  "be_value bs = of_base 256 (map unat bs)"

lemma be_value_byte_pairs:
  "even (length s) \<Longrightarrow> (\<forall>c \<in> set s. is_hex c) \<Longrightarrow> be_value (byte_pairs s) = of_base 16 (digits_of 16 s)"
proof (induction s rule: byte_pairs.induct)
  case (1 c d s)
  obtain x y where xy: "hex_val c = Some x" "hex_val d = Some y"
    using 1 by (auto simp: is_hex_def)
  then have b: "x < 16" "y < 16" by (auto dest: hex_val_bound)
  then have u: "unat (byte_of_hex c d) = x * 16 + y"
    using xy unat_word_of_nat_byte [of "x * 16 + y"] by (simp add: byte_of_hex_def)
  obtain k where k: "length s = 2 * k" using 1 by (auto elim: evenE)
  have "(256 :: nat) ^ k = 16 ^ (2 * k)" by (simp add: power_mult)
  with 1 xy u k show ?case
    by (simp add: be_value_def of_base_Cons digits_of_def algebra_simps)
qed (auto simp: be_value_def digits_of_def)

lemma be_value_uint_bytes:
  assumes "0 < n" "v < 256 ^ n"
  shows "be_value (uint_bytes n v) = v"
proof -
  have "even (length (hex_padded (2 * n) v))"
    using assms length_hex_padded [of "2 * n" v] by (simp add: power_mult)
  then have "be_value (uint_bytes n v) = of_base 16 (digits_of 16 (hex_padded (2 * n) v))"
    by (simp add: uint_bytes_def be_value_byte_pairs hex_padded_hex)
  moreover have "parse_base 16 (hex_padded (2 * n) v) = Some v" by simp
  ultimately show ?thesis by (simp add: parse_base_def split: if_splits)
qed

section \<open>Text as bytes\<close>

text \<open>\<open>new TextEncoder().encode(s)\<close> on ASCII text.\<close>

definition utf8 :: "string \<Rightarrow> bytes" where
  "utf8 s = map (\<lambda>c. word_of_nat (ord c)) s"

lemma utf8_inj: "utf8 s = utf8 t \<longleftrightarrow> s = t"
proof -
  have "inj (\<lambda>c. word_of_nat (ord c) :: byte)"
  proof (rule injI)
    fix c d assume "(word_of_nat (ord c) :: byte) = word_of_nat (ord d)"
    then have "unat (word_of_nat (ord c) :: byte) = unat (word_of_nat (ord d) :: byte)" by simp
    then show "c = d" using ord_bound [of c] ord_bound [of d] by (simp add: unat_word_of_nat_byte)
  qed
  then show ?thesis by (auto simp: utf8_def inj_map_eq_map)
qed

end
