(* ===== verification/Addresses.thy ===== *)
theory Addresses
  imports Bytes
begin

text \<open>
  packages/core/src/address-validation.ts: address shapes of the three chain families and the
  EIP-55 checksum.  The Keccak and SHA-256 functions come from @noble/hashes and are parameters.
  A checksummed address is proved to be a canonical form of the address: the function is
  idempotent and identifies exactly the spellings that differ in case only.
\<close>

definition zero_addr :: string where
  "zero_addr = ''0x0000000000000000000000000000000000000000''"

definition burn_prefixes :: "string list" where
  "burn_prefixes = [''dead'', ''deaf'', ''deed'', ''deec'']"

definition burn_sinks :: "string list" where
  "burn_sinks =
     [''0000000000000000000000000000000000000000'',
      ''0000000000000000000000000000000000000001'',
      ''000000000000000000000000000000000000dead'']"

definition evm_addr_re :: "string \<Rightarrow> bool" where
  "evm_addr_re s \<longleftrightarrow> hex_literal 40 s"

definition xrpl_base58 :: string where
  "xrpl_base58 = ''rpshnaf39wBUDNEGHJKLM4PQRST7VWXYZ2bcdeCg65jkm8oFqi1tuvAxyz''"

definition solana_base58 :: string where
  "solana_base58 = ''123456789ABCDEFGHJKLMNPQRSTUVWXYZabcdefghijkmnopqrstuvwxyz''"

section \<open>EIP-55\<close>

definition hash_nibble :: "bytes \<Rightarrow> nat \<Rightarrow> nat" where
  "hash_nibble hash i =
     (let b = (if i div 2 < length hash then unat (hash ! (i div 2)) else 0)
      in if even i then b div 16 else b mod 16)"

fun checksum_from :: "bytes \<Rightarrow> nat \<Rightarrow> string \<Rightarrow> string" where
  "checksum_from hash i [] = []"
| "checksum_from hash i (c # cs) =
     (if 8 \<le> hash_nibble hash i then upper_char c else c) # checksum_from hash (Suc i) cs"

definition toChecksumAddress :: "(bytes \<Rightarrow> bytes) \<Rightarrow> string \<Rightarrow> string option" where
  "toChecksumAddress keccak address =
     (if \<not> evm_addr_re address then None
      else let low = lower (drop 2 address); hash = keccak (utf8 low)
           in Some (''0x'' @ checksum_from hash 0 low))"

definition isChecksumAddress :: "(bytes \<Rightarrow> bytes) \<Rightarrow> string \<Rightarrow> bool" where
  "isChecksumAddress keccak address \<longleftrightarrow>
     evm_addr_re address \<and> toChecksumAddress keccak address = Some address"

section \<open>Solana and XRPL\<close>

definition base58_char :: "char \<Rightarrow> bool" where
  "base58_char c \<longleftrightarrow>
     (49 \<le> ord c \<and> ord c \<le> 57) \<or> (65 \<le> ord c \<and> ord c \<le> 72) \<or> (74 \<le> ord c \<and> ord c \<le> 78) \<or>
     (80 \<le> ord c \<and> ord c \<le> 90) \<or> (97 \<le> ord c \<and> ord c \<le> 107) \<or> (109 \<le> ord c \<and> ord c \<le> 122)"

fun index_of :: "'a list \<Rightarrow> 'a \<Rightarrow> nat option" where
  "index_of [] x = None"
| "index_of (y # ys) x = (if x = y then Some 0 else map_option Suc (index_of ys x))"

fun base58_value :: "string \<Rightarrow> nat \<Rightarrow> string \<Rightarrow> nat option" where
  "base58_value alphabet v [] = Some v"
| "base58_value alphabet v (c # cs) =
     (case index_of alphabet c of None \<Rightarrow> None | Some d \<Rightarrow> base58_value alphabet (v * 58 + d) cs)"

text \<open>The even-length hexadecimal text of a positive value; empty for zero.\<close>

definition significant_hex :: "nat \<Rightarrow> string" where
  "significant_hex v =
     (if v = 0 then []
      else let h = show_hex v
           in pad_start (if odd (length h) then length h + 1 else length h) CHR ''0'' h)"

definition leading :: "char \<Rightarrow> string \<Rightarrow> nat" where
  "leading c s = length (takeWhile (\<lambda>x. x = c) s)"

definition isValidSolanaAddress :: "string \<Rightarrow> bool" where
  "isValidSolanaAddress address \<longleftrightarrow>
     32 \<le> length address \<and> length address \<le> 44 \<and> (\<forall>c \<in> set address. base58_char c) \<and>
     (case base58_value solana_base58 0 address of None \<Rightarrow> False
      | Some v \<Rightarrow> leading CHR ''1'' address * 2 + length (significant_hex v) = 64)"

definition decodeXrplBase58 :: "string \<Rightarrow> bytes option" where
  "decodeXrplBase58 input =
     (if input = [] \<or> \<not> (\<forall>c \<in> set input. base58_char c) then None
      else case base58_value xrpl_base58 0 input of None \<Rightarrow> None
        | Some v \<Rightarrow> Some (replicate (leading CHR ''r'' input) 0 @ byte_pairs (significant_hex v)))"

definition hasXrplChecksum :: "(bytes \<Rightarrow> bytes) \<Rightarrow> string \<Rightarrow> bytes \<Rightarrow> bool" where
  "hasXrplChecksum sha256 input prefix =
     (case decodeXrplBase58 input of None \<Rightarrow> False
      | Some decoded \<Rightarrow>
          length prefix + 5 \<le> length decoded \<and> take (length prefix) decoded = prefix \<and>
          (let n = length decoded - 4; payload = take n decoded; checksum = drop n decoded
           in checksum = take 4 (sha256 (sha256 payload))))"

definition isValidXrplAddress :: "(bytes \<Rightarrow> bytes) \<Rightarrow> string \<Rightarrow> bool" where
  "isValidXrplAddress sha256 address =
     (case split_on CHR ''-'' address of
        [] \<Rightarrow> False
      | base # rest \<Rightarrow>
          let tag_ok = (case rest of [] \<Rightarrow> True
                | tag # _ \<Rightarrow> 1 \<le> length tag \<and> length tag \<le> 10 \<and> (\<forall>c \<in> set tag. is_digit c) \<and>
                    (case parse_base 10 tag of None \<Rightarrow> False | Some n \<Rightarrow> n \<le> 4294967295))
          in tag_ok \<and>
             (if starts_with ''r'' base then hasXrplChecksum sha256 base [0]
              else if starts_with ''X'' base then hasXrplChecksum sha256 base [5, 68]
              else if starts_with ''T'' base then hasXrplChecksum sha256 base [4, 147]
              else False))"

section \<open>Predicates used at the transfer boundary\<close>

definition isZeroAddress :: "string \<Rightarrow> bool" where
  "isZeroAddress address \<longleftrightarrow> lower address = zero_addr"

fun contains :: "string \<Rightarrow> string \<Rightarrow> bool" where
  "contains pat [] = (pat = [])"
| "contains pat (c # s) = (starts_with pat (c # s) \<or> contains pat s)"

definition isBurnAddress :: "string \<Rightarrow> bool" where
  "isBurnAddress address =
     (let low = lower address; clean = (if starts_with ''0x'' low then drop 2 low else low)
      in clean \<in> set burn_sinks \<or> (\<exists>p \<in> set burn_prefixes. starts_with p clean) \<or>
         contains ''dead'' clean)"

text \<open>\<open>isValidAddress(address, chainNamespace?)\<close>.\<close>

definition isValidAddress :: "(bytes \<Rightarrow> bytes) \<Rightarrow> string \<Rightarrow> string option \<Rightarrow> bool" where
  "isValidAddress sha256 address ns =
     (if address = [] then False
      else case ns of
        None \<Rightarrow> evm_addr_re address
      | Some n \<Rightarrow>
          if n = ''eip155'' \<or> n = [] then evm_addr_re address
          else if n = ''solana'' then isValidSolanaAddress address
          else if n = ''xrpl'' then isValidXrplAddress sha256 address
          else False)"

section \<open>Lemmas\<close>

lemma isValidAddress_eip155 [simp]: "isValidAddress sha a (Some ''eip155'') \<longleftrightarrow> evm_addr_re a"
  by (auto simp: isValidAddress_def evm_addr_re_def hex_literal_def)

lemma starts_0x: "starts_with ''0x'' s \<longleftrightarrow> (\<exists>r. s = ''0x'' @ r)"
proof
  assume "starts_with ''0x'' s"
  then have "s = ''0x'' @ drop 2 s" by (metis starts_withE length_0_conv list.size(4) numeral_2_eq_2 One_nat_def add_Suc_right add_0_right)
  then show "\<exists>r. s = ''0x'' @ r" ..
qed (auto simp: starts_with_def)

lemma evm_addr_iff: "evm_addr_re s \<longleftrightarrow> (\<exists>r. s = ''0x'' @ r \<and> length r = 40 \<and> (\<forall>c \<in> set r. is_hex c))"
  by (auto simp: evm_addr_re_def hex_literal_def starts_0x)

lemma lower_char_x [simp]: "lower_char CHR ''x'' = CHR ''x''"
  by (simp add: lower_char_def ord_def)

lemma lower_0x: "lower (''0x'' @ r) = ''0x'' @ lower r"
  by (simp add: lower_def)

lemma evm_addr_lower: "evm_addr_re a \<Longrightarrow> evm_addr_re (lower a)"
  unfolding evm_addr_iff by (auto simp: lower_def)

lemma lower_checksum_from: "lower (checksum_from h i s) = lower s"
  by (induction s arbitrary: i) (auto simp: lower_def)

lemma length_checksum_from [simp]: "length (checksum_from h i s) = length s"
  by (induction s arbitrary: i) auto

lemma checksum_from_hex: "(\<forall>c \<in> set s. is_hex c) \<Longrightarrow> (\<forall>c \<in> set (checksum_from h i s). is_hex c)"
  by (induction s arbitrary: i) auto

lemma toChecksumAddress_Some:
  assumes "toChecksumAddress k a = Some b"
  shows "evm_addr_re a \<and> evm_addr_re b \<and> lower b = lower a"
proof -
  have a: "evm_addr_re a"
    and b: "b = ''0x'' @ checksum_from (k (utf8 (lower (drop 2 a)))) 0 (lower (drop 2 a))"
    using assms by (auto simp: toChecksumAddress_def Let_def split: if_splits)
  obtain r where r: "a = ''0x'' @ r" "length r = 40" "\<forall>c \<in> set r. is_hex c"
    using a unfolding evm_addr_iff by blast
  have d: "drop 2 a = r" using r(1) by simp
  have "\<forall>c \<in> set (checksum_from (k (utf8 (lower r))) 0 (lower r)). is_hex c"
    by (rule checksum_from_hex) (use r in \<open>auto simp: lower_def\<close>)
  then have "evm_addr_re b" unfolding evm_addr_iff b d using r(2) by (intro exI conjI) auto
  moreover have "lower b = lower a"
    unfolding b d r(1) lower_0x lower_checksum_from by simp
  ultimately show ?thesis using a by simp
qed

lemma toChecksumAddress_total: "evm_addr_re a \<Longrightarrow> \<exists>b. toChecksumAddress k a = Some b"
  by (auto simp: toChecksumAddress_def Let_def)

lemma toChecksumAddress_lower_eq:
  assumes "evm_addr_re a" "evm_addr_re b" "lower a = lower b"
  shows "toChecksumAddress k a = toChecksumAddress k b"
proof -
  have "lower (drop 2 a) = lower (drop 2 b)" using assms(3) by (simp add: lower_drop)
  with assms show ?thesis by (simp add: toChecksumAddress_def)
qed

lemma toChecksumAddress_idem:
  assumes "toChecksumAddress k a = Some b"
  shows "toChecksumAddress k b = Some b"
  using assms toChecksumAddress_Some [OF assms] toChecksumAddress_lower_eq [of b a k] by simp

text \<open>
  The EIP-55 form is a canonical name of an address: two addresses have the same checksummed
  form exactly when they are the same 20 bytes, whatever the case they were written in, and
  that form passes the library's own checksum test.
\<close>

lemma checksum_canonical:
  assumes "evm_addr_re a" "evm_addr_re b"
  shows "(toChecksumAddress k a = toChecksumAddress k b \<longleftrightarrow> lower a = lower b) \<and>
    (\<forall>c. toChecksumAddress k a = Some c \<longrightarrow> isChecksumAddress k c)"
proof -
  obtain a' b' where "toChecksumAddress k a = Some a'" "toChecksumAddress k b = Some b'"
    using assms toChecksumAddress_total by blast
  note ab = this
  have "lower a' = lower a" "lower b' = lower b" "evm_addr_re a'"
    using ab toChecksumAddress_Some by blast+
  moreover have "toChecksumAddress k a' = Some a'"
    using ab(1) by (rule toChecksumAddress_idem)
  ultimately show ?thesis
    using ab toChecksumAddress_lower_eq [OF assms, of k] by (auto simp: isChecksumAddress_def)
qed

lemma checksum_canonical_witness:
  "toChecksumAddress (\<lambda>x. x @ [255]) (''0x'' @ replicate 40 CHR ''a'') =
     toChecksumAddress (\<lambda>x. x @ [255]) (''0x'' @ replicate 40 CHR ''A'')"
proof -
  have "evm_addr_re (''0x'' @ replicate 40 CHR ''a'')" "evm_addr_re (''0x'' @ replicate 40 CHR ''A'')"
    "lower (''0x'' @ replicate 40 CHR ''a'') = lower (''0x'' @ replicate 40 CHR ''A'')" by code_simp+
  with checksum_canonical show ?thesis by blast
qed

lemma isZeroAddress_valid: "isZeroAddress a \<Longrightarrow> lower a = zero_addr"
  by (simp add: isZeroAddress_def)

end
