(* ===== verification/SessionTypes.thy ===== *)
theory SessionTypes
  imports Addresses
begin

text \<open>
  The data of the session-key subsystem: packages/core/src/session-keys/types.ts and the error
  codes of errors.ts.  Records keep the field names of the TypeScript interfaces; an optional
  field is an \<open>option\<close>, a \<open>Record\<close> is an association list, and \<open>bigint\<close> and \<open>number\<close> fields
  are integers.  Error details are the text the code builds.
\<close>

section \<open>Errors\<close>

datatype sk_code =
    SkNotFound | SkExpired | SkRevoked | SkScopeExceeded | SkMethodForbidden
  | SkContractNotAllowed | SkChainNotAllowed | SkStorageUnavailable | SkEncryptionFailed
  | SkRequiredFieldsMissing | SkMaxTxCountExceeded | SkValueLimitExceeded
  | SkGasLimitExceeded | SkInvalidInput

datatype sk_error = SkError (sk_code_of: sk_code) (sk_detail: string)

text \<open>What an operation throws: a session-key error, a storage backend failure, or a plain \<open>Error\<close>.\<close>

datatype fault = SkFault sk_error | StoreFault string | PlainError string

abbreviation sk_fault :: "sk_code \<Rightarrow> string \<Rightarrow> fault" where
  "sk_fault c d \<equiv> SkFault (SkError c d)"

section \<open>Scope\<close>

datatype session_mode = Offchain | Eip7702 | AaModule

record session_period =
  p_amount :: int
  p_seconds :: int
  p_start :: int

record period_usage =
  periodIndex :: int
  periodSpent :: int

type_synonym 'v entries = "(string \<times> 'v) list"

record session_scope =
  expiry :: int
  maxTotalGas :: "int option"
  maxGasPerTx :: "int option"
  maxTotalValue :: "int option"
  maxValuePerTx :: "int option"
  maxTxCount :: "int option"
  allowedContracts :: "string list option"
  allowedMethods :: "string list option"
  tokenAllowances :: "int entries option"
  tokenMaxPerTx :: "int entries option"
  periodLimits :: "session_period entries option"
  allowedRecipients :: "string list option"
  nativeTransfer :: "string option"
  allowedChainIds :: "int list option"
  rails :: "string list option"
  mode :: session_mode

text \<open>\<open>Partial<SessionKeyScope>\<close> as handed to \<open>createSessionKey\<close>: only \<open>expiry\<close> and \<open>mode\<close> differ.\<close>

record scope_input =
  in_expiry :: "int option"
  in_mode :: "session_mode option"
  in_scope :: session_scope

text \<open>\<open>SessionKeyTransaction\<close>.\<close>

record session_tx =
  tx_to :: "string option"
  tx_value :: "string option"
  tx_data :: "string option"
  tx_chainId :: "int option"
  tx_gas :: "string option"

definition empty_tx :: session_tx where
  "empty_tx = \<lparr>tx_to = None, tx_value = None, tx_data = None, tx_chainId = None, tx_gas = None\<rparr>"

section \<open>Stored records\<close>

datatype cipher = Aes256Gcm | LegacyCtrHmac

record encrypted_key_pair =
  publicKey :: string
  encryptedPrivateKey :: string
  iv :: string
  salt :: string
  algorithm :: "cipher option"
  kdfIterations :: "int option"

record signed_authorization =
  a_authorization :: "string option"
  a_rawSignature :: "string option"
  a_message :: "string option"
  a_signerAddress :: string
  a_type :: session_mode
  a_delegationChainId :: "int option"

datatype key_status = Active | Revoked | Expired

record stored_key =
  key_id :: string
  keyPair :: encrypted_key_pair
  scope :: session_scope
  authorization :: signed_authorization
  status :: key_status
  createdAt :: int
  lastUsedAt :: int
  useCount :: int
  accumulatedValue :: "int option"
  accumulatedGas :: "int option"
  accumulatedTokenSpends :: "int entries option"
  periodUsage :: "period_usage entries option"

record key_bundle =
  b_id :: string
  b_privateKey :: string
  b_scope :: session_scope
  b_authorization :: signed_authorization
  b_signerAddress :: string

record key_usage =
  valueSpent :: int
  tokenSpent :: "int entries"
  txCount :: int

record key_info =
  i_id :: string
  i_publicKey :: string
  i_scope :: session_scope
  i_status :: key_status
  i_createdAt :: int
  i_expiresAt :: int
  i_useCount :: int
  i_signerAddress :: string
  i_authorized :: bool
  i_authorizationType :: session_mode
  i_authorizationMessage :: "string option"
  i_usage :: "key_usage option"

section \<open>Configuration\<close>

record manager_config =
  storagePrefix :: string
  defaultMaxTotalValue :: int
  defaultMaxTxCount :: int
  defaultExpiryMs :: int
  maxExpiryMs :: int
  requireAllowedContracts :: bool
  forbiddenMethods :: "string list"
  encryptionSalt :: string
  encryptionKey :: string
  pbkdf2Iterations :: int
  unsafeAllowWeakKdf :: bool
  unsafeAllowUnauthorizedSigning :: bool

definition default_config :: manager_config where
  "default_config =
     \<lparr>storagePrefix = ''naculus_session_keys'',
      defaultMaxTotalValue = 100000000000000000,
      defaultMaxTxCount = 50,
      defaultExpiryMs = 24 * 60 * 60 * 1000,
      maxExpiryMs = 30 * 24 * 60 * 60 * 1000,
      requireAllowedContracts = True,
      forbiddenMethods = [''0x095ea7b3'', ''0x39509351'', ''0xdd62ed3e'', ''0xa22cb465''],
      encryptionSalt = [],
      encryptionKey = [],
      pbkdf2Iterations = 600000,
      unsafeAllowWeakKdf = False,
      unsafeAllowUnauthorizedSigning = False\<rparr>"

section \<open>Rails\<close>

definition session_key_rails :: "string list" where
  "session_key_rails = [''transfer'', ''x402-exact'', ''mpp-charge'']"

definition eip3009_rails :: "string list" where
  "eip3009_rails = [''x402-exact'', ''mpp-charge'']"

definition hasValidSessionKeyRails :: "string list option \<Rightarrow> bool" where
  "hasValidSessionKeyRails value =
     (case value of None \<Rightarrow> False
      | Some rs \<Rightarrow> rs \<noteq> [] \<and> distinct rs \<and> (\<forall>r \<in> set rs. r \<in> set session_key_rails))"

text \<open>\<open>Object.entries(r ?? {}).find(([k]) => k.toLowerCase() === key.toLowerCase())\<close>.\<close>

definition entry_ci :: "string \<Rightarrow> 'v entries option \<Rightarrow> (string \<times> 'v) option" where
  "entry_ci k r = find (\<lambda>(k', _). lower k' = lower k) (or_nil r)"

lemma entry_ci_Some: "entry_ci k r = Some (k', v) \<Longrightarrow> lower k' = lower k \<and> (k', v) \<in> set (or_nil r)"
  by (auto simp: entry_ci_def dest: find_SomeD)

lemma entry_ci_lower: "lower k = lower k' \<Longrightarrow> entry_ci k r = entry_ci k' r"
  by (simp add: entry_ci_def)

lemma entry_ci_None: "entry_ci k r = None \<Longrightarrow> (k', v) \<in> set (or_nil r) \<Longrightarrow> lower k' \<noteq> lower k"
  by (auto simp: entry_ci_def dest: find_NoneD)

text \<open>Keys that differ even up to case: what the validation of a scope enforces.\<close>

definition distinct_ci :: "string list \<Rightarrow> bool" where
  "distinct_ci ks = distinct (map lower ks)"

lemma entry_ci_unique:
  assumes "distinct_ci (map fst (or_nil r))" "(k, v) \<in> set (or_nil r)" "lower k = lower key"
  shows "entry_ci key r = Some (k, v)"
proof -
  have d: "distinct (map (\<lambda>x. lower (fst x)) (or_nil r))"
    using assms(1) by (simp add: distinct_ci_def comp_def)
  show ?thesis
    unfolding entry_ci_def
  proof (rule find_unique)
    fix y assume y: "y \<in> set (or_nil r)" "case y of (k', _) \<Rightarrow> lower k' = lower key"
    then have "lower (fst y) = lower (fst (k, v))" using assms(3) by (auto split: prod.splits)
    then show "y = (k, v)" using d y(1) assms(2) by (meson distinct_map inj_onD)
  qed (use assms in auto)
qed

lemma session_rails_cases:
  "hasValidSessionKeyRails rs \<Longrightarrow> r \<in> set (or_nil rs) \<Longrightarrow>
   r = ''transfer'' \<or> r = ''x402-exact'' \<or> r = ''mpp-charge''"
  by (auto simp: hasValidSessionKeyRails_def session_key_rails_def split: option.splits)

end
