(* ===== verification/SessionScope.thy ===== *)
theory SessionScope
  imports SessionTypes
begin

text \<open>
  Creation of a scope: \<open>resolveScope\<close> (overrides merged with the defaults) and
  \<open>validateScopeInput\<close> (every refusal, in the order of the code) of
  packages/core/src/session-keys/SessionKeyManager.ts, and the well-formedness invariant
  \<open>wf_scope\<close> that an accepted scope satisfies.
\<close>

text \<open>\<open>Math.floor(Date.now() / 1000)\<close> and \<open>Math.floor((Date.now() + ms) / 1000)\<close>.\<close>

definition now_sec :: "int \<Rightarrow> int" where
  "now_sec now_ms = now_ms div 1000"

definition resolveScope :: "manager_config \<Rightarrow> int \<Rightarrow> scope_input option \<Rightarrow> session_scope" where
  "resolveScope cfg now_ms input =
     (let default_expiry = (now_ms + defaultExpiryMs cfg) div 1000;
          default_contracts = (if requireAllowedContracts cfg then Some [] else None)
      in case input of
        None \<Rightarrow>
          \<lparr>expiry = default_expiry,
           maxTotalGas = None, maxGasPerTx = None,
           maxTotalValue = Some (defaultMaxTotalValue cfg), maxValuePerTx = None,
           maxTxCount = Some (defaultMaxTxCount cfg),
           allowedContracts = default_contracts, allowedMethods = None,
           tokenAllowances = None, tokenMaxPerTx = None, periodLimits = None,
           allowedRecipients = None, nativeTransfer = None, allowedChainIds = None,
           rails = Some [], mode = Offchain\<rparr>
      | Some i \<Rightarrow>
          let s = in_scope i in
          s\<lparr>expiry := or_else (in_expiry i) default_expiry,
            maxTotalValue := Some (or_else (maxTotalValue s) (defaultMaxTotalValue cfg)),
            maxTxCount := Some (or_else (maxTxCount s) (defaultMaxTxCount cfg)),
            allowedContracts :=
              (case allowedContracts s of Some cs \<Rightarrow> Some cs | None \<Rightarrow> default_contracts),
            rails := Some (or_nil (rails s)),
            mode := or_else (in_mode i) Offchain\<rparr>)"

abbreviation invalid_input :: "string \<Rightarrow> sk_error" where
  "invalid_input m \<equiv> SkError SkInvalidInput m"

definition rails_message :: string where
  "rails_message = ''rails must list distinct values from transfer, x402-exact, mpp-charge''"

definition period_limit_bad :: "session_scope \<Rightarrow> string \<times> session_period \<Rightarrow> bool" where
  "period_limit_bad s ap =
     (case ap of (asset, period) \<Rightarrow>
       let cumulative =
             (if asset = ''native'' then maxTotalValue s
              else map_option snd (entry_ci asset (tokenAllowances s)))
       in (asset \<noteq> ''native'' \<and> \<not> evm_addr_re asset) \<or>
          p_amount period \<le> 0 \<or>
          \<not> safe_integer (p_seconds period) \<or> p_seconds period \<le> 0 \<or>
          \<not> safe_integer (p_start period) \<or> p_start period < 0 \<or>
          (case cumulative of None \<Rightarrow> True | Some l \<Rightarrow> p_amount period > l))"

definition bad_evm_address :: "string \<Rightarrow> bool" where
  "bad_evm_address a \<longleftrightarrow> \<not> evm_addr_re a \<or> isZeroAddress a"

text \<open>The loop over \<open>tokenAllowances\<close>, with the set of addresses seen so far.\<close>

fun check_allowances :: "string list \<Rightarrow> int entries \<Rightarrow> sk_error option" where
  "check_allowances seen [] = None"
| "check_allowances seen ((address, amount) # rest) =
     (if bad_evm_address address \<or> amount < 0 then
        Some (invalid_input ''tokenAllowances must contain non-negative values keyed by non-zero EVM addresses'')
      else if lower address \<in> set seen then
        Some (invalid_input ''tokenAllowances cannot contain duplicate token addresses'')
      else check_allowances (lower address # seen) rest)"

text \<open>The loop over \<open>tokenMaxPerTx\<close>.\<close>

fun check_per_tx :: "int entries option \<Rightarrow> string list \<Rightarrow> int entries \<Rightarrow> sk_error option" where
  "check_per_tx allowances seen [] = None"
| "check_per_tx allowances seen ((address, amount) # rest) =
     (if bad_evm_address address \<or> amount < 0 then
        Some (invalid_input ''tokenMaxPerTx must contain non-negative bigint values keyed by non-zero EVM addresses'')
      else if lower address \<in> set seen then
        Some (invalid_input ''tokenMaxPerTx cannot contain duplicate token addresses'')
      else if (case entry_ci address allowances of None \<Rightarrow> True | Some (_, tot) \<Rightarrow> amount > tot) then
        Some (invalid_input ''tokenMaxPerTx entries must have a matching tokenAllowances entry and not exceed its allowance'')
      else check_per_tx allowances (lower address # seen) rest)"

definition negative_limit :: "session_scope \<Rightarrow> sk_error option" where
  "negative_limit s =
     first_error
       (\<lambda>(name, value). case value of None \<Rightarrow> None
          | Some v \<Rightarrow> throw_if (v < 0) (invalid_input (name @ '' cannot be negative'')))
       [(''maxTotalGas'', maxTotalGas s), (''maxGasPerTx'', maxGasPerTx s),
        (''maxTotalValue'', maxTotalValue s), (''maxValuePerTx'', maxValuePerTx s)]"

definition native_transfer_mode :: string where
  "native_transfer_mode = ''empty-calldata-to-recipients''"

definition validateScopeInput :: "manager_config \<Rightarrow> int \<Rightarrow> session_scope \<Rightarrow> sk_error option" where
  "validateScopeInput cfg now_ms s = first_some
    [throw_if (\<not> safe_integer (expiry s) \<or> expiry s \<le> now_sec now_ms)
       (invalid_input ''Session expiry must be a future Unix timestamp''),
     throw_if (expiry s > (now_ms + maxExpiryMs cfg) div 1000)
       (invalid_input (''Session expiry cannot exceed '' @ show_int (maxExpiryMs cfg) @ ''ms from creation'')),
     throw_if (case maxTxCount s of None \<Rightarrow> False | Some n \<Rightarrow> \<not> safe_integer n \<or> n \<le> 0)
       (invalid_input ''maxTxCount must be a positive safe integer''),
     negative_limit s,
     throw_if (\<not> hasValidSessionKeyRails (rails s)) (invalid_input rails_message),
     throw_if (opt_any (\<lambda>c. \<not> safe_integer c \<or> c \<le> 0) (allowedChainIds s))
       (invalid_input ''allowedChainIds must contain positive safe integers''),
     throw_if (opt_any (period_limit_bad s) (periodLimits s))
       (invalid_input ''periodLimits must contain valid fixed-window limits''),
     throw_if (opt_any bad_evm_address (allowedContracts s))
       (invalid_input ''allowedContracts must contain non-zero EVM addresses''),
     throw_if (opt_any bad_evm_address (allowedRecipients s))
       (invalid_input ''allowedRecipients must contain non-zero EVM addresses''),
     throw_if (opt_any (\<lambda>m. \<not> hex_literal 8 m) (allowedMethods s))
       (invalid_input ''allowedMethods must contain 4-byte hex selectors''),
     (case tokenAllowances s of None \<Rightarrow> None | Some es \<Rightarrow> check_allowances [] es),
     (case tokenMaxPerTx s of None \<Rightarrow> None | Some es \<Rightarrow> check_per_tx (tokenAllowances s) [] es),
     throw_if (nativeTransfer s \<noteq> None \<and> nativeTransfer s \<noteq> Some native_transfer_mode)
       (invalid_input ''nativeTransfer must be empty-calldata-to-recipients''),
     throw_if (nativeTransfer s = Some native_transfer_mode \<and> \<not> nonempty (allowedRecipients s))
       (invalid_input ''nativeTransfer requires at least one allowed recipient'')]"

section \<open>What an accepted scope satisfies\<close>

text \<open>
  The limits of a scope are consistent: budgets are non-negative, token addresses are distinct
  up to case, a per-transaction cap and a period limit never exceed the cumulative budget they
  refine, and a native-transfer scope names its recipients.
\<close>

definition wf_budgets :: "session_scope \<Rightarrow> bool" where
  "wf_budgets s \<longleftrightarrow>
     (\<forall>v \<in> set_option (maxTotalValue s) \<union> set_option (maxValuePerTx s) \<union>
           set_option (maxTotalGas s) \<union> set_option (maxGasPerTx s). 0 \<le> v) \<and>
     (\<forall>n \<in> set_option (maxTxCount s). 0 < n)"

definition wf_tokens :: "session_scope \<Rightarrow> bool" where
  "wf_tokens s \<longleftrightarrow>
     distinct_ci (map fst (or_nil (tokenAllowances s))) \<and>
     (\<forall>(a, v) \<in> set (or_nil (tokenAllowances s)). evm_addr_re a \<and> \<not> isZeroAddress a \<and> 0 \<le> v)"

definition wf_caps :: "session_scope \<Rightarrow> bool" where
  "wf_caps s \<longleftrightarrow>
     distinct_ci (map fst (or_nil (tokenMaxPerTx s))) \<and>
     (\<forall>(a, v) \<in> set (or_nil (tokenMaxPerTx s)).
        0 \<le> v \<and> (\<exists>a' t. entry_ci a (tokenAllowances s) = Some (a', t) \<and> v \<le> t))"

definition wf_period :: "session_scope \<Rightarrow> string \<Rightarrow> session_period \<Rightarrow> bool" where
  "wf_period s a p \<longleftrightarrow>
     0 < p_amount p \<and> 0 < p_seconds p \<and> 0 \<le> p_start p \<and>
     (if a = ''native'' then (\<exists>t. maxTotalValue s = Some t \<and> p_amount p \<le> t)
      else evm_addr_re a \<and> (\<exists>a' t. entry_ci a (tokenAllowances s) = Some (a', t) \<and> p_amount p \<le> t))"

definition wf_lists :: "session_scope \<Rightarrow> bool" where
  "wf_lists s \<longleftrightarrow>
     (\<forall>c \<in> set (or_nil (allowedContracts s)). \<not> bad_evm_address c) \<and>
     (\<forall>r \<in> set (or_nil (allowedRecipients s)). \<not> bad_evm_address r) \<and>
     (\<forall>m \<in> set (or_nil (allowedMethods s)). hex_literal 8 m) \<and>
     hasValidSessionKeyRails (rails s) \<and>
     (nativeTransfer s = None \<or>
      nativeTransfer s = Some native_transfer_mode \<and> nonempty (allowedRecipients s))"

definition wf_scope :: "session_scope \<Rightarrow> bool" where
  "wf_scope s \<longleftrightarrow>
     wf_budgets s \<and> wf_tokens s \<and> wf_caps s \<and>
     (\<forall>(a, p) \<in> set (or_nil (periodLimits s)). wf_period s a p) \<and> wf_lists s"

lemma check_allowances_None:
  "check_allowances seen es = None \<Longrightarrow>
     distinct_ci (map fst es) \<and> set (map lower (map fst es)) \<inter> set seen = {} \<and>
     (\<forall>(a, v) \<in> set es. evm_addr_re a \<and> \<not> isZeroAddress a \<and> 0 \<le> v)"
  by (induction seen es rule: check_allowances.induct)
    (auto simp: bad_evm_address_def distinct_ci_def split: if_splits)

lemma check_per_tx_None:
  "check_per_tx al seen es = None \<Longrightarrow>
     distinct_ci (map fst es) \<and> set (map lower (map fst es)) \<inter> set seen = {} \<and>
     (\<forall>(a, v) \<in> set es. 0 \<le> v \<and> (\<exists>a' t. entry_ci a al = Some (a', t) \<and> v \<le> t))"
  by (induction al seen es rule: check_per_tx.induct)
    (auto simp: bad_evm_address_def distinct_ci_def split: if_splits option.splits)

lemma negative_limit_None:
  "negative_limit s = None \<longleftrightarrow>
     (\<forall>v \<in> set_option (maxTotalValue s) \<union> set_option (maxValuePerTx s) \<union>
           set_option (maxTotalGas s) \<union> set_option (maxGasPerTx s). 0 \<le> v)"
  by (auto simp: negative_limit_def split: option.splits)

lemma period_limit_ok: "\<not> period_limit_bad s (a, p) \<Longrightarrow> wf_period s a p"
  by (auto simp: period_limit_bad_def wf_period_def Let_def split: if_splits option.splits)

lemma validateScopeInput_accepted: "validateScopeInput cfg now_ms s = None \<Longrightarrow>
   wf_scope s \<and> now_sec now_ms < expiry s \<and> expiry s \<le> (now_ms + maxExpiryMs cfg) div 1000"
proof -
  assume assms: "validateScopeInput cfg now_ms s = None"
  note v = assms [unfolded validateScopeInput_def first_some_None list.set ball_simps throw_if_None]
  have al: "check_allowances [] (or_nil (tokenAllowances s)) = None"
    using v by (cases "tokenAllowances s") auto
  have pt: "check_per_tx (tokenAllowances s) [] (or_nil (tokenMaxPerTx s)) = None"
    using v by (cases "tokenMaxPerTx s") auto
  have per: "\<forall>(a, p) \<in> set (or_nil (periodLimits s)). \<not> period_limit_bad s (a, p)"
    using v by (auto simp: opt_any_or_nil)
  have "wf_budgets s"
    using v by (auto simp: wf_budgets_def negative_limit_None split: option.splits)
  moreover have "wf_tokens s"
    using check_allowances_None [OF al] by (simp add: wf_tokens_def)
  moreover have "wf_caps s"
    using check_per_tx_None [OF pt] by (simp add: wf_caps_def)
  moreover have "\<forall>(a, p) \<in> set (or_nil (periodLimits s)). wf_period s a p"
    using per period_limit_ok by blast
  moreover have "wf_lists s"
    using v by (auto simp: wf_lists_def opt_any_or_nil)
  moreover have "now_sec now_ms < expiry s" "expiry s \<le> (now_ms + maxExpiryMs cfg) div 1000"
    using v by auto
  ultimately show ?thesis by (simp add: wf_scope_def)
qed

text \<open>
  C10: validation establishes the scope invariant: whatever the caller passed, a scope that
  \<open>validateScopeInput\<close> accepts has non-negative budgets, unambiguous token entries, caps and
  periods inside their budgets, and expires after now and no later than the configured maximum.
\<close>

theorem validateScopeInput_wf:
  assumes "validateScopeInput cfg now_ms s = None"
  shows "wf_scope s \<and> now_sec now_ms < expiry s \<and> expiry s \<le> (now_ms + maxExpiryMs cfg) div 1000"
  using validateScopeInput_accepted [OF assms] .

definition plain_input :: scope_input where
  "plain_input =
     \<lparr>in_expiry = None, in_mode = None,
      in_scope = (resolveScope default_config 0 None)
        \<lparr>allowedContracts := Some [''0x'' @ replicate 40 CHR ''b''],
         rails := Some [''transfer'']\<rparr>\<rparr>"

lemma validateScopeInput_wf_witness:
  "wf_scope (resolveScope default_config 5000 (Some plain_input)) \<and>
   5 < expiry (resolveScope default_config 5000 (Some plain_input))"
proof -
  have "validateScopeInput default_config 5000 (resolveScope default_config 5000 (Some plain_input)) = None"
    by code_simp
  from validateScopeInput_wf [OF this] show ?thesis by (simp add: now_sec_def)
qed

end
