(* ===== verification/ScopeCheck.thy ===== *)
theory ScopeCheck
  imports SessionScope
begin

text \<open>
  The scope check of SessionKeyManager.ts: \<open>decodeScopedTokenSpend\<close>, \<open>accumulatedTokenSpend\<close>,
  \<open>periodUsageFor\<close> and \<open>checkScopeAgainstTx\<close>, one definition per guard in the order of the code.
  A refusal carries the text the code returns.
\<close>

section \<open>Decoding the token spend of a transaction\<close>

record token_spend =
  ts_token :: string
  ts_amount :: int
  ts_allowance :: int
  ts_recipient :: string

datatype token_decode = NoSpend | Refused string | Spend token_spend

definition erc20_transfer_selector :: string where
  "erc20_transfer_selector = ''0xa9059cbb''"

definition erc20_transfer_from_selector :: string where
  "erc20_transfer_from_selector = ''0x23b872dd''"

text \<open>A JavaScript optional string as a condition: present and not empty.\<close>

fun truthy :: "string option \<Rightarrow> bool" where
  "truthy None = False"
| "truthy (Some s) = (s \<noteq> [])"

abbreviation text_of :: "string option \<Rightarrow> string" where
  "text_of v \<equiv> or_nil v"

text \<open>\<open>BigInt(`0x${digits}`)\<close> on digits the caller has checked.\<close>

definition hex_int :: "string \<Rightarrow> int" where
  "hex_int s = (case parse_base 16 s of Some n \<Rightarrow> int n | None \<Rightarrow> 0)"

definition decodeScopedTokenSpend :: "session_scope \<Rightarrow> session_tx \<Rightarrow> token_decode" where
  "decodeScopedTokenSpend s tx =
     (if \<not> truthy (tx_to tx) \<or> tokenAllowances s = None then NoSpend
      else case entry_ci (text_of (tx_to tx)) (tokenAllowances s) of
        None \<Rightarrow> NoSpend
      | Some (token, allowance) \<Rightarrow>
          (case tx_data tx of
            None \<Rightarrow> Refused (''ERC-20 calldata is required for token allowance '' @ token)
          | Some data \<Rightarrow>
              if \<not> hex_run data then
                Refused (''ERC-20 calldata is required for token allowance '' @ token)
              else
                let selector = lower (js_slice 0 10 data) in
                if selector \<noteq> erc20_transfer_selector \<and> selector \<noteq> erc20_transfer_from_selector then
                  Refused (''Method '' @ selector @ '' is not permitted for token allowance '' @ token)
                else
                  let (recipientStart, amountStart, expectedLength) =
                        (if selector = erc20_transfer_selector then (10, 74, 138) else (74, 138, 202))
                  in if length data \<noteq> expectedLength then
                       Refused (''ERC-20 '' @ selector @ '' calldata must use the exact ABI length'')
                     else Spend
                       \<lparr>ts_token = token,
                        ts_amount = hex_int (js_slice amountStart (amountStart + 64) data),
                        ts_allowance = allowance,
                        ts_recipient = ''0x'' @ js_slice (recipientStart + 24) (recipientStart + 64) data\<rparr>))"

definition accumulatedTokenSpend :: "int entries option \<Rightarrow> string \<Rightarrow> int" where
  "accumulatedTokenSpend spends token =
     (case entry_ci token spends of None \<Rightarrow> 0 | Some (_, v) \<Rightarrow> v)"

section \<open>Fixed-window periods\<close>

record period_charge =
  pc_asset :: string
  pc_index :: int
  pc_amount :: int

definition tx_bigint :: "string option \<Rightarrow> int option" where
  "tx_bigint v = (if truthy v then bigint_of (text_of v) else Some 0)"

text \<open>\<open>SessionKeyPeriod\<close> lookup: the token's key up to case, or \<open>native\<close>.\<close>

definition period_asset :: "session_scope \<Rightarrow> token_spend option \<Rightarrow> string option" where
  "period_asset s spend =
     (case spend of
        Some t \<Rightarrow> map_option fst (entry_ci (ts_token t) (periodLimits s))
      | None \<Rightarrow> (if map_of (or_nil (periodLimits s)) ''native'' \<noteq> None then Some ''native'' else None))"

definition usage_malformed :: "int \<Rightarrow> period_usage option \<Rightarrow> bool" where
  "usage_malformed index current =
     (case current of None \<Rightarrow> False
      | Some c \<Rightarrow> \<not> safe_integer (periodIndex c) \<or> periodIndex c < 0 \<or> periodIndex c > index \<or>
          periodSpent c < 0)"

definition periodUsageFor ::
  "session_scope \<Rightarrow> session_tx \<Rightarrow> period_usage entries option \<Rightarrow> token_spend option \<Rightarrow> int \<Rightarrow>
   sk_error + period_charge option" where
  "periodUsageFor s tx usage spend now =
     (case period_asset s spend of None \<Rightarrow> Inr None
      | Some asset \<Rightarrow>
          (if asset = [] then Inr None
           else case map_of (or_nil (periodLimits s)) asset of None \<Rightarrow> Inr None
           | Some period \<Rightarrow>
               if now < p_start period then
                 Inl (SkError SkScopeExceeded ''The period has not started'')
               else
                 let index = (now - p_start period) div p_seconds period in
                 if usage_malformed index (map_of (or_nil usage) asset) then
                   Inl (SkError SkScopeExceeded ''The stored period usage is malformed'')
                 else
                   case (case spend of Some t \<Rightarrow> Some (ts_amount t) | None \<Rightarrow> tx_bigint (tx_value tx)) of
                     None \<Rightarrow> Inl (SkError SkScopeExceeded ''Transaction value must be a valid integer'')
                   | Some amount \<Rightarrow> Inr (Some \<lparr>pc_asset = asset, pc_index = index, pc_amount = amount\<rparr>)))"

text \<open>The text of a scope error, as \<open>createSessionKeyError\<close> builds it.\<close>

definition scope_exceeded_text :: "string \<Rightarrow> string" where
  "scope_exceeded_text d =
     ''Transaction exceeds the session key'' @ [CHR 39] @ ''s permitted scope. '' @ d @ ''.''"

section \<open>The guards, in order\<close>

definition has_calldata :: "session_tx \<Rightarrow> bool" where
  "has_calldata tx \<longleftrightarrow> truthy (tx_data tx) \<and> tx_data tx \<noteq> Some ''0x''"

definition listed_ci :: "string \<Rightarrow> string list option \<Rightarrow> bool" where
  "listed_ci a r \<longleftrightarrow> opt_any (\<lambda>x. lower x = lower a) r"

definition native_recipient_transfer :: "session_scope \<Rightarrow> session_tx \<Rightarrow> int \<Rightarrow> bool" where
  "native_recipient_transfer s tx txValue \<longleftrightarrow>
     nativeTransfer s = Some native_transfer_mode \<and> txValue > 0 \<and> \<not> has_calldata tx \<and>
     truthy (tx_to tx) \<and> listed_ci (text_of (tx_to tx)) (allowedRecipients s)"

definition amount_guard :: "session_tx \<Rightarrow> int \<Rightarrow> int \<Rightarrow> string option" where
  "amount_guard tx txValue txGas = first_some
     [throw_if (txValue < 0 \<or> txGas < 0) ''Transaction value and gas cannot be negative'',
      throw_if (case tx_chainId tx of None \<Rightarrow> False | Some c \<Rightarrow> \<not> safe_integer c \<or> c \<le> 0)
        ''Transaction chain ID must be a positive safe integer'']"

definition gas_required_guard :: "session_scope \<Rightarrow> session_tx \<Rightarrow> string option" where
  "gas_required_guard s tx =
     throw_if ((maxGasPerTx s \<noteq> None \<or> maxTotalGas s \<noteq> None) \<and> \<not> truthy (tx_gas tx))
       ''Transaction gas is required by scope''"

fun join_comma :: "string list \<Rightarrow> string" where
  "join_comma [] = []"
| "join_comma [s] = s"
| "join_comma (s # ss) = s @ '', '' @ join_comma ss"

definition chain_guard :: "session_scope \<Rightarrow> session_tx \<Rightarrow> string option" where
  "chain_guard s tx =
     (if \<not> nonempty (allowedChainIds s) then None
      else case tx_chainId tx of
        Some c \<Rightarrow> throw_if (c \<notin> set (or_nil (allowedChainIds s)))
          (''Chain '' @ show_int c @ '' not in allowed list: '' @
             join_comma (map show_int (or_nil (allowedChainIds s))))
      | None \<Rightarrow> Some ''Transaction chain ID is required by scope'')"

definition contract_guard :: "session_scope \<Rightarrow> session_tx \<Rightarrow> int \<Rightarrow> string option" where
  "contract_guard s tx txValue =
     (if native_recipient_transfer s tx txValue then None
      else if nonempty (allowedContracts s) \<and> truthy (tx_to tx) then
        throw_if (\<not> listed_ci (text_of (tx_to tx)) (allowedContracts s))
          (''Contract '' @ text_of (tx_to tx) @ '' not in allowed list'')
      else if nonempty (allowedContracts s) \<or> nativeTransfer s = Some native_transfer_mode then
        Some ''Transaction target is required by scope''
      else None)"

text \<open>The first four bytes of the calldata, when there are that many.\<close>

definition method_id :: "session_tx \<Rightarrow> string option" where
  "method_id tx =
     (case tx_data tx of None \<Rightarrow> None
      | Some d \<Rightarrow> if 10 \<le> length d then Some (lower (js_slice 0 10 d)) else None)"

definition forbidden_guard :: "manager_config \<Rightarrow> session_tx \<Rightarrow> string option" where
  "forbidden_guard cfg tx =
     (case method_id tx of None \<Rightarrow> None
      | Some m \<Rightarrow> throw_if (forbiddenMethods cfg \<noteq> [] \<and> listed_ci m (Some (forbiddenMethods cfg)))
          (''Method '' @ m @ '' is forbidden for session keys''))"

definition token_guard ::
  "session_scope \<Rightarrow> session_tx \<Rightarrow> int entries option \<Rightarrow> string option" where
  "token_guard s tx spends =
     (case decodeScopedTokenSpend s tx of NoSpend \<Rightarrow> None | Refused r \<Rightarrow> Some r
      | Spend t \<Rightarrow>
          let spent = accumulatedTokenSpend spends (ts_token t) in first_some
          [(case entry_ci (ts_token t) (tokenMaxPerTx s) of None \<Rightarrow> None
            | Some (_, cap) \<Rightarrow> throw_if (ts_amount t > cap)
                (''Token spend '' @ show_int (ts_amount t) @ '' exceeds max per-tx amount '' @
                   show_int cap @ '' for '' @ ts_token t)),
           throw_if (spent + ts_amount t > ts_allowance t)
             (''Cumulative token spend '' @ show_int (spent + ts_amount t) @ '' exceeds allowance '' @
                show_int (ts_allowance t) @ '' for '' @ ts_token t)])"

definition spend_of :: "token_decode \<Rightarrow> token_spend option" where
  "spend_of d = (case d of Spend t \<Rightarrow> Some t | _ \<Rightarrow> None)"

definition period_spent :: "period_usage entries option \<Rightarrow> string \<Rightarrow> int \<Rightarrow> int" where
  "period_spent usage asset index =
     (case map_of (or_nil usage) asset of None \<Rightarrow> 0
      | Some c \<Rightarrow> if periodIndex c = index then periodSpent c else 0)"

definition period_guard ::
  "session_scope \<Rightarrow> session_tx \<Rightarrow> period_usage entries option \<Rightarrow> int \<Rightarrow> string option" where
  "period_guard s tx usage now =
     (case periodUsageFor s tx usage (spend_of (decodeScopedTokenSpend s tx)) now of
        Inl e \<Rightarrow> Some (scope_exceeded_text (sk_detail e))
      | Inr None \<Rightarrow> None
      | Inr (Some c) \<Rightarrow>
          (case map_of (or_nil (periodLimits s)) (pc_asset c) of None \<Rightarrow> None
           | Some limit \<Rightarrow>
               let spent = period_spent usage (pc_asset c) (pc_index c) in
               throw_if (spent + pc_amount c > p_amount limit)
                 (''Period spend '' @ show_int (spent + pc_amount c) @ '' exceeds limit '' @
                    show_int (p_amount limit) @ '' for '' @ pc_asset c)))"

definition recipient_of :: "session_scope \<Rightarrow> session_tx \<Rightarrow> string option" where
  "recipient_of s tx =
     (case decodeScopedTokenSpend s tx of
        Spend t \<Rightarrow> Some (ts_recipient t)
      | _ \<Rightarrow> if has_calldata tx then None else tx_to tx)"

definition recipient_guard :: "session_scope \<Rightarrow> session_tx \<Rightarrow> string option" where
  "recipient_guard s tx =
     (if \<not> nonempty (allowedRecipients s) then None
      else case recipient_of s tx of
        None \<Rightarrow> Some ''Recipient allowlist is set but this call has no recognizable recipient''
      | Some r \<Rightarrow>
          if r = [] then Some ''Recipient allowlist is set but this call has no recognizable recipient''
          else throw_if (\<not> listed_ci r (allowedRecipients s))
            (''Recipient '' @ r @ '' not in allowed list''))"

definition method_guard :: "session_scope \<Rightarrow> session_tx \<Rightarrow> int \<Rightarrow> string option" where
  "method_guard s tx txValue =
     (if \<not> nonempty (allowedMethods s) then None
      else case method_id tx of
        Some m \<Rightarrow> throw_if (\<not> listed_ci m (allowedMethods s)) (''Method '' @ m @ '' not in allowed list'')
      | None \<Rightarrow> throw_if (\<not> native_recipient_transfer s tx txValue) ''Transaction data is required by scope'')"

text \<open>\<open>if (limit !== undefined && v > limit) return { reason }\<close>.\<close>

definition limit_guard :: "int option \<Rightarrow> int \<Rightarrow> (int \<Rightarrow> string) \<Rightarrow> string option" where
  "limit_guard limit v reason =
     (case limit of None \<Rightarrow> None | Some l \<Rightarrow> throw_if (v > l) (reason l))"

definition value_guard :: "session_scope \<Rightarrow> int \<Rightarrow> int \<Rightarrow> string option" where
  "value_guard s txValue accumulated = first_some
     [limit_guard (maxValuePerTx s) txValue
        (\<lambda>l. ''Transaction value '' @ show_int txValue @ '' exceeds max per-tx value '' @ show_int l),
      limit_guard (maxTotalValue s) (accumulated + txValue)
        (\<lambda>l. ''Cumulative value '' @ show_int (accumulated + txValue) @
           '' exceeds max total value '' @ show_int l)]"

definition gas_guard :: "session_scope \<Rightarrow> int \<Rightarrow> int \<Rightarrow> string option" where
  "gas_guard s txGas accumulated = first_some
     [limit_guard (maxGasPerTx s) txGas
        (\<lambda>l. ''Gas '' @ show_int txGas @ '' exceeds max per-tx gas '' @ show_int l),
      limit_guard (maxTotalGas s) (accumulated + txGas)
        (\<lambda>l. ''Cumulative gas '' @ show_int (accumulated + txGas) @
           '' exceeds max total gas '' @ show_int l)]"

definition count_guard :: "session_scope \<Rightarrow> int \<Rightarrow> string option" where
  "count_guard s n =
     (case maxTxCount s of None \<Rightarrow> None
      | Some m \<Rightarrow> throw_if (n \<ge> m) (''Tx count '' @ show_int n @ '' exceeds max '' @ show_int m))"

section \<open>The check\<close>

text \<open>The usage counters of a stored key that the check reads.\<close>

record counters =
  c_count :: int
  c_value :: int
  c_gas :: int
  c_tokens :: "int entries option"
  c_periods :: "period_usage entries option"

record scope_remaining =
  remainingGas :: "int option"
  remainingValue :: "int option"
  remainingTxCount :: "int option"

definition scope_guards ::
  "manager_config \<Rightarrow> session_scope \<Rightarrow> counters \<Rightarrow> session_tx \<Rightarrow> int \<Rightarrow> int \<Rightarrow> int \<Rightarrow> string option list" where
  "scope_guards cfg s c tx now txValue txGas =
     [amount_guard tx txValue txGas,
      gas_required_guard s tx,
      chain_guard s tx,
      contract_guard s tx txValue,
      forbidden_guard cfg tx,
      token_guard s tx (c_tokens c),
      period_guard s tx (c_periods c) now,
      recipient_guard s tx,
      method_guard s tx txValue,
      value_guard s txValue (c_value c),
      gas_guard s txGas (c_gas c),
      count_guard s (c_count c)]"

definition checkScopeAgainstTx ::
  "manager_config \<Rightarrow> session_scope \<Rightarrow> counters \<Rightarrow> session_tx \<Rightarrow> int \<Rightarrow> string + scope_remaining" where
  "checkScopeAgainstTx cfg s c tx now =
     (case (tx_bigint (tx_value tx), tx_bigint (tx_gas tx)) of
        (Some txValue, Some txGas) \<Rightarrow>
          (case first_some (scope_guards cfg s c tx now txValue txGas) of
             Some reason \<Rightarrow> Inl reason
           | None \<Rightarrow> Inr
               \<lparr>remainingGas = map_option (\<lambda>g. g - txGas) (maxGasPerTx s),
                remainingValue = map_option (\<lambda>v. v - c_value c - txValue) (maxTotalValue s),
                remainingTxCount = map_option (\<lambda>n. n - c_count c - 1) (maxTxCount s)\<rparr>)
      | _ \<Rightarrow> Inl ''Transaction value and gas must be valid integers'')"

section \<open>What a passed check means\<close>

lemma check_guards:
  assumes "checkScopeAgainstTx cfg s c tx now = Inr r"
  obtains v g where "tx_bigint (tx_value tx) = Some v" "tx_bigint (tx_gas tx) = Some g"
    "amount_guard tx v g = None" "gas_required_guard s tx = None" "chain_guard s tx = None"
    "contract_guard s tx v = None" "forbidden_guard cfg tx = None"
    "token_guard s tx (c_tokens c) = None" "period_guard s tx (c_periods c) now = None"
    "recipient_guard s tx = None" "method_guard s tx v = None" "value_guard s v (c_value c) = None"
    "gas_guard s g (c_gas c) = None" "count_guard s (c_count c) = None"
proof -
  obtain v g where vg: "tx_bigint (tx_value tx) = Some v" "tx_bigint (tx_gas tx) = Some g"
    and n: "first_some (scope_guards cfg s c tx now v g) = None"
    using assms by (auto simp: checkScopeAgainstTx_def split: option.splits)
  have "\<forall>x \<in> set (scope_guards cfg s c tx now v g). x = None" using n by simp
  then show thesis using that vg unfolding scope_guards_def list.set ball_simps by metis
qed

lemma amount_guard_None: "amount_guard tx v g = None \<Longrightarrow> 0 \<le> v \<and> 0 \<le> g"
  by (simp add: amount_guard_def)

lemma limit_guard_None [simp]: "limit_guard l v f = None \<longleftrightarrow> (\<forall>m. l = Some m \<longrightarrow> v \<le> m)"
  by (auto simp: limit_guard_def split: option.splits)

lemma value_guard_None:
  "value_guard s v acc = None \<longleftrightarrow>
     (\<forall>m. maxValuePerTx s = Some m \<longrightarrow> v \<le> m) \<and> (\<forall>m. maxTotalValue s = Some m \<longrightarrow> acc + v \<le> m)"
  by (simp add: value_guard_def)

lemma gas_guard_None:
  "gas_guard s g acc = None \<longleftrightarrow>
     (\<forall>m. maxGasPerTx s = Some m \<longrightarrow> g \<le> m) \<and> (\<forall>m. maxTotalGas s = Some m \<longrightarrow> acc + g \<le> m)"
  by (simp add: gas_guard_def)

lemma count_guard_None: "count_guard s n = None \<longleftrightarrow> (\<forall>m. maxTxCount s = Some m \<longrightarrow> n < m)"
  by (auto simp: count_guard_def split: option.splits)

lemma token_guard_Spend:
  assumes "token_guard s tx spends = None" "decodeScopedTokenSpend s tx = Spend t"
  shows "accumulatedTokenSpend spends (ts_token t) + ts_amount t \<le> ts_allowance t \<and>
    (\<forall>k cap. entry_ci (ts_token t) (tokenMaxPerTx s) = Some (k, cap) \<longrightarrow> ts_amount t \<le> cap)"
  using assms by (auto simp: token_guard_def Let_def split: option.splits)

lemma token_guard_not_refused: "token_guard s tx spends = None \<Longrightarrow> decodeScopedTokenSpend s tx \<noteq> Refused m"
  by (auto simp: token_guard_def)

lemma hex_int_nonneg [simp]: "0 \<le> hex_int s"
  by (auto simp: hex_int_def split: option.splits)

lemma decode_Spend:
  assumes "decodeScopedTokenSpend s tx = Spend t"
  shows "0 \<le> ts_amount t \<and> (\<exists>target. tx_to tx = Some target \<and> target \<noteq> [] \<and>
    entry_ci target (tokenAllowances s) = Some (ts_token t, ts_allowance t))"
proof -
  obtain target where target: "tx_to tx = Some target" "target \<noteq> []"
    using assms by (cases "tx_to tx") (auto simp: decodeScopedTokenSpend_def split: if_splits)
  then show ?thesis
    using assms
    by (auto simp: decodeScopedTokenSpend_def Let_def split: if_splits option.splits)
qed

lemma decode_Spend_entry:
  assumes "decodeScopedTokenSpend s tx = Spend t" "lower token = lower (ts_token t)"
  shows "entry_ci token (tokenAllowances s) = Some (ts_token t, ts_allowance t)"
proof -
  obtain target where e: "entry_ci target (tokenAllowances s) = Some (ts_token t, ts_allowance t)"
    using decode_Spend [OF assms(1)] by blast
  then have "lower token = lower target" using assms(2) entry_ci_Some [OF e] by simp
  then show ?thesis using e entry_ci_lower by metis
qed

lemma recipient_guard_None:
  assumes "recipient_guard s tx = None" "nonempty (allowedRecipients s)"
  shows "\<exists>r. recipient_of s tx = Some r \<and> r \<noteq> [] \<and> listed_ci r (allowedRecipients s)"
  using assms by (auto simp: recipient_guard_def split: option.splits if_splits)

lemma contract_guard_None:
  assumes "contract_guard s tx v = None" "\<not> native_recipient_transfer s tx v" "nonempty (allowedContracts s)"
  shows "listed_ci (text_of (tx_to tx)) (allowedContracts s)"
  using assms by (auto simp: contract_guard_def split: if_splits)

lemma forbidden_guard_None:
  "forbidden_guard cfg tx = None \<Longrightarrow> method_id tx = Some m \<Longrightarrow> \<not> listed_ci m (Some (forbiddenMethods cfg))"
  by (cases "forbiddenMethods cfg") (auto simp: forbidden_guard_def listed_ci_def)

lemma method_guard_None:
  "method_guard s tx v = None \<Longrightarrow> nonempty (allowedMethods s) \<Longrightarrow>
     (\<exists>m. method_id tx = Some m \<and> listed_ci m (allowedMethods s)) \<or>
     (method_id tx = None \<and> native_recipient_transfer s tx v)"
  by (auto simp: method_guard_def split: option.splits)

text \<open>A charge of a period is what the spend amounts to, in a window that has begun.\<close>

lemma periodUsageFor_Some:
  assumes "periodUsageFor s tx usage spend now = Inr (Some c)"
  shows "\<exists>p. map_of (or_nil (periodLimits s)) (pc_asset c) = Some p \<and> pc_asset c \<noteq> [] \<and>
     period_asset s spend = Some (pc_asset c) \<and> p_start p \<le> now \<and>
     pc_index c = (now - p_start p) div p_seconds p \<and>
     \<not> usage_malformed (pc_index c) (map_of (or_nil usage) (pc_asset c)) \<and>
     (case spend of Some t \<Rightarrow> Some (ts_amount t) | None \<Rightarrow> tx_bigint (tx_value tx)) = Some (pc_amount c)"
  using assms
  by (auto simp: periodUsageFor_def Let_def split: option.splits if_splits)

lemma period_guard_None:
  assumes "period_guard s tx usage now = None"
    "periodUsageFor s tx usage (spend_of (decodeScopedTokenSpend s tx)) now = Inr (Some c)"
    "map_of (or_nil (periodLimits s)) (pc_asset c) = Some p"
  shows "period_spent usage (pc_asset c) (pc_index c) + pc_amount c \<le> p_amount p"
  using assms by (simp add: period_guard_def Let_def)

lemma period_guard_Inr:
  assumes "period_guard s tx usage now = None"
  shows "\<exists>c. periodUsageFor s tx usage (spend_of (decodeScopedTokenSpend s tx)) now = Inr c"
  using assms by (cases "periodUsageFor s tx usage (spend_of (decodeScopedTokenSpend s tx)) now")
    (auto simp: period_guard_def)

text \<open>
  C11: forbidden selectors always win.  Calldata that begins with a selector of the forbidden list,
  written in any case, is refused by every scope, even one whose allowed methods name it.
\<close>

theorem forbidden_always_refused:
  assumes "tx_data tx = Some (selector @ rest)" "length selector = 10"
    and "f \<in> set (forbiddenMethods cfg)" "lower f = lower selector"
  shows "\<exists>reason. checkScopeAgainstTx cfg s c tx now = Inl reason"
proof (cases "checkScopeAgainstTx cfg s c tx now")
  case (Inr r)
  then obtain v g where "forbidden_guard cfg tx = None" by (rule check_guards)
  moreover have "method_id tx = Some (lower selector)"
    using assms(1,2) by (simp add: method_id_def js_slice_def)
  ultimately have "\<not> listed_ci (lower selector) (Some (forbiddenMethods cfg))"
    by (rule forbidden_guard_None)
  with assms(3,4) show ?thesis by (auto simp: listed_ci_def)
qed auto

lemma forbidden_always_refused_witness:
  "\<exists>reason. checkScopeAgainstTx default_config (resolveScope default_config 0 None)
     \<lparr>c_count = 0, c_value = 0, c_gas = 0, c_tokens = None, c_periods = None\<rparr>
     (empty_tx\<lparr>tx_data := Some (''0x095EA7B3'' @ ''00'')\<rparr>) 0 = Inl reason"
proof (rule forbidden_always_refused)
  show "''0x095ea7b3'' \<in> set (forbiddenMethods default_config)" by (simp add: default_config_def)
  show "lower ''0x095ea7b3'' = lower ''0x095EA7B3''" by code_simp
qed simp_all

end
