(* ===== verification/Interfaces.thy ===== *)
theory Interfaces
  imports Prelude "HOL-Library.Word"
begin

text \<open>
  The contracts between components.  \<open>keyed_map\<close> and \<open>keyed_table\<close> are what a manager relies
  on when it keeps records by identifier, without and with deletion; \<open>budget\<close> is what every metered resource promises: a step never lets the
  amount spent pass the limit, and never changes the limit; \<open>codec\<close> is what a wire format promises:
  a reader finds what the writer wrote and leaves the rest, and \<open>strict_codec\<close> that the reader
  accepts nothing else.
\<close>

section \<open>A table of records with keys\<close>

locale keyed_map =
  fixes lookup :: "'k \<Rightarrow> 't \<Rightarrow> 'r option"
    and insert_rec :: "'r \<Rightarrow> 't \<Rightarrow> 't"
    and key_of :: "'r \<Rightarrow> 'k"
  assumes lookup_insert: "lookup k (insert_rec r t) = (if k = key_of r then Some r else lookup k t)"
    and lookup_key: "lookup k t = Some r \<Longrightarrow> key_of r = k"
begin

lemma lookup_insert_same: "lookup (key_of r) (insert_rec r t) = Some r"
  by (simp add: lookup_insert)

lemma lookup_insert_other: "k \<noteq> key_of r \<Longrightarrow> lookup k (insert_rec r t) = lookup k t"
  by (simp add: lookup_insert)

lemma insert_overwrites:
  "key_of r = key_of r' \<Longrightarrow> lookup k (insert_rec r' (insert_rec r t)) = lookup k (insert_rec r' t)"
  by (simp add: lookup_insert)

text \<open>After a batch of writes the last record written under a key is the one read.\<close>

lemma lookup_batch:
  "lookup k (fold insert_rec rs t) =
     (case find (\<lambda>r. key_of r = k) (rev rs) of Some r \<Rightarrow> Some r | None \<Rightarrow> lookup k t)"
proof (induction rs rule: rev_induct)
  case (snoc r rs)
  then show ?case by (simp add: lookup_insert split: option.splits)
qed simp

text \<open>A property of every stored record is kept by writing records that have it.\<close>

lemma all_insert:
  "(\<And>k r. lookup k t = Some r \<Longrightarrow> P r) \<Longrightarrow> P r \<Longrightarrow> lookup k (insert_rec r t) = Some r' \<Longrightarrow> P r'"
  by (auto simp: lookup_insert split: if_splits)

end

locale keyed_table = keyed_map +
  fixes delete_rec :: "'a \<Rightarrow> 'b \<Rightarrow> 'b"
  assumes lookup_delete: "lookup k (delete_rec k' t) = (if k = k' then None else lookup k t)"
begin

lemma all_delete:
  "(\<And>k r. lookup k t = Some r \<Longrightarrow> P r) \<Longrightarrow> lookup k (delete_rec k' t) = Some r' \<Longrightarrow> P r'"
  by (auto simp: lookup_delete split: if_splits)

end

section \<open>A metered resource\<close>

locale budget =
  fixes spent :: "'s \<Rightarrow> int"
    and limit :: "'s \<Rightarrow> int option"
    and step :: "'s \<Rightarrow> 's \<Rightarrow> bool"
  assumes limit_step: "step s s' \<Longrightarrow> limit s' = limit s"
    and spent_step: "step s s' \<Longrightarrow> spent s' = spent s \<or> (\<forall>l. limit s = Some l \<longrightarrow> spent s' \<le> l)"
    and spent_mono: "step s s' \<Longrightarrow> spent s \<le> spent s'"
begin

definition within :: "'s \<Rightarrow> bool" where
  "within s \<longleftrightarrow> (\<forall>l. limit s = Some l \<longrightarrow> spent s \<le> l)"

lemma within_step: "step s s' \<Longrightarrow> within s \<Longrightarrow> within s'"
  using limit_step spent_step by (fastforce simp: within_def)

lemma within_run: "step\<^sup>*\<^sup>* s s' \<Longrightarrow> within s \<Longrightarrow> within s'"
  by (induction rule: rtranclp_induct) (auto intro: within_step)

lemma limit_run: "step\<^sup>*\<^sup>* s s' \<Longrightarrow> limit s' = limit s"
  by (induction rule: rtranclp_induct) (auto dest: limit_step)

lemma spent_run: "step\<^sup>*\<^sup>* s s' \<Longrightarrow> spent s \<le> spent s'"
  by (induction rule: rtranclp_induct) (auto dest: spent_mono)

end

section \<open>A wire format\<close>

text \<open>The same reader, \<open>n\<close> times in a row: \<open>for (let i = 0; i < n; i++) out.push(read(r))\<close>.\<close>

fun read_many :: "('b list \<Rightarrow> 'e + 'a \<times> 'b list) \<Rightarrow> nat \<Rightarrow> 'b list \<Rightarrow> 'e + 'a list \<times> 'b list" where
  "read_many dec 0 bs = Inr ([], bs)"
| "read_many dec (Suc n) bs =
     andThen (dec bs) (\<lambda>(x, r). andThen (read_many dec n r) (\<lambda>(xs, r'). Inr (x # xs, r')))"

locale codec =
  fixes enc :: "'a \<Rightarrow> 'b list"
    and dec :: "'b list \<Rightarrow> 'e + 'a \<times> 'b list"
    and ok :: "'a \<Rightarrow> bool"
  assumes dec_enc: "ok x \<Longrightarrow> dec (enc x @ rest) = Inr (x, rest)"
begin

lemma dec_enc_all: "ok x \<Longrightarrow> dec (enc x) = Inr (x, [])"
  using dec_enc [of x "[]"] by simp

lemma dec_many:
  "\<forall>x \<in> set xs. ok x \<Longrightarrow> read_many dec (length xs) (concat (map enc xs) @ rest) = Inr (xs, rest)"
  by (induction xs) (simp_all add: dec_enc)

lemma enc_split: "ok x \<Longrightarrow> ok y \<Longrightarrow> enc x @ r = enc y @ s \<Longrightarrow> x = y \<and> r = s"
  by (metis Inr_inject dec_enc prod.inject)

lemma enc_inj: "ok x \<Longrightarrow> ok y \<Longrightarrow> enc x = enc y \<Longrightarrow> x = y"
  using enc_split [of x y "[]" "[]"] by simp

end

locale strict_codec = codec +
  assumes enc_dec: "dec bs = Inr (x, rest) \<Longrightarrow> bs = enc x @ rest \<and> ok x"
begin

lemma dec_iff: "dec bs = Inr (x, rest) \<longleftrightarrow> bs = enc x @ rest \<and> ok x"
  using enc_dec dec_enc by blast

lemma many_iff:
  "read_many dec n bs = Inr (xs, rest) \<longleftrightarrow>
     bs = concat (map enc xs) @ rest \<and> length xs = n \<and> (\<forall>x \<in> set xs. ok x)"
proof (induction n arbitrary: bs xs)
  case 0
  then show ?case by auto
next
  case (Suc n)
  show ?case
  proof
    assume "read_many dec (Suc n) bs = Inr (xs, rest)"
    then obtain x r ys where x: "dec bs = Inr (x, r)" "read_many dec n r = Inr (ys, rest)" "xs = x # ys"
      by (auto split: prod.splits)
    then show "bs = concat (map enc xs) @ rest \<and> length xs = Suc n \<and> (\<forall>x \<in> set xs. ok x)"
      using enc_dec [OF x(1)] Suc.IH [of r ys] by simp
  next
    assume h: "bs = concat (map enc xs) @ rest \<and> length xs = Suc n \<and> (\<forall>x \<in> set xs. ok x)"
    then show "read_many dec (Suc n) bs = Inr (xs, rest)" using dec_many [of xs rest] by metis
  qed
qed

end

end
