(* ===== verification/SessionStore.thy ===== *)
theory SessionStore
  imports ScopeCheck Interfaces
begin

text \<open>
  packages/core/src/session-keys/storage.ts, class \<open>SessionKeyStorage\<close>: one JSON array of records
  behind a storage adapter.  The adapter is a state: whether it is available, whether a write
  succeeds (a quota error makes it fail), and what the slot holds.  A read of a slot that does not
  parse fails; \<open>loadAll\<close> hides that, the mutations do not.
\<close>

datatype blob = NoBlob | Records "stored_key list" | Unreadable

record backend =
  available :: bool
  writable :: bool
  slot :: blob

section \<open>The array of records\<close>

definition find_key :: "string \<Rightarrow> stored_key list \<Rightarrow> stored_key option" where
  "find_key kid ks = find (\<lambda>k. key_id k = kid) ks"

fun put_key :: "stored_key \<Rightarrow> stored_key list \<Rightarrow> stored_key list" where
  "put_key key [] = [key]"
| "put_key key (k # ks) = (if key_id k = key_id key then key # ks else k # put_key key ks)"

definition drop_key :: "string \<Rightarrow> stored_key list \<Rightarrow> stored_key list" where
  "drop_key kid ks = filter (\<lambda>k. key_id k \<noteq> kid) ks"

lemma find_key_put: "find_key kid (put_key key ks) = (if kid = key_id key then Some key else find_key kid ks)"
  by (induction key ks rule: put_key.induct) (auto simp: find_key_def)

lemma find_key_drop: "find_key kid (drop_key kid' ks) = (if kid = kid' then None else find_key kid ks)"
  by (induction ks) (auto simp: find_key_def drop_key_def find_None_iff)

lemma find_key_id: "find_key kid ks = Some k \<Longrightarrow> key_id k = kid"
  by (auto simp: find_key_def dest: find_SomeD)

interpretation keys: keyed_table find_key put_key key_id drop_key
  by unfold_locales (simp_all add: find_key_put find_key_drop find_key_id)

section \<open>Operations\<close>

definition loadAllStrict :: "backend \<Rightarrow> fault + stored_key list" where
  "loadAllStrict b =
     (case slot b of NoBlob \<Rightarrow> Inr [] | Records ks \<Rightarrow> Inr ks | Unreadable \<Rightarrow> Inl (StoreFault ''read''))"

definition loadAll :: "backend \<Rightarrow> stored_key list" where
  "loadAll b = (case loadAllStrict b of Inl e \<Rightarrow> [] | Inr ks \<Rightarrow> ks)"

definition persistAll :: "stored_key list \<Rightarrow> backend \<Rightarrow> fault + backend" where
  "persistAll ks b = (if writable b then Inr (b\<lparr>slot := Records ks\<rparr>) else Inl (StoreFault ''write''))"

definition store_save :: "stored_key \<Rightarrow> backend \<Rightarrow> fault + backend" where
  "store_save key b = andThen (loadAllStrict b) (\<lambda>ks. persistAll (put_key key ks) b)"

definition store_get :: "string \<Rightarrow> backend \<Rightarrow> fault + stored_key option" where
  "store_get kid b = andThen (loadAllStrict b) (\<lambda>ks. Inr (find_key kid ks))"

definition store_remove :: "string \<Rightarrow> backend \<Rightarrow> fault + backend" where
  "store_remove kid b = andThen (loadAllStrict b) (\<lambda>ks. persistAll (drop_key kid ks) b)"

definition store_clear :: "backend \<Rightarrow> backend" where
  "store_clear b = b\<lparr>slot := NoBlob\<rparr>"

text \<open>Read, change the record with this identifier, write the array back.\<close>

definition modify_key :: "string \<Rightarrow> (stored_key \<Rightarrow> fault + stored_key) \<Rightarrow> backend \<Rightarrow> fault + backend" where
  "modify_key kid f b =
     andThen (loadAllStrict b) (\<lambda>ks.
       case find_key kid ks of
         None \<Rightarrow> Inl (sk_fault SkNotFound kid)
       | Some k \<Rightarrow> andThen (f k) (\<lambda>k'. persistAll (put_key k' ks) b))"

definition updateStatus :: "string \<Rightarrow> key_status \<Rightarrow> backend \<Rightarrow> fault + backend" where
  "updateStatus kid st = modify_key kid (\<lambda>k. Inr (k\<lparr>status := st\<rparr>))"

text \<open>\<open>if (tx?.value) acc = (acc ?? 0n) + BigInt(tx.value)\<close>.\<close>

definition add_amount :: "int option \<Rightarrow> string option \<Rightarrow> fault + int option" where
  "add_amount acc v =
     (if \<not> truthy v then Inr acc
      else case bigint_of (text_of v) of
        None \<Rightarrow> Inl (PlainError ''Cannot convert to a BigInt'')
      | Some n \<Rightarrow> Inr (Some (or_else acc 0 + n)))"

definition add_token :: "int entries option \<Rightarrow> token_spend \<Rightarrow> int entries" where
  "add_token spends t =
     (let m = or_nil spends;
          address = (case entry_ci (ts_token t) spends of Some (a, _) \<Rightarrow> a | None \<Rightarrow> ts_token t)
      in AList.update address (or_else (map_of m address) 0 + ts_amount t) m)"

definition add_period :: "period_usage entries option \<Rightarrow> period_charge \<Rightarrow> period_usage entries" where
  "add_period usage c =
     (let m = or_nil usage;
          spent = (case map_of m (pc_asset c) of
            Some e \<Rightarrow> if periodIndex e = pc_index c then periodSpent e + pc_amount c else pc_amount c
          | None \<Rightarrow> pc_amount c)
      in AList.update (pc_asset c) \<lparr>periodIndex = pc_index c, periodSpent = spent\<rparr> m)"

text \<open>The body of \<open>incrementUsageUnlocked\<close> on the record.\<close>

definition charge_key ::
  "session_tx \<Rightarrow> token_spend option \<Rightarrow> period_charge option \<Rightarrow> int \<Rightarrow> stored_key \<Rightarrow> fault + stored_key" where
  "charge_key tx spend charge now k =
     andThen (add_amount (accumulatedValue k) (tx_value tx)) (\<lambda>v.
     andThen (add_amount (accumulatedGas k) (tx_gas tx)) (\<lambda>g.
     Inr (k\<lparr>useCount := useCount k + 1,
            lastUsedAt := now,
            accumulatedValue := v,
            accumulatedGas := g,
            accumulatedTokenSpends :=
              (case spend of None \<Rightarrow> accumulatedTokenSpends k
               | Some t \<Rightarrow> Some (add_token (accumulatedTokenSpends k) t)),
            periodUsage :=
              (case charge of None \<Rightarrow> periodUsage k
               | Some c \<Rightarrow> Some (add_period (periodUsage k) c))\<rparr>)))"

definition incrementUsageUnlocked ::
  "string \<Rightarrow> session_tx \<Rightarrow> token_spend option \<Rightarrow> period_charge option \<Rightarrow> int \<Rightarrow> backend \<Rightarrow> fault + backend" where
  "incrementUsageUnlocked kid tx spend charge now = modify_key kid (charge_key tx spend charge now)"

section \<open>Lemmas\<close>

lemma persistAll_Inr [simp]: "persistAll ks b = Inr b' \<longleftrightarrow> writable b \<and> b' = b\<lparr>slot := Records ks\<rparr>"
  by (auto simp: persistAll_def)

lemma loadAllStrict_Records [simp]: "slot b = Records ks \<Longrightarrow> loadAllStrict b = Inr ks"
  by (simp add: loadAllStrict_def)

lemma loadAllStrict_Inr: "loadAllStrict b = Inr ks \<Longrightarrow> loadAll b = ks"
  by (simp add: loadAll_def)

lemma store_get_Inr: "store_get kid b = Inr r \<longleftrightarrow> (\<exists>ks. loadAllStrict b = Inr ks \<and> r = find_key kid ks)"
  by (auto simp: store_get_def)

lemma modify_key_Inr:
  "modify_key kid f b = Inr b' \<longleftrightarrow>
     (\<exists>ks k k'. loadAllStrict b = Inr ks \<and> find_key kid ks = Some k \<and> f k = Inr k' \<and> writable b \<and>
        b' = b\<lparr>slot := Records (put_key k' ks)\<rparr>)"
  by (auto simp: modify_key_def split: option.splits)

lemma charge_key_id: "charge_key tx spend charge now k = Inr k' \<Longrightarrow>
   key_id k' = key_id k \<and> scope k' = scope k \<and> status k' = status k \<and> authorization k' = authorization k \<and>
   keyPair k' = keyPair k \<and> createdAt k' = createdAt k"
  by (auto simp: charge_key_def)

lemma find_update_other:
  "\<not> p (a, v) \<Longrightarrow> \<forall>w. (a, w) \<in> set m \<longrightarrow> \<not> p (a, w) \<Longrightarrow> find p (AList.update a v m) = find p m"
  by (induction m) auto

lemma map_of_find_ci:
  "find (\<lambda>(k', _). lower k' = lower key) m = Some (a, w) \<Longrightarrow> map_of m a = Some w"
proof (induction m)
  case (Cons e m)
  obtain k v where e: "e = (k, v)" by fastforce
  show ?case
  proof (cases "lower k = lower key")
    case True
    then show ?thesis using Cons.prems e by simp
  next
    case False
    then have "find (\<lambda>(k', _). lower k' = lower key) m = Some (a, w)" using Cons.prems e by simp
    moreover from this have "lower a = lower key" by (auto dest: find_SomeD)
    ultimately show ?thesis using Cons.IH False e by auto
  qed
qed simp

lemma find_ci_update:
  "find (\<lambda>(k', _). lower k' = lower key) m = Some (a, w) \<Longrightarrow>
   find (\<lambda>(k', _). lower k' = lower key) (AList.update a v m) = Some (a, v)"
proof (induction m)
  case (Cons e m)
  obtain k x where e: "e = (k, x)" by fastforce
  show ?case
  proof (cases "lower k = lower key")
    case False
    then have f: "find (\<lambda>(k', _). lower k' = lower key) m = Some (a, w)" using Cons.prems e by simp
    then have "lower a = lower key" by (auto dest: find_SomeD)
    then show ?thesis using Cons.IH [OF f] False e by auto
  qed (use Cons.prems e in auto)
qed simp

lemma update_new: "map_of m a = None \<Longrightarrow> AList.update a v m = m @ [(a, v)]"
  by (induction m) (auto split: if_splits)

text \<open>A charge adds to the total of its token, in whatever case it was written, and to no other.\<close>

lemma accumulated_add_token:
  "accumulatedTokenSpend (Some (add_token spends t)) token =
     accumulatedTokenSpend spends token + (if lower token = lower (ts_token t) then ts_amount t else 0)"
proof (cases "entry_ci (ts_token t) spends")
  case None
  then have no: "\<And>k v. (k, v) \<in> set (or_nil spends) \<Longrightarrow> lower k \<noteq> lower (ts_token t)"
    by (auto dest: entry_ci_None)
  then have m: "map_of (or_nil spends) (ts_token t) = None"
    by (fastforce simp: map_of_eq_None_iff)
  have upd: "\<And>v m. map_of m (ts_token t) = None \<Longrightarrow> AList.update (ts_token t) v m = m @ [(ts_token t, v)]"
    by (rule update_new)
  show ?thesis
  proof (cases "lower token = lower (ts_token t)")
    case True
    then have "entry_ci token spends = None" using None entry_ci_lower by metis
    with True m None show ?thesis
      by (simp add: accumulatedTokenSpend_def add_token_def Let_def upd entry_ci_def find_append)
  next
    case False
    with m None show ?thesis
      by (simp add: accumulatedTokenSpend_def add_token_def Let_def upd entry_ci_def find_append
          split: option.splits)
  qed
next
  case (Some e)
  then obtain a w where e: "entry_ci (ts_token t) spends = Some (a, w)" by (cases e) auto
  then have la: "lower a = lower (ts_token t)" and w: "map_of (or_nil spends) a = Some w"
    using entry_ci_Some map_of_find_ci by (fastforce simp: entry_ci_def)+
  show ?thesis
  proof (cases "lower token = lower (ts_token t)")
    case True
    have et: "entry_ci token spends = Some (a, w)" using e True entry_ci_lower by metis
    then have "entry_ci token (Some (AList.update a (w + ts_amount t) (or_nil spends))) =
        Some (a, w + ts_amount t)"
      by (simp add: entry_ci_def find_ci_update)
    with True e w et show ?thesis
      by (simp add: accumulatedTokenSpend_def add_token_def Let_def)
  next
    case False
    then have "entry_ci token (Some (AList.update a (w + ts_amount t) (or_nil spends))) =
        entry_ci token spends"
      unfolding entry_ci_def using la by (simp add: find_update_other)
    with False e w show ?thesis
      by (simp add: accumulatedTokenSpend_def add_token_def Let_def)
  qed
qed

lemma period_spent_add:
  "period_spent (Some (add_period usage c)) asset i =
     (if asset = pc_asset c then
        (if i = pc_index c then period_spent usage asset i + pc_amount c else 0)
      else period_spent usage asset i)"
  by (auto simp: period_spent_def add_period_def Let_def update_conv' split: option.splits)

end
