(* ===== verification/Crypto.thy ===== *)
theory Crypto
  imports Bytes
begin

text \<open>
  The cryptographic primitives the program calls (@noble/hashes, @noble/curves, @noble/ciphers,
  @scure/base).  They are not code of the repository: a value of \<open>crypto\<close> is a parameter of every
  definition that uses one.  A function that throws returns \<open>None\<close>.
\<close>

record crypto =
  keccak_256 :: "bytes \<Rightarrow> bytes"
  sha256 :: "bytes \<Rightarrow> bytes"
  hmac_sha256 :: "bytes \<Rightarrow> bytes \<Rightarrow> bytes"
  pbkdf2_sha256 :: "bytes \<Rightarrow> bytes \<Rightarrow> int \<Rightarrow> bytes"
  gcm_encrypt :: "bytes \<Rightarrow> bytes \<Rightarrow> bytes \<Rightarrow> bytes \<Rightarrow> bytes"
  gcm_decrypt :: "bytes \<Rightarrow> bytes \<Rightarrow> bytes \<Rightarrow> bytes \<Rightarrow> bytes option"
  secp_public_key :: "bytes \<Rightarrow> bytes option"
  secp_uncompressed :: "bytes \<Rightarrow> bytes option"
  secp_sign :: "bytes \<Rightarrow> bytes \<Rightarrow> bytes option"
  secp_has_high_s :: "bytes \<Rightarrow> bool option"
  secp_recover :: "bytes \<Rightarrow> nat \<Rightarrow> bytes \<Rightarrow> bytes option"

text \<open>
  The documented output length of the hash functions, used by the theorems on digests, and the
  laws of authenticated encryption, used by the round trips of sealed keys.
\<close>

definition hash_lengths :: "crypto \<Rightarrow> bool" where
  "hash_lengths c \<longleftrightarrow> (\<forall>x. length (keccak_256 c x) = 32 \<and> length (sha256 c x) = 32)"

definition gcm_correct :: "crypto \<Rightarrow> bool" where
  "gcm_correct c \<longleftrightarrow>
     (\<forall>key nonce aad plain. gcm_decrypt c key nonce aad (gcm_encrypt c key nonce aad plain) = Some plain)"

text \<open>
  Collision freedom is only ever assumed of the finitely many inputs a digest was computed from:
  \<open>hash_apart h xs\<close> says that \<open>h\<close> keeps those inputs apart.
\<close>

definition hash_apart :: "('a \<Rightarrow> 'b) \<Rightarrow> 'a list \<Rightarrow> bool" where
  "hash_apart h xs \<longleftrightarrow> (\<forall>x \<in> set xs. \<forall>y \<in> set xs. h x = h y \<longrightarrow> x = y)"

lemma hash_apartD: "hash_apart h xs \<Longrightarrow> h x = h y \<Longrightarrow> x \<in> set xs \<Longrightarrow> y \<in> set xs \<Longrightarrow> x = y"
  by (auto simp: hash_apart_def)

text \<open>The inputs of a computation that throws before it hashes are none.\<close>

definition result_list :: "'e + 'a \<Rightarrow> 'a list" where
  "result_list r = (case r of Inl _ \<Rightarrow> [] | Inr x \<Rightarrow> [x])"

lemma result_list_simps [simp]: "result_list (Inl e) = []" "result_list (Inr x) = [x]"
  by (simp_all add: result_list_def)

text \<open>A concrete instance, for evaluating the model: it has the documented lengths and laws.\<close>

definition toy_digest :: "bytes \<Rightarrow> bytes" where
  "toy_digest x = take 32 (x @ replicate 32 0)"

definition toy_crypto :: crypto where
  "toy_crypto =
     \<lparr>keccak_256 = toy_digest,
      sha256 = toy_digest,
      hmac_sha256 = (\<lambda>key x. toy_digest (key @ x)),
      pbkdf2_sha256 = (\<lambda>password slt n. toy_digest (password @ slt)),
      gcm_encrypt = (\<lambda>key nonce aad plain. aad @ plain),
      gcm_decrypt = (\<lambda>key nonce aad sealed.
        if take (length aad) sealed = aad then Some (drop (length aad) sealed) else None),
      secp_public_key = (\<lambda>x. Some (2 # toy_digest x)),
      secp_uncompressed = (\<lambda>x. Some (4 # toy_digest (drop 1 x) @ toy_digest [])),
      secp_sign = (\<lambda>digest key. Some (0 # digest @ toy_digest key)),
      secp_has_high_s = (\<lambda>x. Some False),
      secp_recover = (\<lambda>sig v digest. Some (2 # drop 32 sig))\<rparr>"

lemma toy_crypto_laws: "hash_lengths toy_crypto" "gcm_correct toy_crypto"
  by (auto simp: hash_lengths_def gcm_correct_def toy_crypto_def toy_digest_def)

end
