(* ===== verification/TypedData.thy ===== *)
theory TypedData
  imports ScopeCheck Crypto "HOL-Library.Monad_Syntax"
begin

text \<open>
  packages/core/src/session-keys/typed-data.ts: the one EIP-712 payload a session key signs, its
  structural validation, its digest and the transaction it is equivalent to.  A request is an
  immutable record, so the defensive copy \<open>snapshotTypedDataRequest\<close> is the identity here.
\<close>

record typed_data_request =
  r_name :: string
  r_version :: string
  r_chainId :: int
  r_verifyingContract :: string
  r_primaryType :: string
  r_from :: string
  r_to :: string
  r_value :: string
  r_validAfter :: string
  r_validBefore :: string
  r_nonce :: string

section \<open>Validation\<close>

definition uint_text :: "string \<Rightarrow> string \<Rightarrow> string option" where
  "uint_text name v =
     throw_if (\<not> canonical_decimal v \<or> (case bigint_of v of None \<Rightarrow> True | Some n \<Rightarrow> n > uint256_max))
       (''TransferWithAuthorization '' @ name @ '' must be a decimal uint256'')"

definition validateTypedDataRequest :: "typed_data_request \<Rightarrow> string option" where
  "validateTypedDataRequest r = first_some
     [throw_if (r_primaryType r \<noteq> ''TransferWithAuthorization'')
        (''Typed data primary type '' @ r_primaryType r @ '' is not permitted for session keys''),
      throw_if (\<not> safe_integer (r_chainId r) \<or> r_chainId r \<le> 0)
        ''Typed data domain chainId must be a positive integer'',
      throw_if (\<not> hex_literal 40 (r_verifyingContract r))
        ''Typed data verifyingContract must be an EVM address'',
      throw_if (\<not> hex_literal 40 (r_from r) \<or> \<not> hex_literal 40 (r_to r))
        ''TransferWithAuthorization from/to must be EVM addresses'',
      uint_text ''value'' (r_value r),
      uint_text ''validAfter'' (r_validAfter r),
      uint_text ''validBefore'' (r_validBefore r),
      throw_if (\<not> hex_literal 64 (r_nonce r)) ''TransferWithAuthorization nonce must be 32 bytes'']"

section \<open>Digest\<close>

text \<open>\<open>word(hex)\<close>: the bytes right-aligned in 32; \<open>None\<close> when they do not decode or do not fit.\<close>

definition abi_word :: "string \<Rightarrow> bytes option" where
  "abi_word hex =
     (case hex_decode (drop 2 hex) of None \<Rightarrow> None
      | Some bs \<Rightarrow> if length bs \<le> 32 then Some (replicate (32 - length bs) 0 @ bs) else None)"

text \<open>\<open>uint(value)\<close>: the value in hexadecimal, padded to 64 digits.\<close>

definition abi_uint :: "int \<Rightarrow> bytes option" where
  "abi_uint v = (if v < 0 then None else abi_word (''0x'' @ hex_padded 64 (nat v)))"

definition transfer_type_text :: string where
  "transfer_type_text = ''TransferWithAuthorization(address from,address to,uint256 value,uint256 validAfter,uint256 validBefore,bytes32 nonce)''"

definition domain_type_text :: string where
  "domain_type_text = ''EIP712Domain(string name,string version,uint256 chainId,address verifyingContract)''"

definition domain_preimage :: "crypto \<Rightarrow> typed_data_request \<Rightarrow> bytes option" where
  "domain_preimage c r = do {
     chain \<leftarrow> abi_uint (r_chainId r);
     contract \<leftarrow> abi_word (r_verifyingContract r);
     Some (keccak_256 c (utf8 domain_type_text) @ keccak_256 c (utf8 (r_name r)) @
        keccak_256 c (utf8 (r_version r)) @ chain @ contract)
   }"

definition domain_separator :: "crypto \<Rightarrow> typed_data_request \<Rightarrow> bytes option" where
  "domain_separator c r = map_option (keccak_256 c) (domain_preimage c r)"

definition struct_preimage :: "crypto \<Rightarrow> typed_data_request \<Rightarrow> bytes option" where
  "struct_preimage c r = do {
     from \<leftarrow> abi_word (r_from r);
     to \<leftarrow> abi_word (r_to r);
     v \<leftarrow> bigint_of (r_value r); value \<leftarrow> abi_uint v;
     a \<leftarrow> bigint_of (r_validAfter r); after \<leftarrow> abi_uint a;
     b \<leftarrow> bigint_of (r_validBefore r); before \<leftarrow> abi_uint b;
     nonce \<leftarrow> hex_decode (drop 2 (r_nonce r));
     Some (keccak_256 c (utf8 transfer_type_text) @ from @ to @ value @ after @ before @ nonce)
   }"

definition struct_hash :: "crypto \<Rightarrow> typed_data_request \<Rightarrow> bytes option" where
  "struct_hash c r = map_option (keccak_256 c) (struct_preimage c r)"

definition typedDataDigest :: "crypto \<Rightarrow> typed_data_request \<Rightarrow> string option" where
  "typedDataDigest c r = do {
     d \<leftarrow> domain_separator c r;
     s \<leftarrow> struct_hash c r;
     Some (''0x'' @ bytesToHex (keccak_256 c ([25, 1] @ d @ s)))
   }"

text \<open>What the digest of a request hashes, besides the constant type texts.\<close>

definition typed_hash_inputs :: "crypto \<Rightarrow> typed_data_request \<Rightarrow> bytes list" where
  "typed_hash_inputs c r =
     [utf8 (r_name r), utf8 (r_version r)] @
     (case (domain_preimage c r, struct_preimage c r) of
        (Some d, Some s) \<Rightarrow> [d, s, [25, 1] @ keccak_256 c d @ keccak_256 c s]
      | _ \<Rightarrow> [])"

section \<open>Addresses and signers\<close>

text \<open>\<open>sessionKeyAddress\<close>: the last 20 bytes of the hash of the uncompressed public point.\<close>

definition sessionKeyAddress :: "crypto \<Rightarrow> string \<Rightarrow> string option" where
  "sessionKeyAddress c publicKeyHex = do {
     key \<leftarrow> hex_decode (drop 2 publicKeyHex);
     point \<leftarrow> secp_uncompressed c key;
     Some (''0x'' @ bytesToHex (drop 12 (keccak_256 c (drop 1 point))))
   }"

text \<open>65 signature bytes with \<open>v\<close> 27 or 28 and a low \<open>s\<close>, recovered over a digest.\<close>

definition recover_signature :: "crypto \<Rightarrow> bytes \<Rightarrow> bytes \<Rightarrow> string option" where
  "recover_signature c sig digest =
     (let v = unat (sig ! 64) in
      if length sig \<noteq> 65 \<or> (v \<noteq> 27 \<and> v \<noteq> 28) then None
      else case secp_has_high_s c (take 64 sig) of
        Some False \<Rightarrow> do {
          point \<leftarrow> secp_recover c (take 64 sig) (v - 27) digest;
          sessionKeyAddress c (''0x'' @ bytesToHex point)
        }
      | _ \<Rightarrow> None)"

definition recoverTypedDataSigner :: "crypto \<Rightarrow> typed_data_request \<Rightarrow> string \<Rightarrow> string option" where
  "recoverTypedDataSigner c r signature =
     (if validateTypedDataRequest r \<noteq> None \<or> \<not> hex_literal 130 signature then None
      else do {
        sig \<leftarrow> hex_decode (drop 2 signature);
        digest \<leftarrow> typedDataDigest c r;
        d \<leftarrow> hex_decode (drop 2 digest);
        recover_signature c sig d
      })"

section \<open>The equivalent transaction\<close>

definition typedDataAsTransaction :: "typed_data_request \<Rightarrow> session_tx" where
  "typedDataAsTransaction r =
     (let to = pad_start 64 CHR ''0'' (lower (drop 2 (r_to r)));
          value = (case bigint_of (r_value r) of None \<Rightarrow> [] | Some v \<Rightarrow> hex_padded 64 (nat v))
      in \<lparr>tx_to = Some (r_verifyingContract r),
          tx_value = Some ''0'',
          tx_data = Some (erc20_transfer_selector @ to @ value),
          tx_chainId = Some (r_chainId r),
          tx_gas = None\<rparr>)"

section \<open>Validated requests\<close>

text \<open>What a validated request gives to the encoders.\<close>

definition request_fields :: "typed_data_request \<Rightarrow> int \<Rightarrow> int \<Rightarrow> int \<Rightarrow> bool" where
  "request_fields r v a b \<longleftrightarrow>
     hex_literal 40 (r_verifyingContract r) \<and> hex_literal 40 (r_from r) \<and> hex_literal 40 (r_to r) \<and>
     hex_literal 64 (r_nonce r) \<and> 0 < r_chainId r \<and> r_chainId r \<le> max_safe \<and>
     canonical_decimal (r_value r) \<and> canonical_decimal (r_validAfter r) \<and> canonical_decimal (r_validBefore r) \<and>
     r_value r = show_nat (nat v) \<and> r_validAfter r = show_nat (nat a) \<and> r_validBefore r = show_nat (nat b) \<and>
     0 \<le> v \<and> v < 2 ^ 256 \<and> 0 \<le> a \<and> a < 2 ^ 256 \<and> 0 \<le> b \<and> b < 2 ^ 256"

lemma uint_text_None:
  assumes "uint_text n v = None"
  shows "\<exists>i. bigint_of v = Some i \<and> v = show_nat (nat i) \<and> 0 \<le> i \<and> i < 2 ^ 256 \<and> canonical_decimal v"
proof -
  have c: "canonical_decimal v" using assms by (simp add: uint_text_def)
  then obtain k where k: "parse_base 10 v = Some k" "show_nat k = v"
    using parse_canonical_decimal by blast
  then have "bigint_of v = Some (int k)" using c bigint_of_decimal by simp
  moreover from this have "int k \<le> uint256_max" using assms by (simp add: uint_text_def)
  ultimately show ?thesis using k c by (auto simp: uint256_max_def)
qed

lemma validated_request:
  assumes "validateTypedDataRequest r = None"
  shows "\<exists>v a b. request_fields r v a b \<and> bigint_of (r_value r) = Some v \<and>
    bigint_of (r_validAfter r) = Some a \<and> bigint_of (r_validBefore r) = Some b"
proof -
  note v = assms [unfolded validateTypedDataRequest_def first_some_None list.set ball_simps throw_if_None]
  from v uint_text_None [of "''value''" "r_value r"] uint_text_None [of "''validAfter''" "r_validAfter r"]
    uint_text_None [of "''validBefore''" "r_validBefore r"]
  show ?thesis unfolding request_fields_def safe_integer_def by auto
qed

lemma hex_literal_drop:
  "hex_literal n s \<Longrightarrow> length (drop 2 s) = n \<and> (\<forall>c \<in> set (drop 2 s). is_hex c) \<and> s = ''0x'' @ drop 2 s"
  using starts_withE [of "''0x''" s] by (auto simp: hex_literal_def eval_nat_numeral)

lemma abi_word_literal:
  assumes "hex_literal n s" "even n" "n \<le> 64"
  shows "abi_word s = Some (replicate (32 - n div 2) 0 @ byte_pairs (drop 2 s))"
  using hex_literal_drop [OF assms(1)] assms by (simp add: abi_word_def hex_decode_def)

lemma abi_uint_Some:
  assumes "0 \<le> v" "v < 2 ^ 256"
  shows "abi_uint v = Some (uint_bytes 32 (nat v))"
proof -
  have b: "nat v < 16 ^ 64" using assms by (simp add: nat_less_iff)
  then have l: "length (hex_padded 64 (nat v)) = 64" by (intro length_hex_padded) auto
  then show ?thesis
    using assms(1) by (simp add: abi_uint_def abi_word_def hex_decode_def hex_padded_hex uint_bytes_def)
qed

section \<open>What is checked is what is signed\<close>

definition same_authorization :: "typed_data_request \<Rightarrow> typed_data_request \<Rightarrow> bool" where
  "same_authorization p q \<longleftrightarrow>
     r_name p = r_name q \<and> r_version p = r_version q \<and> r_chainId p = r_chainId q \<and>
     lower (r_verifyingContract p) = lower (r_verifyingContract q) \<and>
     lower (r_from p) = lower (r_from q) \<and> lower (r_to p) = lower (r_to q) \<and>
     r_value p = r_value q \<and> r_validAfter p = r_validAfter q \<and> r_validBefore p = r_validBefore q \<and>
     lower (r_nonce p) = lower (r_nonce q)"

lemma literal_bytes_inj:
  assumes "hex_literal n s" "hex_literal n t" "even n" "byte_pairs (drop 2 s) = byte_pairs (drop 2 t)"
  shows "lower s = lower t"
proof -
  note d = hex_literal_drop [OF assms(1)] hex_literal_drop [OF assms(2)]
  have "even (length (drop 2 s))" "even (length (drop 2 t))" using d assms(3) by metis+
  then have "lower (drop 2 s) = lower (drop 2 t)"
    using byte_pairs_inj [of "drop 2 s" "drop 2 t"] d assms(4) by blast
  then show ?thesis using d by (metis lower_append)
qed

lemma struct_preimage_Some:
  assumes "request_fields r v a b" "bigint_of (r_value r) = Some v"
    "bigint_of (r_validAfter r) = Some a" "bigint_of (r_validBefore r) = Some b"
  shows "struct_preimage c r = Some (keccak_256 c (utf8 transfer_type_text) @
     (replicate 12 0 @ byte_pairs (drop 2 (r_from r))) @ (replicate 12 0 @ byte_pairs (drop 2 (r_to r))) @
     uint_bytes 32 (nat v) @ uint_bytes 32 (nat a) @ uint_bytes 32 (nat b) @
     byte_pairs (drop 2 (r_nonce r)))"
proof -
  have l: "hex_literal 40 (r_from r)" "hex_literal 40 (r_to r)" "hex_literal 64 (r_nonce r)"
    using assms(1) by (simp_all add: request_fields_def)
  have "hex_decode (drop 2 (r_nonce r)) = Some (byte_pairs (drop 2 (r_nonce r)))"
    using hex_literal_drop [OF l(3)] by (simp add: hex_decode_Some)
  moreover have "abi_uint v = Some (uint_bytes 32 (nat v))" "abi_uint a = Some (uint_bytes 32 (nat a))"
    "abi_uint b = Some (uint_bytes 32 (nat b))"
    using assms(1) by (simp_all add: request_fields_def abi_uint_Some)
  ultimately show ?thesis
    using assms(2-4) abi_word_literal [OF l(1)] abi_word_literal [OF l(2)] by (simp add: struct_preimage_def)
qed

lemma domain_preimage_Some:
  assumes "request_fields r v a b"
  shows "domain_preimage c r = Some (keccak_256 c (utf8 domain_type_text) @
     keccak_256 c (utf8 (r_name r)) @ keccak_256 c (utf8 (r_version r)) @
     uint_bytes 32 (nat (r_chainId r)) @ (replicate 12 0 @ byte_pairs (drop 2 (r_verifyingContract r))))"
proof -
  have "hex_literal 40 (r_verifyingContract r)" "0 \<le> r_chainId r" "r_chainId r < 2 ^ 256"
    using assms by (simp_all add: request_fields_def max_safe_def)
  then show ?thesis by (simp add: domain_preimage_def abi_uint_Some abi_word_literal)
qed

lemma length_word32: "0 \<le> v \<Longrightarrow> v < 2 ^ 256 \<Longrightarrow> length (uint_bytes 32 (nat v)) = 32"
  by (rule length_uint_bytes) (simp_all add: nat_less_iff)

lemma word32_inj:
  assumes "0 \<le> u" "u < 2 ^ 256" "0 \<le> v" "v < 2 ^ 256" "uint_bytes 32 (nat u) = uint_bytes 32 (nat v)"
  shows "u = v"
proof -
  have "nat u < 256 ^ 32" "nat v < 256 ^ 32" using assms by (simp_all add: nat_less_iff)
  then have "nat u = nat v" using assms(5) by (intro uint_bytes_inj [of 32]) auto
  then show ?thesis using assms(1,3) by simp
qed

lemma struct_preimage_inj:
  assumes p: "request_fields p v a b" "bigint_of (r_value p) = Some v"
      "bigint_of (r_validAfter p) = Some a" "bigint_of (r_validBefore p) = Some b"
    and q: "request_fields q v' a' b'" "bigint_of (r_value q) = Some v'"
      "bigint_of (r_validAfter q) = Some a'" "bigint_of (r_validBefore q) = Some b'"
    and eq: "struct_preimage c p = struct_preimage c q"
  shows "lower (r_from p) = lower (r_from q) \<and> lower (r_to p) = lower (r_to q) \<and>
    r_value p = r_value q \<and> r_validAfter p = r_validAfter q \<and> r_validBefore p = r_validBefore q \<and>
    lower (r_nonce p) = lower (r_nonce q)"
proof -
  note f = p(1) [unfolded request_fields_def] q(1) [unfolded request_fields_def]
  have len: "\<And>x. hex_literal 40 x \<Longrightarrow> length (byte_pairs (drop 2 x)) = 20"
    using hex_literal_drop by fastforce
  have "keccak_256 c (utf8 transfer_type_text) @
     (replicate 12 0 @ byte_pairs (drop 2 (r_from p))) @ (replicate 12 0 @ byte_pairs (drop 2 (r_to p))) @
     uint_bytes 32 (nat v) @ uint_bytes 32 (nat a) @ uint_bytes 32 (nat b) @ byte_pairs (drop 2 (r_nonce p))
   = keccak_256 c (utf8 transfer_type_text) @
     (replicate 12 0 @ byte_pairs (drop 2 (r_from q))) @ (replicate 12 0 @ byte_pairs (drop 2 (r_to q))) @
     uint_bytes 32 (nat v') @ uint_bytes 32 (nat a') @ uint_bytes 32 (nat b') @ byte_pairs (drop 2 (r_nonce q))"
    using eq unfolding struct_preimage_Some [OF p] struct_preimage_Some [OF q] by simp
  then have "byte_pairs (drop 2 (r_from p)) = byte_pairs (drop 2 (r_from q)) \<and>
      byte_pairs (drop 2 (r_to p)) = byte_pairs (drop 2 (r_to q)) \<and>
      uint_bytes 32 (nat v) = uint_bytes 32 (nat v') \<and> uint_bytes 32 (nat a) = uint_bytes 32 (nat a') \<and>
      uint_bytes 32 (nat b) = uint_bytes 32 (nat b') \<and>
      byte_pairs (drop 2 (r_nonce p)) = byte_pairs (drop 2 (r_nonce q))"
    using f len length_word32 by simp
  moreover have "uint_bytes 32 (nat v) = uint_bytes 32 (nat v') \<Longrightarrow> v = v'"
    "uint_bytes 32 (nat a) = uint_bytes 32 (nat a') \<Longrightarrow> a = a'"
    "uint_bytes 32 (nat b) = uint_bytes 32 (nat b') \<Longrightarrow> b = b'"
    using f by (auto intro: word32_inj)
  ultimately show ?thesis using f literal_bytes_inj [of 40] literal_bytes_inj [of 64] by simp
qed

lemma domain_preimage_inj:
  assumes p: "request_fields p v a b" and q: "request_fields q v' a' b'"
    and eq: "domain_preimage c p = domain_preimage c q"
    and nc: "hash_apart (keccak_256 c) (typed_hash_inputs c p @ typed_hash_inputs c q)"
    and h: "hash_lengths c"
  shows "r_name p = r_name q \<and> r_version p = r_version q \<and> r_chainId p = r_chainId q \<and>
    lower (r_verifyingContract p) = lower (r_verifyingContract q)"
proof -
  note f = p [unfolded request_fields_def] q [unfolded request_fields_def]
  have cl: "0 \<le> r_chainId p" "r_chainId p < 2 ^ 256" "0 \<le> r_chainId q" "r_chainId q < 2 ^ 256"
    using f by (simp_all add: max_safe_def)
  have hl: "\<And>x. length (keccak_256 c x) = 32" using h by (simp add: hash_lengths_def)
  have "keccak_256 c (utf8 domain_type_text) @
     keccak_256 c (utf8 (r_name p)) @ keccak_256 c (utf8 (r_version p)) @
     uint_bytes 32 (nat (r_chainId p)) @ (replicate 12 0 @ byte_pairs (drop 2 (r_verifyingContract p)))
   = keccak_256 c (utf8 domain_type_text) @
     keccak_256 c (utf8 (r_name q)) @ keccak_256 c (utf8 (r_version q)) @
     uint_bytes 32 (nat (r_chainId q)) @ (replicate 12 0 @ byte_pairs (drop 2 (r_verifyingContract q)))"
    using eq unfolding domain_preimage_Some [OF p] domain_preimage_Some [OF q] by simp
  then have e: "keccak_256 c (utf8 (r_name p)) = keccak_256 c (utf8 (r_name q)) \<and>
      keccak_256 c (utf8 (r_version p)) = keccak_256 c (utf8 (r_version q)) \<and>
      uint_bytes 32 (nat (r_chainId p)) = uint_bytes 32 (nat (r_chainId q)) \<and>
      byte_pairs (drop 2 (r_verifyingContract p)) = byte_pairs (drop 2 (r_verifyingContract q))"
    using hl length_word32 [OF cl(1,2)] length_word32 [OF cl(3,4)] by simp
  have "utf8 (r_name p) = utf8 (r_name q)"
    by (rule hash_apartD [OF nc e [THEN conjunct1]]) (simp_all add: typed_hash_inputs_def)
  moreover have "utf8 (r_version p) = utf8 (r_version q)"
    by (rule hash_apartD [OF nc e [THEN conjunct2, THEN conjunct1]]) (simp_all add: typed_hash_inputs_def)
  ultimately show ?thesis
    using e f cl word32_inj literal_bytes_inj [of 40] by (simp add: utf8_inj)
qed

text \<open>
  A digest binds the whole payment.  When Keccak-256 keeps apart the inputs the two digests
  are computed from, two validated requests with the same digest describe the same token, chain,
  payer, payee, amount, validity window and nonce; so a signature over a checked request can not
  be replayed as another.
\<close>

lemma typed_data_binding:
  assumes "validateTypedDataRequest p = None" "validateTypedDataRequest q = None"
    and "hash_lengths c" "hash_apart (keccak_256 c) (typed_hash_inputs c p @ typed_hash_inputs c q)"
    and "typedDataDigest c p = typedDataDigest c q"
  shows "same_authorization p q"
proof -
  obtain v a b where p: "request_fields p v a b" "bigint_of (r_value p) = Some v"
      "bigint_of (r_validAfter p) = Some a" "bigint_of (r_validBefore p) = Some b"
    using validated_request [OF assms(1)] by blast
  obtain v' a' b' where q: "request_fields q v' a' b'" "bigint_of (r_value q) = Some v'"
      "bigint_of (r_validAfter q) = Some a'" "bigint_of (r_validBefore q) = Some b'"
    using validated_request [OF assms(2)] by blast
  obtain dp sp dq sq where s: "domain_preimage c p = Some dp" "struct_preimage c p = Some sp"
      "domain_preimage c q = Some dq" "struct_preimage c q = Some sq"
    using domain_preimage_Some [OF p(1)] struct_preimage_Some [OF p]
      domain_preimage_Some [OF q(1)] struct_preimage_Some [OF q] by blast
  let ?k = "keccak_256 c"
  have apart: "x = y" if "?k x = ?k y" "x \<in> {dp, sp, [25, 1] @ ?k dp @ ?k sp}" "y \<in> {dq, sq, [25, 1] @ ?k dq @ ?k sq}" for x y
    using hash_apartD [OF assms(4) that(1)] that(2,3) s by (auto simp: typed_hash_inputs_def)
  have "?k ([25, 1] @ ?k dp @ ?k sp) = ?k ([25, 1] @ ?k dq @ ?k sq)"
    using assms(5) s by (simp add: typedDataDigest_def domain_separator_def struct_hash_def bytesToHex_inj)
  then have "[25, 1] @ ?k dp @ ?k sp = [25, 1] @ ?k dq @ ?k sq" by (rule apart) simp_all
  then have "?k dp = ?k dq" "?k sp = ?k sq" using assms(3) by (simp_all add: hash_lengths_def)
  then have "dp = dq" "sp = sq" using apart by blast+
  then show ?thesis
    using struct_preimage_inj [OF p q, of c] domain_preimage_inj [OF p(1) q(1) _ assms(4,3)] s
    by (simp add: same_authorization_def)
qed

section \<open>The scope check sees the payment that is signed\<close>

lemma hex_int_padded: "0 \<le> v \<Longrightarrow> hex_int (hex_padded w (nat v)) = v"
  by (simp add: hex_int_def)

lemma transfer_calldata_shape:
  assumes "request_fields r v a b" "bigint_of (r_value r) = Some v"
  shows "tx_data (typedDataAsTransaction r) =
      Some (erc20_transfer_selector @ replicate 24 CHR ''0'' @ lower (drop 2 (r_to r)) @ hex_padded 64 (nat v))"
    and "length (lower (drop 2 (r_to r))) = 40" "length (hex_padded 64 (nat v)) = 64"
    and "\<forall>c \<in> set (lower (drop 2 (r_to r))). is_hex c"
proof -
  have l: "hex_literal 40 (r_to r)" and v: "nat v < 16 ^ 64"
    using assms(1) by (simp_all add: request_fields_def nat_less_iff)
  note d = hex_literal_drop [OF l]
  show "length (hex_padded 64 (nat v)) = 64" using v by (intro length_hex_padded) auto
  show len: "length (lower (drop 2 (r_to r))) = 40" using d by (metis length_lower)
  show "\<forall>c \<in> set (lower (drop 2 (r_to r))). is_hex c" using d by (auto simp: lower_def)
  have "pad_start 64 CHR ''0'' (lower (drop 2 (r_to r))) = replicate 24 CHR ''0'' @ lower (drop 2 (r_to r))"
    using len by (simp only: pad_start_def) simp
  then show "tx_data (typedDataAsTransaction r) =
      Some (erc20_transfer_selector @ replicate 24 CHR ''0'' @ lower (drop 2 (r_to r)) @ hex_padded 64 (nat v))"
    using assms(2) by (simp add: typedDataAsTransaction_def Let_def)
qed

lemma decode_transfer:
  assumes data: "tx_data tx = Some (erc20_transfer_selector @ replicate 24 CHR ''0'' @ to @ amount)"
    and to: "length to = 40" "\<forall>c \<in> set to. is_hex c"
    and amount: "length amount = 64" "\<forall>c \<in> set amount. is_hex c"
    and target: "tx_to tx = Some token" "token \<noteq> []"
    and entry: "entry_ci token (tokenAllowances s) = Some (key, allowance)"
  shows "decodeScopedTokenSpend s tx =
    Spend \<lparr>ts_token = key, ts_amount = hex_int amount, ts_allowance = allowance, ts_recipient = ''0x'' @ to\<rparr>"
proof -
  let ?d = "erc20_transfer_selector @ replicate 24 CHR ''0'' @ to @ amount"
  have l: "length ?d = 138" using to(1) amount(1) by (simp add: erc20_transfer_selector_def)
  have sel: "lower (js_slice 0 10 ?d) = erc20_transfer_selector"
    by (simp add: js_slice_def erc20_transfer_selector_def lower_def lower_char_def ord_def)
  have "\<forall>c \<in> set (drop 2 erc20_transfer_selector). is_hex c" by code_simp
  then have hd: "\<forall>c \<in> set (drop 2 ?d). is_hex c"
    using to(2) amount(2) by (auto simp: erc20_transfer_selector_def)
  then have run: "hex_run ?d"
    using l by (simp add: hex_run_def) (simp add: erc20_transfer_selector_def starts_with_def)
  have rec: "js_slice 34 74 ?d = to" and am: "js_slice 74 138 ?d = amount"
    using to(1) amount(1) by (simp_all add: js_slice_def erc20_transfer_selector_def)
  have "tokenAllowances s \<noteq> None" using entry by (cases "tokenAllowances s") (auto simp: entry_ci_def)
  with assms l sel run rec am show ?thesis
    by (simp add: decodeScopedTokenSpend_def Let_def del: append_assoc)
qed

lemma typed_data_as_spend:
  assumes "validateTypedDataRequest r = None"
    and "entry_ci (r_verifyingContract r) (tokenAllowances s) = Some (key, allowance)"
  shows "\<exists>amount. bigint_of (r_value r) = Some amount \<and>
    decodeScopedTokenSpend s (typedDataAsTransaction r) =
      Spend \<lparr>ts_token = key, ts_amount = amount, ts_allowance = allowance, ts_recipient = lower (r_to r)\<rparr>"
proof -
  obtain v a b where f: "request_fields r v a b" and v: "bigint_of (r_value r) = Some v"
    using validated_request [OF assms(1)] by blast
  note shape = transfer_calldata_shape [OF f v]
  have t: "hex_literal 40 (r_to r)" "hex_literal 40 (r_verifyingContract r)" "0 \<le> v"
    using f by (simp_all add: request_fields_def)
  then have low: "lower (r_to r) = ''0x'' @ lower (drop 2 (r_to r))"
    using hex_literal_drop [OF t(1)] lower_0x by metis
  have "tx_to (typedDataAsTransaction r) = Some (r_verifyingContract r)" "r_verifyingContract r \<noteq> []"
    using t(2) by (auto simp: typedDataAsTransaction_def Let_def hex_literal_def)
  from decode_transfer [OF shape(1) shape(2) shape(4) shape(3) _ this assms(2)] hex_padded_hex
  have "decodeScopedTokenSpend s (typedDataAsTransaction r) =
      Spend \<lparr>ts_token = key, ts_amount = v, ts_allowance = allowance, ts_recipient = lower (r_to r)\<rparr>"
    using hex_int_padded [OF t(3)] low by auto
  with v show ?thesis by blast
qed

text \<open>
  The scope check is applied to the payment that is signed.  The transaction a validated
  request is mapped to decodes to a spend of exactly the signed amount, to exactly the signed
  payee, against the allowance of exactly the signed token.
\<close>

lemma typed_data_spend:
  assumes "validateTypedDataRequest r = None"
    and "entry_ci (r_verifyingContract r) (tokenAllowances s) = Some (key, allowance)"
  shows "\<exists>amount. bigint_of (r_value r) = Some amount \<and>
    decodeScopedTokenSpend s (typedDataAsTransaction r) =
      Spend \<lparr>ts_token = key, ts_amount = amount, ts_allowance = allowance, ts_recipient = lower (r_to r)\<rparr>"
  using typed_data_as_spend [OF assms] .

definition sample_payment :: typed_data_request where
  "sample_payment =
     \<lparr>r_name = ''USDC'', r_version = ''2'', r_chainId = 8453, r_verifyingContract = ''0x'' @ replicate 40 CHR ''c'',
      r_primaryType = ''TransferWithAuthorization'', r_from = ''0x'' @ replicate 40 CHR ''a'',
      r_to = ''0x'' @ replicate 40 CHR ''d'', r_value = ''250'', r_validAfter = ''0'', r_validBefore = ''4000'',
      r_nonce = ''0x'' @ replicate 64 CHR ''e''\<rparr>"

lemma sample_valid:
  "validateTypedDataRequest sample_payment = None"
  "validateTypedDataRequest (sample_payment\<lparr>r_to := ''0x'' @ replicate 40 CHR ''D''\<rparr>) = None"
  by code_simp+

lemma typed_data_binding_witness:
  "same_authorization sample_payment (sample_payment\<lparr>r_to := ''0x'' @ replicate 40 CHR ''D''\<rparr>)"
proof (rule typed_data_binding [OF sample_valid toy_crypto_laws(1)])
  show "hash_apart (keccak_256 toy_crypto) (typed_hash_inputs toy_crypto sample_payment @
      typed_hash_inputs toy_crypto (sample_payment\<lparr>r_to := ''0x'' @ replicate 40 CHR ''D''\<rparr>))"
    by code_simp
  show "typedDataDigest toy_crypto sample_payment =
      typedDataDigest toy_crypto (sample_payment\<lparr>r_to := ''0x'' @ replicate 40 CHR ''D''\<rparr>)"
    by code_simp
qed

definition sample_scope :: "string \<Rightarrow> session_scope" where
  "sample_scope token =
     \<lparr>expiry = 9000, maxTotalGas = None, maxGasPerTx = None, maxTotalValue = None, maxValuePerTx = None,
      maxTxCount = None, allowedContracts = None, allowedMethods = None, tokenAllowances = Some [(token, 9)],
      tokenMaxPerTx = None, periodLimits = None, allowedRecipients = None, nativeTransfer = None,
      allowedChainIds = None, rails = Some [''x402-exact''], mode = Offchain\<rparr>"

lemma typed_data_spend_witness:
  "\<exists>amount. bigint_of ''250'' = Some amount \<and>
     decodeScopedTokenSpend (sample_scope (''0x'' @ replicate 40 CHR ''C''))
       (typedDataAsTransaction sample_payment) =
     Spend \<lparr>ts_token = ''0x'' @ replicate 40 CHR ''C'', ts_amount = amount, ts_allowance = 9,
            ts_recipient = ''0x'' @ replicate 40 CHR ''d''\<rparr>"
proof -
  have "entry_ci (r_verifyingContract sample_payment)
      (tokenAllowances (sample_scope (''0x'' @ replicate 40 CHR ''C''))) = Some (''0x'' @ replicate 40 CHR ''C'', 9)"
    "lower (r_to sample_payment) = ''0x'' @ replicate 40 CHR ''d''" "r_value sample_payment = ''250''"
    by code_simp+
  with typed_data_spend [OF sample_valid(1) this(1)] show ?thesis by simp
qed

end
