(* ===== verification/KeyVault.thy ===== *)
theory KeyVault
  imports SessionTypes Crypto
begin

unbundle bit_operations_syntax

text \<open>
  Sealing of private keys: the encryption half of packages/core/src/session-keys/storage.ts and
  the password derivation of SessionKeyManager.ts.  Random bytes are arguments.  Proved: a sealed
  key opens again whatever iteration count the manager is configured with later, new material
  is never sealed below the work-factor floor, and the legacy stream cipher is its own inverse.
\<close>

definition default_pbkdf2_iterations :: int where "default_pbkdf2_iterations = 600000"
definition min_pbkdf2_iterations :: int where "min_pbkdf2_iterations = 600000"

definition assertIterationFloor :: "int option \<Rightarrow> bool \<Rightarrow> fault option" where
  "assertIterationFloor iterations allowWeak =
     (if allowWeak then None
      else case iterations of None \<Rightarrow> None
      | Some n \<Rightarrow> throw_if (n < min_pbkdf2_iterations)
          (PlainError (''PBKDF2 iterations must be an integer of at least '' @
             show_int min_pbkdf2_iterations @ ''; received '' @ show_int n @ ''.'')))"

definition deriveEncryptionKey :: "crypto \<Rightarrow> string \<Rightarrow> bytes \<Rightarrow> int option \<Rightarrow> bytes" where
  "deriveEncryptionKey c password slt iterations =
     pbkdf2_sha256 c (utf8 password) slt (or_else iterations default_pbkdf2_iterations)"

section \<open>The pre-0.2 cipher\<close>

text \<open>The low 64 bits of a counter, most significant byte first.\<close>

definition counter_bytes :: "nat \<Rightarrow> bytes" where
  "counter_bytes n = map (\<lambda>i. word_of_nat ((n div 256 ^ (7 - i)) mod 256)) [0..<8]"

definition legacy_block :: "crypto \<Rightarrow> bytes \<Rightarrow> bytes \<Rightarrow> nat \<Rightarrow> bytes" where
  "legacy_block c key nonce b =
     hmac_sha256 c key (take 4 nonce @ counter_bytes (be_value nonce + b) @ replicate (length nonce - 4) 0)"

definition legacy_keystream :: "crypto \<Rightarrow> bytes \<Rightarrow> bytes \<Rightarrow> nat \<Rightarrow> bytes" where
  "legacy_keystream c key nonce len =
     concat (map (legacy_block c key nonce) [0..<(len + 15) div 16])"

definition legacy_xor :: "crypto \<Rightarrow> bytes \<Rightarrow> bytes \<Rightarrow> bytes \<Rightarrow> bytes" where
  "legacy_xor c key nonce text =
     map2 (\<lambda>x y. x XOR y) text (legacy_keystream c key nonce (length text))"

definition legacyCtrHmacDecrypt :: "crypto \<Rightarrow> bytes \<Rightarrow> bytes \<Rightarrow> bytes \<Rightarrow> bytes \<Rightarrow> fault + bytes" where
  "legacyCtrHmacDecrypt c ciphertext key nonce tag =
     (let expectedTag = take 16 (hmac_sha256 c key (nonce @ ciphertext)) in
      if tag \<noteq> expectedTag then Inl (sk_fault SkEncryptionFailed ''Tag verification failed'')
      else Inr (legacy_xor c key nonce ciphertext))"

section \<open>Sealing and opening\<close>

definition derivePublicKeyHex :: "crypto \<Rightarrow> bytes \<Rightarrow> fault + string" where
  "derivePublicKeyHex c privateKeyBytes =
     (case secp_public_key c privateKeyBytes of
        None \<Rightarrow> Inl (PlainError ''encryptPrivateKey: cannot derive a public key from the private key'')
      | Some pk \<Rightarrow>
          if length pk \<noteq> 33 \<and> length pk \<noteq> 65 then
            Inl (PlainError ''encryptPrivateKey: derived public key has an invalid length'')
          else Inr (''0x'' @ bytesToHex pk))"

definition decode_or_throw :: "string \<Rightarrow> fault + bytes" where
  "decode_or_throw hex =
     (case hex_decode hex of None \<Rightarrow> Inl (PlainError ''invalid hex string'') | Some bs \<Rightarrow> Inr bs)"

definition encryptPrivateKey ::
  "crypto \<Rightarrow> string \<Rightarrow> string \<Rightarrow> bytes \<Rightarrow> bytes \<Rightarrow> int option \<Rightarrow> string option \<Rightarrow> bool \<Rightarrow>
   fault + encrypted_key_pair" where
  "encryptPrivateKey c privateKeyHex password actualSalt nonce iterations publicKeyHex allowWeak =
     (case assertIterationFloor iterations allowWeak of Some e \<Rightarrow> Inl e
      | None \<Rightarrow>
          andThen (decode_or_throw (drop 2 privateKeyHex)) (\<lambda>pkBytes.
          let key = deriveEncryptionKey c password actualSalt iterations in
          andThen (case publicKeyHex of Some pk \<Rightarrow> Inr pk | None \<Rightarrow> derivePublicKeyHex c pkBytes) (\<lambda>pub.
          andThen (decode_or_throw (drop 2 pub)) (\<lambda>aad.
          Inr \<lparr>publicKey = pub,
               encryptedPrivateKey = bytesToHex (gcm_encrypt c key nonce aad pkBytes),
               iv = bytesToHex nonce,
               salt = bytesToHex actualSalt,
               algorithm = Some Aes256Gcm,
               kdfIterations = Some (or_else iterations default_pbkdf2_iterations)\<rparr>))))"

definition decryptPrivateKey ::
  "crypto \<Rightarrow> encrypted_key_pair \<Rightarrow> string \<Rightarrow> int option \<Rightarrow> fault + string" where
  "decryptPrivateKey c enc password iterations =
     andThen (decode_or_throw (encryptedPrivateKey enc)) (\<lambda>combined.
     andThen (decode_or_throw (iv enc)) (\<lambda>nonce.
     andThen (decode_or_throw (salt enc)) (\<lambda>slt.
     let key = deriveEncryptionKey c password slt
           (case kdfIterations enc of Some n \<Rightarrow> Some n | None \<Rightarrow> iterations) in
     andThen
       (if algorithm enc = Some Aes256Gcm then
          andThen (decode_or_throw (drop 2 (publicKey enc))) (\<lambda>aad.
            case gcm_decrypt c key nonce aad combined of
              None \<Rightarrow> Inl (PlainError ''aes/gcm: invalid ghash tag'') | Some p \<Rightarrow> Inr p)
        else legacyCtrHmacDecrypt c (drop 16 combined) key nonce (take 16 combined))
       (\<lambda>plaintext. Inr (''0x'' @ bytesToHex plaintext)))))"

text \<open>\<open>deriveEncryptionPassword\<close>: the host's key, or the hash of a fixed text.\<close>

definition deriveEncryptionPassword :: "crypto \<Rightarrow> manager_config \<Rightarrow> string" where
  "deriveEncryptionPassword c cfg =
     (if encryptionKey cfg \<noteq> [] then encryptionKey cfg
      else let base = (if encryptionSalt cfg \<noteq> []
                       then storagePrefix cfg @ ''::'' @ encryptionSalt cfg @ ''::session_key_encryption_v1''
                       else storagePrefix cfg @ ''::session_key_encryption_v1'')
           in bytesToHex (sha256 c (utf8 base)))"

text \<open>\<open>uuidv4\<close> on 16 random bytes: version 4 in byte 6, the variant in byte 8.\<close>

definition uuidv4 :: "bytes \<Rightarrow> string" where
  "uuidv4 rnd =
     (let bytes = rnd[6 := ((rnd ! 6) AND 15) OR 64, 8 := ((rnd ! 8) AND 63) OR 128];
          hex = bytesToHex bytes
      in js_slice 0 8 hex @ ''-'' @ js_slice 8 12 hex @ ''-'' @ js_slice 12 16 hex @ ''-'' @
         js_slice 16 20 hex @ ''-'' @ drop 20 hex)"

section \<open>Round trips\<close>

lemma decode_or_throw_bytes [simp]: "decode_or_throw (bytesToHex bs) = Inr bs"
  by (simp add: decode_or_throw_def)

lemma decode_or_throw_Inr: "decode_or_throw s = Inr bs \<Longrightarrow> hex_decode s = Some bs"
  by (auto simp: decode_or_throw_def split: option.splits)

lemma hex_decode_lower: "hex_decode s = Some bs \<Longrightarrow> bytesToHex bs = lower s"
  by (auto simp: hex_decode_def bytesToHex_byte_pairs split: if_splits)

lemma seal_then_open:
  assumes "gcm_correct c"
    and "encryptPrivateKey c privateKeyHex password slt nonce iterations pub allowWeak = Inr enc"
  shows "decryptPrivateKey c enc password later = Inr (''0x'' @ lower (drop 2 privateKeyHex)) \<and>
    (allowWeak \<or> (\<exists>n. kdfIterations enc = Some n \<and> 600000 \<le> n))"
proof -
  obtain pk where floor: "assertIterationFloor iterations allowWeak = None"
    and pk: "decode_or_throw (drop 2 privateKeyHex) = Inr pk"
    using assms(2) by (auto simp: encryptPrivateKey_def split: option.splits)
  obtain p aad where aad: "decode_or_throw (drop 2 p) = Inr aad"
    and enc: "enc = \<lparr>publicKey = p,
       encryptedPrivateKey = bytesToHex (gcm_encrypt c (deriveEncryptionKey c password slt iterations) nonce aad pk),
       iv = bytesToHex nonce, salt = bytesToHex slt, algorithm = Some Aes256Gcm,
       kdfIterations = Some (or_else iterations default_pbkdf2_iterations)\<rparr>"
    using assms(2) floor pk by (auto simp: encryptPrivateKey_def Let_def)
  have "deriveEncryptionKey c password slt (Some (or_else iterations default_pbkdf2_iterations)) =
      deriveEncryptionKey c password slt iterations"
    by (simp add: deriveEncryptionKey_def)
  then have "decryptPrivateKey c enc password later = Inr (''0x'' @ bytesToHex pk)"
    using assms(1) aad unfolding enc by (simp add: decryptPrivateKey_def gcm_correct_def Let_def)
  moreover have "bytesToHex pk = lower (drop 2 privateKeyHex)"
    using pk by (intro hex_decode_lower decode_or_throw_Inr)
  moreover have "allowWeak \<or> 600000 \<le> or_else iterations default_pbkdf2_iterations"
    using floor by (cases iterations)
      (auto simp: assertIterationFloor_def default_pbkdf2_iterations_def min_pbkdf2_iterations_def split: if_splits)
  ultimately show ?thesis by (auto simp: enc)
qed

text \<open>With other associated data of the same length, what was sealed does not open.\<close>

definition gcm_binds :: "crypto \<Rightarrow> bool" where
  "gcm_binds c \<longleftrightarrow>
     (\<forall>key nonce aad aad' plain. length aad' = length aad \<longrightarrow> aad' \<noteq> aad \<longrightarrow>
        gcm_decrypt c key nonce aad' (gcm_encrypt c key nonce aad plain) = None)"

lemma seal_then_alter:
  assumes "gcm_binds c" "encryptPrivateKey c pk password slt nonce iterations (Some pub) weak = Inr enc"
    and "hex_decode (drop 2 pub) = Some aad" "hex_decode (drop 2 pub') = Some aad'"
    and "length aad' = length aad" "aad' \<noteq> aad"
  shows "\<exists>e. decryptPrivateKey c (enc\<lparr>publicKey := pub'\<rparr>) password later = Inl e"
proof -
  obtain pkb where enc: "enc = \<lparr>publicKey = pub,
       encryptedPrivateKey = bytesToHex (gcm_encrypt c (deriveEncryptionKey c password slt iterations) nonce aad pkb),
       iv = bytesToHex nonce, salt = bytesToHex slt, algorithm = Some Aes256Gcm,
       kdfIterations = Some (or_else iterations default_pbkdf2_iterations)\<rparr>"
    using assms(2,3) by (auto simp: encryptPrivateKey_def decode_or_throw_def Let_def split: option.splits)
  have "deriveEncryptionKey c password slt (Some (or_else iterations default_pbkdf2_iterations)) =
      deriveEncryptionKey c password slt iterations"
    by (simp add: deriveEncryptionKey_def)
  then show ?thesis
    using assms(1,4-) unfolding enc
    by (simp add: decryptPrivateKey_def decode_or_throw_def gcm_binds_def Let_def)
qed

lemma toy_gcm_binds: "gcm_binds toy_crypto"
  by (auto simp: gcm_binds_def toy_crypto_def)

text \<open>
  A sealed key opens with the password it was sealed with, and yields the key itself, whatever
  iteration count the caller passes later; and nothing is sealed below the work-factor floor
  unless the weak setting was asked for.
\<close>

lemma seal_open_roundtrip:
  assumes "gcm_correct c"
    and "encryptPrivateKey c privateKeyHex password slt nonce iterations pub allowWeak = Inr enc"
  shows "decryptPrivateKey c enc password later = Inr (''0x'' @ lower (drop 2 privateKeyHex)) \<and>
    (allowWeak \<or> (\<exists>n. kdfIterations enc = Some n \<and> 600000 \<le> n))"
  by (rule seal_then_open [OF assms])

lemma seal_open_roundtrip_witness:
  "\<exists>enc. encryptPrivateKey toy_crypto ''0x0A'' ''pw'' [1] [2] None (Some ''0x02'') False = Inr enc \<and>
     decryptPrivateKey toy_crypto enc ''pw'' (Some 7) = Inr ''0x0a''"
proof -
  obtain enc where e: "encryptPrivateKey toy_crypto ''0x0A'' ''pw'' [1] [2] None (Some ''0x02'') False = Inr enc"
    by (simp add: encryptPrivateKey_def assertIterationFloor_def decode_or_throw_def hex_decode_def
        is_hex_def hex_val_def ord_def Let_def)
  have "lower (drop 2 ''0x0A'') = ''0a''" by code_simp
  with seal_open_roundtrip [OF toy_crypto_laws(2) e, of "Some 7"] e show ?thesis by auto
qed

lemma length_legacy_keystream:
  assumes "\<forall>k x. length (hmac_sha256 c k x) = 32"
  shows "len \<le> length (legacy_keystream c key nonce len)"
proof -
  have "length (legacy_keystream c key nonce len) = 32 * ((len + 15) div 16)"
    using assms by (simp add: legacy_keystream_def legacy_block_def length_concat comp_def sum_list_triv)
  then show ?thesis by linarith
qed

lemma map2_xor_twice:
  "length (msg :: bytes) \<le> length ks \<Longrightarrow>
   map2 (\<lambda>x y. x XOR y) (map2 (\<lambda>x y. x XOR y) msg ks) ks = msg"
proof (induction msg arbitrary: ks)
  case (Cons m msg)
  then obtain k ks' where "ks = k # ks'" by (cases ks) auto
  with Cons show ?case by (simp add: xor.assoc)
qed simp

lemma legacy_xor_involution:
  assumes "\<forall>k x. length (hmac_sha256 c k x) = 32"
  shows "legacy_xor c key nonce (legacy_xor c key nonce msg) = msg"
proof -
  have l: "length msg \<le> length (legacy_keystream c key nonce (length msg))"
    by (rule length_legacy_keystream [OF assms])
  then have "length (legacy_xor c key nonce msg) = length msg"
    by (simp add: legacy_xor_def)
  then show ?thesis using map2_xor_twice [OF l] by (simp add: legacy_xor_def)
qed

end
