(* ===== verification/SessionManager.thy ===== *)
theory SessionManager
  imports SessionStore TypedData KeyVault
begin

text \<open>
  The operations of class \<open>SessionKeyManager\<close> (packages/core/src/session-keys/SessionKeyManager.ts)
  except those of EIP-7702 delegations.  Each handler takes the manager's state (adapter, cache,
  active bundle) and returns its result or the error it throws together with the new state.  The
  per-key and per-store locks make a handler atomic; the lock itself is the theory AdapterLock.
  A handler reads the clock at several points; the readings are the fields of \<open>clock\<close>.
\<close>

record manager =
  store :: backend
  cache :: "string \<Rightarrow> stored_key option"
  activeBundle :: "key_bundle option"

record clock =
  clk_request :: int
  clk_status :: int
  clk_scope :: int
  clk_charge :: int
  clk_used :: int

definition new_manager :: "backend \<Rightarrow> manager" where
  "new_manager b = \<lparr>store = b, cache = (\<lambda>_. None), activeBundle = None\<rparr>"

text \<open>The constructor's check of the two durations.\<close>

definition config_fault :: "manager_config \<Rightarrow> fault option" where
  "config_fault cfg =
     throw_if
       (\<not> safe_integer (maxExpiryMs cfg) \<or> maxExpiryMs cfg \<le> 0 \<or>
        \<not> safe_integer (defaultExpiryMs cfg) \<or> defaultExpiryMs cfg \<le> 0 \<or>
        defaultExpiryMs cfg > maxExpiryMs cfg)
       (sk_fault SkInvalidInput ''defaultExpiryMs and maxExpiryMs must be positive safe integers, and defaultExpiryMs cannot exceed maxExpiryMs'')"

section \<open>Reading a record and its status\<close>

definition readStoredSession :: "string \<Rightarrow> manager \<Rightarrow> fault + stored_key option" where
  "readStoredSession kid m =
     (if \<not> available (store m) then Inl (sk_fault SkStorageUnavailable [])
      else case store_get kid (store m) of
        Inl e \<Rightarrow> Inl (sk_fault SkStorageUnavailable [])
      | Inr r \<Rightarrow> Inr r)"

definition read_or_throw :: "string \<Rightarrow> manager \<Rightarrow> fault + stored_key" where
  "read_or_throw kid m =
     andThen (readStoredSession kid m)
       (\<lambda>r. case r of None \<Rightarrow> Inl (sk_fault SkNotFound kid) | Some k \<Rightarrow> Inr k)"

definition status_fault :: "stored_key \<Rightarrow> int \<Rightarrow> fault option" where
  "status_fault k now = first_some
     [throw_if (status k = Revoked) (sk_fault SkRevoked (key_id k)),
      throw_if (status k = Expired) (sk_fault SkExpired (key_id k)),
      throw_if (\<not> hasValidSessionKeyRails (rails (scope k))) (sk_fault SkScopeExceeded rails_message),
      throw_if (expiry (scope k) \<le> now_sec now) (sk_fault SkExpired (key_id k)),
      (case maxTxCount (scope k) of None \<Rightarrow> None
       | Some n \<Rightarrow> throw_if (useCount k \<ge> n) (sk_fault SkMaxTxCountExceeded (key_id k)))]"

text \<open>The fire-and-forget \<open>updateStatus(id, "expired")\<close> of \<open>validateSessionStatus\<close>.\<close>

definition expire_effect :: "stored_key \<Rightarrow> int \<Rightarrow> backend \<Rightarrow> backend" where
  "expire_effect k now b =
     (if status k = Active \<and> hasValidSessionKeyRails (rails (scope k)) \<and> expiry (scope k) \<le> now_sec now
      then (case updateStatus (key_id k) Expired b of Inl e \<Rightarrow> b | Inr b' \<Rightarrow> b')
      else b)"

definition validateSessionStatus :: "stored_key \<Rightarrow> int \<Rightarrow> manager \<Rightarrow> fault option \<times> manager" where
  "validateSessionStatus k now m =
     (status_fault k now, m\<lparr>store := expire_effect k now (store m)\<rparr>)"

section \<open>Public view\<close>

definition toSessionKeyInfo :: "stored_key \<Rightarrow> key_info" where
  "toSessionKeyInfo k =
     (let auth = authorization k in
      \<lparr>i_id = key_id k,
       i_publicKey = publicKey (keyPair k),
       i_scope = scope k,
       i_status = status k,
       i_createdAt = createdAt k,
       i_expiresAt = expiry (scope k) * 1000,
       i_useCount = useCount k,
       i_signerAddress = a_signerAddress auth,
       i_authorized = (truthy (a_rawSignature auth) \<or> truthy (a_authorization auth)),
       i_authorizationType = a_type auth,
       i_authorizationMessage = (if truthy (a_message auth) then a_message auth else None),
       i_usage =
         (if accumulatedValue k \<noteq> None \<or> accumulatedTokenSpends k \<noteq> None then
            Some \<lparr>valueSpent = or_else (accumulatedValue k) 0,
                  tokenSpent = or_nil (accumulatedTokenSpends k),
                  txCount = useCount k\<rparr>
          else None)\<rparr>)"

section \<open>Creating\<close>

definition new_stored_key ::
  "string \<Rightarrow> encrypted_key_pair \<Rightarrow> session_scope \<Rightarrow> string option \<Rightarrow> int \<Rightarrow> stored_key" where
  "new_stored_key kid sealed fullScope signerAddress now =
     \<lparr>key_id = kid, keyPair = sealed, scope = fullScope,
      authorization =
        \<lparr>a_authorization = None, a_rawSignature = None, a_message = None,
         a_signerAddress = or_else signerAddress zero_addr, a_type = mode fullScope,
         a_delegationChainId = None\<rparr>,
      status = Active, createdAt = now, lastUsedAt = now, useCount = 0,
      accumulatedValue = None, accumulatedGas = None, accumulatedTokenSpends = None,
      periodUsage = None\<rparr>"

definition createSessionKey ::
  "crypto \<Rightarrow> manager_config \<Rightarrow> scope_input option \<Rightarrow> string option \<Rightarrow>
   bytes \<Rightarrow> bytes \<Rightarrow> bytes \<Rightarrow> bytes \<Rightarrow> int \<Rightarrow> manager \<Rightarrow> (fault + key_info) \<times> manager" where
  "createSessionKey c cfg input signerAddress privateKeyBytes slt nonce uuid_bytes now m =
     (let fullScope = resolveScope cfg now input in
      case validateScopeInput cfg now fullScope of Some e \<Rightarrow> (Inl (SkFault e), m)
      | None \<Rightarrow>
      if (case signerAddress of None \<Rightarrow> False | Some a \<Rightarrow> bad_evm_address a) then
        (Inl (sk_fault SkInvalidInput ''signerAddress must be a non-zero EVM address''), m)
      else if requireAllowedContracts cfg \<and> \<not> nonempty (allowedContracts fullScope) \<and>
              nativeTransfer fullScope \<noteq> Some native_transfer_mode then
        (Inl (sk_fault SkRequiredFieldsMissing
           ''allowedContracts is required when requireAllowedContracts is enabled''), m)
      else case secp_public_key c privateKeyBytes of
        None \<Rightarrow> (Inl (PlainError ''invalid private key''), m)
      | Some publicKeyBytes \<Rightarrow>
      case encryptPrivateKey c (''0x'' @ bytesToHex privateKeyBytes) (deriveEncryptionPassword c cfg)
             slt nonce (Some (pbkdf2Iterations cfg)) (Some (''0x'' @ bytesToHex publicKeyBytes))
             (unsafeAllowWeakKdf cfg) of
        Inl e \<Rightarrow> (Inl e, m)
      | Inr sealed \<Rightarrow>
          let stored = new_stored_key (uuidv4 uuid_bytes) sealed fullScope signerAddress now
          in case store_save stored (store m) of
               Inl e \<Rightarrow> (Inl e, m)
             | Inr b \<Rightarrow>
                 (Inr (toSessionKeyInfo stored),
                  m\<lparr>store := b, cache := (cache m)(key_id stored \<mapsto> stored)\<rparr>))"

section \<open>Listing, revoking, clearing\<close>

definition mark_expired :: "int \<Rightarrow> stored_key \<Rightarrow> stored_key" where
  "mark_expired now k =
     (if status k = Active \<and> expiry (scope k) \<le> now_sec now then k\<lparr>status := Expired\<rparr> else k)"

text \<open>Save one after the other, stopping at the first failure.\<close>

fun save_each :: "stored_key list \<Rightarrow> backend \<Rightarrow> fault option \<times> backend" where
  "save_each [] b = (None, b)"
| "save_each (k # ks) b =
     (case store_save k b of Inl e \<Rightarrow> (Some e, b) | Inr b' \<Rightarrow> save_each ks b')"

definition refreshCache :: "int \<Rightarrow> manager \<Rightarrow> (fault + stored_key list) \<times> manager" where
  "refreshCache now m =
     (let loaded = loadAll (store m);
          keys = map (mark_expired now) loaded;
          changed = (\<exists>k \<in> set loaded. status k = Active \<and> expiry (scope k) \<le> now_sec now);
          m1 = m\<lparr>cache := fold (\<lambda>k ca. ca(key_id k \<mapsto> k)) keys (cache m)\<rparr>
      in if changed then
           (case save_each (filter (\<lambda>k. status k = Expired) keys) (store m1) of
              (Some e, b) \<Rightarrow> (Inl e, m1\<lparr>store := b\<rparr>)
            | (None, b) \<Rightarrow> (Inr keys, m1\<lparr>store := b\<rparr>))
         else (Inr keys, m1))"

definition listSessions :: "int \<Rightarrow> manager \<Rightarrow> (fault + key_info list) \<times> manager" where
  "listSessions now m =
     (case refreshCache now m of
        (Inl e, m') \<Rightarrow> (Inl e, m')
      | (Inr keys, m') \<Rightarrow> (Inr (map toSessionKeyInfo keys), m'))"

definition listActiveSessions :: "int \<Rightarrow> manager \<Rightarrow> (fault + key_info list) \<times> manager" where
  "listActiveSessions now m =
     (case refreshCache now m of
        (Inl e, m') \<Rightarrow> (Inl e, m')
      | (Inr keys, m') \<Rightarrow>
          (Inr (map toSessionKeyInfo (filter (\<lambda>k. status k = Active) keys)), m'))"

definition revokeSession :: "string \<Rightarrow> manager \<Rightarrow> (fault + unit) \<times> manager" where
  "revokeSession kid m =
     (case updateStatus kid Revoked (store m) of
        Inl e \<Rightarrow> (Inl e, m)
      | Inr b \<Rightarrow>
          (Inr (),
           m\<lparr>store := b,
             cache := (cache m)(kid := None),
             activeBundle := (case activeBundle m of
               Some bd \<Rightarrow> if b_id bd = kid then None else Some bd | None \<Rightarrow> None)\<rparr>))"

definition clearAll :: "manager \<Rightarrow> manager" where
  "clearAll m = m\<lparr>store := store_clear (store m), cache := (\<lambda>_. None), activeBundle := None\<rparr>"

section \<open>Authorization by the owner\<close>

definition setAuthorization :: "string \<Rightarrow> signed_authorization \<Rightarrow> manager \<Rightarrow> (fault + unit) \<times> manager" where
  "setAuthorization kid auth m =
     (case read_or_throw kid m of Inl e \<Rightarrow> (Inl e, m)
      | Inr stored \<Rightarrow>
          let owner = a_signerAddress (authorization stored) in
          case first_some
            [throw_if (a_type auth \<noteq> mode (scope stored) \<or> bad_evm_address (a_signerAddress auth) \<or>
               (owner \<noteq> zero_addr \<and> lower (a_signerAddress auth) \<noteq> lower owner))
               (sk_fault SkInvalidInput ''Authorization type or signer address does not match the session key''),
             throw_if (a_type auth = Eip7702)
               (sk_fault SkInvalidInput ''EIP-7702 session keys are authorized with attachDelegation, not setAuthorization''),
             throw_if (a_type auth = Offchain \<and> \<not> hex_literal 130 (text_of (a_rawSignature auth)))
               (sk_fault SkInvalidInput ''Off-chain authorization requires a 65-byte EVM signature'')] of
            Some e \<Rightarrow> (Inl e, m)
          | None \<Rightarrow>
              let stored' = stored\<lparr>authorization := auth\<rparr> in
              (case store_save stored' (store m) of Inl e \<Rightarrow> (Inl e, m)
               | Inr b \<Rightarrow> (Inr (), m\<lparr>store := b, cache := (cache m)(key_id stored' \<mapsto> stored')\<rparr>)))"

text \<open>The chain-specific verifier is a parameter; \<open>None\<close> is a verifier that throws.\<close>

type_synonym offchain_verifier = "string \<Rightarrow> string \<Rightarrow> string \<Rightarrow> bool option"

definition verifyStoredOffchainAuthorization ::
  "offchain_verifier \<Rightarrow> stored_key \<Rightarrow> string \<Rightarrow> bool" where
  "verifyStoredOffchainAuthorization verify stored expectedMessage =
     (let auth = authorization stored in
      if \<not> hasValidSessionKeyRails (rails (scope stored)) \<or> a_type auth \<noteq> Offchain \<or>
         a_message auth \<noteq> Some expectedMessage \<or> \<not> hex_literal 130 (text_of (a_rawSignature auth)) \<or>
         bad_evm_address (a_signerAddress auth)
      then False
      else verify (text_of (a_message auth)) (text_of (a_rawSignature auth)) (a_signerAddress auth) = Some True)"

definition verifyOffchainAuthorization ::
  "offchain_verifier \<Rightarrow> string \<Rightarrow> string \<Rightarrow> manager \<Rightarrow> fault + bool" where
  "verifyOffchainAuthorization verify kid expectedMessage m =
     andThen (readStoredSession kid m)
       (\<lambda>r. case r of None \<Rightarrow> Inr False
          | Some stored \<Rightarrow> Inr (verifyStoredOffchainAuthorization verify stored expectedMessage))"

section \<open>Signing\<close>

definition eip7702_only_message :: string where
  "eip7702_only_message = ''An eip7702 session key signs only delegation redemptions (signDelegationRedemption).''"

definition refuseRawDigestForRecipientScope :: "stored_key \<Rightarrow> fault option" where
  "refuseRawDigestForRecipientScope k = first_some
     [throw_if (\<not> hasValidSessionKeyRails (rails (scope k))) (sk_fault SkScopeExceeded rails_message),
      throw_if (mode (scope k) = Eip7702) (sk_fault SkScopeExceeded eip7702_only_message),
      throw_if (nonempty (allowedRecipients (scope k)))
        (sk_fault SkScopeExceeded ''This session key limits recipients; a raw digest cannot be bound to a recipient. Use signTypedDataWithSessionKey.''),
      throw_if (opt_any (\<lambda>r. r \<in> set eip3009_rails) (rails (scope k)))
        (sk_fault SkScopeExceeded ''This session key limits rails; a raw digest cannot be bound to a rail. Use signTypedDataWithSessionKey.'')]"

definition assertMessageHash :: "string \<Rightarrow> fault option" where
  "assertMessageHash h =
     throw_if (\<not> hex_literal 64 h) (sk_fault SkInvalidInput ''messageHash must be exactly 32 bytes'')"

definition counters_of :: "stored_key \<Rightarrow> counters" where
  "counters_of k =
     \<lparr>c_count = useCount k, c_value = or_else (accumulatedValue k) 0,
      c_gas = or_else (accumulatedGas k) 0, c_tokens = accumulatedTokenSpends k,
      c_periods = periodUsage k\<rparr>"

definition bundle_of :: "stored_key \<Rightarrow> string \<Rightarrow> key_bundle" where
  "bundle_of k privateKey =
     \<lparr>b_id = key_id k, b_privateKey = privateKey, b_scope = scope k,
      b_authorization = authorization k, b_signerAddress = a_signerAddress (authorization k)\<rparr>"

text \<open>\<open>0x || r || s || v\<close> from the recovered format \<open>[recovery, r, s]\<close>.\<close>

definition format_signature :: "bytes \<Rightarrow> string" where
  "format_signature sig =
     ''0x'' @ bytesToHex (drop 1 sig) @ hex_padded 2 (unat (sig ! 0) + 27)"

text \<open>The refusals of \<open>signStoredSessionKey\<close> that come before the key is opened.\<close>

definition sign_refusal ::
  "manager_config \<Rightarrow> stored_key \<Rightarrow> string \<Rightarrow> session_tx \<Rightarrow> clock \<Rightarrow> fault option" where
  "sign_refusal cfg k messageHash tx clk = first_some
     [assertMessageHash messageHash,
      status_fault k (clk_status clk),
      throw_if (\<not> unsafeAllowUnauthorizedSigning cfg \<and> \<not> truthy (a_rawSignature (authorization k)) \<and>
                \<not> truthy (a_authorization (authorization k)))
        (sk_fault SkInvalidInput ''Owner authorization must be attached before signing''),
      (case checkScopeAgainstTx cfg (scope k) (counters_of k) tx (now_sec (clk_scope clk)) of
         Inl reason \<Rightarrow> Some (sk_fault SkScopeExceeded reason) | Inr _ \<Rightarrow> None)]"

definition sign_bytes :: "crypto \<Rightarrow> string \<Rightarrow> string \<Rightarrow> fault + string" where
  "sign_bytes c messageHash privateKey =
     andThen (decode_or_throw (drop 2 messageHash)) (\<lambda>digest.
     andThen (decode_or_throw (drop 2 privateKey)) (\<lambda>key.
       case secp_sign c digest key of
         None \<Rightarrow> Inl (PlainError ''signing failed'')
       | Some sig \<Rightarrow> Inr (format_signature sig)))"

definition signStoredSessionKey ::
  "crypto \<Rightarrow> manager_config \<Rightarrow> stored_key \<Rightarrow> string \<Rightarrow> session_tx \<Rightarrow> clock \<Rightarrow> manager \<Rightarrow>
   (fault + string) \<times> manager" where
  "signStoredSessionKey c cfg k messageHash tx clk m =
     (let m0 = (if assertMessageHash messageHash = None
                then snd (validateSessionStatus k (clk_status clk) m) else m) in
      case sign_refusal cfg k messageHash tx clk of Some e \<Rightarrow> (Inl e, m0)
      | None \<Rightarrow>
      case decryptPrivateKey c (keyPair k) (deriveEncryptionPassword c cfg) (Some (pbkdf2Iterations cfg)) of
        Inl e \<Rightarrow> (Inl e, m0)
      | Inr privateKey \<Rightarrow>
          let m1 = m0\<lparr>activeBundle := Some (bundle_of k privateKey)\<rparr> in
          case sign_bytes c messageHash privateKey of Inl e \<Rightarrow> (Inl e, m1)
          | Inr signature \<Rightarrow>
              let spend = spend_of (decodeScopedTokenSpend (scope k) tx) in
              case periodUsageFor (scope k) tx (periodUsage k) spend (now_sec (clk_charge clk)) of
                Inl e \<Rightarrow> (Inl (SkFault e), m1)
              | Inr charge \<Rightarrow>
                  (case incrementUsageUnlocked (key_id k) tx spend charge (clk_used clk) (store m1) of
                     Inl e \<Rightarrow> (Inl e, m1)
                   | Inr b \<Rightarrow>
                       (Inr signature, m1\<lparr>store := b, cache := (cache m1)(key_id k := None)\<rparr>)))"

definition signWithSessionKey ::
  "crypto \<Rightarrow> manager_config \<Rightarrow> string \<Rightarrow> string \<Rightarrow> session_tx \<Rightarrow> clock \<Rightarrow> manager \<Rightarrow>
   (fault + string) \<times> manager" where
  "signWithSessionKey c cfg kid messageHash tx clk m =
     (case read_or_throw kid m of Inl e \<Rightarrow> (Inl e, m)
      | Inr stored \<Rightarrow>
          (case refuseRawDigestForRecipientScope stored of Some e \<Rightarrow> (Inl e, m)
           | None \<Rightarrow> signStoredSessionKey c cfg stored messageHash tx clk m))"

definition authorization_stale :: fault where
  "authorization_stale =
     sk_fault SkInvalidInput ''Off-chain authorization no longer matches the signed policy''"

definition signWithVerifiedOffchainAuthorization ::
  "crypto \<Rightarrow> manager_config \<Rightarrow> string \<Rightarrow> (key_info \<Rightarrow> string) \<Rightarrow> offchain_verifier \<Rightarrow> string \<Rightarrow>
   session_tx \<Rightarrow> clock \<Rightarrow> manager \<Rightarrow> (fault + string) \<times> manager" where
  "signWithVerifiedOffchainAuthorization c cfg kid buildExpectedMessage verify messageHash tx clk m =
     (case assertMessageHash messageHash of Some e \<Rightarrow> (Inl e, m)
      | None \<Rightarrow>
      case read_or_throw kid m of Inl e \<Rightarrow> (Inl e, m)
      | Inr stored \<Rightarrow>
          (case validateSessionStatus stored (clk_request clk) m of
             (Some e, m0) \<Rightarrow> (Inl e, m0)
           | (None, m0) \<Rightarrow>
               if \<not> verifyStoredOffchainAuthorization verify stored
                     (buildExpectedMessage (toSessionKeyInfo stored))
               then (Inl authorization_stale, m0)
               else case refuseRawDigestForRecipientScope stored of Some e \<Rightarrow> (Inl e, m0)
                 | None \<Rightarrow> signStoredSessionKey c cfg stored messageHash tx clk m0))"

section \<open>Typed data\<close>

definition typedDataToScopedTransaction ::
  "crypto \<Rightarrow> stored_key \<Rightarrow> typed_data_request \<Rightarrow> string \<Rightarrow> int \<Rightarrow> fault + session_tx" where
  "typedDataToScopedTransaction c k r rail now =
     (let refuse = (\<lambda>m. sk_fault SkScopeExceeded m);
          validBefore = or_else (bigint_of (r_validBefore r)) 0;
          validAfter = or_else (bigint_of (r_validAfter r)) 0
      in case validateTypedDataRequest r of Some e \<Rightarrow> Inl (refuse e)
      | None \<Rightarrow>
      if rail \<notin> set eip3009_rails \<or> rail \<notin> set (or_nil (rails (scope k))) then
        Inl (refuse (''TransferWithAuthorization needs the '' @ rail @ '' rail in the session scope''))
      else if entry_ci (r_verifyingContract r) (tokenAllowances (scope k)) = None then
        Inl (refuse ''TransferWithAuthorization requires a tokenAllowances entry for the token'')
      else case sessionKeyAddress c (publicKey (keyPair k)) of
        None \<Rightarrow> Inl (PlainError ''invalid public key'')
      | Some selfAddress \<Rightarrow>
      if lower (r_from r) \<noteq> lower selfAddress then
        Inl (refuse ''TransferWithAuthorization.from must be the session key's own address'')
      else if validBefore \<le> now_sec now then
        Inl (refuse ''TransferWithAuthorization.validBefore is already in the past'')
      else if validBefore > expiry (scope k) then
        Inl (refuse ''TransferWithAuthorization.validBefore outlives the session key'')
      else if validAfter \<ge> validBefore then
        Inl (refuse ''TransferWithAuthorization validity window is empty'')
      else Inr (typedDataAsTransaction r))"

text \<open>Mode check, mapping to a transaction, digest of the same request, signature.\<close>

definition sign_typed ::
  "crypto \<Rightarrow> manager_config \<Rightarrow> stored_key \<Rightarrow> typed_data_request \<Rightarrow> string \<Rightarrow> clock \<Rightarrow> manager \<Rightarrow>
   (fault + string) \<times> manager" where
  "sign_typed c cfg stored r rail clk m =
     (if mode (scope stored) = Eip7702 then (Inl (sk_fault SkScopeExceeded eip7702_only_message), m)
      else case typedDataToScopedTransaction c stored r rail (clk_request clk) of
        Inl e \<Rightarrow> (Inl e, m)
      | Inr tx \<Rightarrow>
          (case typedDataDigest c r of None \<Rightarrow> (Inl (PlainError ''digest''), m)
           | Some digest \<Rightarrow> signStoredSessionKey c cfg stored digest tx clk m))"

definition signTypedDataWithSessionKey ::
  "crypto \<Rightarrow> manager_config \<Rightarrow> string \<Rightarrow> typed_data_request \<Rightarrow> string \<Rightarrow> clock \<Rightarrow> manager \<Rightarrow>
   (fault + string) \<times> manager" where
  "signTypedDataWithSessionKey c cfg kid r rail clk m =
     (case read_or_throw kid m of Inl e \<Rightarrow> (Inl e, m)
      | Inr stored \<Rightarrow> sign_typed c cfg stored r rail clk m)"

definition signTypedDataWithVerifiedOffchainAuthorization ::
  "crypto \<Rightarrow> manager_config \<Rightarrow> string \<Rightarrow> (key_info \<Rightarrow> string) \<Rightarrow> offchain_verifier \<Rightarrow>
   typed_data_request \<Rightarrow> string \<Rightarrow> clock \<Rightarrow> manager \<Rightarrow> (fault + string) \<times> manager" where
  "signTypedDataWithVerifiedOffchainAuthorization c cfg kid buildExpectedMessage verify r rail clk m =
     (case read_or_throw kid m of Inl e \<Rightarrow> (Inl e, m)
      | Inr stored \<Rightarrow>
          (case validateSessionStatus stored (clk_status clk) m of
             (Some e, m0) \<Rightarrow> (Inl e, m0)
           | (None, m0) \<Rightarrow>
               if \<not> verifyStoredOffchainAuthorization verify stored
                     (buildExpectedMessage (toSessionKeyInfo stored))
               then (Inl authorization_stale, m0)
               else sign_typed c cfg stored r rail clk m0))"

section \<open>Releasing the key\<close>

definition getSessionBundle ::
  "crypto \<Rightarrow> manager_config \<Rightarrow> string \<Rightarrow> int \<Rightarrow> manager \<Rightarrow> (fault + key_bundle) \<times> manager" where
  "getSessionBundle c cfg kid now m =
     (case read_or_throw kid m of Inl e \<Rightarrow> (Inl e, m)
      | Inr stored \<Rightarrow>
          (case validateSessionStatus stored now m of
             (Some e, m0) \<Rightarrow> (Inl e, m0)
           | (None, m0) \<Rightarrow>
               (case refuseRawDigestForRecipientScope stored of Some e \<Rightarrow> (Inl e, m0)
                | None \<Rightarrow>
                    (case decryptPrivateKey c (keyPair stored) (deriveEncryptionPassword c cfg)
                            (Some (pbkdf2Iterations cfg)) of
                       Inl e \<Rightarrow> (Inl e, m0)
                     | Inr privateKey \<Rightarrow>
                         let bundle = bundle_of stored privateKey in
                         (Inr bundle, m0\<lparr>activeBundle := Some bundle\<rparr>)))))"

section \<open>The pre-flight check\<close>

text \<open>The reason is a refusal of the scope, or the message of the error that was caught.\<close>

datatype scope_answer = Allowed scope_remaining | DeniedFor string | DeniedByFault fault

definition checkSessionScope ::
  "manager_config \<Rightarrow> string \<Rightarrow> session_tx \<Rightarrow> clock \<Rightarrow> manager \<Rightarrow> scope_answer \<times> manager" where
  "checkSessionScope cfg kid tx clk m =
     (case readStoredSession kid m of Inl e \<Rightarrow> (DeniedByFault e, m)
      | Inr None \<Rightarrow> (DeniedFor ''Session key not found'', m)
      | Inr (Some stored) \<Rightarrow>
          (case validateSessionStatus stored (clk_status clk) m of
             (Some e, m0) \<Rightarrow> (DeniedByFault e, m0)
           | (None, m0) \<Rightarrow>
               (case checkScopeAgainstTx cfg (scope stored) ((counters_of stored)\<lparr>c_periods := None\<rparr>) tx
                       (now_sec (clk_scope clk)) of
                  Inl reason \<Rightarrow> (DeniedFor reason, m0)
                | Inr rem \<Rightarrow> (Allowed rem, m0))))"

end
