(* ===== verification/AbiCodec.thy ===== *)
theory AbiCodec
  imports KeyVault
begin

text \<open>
  The byte and ABI encoders of packages/core/src/session-keys/delegation-framework.ts, every
  refusal included.  The abstract specification is a reader: \<open>dyn_at\<close> follows the offset of a
  tuple member and \<open>read_bytes\<close> reads a length-prefixed string, as a contract's decoder does;
  what the encoders write, the reader finds.
\<close>

section \<open>Words and addresses\<close>

definition refuse :: "string \<Rightarrow> fault" where
  "refuse reason =
     sk_fault SkInvalidInput (''Cannot express this scope as an EIP-7702 delegation: '' @ reason)"

definition word_text :: "int \<Rightarrow> fault + string" where
  "word_text value =
     (if value < 0 \<or> value > uint256_max then Inl (refuse ''a value is not a uint256 bigint'')
      else Inr (hex_padded 64 (nat value)))"

definition address20 :: "string \<Rightarrow> string \<Rightarrow> fault + string" where
  "address20 value what =
     (if \<not> hex_literal 40 value then Inl (refuse (what @ '' is not an EVM address''))
      else Inr (lower (drop 2 value)))"

definition bytesOf :: "string \<Rightarrow> fault + bytes" where
  "bytesOf hex = decode_or_throw (drop 2 hex)"

text \<open>The one-letter helpers \<open>w\<close> and \<open>a\<close>.\<close>

definition word_bytes :: "int \<Rightarrow> fault + bytes" where
  "word_bytes value = andThen (word_text value) (\<lambda>t. bytesOf (''0x'' @ t))"

definition address_bytes :: "string \<Rightarrow> fault + bytes" where
  "address_bytes address =
     andThen (address20 address ''an address'') (\<lambda>t. bytesOf (''0x'' @ pad_start 64 CHR ''0'' t))"

section \<open>Head and tail encoding\<close>

datatype abi_member = WordM bytes | DynM bytes

definition padRight :: "bytes \<Rightarrow> bytes" where
  "padRight bs = bs @ replicate ((length bs + 31) div 32 * 32 - length bs) 0"

definition abiBytes :: "string \<Rightarrow> fault + bytes" where
  "abiBytes hex =
     andThen (bytesOf hex) (\<lambda>data.
     andThen (word_bytes (int (length data))) (\<lambda>len. Inr (len @ padRight data)))"

text \<open>The loop of \<open>abiTuple\<close>: the heads and the tails from an offset on.\<close>

fun abi_parts :: "int \<Rightarrow> abi_member list \<Rightarrow> fault + bytes \<times> bytes" where
  "abi_parts off [] = Inr ([], [])"
| "abi_parts off (WordM x # ms) = andThen (abi_parts off ms) (\<lambda>(h, t). Inr (x @ h, t))"
| "abi_parts off (DynM x # ms) =
     andThen (word_bytes off) (\<lambda>head.
     andThen (abi_parts (off + int (length x)) ms) (\<lambda>(h, t). Inr (head @ h, x @ t)))"

definition abiTuple :: "abi_member list \<Rightarrow> fault + bytes" where
  "abiTuple ms = andThen (abi_parts (int (length ms * 32)) ms) (\<lambda>(h, t). Inr (h @ t))"

definition abiDynamicArray :: "bytes list \<Rightarrow> fault + bytes" where
  "abiDynamicArray xs =
     andThen (word_bytes (int (length xs))) (\<lambda>n.
     andThen (abiTuple (map DynM xs)) (\<lambda>t. Inr (n @ t)))"

section \<open>What the helpers return\<close>

lemma bytesOf_Inr: "bytesOf hex = Inr bs \<longleftrightarrow> hex_decode (drop 2 hex) = Some bs"
  by (auto simp: bytesOf_def decode_or_throw_def split: option.splits)

lemma word_bytes_Inr:
  "word_bytes v = Inr bs \<longleftrightarrow> 0 \<le> v \<and> v \<le> uint256_max \<and> bs = uint_bytes 32 (nat v)"
proof (cases "0 \<le> v \<and> v \<le> uint256_max")
  case True
  then have "nat v < 16 ^ 64" by (simp add: uint256_max_def nat_less_iff)
  then have "length (hex_padded 64 (nat v)) = 64" by (intro length_hex_padded) auto
  then show ?thesis
    using True by (auto simp: word_bytes_def word_text_def bytesOf_Inr hex_decode_def hex_padded_hex uint_bytes_def)
qed (auto simp: word_bytes_def word_text_def)

lemma length_word_bytes: "word_bytes v = Inr bs \<Longrightarrow> length bs = 32"
  unfolding word_bytes_Inr using length_uint_bytes [of 32 "nat v"]
  by (auto simp: uint256_max_def nat_less_iff)

lemma be_value_word_bytes: "word_bytes v = Inr bs \<Longrightarrow> be_value bs = nat v"
  unfolding word_bytes_Inr using be_value_uint_bytes [of 32 "nat v"]
  by (auto simp: uint256_max_def nat_less_iff)

lemma word_bytes_inj: "word_bytes u = Inr bs \<Longrightarrow> word_bytes v = Inr bs \<Longrightarrow> u = v"
  using be_value_word_bytes [of u bs] be_value_word_bytes [of v bs] word_bytes_Inr [of u bs] word_bytes_Inr [of v bs] by auto

lemma address_bytes_Inr:
  "address_bytes x = Inr bs \<longleftrightarrow> hex_literal 40 x \<and> bs = replicate 12 0 @ byte_pairs (drop 2 x)"
proof (cases "hex_literal 40 x")
  case True
  let ?s = "lower (drop 2 x)"
  have d: "length ?s = 40" "\<forall>c \<in> set ?s. is_hex c"
    using True by (auto simp: hex_literal_def lower_def)
  then have p: "pad_start 64 CHR ''0'' ?s = replicate 24 CHR ''0'' @ ?s"
    by (simp only: pad_start_def) simp
  have z: "byte_pairs (replicate 24 CHR ''0'') = replicate 12 0"
    by (simp add: numeral_eq_Suc byte_of_hex_def hex_val_def ord_def)
  have "hex_decode (pad_start 64 CHR ''0'' ?s) = Some (replicate 12 0 @ byte_pairs (drop 2 x))"
    unfolding p hex_decode_def using d z by (auto simp: byte_pairs_append)
  then show ?thesis using True by (auto simp: address_bytes_def address20_def bytesOf_Inr)
qed (simp add: address_bytes_def address20_def)

lemma length_address_bytes: "address_bytes x = Inr bs \<Longrightarrow> length bs = 32"
  by (auto simp: address_bytes_Inr hex_literal_def)

lemma address_bytes_inj:
  assumes "address_bytes x = Inr bs" "address_bytes y = Inr bs"
  shows "lower x = lower y"
proof -
  have l: "hex_literal 40 x" "hex_literal 40 y" and e: "byte_pairs (drop 2 x) = byte_pairs (drop 2 y)"
    using assms by (auto simp: address_bytes_Inr)
  then have "lower (drop 2 x) = lower (drop 2 y)"
    using byte_pairs_inj [of "drop 2 x" "drop 2 y"] by (auto simp: hex_literal_def)
  moreover have "x = ''0x'' @ drop 2 x" "y = ''0x'' @ drop 2 y"
    using l starts_withE [of "''0x''"] by (auto simp: hex_literal_def eval_nat_numeral)
  ultimately show ?thesis by (metis lower_append)
qed

section \<open>Reading back\<close>

definition word_at :: "nat \<Rightarrow> bytes \<Rightarrow> nat" where
  "word_at i bs = be_value (take 32 (drop (32 * i) bs))"

text \<open>The tail that the \<open>i\<close>-th head points to.\<close>

definition dyn_at :: "nat \<Rightarrow> bytes \<Rightarrow> bytes" where
  "dyn_at i bs = drop (word_at i bs) bs"

definition read_bytes :: "bytes \<Rightarrow> bytes" where
  "read_bytes bs = take (word_at 0 bs) (drop 32 bs)"

definition read_array :: "bytes \<Rightarrow> bytes list" where
  "read_array bs = map (\<lambda>i. dyn_at i (drop 32 bs)) [0..<word_at 0 bs]"

lemma word_at_word: "word_bytes v = Inr x \<Longrightarrow> word_at 0 (x @ rest) = nat v"
  using length_word_bytes [of v x] be_value_word_bytes [of v x] by (simp add: word_at_def)

lemma read_abiBytes:
  assumes "abiBytes hex = Inr bs" "hex_decode (drop 2 hex) = Some data"
  shows "read_bytes (bs @ rest) = data"
proof -
  obtain len where l: "word_bytes (int (length data)) = Inr len" "bs = len @ padRight data"
    using assms by (auto simp: abiBytes_def bytesOf_Inr)
  then show ?thesis
    using word_at_word [OF l(1)] length_word_bytes [OF l(1)] by (simp add: read_bytes_def padRight_def)
qed

lemma abi_parts_read:
  assumes "abi_parts off ms = Inr (h, t)" "0 \<le> off" "\<forall>x. WordM x \<in> set ms \<longrightarrow> length x = 32"
  shows "length h = 32 * length ms \<and>
    (\<forall>i < length ms. (\<forall>x. ms ! i = WordM x \<longrightarrow> take 32 (drop (32 * i) h) = x) \<and>
       (\<forall>x. ms ! i = DynM x \<longrightarrow> off \<le> int (word_at i h) \<and>
          (\<exists>rest. drop (word_at i h - nat off) t = x @ rest)))"
  using assms
proof (induction off ms arbitrary: h t rule: abi_parts.induct)
  case (2 off x ms)
  obtain h' t' where r: "abi_parts off ms = Inr (h', t')" "h = x @ h'" "t = t'"
    using "2.prems"(1) by auto
  have x: "length x = 32" using "2.prems"(3) by simp
  note ih = "2.IH" [OF r(1) "2.prems"(2)]
  have w: "word_at (Suc i) h = word_at i h'" for i using r(2) x by (simp add: word_at_def)
  show ?case using ih "2.prems"(3) r x w by (auto simp: nth_Cons less_Suc_eq_0_disj split: nat.splits)
next
  case (3 off x ms)
  obtain o' h' t' where r: "word_bytes off = Inr o'" "abi_parts (off + int (length x)) ms = Inr (h', t')"
    "h = o' @ h'" "t = x @ t'" using "3.prems"(1) by auto
  have o: "length o' = 32" "word_at 0 h = nat off"
    using length_word_bytes [OF r(1)] word_at_word [OF r(1)] r(3) by simp_all
  have ih: "length h' = 32 * length ms \<and>
    (\<forall>i < length ms. (\<forall>x. ms ! i = WordM x \<longrightarrow> take 32 (drop (32 * i) h') = x) \<and>
       (\<forall>y. ms ! i = DynM y \<longrightarrow> off + int (length x) \<le> int (word_at i h') \<and>
          (\<exists>rest. drop (word_at i h' - nat (off + int (length x))) t' = y @ rest)))"
    by (rule "3.IH" [OF r(2)]) (use "3.prems" in auto)
  have w: "word_at (Suc i) h = word_at i h'" for i using r(3) o by (simp add: word_at_def)
  have d: "drop (n - nat off) t = drop (n - nat (off + int (length x))) t'"
    if "off + int (length x) \<le> int n" for n
  proof -
    have "n - nat off = length x + (n - nat (off + int (length x)))"
      using that "3.prems"(2) by (simp add: nat_add_distrib)
    then show ?thesis using r(4) by simp
  qed
  show ?case
  proof (intro conjI allI impI)
    show "length h = 32 * length (DynM x # ms)" using ih r o by simp
    fix i assume i: "i < length (DynM x # ms)"
    show "take 32 (drop (32 * i) h) = y" if "(DynM x # ms) ! i = WordM y" for y
      using that i ih r o by (cases i) auto
    show "off \<le> int (word_at i h)" if "(DynM x # ms) ! i = DynM y" for y
      using that i ih r o w "3.prems"(2) by (cases i) force+
    show "\<exists>rest. drop (word_at i h - nat off) t = y @ rest" if "(DynM x # ms) ! i = DynM y" for y
    proof (cases i)
      case 0
      then show ?thesis using that r o by simp
    next
      case (Suc j)
      then have j: "j < length ms" "ms ! j = DynM y" using that i by simp_all
      then show ?thesis using ih w d Suc by fastforce
    qed
  qed
qed simp

lemma abiTuple_dyn:
  assumes "abiTuple ms = Inr bs" "\<forall>x. WordM x \<in> set ms \<longrightarrow> length x = 32" "i < length ms" "ms ! i = DynM x"
  shows "\<exists>rest. dyn_at i (bs @ post) = x @ rest"
proof -
  obtain h t where p: "abi_parts (int (length ms * 32)) ms = Inr (h, t)" "bs = h @ t"
    using assms(1) by (auto simp: abiTuple_def)
  have "0 \<le> int (length ms * 32)" by simp
  note r = abi_parts_read [OF p(1) this assms(2)]
  have h: "length h = 32 * length ms" using r by simp
  have w: "word_at i (bs @ post) = word_at i h"
    using h assms(3) p(2) by (simp add: word_at_def)
  have n: "nat (int (length ms * 32)) = length h" using h by simp
  obtain rest where rest: "drop (word_at i h - length h) t = x @ rest"
    using r assms(3,4) unfolding n by blast
  have le: "length h \<le> word_at i h" using r assms(3,4) h by fastforce
  then have "dyn_at i (bs @ post) = x @ rest @ post" if "word_at i h - length h \<le> length t"
    using w p(2) that le rest by (simp add: dyn_at_def)
  moreover have "dyn_at i (bs @ post) = x @ drop (word_at i h - length bs) post"
    if "\<not> word_at i h - length h \<le> length t"
    using that rest w p(2) by (simp add: dyn_at_def)
  ultimately show ?thesis by blast
qed

lemma abiTuple_word:
  assumes "abiTuple ms = Inr bs" "\<forall>x. WordM x \<in> set ms \<longrightarrow> length x = 32" "i < length ms" "ms ! i = WordM x"
  shows "take 32 (drop (32 * i) bs) = x"
proof -
  obtain h t where p: "abi_parts (int (length ms * 32)) ms = Inr (h, t)" "bs = h @ t"
    using assms(1) by (auto simp: abiTuple_def)
  then show ?thesis using abi_parts_read [OF p(1) _ assms(2)] assms(3,4) by simp
qed

lemma read_abiDynamicArray:
  assumes "abiDynamicArray xs = Inr bs"
  shows "length (read_array (bs @ post)) = length xs \<and>
    (\<forall>i < length xs. \<exists>rest. read_array (bs @ post) ! i = xs ! i @ rest)"
proof -
  obtain n t where p: "word_bytes (int (length xs)) = Inr n" "abiTuple (map DynM xs) = Inr t" "bs = n @ t"
    using assms by (auto simp: abiDynamicArray_def)
  have w: "word_at 0 (bs @ post) = length xs" "drop 32 (bs @ post) = t @ post"
    using word_at_word [OF p(1)] length_word_bytes [OF p(1)] p(3) by simp_all
  have "\<exists>rest. dyn_at i (t @ post) = xs ! i @ rest" if "i < length xs" for i
    using abiTuple_dyn [OF p(2), of i "xs ! i" post] that by auto
  then show ?thesis using w by (simp add: read_array_def)
qed

end
