(* ===== verification/Delegation.thy ===== *)
theory Delegation
  imports AbiCodec SessionScope
begin

text \<open>
  packages/core/src/session-keys/delegation-framework.ts: the caveats that express a session scope
  on chain (or the refusal), the delegation the owner signs, its EIP-712 hash and digest, and the
  encoding of a redemption.  Proved: no accepted scope loses a limit, the hash binds every signed
  field, and a redemption reads back as the context and the execution it was built from.
\<close>

section \<open>Constants\<close>

definition delegationManager :: string where
  "delegationManager = ''0xdb9B1e94B5b69Df7e401DDbedE43491141047dB3''"

definition enforcer_allowedCalldata :: string where
  "enforcer_allowedCalldata = ''0xc2b0d624c1c4319760C96503BA27C347F3260f55''"
definition enforcer_allowedMethods :: string where
  "enforcer_allowedMethods = ''0x2c21fD0Cb9DC8445CB3fb0DC5E7Bb0Aca01842B5''"
definition enforcer_allowedTargets :: string where
  "enforcer_allowedTargets = ''0x7F20f61b1f09b08D970938F6fa563634d65c4EeB''"
definition enforcer_erc20TransferAmount :: string where
  "enforcer_erc20TransferAmount = ''0xf100b0819427117EcF76Ed94B358B1A5b5C6D2Fc''"
definition enforcer_erc20PeriodTransfer :: string where
  "enforcer_erc20PeriodTransfer = ''0x474e3Ae7E169e940607cC624Da8A15Eb120139aB''"
definition enforcer_limitedCalls :: string where
  "enforcer_limitedCalls = ''0x04658B29F6b82ed55274221a06Fc97D318E25416''"
definition enforcer_nativeTokenTransferAmount :: string where
  "enforcer_nativeTokenTransferAmount = ''0xF71af580b9c3078fbc2BBF16FbB8EEd82b330320''"
definition enforcer_nativeTokenPeriodTransfer :: string where
  "enforcer_nativeTokenPeriodTransfer = ''0x9BC0FAf4Aca5AE429F4c06aEEaC517520CB16BD9''"
definition enforcer_redeemer :: string where
  "enforcer_redeemer = ''0xE144b0b2618071B4E56f746313528a669c7E65c5''"
definition enforcer_timestamp :: string where
  "enforcer_timestamp = ''0x1046bb45C8d673d4ea75321280DB34899413c069''"
definition enforcer_valueLte :: string where
  "enforcer_valueLte = ''0x92Bf12322527cAA612fd31a0e810472BBB106A8F''"

definition delegation_chain_ids :: "int list" where
  "delegation_chain_ids = [1, 11155111, 8453, 84532, 42161, 10, 137]"

definition root_authority :: string where
  "root_authority = ''0xffffffffffffffffffffffffffffffffffffffffffffffffffffffffffffffff''"
definition any_delegate :: string where
  "any_delegate = ''0x0000000000000000000000000000000000000a11''"
definition transfer_selector :: string where
  "transfer_selector = ''0xa9059cbb''"
definition delegation_forbidden_selectors :: "string list" where
  "delegation_forbidden_selectors = [''0x87517c45'', ''0x205c2878'']"

record framework_caveat =
  cv_enforcer :: string
  cv_terms :: string
  cv_args :: string

record framework_delegation =
  d_chainId :: int
  d_delegate :: string
  d_delegator :: string
  d_authority :: string
  d_caveats :: "framework_caveat list"
  d_salt :: int
  d_signature :: string

definition caveat :: "string \<Rightarrow> string \<Rightarrow> framework_caveat" where
  "caveat enf terms_hex = \<lparr>cv_enforcer = enf, cv_terms = ''0x'' @ terms_hex, cv_args = ''0x''\<rparr>"

definition sameAddress :: "string \<Rightarrow> string \<Rightarrow> bool" where
  "sameAddress x y \<longleftrightarrow> lower x = lower y"

definition periodTerms :: "session_period \<Rightarrow> fault + string" where
  "periodTerms p =
     (if p_amount p \<le> 0 \<or> \<not> safe_integer (p_seconds p) \<or> p_seconds p \<le> 0 \<or>
         \<not> safe_integer (p_start p) \<or> p_start p \<le> 0
      then Inl (refuse ''a period limit must have positive uint256 amount, seconds, and start'')
      else andThen (word_text (p_amount p)) (\<lambda>x.
           andThen (word_text (p_seconds p)) (\<lambda>y.
           andThen (word_text (p_start p)) (\<lambda>z. Inr (x @ y @ z)))))"

section \<open>From a scope to its caveats\<close>

definition mode_text :: "session_mode \<Rightarrow> string" where
  "mode_text m = (case m of Offchain \<Rightarrow> ''offchain'' | Eip7702 \<Rightarrow> ''eip7702'' | AaModule \<Rightarrow> ''aa_module'')"

definition bad_target :: "string \<Rightarrow> string \<Rightarrow> fault option" where
  "bad_target delegator target = first_some
     [throw_if (sameAddress target delegationManager)
        (refuse ''the DelegationManager cannot be an allowed contract''),
      throw_if (sameAddress target delegator)
        (refuse ''the owner's own account cannot be an allowed contract'')]"

definition bad_method :: "string list \<Rightarrow> string \<Rightarrow> fault option" where
  "bad_method forbidden m = first_some
     [throw_if (\<not> hex_literal 8 m) (refuse (m @ '' is not a 4-byte selector'')),
      throw_if (m \<in> set forbidden) (refuse (m @ '' is a forbidden selector''))]"

definition lower_methods :: "session_scope \<Rightarrow> string list" where
  "lower_methods s = map lower (or_nil (allowedMethods s))"

text \<open>The refusals before any caveat is built.\<close>

definition scope_refusal ::
  "session_scope \<Rightarrow> int \<Rightarrow> string \<Rightarrow> string \<Rightarrow> string list option \<Rightarrow> fault option" where
  "scope_refusal s chainId delegator delegate forbiddenList =
     (let forbidden = map lower (or_else forbiddenList (forbiddenMethods default_config) @
            delegation_forbidden_selectors);
          targets = or_nil (allowedContracts s);
          methods = lower_methods s;
          tokens = or_nil (tokenAllowances s);
          recipients = or_nil (allowedRecipients s)
      in first_some
       [throw_if (\<not> hex_literal 40 delegator) (refuse ''the delegator is required''),
        throw_if (\<not> hex_literal 40 delegate) (refuse ''the delegate is required''),
        throw_if (mode s \<noteq> Eip7702) (refuse (''mode is '' @ mode_text (mode s))),
        throw_if (chainId \<notin> set delegation_chain_ids)
          (refuse (''chain '' @ show_int chainId @ '' is not a supported delegation-framework chain'')),
        throw_if (nonempty (allowedChainIds s) \<and> chainId \<notin> set (or_nil (allowedChainIds s)))
          (refuse (''chain '' @ show_int chainId @ '' is not in allowedChainIds'')),
        throw_if (\<not> safe_integer (expiry s) \<or> expiry s \<le> 0 \<or> expiry s > uint128_max)
          (refuse ''expiry must be a positive Unix time''),
        throw_if (targets = []) (refuse ''allowedContracts is required''),
        first_error (bad_target delegator) targets,
        throw_if (methods = []) (refuse ''allowedMethods is required: there is no on-chain deny-list''),
        first_error (bad_method forbidden) methods,
        throw_if (or_nil (tokenMaxPerTx s) \<noteq> []) (refuse ''tokenMaxPerTx has no on-chain caveat yet''),
        throw_if (''transfer'' \<notin> set (or_nil (rails s))) (refuse ''rails does not include transfer''),
        throw_if (length tokens > 1) (refuse ''more than one token allowance''),
        throw_if (length recipients > 1) (refuse ''more than one recipient''),
        throw_if (length recipients = 1 \<and> tokens = [])
          (refuse ''allowedRecipients needs a single token allowance'')])"

definition base_caveats :: "session_scope \<Rightarrow> fault + framework_caveat list" where
  "base_caveats s =
     andThen (map_throw (\<lambda>t. address20 t ''an allowed contract'') (or_nil (allowedContracts s))) (\<lambda>ts. Inr
       [caveat enforcer_timestamp (replicate 32 CHR ''0'' @ hex_padded 32 (nat (expiry s))),
        caveat enforcer_allowedTargets (concat ts),
        caveat enforcer_allowedMethods (concat (map (drop 2) (lower_methods s)))])"

definition token_period_caveats :: "session_scope \<Rightarrow> string \<Rightarrow> fault + framework_caveat list" where
  "token_period_caveats s token =
     (if \<exists>(asset, p) \<in> set (or_nil (periodLimits s)). \<not> sameAddress asset token then
        Inl (refuse ''a period limit does not match the single token allowance'')
      else case entry_ci token (periodLimits s) of None \<Rightarrow> Inr []
      | Some (_, p) \<Rightarrow>
          andThen (address20 token ''the token'') (\<lambda>t.
          andThen (periodTerms p) (\<lambda>ws. Inr [caveat enforcer_erc20PeriodTransfer (t @ ws)])))"

definition recipient_caveats :: "session_scope \<Rightarrow> fault + framework_caveat list" where
  "recipient_caveats s =
     (case or_nil (allowedRecipients s) of
        [r] \<Rightarrow>
          andThen (word_text 4) (\<lambda>four.
          andThen (address20 r ''the recipient'') (\<lambda>t.
            Inr [caveat enforcer_allowedCalldata (four @ pad_start 64 CHR ''0'' t)]))
      | _ \<Rightarrow> Inr [])"

definition token_caveats :: "session_scope \<Rightarrow> string \<Rightarrow> int \<Rightarrow> fault + framework_caveat list" where
  "token_caveats s token limit =
     (case first_some
        [throw_if (\<not> (case or_nil (allowedContracts s) of [t] \<Rightarrow> sameAddress t token | _ \<Rightarrow> False))
           (refuse ''a token allowance allows transfers on that token only; allowedContracts must be exactly [token]''),
         throw_if (lower_methods s \<noteq> [transfer_selector])
           (refuse ''a token allowance allows transfer() only; allowedMethods must be exactly [0xa9059cbb]''),
         throw_if (limit \<le> 0) (refuse ''the token allowance must be positive'')] of
        Some e \<Rightarrow> Inl e
      | None \<Rightarrow>
          andThen (address20 token ''the token'') (\<lambda>t.
          andThen (word_text limit) (\<lambda>m.
          andThen (token_period_caveats s token) (\<lambda>periods.
          andThen (word_text 0) (\<lambda>zero.
          andThen (recipient_caveats s) (\<lambda>recipient.
            Inr ([caveat enforcer_erc20TransferAmount (t @ m)] @ periods @
                 [caveat enforcer_valueLte zero] @ recipient)))))))"

definition optional_word :: "string \<Rightarrow> int option \<Rightarrow> fault + framework_caveat list" where
  "optional_word enf v =
     (case v of None \<Rightarrow> Inr [] | Some n \<Rightarrow> andThen (word_text n) (\<lambda>t. Inr [caveat enf t]))"

definition native_caveats :: "session_scope \<Rightarrow> fault + framework_caveat list" where
  "native_caveats s =
     (if maxValuePerTx s = None \<and> maxTotalValue s = None then
        Inl (refuse ''a native value limit (maxValuePerTx or maxTotalValue) is required'')
      else
        andThen (optional_word enforcer_valueLte (maxValuePerTx s)) (\<lambda>per_tx.
        andThen (optional_word enforcer_nativeTokenTransferAmount (maxTotalValue s)) (\<lambda>tot.
        if (\<exists>(asset, p) \<in> set (or_nil (periodLimits s)). asset \<noteq> ''native'') \<or>
           length (or_nil (periodLimits s)) > 1 then
          Inl (refuse ''a non-token scope may only have the native period limit'')
        else case map_of (or_nil (periodLimits s)) ''native'' of
          None \<Rightarrow> Inr (per_tx @ tot)
        | Some p \<Rightarrow>
            andThen (periodTerms p) (\<lambda>t.
              Inr (per_tx @ tot @ [caveat enforcer_nativeTokenPeriodTransfer t])))))"

definition count_caveats :: "session_scope \<Rightarrow> fault + framework_caveat list" where
  "count_caveats s =
     (case maxTxCount s of None \<Rightarrow> Inr []
      | Some n \<Rightarrow>
          if \<not> safe_integer n \<or> n \<le> 0 then Inl (refuse ''maxTxCount must be a positive integer'')
          else andThen (word_text n) (\<lambda>t. Inr [caveat enforcer_limitedCalls t]))"

definition asset_caveats :: "session_scope \<Rightarrow> fault + framework_caveat list" where
  "asset_caveats s =
     (case or_nil (tokenAllowances s) of
        [(token, limit)] \<Rightarrow> token_caveats s token limit
      | _ \<Rightarrow> native_caveats s)"

definition caveatsFromScope ::
  "session_scope \<Rightarrow> int \<Rightarrow> string \<Rightarrow> string \<Rightarrow> string list option \<Rightarrow> fault + framework_caveat list" where
  "caveatsFromScope s chainId delegator delegate forbiddenList =
     (case scope_refusal s chainId delegator delegate forbiddenList of Some e \<Rightarrow> Inl e
      | None \<Rightarrow>
          andThen (base_caveats s) (\<lambda>base.
          andThen (asset_caveats s) (\<lambda>assets.
          andThen (count_caveats s) (\<lambda>counts.
          andThen (address20 delegate ''the delegate'') (\<lambda>d.
            Inr (base @ assets @ counts @ [caveat enforcer_redeemer d]))))))"

text \<open>\<open>buildDelegation\<close>; the random default of the salt is an argument.\<close>

definition buildDelegation ::
  "string \<Rightarrow> string \<Rightarrow> session_scope \<Rightarrow> int \<Rightarrow> int option \<Rightarrow> int \<Rightarrow> string list option \<Rightarrow>
   fault + framework_delegation" where
  "buildDelegation delegator_in delegate_in s chainId salt_in random_salt forbiddenList =
     andThen (address20 delegator_in ''the delegator'') (\<lambda>dor.
     andThen (address20 delegate_in ''the delegate'') (\<lambda>dee.
       let delegator = ''0x'' @ dor; delegate = ''0x'' @ dee; salt = or_else salt_in random_salt in
       case first_some
         [throw_if (sameAddress delegate any_delegate \<or> delegate = ''0x'' @ replicate 40 CHR ''0'')
            (refuse ''the delegate must be the session key, never an open delegation''),
          throw_if (sameAddress delegate delegator) (refuse ''the delegate is the delegator''),
          throw_if (salt < 0 \<or> salt > uint256_max) (refuse ''salt is not a uint256 bigint'')] of
         Some e \<Rightarrow> Inl e
       | None \<Rightarrow>
           andThen (caveatsFromScope s chainId delegator delegate forbiddenList) (\<lambda>cs.
             Inr \<lparr>d_chainId = chainId, d_delegate = delegate, d_delegator = delegator,
                  d_authority = root_authority, d_caveats = cs, d_salt = salt, d_signature = ''0x''\<rparr>)))"

section \<open>EIP-712\<close>

definition delegation_type_text :: string where
  "delegation_type_text = ''Delegation(address delegate,address delegator,bytes32 authority,Caveat[] caveats,uint256 salt)Caveat(address enforcer,bytes terms)''"
definition caveat_type_text :: string where
  "caveat_type_text = ''Caveat(address enforcer,bytes terms)''"
definition delegation_domain_type_text :: string where
  "delegation_domain_type_text = ''EIP712Domain(string name,string version,uint256 chainId,address verifyingContract)''"

definition caveat_preimage :: "crypto \<Rightarrow> framework_caveat \<Rightarrow> fault + bytes" where
  "caveat_preimage c cv =
     andThen (address_bytes (cv_enforcer cv)) (\<lambda>e.
     andThen (bytesOf (cv_terms cv)) (\<lambda>t.
       Inr (keccak_256 c (utf8 caveat_type_text) @ e @ keccak_256 c t)))"

definition caveat_hash :: "crypto \<Rightarrow> framework_caveat \<Rightarrow> fault + bytes" where
  "caveat_hash c cv = andThen (caveat_preimage c cv) (\<lambda>m. Inr (keccak_256 c m))"

definition delegation_preimage :: "crypto \<Rightarrow> framework_delegation \<Rightarrow> fault + bytes" where
  "delegation_preimage c d =
     andThen (map_throw (caveat_hash c) (d_caveats d)) (\<lambda>hs.
     andThen (address_bytes (d_delegate d)) (\<lambda>dee.
     andThen (address_bytes (d_delegator d)) (\<lambda>dor.
     andThen (bytesOf (d_authority d)) (\<lambda>auth.
     andThen (word_bytes (d_salt d)) (\<lambda>sl.
       Inr (keccak_256 c (utf8 delegation_type_text) @ dee @ dor @ auth @
              keccak_256 c (concat hs) @ sl))))))"

definition delegation_hash_bytes :: "crypto \<Rightarrow> framework_delegation \<Rightarrow> fault + bytes" where
  "delegation_hash_bytes c d = andThen (delegation_preimage c d) (\<lambda>m. Inr (keccak_256 c m))"

definition delegationHash :: "crypto \<Rightarrow> framework_delegation \<Rightarrow> fault + string" where
  "delegationHash c d = andThen (delegation_hash_bytes c d) (\<lambda>h. Inr (''0x'' @ bytesToHex h))"

definition signingChain :: "framework_delegation \<Rightarrow> fault + int" where
  "signingChain d =
     (if d_chainId d \<notin> set delegation_chain_ids then
        Inl (refuse (''chain '' @ show_int (d_chainId d) @ '' is not a supported delegation-framework chain''))
      else Inr (d_chainId d))"

definition delegation_domain_preimage :: "crypto \<Rightarrow> int \<Rightarrow> fault + bytes" where
  "delegation_domain_preimage c chainId =
     andThen (word_bytes chainId) (\<lambda>ch.
     andThen (address_bytes delegationManager) (\<lambda>dm.
       Inr (keccak_256 c (utf8 delegation_domain_type_text) @
              keccak_256 c (utf8 ''DelegationManager'') @ keccak_256 c (utf8 ''1'') @ ch @ dm)))"

definition delegation_domain :: "crypto \<Rightarrow> int \<Rightarrow> fault + bytes" where
  "delegation_domain c chainId = andThen (delegation_domain_preimage c chainId) (\<lambda>m. Inr (keccak_256 c m))"

definition delegationSigningDigest :: "crypto \<Rightarrow> framework_delegation \<Rightarrow> fault + string" where
  "delegationSigningDigest c d =
     andThen (signingChain d) (\<lambda>chainId.
     andThen (delegation_domain c chainId) (\<lambda>domain.
     andThen (delegationHash c d) (\<lambda>h.
     andThen (bytesOf h) (\<lambda>hb.
       Inr (''0x'' @ bytesToHex (keccak_256 c ([25, 1] @ domain @ hb)))))))"

text \<open>What the signing digest of a delegation hashes, besides constant texts.\<close>

definition caveat_hash_inputs :: "crypto \<Rightarrow> framework_caveat \<Rightarrow> bytes list" where
  "caveat_hash_inputs c cv = result_list (bytesOf (cv_terms cv)) @ result_list (caveat_preimage c cv)"

definition delegation_hash_inputs :: "crypto \<Rightarrow> framework_delegation \<Rightarrow> bytes list" where
  "delegation_hash_inputs c d =
     concat (map (caveat_hash_inputs c) (d_caveats d)) @
     map concat (result_list (map_throw (caveat_hash c) (d_caveats d))) @
     result_list (delegation_preimage c d) @ result_list (delegation_domain_preimage c (d_chainId d)) @
     [[25, 1] @ dh @ h. dh \<leftarrow> result_list (delegation_domain c (d_chainId d)),
                          h \<leftarrow> result_list (delegation_hash_bytes c d)]"

record delegation_typed_data =
  td_chainId :: int
  td_verifyingContract :: string
  td_delegate :: string
  td_delegator :: string
  td_authority :: string
  td_caveats :: "(string \<times> string) list"
  td_salt :: string

definition delegationTypedData :: "framework_delegation \<Rightarrow> fault + delegation_typed_data" where
  "delegationTypedData d =
     andThen (signingChain d) (\<lambda>chainId. Inr
       \<lparr>td_chainId = chainId, td_verifyingContract = delegationManager,
        td_delegate = d_delegate d, td_delegator = d_delegator d, td_authority = d_authority d,
        td_caveats = map (\<lambda>cv. (cv_enforcer cv, cv_terms cv)) (d_caveats d),
        td_salt = show_int (d_salt d)\<rparr>)"

section \<open>Redemption encoding\<close>

definition single_default_mode :: string where
  "single_default_mode = ''0x'' @ replicate 64 CHR ''0''"

definition redeem_selector :: "crypto \<Rightarrow> string" where
  "redeem_selector c = bytesToHex (take 4 (keccak_256 c (utf8 ''redeemDelegations(bytes[],bytes32[],bytes[])'')))"

record framework_execution =
  x_target :: string
  x_value :: int
  x_callData :: string

definition encode_caveat :: "framework_caveat \<Rightarrow> fault + bytes" where
  "encode_caveat cv =
     andThen (address_bytes (cv_enforcer cv)) (\<lambda>e.
     andThen (abiBytes (cv_terms cv)) (\<lambda>t.
     andThen (abiBytes (cv_args cv)) (\<lambda>g. abiTuple [WordM e, DynM t, DynM g])))"

definition encodeDelegationTuple :: "framework_delegation \<Rightarrow> fault + bytes" where
  "encodeDelegationTuple d =
     andThen (map_throw encode_caveat (d_caveats d)) (\<lambda>es.
     andThen (abiDynamicArray es) (\<lambda>cs.
     andThen (address_bytes (d_delegate d)) (\<lambda>dee.
     andThen (address_bytes (d_delegator d)) (\<lambda>dor.
     andThen (bytesOf (d_authority d)) (\<lambda>auth.
     andThen (word_bytes (d_salt d)) (\<lambda>sl.
     andThen (abiBytes (d_signature d)) (\<lambda>sig.
       abiTuple [WordM dee, WordM dor, WordM auth, DynM cs, WordM sl, DynM sig])))))))"

definition encodePermissionContext :: "framework_delegation list \<Rightarrow> fault + string" where
  "encodePermissionContext ds =
     andThen (map_throw encodeDelegationTuple ds) (\<lambda>es.
     andThen (abiDynamicArray es) (\<lambda>arr.
     andThen (abiTuple [DynM arr]) (\<lambda>t. Inr (''0x'' @ bytesToHex t))))"

definition encodeSingleExecution :: "framework_execution \<Rightarrow> fault + string" where
  "encodeSingleExecution x =
     andThen (address20 (x_target x) ''the execution target'') (\<lambda>_.
       if \<not> hex_bytes_literal (x_callData x) then
         Inl (refuse ''the execution callData is not hex bytes'')
       else andThen (word_text (x_value x)) (\<lambda>v.
         Inr (''0x'' @ lower (drop 2 (x_target x)) @ v @ lower (drop 2 (x_callData x)))))"

definition bytes_array :: "string \<Rightarrow> fault + bytes" where
  "bytes_array hex = andThen (abiBytes hex) (\<lambda>b. abiDynamicArray [b])"

definition encodeRedeemDelegationsWithContext :: "crypto \<Rightarrow> string \<Rightarrow> string \<Rightarrow> fault + string" where
  "encodeRedeemDelegationsWithContext c permissionContext executionCallData =
     andThen (bytes_array permissionContext) (\<lambda>ctx.
     andThen (word_bytes 1) (\<lambda>one.
     andThen (bytesOf single_default_mode) (\<lambda>md.
     andThen (bytes_array executionCallData) (\<lambda>ex.
     andThen (abiTuple [DynM ctx, DynM (one @ md), DynM ex]) (\<lambda>t.
       Inr (''0x'' @ redeem_selector c @ bytesToHex t))))))"

definition encodeRedeemDelegations ::
  "crypto \<Rightarrow> framework_delegation \<Rightarrow> framework_execution \<Rightarrow> fault + string" where
  "encodeRedeemDelegations c d x =
     (if \<not> hex_literal 130 (d_signature d) then Inl (refuse ''the delegation is not signed'')
      else andThen (encodePermissionContext [d]) (\<lambda>ctx.
           andThen (encodeSingleExecution x) (\<lambda>ex. encodeRedeemDelegationsWithContext c ctx ex)))"

section \<open>No limit is lost\<close>

text \<open>
  What the caveats must say for a scope: the window, the targets, the methods, the redeemer, the
  number of calls, and the budget of its asset with its period and its recipient.
\<close>

definition caveat_in :: "string \<Rightarrow> string \<Rightarrow> framework_caveat list \<Rightarrow> bool" where
  "caveat_in enf terms_hex cs \<longleftrightarrow> caveat enf terms_hex \<in> set cs"

definition word_hex :: "int \<Rightarrow> string" where
  "word_hex v = hex_padded 64 (nat v)"

definition addr_hex :: "string \<Rightarrow> string" where
  "addr_hex x = lower (drop 2 x)"

definition base_enforced :: "session_scope \<Rightarrow> string \<Rightarrow> framework_caveat list \<Rightarrow> bool" where
  "base_enforced s delegate cs \<longleftrightarrow>
     caveat_in enforcer_timestamp (replicate 32 CHR ''0'' @ hex_padded 32 (nat (expiry s))) cs \<and>
     caveat_in enforcer_allowedTargets (concat (map addr_hex (or_nil (allowedContracts s)))) cs \<and>
     caveat_in enforcer_allowedMethods (concat (map addr_hex (or_nil (allowedMethods s)))) cs \<and>
     caveat_in enforcer_redeemer (addr_hex delegate) cs \<and>
     (\<forall>n. maxTxCount s = Some n \<longrightarrow> caveat_in enforcer_limitedCalls (word_hex n) cs)"

definition period_hex :: "session_period \<Rightarrow> string" where
  "period_hex p = word_hex (p_amount p) @ word_hex (p_seconds p) @ word_hex (p_start p)"

definition native_enforced :: "session_scope \<Rightarrow> framework_caveat list \<Rightarrow> bool" where
  "native_enforced s cs \<longleftrightarrow>
     (maxValuePerTx s \<noteq> None \<or> maxTotalValue s \<noteq> None) \<and>
     (\<forall>v. maxValuePerTx s = Some v \<longrightarrow> caveat_in enforcer_valueLte (word_hex v) cs) \<and>
     (\<forall>v. maxTotalValue s = Some v \<longrightarrow> caveat_in enforcer_nativeTokenTransferAmount (word_hex v) cs) \<and>
     (\<forall>(a, p) \<in> set (or_nil (periodLimits s)). a = ''native'' \<and>
        caveat_in enforcer_nativeTokenPeriodTransfer (period_hex p) cs) \<and>
     or_nil (allowedRecipients s) = []"

definition token_enforced :: "session_scope \<Rightarrow> string \<Rightarrow> int \<Rightarrow> framework_caveat list \<Rightarrow> bool" where
  "token_enforced s token limit cs \<longleftrightarrow>
     0 < limit \<and> map lower (or_nil (allowedContracts s)) = [lower token] \<and>
     lower_methods s = [transfer_selector] \<and>
     caveat_in enforcer_erc20TransferAmount (addr_hex token @ word_hex limit) cs \<and>
     caveat_in enforcer_valueLte (word_hex 0) cs \<and>
     (\<forall>(a, p) \<in> set (or_nil (periodLimits s)). sameAddress a token) \<and>
     (\<forall>a p. entry_ci token (periodLimits s) = Some (a, p) \<longrightarrow>
        caveat_in enforcer_erc20PeriodTransfer (addr_hex token @ period_hex p) cs) \<and>
     (\<forall>r \<in> set (or_nil (allowedRecipients s)).
        caveat_in enforcer_allowedCalldata (word_hex 4 @ replicate 24 CHR ''0'' @ addr_hex r) cs)"

definition nothing_dangerous ::
  "session_scope \<Rightarrow> int \<Rightarrow> string \<Rightarrow> string list option \<Rightarrow> bool" where
  "nothing_dangerous s chainId delegator forbiddenList \<longleftrightarrow>
     or_nil (allowedContracts s) \<noteq> [] \<and> lower_methods s \<noteq> [] \<and>
     chainId \<in> set delegation_chain_ids \<and>
     (nonempty (allowedChainIds s) \<longrightarrow> chainId \<in> set (or_nil (allowedChainIds s))) \<and>
     (\<forall>t \<in> set (or_nil (allowedContracts s)). lower t \<noteq> lower delegationManager \<and> lower t \<noteq> lower delegator) \<and>
     (\<forall>m \<in> set (lower_methods s). hex_literal 8 m \<and>
        m \<notin> lower ` set (or_else forbiddenList (forbiddenMethods default_config) @ delegation_forbidden_selectors)) \<and>
     or_nil (tokenMaxPerTx s) = [] \<and> ''transfer'' \<in> set (or_nil (rails s))"

lemma word_text_Inr: "word_text v = Inr t \<longleftrightarrow> 0 \<le> v \<and> v \<le> uint256_max \<and> t = word_hex v"
  by (auto simp: word_text_def word_hex_def)

lemma address20_Inr: "address20 v what = Inr t \<longleftrightarrow> hex_literal 40 v \<and> t = addr_hex v"
  by (auto simp: address20_def addr_hex_def)

lemma periodTerms_Inr: "periodTerms p = Inr t \<Longrightarrow> t = period_hex p"
  by (auto simp: periodTerms_def period_hex_def word_text_Inr split: if_splits)

lemma caveat_in_simps:
  "caveat_in e t [] \<longleftrightarrow> False"
  "caveat_in e t (cs @ ds) \<longleftrightarrow> caveat_in e t cs \<or> caveat_in e t ds"
  "caveat_in e t (caveat e t # cs)"
  "caveat_in e t cs \<Longrightarrow> caveat_in e t (c # cs)"
  by (auto simp: caveat_in_def)

lemma scope_refusal_None:
  assumes "scope_refusal s chainId delegator delegate fl = None"
  shows "nothing_dangerous s chainId delegator fl" and "mode s = Eip7702"
    and "length (or_nil (tokenAllowances s)) \<le> 1" and "length (or_nil (allowedRecipients s)) \<le> 1"
    and "or_nil (tokenAllowances s) = [] \<Longrightarrow> or_nil (allowedRecipients s) = []"
proof -
  note g = assms [unfolded scope_refusal_def Let_def first_some_None list.set ball_simps throw_if_None
      first_error_None]
  show "nothing_dangerous s chainId delegator fl"
    unfolding nothing_dangerous_def
    using g by (auto simp: bad_target_def bad_method_def sameAddress_def)
  show "mode s = Eip7702" "length (or_nil (tokenAllowances s)) \<le> 1" "length (or_nil (allowedRecipients s)) \<le> 1"
    using g by auto
  show "or_nil (allowedRecipients s) = []" if "or_nil (tokenAllowances s) = []"
    using g that by (cases "or_nil (allowedRecipients s)") auto
qed

lemma base_caveats_Inr:
  assumes "base_caveats s = Inr cs"
  shows "cs = [caveat enforcer_timestamp (replicate 32 CHR ''0'' @ hex_padded 32 (nat (expiry s))),
     caveat enforcer_allowedTargets (concat (map addr_hex (or_nil (allowedContracts s)))),
     caveat enforcer_allowedMethods (concat (map addr_hex (or_nil (allowedMethods s))))]"
proof -
  obtain ts where m: "map_throw (\<lambda>t. address20 t ''an allowed contract'') (or_nil (allowedContracts s)) = Inr ts"
    using assms by (auto simp: base_caveats_def)
  then have "ts = map addr_hex (or_nil (allowedContracts s))"
    unfolding map_throw_Inr address20_Inr by (auto intro!: nth_equalityI)
  moreover have "map (drop 2) (lower_methods s) = map addr_hex (or_nil (allowedMethods s))"
    by (simp add: lower_methods_def addr_hex_def lower_drop)
  ultimately show ?thesis using assms m by (simp add: base_caveats_def)
qed

lemma count_caveats_Inr:
  "count_caveats s = Inr cs \<Longrightarrow> maxTxCount s = Some n \<Longrightarrow> caveat_in enforcer_limitedCalls (word_hex n) cs"
  by (auto simp: count_caveats_def word_text_Inr caveat_in_def split: if_splits)

lemma optional_word_Inr:
  "optional_word enf v = Inr cs \<Longrightarrow> v = Some n \<Longrightarrow> caveat_in enf (word_hex n) cs"
  by (auto simp: optional_word_def word_text_Inr caveat_in_def)

lemma single_native_period:
  assumes "\<not> (\<exists>(asset, p) \<in> set es. asset \<noteq> ''native'')" "\<not> length es > 1" "(a, p) \<in> set es"
  shows "a = ''native'' \<and> map_of es ''native'' = Some p"
  using assms by (cases es; cases "tl es") auto

lemma native_caveats_Inr:
  assumes "native_caveats s = Inr cs" "or_nil (allowedRecipients s) = []"
  shows "native_enforced s cs"
proof -
  obtain per_tx tot where w: "optional_word enforcer_valueLte (maxValuePerTx s) = Inr per_tx"
      "optional_word enforcer_nativeTokenTransferAmount (maxTotalValue s) = Inr tot"
    using assms(1) by (auto simp: native_caveats_def split: if_splits)
  have lim: "maxValuePerTx s \<noteq> None \<or> maxTotalValue s \<noteq> None"
    and nat: "\<not> (\<exists>(asset, p) \<in> set (or_nil (periodLimits s)). asset \<noteq> ''native'')"
      "\<not> length (or_nil (periodLimits s)) > 1"
    and rest: "(case map_of (or_nil (periodLimits s)) ''native'' of None \<Rightarrow> Inr (per_tx @ tot)
        | Some p \<Rightarrow> andThen (periodTerms p) (\<lambda>t.
              Inr (per_tx @ tot @ [caveat enforcer_nativeTokenPeriodTransfer t]))) = Inr cs"
    using assms(1) w by (auto simp: native_caveats_def split: if_splits)
  have sub: "set per_tx \<subseteq> set cs" "set tot \<subseteq> set cs"
    using rest by (auto split: option.splits)
  have per: "caveat_in enforcer_nativeTokenPeriodTransfer (period_hex p) cs"
    if "map_of (or_nil (periodLimits s)) ''native'' = Some p" for p
    using rest that periodTerms_Inr by (fastforce simp: caveat_in_def)
  have "\<forall>v. maxValuePerTx s = Some v \<longrightarrow> caveat_in enforcer_valueLte (word_hex v) cs"
    using optional_word_Inr [OF w(1)] sub(1) by (auto simp: caveat_in_def)
  moreover have "\<forall>v. maxTotalValue s = Some v \<longrightarrow> caveat_in enforcer_nativeTokenTransferAmount (word_hex v) cs"
    using optional_word_Inr [OF w(2)] sub(2) by (auto simp: caveat_in_def)
  moreover have "\<forall>(a, p) \<in> set (or_nil (periodLimits s)). a = ''native'' \<and>
        caveat_in enforcer_nativeTokenPeriodTransfer (period_hex p) cs"
    using single_native_period [OF nat] per by blast
  ultimately show ?thesis using lim assms(2) by (simp add: native_enforced_def)
qed

lemma token_caveats_Inr:
  assumes "token_caveats s token limit = Inr cs" "length (or_nil (allowedRecipients s)) \<le> 1"
  shows "token_enforced s token limit cs"
proof -
  obtain t m periods zero recipient where
    p: "address20 token ''the token'' = Inr t" "word_text limit = Inr m"
      "token_period_caveats s token = Inr periods" "word_text 0 = Inr zero"
      "recipient_caveats s = Inr recipient"
      "cs = [caveat enforcer_erc20TransferAmount (t @ m)] @ periods @ [caveat enforcer_valueLte zero] @ recipient"
    and g: "0 < limit" "lower_methods s = [transfer_selector]"
      "case or_nil (allowedContracts s) of [x] \<Rightarrow> sameAddress x token | _ \<Rightarrow> False"
    using assms(1) by (auto simp: token_caveats_def split: option.splits if_splits)
  have con: "map lower (or_nil (allowedContracts s)) = [lower token]"
    using g(3) by (auto simp: sameAddress_def split: list.splits)
  have per: "(\<forall>(a, q) \<in> set (or_nil (periodLimits s)). sameAddress a token) \<and>
     (\<forall>a q. entry_ci token (periodLimits s) = Some (a, q) \<longrightarrow>
        caveat_in enforcer_erc20PeriodTransfer (addr_hex token @ period_hex q) periods)"
    using p(3) by (auto simp: token_period_caveats_def address20_Inr caveat_in_def dest!: periodTerms_Inr
        split: if_splits option.splits)
  have rec: "caveat_in enforcer_allowedCalldata (word_hex 4 @ replicate 24 CHR ''0'' @ addr_hex r) recipient"
    if r: "r \<in> set (or_nil (allowedRecipients s))" for r
  proof -
    have e: "or_nil (allowedRecipients s) = [r]"
      using r assms(2) by (cases "or_nil (allowedRecipients s)") auto
    then have "length (addr_hex r) = 40"
      using p(5) by (auto simp: recipient_caveats_def address20_Inr addr_hex_def hex_literal_def)
    then have "pad_start 64 CHR ''0'' (addr_hex r) = replicate 24 CHR ''0'' @ addr_hex r"
      by (simp only: pad_start_def) simp
    then show ?thesis using p(5) e by (auto simp: recipient_caveats_def address20_Inr word_text_Inr caveat_in_def)
  qed
  show ?thesis
    unfolding token_enforced_def
    using g con per rec p by (auto simp: caveat_in_def address20_Inr word_text_Inr)
qed

lemma enforced_mono:
  "native_enforced s cs \<Longrightarrow> set cs \<subseteq> set ds \<Longrightarrow> native_enforced s ds"
  "token_enforced s token limit cs \<Longrightarrow> set cs \<subseteq> set ds \<Longrightarrow> token_enforced s token limit ds"
  unfolding native_enforced_def token_enforced_def caveat_in_def by blast+


lemma lower_0x_Cons: "lower (CHR ''0'' # CHR ''x'' # s) = CHR ''0'' # CHR ''x'' # lower s"
  using lower_0x [of s] by simp

lemma lower_prefixed: "starts_with ''0x'' s \<Longrightarrow> lower s = ''0x'' @ lower (drop 2 s)"
  using starts_withE [of "''0x''" s] lower_0x [of "drop 2 s"] by (simp add: eval_nat_numeral)

section \<open>What the hash binds\<close>

definition same_caveat :: "framework_caveat \<Rightarrow> framework_caveat \<Rightarrow> bool" where
  "same_caveat x y \<longleftrightarrow>
     lower (cv_enforcer x) = lower (cv_enforcer y) \<and>
     hex_decode (drop 2 (cv_terms x)) = hex_decode (drop 2 (cv_terms y))"

definition same_delegation :: "framework_delegation \<Rightarrow> framework_delegation \<Rightarrow> bool" where
  "same_delegation x y \<longleftrightarrow>
     lower (d_delegate x) = lower (d_delegate y) \<and> lower (d_delegator x) = lower (d_delegator y) \<and>
     hex_decode (drop 2 (d_authority x)) = hex_decode (drop 2 (d_authority y)) \<and>
     list_all2 same_caveat (d_caveats x) (d_caveats y) \<and> d_salt x = d_salt y"

lemma caveat_hash_length: "hash_lengths c \<Longrightarrow> caveat_hash c x = Inr h \<Longrightarrow> length h = 32"
  by (auto simp: caveat_hash_def hash_lengths_def)

lemma caveat_hash_inj:
  assumes "caveat_hash c x = Inr h" "caveat_hash c y = Inr h"
    and apart: "hash_apart (keccak_256 c) zs" "set (caveat_hash_inputs c x @ caveat_hash_inputs c y) \<subseteq> set zs"
  shows "same_caveat x y"
proof -
  obtain e t e' t' where p: "address_bytes (cv_enforcer x) = Inr e" "bytesOf (cv_terms x) = Inr t"
      "address_bytes (cv_enforcer y) = Inr e'" "bytesOf (cv_terms y) = Inr t'"
    and h: "keccak_256 c (keccak_256 c (utf8 caveat_type_text) @ e @ keccak_256 c t) =
      keccak_256 c (keccak_256 c (utf8 caveat_type_text) @ e' @ keccak_256 c t')"
    using assms(1,2) by (auto simp: caveat_hash_def caveat_preimage_def)
  note m = apart(2) [unfolded caveat_hash_inputs_def caveat_preimage_def]
  have "e @ keccak_256 c t = e' @ keccak_256 c t'" using hash_apartD [OF apart(1) h] m p by simp
  then have e: "e = e'" "keccak_256 c t = keccak_256 c t'"
    using length_address_bytes [OF p(1)] length_address_bytes [OF p(3)] by simp_all
  then have "t = t'" using hash_apartD [OF apart(1) e(2)] m p by simp
  then show ?thesis
    using p e address_bytes_inj [of "cv_enforcer x" e "cv_enforcer y"] by (auto simp: same_caveat_def bytesOf_Inr)
qed

lemma delegation_preimage_inj:
  assumes x: "delegation_preimage c x = Inr m" and y: "delegation_preimage c y = Inr m"
    and apart: "hash_apart (keccak_256 c) (delegation_hash_inputs c x @ delegation_hash_inputs c y)"
    and hl: "hash_lengths c"
  shows "same_delegation x y"
proof -
  obtain hs dee dor au sl where p: "map_throw (caveat_hash c) (d_caveats x) = Inr hs"
      "address_bytes (d_delegate x) = Inr dee" "address_bytes (d_delegator x) = Inr dor"
      "bytesOf (d_authority x) = Inr au" "word_bytes (d_salt x) = Inr sl"
      "m = keccak_256 c (utf8 delegation_type_text) @ dee @ dor @ au @ keccak_256 c (concat hs) @ sl"
    using x by (auto simp: delegation_preimage_def)
  obtain hs' dee' dor' au' sl' where q: "map_throw (caveat_hash c) (d_caveats y) = Inr hs'"
      "address_bytes (d_delegate y) = Inr dee'" "address_bytes (d_delegator y) = Inr dor'"
      "bytesOf (d_authority y) = Inr au'" "word_bytes (d_salt y) = Inr sl'"
      "m = keccak_256 c (utf8 delegation_type_text) @ dee' @ dor' @ au' @ keccak_256 c (concat hs') @ sl'"
    using y by (auto simp: delegation_preimage_def)
  note len = length_address_bytes [OF p(2)] length_address_bytes [OF q(2)] length_address_bytes [OF p(3)]
      length_address_bytes [OF q(3)] length_word_bytes [OF p(5)] length_word_bytes [OF q(5)]
  have hlen: "length (keccak_256 c z) = 32" for z using hl by (simp add: hash_lengths_def)
  have eq: "dee @ dor @ au @ keccak_256 c (concat hs) @ sl = dee' @ dor' @ au' @ keccak_256 c (concat hs') @ sl'"
    using p(6) q(6) by simp
  then have "length au = length au'" using arg_cong [OF eq, of length] len hlen by simp
  with eq have e: "dee = dee'" "dor = dor'" "au = au'" "keccak_256 c (concat hs) = keccak_256 c (concat hs')" "sl = sl'"
    using len hlen by simp_all
  have "\<forall>z \<in> set hs. length z = 32" "\<forall>z \<in> set hs'. length z = 32"
    using p(1) q(1) caveat_hash_length [OF hl] unfolding map_throw_Inr by (metis in_set_conv_nth)+
  moreover have "concat hs = concat hs'"
    using hash_apartD [OF apart e(4)] p(1) q(1) by (simp add: delegation_hash_inputs_def)
  ultimately have hs: "hs = hs'" by (intro concat_blocks_inj [of hs 32 hs']) auto
  have "same_caveat (d_caveats x ! i) (d_caveats y ! i)" if "i < length (d_caveats x)" for i
  proof (rule caveat_hash_inj [OF _ _ apart])
    show "caveat_hash c (d_caveats x ! i) = Inr (hs ! i)" "caveat_hash c (d_caveats y ! i) = Inr (hs ! i)"
      using that p(1) q(1) hs unfolding map_throw_Inr by simp_all
    have "length (d_caveats x) = length (d_caveats y)" using p(1) q(1) hs unfolding map_throw_Inr by simp
    then show "set (caveat_hash_inputs c (d_caveats x ! i) @ caveat_hash_inputs c (d_caveats y ! i))
        \<subseteq> set (delegation_hash_inputs c x @ delegation_hash_inputs c y)"
      using that by (auto simp: delegation_hash_inputs_def)
  qed
  then have "list_all2 same_caveat (d_caveats x) (d_caveats y)"
    using p(1) q(1) hs unfolding map_throw_Inr by (auto simp: list_all2_conv_all_nth)
  moreover have "lower (d_delegate x) = lower (d_delegate y)" "lower (d_delegator x) = lower (d_delegator y)"
    using address_bytes_inj [OF p(2)] address_bytes_inj [OF p(3)] q(2,3) e by simp_all
  moreover have "d_salt x = d_salt y" using word_bytes_inj [OF p(5)] q(5) e by simp
  moreover have "hex_decode (drop 2 (d_authority x)) = hex_decode (drop 2 (d_authority y))"
    using p(4) q(4) e by (simp add: bytesOf_Inr)
  ultimately show ?thesis by (simp add: same_delegation_def)
qed

text \<open>
  C8: the signed digest binds the whole delegation.  When Keccak-256 keeps apart the inputs the two
  digests are computed from, two delegations with one signing digest have the same chain,
  delegate, delegator, authority, caveats (enforcer and terms, in order) and salt; nothing in a
  signed delegation can be swapped.
\<close>

theorem delegation_digest_binding:
  assumes "delegationSigningDigest c x = Inr h" "delegationSigningDigest c y = Inr h" "hash_lengths c"
    and "hash_apart (keccak_256 c) (delegation_hash_inputs c x @ delegation_hash_inputs c y)"
  shows "d_chainId x = d_chainId y \<and> same_delegation x y"
proof -
  let ?k = "keccak_256 c"
  have hlen: "length (?k z) = 32" for z using assms(3) by (simp add: hash_lengths_def)
  have opened: "\<exists>dm pm. delegation_domain_preimage c (d_chainId d) = Inr dm \<and> delegation_preimage c d = Inr pm \<and>
      h = ''0x'' @ bytesToHex (?k ([25, 1] @ ?k dm @ ?k pm)) \<and>
      {dm, pm, [25, 1] @ ?k dm @ ?k pm} \<subseteq> set (delegation_hash_inputs c d)"
    if "delegationSigningDigest c d = Inr h" for d
    using that by (auto simp: delegationSigningDigest_def signingChain_def delegationHash_def delegation_hash_bytes_def
        delegation_domain_def delegation_hash_inputs_def bytesOf_Inr split: if_splits)
  obtain dx hx dy hy where "delegation_domain_preimage c (d_chainId x) = Inr dx" "delegation_preimage c x = Inr hx"
      "delegation_domain_preimage c (d_chainId y) = Inr dy" "delegation_preimage c y = Inr hy"
      and k: "?k ([25, 1] @ ?k dx @ ?k hx) = ?k ([25, 1] @ ?k dy @ ?k hy)"
      and m: "{dx, hx, [25, 1] @ ?k dx @ ?k hx} \<subseteq> set (delegation_hash_inputs c x)"
        "{dy, hy, [25, 1] @ ?k dy @ ?k hy} \<subseteq> set (delegation_hash_inputs c y)"
    using opened [OF assms(1)] opened [OF assms(2)] by (auto simp: bytesToHex_inj)
  note o = this(1-4)
  have apart: "u = v" if "?k u = ?k v" "u \<in> {dx, hx, [25, 1] @ ?k dx @ ?k hx}" "v \<in> {dy, hy, [25, 1] @ ?k dy @ ?k hy}" for u v
    using hash_apartD [OF assms(4) that(1)] that(2,3) m by auto
  have "[25, 1] @ ?k dx @ ?k hx = [25, 1] @ ?k dy @ ?k hy" by (rule apart [OF k]) simp_all
  then have "?k dx = ?k dy" "?k hx = ?k hy" using hlen by simp_all
  then have e: "dx = dy" "hx = hy" using apart by blast+
  have "\<exists>w. word_bytes (d_chainId x) = Inr w \<and> word_bytes (d_chainId y) = Inr w"
    using o(1,3) e(1) by (auto simp: delegation_domain_preimage_def)
  then have "d_chainId x = d_chainId y" using word_bytes_inj by blast
  then show ?thesis using delegation_preimage_inj [OF o(2) _ assms(4,3)] o(4) e(2) by simp
qed

section \<open>What a redemption reads back as\<close>

text \<open>The permission context and the execution, read as the contract reads them.\<close>

definition read_redemption :: "bytes \<Rightarrow> (bytes \<times> bytes) option" where
  "read_redemption bs =
     (case (read_array (dyn_at 0 bs), read_array (dyn_at 2 bs)) of
        ([ctx], [ex]) \<Rightarrow> Some (read_bytes ctx, read_bytes ex)
      | _ \<Rightarrow> None)"

lemma read_bytes_array:
  assumes "bytes_array hex = Inr bs" "hex_decode (drop 2 hex) = Some data"
  shows "\<exists>x. read_array (bs @ post) = [x] \<and> read_bytes x = data"
proof -
  obtain b where b: "abiBytes hex = Inr b" "abiDynamicArray [b] = Inr bs"
    using assms(1) by (auto simp: bytes_array_def)
  obtain x where x: "read_array (bs @ post) = [x]" "\<exists>rest. x = b @ rest"
    using read_abiDynamicArray [OF b(2), of post] by (auto simp: length_Suc_conv)
  then show ?thesis using read_abiBytes [OF b(1) assms(2)] by auto
qed

text \<open>
  C9: a redemption carries exactly what was asked.  The calldata of \<open>redeemDelegations\<close>, read back
  by its offsets as an ABI decoder does, holds the one permission context and the one execution it
  was built from, whatever their lengths.
\<close>

theorem redemption_roundtrip:
  assumes "encodeRedeemDelegationsWithContext c context execution = Inr data"
  shows "\<exists>body. data = ''0x'' @ redeem_selector c @ bytesToHex body \<and>
    (\<exists>cb eb. hex_decode (drop 2 context) = Some cb \<and> hex_decode (drop 2 execution) = Some eb \<and>
       read_redemption body = Some (cb, eb))"
proof -
  obtain ctx one md ex body where p: "bytes_array context = Inr ctx" "bytes_array execution = Inr ex"
      "abiTuple [DynM ctx, DynM (one @ md), DynM ex] = Inr body"
      "data = ''0x'' @ redeem_selector c @ bytesToHex body"
    using assms by (auto simp: encodeRedeemDelegationsWithContext_def)
  obtain cb eb where d: "hex_decode (drop 2 context) = Some cb" "hex_decode (drop 2 execution) = Some eb"
    using p(1,2) by (auto simp: bytes_array_def abiBytes_def bytesOf_Inr)
  obtain r0 where r0: "dyn_at 0 body = ctx @ r0"
    using abiTuple_dyn [OF p(3), of 0 ctx "[]"] by auto
  obtain r2 where r2: "dyn_at 2 body = ex @ r2"
    using abiTuple_dyn [OF p(3), of 2 ex "[]"] by (auto simp: numeral_eq_Suc)
  obtain x y where "read_array (ctx @ r0) = [x]" "read_bytes x = cb" "read_array (ex @ r2) = [y]" "read_bytes y = eb"
    using read_bytes_array [OF p(1) d(1)] read_bytes_array [OF p(2) d(2)] by metis
  then have "read_redemption body = Some (cb, eb)" using r0 r2 by (simp add: read_redemption_def)
  then show ?thesis using p(4) d by blast
qed

text \<open>
  Packed executions are unambiguous.  Two executions with the same encoding have the same
  target and the same calldata up to the case of their digits, and the same value.
\<close>

lemma single_execution_injective:
  assumes "encodeSingleExecution x = Inr e" "encodeSingleExecution y = Inr e"
  shows "lower (x_target x) = lower (x_target y) \<and> x_value x = x_value y \<and>
    lower (x_callData x) = lower (x_callData y)"
proof -
  have form: "hex_literal 40 (x_target z) \<and> hex_bytes_literal (x_callData z) \<and> 0 \<le> x_value z \<and>
      x_value z \<le> uint256_max \<and>
      e = ''0x'' @ lower (drop 2 (x_target z)) @ word_hex (x_value z) @ lower (drop 2 (x_callData z))"
    if "encodeSingleExecution z = Inr e" for z
    using that by (auto simp: encodeSingleExecution_def address20_Inr word_text_Inr split: if_splits)
  note fx = form [OF assms(1)] and fy = form [OF assms(2)]
  have w: "length (word_hex (x_value z)) = 64" if "0 \<le> x_value z \<and> x_value z \<le> uint256_max" for z
    unfolding word_hex_def using that by (intro length_hex_padded) (auto simp: uint256_max_def nat_less_iff)
  have l: "length (lower (drop 2 (x_target x))) = 40" "length (lower (drop 2 (x_target y))) = 40"
    using fx fy by (auto simp: hex_literal_def)
  have eq: "lower (drop 2 (x_target x)) @ word_hex (x_value x) @ lower (drop 2 (x_callData x)) =
      lower (drop 2 (x_target y)) @ word_hex (x_value y) @ lower (drop 2 (x_callData y))"
    using fx fy by auto
  then have t: "lower (drop 2 (x_target x)) = lower (drop 2 (x_target y))"
      "word_hex (x_value x) = word_hex (x_value y)"
      "lower (drop 2 (x_callData x)) = lower (drop 2 (x_callData y))"
    using l w [of x] w [of y] fx fy by auto
  have "starts_with ''0x'' (x_target x)" "starts_with ''0x'' (x_target y)"
      "starts_with ''0x'' (x_callData x)" "starts_with ''0x'' (x_callData y)"
    using fx fy by (simp_all add: hex_literal_def hex_bytes_literal_def)
  then have "lower (x_target x) = lower (x_target y)" "lower (x_callData x) = lower (x_callData y)"
    using t(1,3) lower_prefixed by simp_all
  moreover have "x_value x = x_value y"
  proof -
    have "nat (x_value x) = nat (x_value y)" using t(2) hex_padded_inj by (auto simp: word_hex_def)
    then show ?thesis using fx fy by (simp add: eq_nat_nat_iff)
  qed
  ultimately show ?thesis by blast
qed

section \<open>Witnesses\<close>

definition sample_7702_scope :: session_scope where
  "sample_7702_scope =
     \<lparr>expiry = 9000, maxTotalGas = None, maxGasPerTx = None, maxTotalValue = None, maxValuePerTx = Some 7,
      maxTxCount = Some 3, allowedContracts = Some [''0x'' @ replicate 40 CHR ''c''],
      allowedMethods = Some [''0xd0e30db0''], tokenAllowances = None, tokenMaxPerTx = None,
      periodLimits = Some [(''native'', \<lparr>p_amount = 5, p_seconds = 60, p_start = 1\<rparr>)],
      allowedRecipients = None, nativeTransfer = None, allowedChainIds = Some [1, 10],
      rails = Some [''transfer''], mode = Eip7702\<rparr>"


definition sample_delegation :: framework_delegation where
  "sample_delegation =
     \<lparr>d_chainId = 10, d_delegate = ''0x'' @ replicate 40 CHR ''b'', d_delegator = ''0x'' @ replicate 40 CHR ''a'',
      d_authority = root_authority, d_caveats = [caveat enforcer_redeemer (replicate 40 CHR ''b'')],
      d_salt = 5, d_signature = ''0x''\<rparr>"

text \<open>The concrete hash shifted by one place, so that a hash is not mistaken for what was hashed.\<close>

definition shifted_crypto :: crypto where
  "shifted_crypto = toy_crypto\<lparr>keccak_256 := (\<lambda>x. toy_digest (1 # x))\<rparr>"

lemma shifted_lengths: "hash_lengths shifted_crypto"
  by (auto simp: hash_lengths_def shifted_crypto_def toy_crypto_def toy_digest_def)

lemma delegation_digest_binding_witness:
  "d_chainId sample_delegation = d_chainId (sample_delegation\<lparr>d_delegate := ''0x'' @ replicate 40 CHR ''B''\<rparr>) \<and>
   same_delegation sample_delegation (sample_delegation\<lparr>d_delegate := ''0x'' @ replicate 40 CHR ''B''\<rparr>)"
proof -
  let ?d = "sample_delegation\<lparr>d_delegate := ''0x'' @ replicate 40 CHR ''B''\<rparr>"
  have e: "delegationSigningDigest shifted_crypto sample_delegation = delegationSigningDigest shifted_crypto ?d \<and>
      (case delegationSigningDigest shifted_crypto ?d of Inl e \<Rightarrow> False | Inr h \<Rightarrow> True)" by code_simp
  have a: "hash_apart (keccak_256 shifted_crypto)
      (delegation_hash_inputs shifted_crypto sample_delegation @ delegation_hash_inputs shifted_crypto ?d)" by code_simp
  obtain h where "delegationSigningDigest shifted_crypto ?d = Inr h"
    using e by (cases "delegationSigningDigest shifted_crypto ?d") auto
  with e a show ?thesis by (intro delegation_digest_binding [OF _ _ shifted_lengths]) auto
qed

lemma redemption_roundtrip_witness:
  "\<exists>body data. encodeRedeemDelegationsWithContext toy_crypto ''0x0102'' ''0xff'' = Inr data \<and>
     data = ''0x'' @ redeem_selector toy_crypto @ bytesToHex body \<and>
     read_redemption body = Some ([1, 2], [255])"
proof -
  have "(case encodeRedeemDelegationsWithContext toy_crypto ''0x0102'' ''0xff'' of Inl e \<Rightarrow> False | Inr d \<Rightarrow> True)"
    by code_simp
  then obtain data where d: "encodeRedeemDelegationsWithContext toy_crypto ''0x0102'' ''0xff'' = Inr data"
    by (auto split: sum.splits)
  have "hex_decode (drop 2 ''0x0102'') = Some [1, 2]" "hex_decode (drop 2 ''0xff'') = Some [255]" by code_simp+
  with redemption_roundtrip [OF d] d show ?thesis by fastforce
qed

lemma single_execution_injective_witness:
  "x_value \<lparr>x_target = ''0x'' @ replicate 40 CHR ''c'', x_value = 3, x_callData = ''0xAB''\<rparr> =
   x_value \<lparr>x_target = ''0x'' @ replicate 40 CHR ''C'', x_value = 3, x_callData = ''0xab''\<rparr>"
proof -
  have "encodeSingleExecution \<lparr>x_target = ''0x'' @ replicate 40 CHR ''c'', x_value = 3, x_callData = ''0xAB''\<rparr> =
      encodeSingleExecution \<lparr>x_target = ''0x'' @ replicate 40 CHR ''C'', x_value = 3, x_callData = ''0xab''\<rparr> \<and>
      (case encodeSingleExecution \<lparr>x_target = ''0x'' @ replicate 40 CHR ''c'', x_value = 3, x_callData = ''0xAB''\<rparr> of
        Inl e \<Rightarrow> False | Inr x \<Rightarrow> True)" by code_simp
  then obtain e where
    "encodeSingleExecution \<lparr>x_target = ''0x'' @ replicate 40 CHR ''c'', x_value = 3, x_callData = ''0xAB''\<rparr> = Inr e"
    "encodeSingleExecution \<lparr>x_target = ''0x'' @ replicate 40 CHR ''C'', x_value = 3, x_callData = ''0xab''\<rparr> = Inr e"
    by (auto split: sum.splits)
  from single_execution_injective [OF this] show ?thesis by blast
qed

end
