(* ===== verification/DelegationHandlers.thy ===== *)
theory DelegationHandlers
  imports SessionManager Delegation
begin

text \<open>
  The EIP-7702 operations of class \<open>SessionKeyManager\<close>: preparing the delegation the owner signs,
  attaching it to the key, building a redemption and signing its transaction.
\<close>

definition delegationFor ::
  "crypto \<Rightarrow> manager_config \<Rightarrow> stored_key \<Rightarrow> int \<Rightarrow> int option \<Rightarrow> int \<Rightarrow> fault + framework_delegation" where
  "delegationFor c cfg k chainId salt_in random_salt =
     (if mode (scope k) \<noteq> Eip7702 then
        Inl (sk_fault SkInvalidInput ''Only an eip7702 session key has a delegation'')
      else
        let owner = a_signerAddress (authorization k) in
        if bad_evm_address owner then
          Inl (sk_fault SkInvalidInput
            ''An eip7702 session key needs its owner address (createSessionKey signerAddress)'')
        else case sessionKeyAddress c (publicKey (keyPair k)) of
          None \<Rightarrow> Inl (PlainError ''invalid public key'')
        | Some delegate \<Rightarrow>
            buildDelegation owner delegate (scope k) chainId salt_in random_salt
              (Some (forbiddenMethods cfg)))"

definition prepareDelegation ::
  "crypto \<Rightarrow> manager_config \<Rightarrow> string \<Rightarrow> int \<Rightarrow> int option \<Rightarrow> int \<Rightarrow> int \<Rightarrow> manager \<Rightarrow>
   (fault + framework_delegation) \<times> manager" where
  "prepareDelegation c cfg kid chainId salt_in random_salt now m =
     (case read_or_throw kid m of Inl e \<Rightarrow> (Inl e, m)
      | Inr stored \<Rightarrow>
          (case validateSessionStatus stored now m of
             (Some e, m0) \<Rightarrow> (Inl e, m0)
           | (None, m0) \<Rightarrow> (delegationFor c cfg stored chainId salt_in random_salt, m0)))"

text \<open>The signer of the delegation, or nothing when the signature is malformed.\<close>

definition recover_delegator :: "crypto \<Rightarrow> framework_delegation \<Rightarrow> string \<Rightarrow> string option" where
  "recover_delegator c expected signature =
     (case hex_decode (drop 2 signature) of None \<Rightarrow> None
      | Some sig \<Rightarrow>
          (case andThen (delegationSigningDigest c expected) bytesOf of Inl e \<Rightarrow> None
           | Inr digest \<Rightarrow> recover_signature c sig digest))"

text \<open>What \<open>attachDelegation\<close> checks, and the authorization it stores.\<close>

definition delegation_authorization ::
  "crypto \<Rightarrow> manager_config \<Rightarrow> stored_key \<Rightarrow> framework_delegation \<Rightarrow> string \<Rightarrow> fault + signed_authorization" where
  "delegation_authorization c cfg stored d signature =
     (let owner = a_signerAddress (authorization stored) in
      if \<not> safe_integer (d_chainId d) then
        Inl (sk_fault SkInvalidInput ''A delegation from prepareDelegation is required'')
      else andThen (delegationFor c cfg stored (d_chainId d) (Some (d_salt d)) 0) (\<lambda>expected.
           andThen (delegationHash c expected) (\<lambda>h.
           andThen (delegationHash c d) (\<lambda>h'.
             if h \<noteq> h' then
               Inl (sk_fault SkInvalidInput ''The delegation does not match this session key's scope'')
             else if \<not> hex_literal 130 signature then
               Inl (sk_fault SkInvalidInput ''The delegation signature must be 65 bytes'')
             else if (case recover_delegator c expected signature of None \<Rightarrow> True
                      | Some r \<Rightarrow> lower r \<noteq> lower owner) then
               Inl (sk_fault SkInvalidInput ''The delegation signature does not recover to the owner'')
             else andThen (encodePermissionContext [expected\<lparr>d_signature := signature\<rparr>]) (\<lambda>context.
               Inr \<lparr>a_authorization = Some context, a_rawSignature = None, a_message = None,
                    a_signerAddress = owner, a_type = Eip7702,
                    a_delegationChainId = Some (d_chainId expected)\<rparr>)))))"

definition attachDelegation ::
  "crypto \<Rightarrow> manager_config \<Rightarrow> string \<Rightarrow> framework_delegation \<Rightarrow> string \<Rightarrow> int \<Rightarrow> manager \<Rightarrow>
   (fault + unit) \<times> manager" where
  "attachDelegation c cfg kid d signature now m =
     (case read_or_throw kid m of Inl e \<Rightarrow> (Inl e, m)
      | Inr stored \<Rightarrow>
          (case validateSessionStatus stored now m of
             (Some e, m0) \<Rightarrow> (Inl e, m0)
           | (None, m0) \<Rightarrow>
               (case delegation_authorization c cfg stored d signature of
                  Inl e \<Rightarrow> (Inl e, m0)
                | Inr auth \<Rightarrow>
                    let stored' = stored\<lparr>authorization := auth\<rparr> in
                    (case store_save stored' (store m0) of Inl e \<Rightarrow> (Inl e, m0)
                     | Inr b \<Rightarrow>
                         (Inr (), m0\<lparr>store := b, cache := (cache m0)(key_id stored' \<mapsto> stored')\<rparr>)))))"

section \<open>Redeeming\<close>

definition redemptionFor :: "crypto \<Rightarrow> stored_key \<Rightarrow> framework_execution \<Rightarrow> fault + int \<times> string" where
  "redemptionFor c stored x =
     (let auth = authorization stored in
      case (a_delegationChainId auth) of
        Some chainId \<Rightarrow>
          if mode (scope stored) \<noteq> Eip7702 \<or> a_type auth \<noteq> Eip7702 \<or> \<not> truthy (a_authorization auth) then
            Inl (sk_fault SkInvalidInput ''This session key has no attached delegation'')
          else andThen (encodeSingleExecution x) (\<lambda>ex.
               andThen (encodeRedeemDelegationsWithContext c (text_of (a_authorization auth)) ex) (\<lambda>data.
                 Inr (chainId, data)))
      | None \<Rightarrow> Inl (sk_fault SkInvalidInput ''This session key has no attached delegation''))"

record redemption_tx =
  rt_to :: string
  rt_value :: string
  rt_data :: string
  rt_chainId :: int

definition buildDelegationRedemption ::
  "crypto \<Rightarrow> string \<Rightarrow> framework_execution \<Rightarrow> int \<Rightarrow> manager \<Rightarrow> (fault + redemption_tx) \<times> manager" where
  "buildDelegationRedemption c kid x now m =
     (case read_or_throw kid m of Inl e \<Rightarrow> (Inl e, m)
      | Inr stored \<Rightarrow>
          (case validateSessionStatus stored now m of
             (Some e, m0) \<Rightarrow> (Inl e, m0)
           | (None, m0) \<Rightarrow>
               (andThen (redemptionFor c stored x) (\<lambda>(chainId, data).
                  Inr \<lparr>rt_to = delegationManager, rt_value = ''0x0'', rt_data = data, rt_chainId = chainId\<rparr>), m0)))"

text \<open>The outer transaction is this redemption: chain, target, zero value, calldata.\<close>

definition outer_mismatch :: "session_tx \<Rightarrow> int \<Rightarrow> string \<Rightarrow> fault option" where
  "outer_mismatch outer chainId data =
     (let differs = sk_fault SkScopeExceeded ''The transaction is not this key's redemption for the execution'' in
      if tx_chainId outer \<noteq> Some chainId \<or> \<not> truthy (tx_to outer) \<or>
         lower (text_of (tx_to outer)) \<noteq> lower delegationManager then Some differs
      else case bigint_of (or_else (tx_value outer) ''0'') of
        None \<Rightarrow> Some (PlainError ''Cannot convert to a BigInt'')
      | Some v \<Rightarrow>
          throw_if (v \<noteq> 0 \<or> lower (text_of (tx_data outer)) \<noteq> lower data) differs)"

definition execution_tx :: "framework_execution \<Rightarrow> int \<Rightarrow> string option \<Rightarrow> session_tx" where
  "execution_tx x chainId gas =
     \<lparr>tx_to = Some (x_target x), tx_value = Some (''0x'' @ show_hex (nat (x_value x))),
      tx_data = Some (x_callData x), tx_chainId = Some chainId, tx_gas = gas\<rparr>"

definition signDelegationRedemption ::
  "crypto \<Rightarrow> manager_config \<Rightarrow> string \<Rightarrow> string \<Rightarrow> session_tx \<Rightarrow> framework_execution \<Rightarrow> clock \<Rightarrow> manager \<Rightarrow>
   (fault + string) \<times> manager" where
  "signDelegationRedemption c cfg kid digest outer x clk m =
     (case read_or_throw kid m of Inl e \<Rightarrow> (Inl e, m)
      | Inr stored \<Rightarrow>
          (case validateSessionStatus stored (clk_request clk) m of
             (Some e, m0) \<Rightarrow> (Inl e, m0)
           | (None, m0) \<Rightarrow>
               if (case rails (scope stored) of None \<Rightarrow> False | Some rs \<Rightarrow> ''transfer'' \<notin> set rs) then
                 (Inl (sk_fault SkScopeExceeded
                    ''A delegation redemption needs the transfer rail in the session scope''), m0)
               else case redemptionFor c stored x of Inl e \<Rightarrow> (Inl e, m0)
               | Inr (chainId, data) \<Rightarrow>
                   (case outer_mismatch outer chainId data of Some e \<Rightarrow> (Inl e, m0)
                    | None \<Rightarrow>
                        signStoredSessionKey c cfg stored digest
                          (execution_tx x chainId (tx_gas outer)) clk m0)))"

section \<open>Lemmas\<close>

lemma delegationFor_Inr:
  assumes "delegationFor c cfg k chainId s r = Inr d"
  shows "mode (scope k) = Eip7702" "d_chainId d = chainId"
    "\<exists>delegate. sessionKeyAddress c (publicKey (keyPair k)) = Some delegate \<and>
       caveatsFromScope (scope k) chainId (d_delegator d) (d_delegate d) (Some (forbiddenMethods cfg)) = Inr (d_caveats d) \<and>
       lower (d_delegate d) = lower delegate"
    "lower (d_delegator d) = lower (a_signerAddress (authorization k))"
  using assms
  by (auto simp: delegationFor_def buildDelegation_def Let_def address20_Inr addr_hex_def lower_0x_Cons
      hex_literal_def dest!: lower_prefixed split: if_splits option.splits)

lemma delegation_authorization_Inr:
  assumes "delegation_authorization c cfg stored d signature = Inr auth"
  shows "\<exists>expected h context. delegationFor c cfg stored (d_chainId d) (Some (d_salt d)) 0 = Inr expected \<and>
    delegationHash c expected = Inr h \<and> delegationHash c d = Inr h \<and>
    (\<exists>signer. recover_delegator c expected signature = Some signer \<and>
       lower signer = lower (a_signerAddress (authorization stored))) \<and>
    encodePermissionContext [expected\<lparr>d_signature := signature\<rparr>] = Inr context \<and>
    auth = \<lparr>a_authorization = Some context, a_rawSignature = None, a_message = None,
            a_signerAddress = a_signerAddress (authorization stored), a_type = Eip7702,
            a_delegationChainId = Some (d_chainId d)\<rparr>"
  using assms
  by (auto simp: delegation_authorization_def Let_def delegationFor_Inr(2) split: if_splits option.splits)

end
