(* ===== verification/Metering.thy ===== *)
theory Metering
  imports SessionStore
begin

text \<open>
  The life of one stored key as a step relation: it is charged after a passed scope check, its
  status changes, or its owner authorizes it.  The cumulative limits of its scope (value, gas,
  number of transactions, and the allowance of each token) are budgets in the sense of the locale
  \<open>budget\<close>, and the per-window spend of every period limit is bounded by an invariant of its own.
\<close>

inductive key_step :: "manager_config \<Rightarrow> stored_key \<Rightarrow> stored_key \<Rightarrow> bool" for cfg where
  charge: "checkScopeAgainstTx cfg (scope k)
       \<lparr>c_count = useCount k, c_value = or_else (accumulatedValue k) 0,
        c_gas = or_else (accumulatedGas k) 0, c_tokens = accumulatedTokenSpends k,
        c_periods = periodUsage k\<rparr> tx t = Inr r \<Longrightarrow>
     periodUsageFor (scope k) tx (periodUsage k) (spend_of (decodeScopedTokenSpend (scope k) tx)) t' = Inr ch \<Longrightarrow>
     t \<le> t' \<Longrightarrow>
     charge_key tx (spend_of (decodeScopedTokenSpend (scope k) tx)) ch now k = Inr k' \<Longrightarrow>
     key_step cfg k k'"
| retire: "st \<noteq> Active \<Longrightarrow> key_step cfg k (k\<lparr>status := st\<rparr>)"
| authorize: "key_step cfg k (k\<lparr>authorization := a\<rparr>)"

lemma add_amount_value:
  "add_amount acc v = Inr r \<Longrightarrow> tx_bigint v = Some n \<Longrightarrow> or_else r 0 = or_else acc 0 + n"
  by (auto simp: add_amount_def tx_bigint_def split: if_splits option.splits)

text \<open>What a charge adds to each meter.\<close>

lemma charge_key_meters:
  assumes "charge_key tx spend ch now k = Inr k'" "tx_bigint (tx_value tx) = Some v"
    "tx_bigint (tx_gas tx) = Some g"
  shows "or_else (accumulatedValue k') 0 = or_else (accumulatedValue k) 0 + v"
    and "or_else (accumulatedGas k') 0 = or_else (accumulatedGas k) 0 + g"
    and "useCount k' = useCount k + 1" and "scope k' = scope k"
    and "accumulatedTokenSpend (accumulatedTokenSpends k') token =
      accumulatedTokenSpend (accumulatedTokenSpends k) token +
      (case spend of Some t \<Rightarrow> if lower token = lower (ts_token t) then ts_amount t else 0 | None \<Rightarrow> 0)"
    and "period_spent (periodUsage k') asset i =
      (case ch of None \<Rightarrow> period_spent (periodUsage k) asset i
       | Some c \<Rightarrow> if asset = pc_asset c then
           (if i = pc_index c then period_spent (periodUsage k) asset i + pc_amount c else 0)
         else period_spent (periodUsage k) asset i)"
proof -
  obtain a b where ab: "add_amount (accumulatedValue k) (tx_value tx) = Inr a"
      "add_amount (accumulatedGas k) (tx_gas tx) = Inr b"
    and k': "k' = k\<lparr>useCount := useCount k + 1, lastUsedAt := now, accumulatedValue := a,
      accumulatedGas := b,
      accumulatedTokenSpends := (case spend of None \<Rightarrow> accumulatedTokenSpends k
        | Some t \<Rightarrow> Some (add_token (accumulatedTokenSpends k) t)),
      periodUsage := (case ch of None \<Rightarrow> periodUsage k | Some c \<Rightarrow> Some (add_period (periodUsage k) c))\<rparr>"
    using assms(1) by (auto simp: charge_key_def)
  show "or_else (accumulatedValue k') 0 = or_else (accumulatedValue k) 0 + v"
    using add_amount_value [OF ab(1) assms(2)] k' by simp
  show "or_else (accumulatedGas k') 0 = or_else (accumulatedGas k) 0 + g"
    using add_amount_value [OF ab(2) assms(3)] k' by simp
  show "useCount k' = useCount k + 1" "scope k' = scope k" using k' by simp_all
  show "accumulatedTokenSpend (accumulatedTokenSpends k') token =
      accumulatedTokenSpend (accumulatedTokenSpends k) token +
      (case spend of Some t \<Rightarrow> if lower token = lower (ts_token t) then ts_amount t else 0 | None \<Rightarrow> 0)"
    using k' by (simp add: accumulated_add_token split: option.splits)
  show "period_spent (periodUsage k') asset i =
      (case ch of None \<Rightarrow> period_spent (periodUsage k) asset i
       | Some c \<Rightarrow> if asset = pc_asset c then
           (if i = pc_index c then period_spent (periodUsage k) asset i + pc_amount c else 0)
         else period_spent (periodUsage k) asset i)"
    using k' by (simp add: period_spent_add split: option.splits)
qed

text \<open>A charge in one lemma: what was checked, and what each meter becomes.\<close>

lemma key_step_cases:
  assumes "key_step cfg k k'"
  shows "scope k' = scope k \<and>
    ((accumulatedValue k' = accumulatedValue k \<and> accumulatedGas k' = accumulatedGas k \<and>
      useCount k' = useCount k \<and> accumulatedTokenSpends k' = accumulatedTokenSpends k \<and>
      periodUsage k' = periodUsage k) \<or>
     (\<exists>tx v g. 0 \<le> v \<and> 0 \<le> g \<and>
       value_guard (scope k) v (or_else (accumulatedValue k) 0) = None \<and>
       gas_guard (scope k) g (or_else (accumulatedGas k) 0) = None \<and>
       count_guard (scope k) (useCount k) = None \<and>
       token_guard (scope k) tx (accumulatedTokenSpends k) = None \<and>
       or_else (accumulatedValue k') 0 = or_else (accumulatedValue k) 0 + v \<and>
       or_else (accumulatedGas k') 0 = or_else (accumulatedGas k) 0 + g \<and>
       useCount k' = useCount k + 1 \<and>
       (\<forall>token. accumulatedTokenSpend (accumulatedTokenSpends k') token =
         accumulatedTokenSpend (accumulatedTokenSpends k) token +
         (case spend_of (decodeScopedTokenSpend (scope k) tx) of
            Some t \<Rightarrow> if lower token = lower (ts_token t) then ts_amount t else 0 | None \<Rightarrow> 0))))"
  using assms
proof cases
  case (charge tx t r t' ch now)
  obtain v g where vg: "tx_bigint (tx_value tx) = Some v" "tx_bigint (tx_gas tx) = Some g"
    "amount_guard tx v g = None"
    "token_guard (scope k) tx (accumulatedTokenSpends k) = None"
    "value_guard (scope k) v (or_else (accumulatedValue k) 0) = None"
    "gas_guard (scope k) g (or_else (accumulatedGas k) 0) = None"
    "count_guard (scope k) (useCount k) = None"
    using charge(1) by (rule check_guards) auto
  note m = charge_key_meters [OF charge(4) vg(1,2)]
  show ?thesis using vg m amount_guard_None [OF vg(3)] by blast
qed auto

section \<open>The cumulative budgets\<close>

interpretation value_budget: budget
  "\<lambda>k. or_else (accumulatedValue k) 0" "\<lambda>k. maxTotalValue (scope k)" "key_step cfg" for cfg
  by unfold_locales (auto dest!: key_step_cases simp: value_guard_None)

interpretation gas_budget: budget
  "\<lambda>k. or_else (accumulatedGas k) 0" "\<lambda>k. maxTotalGas (scope k)" "key_step cfg" for cfg
  by unfold_locales (auto dest!: key_step_cases simp: gas_guard_None)

interpretation count_budget: budget
  useCount "\<lambda>k. maxTxCount (scope k)" "key_step cfg" for cfg
  by unfold_locales (auto dest!: key_step_cases simp: count_guard_None)

definition token_limit :: "string \<Rightarrow> stored_key \<Rightarrow> int option" where
  "token_limit token k = map_option snd (entry_ci token (tokenAllowances (scope k)))"

definition token_spent :: "string \<Rightarrow> stored_key \<Rightarrow> int" where
  "token_spent token k = accumulatedTokenSpend (accumulatedTokenSpends k) token"

lemma token_spent_step:
  assumes "key_step cfg k k'"
  shows "token_spent token k \<le> token_spent token k' \<and>
    (token_spent token k' = token_spent token k \<or>
     (\<forall>l. token_limit token k = Some l \<longrightarrow> token_spent token k' \<le> l))"
proof -
  consider "accumulatedTokenSpends k' = accumulatedTokenSpends k"
    | tx where "token_guard (scope k) tx (accumulatedTokenSpends k) = None"
      "\<And>token. accumulatedTokenSpend (accumulatedTokenSpends k') token =
         accumulatedTokenSpend (accumulatedTokenSpends k) token +
         (case spend_of (decodeScopedTokenSpend (scope k) tx) of
            Some t \<Rightarrow> if lower token = lower (ts_token t) then ts_amount t else 0 | None \<Rightarrow> 0)"
    using key_step_cases [OF assms] by blast
  then show ?thesis
  proof cases
    case 1
    then show ?thesis by (simp add: token_spent_def)
  next
    case 2
    show ?thesis
    proof (cases "\<exists>t. decodeScopedTokenSpend (scope k) tx = Spend t \<and> lower token = lower (ts_token t)")
      case True
      then obtain t where t: "decodeScopedTokenSpend (scope k) tx = Spend t" "lower token = lower (ts_token t)"
        by blast
      have sp: "token_spent token k' = token_spent token k + ts_amount t"
        using 2(2) [of token] t by (simp add: token_spent_def spend_of_def)
      have "accumulatedTokenSpend (accumulatedTokenSpends k) (ts_token t) = token_spent token k"
        unfolding token_spent_def accumulatedTokenSpend_def using t(2) entry_ci_lower by metis
      then have "token_spent token k' \<le> ts_allowance t"
        using token_guard_Spend [OF 2(1) t(1)] sp by simp
      moreover have "token_limit token k = Some (ts_allowance t)"
        using decode_Spend_entry [OF t] by (simp add: token_limit_def)
      ultimately show ?thesis using sp decode_Spend [OF t(1)] by simp
    next
      case False
      then have "token_spent token k' = token_spent token k"
        using 2(2) [of token] by (auto simp: token_spent_def spend_of_def split: token_decode.splits)
      then show ?thesis by simp
    qed
  qed
qed

interpretation token_budget: budget "token_spent token" "token_limit token" "key_step cfg" for token cfg
  by unfold_locales
    (use token_spent_step in \<open>auto dest!: key_step_cases simp: token_limit_def\<close>)

section \<open>Windows\<close>

text \<open>Every window of every period limit is within the limit.\<close>

definition windows_within :: "stored_key \<Rightarrow> bool" where
  "windows_within k \<longleftrightarrow>
     (\<forall>asset p. map_of (or_nil (periodLimits (scope k))) asset = Some p \<longrightarrow>
        (\<forall>i. period_spent (periodUsage k) asset i \<le> p_amount p))"

lemma window_charge:
  assumes guard: "period_guard s tx usage t = None"
    and charge: "periodUsageFor s tx usage (spend_of (decodeScopedTokenSpend s tx)) t' = Inr (Some c)"
    and mono: "t \<le> t'" and lim: "map_of (or_nil (periodLimits s)) (pc_asset c) = Some p"
    and pos: "0 < p_seconds p"
  shows "period_spent usage (pc_asset c) (pc_index c) + pc_amount c \<le> p_amount p"
proof -
  let ?spend = "spend_of (decodeScopedTokenSpend s tx)"
  obtain c0 where c0: "periodUsageFor s tx usage ?spend t = Inr c0"
    using period_guard_Inr [OF guard] by blast
  note f = periodUsageFor_Some [OF charge]
  have "c0 \<noteq> None"
    using c0 f by (auto simp: periodUsageFor_def Let_def split: option.splits if_splits)
  then obtain d where d: "periodUsageFor s tx usage ?spend t = Inr (Some d)" using c0 by auto
  note g = periodUsageFor_Some [OF d]
  have same: "pc_asset d = pc_asset c" "pc_amount d = pc_amount c" using f g by auto
  have idx: "pc_index d = (t - p_start p) div p_seconds p" "pc_index c = (t' - p_start p) div p_seconds p"
    using f g same lim by auto
  have le: "pc_index d \<le> pc_index c"
    unfolding idx using mono pos by (intro zdiv_mono1) auto
  have gd: "period_spent usage (pc_asset c) (pc_index d) + pc_amount c \<le> p_amount p"
    using period_guard_None [OF guard d] same lim by simp
  have nm: "\<not> usage_malformed (pc_index d) (map_of (or_nil usage) (pc_asset c))" using g same by auto
  show ?thesis
  proof (cases "pc_index d = pc_index c")
    case True
    with gd show ?thesis by simp
  next
    case False
    with le have lt: "pc_index d < pc_index c" by simp
    have "0 \<le> period_spent usage (pc_asset c) (pc_index d)"
      using nm by (auto simp: period_spent_def usage_malformed_def split: option.splits)
    moreover have "period_spent usage (pc_asset c) (pc_index c) = 0"
      using nm lt by (auto simp: period_spent_def usage_malformed_def split: option.splits)
    ultimately show ?thesis using gd by simp
  qed
qed

lemma period_amount_nonneg:
  assumes "periodUsageFor s tx usage (spend_of (decodeScopedTokenSpend s tx)) t = Inr (Some c)"
    "tx_bigint (tx_value tx) = Some v" "0 \<le> v"
  shows "0 \<le> pc_amount c"
  using periodUsageFor_Some [OF assms(1)] assms(2,3) decode_Spend [of s tx]
  by (auto simp: spend_of_def split: option.splits token_decode.splits)

lemma wf_period_pos:
  "wf_scope s \<Longrightarrow> map_of (or_nil (periodLimits s)) a = Some p \<Longrightarrow> 0 < p_seconds p \<and> 0 < p_amount p"
  by (auto simp: wf_scope_def wf_period_def dest!: map_of_SomeD)

lemma windows_step:
  assumes "key_step cfg k k'" "windows_within k" "wf_scope (scope k)"
  shows "windows_within k'"
  using assms(1)
proof cases
  case (charge tx t r t' ch now)
  obtain v g where vg: "tx_bigint (tx_value tx) = Some v" "tx_bigint (tx_gas tx) = Some g"
    and guard: "period_guard (scope k) tx (periodUsage k) t = None"
    using charge(1) by (rule check_guards) auto
  note m = charge_key_meters [OF charge(4) vg]
  show ?thesis
    unfolding windows_within_def m(4)
  proof (intro allI impI)
    fix asset p i assume lim: "map_of (or_nil (periodLimits (scope k))) asset = Some p"
    then have old: "period_spent (periodUsage k) asset i \<le> p_amount p"
      and pos: "0 < p_seconds p" "0 < p_amount p"
      using assms(2) wf_period_pos [OF assms(3)] by (auto simp: windows_within_def)
    show "period_spent (periodUsage k') asset i \<le> p_amount p"
    proof (cases "ch = None \<or> (\<exists>c. ch = Some c \<and> asset \<noteq> pc_asset c)")
      case True
      then show ?thesis using old m(6) [of asset i] by auto
    next
      case False
      then obtain c where c: "ch = Some c" "asset = pc_asset c" by auto
      have "period_spent (periodUsage k) (pc_asset c) (pc_index c) + pc_amount c \<le> p_amount p"
        using window_charge [OF guard charge(2) [unfolded c(1)] charge(3)] lim c pos by simp
      then show ?thesis using m(6) [of asset i] c pos by simp
    qed
  qed
qed (use assms(2) in \<open>auto simp: windows_within_def\<close>)

section \<open>All limits of a key\<close>

definition within_limits :: "stored_key \<Rightarrow> bool" where
  "within_limits k \<longleftrightarrow>
     (\<forall>l. maxTotalValue (scope k) = Some l \<longrightarrow> or_else (accumulatedValue k) 0 \<le> l) \<and>
     (\<forall>l. maxTotalGas (scope k) = Some l \<longrightarrow> or_else (accumulatedGas k) 0 \<le> l) \<and>
     (\<forall>n. maxTxCount (scope k) = Some n \<longrightarrow> useCount k \<le> n) \<and>
     (\<forall>token key l. entry_ci token (tokenAllowances (scope k)) = Some (key, l) \<longrightarrow>
        accumulatedTokenSpend (accumulatedTokenSpends k) token \<le> l) \<and>
     windows_within k"

lemma within_limits_budgets:
  "within_limits k \<longleftrightarrow> value_budget.within k \<and> gas_budget.within k \<and> count_budget.within k \<and>
     (\<forall>token. token_budget.within token k) \<and> windows_within k"
  by (auto simp: within_limits_def value_budget.within_def gas_budget.within_def count_budget.within_def
      token_budget.within_def token_limit_def token_spent_def)

lemma key_run_scope: "(key_step cfg)\<^sup>*\<^sup>* k k' \<Longrightarrow> scope k' = scope k"
  by (induction rule: rtranclp_induct) (auto dest: key_step_cases)

lemma windows_run: "(key_step cfg)\<^sup>*\<^sup>* k k' \<Longrightarrow> windows_within k \<Longrightarrow> wf_scope (scope k) \<Longrightarrow> windows_within k'"
proof (induction rule: rtranclp_induct)
  case (step y z)
  have "scope y = scope k" using step.hyps(1) by (rule key_run_scope)
  then show ?case using windows_step [OF step.hyps(2)] step by simp
qed

lemma within_limits_run:
  assumes "(key_step cfg)\<^sup>*\<^sup>* k k'" "within_limits k" "wf_scope (scope k)"
  shows "within_limits k'"
  using assms(2) value_budget.within_run [OF assms(1)] gas_budget.within_run [OF assms(1)]
    count_budget.within_run [OF assms(1)] token_budget.within_run [OF assms(1)]
    windows_run [OF assms(1) _ assms(3)]
  by (simp add: within_limits_budgets)

end
