(* ===== verification/SessionRuns.thy ===== *)
theory SessionRuns
  imports DelegationHandlers Metering
begin

text \<open>
  Every operation of the session-key manager as one transition system.  A request is a call with
  its arguments, \<open>exec\<close> is the handler it reaches, an event is what the caller gets back, and a run
  is a sequence of requests on one store.  The central lemma, \<open>step_evolves\<close>, says that a step takes
  every stored record through steps of its own life (\<open>key_step\<close>) or has just created it.
\<close>

datatype request =
    ReqCreate "scope_input option" "string option" bytes bytes bytes bytes int
  | ReqList int
  | ReqListActive int
  | ReqRevoke string
  | ReqClear
  | ReqAuthorize string signed_authorization
  | ReqVerify offchain_verifier string string
  | ReqSign string string session_tx clock
  | ReqSignVerified string "key_info \<Rightarrow> string" offchain_verifier string session_tx clock
  | ReqSignTyped string typed_data_request string clock
  | ReqSignTypedVerified string "key_info \<Rightarrow> string" offchain_verifier typed_data_request string clock
  | ReqBundle string int
  | ReqCheck string session_tx clock
  | ReqPrepare string int "int option" int int
  | ReqAttach string framework_delegation string int
  | ReqBuildRedemption string framework_execution int
  | ReqSignRedemption string string session_tx framework_execution clock
  | ReqLateExpire string

text \<open>How a signature was asked for.\<close>

datatype route =
    RawDigest session_tx
  | Typed typed_data_request string
  | Redemption session_tx framework_execution

datatype event = Quiet | Failed fault | Created string | Signed string route string | Released key_bundle

definition answer :: "('a \<Rightarrow> event) \<Rightarrow> (fault + 'a) \<times> manager \<Rightarrow> event \<times> manager" where
  "answer f rm = (case rm of (Inl e, m) \<Rightarrow> (Failed e, m) | (Inr x, m) \<Rightarrow> (f x, m))"

text \<open>
  \<open>ReqLateExpire\<close> is the unawaited status write of \<open>validateSessionStatus\<close> when it lands after
  other operations.
\<close>

fun exec :: "crypto \<Rightarrow> manager_config \<Rightarrow> request \<Rightarrow> manager \<Rightarrow> event \<times> manager" where
  "exec c cfg (ReqCreate input signer pk slt nonce uuid now) m =
     answer (\<lambda>i. Created (i_id i)) (createSessionKey c cfg input signer pk slt nonce uuid now m)"
| "exec c cfg (ReqList now) m = answer (\<lambda>_. Quiet) (listSessions now m)"
| "exec c cfg (ReqListActive now) m = answer (\<lambda>_. Quiet) (listActiveSessions now m)"
| "exec c cfg (ReqRevoke kid) m = answer (\<lambda>_. Quiet) (revokeSession kid m)"
| "exec c cfg ReqClear m = (Quiet, clearAll m)"
| "exec c cfg (ReqAuthorize kid auth) m = answer (\<lambda>_. Quiet) (setAuthorization kid auth m)"
| "exec c cfg (ReqVerify verify kid msg) m =
     answer (\<lambda>_. Quiet) (verifyOffchainAuthorization verify kid msg m, m)"
| "exec c cfg (ReqSign kid h tx clk) m =
     answer (Signed kid (RawDigest tx)) (signWithSessionKey c cfg kid h tx clk m)"
| "exec c cfg (ReqSignVerified kid build verify h tx clk) m =
     answer (Signed kid (RawDigest tx)) (signWithVerifiedOffchainAuthorization c cfg kid build verify h tx clk m)"
| "exec c cfg (ReqSignTyped kid r rail clk) m =
     answer (Signed kid (Typed r rail)) (signTypedDataWithSessionKey c cfg kid r rail clk m)"
| "exec c cfg (ReqSignTypedVerified kid build verify r rail clk) m =
     answer (Signed kid (Typed r rail))
       (signTypedDataWithVerifiedOffchainAuthorization c cfg kid build verify r rail clk m)"
| "exec c cfg (ReqBundle kid now) m = answer Released (getSessionBundle c cfg kid now m)"
| "exec c cfg (ReqCheck kid tx clk) m = (Quiet, snd (checkSessionScope cfg kid tx clk m))"
| "exec c cfg (ReqPrepare kid chainId sl rnd now) m =
     answer (\<lambda>_. Quiet) (prepareDelegation c cfg kid chainId sl rnd now m)"
| "exec c cfg (ReqAttach kid d sig now) m = answer (\<lambda>_. Quiet) (attachDelegation c cfg kid d sig now m)"
| "exec c cfg (ReqBuildRedemption kid x now) m =
     answer (\<lambda>_. Quiet) (buildDelegationRedemption c kid x now m)"
| "exec c cfg (ReqSignRedemption kid h outer x clk) m =
     answer (Signed kid (Redemption outer x)) (signDelegationRedemption c cfg kid h outer x clk m)"
| "exec c cfg (ReqLateExpire kid) m =
     (Quiet, case updateStatus kid Expired (store m) of Inl e \<Rightarrow> m | Inr b \<Rightarrow> m\<lparr>store := b\<rparr>)"

text \<open>Within one signing request the clock does not run backwards.\<close>

definition clock_ok :: "clock \<Rightarrow> bool" where
  "clock_ok clk \<longleftrightarrow> now_sec (clk_scope clk) \<le> now_sec (clk_charge clk)"

fun request_ok :: "request \<Rightarrow> bool" where
  "request_ok (ReqSign kid h tx clk) = clock_ok clk"
| "request_ok (ReqSignVerified kid build verify h tx clk) = clock_ok clk"
| "request_ok (ReqSignTyped kid r rail clk) = clock_ok clk"
| "request_ok (ReqSignTypedVerified kid build verify r rail clk) = clock_ok clk"
| "request_ok (ReqSignRedemption kid h outer x clk) = clock_ok clk"
| "request_ok q = True"

inductive mgr_step :: "crypto \<Rightarrow> manager_config \<Rightarrow> manager \<Rightarrow> event \<Rightarrow> manager \<Rightarrow> bool" for c cfg where
  step: "request_ok q \<Longrightarrow> exec c cfg q m = (ev, m') \<Longrightarrow> mgr_step c cfg m ev m'"

inductive_cases mgr_stepE: "mgr_step c cfg m ev m'"

inductive mgr_run :: "crypto \<Rightarrow> manager_config \<Rightarrow> manager \<Rightarrow> event list \<Rightarrow> manager \<Rightarrow> bool" for c cfg where
  run_nil: "mgr_run c cfg m [] m"
| run_snoc: "mgr_run c cfg m evs m' \<Longrightarrow> mgr_step c cfg m' ev m'' \<Longrightarrow> mgr_run c cfg m (evs @ [ev]) m''"

lemma exec_step: "request_ok q \<Longrightarrow> fst (exec c cfg q m) = ev \<Longrightarrow> mgr_step c cfg m ev (snd (exec c cfg q m))"
  by (rule mgr_step.step [of q]) auto

section \<open>Reading\<close>

abbreviation records :: "manager \<Rightarrow> stored_key list" where
  "records m \<equiv> loadAll (store m)"

lemma read_or_throw_Inr:
  assumes "read_or_throw kid m = Inr k"
  shows "find_key kid (records m) = Some k \<and> loadAllStrict (store m) = Inr (records m) \<and> key_id k = kid"
  using assms
  by (auto simp: read_or_throw_def readStoredSession_def store_get_def loadAllStrict_Inr
      split: if_splits sum.splits option.splits dest: find_key_id)

lemma find_key_in: "find_key kid ks = Some k \<Longrightarrow> k \<in> set ks"
  by (auto simp: find_key_def dest: find_SomeD)

lemma expire_effect_None: "status_fault k now = None \<Longrightarrow> expire_effect k now b = b"
  by (auto simp: status_fault_def expire_effect_def)

lemma validate_None: "validateSessionStatus k now m = (None, m0) \<Longrightarrow> m0 = m \<and> status_fault k now = None"
  by (auto simp: validateSessionStatus_def expire_effect_None)

lemma loadAll_slot [simp]: "loadAll (b\<lparr>slot := Records ks\<rparr>) = ks"
  by (simp add: loadAll_def loadAllStrict_def)

lemma put_key_set: "set (put_key k ks) \<subseteq> insert k (set ks)"
  by (induction k ks rule: put_key.induct) auto

section \<open>Records evolve by their own steps\<close>

definition evolves :: "manager_config \<Rightarrow> backend \<Rightarrow> backend \<Rightarrow> bool" where
  "evolves cfg b b' \<longleftrightarrow> (\<forall>k' \<in> set (loadAll b'). \<exists>k \<in> set (loadAll b). (key_step cfg)\<^sup>*\<^sup>* k k')"

definition descends :: "manager_config \<Rightarrow> backend \<Rightarrow> stored_key \<Rightarrow> bool" where
  "descends cfg b k' \<longleftrightarrow> (\<exists>k \<in> set (loadAll b). (key_step cfg)\<^sup>*\<^sup>* k k')"

lemma evolves_refl [simp]: "evolves cfg b b"
  by (auto simp: evolves_def)

lemma evolves_save:
  assumes "evolves cfg b0 b" "descends cfg b0 k" "store_save k b = Inr b'"
  shows "evolves cfg b0 b'"
proof -
  obtain ks where ks: "loadAllStrict b = Inr ks" "b' = b\<lparr>slot := Records (put_key k ks)\<rparr>"
    using assms(3) by (auto simp: store_save_def)
  then have "set (loadAll b') \<subseteq> insert k (set (loadAll b))"
    using put_key_set [of k ks] loadAllStrict_Inr [OF ks(1)] by simp
  then show ?thesis using assms(1,2) unfolding evolves_def descends_def by blast
qed

lemma evolves_modify:
  assumes "modify_key kid f b = Inr b'" "\<And>k k'. find_key kid (loadAll b) = Some k \<Longrightarrow> f k = Inr k' \<Longrightarrow> key_step cfg k k'"
  shows "evolves cfg b b'"
proof -
  obtain ks k k' where p: "loadAllStrict b = Inr ks" "find_key kid ks = Some k" "f k = Inr k'"
      "b' = b\<lparr>slot := Records (put_key k' ks)\<rparr>"
    using assms(1) by (auto simp: modify_key_Inr)
  have b: "loadAll b = ks" using loadAllStrict_Inr [OF p(1)] .
  have s: "key_step cfg k k'" using assms(2) p(2,3) b by blast
  have "set (loadAll b') \<subseteq> insert k' (set ks)" using put_key_set [of k' ks] p(4) by simp
  then show ?thesis using s find_key_in [OF p(2)] unfolding evolves_def b by blast
qed

lemma evolves_status: "updateStatus kid st b = Inr b' \<Longrightarrow> st \<noteq> Active \<Longrightarrow> evolves cfg b b'"
  by (rule evolves_modify) (auto simp: updateStatus_def intro: key_step.retire)

lemma evolves_expire: "evolves cfg b (expire_effect k now b)"
  by (auto simp: expire_effect_def split: sum.splits intro: evolves_status)

lemma evolves_clear: "evolves cfg b (store_clear b)"
  by (simp add: evolves_def store_clear_def loadAll_def loadAllStrict_def)

lemma evolves_save_each:
  assumes "evolves cfg b0 b" "\<forall>k \<in> set ks. descends cfg b0 k" "save_each ks b = (r, b')"
  shows "evolves cfg b0 b'"
  using assms
  by (induction ks b arbitrary: b' rule: save_each.induct)
    (auto split: sum.splits intro: evolves_save)

lemma mark_expired_step: "(key_step cfg)\<^sup>*\<^sup>* k (mark_expired now k)"
  by (auto simp: mark_expired_def intro!: r_into_rtranclp key_step.retire)

lemma evolves_refresh: "refreshCache now m = (r, m') \<Longrightarrow> evolves cfg (store m) (store m')"
proof -
  assume r: "refreshCache now m = (r, m')"
  let ?ks = "filter (\<lambda>k. status k = Expired) (map (mark_expired now) (loadAll (store m)))"
  have d: "\<forall>k \<in> set ?ks. descends cfg (store m) k"
    using mark_expired_step by (auto simp: descends_def)
  obtain e b where s: "save_each ?ks (store m) = (e, b)" by fastforce
  have "store m' = store m \<or> store m' = b"
    using r s by (auto simp: refreshCache_def Let_def split: if_splits option.splits)
  then show ?thesis using evolves_save_each [OF evolves_refl d s] by auto
qed

section \<open>Signing\<close>

text \<open>The record after a signature: the scope check passed, and the charge is what it decoded.\<close>

definition charged :: "manager_config \<Rightarrow> session_tx \<Rightarrow> clock \<Rightarrow> stored_key \<Rightarrow> stored_key \<Rightarrow> bool" where
  "charged cfg tx clk k k' \<longleftrightarrow>
     (let spend = spend_of (decodeScopedTokenSpend (scope k) tx) in
      (\<exists>r. checkScopeAgainstTx cfg (scope k) (counters_of k) tx (now_sec (clk_scope clk)) = Inr r) \<and>
      (\<exists>ch. periodUsageFor (scope k) tx (periodUsage k) spend (now_sec (clk_charge clk)) = Inr ch \<and>
            charge_key tx spend ch (clk_used clk) k = Inr k'))"

lemma charged_step: "charged cfg tx clk k k' \<Longrightarrow> clock_ok clk \<Longrightarrow> key_step cfg k k'"
  unfolding charged_def Let_def counters_of_def clock_ok_def by (blast intro: key_step.charge)

definition owner_authorized :: "manager_config \<Rightarrow> stored_key \<Rightarrow> bool" where
  "owner_authorized cfg k \<longleftrightarrow>
     unsafeAllowUnauthorizedSigning cfg \<or> truthy (a_rawSignature (authorization k)) \<or>
     truthy (a_authorization (authorization k))"

text \<open>Everything a returned signature stands for.\<close>

definition accounted ::
  "manager_config \<Rightarrow> manager \<Rightarrow> string \<Rightarrow> session_tx \<Rightarrow> clock \<Rightarrow> stored_key \<Rightarrow> manager \<Rightarrow> bool" where
  "accounted cfg m kid tx clk k m' \<longleftrightarrow>
     find_key kid (records m) = Some k \<and>
     status_fault k (clk_status clk) = None \<and> owner_authorized cfg k \<and>
     (\<exists>k'. charged cfg tx clk k k' \<and> records m' = put_key k' (records m) \<and>
        (\<exists>b. store m' = b\<lparr>slot := Records (put_key k' (records m))\<rparr>))"

lemma sign_refusal_None:
  assumes "sign_refusal cfg k h tx clk = None"
  shows "assertMessageHash h = None" "status_fault k (clk_status clk) = None" "owner_authorized cfg k"
    "\<exists>r. checkScopeAgainstTx cfg (scope k) (counters_of k) tx (now_sec (clk_scope clk)) = Inr r"
  using assms by (auto simp: sign_refusal_def owner_authorized_def split: sum.splits)

lemma sign_success:
  assumes "signStoredSessionKey c cfg k h tx clk m = (Inr sig, m')" "find_key kid (records m) = Some k"
  shows "accounted cfg m kid tx clk k m'"
proof -
  have ref: "sign_refusal cfg k h tx clk = None"
    using assms(1) by (auto simp: signStoredSessionKey_def Let_def split: option.splits)
  note r = sign_refusal_None [OF ref]
  have m0: "snd (validateSessionStatus k (clk_status clk) m) = m"
    using r(2) by (simp add: validateSessionStatus_def expire_effect_None)
  obtain bd ch b where p:
      "periodUsageFor (scope k) tx (periodUsage k) (spend_of (decodeScopedTokenSpend (scope k) tx))
         (now_sec (clk_charge clk)) = Inr ch"
      "incrementUsageUnlocked (key_id k) tx (spend_of (decodeScopedTokenSpend (scope k) tx)) ch (clk_used clk)
         (store m) = Inr b"
      "m' = m\<lparr>activeBundle := bd, store := b, cache := (cache m)(key_id k := None)\<rparr>"
    using assms(1) ref r(1) m0
    by (auto simp: signStoredSessionKey_def Let_def split: option.splits sum.splits)
  have "key_id k = kid" using find_key_id [OF assms(2)] .
  then obtain k' where k': "charge_key tx (spend_of (decodeScopedTokenSpend (scope k) tx)) ch (clk_used clk) k = Inr k'"
      "b = (store m)\<lparr>slot := Records (put_key k' (records m))\<rparr>"
    using p(2) assms(2) by (auto simp: incrementUsageUnlocked_def modify_key_Inr dest!: loadAllStrict_Inr)
  have "charged cfg tx clk k k'" using r(4) p(1) k'(1) by (auto simp: charged_def Let_def)
  then show ?thesis using assms(2) r p(3) k'(2) by (auto simp: accounted_def)
qed

lemma accounted_evolves: "accounted cfg m kid tx clk k m' \<Longrightarrow> clock_ok clk \<Longrightarrow> evolves cfg (store m) (store m')"
  unfolding accounted_def evolves_def using charged_step put_key_set find_key_in by (metis insert_iff r_into_rtranclp rtranclp.rtrancl_refl subsetD)

lemma sign_failure:
  assumes "signStoredSessionKey c cfg k h tx clk m = (Inl e, m')"
  shows "evolves cfg (store m) (store m')"
proof -
  let ?m0 = "if assertMessageHash h = None then snd (validateSessionStatus k (clk_status clk) m) else m"
  have "evolves cfg (store m) (store ?m0)" by (simp add: validateSessionStatus_def evolves_expire)
  moreover have "store m' = store ?m0"
    using assms by (auto simp: signStoredSessionKey_def Let_def split: option.splits sum.splits)
  ultimately show ?thesis by simp
qed

lemma sign_evolves:
  assumes "signStoredSessionKey c cfg k h tx clk m = (r, m')" "find_key kid (records m) = Some k" "clock_ok clk"
  shows "evolves cfg (store m) (store m')"
proof (cases r)
  case (Inl e)
  then show ?thesis using assms(1) sign_failure by blast
next
  case (Inr sig)
  then show ?thesis using assms sign_success accounted_evolves by blast
qed

lemma validate_evolves: "validateSessionStatus k now m = (e, m0) \<Longrightarrow> evolves cfg (store m) (store m0)"
  by (auto simp: validateSessionStatus_def evolves_expire)

section \<open>A step evolves the records\<close>

text \<open>What a freshly created record is.\<close>

definition fresh_key :: "stored_key \<Rightarrow> bool" where
  "fresh_key k \<longleftrightarrow>
     wf_scope (scope k) \<and> status k = Active \<and> useCount k = 0 \<and> accumulatedValue k = None \<and>
     accumulatedGas k = None \<and> accumulatedTokenSpends k = None \<and> periodUsage k = None"

lemma create_Inr:
  assumes "createSessionKey c cfg input signer pk slt nonce uuid now m = (Inr i, m')"
  shows "\<exists>k. fresh_key k \<and> key_id k = i_id i \<and> store_save k (store m) = Inr (store m') \<and> scope k = i_scope i \<and>
    validateScopeInput cfg now (scope k) = None"
proof -
  let ?s = "resolveScope cfg now input"
  have v: "validateScopeInput cfg now ?s = None"
    using assms by (auto simp: createSessionKey_def Let_def split: option.splits)
  then have w: "wf_scope ?s" using validateScopeInput_accepted by blast
  obtain sealed where p: "store_save (new_stored_key (uuidv4 uuid) sealed ?s signer now) (store m) = Inr (store m')"
      "i = toSessionKeyInfo (new_stored_key (uuidv4 uuid) sealed ?s signer now)"
    using assms by (auto simp: createSessionKey_def Let_def split: option.splits sum.splits if_splits)
  then show ?thesis
    using v w
    by (intro exI [of _ "new_stored_key (uuidv4 uuid) sealed ?s signer now"])
      (simp add: fresh_key_def new_stored_key_def toSessionKeyInfo_def Let_def)
qed

lemma create_Inl: "createSessionKey c cfg input signer pk slt nonce uuid now m = (Inl e, m') \<Longrightarrow> m' = m"
  by (auto simp: createSessionKey_def Let_def split: option.splits sum.splits if_splits)

lemma authorize_evolves:
  assumes "find_key kid (records m) = Some k" "store_save (k\<lparr>authorization := a\<rparr>) (store m) = Inr b"
  shows "evolves cfg (store m) b"
proof -
  have "descends cfg (store m) (k\<lparr>authorization := a\<rparr>)"
    unfolding descends_def using find_key_in [OF assms(1)] key_step.authorize by blast
  then show ?thesis using evolves_save [OF evolves_refl _ assms(2)] by blast
qed

lemma set_authorization_evolves: "setAuthorization kid a m = (r, m') \<Longrightarrow> evolves cfg (store m) (store m')"
  by (auto simp: setAuthorization_def Let_def dest!: read_or_throw_Inr split: sum.splits option.splits
      intro: authorize_evolves)

lemma attach_evolves: "attachDelegation c cfg kid d sig now m = (r, m') \<Longrightarrow> evolves cfg (store m) (store m')"
  by (auto simp: attachDelegation_def Let_def dest!: read_or_throw_Inr validate_None
      split: sum.splits option.splits prod.splits dest: validate_evolves intro: authorize_evolves)

lemma revoke_evolves: "revokeSession kid m = (r, m') \<Longrightarrow> evolves cfg (store m) (store m')"
  by (auto simp: revokeSession_def split: sum.splits intro: evolves_status)

lemma list_evolves:
  "listSessions now m = (r, m') \<Longrightarrow> evolves cfg (store m) (store m')"
  "listActiveSessions now m = (r', m') \<Longrightarrow> evolves cfg (store m) (store m')"
  by (auto simp: listSessions_def listActiveSessions_def split: prod.splits sum.splits intro: evolves_refresh)

lemma raw_evolves:
  "signWithSessionKey c cfg kid h tx clk m = (r, m') \<Longrightarrow> clock_ok clk \<Longrightarrow> evolves cfg (store m) (store m')"
  by (auto simp: signWithSessionKey_def dest!: read_or_throw_Inr split: sum.splits option.splits
      intro: sign_evolves)

lemma verified_evolves:
  "signWithVerifiedOffchainAuthorization c cfg kid build verify h tx clk m = (r, m') \<Longrightarrow> clock_ok clk \<Longrightarrow>
   evolves cfg (store m) (store m')"
  by (auto simp: signWithVerifiedOffchainAuthorization_def dest!: read_or_throw_Inr
      split: sum.splits option.splits prod.splits if_splits
      dest: validate_None validate_evolves intro: sign_evolves)

lemma sign_typed_evolves:
  "sign_typed c cfg k r rail clk m = (res, m') \<Longrightarrow> find_key kid (records m) = Some k \<Longrightarrow> clock_ok clk \<Longrightarrow>
   evolves cfg (store m) (store m')"
  by (auto simp: sign_typed_def split: sum.splits option.splits if_splits intro: sign_evolves)

lemma typed_evolves:
  "signTypedDataWithSessionKey c cfg kid r rail clk m = (res, m') \<Longrightarrow> clock_ok clk \<Longrightarrow>
   evolves cfg (store m) (store m')"
  by (auto simp: signTypedDataWithSessionKey_def dest!: read_or_throw_Inr split: sum.splits
      intro: sign_typed_evolves)

lemma typed_verified_evolves:
  "signTypedDataWithVerifiedOffchainAuthorization c cfg kid build verify r rail clk m = (res, m') \<Longrightarrow>
   clock_ok clk \<Longrightarrow> evolves cfg (store m) (store m')"
  by (auto simp: signTypedDataWithVerifiedOffchainAuthorization_def dest!: read_or_throw_Inr
      split: sum.splits option.splits prod.splits if_splits
      dest: validate_None validate_evolves intro: sign_typed_evolves)

lemma redemption_evolves:
  "signDelegationRedemption c cfg kid h outer x clk m = (r, m') \<Longrightarrow> clock_ok clk \<Longrightarrow>
   evolves cfg (store m) (store m')"
  by (auto simp: signDelegationRedemption_def dest!: read_or_throw_Inr
      split: sum.splits option.splits prod.splits if_splits
      dest: validate_None validate_evolves intro: sign_evolves)

lemma reading_evolves:
  "getSessionBundle c cfg kid now m = (r1, m') \<Longrightarrow> evolves cfg (store m) (store m')"
  "checkSessionScope cfg kid tx clk m = (r2, m') \<Longrightarrow> evolves cfg (store m) (store m')"
  "prepareDelegation c cfg kid chainId sl rnd now m = (r3, m') \<Longrightarrow> evolves cfg (store m) (store m')"
  "buildDelegationRedemption c kid x now m = (r4, m') \<Longrightarrow> evolves cfg (store m) (store m')"
  by (auto simp: getSessionBundle_def checkSessionScope_def prepareDelegation_def buildDelegationRedemption_def
      Let_def split: sum.splits option.splits prod.splits dest: validate_evolves)

lemma check_evolves: "evolves cfg (store m) (store (snd (checkSessionScope cfg kid tx clk m)))"
  by (cases "checkSessionScope cfg kid tx clk m") (auto dest: reading_evolves)

lemma answer_eq: "answer f rm = (ev, m') \<longleftrightarrow> (\<exists>r. rm = (r, m') \<and> ev = (case r of Inl e \<Rightarrow> Failed e | Inr x \<Rightarrow> f x))"
  by (cases rm) (auto simp: answer_def split: sum.splits)

text \<open>The next lemma is what every invariant of a run rests on.\<close>

lemma step_evolves:
  assumes "mgr_step c cfg m ev m'"
  shows "evolves cfg (store m) (store m') \<or>
    (\<exists>k. ev = Created (key_id k) \<and> fresh_key k \<and> set (records m') \<subseteq> insert k (set (records m)))"
  using assms
proof (rule mgr_stepE)
  fix q assume ok: "request_ok q" and ex: "exec c cfg q m = (ev, m')"
  show ?thesis
  proof (cases q)
    case (ReqCreate input signer pk slt nonce uuid now)
    then obtain r where r: "createSessionKey c cfg input signer pk slt nonce uuid now m = (r, m')"
        "ev = (case r of Inl e \<Rightarrow> Failed e | Inr i \<Rightarrow> Created (i_id i))" using ex by (auto simp: answer_eq)
    show ?thesis
    proof (cases r)
      case (Inl e)
      then show ?thesis using r create_Inl by fastforce
    next
      case (Inr i)
      then obtain k where k: "fresh_key k" "key_id k = i_id i" "store_save k (store m) = Inr (store m')"
        using r create_Inr by blast
      then have "set (records m') \<subseteq> insert k (set (records m))"
        using put_key_set by (fastforce simp: store_save_def dest: loadAllStrict_Inr)
      then show ?thesis using k r(2) Inr by auto
    qed
  next
    case (ReqLateExpire kid)
    then show ?thesis using ex by (auto split: sum.splits intro: evolves_status)
  qed (use ok ex in \<open>auto simp: answer_eq clearAll_def evolves_clear check_evolves dest: list_evolves revoke_evolves
      set_authorization_evolves raw_evolves verified_evolves typed_evolves typed_verified_evolves
      redemption_evolves attach_evolves reading_evolves\<close>)
qed

end
