(* ===== verification/Scenario.thy ===== *)
theory Scenario
  imports SessionRuns
begin

text \<open>
  A concrete manager, used to show that the hypotheses of the run theorems can hold: an empty
  store, a key created with a small scope, and requests that sign with it.  The primitives are
  those of \<open>toy_crypto\<close>.
\<close>

definition demo_cfg :: manager_config where
  "demo_cfg = default_config\<lparr>unsafeAllowUnauthorizedSigning := True\<rparr>"

definition demo_empty :: manager where
  "demo_empty = new_manager \<lparr>available = True, writable = True, slot = NoBlob\<rparr>"

definition demo_addr :: "char \<Rightarrow> string" where
  "demo_addr c = ''0x'' @ replicate 40 c"

definition demo_scope :: session_scope where
  "demo_scope =
     \<lparr>expiry = 0, maxTotalGas = None, maxGasPerTx = None, maxTotalValue = Some 100, maxValuePerTx = Some 60,
      maxTxCount = Some 5, allowedContracts = Some [demo_addr CHR ''b''], allowedMethods = None,
      tokenAllowances = None, tokenMaxPerTx = None,
      periodLimits = Some [(''native'', \<lparr>p_amount = 70, p_seconds = 60, p_start = 1\<rparr>)],
      allowedRecipients = None, nativeTransfer = None, allowedChainIds = None,
      rails = Some [''transfer''], mode = Offchain\<rparr>"

definition demo_input :: "session_scope \<Rightarrow> session_mode \<Rightarrow> scope_input option" where
  "demo_input s md = Some \<lparr>in_expiry = Some 5000, in_mode = Some md, in_scope = s\<rparr>"

definition demo_create :: "session_scope \<Rightarrow> session_mode \<Rightarrow> request" where
  "demo_create s md = ReqCreate (demo_input s md) (Some (demo_addr CHR ''a'')) (replicate 32 7) [1] [2] (replicate 16 3) 1000000"

definition demo_id :: string where
  "demo_id = uuidv4 (replicate 16 3)"

definition demo_manager :: "session_scope \<Rightarrow> session_mode \<Rightarrow> manager" where
  "demo_manager s md = snd (exec toy_crypto demo_cfg (demo_create s md) demo_empty)"

definition demo_clock :: clock where
  "demo_clock = \<lparr>clk_request = 1000000, clk_status = 1000000, clk_scope = 1000000, clk_charge = 1000000,
     clk_used = 1000000\<rparr>"

definition demo_tx :: session_tx where
  "demo_tx = empty_tx\<lparr>tx_to := Some (demo_addr CHR ''b''), tx_value := Some ''40''\<rparr>"

definition demo_sign :: request where
  "demo_sign = ReqSign demo_id (''0x'' @ replicate 64 CHR ''1'') demo_tx demo_clock"

definition demo_digest :: string where
  "demo_digest = ''0x'' @ replicate 64 CHR ''1''"

text \<open>A signature of the stand-in primitives over a digest, with the key of the scenario.\<close>

definition demo_signature :: "string \<Rightarrow> string" where
  "demo_signature digest = digest @ concat (replicate 32 ''07'') @ ''1b''"

lemma demo_created: "fst (exec toy_crypto demo_cfg (demo_create demo_scope Offchain) demo_empty) = Created demo_id"
  by code_simp

lemma demo_signed:
  "fst (exec toy_crypto demo_cfg demo_sign (demo_manager demo_scope Offchain)) =
     Signed demo_id (RawDigest demo_tx) (demo_signature demo_digest)"
  by code_simp

section \<open>A typed payment\<close>

definition demo_token :: string where "demo_token = demo_addr CHR ''c''"

definition demo_typed_scope :: session_scope where
  "demo_typed_scope = demo_scope
     \<lparr>allowedContracts := Some [demo_token], tokenAllowances := Some [(demo_token, 1000)],
      tokenMaxPerTx := Some [(demo_token, 500)], periodLimits := None,
      allowedRecipients := Some [demo_addr CHR ''d''], rails := Some [''transfer'', ''x402-exact'']\<rparr>"

definition demo_payment :: typed_data_request where
  "demo_payment =
     \<lparr>r_name = ''USDC'', r_version = ''2'', r_chainId = 8453, r_verifyingContract = demo_token,
      r_primaryType = ''TransferWithAuthorization'', r_from = ''0x'' @ concat (replicate 20 ''07''),
      r_to = demo_addr CHR ''d'', r_value = ''250'', r_validAfter = ''0'', r_validBefore = ''4000'',
      r_nonce = ''0x'' @ replicate 64 CHR ''e''\<rparr>"

definition demo_sign_typed :: request where
  "demo_sign_typed = ReqSignTyped demo_id demo_payment ''x402-exact'' demo_clock"

definition demo_typed_digest :: string where
  "demo_typed_digest = (case typedDataDigest toy_crypto demo_payment of None \<Rightarrow> [] | Some d \<Rightarrow> d)"

lemma demo_typed_signed:
  "fst (exec toy_crypto demo_cfg demo_sign_typed (demo_manager demo_typed_scope Offchain)) =
     Signed demo_id (Typed demo_payment ''x402-exact'') (demo_signature demo_typed_digest)"
  by code_simp

section \<open>A delegated redemption\<close>

definition demo_7702_scope :: session_scope where
  "demo_7702_scope = demo_scope
     \<lparr>allowedContracts := Some [demo_token], allowedMethods := Some [''0xa9059cbb''],
      tokenAllowances := Some [(demo_token, 1000)], periodLimits := None\<rparr>"

definition no_delegation :: framework_delegation where
  "no_delegation =
     \<lparr>d_chainId = 0, d_delegate = [], d_delegator = [], d_authority = [], d_caveats = [], d_salt = 0, d_signature = []\<rparr>"

definition demo_delegation :: framework_delegation where
  "demo_delegation =
     (case fst (prepareDelegation toy_crypto demo_cfg demo_id 8453 (Some 9) 0 1000000 (demo_manager demo_7702_scope Eip7702)) of
        Inl e \<Rightarrow> no_delegation | Inr d \<Rightarrow> d)"

definition demo_owner_signature :: string where
  "demo_owner_signature = ''0x'' @ concat (replicate 64 ''aa'') @ ''1b''"

definition demo_attach :: request where
  "demo_attach = ReqAttach demo_id demo_delegation demo_owner_signature 1000000"

definition demo_attached :: manager where
  "demo_attached = snd (exec toy_crypto demo_cfg demo_attach (demo_manager demo_7702_scope Eip7702))"

definition demo_execution :: framework_execution where
  "demo_execution =
     \<lparr>x_target = demo_token, x_value = 0,
      x_callData = ''0xa9059cbb'' @ replicate 24 CHR ''0'' @ replicate 40 CHR ''d'' @ replicate 61 CHR ''0'' @ ''0ff''\<rparr>"

text \<open>The same key with a short permission context, which is quick to evaluate.\<close>

definition demo_redeemer :: manager where
  "demo_redeemer =
     (let m = demo_manager demo_7702_scope Eip7702;
          auth = \<lparr>a_authorization = Some ''0x00'', a_rawSignature = None, a_message = None,
                  a_signerAddress = demo_addr CHR ''a'', a_type = Eip7702, a_delegationChainId = Some 8453\<rparr>
      in m\<lparr>store := (store m)\<lparr>slot := Records (map (\<lambda>k. k\<lparr>authorization := auth\<rparr>) (records m))\<rparr>\<rparr>)"

definition demo_outer :: session_tx where
  "demo_outer =
     (case fst (buildDelegationRedemption toy_crypto demo_id demo_execution 1000000 demo_redeemer) of
        Inl e \<Rightarrow> empty_tx
      | Inr t \<Rightarrow> \<lparr>tx_to = Some (rt_to t), tx_value = Some (rt_value t), tx_data = Some (rt_data t),
                   tx_chainId = Some (rt_chainId t), tx_gas = None\<rparr>)"

definition demo_sign_redemption :: request where
  "demo_sign_redemption = ReqSignRedemption demo_id demo_digest demo_outer demo_execution demo_clock"

lemma demo_redemption_signed:
  "fst (exec toy_crypto demo_cfg demo_sign_redemption demo_redeemer) =
     Signed demo_id (Redemption demo_outer demo_execution) (demo_signature demo_digest)"
  by code_simp

lemma demo_requests_ok:
  "request_ok (demo_create s md)" "request_ok demo_sign" "request_ok demo_sign_typed" "request_ok demo_sign_redemption"
  by (simp_all add: demo_create_def demo_sign_def demo_sign_typed_def demo_sign_redemption_def clock_ok_def demo_clock_def)

lemmas demo_steps =
  exec_step [OF demo_requests_ok(1) demo_created, folded demo_manager_def]
  exec_step [OF demo_requests_ok(2) demo_signed]
  exec_step [OF demo_requests_ok(3) demo_typed_signed]
  exec_step [OF demo_requests_ok(4) demo_redemption_signed]

end
