(* ===== verification/SessionSafety.thy ===== *)
theory SessionSafety
  imports Scenario
begin

text \<open>
  The promises of the session-key manager, over all its operations: limits hold in every state a
  run reaches, every signature is accounted for, a retired key never signs again, and each way of
  asking for a signature is confined to what its scope allows.
\<close>

section \<open>Invariants of runs\<close>

lemma step_invariant:
  assumes st: "mgr_step c cfg m ev m'" and all: "\<forall>k \<in> set (records m). P k"
    and life: "\<And>k k'. key_step cfg k k' \<Longrightarrow> P k \<Longrightarrow> P k'"
    and new: "\<And>k. ev = Created (key_id k) \<Longrightarrow> fresh_key k \<Longrightarrow> P k"
  shows "\<forall>k \<in> set (records m'). P k"
proof -
  have run: "(key_step cfg)\<^sup>*\<^sup>* k k' \<Longrightarrow> P k \<Longrightarrow> P k'" for k k'
    by (induction rule: rtranclp_induct) (auto intro: life)
  show ?thesis
    using step_evolves [OF st] all run new unfolding evolves_def by blast
qed

lemma run_invariant:
  assumes "mgr_run c cfg m evs m'" "\<forall>k \<in> set (records m). P k"
    and "\<And>k k'. key_step cfg k k' \<Longrightarrow> P k \<Longrightarrow> P k'"
    and "\<And>k. Created (key_id k) \<in> set evs \<Longrightarrow> fresh_key k \<Longrightarrow> P k"
  shows "\<forall>k \<in> set (records m'). P k"
  using assms
proof (induction rule: mgr_run.induct)
  case (run_snoc m evs m' ev m'')
  have "\<forall>k \<in> set (records m'). P k"
    using run_snoc.prems(3) by (intro run_snoc.IH [OF run_snoc.prems(1,2)]) simp_all
  then show ?case
    by (rule step_invariant [OF run_snoc.hyps(2) _ run_snoc.prems(2)]) (use run_snoc.prems(3) in simp_all)
qed simp

definition sound_key :: "stored_key \<Rightarrow> bool" where
  "sound_key k \<longleftrightarrow> wf_scope (scope k) \<and> within_limits k"

lemma fresh_sound: "fresh_key k \<Longrightarrow> sound_key k"
  using wf_period_pos [of "scope k"]
  by (auto simp: fresh_key_def sound_key_def within_limits_def windows_within_def wf_scope_def wf_budgets_def
      wf_tokens_def accumulatedTokenSpend_def period_spent_def entry_ci_def dest!: find_SomeD less_imp_le)

lemma sound_step: "key_step cfg k k' \<Longrightarrow> sound_key k \<Longrightarrow> sound_key k'"
  using within_limits_run [of cfg k k'] key_run_scope [of cfg k k'] by (simp add: sound_key_def r_into_rtranclp)



section \<open>The ways to a signature\<close>

text \<open>The transaction whose scope check stands behind a signature.\<close>

definition route_tx :: "stored_key \<Rightarrow> route \<Rightarrow> session_tx" where
  "route_tx k route =
     (case route of
        RawDigest tx \<Rightarrow> tx
      | Typed r rail \<Rightarrow> typedDataAsTransaction r
      | Redemption outer x \<Rightarrow>
          execution_tx x (or_else (a_delegationChainId (authorization k)) 0) (tx_gas outer))"

text \<open>What each route checks beyond the scope.\<close>

definition route_granted :: "crypto \<Rightarrow> stored_key \<Rightarrow> int \<Rightarrow> route \<Rightarrow> bool" where
  "route_granted c k now route =
     (case route of
        RawDigest tx \<Rightarrow> refuseRawDigestForRecipientScope k = None
      | Typed r rail \<Rightarrow>
          mode (scope k) \<noteq> Eip7702 \<and> typedDataToScopedTransaction c k r rail now = Inr (typedDataAsTransaction r)
      | Redemption outer x \<Rightarrow>
          (\<exists>chainId data. redemptionFor c k x = Inr (chainId, data) \<and> outer_mismatch outer chainId data = None))"

lemma typed_to_tx: "typedDataToScopedTransaction c k r rail now = Inr tx \<Longrightarrow> tx = typedDataAsTransaction r"
  by (auto simp: typedDataToScopedTransaction_def Let_def split: option.splits if_splits)

lemma redemption_chain: "redemptionFor c k x = Inr (chainId, data) \<Longrightarrow> a_delegationChainId (authorization k) = Some chainId"
  by (auto simp: redemptionFor_def Let_def split: option.splits if_splits)

definition signed_by ::
  "crypto \<Rightarrow> manager_config \<Rightarrow> manager \<Rightarrow> string \<Rightarrow> route \<Rightarrow> clock \<Rightarrow> stored_key \<Rightarrow> manager \<Rightarrow> bool" where
  "signed_by c cfg m kid route clk k m' \<longleftrightarrow>
     accounted cfg m kid (route_tx k route) clk k m' \<and> route_granted c k (clk_request clk) route \<and> clock_ok clk"

lemma raw_signed:
  assumes "signWithSessionKey c cfg kid h tx clk m = (Inr sig, m')" "clock_ok clk"
  shows "\<exists>k. signed_by c cfg m kid (RawDigest tx) clk k m'"
proof -
  obtain k where k: "find_key kid (records m) = Some k" "refuseRawDigestForRecipientScope k = None"
      "signStoredSessionKey c cfg k h tx clk m = (Inr sig, m')"
    using assms(1) by (auto simp: signWithSessionKey_def dest!: read_or_throw_Inr split: sum.splits option.splits)
  then show ?thesis
    using sign_success [OF k(3,1)] assms(2) by (auto simp: signed_by_def route_tx_def route_granted_def)
qed

lemma verified_signed:
  assumes "signWithVerifiedOffchainAuthorization c cfg kid build verify h tx clk m = (Inr sig, m')" "clock_ok clk"
  shows "\<exists>k. signed_by c cfg m kid (RawDigest tx) clk k m'"
proof -
  obtain k where k: "find_key kid (records m) = Some k" "refuseRawDigestForRecipientScope k = None"
      "signStoredSessionKey c cfg k h tx clk m = (Inr sig, m')"
    using assms(1)
    by (auto simp: signWithVerifiedOffchainAuthorization_def dest!: read_or_throw_Inr validate_None
        split: sum.splits option.splits prod.splits if_splits)
  then show ?thesis
    using sign_success [OF k(3,1)] assms(2) by (auto simp: signed_by_def route_tx_def route_granted_def)
qed

lemma sign_typed_signed:
  assumes "sign_typed c cfg k r rail clk m = (Inr sig, m')" "find_key kid (records m) = Some k" "clock_ok clk"
  shows "signed_by c cfg m kid (Typed r rail) clk k m'"
proof -
  obtain tx digest where p: "mode (scope k) \<noteq> Eip7702"
      "typedDataToScopedTransaction c k r rail (clk_request clk) = Inr tx"
      "signStoredSessionKey c cfg k digest tx clk m = (Inr sig, m')"
    using assms(1) by (auto simp: sign_typed_def split: sum.splits option.splits if_splits)
  then show ?thesis
    using sign_success [OF p(3) assms(2)] typed_to_tx [OF p(2)] assms(3)
    by (auto simp: signed_by_def route_tx_def route_granted_def)
qed

lemma typed_signed:
  assumes "signTypedDataWithSessionKey c cfg kid r rail clk m = (Inr sig, m')" "clock_ok clk"
  shows "\<exists>k. signed_by c cfg m kid (Typed r rail) clk k m'"
  using assms by (auto simp: signTypedDataWithSessionKey_def dest!: read_or_throw_Inr split: sum.splits
      intro: sign_typed_signed)

lemma typed_verified_signed:
  assumes "signTypedDataWithVerifiedOffchainAuthorization c cfg kid build verify r rail clk m = (Inr sig, m')"
    "clock_ok clk"
  shows "\<exists>k. signed_by c cfg m kid (Typed r rail) clk k m'"
  using assms
  by (auto simp: signTypedDataWithVerifiedOffchainAuthorization_def dest!: read_or_throw_Inr validate_None
      split: sum.splits option.splits prod.splits if_splits intro: sign_typed_signed)

lemma redemption_signed:
  assumes "signDelegationRedemption c cfg kid h outer x clk m = (Inr sig, m')" "clock_ok clk"
  shows "\<exists>k. signed_by c cfg m kid (Redemption outer x) clk k m'"
proof -
  obtain k chainId data where k: "find_key kid (records m) = Some k"
      "redemptionFor c k x = Inr (chainId, data)" "outer_mismatch outer chainId data = None"
      "signStoredSessionKey c cfg k h (execution_tx x chainId (tx_gas outer)) clk m = (Inr sig, m')"
    using assms(1)
    by (auto simp: signDelegationRedemption_def dest!: read_or_throw_Inr validate_None
        split: sum.splits option.splits prod.splits if_splits)
  then show ?thesis
    using sign_success [OF k(4,1)] redemption_chain [OF k(2)] assms(2)
    by (intro exI [of _ k]) (auto simp: signed_by_def route_tx_def route_granted_def)
qed

lemma answer_Signed:
  "answer f rm = (Signed kid route sig, m') \<longleftrightarrow> (\<exists>x. rm = (Inr x, m') \<and> f x = Signed kid route sig)"
  "answer f rm = (Released bd, m') \<longleftrightarrow> (\<exists>x. rm = (Inr x, m') \<and> f x = Released bd)"
  by (cases rm; cases "fst rm"; auto simp: answer_def)+

text \<open>Every signature a step returns comes from one of these routes.\<close>

lemma signed_step:
  assumes "mgr_step c cfg m (Signed kid route sig) m'"
  shows "\<exists>k clk. signed_by c cfg m kid route clk k m'"
  using assms
proof (rule mgr_stepE)
  fix q assume "request_ok q" "exec c cfg q m = (Signed kid route sig, m')"
  then show ?thesis
    by (cases q; auto simp: answer_Signed; blast
        dest: raw_signed verified_signed typed_signed typed_verified_signed redemption_signed)
qed

lemmas signed_defs = signed_by_def accounted_def route_tx_def route_granted_def



section \<open>Retired keys\<close>

definition retired :: "string \<Rightarrow> stored_key \<Rightarrow> bool" where
  "retired kid k \<longleftrightarrow> (key_id k = kid \<longrightarrow> status k \<noteq> Active)"

lemma retired_step: "key_step cfg k k' \<Longrightarrow> retired kid k \<Longrightarrow> retired kid k'"
  by (cases rule: key_step.cases) (auto simp: retired_def dest: charge_key_id)

lemma released_step:
  assumes "mgr_step c cfg m (Released bd) m'"
  shows "\<exists>k now. find_key (b_id bd) (records m) = Some k \<and> status_fault k now = None \<and>
    refuseRawDigestForRecipientScope k = None \<and> b_scope bd = scope k"
  using assms
proof (rule mgr_stepE)
  fix q assume "request_ok q" "exec c cfg q m = (Released bd, m')"
  then obtain kid now where "getSessionBundle c cfg kid now m = (Inr bd, m')"
    by (cases q) (auto simp: answer_Signed)
  then show ?thesis
    by (auto simp: getSessionBundle_def Let_def bundle_of_def dest!: read_or_throw_Inr validate_None
        split: sum.splits option.splits prod.splits)
qed

lemma active_used:
  "mgr_step c cfg m (Signed kid route sig) m' \<Longrightarrow> \<exists>k \<in> set (records m). key_id k = kid \<and> status k = Active"
  "mgr_step c cfg m (Released bd) m' \<Longrightarrow> \<exists>k \<in> set (records m). key_id k = b_id bd \<and> status k = Active"
proof -
  have active: "status k = Active" if "status_fault k now = None" for k now
    using that by (cases "status k") (auto simp: status_fault_def)
  show "\<exists>k \<in> set (records m). key_id k = kid \<and> status k = Active"
    if st: "mgr_step c cfg m (Signed kid route sig) m'"
  proof -
    obtain k and clk :: clock where "find_key kid (records m) = Some k" "status_fault k (clk_status clk) = None"
      using signed_step [OF st] unfolding signed_by_def accounted_def by blast
    then show ?thesis using active find_key_in find_key_id by blast
  qed
  show "\<exists>k \<in> set (records m). key_id k = b_id bd \<and> status k = Active"
    if st: "mgr_step c cfg m (Released bd) m'"
    using released_step [OF st] active find_key_in find_key_id by blast
qed

text \<open>
  C3: revocation is final.  Once no record of an identifier is active (it was revoked, it expired,
  or the store was cleared), no later operation, in any order, returns a signature by that key or
  releases its private key, as long as the identifier is not drawn again for a new key.
\<close>

theorem retired_never_signs:
  assumes "mgr_run c cfg m evs m'" "\<forall>k \<in> set (records m). retired kid k" "Created kid \<notin> set evs"
  shows "Signed kid route sig \<notin> set evs \<and> (\<forall>bd. Released bd \<in> set evs \<longrightarrow> b_id bd \<noteq> kid)"
  using assms
proof (induction rule: mgr_run.induct)
  case (run_snoc m evs m' ev m'')
  have "\<forall>k \<in> set (records m'). retired kid k"
    using run_snoc.hyps(1) run_snoc.prems(1)
    by (rule run_invariant) (use retired_step run_snoc.prems(2) in \<open>auto simp: retired_def\<close>)
  then have "ev \<noteq> Signed kid route sig" "\<forall>bd. ev = Released bd \<longrightarrow> b_id bd \<noteq> kid"
    using active_used(1) [of c cfg m' kid route sig m''] active_used(2) [of c cfg m' _ m''] run_snoc.hyps(2)
    by (auto simp: retired_def)
  then show ?case using run_snoc.IH run_snoc.prems by auto
qed simp

lemma retired_never_signs_witness:
  "Signed demo_id (RawDigest demo_tx) (demo_signature demo_digest) \<notin>
     set [fst (exec toy_crypto demo_cfg demo_sign
       (snd (exec toy_crypto demo_cfg (ReqRevoke demo_id) (demo_manager demo_scope Offchain))))]"
proof -
  let ?m = "snd (exec toy_crypto demo_cfg (ReqRevoke demo_id) (demo_manager demo_scope Offchain))"
  let ?ev = "fst (exec toy_crypto demo_cfg demo_sign ?m)"
  note run = run_snoc [OF run_nil exec_step [OF demo_requests_ok(2) refl, of toy_crypto demo_cfg ?m]]
  have "list_all (\<lambda>k. status k \<noteq> Active) (records ?m)" by code_simp
  then have r: "\<forall>k \<in> set (records ?m). retired demo_id k" by (simp add: list_all_iff retired_def)
  have "(case ?ev of Failed e \<Rightarrow> True | _ \<Rightarrow> False)" by code_simp
  then have "Created demo_id \<notin> set ([] @ [?ev])" by (auto split: event.splits)
  with retired_never_signs [OF run r] show ?thesis by auto
qed

section \<open>What each route allows\<close>

definition plain_scope :: "session_scope \<Rightarrow> bool" where
  "plain_scope s \<longleftrightarrow> rails s = Some [''transfer''] \<and> \<not> nonempty (allowedRecipients s) \<and> mode s \<noteq> Eip7702"

lemma transfer_only:
  assumes "hasValidSessionKeyRails rs" "\<not> opt_any (\<lambda>r. r \<in> set eip3009_rails) rs"
  shows "rs = Some [''transfer'']"
proof -
  obtain xs where xs: "rs = Some xs" "xs \<noteq> []" "distinct xs" "\<forall>r \<in> set xs. r \<in> set session_key_rails"
    using assms(1) by (auto simp: hasValidSessionKeyRails_def split: option.splits)
  then have "\<forall>r \<in> set xs. r = ''transfer''"
    using assms(2) by (auto simp: session_key_rails_def eip3009_rails_def)
  then have "xs = [''transfer'']"
    using xs(2,3) by (cases xs; cases "tl xs") auto
  then show ?thesis using xs(1) by simp
qed

lemma refuse_raw_None: "refuseRawDigestForRecipientScope k = None \<Longrightarrow> plain_scope (scope k)"
  using transfer_only by (auto simp: refuseRawDigestForRecipientScope_def plain_scope_def)

text \<open>
  C5: an opaque digest is signed, and a private key is released, only for plain transfers.  If a
  raw-digest operation returns a signature or \<open>getSessionBundle\<close> the key, the scope's only rail is
  \<open>transfer\<close>, it names no recipients, and its mode is not \<open>eip7702\<close>: a recipient list or a payment
  rail can never be bypassed through a digest the manager cannot read.
\<close>

theorem opaque_only_for_plain_scopes:
  assumes "mgr_step c cfg m ev m'" "ev = Signed kid (RawDigest tx) sig \<or> ev = Released bd \<and> b_id bd = kid"
  shows "\<exists>k. find_key kid (records m) = Some k \<and> plain_scope (scope k)"
  using assms(2)
proof
  assume "ev = Signed kid (RawDigest tx) sig"
  then show ?thesis
    using signed_step assms(1) refuse_raw_None
    by (fastforce simp: signed_by_def accounted_def route_granted_def)
next
  assume "ev = Released bd \<and> b_id bd = kid"
  then show ?thesis using released_step assms(1) refuse_raw_None by blast
qed

lemma opaque_only_for_plain_scopes_witness:
  "\<exists>k. find_key demo_id (records (demo_manager demo_scope Offchain)) = Some k \<and> plain_scope (scope k)"
  using opaque_only_for_plain_scopes [OF demo_steps(2), of demo_id demo_tx "demo_signature demo_digest"] by blast





end
