(* ===== verification/AdapterLock.thy ===== *)
theory AdapterLock
  imports Prelude
begin

text \<open>
  The lock of the session-key stores: \<open>withAdapterLock\<close> (session-keys/storage.ts, in-process part) and
  \<open>withSessionLock\<close> (SessionKeyManager.ts), which chain each operation behind the gate of the one
  enqueued before it.  The events of any number of concurrent tasks interleave freely; a task reads
  the shared record when its operation starts and writes it when the operation ends.  Proved:
  mutual exclusion, first-in first-out order, progress, and that the record always is what running
  the operations one after the other, in the order of their calls, would have made it.
\<close>

section \<open>The state machine\<close>

text \<open>
  A task is its number; its gate has the same number.  \<open>Waiting p\<close> awaits the gate \<open>p\<close> it found in the
  map, \<open>Running d\<close> is inside the operation, having read \<open>d\<close>.
\<close>

datatype 'd phase = Idle | Waiting "nat option" | Running 'd | Done

record 'd lock_state =
  tail_gate :: "nat option"
  released :: "nat list"
  phase_of :: "nat \<Rightarrow> 'd phase"
  shared :: 'd
  arrivals :: "nat list"

definition lock_init :: "'d \<Rightarrow> 'd lock_state" where
  "lock_init d = \<lparr>tail_gate = None, released = [], phase_of = (\<lambda>_. Idle), shared = d, arrivals = []\<rparr>"

text \<open>\<open>previous = locks.get(key); locks.set(key, gate)\<close>.\<close>

definition enqueue :: "nat \<Rightarrow> 'd lock_state \<Rightarrow> 'd lock_state" where
  "enqueue t s = s\<lparr>tail_gate := Some t, phase_of := (phase_of s)(t := Waiting (tail_gate s)),
                   arrivals := arrivals s @ [t]\<rparr>"

text \<open>\<open>await previous\<close> has resolved: the operation starts.\<close>

definition enter :: "nat \<Rightarrow> 'd lock_state \<Rightarrow> 'd lock_state" where
  "enter t s = s\<lparr>phase_of := (phase_of s)(t := Running (shared s))\<rparr>"

definition may_enter :: "nat \<Rightarrow> 'd lock_state \<Rightarrow> bool" where
  "may_enter t s =
     (case phase_of s t of
        Waiting None \<Rightarrow> True
      | Waiting (Some p) \<Rightarrow> p \<in> set (released s)
      | _ \<Rightarrow> False)"

text \<open>The operation ends: \<open>release()\<close>, and the map entry goes if it is still this gate.\<close>

definition leave :: "nat \<Rightarrow> 'd \<Rightarrow> 'd lock_state \<Rightarrow> 'd lock_state" where
  "leave t d s =
     s\<lparr>released := t # released s,
       tail_gate := (if tail_gate s = Some t then None else tail_gate s),
       phase_of := (phase_of s)(t := Done), shared := d\<rparr>"

inductive lock_step :: "(nat \<Rightarrow> 'd \<Rightarrow> 'd) \<Rightarrow> 'd lock_state \<Rightarrow> 'd lock_state \<Rightarrow> bool" for work where
  arrive: "phase_of s t = Idle \<Longrightarrow> lock_step work s (enqueue t s)"
| start: "may_enter t s \<Longrightarrow> lock_step work s (enter t s)"
| finish: "phase_of s t = Running d \<Longrightarrow> lock_step work s (leave t (work t d) s)"

inductive_cases lock_stepE: "lock_step work s s'"

abbreviation lock_run :: "(nat \<Rightarrow> 'd \<Rightarrow> 'd) \<Rightarrow> 'd lock_state \<Rightarrow> 'd lock_state \<Rightarrow> bool" where
  "lock_run work \<equiv> (lock_step work)\<^sup>*\<^sup>*"

section \<open>The invariant\<close>

text \<open>
  The tasks that have arrived split into those done and a queue, in order of arrival.  Each task of
  the queue behind the first waits for the one before it; the first waits for nothing, or for a
  gate already released, or runs on the current record.
\<close>

fun chained :: "(nat \<Rightarrow> 'd phase) \<Rightarrow> nat list \<Rightarrow> bool" where
  "chained ph (t # u # q) = (ph u = Waiting (Some t) \<and> chained ph (u # q))"
| "chained ph q = True"

definition head_ready :: "'d lock_state \<Rightarrow> nat list \<Rightarrow> bool" where
  "head_ready s q =
     (case q of [] \<Rightarrow> True
      | t # _ \<Rightarrow> may_enter t s \<or> phase_of s t = Running (shared s))"

definition lock_inv :: "(nat \<Rightarrow> 'd \<Rightarrow> 'd) \<Rightarrow> 'd \<Rightarrow> 'd lock_state \<Rightarrow> bool" where
  "lock_inv work d0 s \<longleftrightarrow>
     (\<exists>q. arrivals s = rev (released s) @ q \<and> distinct (arrivals s) \<and>
        (\<forall>t. phase_of s t = Idle \<longleftrightarrow> t \<notin> set (arrivals s)) \<and>
        (\<forall>t. phase_of s t = Done \<longleftrightarrow> t \<in> set (released s)) \<and>
        tail_gate s = (if q = [] then None else Some (last q)) \<and>
        chained (phase_of s) q \<and> head_ready s q \<and>
        shared s = fold work (rev (released s)) d0)"

lemma lock_invE:
  assumes "lock_inv work d0 s"
  obtains q where "arrivals s = rev (released s) @ q" "distinct (arrivals s)"
      "\<forall>t. phase_of s t = Idle \<longleftrightarrow> t \<notin> set (arrivals s)" "\<forall>t. phase_of s t = Done \<longleftrightarrow> t \<in> set (released s)"
      "tail_gate s = (if q = [] then None else Some (last q))"
      "chained (phase_of s) q" "head_ready s q" "shared s = fold work (rev (released s)) d0"
  using assms unfolding lock_inv_def by blast

lemma chained_other: "t \<notin> set q \<Longrightarrow> chained (ph(t := x)) q = chained ph q"
  by (induction ph q rule: chained.induct) auto

lemma chained_tl: "t \<notin> set q \<Longrightarrow> chained ph (t # q) \<Longrightarrow> chained (ph(t := x)) (t # q)"
  by (cases q) (auto simp: chained_other)

lemma chained_snoc:
  "chained ph q \<Longrightarrow> t \<notin> set q \<Longrightarrow> q \<noteq> [] \<Longrightarrow> chained (ph(t := Waiting (Some (last q)))) (q @ [t])"
  by (induction ph q rule: chained.induct) auto

lemma chained_member:
  "chained ph (t # q) \<Longrightarrow> u \<in> set q \<Longrightarrow> \<exists>p \<in> set (t # q). ph u = Waiting (Some p)"
  by (induction q arbitrary: t) auto

lemma lock_inv_init: "lock_inv work d (lock_init d)"
  by (auto simp: lock_inv_def lock_init_def head_ready_def)

lemma in_queue:
  assumes "arrivals s = rev (released s) @ q" "\<forall>t. phase_of s t = Idle \<longleftrightarrow> t \<notin> set (arrivals s)"
    "\<forall>t. phase_of s t = Done \<longleftrightarrow> t \<in> set (released s)" "phase_of s t \<noteq> Idle" "phase_of s t \<noteq> Done"
  shows "t \<in> set q"
  using assms by (metis UnE set_append set_rev)

text \<open>Only the head of the queue can start or be running.\<close>

lemma head_only:
  assumes inv: "arrivals s = rev (released s) @ q" "distinct (arrivals s)" "chained (phase_of s) q"
    and t: "t \<in> set q" "may_enter t s \<or> phase_of s t = Running d"
  shows "\<exists>q'. q = t # q'"
proof (cases q)
  case (Cons h q')
  show ?thesis
  proof (cases "t = h")
    case False
    then have "t \<in> set q'" using t(1) Cons by simp
    then obtain p where p: "p \<in> set q" "phase_of s t = Waiting (Some p)"
      using chained_member [of "phase_of s" h q' t] inv(3) Cons by auto
    then have "p \<in> set (released s)" using t(2) by (simp add: may_enter_def)
    then have "\<not> distinct (arrivals s)" using p(1) inv(1) by auto
    then show ?thesis using inv(2) by simp
  qed (use Cons in auto)
qed (use t in auto)

lemma lock_inv_arrive:
  assumes inv: "lock_inv work d0 s" and idle: "phase_of s t = Idle"
  shows "lock_inv work d0 (enqueue t s)"
proof -
  obtain q where q: "arrivals s = rev (released s) @ q" "distinct (arrivals s)"
      "\<forall>t. phase_of s t = Idle \<longleftrightarrow> t \<notin> set (arrivals s)" "\<forall>t. phase_of s t = Done \<longleftrightarrow> t \<in> set (released s)"
      "tail_gate s = (if q = [] then None else Some (last q))"
      "chained (phase_of s) q" "head_ready s q" "shared s = fold work (rev (released s)) d0"
    using inv by (rule lock_invE)
  have t: "t \<notin> set (arrivals s)" "t \<notin> set q" "t \<notin> set (released s)" using idle q by auto
  have c: "chained (phase_of (enqueue t s)) (q @ [t])"
    using q(5,6) t(2) by (cases "q = []") (auto simp: enqueue_def chained_snoc)
  have h: "head_ready (enqueue t s) (q @ [t])"
    using q(5,7) t(2) by (cases q) (auto simp: head_ready_def enqueue_def may_enter_def split: phase.splits option.splits)
  show ?thesis
    unfolding lock_inv_def
    by (rule exI [of _ "q @ [t]"]) (use q t c h in \<open>auto simp: enqueue_def\<close>)
qed

lemma lock_inv_start:
  assumes inv: "lock_inv work d0 s" and may: "may_enter t s"
  shows "lock_inv work d0 (enter t s)"
proof -
  obtain q where q: "arrivals s = rev (released s) @ q" "distinct (arrivals s)"
      "\<forall>t. phase_of s t = Idle \<longleftrightarrow> t \<notin> set (arrivals s)" "\<forall>t. phase_of s t = Done \<longleftrightarrow> t \<in> set (released s)"
      "tail_gate s = (if q = [] then None else Some (last q))"
      "chained (phase_of s) q" "head_ready s q" "shared s = fold work (rev (released s)) d0"
    using inv by (rule lock_invE)
  have ph: "phase_of s t \<noteq> Idle" "phase_of s t \<noteq> Done"
    using may by (auto simp: may_enter_def split: phase.splits)
  then have "t \<in> set q" using in_queue [OF q(1,3,4)] by blast
  then obtain q' where q': "q = t # q'" using head_only [OF q(1,2,6)] may by blast
  then have t: "t \<notin> set q'" "t \<notin> set (released s)" using q(1,2) by auto
  have "chained (phase_of (enter t s)) q" using chained_tl [OF t(1)] q(6) q' by (simp add: enter_def)
  moreover have "head_ready (enter t s) q" using q' by (simp add: head_ready_def enter_def)
  moreover have "\<forall>u. phase_of (enter t s) u = Idle \<longleftrightarrow> u \<notin> set (arrivals s)"
    using q(1,3) q' by (auto simp: enter_def)
  moreover have "\<forall>u. phase_of (enter t s) u = Done \<longleftrightarrow> u \<in> set (released s)"
    using q(4) t(2) by (auto simp: enter_def)
  ultimately show ?thesis
    unfolding lock_inv_def using q(1,2,5,8) by (intro exI [of _ q]) (auto simp: enter_def)
qed

lemma lock_inv_finish:
  assumes inv: "lock_inv work d0 s" and run: "phase_of s t = Running d"
  shows "lock_inv work d0 (leave t (work t d) s) \<and> d = shared s"
proof -
  obtain q where q: "arrivals s = rev (released s) @ q" "distinct (arrivals s)"
      "\<forall>t. phase_of s t = Idle \<longleftrightarrow> t \<notin> set (arrivals s)" "\<forall>t. phase_of s t = Done \<longleftrightarrow> t \<in> set (released s)"
      "tail_gate s = (if q = [] then None else Some (last q))"
      "chained (phase_of s) q" "head_ready s q" "shared s = fold work (rev (released s)) d0"
    using inv by (rule lock_invE)
  let ?s = "leave t (work t d) s"
  have "t \<in> set q" using in_queue [OF q(1,3,4)] run by simp
  then obtain q' where q': "q = t # q'" using head_only [OF q(1,2,6), of t d] run by blast
  then have t: "t \<notin> set q'" "t \<notin> set (released s)" using q(1,2) by auto
  have d: "d = shared s" using q(7) run q' by (auto simp: head_ready_def may_enter_def)
  have "chained (phase_of ?s) q'"
    using q(6) q' t(1) by (cases q') (auto simp: leave_def chained_other)
  moreover have "head_ready ?s q'"
    using q(6) q' t(1) by (cases q') (auto simp: head_ready_def leave_def may_enter_def)
  moreover have "tail_gate ?s = (if q' = [] then None else Some (last q'))"
    using q(5) q' t(1) last_in_set [of q'] by (cases "q' = []") (auto simp: leave_def)
  moreover have "\<forall>u. phase_of ?s u = Idle \<longleftrightarrow> u \<notin> set (arrivals s)"
    using q(1,3) q' by (auto simp: leave_def)
  moreover have "\<forall>u. phase_of ?s u = Done \<longleftrightarrow> u \<in> set (t # released s)"
    using q(4) by (auto simp: leave_def)
  ultimately have "lock_inv work d0 ?s"
    unfolding lock_inv_def using q(1,2,8) q' d by (intro exI [of _ q']) (auto simp: leave_def)
  then show ?thesis using d by simp
qed

lemma lock_inv_run:
  assumes "lock_run work s s'" "lock_inv work d0 s"
  shows "lock_inv work d0 s'"
  using assms
proof (induction rule: rtranclp_induct)
  case (step y z)
  then have "lock_inv work d0 y" by simp
  with step.hyps(2) show ?case
    by (cases rule: lock_step.cases) (auto intro: lock_inv_arrive lock_inv_start dest: lock_inv_finish)
qed

section \<open>What the lock promises\<close>

text \<open>
  C12: mutual exclusion.  However the tasks interleave, no two of them are inside the locked
  operation at once, and the one inside works on the current record, not on a stale copy.
\<close>

theorem lock_mutual_exclusion:
  assumes "lock_run work (lock_init d0) s" "phase_of s t = Running d" "phase_of s u = Running e"
  shows "t = u \<and> d = shared s"
proof -
  have inv: "lock_inv work d0 s" using lock_inv_run [OF assms(1) lock_inv_init] .
  then obtain q where q: "arrivals s = rev (released s) @ q" "distinct (arrivals s)"
      "\<forall>t. phase_of s t = Idle \<longleftrightarrow> t \<notin> set (arrivals s)" "\<forall>t. phase_of s t = Done \<longleftrightarrow> t \<in> set (released s)"
      "chained (phase_of s) q"
    by (rule lock_invE) (rule that)
  have "t \<in> set q" "u \<in> set q" using in_queue [OF q(1,3,4)] assms(2,3) by simp_all
  then obtain q1 q2 where "q = t # q1" "q = u # q2"
    using head_only [OF q(1,2,5)] assms(2,3) by blast
  then show ?thesis using lock_inv_finish [OF inv assms(2)] by simp
qed

text \<open>
  C13: no update is lost and none is reordered.  At every moment the record is the result of
  running, one after the other on the initial record, the operations that have finished, and these
  are the first ones in the order in which the operations were requested.
\<close>

theorem lock_serializes:
  assumes "lock_run work (lock_init d0) s"
  shows "shared s = fold work (take (length (released s)) (arrivals s)) d0 \<and> distinct (arrivals s)"
proof -
  obtain q where "arrivals s = rev (released s) @ q" "distinct (arrivals s)"
      "shared s = fold work (rev (released s)) d0"
    using lock_inv_run [OF assms lock_inv_init] by (rule lock_invE) (rule that)
  then show ?thesis by simp
qed

text \<open>
  C14: the lock never deadlocks.  As long as a requested operation has not finished, some task can
  start or finish: the queue behind a failed or slow operation is never stuck once it ends.
\<close>

theorem lock_progress:
  assumes "lock_run work (lock_init d0) s" "t \<in> set (arrivals s)" "phase_of s t \<noteq> Done"
  shows "\<exists>u. may_enter u s \<or> phase_of s u = Running (shared s)"
proof -
  obtain q where q: "arrivals s = rev (released s) @ q"
      "\<forall>t. phase_of s t = Done \<longleftrightarrow> t \<in> set (released s)" "head_ready s q"
    using lock_inv_run [OF assms(1) lock_inv_init] by (rule lock_invE) (rule that)
  then have "t \<notin> set (released s)" using assms(3) by blast
  then have "q \<noteq> []" using assms(2) q(1) by auto
  then obtain h q' where "q = h # q'" by (cases q) simp_all
  then have "may_enter h s \<or> phase_of s h = Running (shared s)" using q(3) by (simp add: head_ready_def)
  then show ?thesis by (rule exI)
qed

section \<open>Witnesses\<close>

text \<open>Two increments requested at once: the first has finished, the second runs.\<close>

definition two_tasks :: "int lock_state" where
  "two_tasks = enter 8 (leave 7 (5 + 7) (enter 7 (enqueue 8 (enqueue 7 (lock_init 5)))))"

lemma two_tasks_run: "lock_run (\<lambda>t d. d + int t) (lock_init 5) two_tasks"
proof -
  let ?w = "\<lambda>t d. d + int t"
  let ?a = "enqueue 7 (lock_init (5::int))" let ?b = "enqueue 8 ?a" let ?c = "enter 7 ?b"
  let ?d = "leave 7 (?w 7 5) ?c"
  have "lock_step ?w (lock_init 5) ?a" by (rule lock_step.arrive) (simp add: lock_init_def)
  moreover have "lock_step ?w ?a ?b" by (rule lock_step.arrive) (simp add: lock_init_def enqueue_def)
  moreover have "lock_step ?w ?b ?c"
    by (rule lock_step.start) (simp add: lock_init_def enqueue_def may_enter_def)
  moreover have "lock_step ?w ?c ?d"
    by (rule lock_step.finish) (simp add: lock_init_def enqueue_def enter_def)
  moreover have "lock_step ?w ?d (enter 8 ?d)"
    by (rule lock_step.start) (simp add: lock_init_def enqueue_def enter_def leave_def may_enter_def)
  ultimately show ?thesis unfolding two_tasks_def by (simp add: rtranclp.rtrancl_into_rtrancl)
qed

lemma two_tasks_phase: "phase_of two_tasks 8 = Running 12" "arrivals two_tasks = [7, 8]" "released two_tasks = [7]"
  by (simp_all add: two_tasks_def lock_init_def enqueue_def enter_def leave_def)

lemma lock_mutual_exclusion_witness: "shared two_tasks = 12"
  using lock_mutual_exclusion [OF two_tasks_run two_tasks_phase(1) two_tasks_phase(1)] by simp

lemma lock_serializes_witness: "shared two_tasks = fold (\<lambda>t d. d + int t) [7] 5"
  using lock_serializes [OF two_tasks_run] by (simp add: two_tasks_phase)

lemma lock_progress_witness: "\<exists>u. may_enter u two_tasks \<or> phase_of two_tasks u = Running (shared two_tasks)"
  using lock_progress [OF two_tasks_run, of 8] by (simp add: two_tasks_phase)

end
