(* ===== verification/Caip.thy ===== *)
theory Caip
  imports Addresses
begin

text \<open>
  packages/core/src/caip.ts with \<open>parseChainId\<close> and \<open>validateChainId\<close> of
  session-manager/types.ts: reading CAIP-2 chain identifiers and CAIP-10 accounts.  A thrown error
  is \<open>Inl\<close> its message, \<open>null\<close> and \<open>undefined\<close> are \<open>None\<close>.  A chain number is a JavaScript number: a
  decimal text is accepted only when its value is a safe integer, where \<open>Number(text)\<close> is exact.
\<close>

section \<open>CAIP-2\<close>

record caip2 =
  c2_namespace :: string
  c2_reference :: string

definition parseChainId :: "string \<Rightarrow> string + caip2" where
  "parseChainId chainId =
     (case split_on CHR '':'' chainId of
        [n, r] \<Rightarrow>
          if n \<noteq> [] \<and> r \<noteq> [] then Inr \<lparr>c2_namespace = n, c2_reference = r\<rparr>
          else Inl (''Invalid CAIP-2 chain ID: '' @ chainId)
      | _ \<Rightarrow> Inl (''Invalid CAIP-2 chain ID: '' @ chainId))"

text \<open>\<open>/^[1-9A-HJ-NP-Za-km-z]{32}$/\<close>.\<close>

definition solana_reference :: "string \<Rightarrow> bool" where
  "solana_reference s \<longleftrightarrow> length s = 32 \<and> (\<forall>c \<in> set s. base58_char c)"

definition supported_namespaces :: "string list" where
  "supported_namespaces = [''eip155'', ''solana'', ''xrpl'']"

definition validateChainId :: "string \<Rightarrow> string + unit" where
  "validateChainId chainId = andThen (parseChainId chainId) (\<lambda>p.
     let ns = c2_namespace p; ref = c2_reference p in
     case first_some
       [throw_if (ns \<notin> set supported_namespaces) (''Unsupported namespace '' @ ns @ '' in chain ID '' @ chainId),
        throw_if (ns = ''eip155'' \<and> \<not> positive_decimal ref) (''Invalid EIP-155 chain reference '' @ ref),
        throw_if (ns = ''solana'' \<and> \<not> solana_reference ref) (''Invalid Solana CAIP-2 reference '' @ ref),
        throw_if (ns = ''xrpl'' \<and>
            (\<not> canonical_decimal ref \<or> (case bigint_of ref of None \<Rightarrow> True | Some n \<Rightarrow> n > 4294967295)))
          (''Invalid XRPL network ID '' @ ref)]
     of Some e \<Rightarrow> Inl e | None \<Rightarrow> Inr ())"

section \<open>CAIP-10\<close>

record caip10 =
  acc_namespace :: string
  acc_chainId :: string
  acc_address :: string

definition parseCaip10 :: "string \<Rightarrow> caip10 option" where
  "parseCaip10 value =
     (let parts = split_on CHR '':'' value in
      if length parts < 3 then None
      else let address = last parts; chainId = join_with CHR '':'' (butlast parts) in
        if address = [] then None
        else case parseChainId chainId of
          Inl _ \<Rightarrow> None
        | Inr p \<Rightarrow> Some \<lparr>acc_namespace = c2_namespace p, acc_chainId = chainId, acc_address = address\<rparr>)"

definition namespaceOf :: "string \<Rightarrow> string option" where
  "namespaceOf value =
     (case parseCaip10 value of
        Some a \<Rightarrow> Some (acc_namespace a)
      | None \<Rightarrow> (case parseChainId value of Inl _ \<Rightarrow> None | Inr p \<Rightarrow> Some (c2_namespace p)))"

section \<open>EIP-155 chain numbers\<close>

definition eip155Reference :: "string \<Rightarrow> int option" where
  "eip155Reference chainId =
     (case parseChainId chainId of
        Inl _ \<Rightarrow> None
      | Inr p \<Rightarrow>
          if c2_namespace p \<noteq> ''eip155'' then None
          else if \<not> positive_decimal (c2_reference p) then None
          else case parse_base 10 (c2_reference p) of
            None \<Rightarrow> None
          | Some n \<Rightarrow> if safe_integer (int n) then Some (int n) else None)"

text \<open>\<open>/^0x[0-9a-f]+$/i\<close> and \<open>/^\d+$/\<close>.\<close>

definition hex_run_ci :: "string \<Rightarrow> bool" where
  "hex_run_ci s \<longleftrightarrow> hex_run (lower s)"

definition decimal_run :: "string \<Rightarrow> bool" where
  "decimal_run s \<longleftrightarrow> s \<noteq> [] \<and> (\<forall>c \<in> set s. is_digit c)"

definition normalizeEip155ChainId :: "string \<Rightarrow> string option" where
  "normalizeEip155ChainId value =
     (let raw =
        (if starts_with ''eip155:'' value then
           (let r = drop 7 value in if decimal_run r then Some r else None)
         else if hex_run_ci value \<or> decimal_run value then Some value
         else None)
      in case raw of None \<Rightarrow> None
        | Some r \<Rightarrow>
            (case bigint_of r of None \<Rightarrow> None
             | Some n \<Rightarrow> if n \<le> 0 \<or> n > max_safe then None else Some (''eip155:'' @ show_int n)))"

definition requireEip155ChainId :: "string \<Rightarrow> string + string" where
  "requireEip155ChainId chainId =
     (case eip155Reference chainId of
        None \<Rightarrow> Inl (''Invalid EIP-155 chain ID: '' @ chainId)
      | Some n \<Rightarrow> Inr (''eip155:'' @ show_int n))"

definition isEvmAddress :: "string \<Rightarrow> bool" where
  "isEvmAddress value = hex_literal 40 value"

section \<open>Lemmas\<close>

lemma split_two: "split_on c s = [a, b] \<longleftrightarrow> s = a @ c # b \<and> c \<notin> set a \<and> c \<notin> set b"
proof
  assume s: "split_on c s = [a, b]"
  have "join_with c (split_on c s) = s" by (rule join_split)
  then have "s = a @ c # b" using s by simp
  moreover have "c \<notin> set a" "c \<notin> set b" using split_on_parts [of _ c s] s by auto
  ultimately show "s = a @ c # b \<and> c \<notin> set a \<and> c \<notin> set b" by simp
qed (auto simp: split_on_append split_on_no_sep)

lemma parseChainId_Inr:
  "parseChainId s = Inr p \<longleftrightarrow>
     s = c2_namespace p @ CHR '':'' # c2_reference p \<and> c2_namespace p \<noteq> [] \<and> c2_reference p \<noteq> [] \<and>
     CHR '':'' \<notin> set (c2_namespace p) \<and> CHR '':'' \<notin> set (c2_reference p)"
  (is "_ \<longleftrightarrow> ?R")
proof
  assume h: "parseChainId s = Inr p"
  then obtain n r where "split_on CHR '':'' s = [n, r]" "n \<noteq> []" "r \<noteq> []"
    "p = \<lparr>c2_namespace = n, c2_reference = r\<rparr>"
    by (auto simp: parseChainId_def split: list.splits if_splits)
  then show ?R by (simp add: split_two)
next
  assume ?R
  then have "split_on CHR '':'' s = [c2_namespace p, c2_reference p]" by (simp add: split_two)
  with \<open>?R\<close> show "parseChainId s = Inr p" by (simp add: parseChainId_def)
qed

lemma digit_no_colon: "is_digit c \<Longrightarrow> c \<noteq> CHR '':''"
  by (auto simp: is_digit_def ord_def)

lemma decimal_no_colon: "(\<forall>c \<in> set s. is_digit c) \<Longrightarrow> CHR '':'' \<notin> set s"
  using digit_no_colon by blast

lemma show_nat_no_colon: "CHR '':'' \<notin> set (show_nat n)"
  using show_nat_digits decimal_no_colon by blast

lemma show_int_pos: "0 < n \<Longrightarrow> show_int n = show_nat (nat n)"
  by (simp add: show_int_def)

lemma eip155_text_parse:
  assumes "positive_decimal r"
  shows "parseChainId (''eip155:'' @ r) = Inr \<lparr>c2_namespace = ''eip155'', c2_reference = r\<rparr>"
  using assms decimal_no_colon [of r] by (auto simp: parseChainId_Inr positive_decimal_def)

lemma eip155Reference_iff:
  "eip155Reference s = Some n \<longleftrightarrow> 0 < n \<and> n \<le> max_safe \<and> s = ''eip155:'' @ show_int n"
proof
  assume h: "eip155Reference s = Some n"
  then obtain p m where p: "parseChainId s = Inr p" "c2_namespace p = ''eip155''"
    "positive_decimal (c2_reference p)" "parse_base 10 (c2_reference p) = Some m" "safe_integer (int m)"
    "n = int m"
    by (auto simp: eip155Reference_def split: sum.splits if_splits option.splits)
  have ref: "c2_reference p = show_nat m"
    using p(3,4) parse_canonical_decimal [of "c2_reference p"] by (auto simp: canonical_decimal_def)
  have "show_nat 0 = ''0''" by (simp add: show_base_def to_base_small digit_char_0)
  then have "m \<noteq> 0" using p(3) ref by (cases "m = 0") (simp_all add: positive_decimal_def)
  moreover have "s = ''eip155:'' @ show_nat m"
    using p(1) p(2) ref unfolding parseChainId_Inr by simp
  ultimately show "0 < n \<and> n \<le> max_safe \<and> s = ''eip155:'' @ show_int n"
    using p(5,6) by (simp add: safe_integer_def show_int_pos)
next
  assume h: "0 < n \<and> n \<le> max_safe \<and> s = ''eip155:'' @ show_int n"
  then have "positive_decimal (show_nat (nat n))" by (simp add: show_nat_positive)
  with h show "eip155Reference s = Some n"
    using eip155_text_parse [of "show_nat (nat n)"]
    by (simp add: eip155Reference_def show_int_pos safe_integer_def max_safe_def)
qed

lemma eip155Reference_show: "0 < n \<Longrightarrow> n \<le> max_safe \<Longrightarrow> eip155Reference (''eip155:'' @ show_int n) = Some n"
  by (simp add: eip155Reference_iff)

text \<open>Reading an account splits it at its last colon.\<close>

lemma split_on_snoc: "c \<notin> set t \<Longrightarrow> split_on c (s @ c # t) = split_on c s @ [t]"
proof (induction s)
  case (Cons x s)
  then show ?case by (cases "split_on c s") (auto split: list.splits)
qed (simp add: split_on_no_sep)

lemma join_with_snoc: "ps \<noteq> [] \<Longrightarrow> join_with c (ps @ [t]) = join_with c ps @ c # t"
  by (induction c ps rule: join_with.induct) auto

lemma parseCaip10_iff:
  "parseCaip10 v = Some a \<longleftrightarrow>
     v = acc_chainId a @ CHR '':'' # acc_address a \<and> acc_address a \<noteq> [] \<and> CHR '':'' \<notin> set (acc_address a) \<and>
     (\<exists>p. parseChainId (acc_chainId a) = Inr p \<and> c2_namespace p = acc_namespace a)"
  (is "_ \<longleftrightarrow> ?R")
proof
  let ?parts = "split_on CHR '':'' v"
  assume h: "parseCaip10 v = Some a"
  then have l: "\<not> length ?parts < 3" and ad: "acc_address a = last ?parts"
    and ch: "acc_chainId a = join_with CHR '':'' (butlast ?parts)" and ne: "acc_address a \<noteq> []"
    and ns: "\<exists>p. parseChainId (acc_chainId a) = Inr p \<and> c2_namespace p = acc_namespace a"
    by (auto simp: parseCaip10_def Let_def split: if_splits sum.splits)
  have "butlast ?parts \<noteq> []" using l by (cases ?parts rule: rev_cases) auto
  then have "v = acc_chainId a @ CHR '':'' # acc_address a"
    using join_with_snoc [of "butlast ?parts" "CHR '':''" "last ?parts"] ad ch by simp
  moreover have "CHR '':'' \<notin> set (acc_address a)" using split_on_parts [of "last ?parts" "CHR '':''" v] ad by simp
  ultimately show ?R using ne ns by blast
next
  assume r: ?R
  then obtain p where p: "parseChainId (acc_chainId a) = Inr p" "c2_namespace p = acc_namespace a" by blast
  have "split_on CHR '':'' (acc_chainId a) = [c2_namespace p, c2_reference p]"
    using p(1) by (simp add: parseChainId_Inr split_two)
  moreover have "split_on CHR '':'' v = split_on CHR '':'' (acc_chainId a) @ [acc_address a]"
    using r split_on_snoc by blast
  ultimately have parts: "split_on CHR '':'' v = [c2_namespace p, c2_reference p, acc_address a]" by simp
  have "acc_chainId a = c2_namespace p @ CHR '':'' # c2_reference p" using p(1) parseChainId_Inr by blast
  with parts r p show "parseCaip10 v = Some a" by (simp add: parseCaip10_def)
qed

lemma normalize_Some:
  assumes "normalizeEip155ChainId v = Some s"
  shows "\<exists>n. 0 < n \<and> n \<le> max_safe \<and> s = ''eip155:'' @ show_int n"
proof -
  obtain n where "s = ''eip155:'' @ show_int n" "\<not> n \<le> 0" "\<not> max_safe < n"
    using assms by (auto simp: normalizeEip155ChainId_def Let_def split: if_splits option.splits)
  then show ?thesis by (intro exI [of _ n]) simp
qed

lemma decimal_run_show: "decimal_run (show_nat n)"
  using show_nat_digits by (simp add: decimal_run_def)

lemma normalize_show:
  assumes "0 < n" "n \<le> max_safe"
  shows "normalizeEip155ChainId (''eip155:'' @ show_int n) = Some (''eip155:'' @ show_int n)"
  using assms decimal_run_show [of "nat n"] by (simp add: normalizeEip155ChainId_def show_int_pos starts_with_def)

section \<open>Properties\<close>

text \<open>
  C24: \<open>eip155Reference\<close> reads exactly the canonical identifiers: it returns \<open>n\<close> if and only if \<open>n\<close> is a
  positive safe integer and the text is \<open>eip155:\<close> followed by the decimal digits of \<open>n\<close>, so two
  different texts never name the same chain and no partial parse is possible.
\<close>

theorem eip155_reference_exact:
  "eip155Reference s = Some n \<longleftrightarrow> 0 < n \<and> n \<le> max_safe \<and> s = ''eip155:'' @ show_int n"
  by (rule eip155Reference_iff)

text \<open>
  A CAIP-10 account reads back to the text it was read from: \<open>parseCaip10\<close> succeeds exactly on a
  well-formed chain identifier, a colon and a non-empty address without a colon, and then
  returns those parts.
\<close>

lemma caip10_roundtrip:
  "parseCaip10 v = Some a \<longleftrightarrow>
     v = acc_chainId a @ CHR '':'' # acc_address a \<and> acc_address a \<noteq> [] \<and> CHR '':'' \<notin> set (acc_address a) \<and>
     (\<exists>p. parseChainId (acc_chainId a) = Inr p \<and> c2_namespace p = acc_namespace a)"
  by (rule parseCaip10_iff)

text \<open>
  Whatever spelling a wallet reports (\<open>eip155:N\<close> with leading zeros, hexadecimal, decimal),
  \<open>normalizeEip155ChainId\<close> either refuses it or returns an identifier that the strict reader
  \<open>requireEip155ChainId\<close> accepts unchanged and that normalizing again does not change.
\<close>

lemma normalized_chain_canonical:
  assumes "normalizeEip155ChainId v = Some s"
  shows "requireEip155ChainId s = Inr s \<and> normalizeEip155ChainId s = Some s"
proof -
  obtain n where n: "0 < n" "n \<le> max_safe" "s = ''eip155:'' @ show_int n"
    using normalize_Some [OF assms] by blast
  then show ?thesis using eip155Reference_show normalize_show by (simp add: requireEip155ChainId_def)
qed

lemma normalized_chain_canonical_witness:
  "requireEip155ChainId ''eip155:137'' = Inr ''eip155:137'' \<and>
   normalizeEip155ChainId ''eip155:137'' = Some ''eip155:137''"
proof (rule normalized_chain_canonical)
  show "normalizeEip155ChainId ''0X89'' = Some ''eip155:137''" by code_simp
qed

end
