(* ===== verification/JsValues.thy ===== *)
theory JsValues
  imports JsNumbers
begin

text \<open>
  Values of type \<open>unknown\<close>: what a function that validates its argument at run time can receive.
  A number is \<open>JInt\<close> when its value is an integer and \<open>JFloat\<close>, with the text \<open>String(v)\<close> gives for
  it, when it is not (a fraction, an infinity or \<open>NaN\<close>); an object is the list of its own
  properties, of which the code reads values by key.
\<close>

datatype jsval =
    JUndefined
  | JNull
  | JBool bool
  | JInt int
  | JFloat string
  | JBig int
  | JStr string
  | JArr "jsval list"
  | JObj "(string \<times> jsval) list"

type_synonym props = "(string \<times> jsval) list"

text \<open>\<open>o.key\<close>: \<open>undefined\<close> when the object has no such property.\<close>

definition field :: "string \<Rightarrow> props \<Rightarrow> jsval" where
  "field key ps = or_else (map_of ps key) JUndefined"

text \<open>Readers for values whose type has been tested.\<close>

fun int_of :: "jsval \<Rightarrow> int" where
  "int_of (JInt n) = n" | "int_of (JBig n) = n" | "int_of _ = 0"

fun str_of :: "jsval \<Rightarrow> string" where
  "str_of (JStr s) = s" | "str_of _ = []"

fun items_of :: "jsval \<Rightarrow> jsval list" where
  "items_of (JArr vs) = vs" | "items_of _ = []"

text \<open>\<open>Number.isSafeInteger(v)\<close> and a condition on the number.\<close>

fun safe_where :: "(int \<Rightarrow> bool) \<Rightarrow> jsval \<Rightarrow> bool" where
  "safe_where P (JInt n) = (safe_integer n \<and> P n)"
| "safe_where P _ = False"

text \<open>\<open>typeof v === "bigint"\<close> and a condition on it.\<close>

fun big_where :: "(int \<Rightarrow> bool) \<Rightarrow> jsval \<Rightarrow> bool" where
  "big_where P (JBig n) = P n"
| "big_where P _ = False"

text \<open>An optional property that is spread into a literal only when it is defined.\<close>

definition opt_prop :: "string \<Rightarrow> ('a \<Rightarrow> jsval) \<Rightarrow> 'a option \<Rightarrow> props" where
  "opt_prop key f v = (case v of None \<Rightarrow> [] | Some x \<Rightarrow> [(key, f x)])"

text \<open>\<open>v === undefined ? undefined : f(v)\<close>.\<close>

definition defined :: "(jsval \<Rightarrow> 'a) \<Rightarrow> jsval \<Rightarrow> 'a option" where
  "defined f v = (if v = JUndefined then None else Some (f v))"

lemma field_Nil [simp]: "field k [] = JUndefined"
  by (simp add: field_def)

lemma field_Cons [simp]: "field k ((k', v) # ps) = (if k = k' then v else field k ps)"
  by (simp add: field_def)

lemma opt_prop_keys: "set (map fst (opt_prop k f v)) = (if v = None then {} else {k})"
  by (auto simp: opt_prop_def split: option.splits)

lemma field_opt_append:
  "field k (opt_prop k' f v @ ps) = (if k = k' \<and> v \<noteq> None then f (the v) else field k ps)"
  by (auto simp: opt_prop_def split: option.splits)

lemma safe_where_iff: "safe_where P v \<longleftrightarrow> (\<exists>n. v = JInt n \<and> safe_integer n \<and> P n)"
  by (cases v) auto

lemma big_where_iff: "big_where P v \<longleftrightarrow> (\<exists>n. v = JBig n \<and> P n)"
  by (cases v) auto

lemma defined_simps [simp]:
  "defined f JUndefined = None" "defined f (JInt n) = Some (f (JInt n))"
  "defined f (JStr s) = Some (f (JStr s))" "defined f (JObj ps) = Some (f (JObj ps))"
  "defined f (JBig n) = Some (f (JBig n))"
  by (simp_all add: defined_def)

end
