(* ===== verification/Authz.thy ===== *)
theory Authz
  imports JsValues Caip SessionTypes
begin

text \<open>
  packages/core/src/authorization/index.ts, first half: the authorization a user grants, its
  validation (\<open>validateAuthorization\<close>), and the decision on a single spend (\<open>evaluateSpend\<close>).  Both
  take values of type \<open>unknown\<close> at run time.  The hash functions and the base58 codec come from
  packages and are fields of the parameter \<open>env\<close>.
\<close>

section \<open>Data\<close>

record authz_env =
  e_keccak :: "bytes \<Rightarrow> bytes"
  e_sha256 :: "bytes \<Rightarrow> bytes"
  b58_decode :: "string \<Rightarrow> bytes option"
  b58_encode :: "bytes \<Rightarrow> string"

text \<open>The documented law of the codec: a text that decodes is the encoding of what it decodes to.\<close>

definition b58_canonical :: "authz_env \<Rightarrow> bool" where
  "b58_canonical env \<longleftrightarrow> (\<forall>s b. b58_decode env s = Some b \<longrightarrow> b58_encode env b = s)"

record grant =
  g_asset :: string
  recipients :: "string list"
  maxPerPayment :: int
  maxTotal :: int
  maxCount :: "int option"
  period :: "session_period option"
  g_rails :: "string list"

record authorization_doc =
  principal :: string
  label_text :: "string option"
  grants :: "grant list"
  notBefore :: "int option"
  expiresAt :: int

datatype asset_namespace = Eip155 | SolanaNs
datatype asset_kind = Erc20 | Native | Token

record parsed_asset =
  canonical :: string
  chain :: string
  pa_namespace :: asset_namespace
  pa_kind :: asset_kind
  pa_address :: "string option"

datatype spend_refusal =
    RefExpired | NotYetValid | NoMatchingGrant | RecipientNotAllowed | OverPerPayment | OverTotal
  | OverCount | PeriodLimitExceeded | RailNotAllowed | InvalidAuthorization

definition all_rails :: "string list" where
  "all_rails = [''transfer'', ''x402-exact'', ''mpp-charge'', ''mpp-session'']"

fun namespace_name :: "asset_namespace \<Rightarrow> string" where
  "namespace_name Eip155 = ''eip155''" | "namespace_name SolanaNs = ''solana''"

section \<open>Reading assets and addresses\<close>

definition exactKeys :: "props \<Rightarrow> string list \<Rightarrow> string list \<Rightarrow> bool" where
  "exactKeys value required optional \<longleftrightarrow>
     (\<forall>k \<in> set required. k \<in> set (map fst value)) \<and>
     (\<forall>k \<in> set (map fst value). k \<in> set required \<or> k \<in> set optional)"

definition canonicalSolanaAddress :: "authz_env \<Rightarrow> jsval \<Rightarrow> string option" where
  "canonicalSolanaAddress env value =
     (case value of
        JStr s \<Rightarrow>
          if \<not> isValidAddress (e_sha256 env) s (Some ''solana'') then None
          else (case b58_decode env s of
            None \<Rightarrow> None
          | Some b \<Rightarrow> if length b = 32 then Some (b58_encode env b) else None)
      | _ \<Rightarrow> None)"

text \<open>The text before and after the first occurrence of a character.\<close>

fun break_at :: "char \<Rightarrow> string \<Rightarrow> (string \<times> string) option" where
  "break_at c [] = None"
| "break_at c (x # xs) =
     (if x = c then Some ([], xs) else map_option (\<lambda>(a, b). (x # a, b)) (break_at c xs))"

text \<open>\<open>.+\<close>: not empty and without a line terminator.\<close>

definition dot_plus :: "string \<Rightarrow> bool" where
  "dot_plus s \<longleftrightarrow> s \<noteq> [] \<and> (\<forall>c \<in> set s. ord c \<noteq> 10 \<and> ord c \<noteq> 13)"

text \<open>\<open>/^(eip155:[1-9]\d*)\/(erc20|slip44):(.+)$/\<close>, its three groups.\<close>

definition evm_asset_re :: "string \<Rightarrow> (string \<times> string \<times> string) option" where
  "evm_asset_re s =
     (case break_at CHR ''/'' s of None \<Rightarrow> None
      | Some (c, rest) \<Rightarrow>
          (case break_at CHR '':'' rest of None \<Rightarrow> None
           | Some (k, r) \<Rightarrow>
               if starts_with ''eip155:'' c \<and> positive_decimal (drop 7 c) \<and>
                  (k = ''erc20'' \<or> k = ''slip44'') \<and> dot_plus r
               then Some (c, k, r) else None))"

text \<open>\<open>/^solana:[1-9A-HJ-NP-Za-km-z]{32}$/\<close>.\<close>

definition solana_chain_re :: "string \<Rightarrow> bool" where
  "solana_chain_re s \<longleftrightarrow> starts_with ''solana:'' s \<and> solana_reference (drop 7 s)"

text \<open>\<open>/^(solana:[1-9A-HJ-NP-Za-km-z]{32})\/token:(.+)$/\<close>, its two groups.\<close>

definition solana_asset_re :: "string \<Rightarrow> (string \<times> string) option" where
  "solana_asset_re s =
     (case break_at CHR ''/'' s of None \<Rightarrow> None
      | Some (c, rest) \<Rightarrow>
          if solana_chain_re c \<and> starts_with ''token:'' rest \<and> dot_plus (drop 6 rest)
          then Some (c, drop 6 rest) else None)"

definition parseAsset :: "authz_env \<Rightarrow> jsval \<Rightarrow> parsed_asset option" where
  "parseAsset env value =
     (case value of
        JStr s \<Rightarrow>
          (case evm_asset_re s of
             Some (evm1, evm2, evm3) \<Rightarrow>
               (case eip155Reference evm1 of None \<Rightarrow> None
                | Some chainNumber \<Rightarrow>
                    let chn = ''eip155:'' @ show_int chainNumber in
                    if evm2 = ''slip44'' then
                      (if evm3 = ''60'' then Some
                         \<lparr>canonical = chn @ ''/slip44:60'', chain = chn, pa_namespace = Eip155,
                          pa_kind = Native, pa_address = None\<rparr>
                       else None)
                    else if \<not> isValidAddress (e_sha256 env) evm3 (Some ''eip155'') then None
                    else (case toChecksumAddress (e_keccak env) evm3 of None \<Rightarrow> None
                      | Some address \<Rightarrow> Some
                          \<lparr>canonical = chn @ ''/erc20:'' @ address, chain = chn, pa_namespace = Eip155,
                           pa_kind = Erc20, pa_address = Some address\<rparr>))
           | None \<Rightarrow>
               (case solana_asset_re s of None \<Rightarrow> None
                | Some (chn, r) \<Rightarrow>
                    (case canonicalSolanaAddress env (JStr r) of None \<Rightarrow> None
                     | Some address \<Rightarrow>
                         if address = [] then None
                         else Some
                           \<lparr>canonical = chn @ ''/token:'' @ address, chain = chn, pa_namespace = SolanaNs,
                            pa_kind = Token, pa_address = Some address\<rparr>)))
      | _ \<Rightarrow> None)"

definition canonicalAddress :: "authz_env \<Rightarrow> jsval \<Rightarrow> asset_namespace \<Rightarrow> string option" where
  "canonicalAddress env value ns =
     (case value of
        JStr s \<Rightarrow>
          if \<not> isValidAddress (e_sha256 env) s (Some (namespace_name ns)) then None
          else if ns = Eip155 then toChecksumAddress (e_keccak env) s
          else canonicalSolanaAddress env value
      | _ \<Rightarrow> None)"

definition canonicalPrincipal :: "authz_env \<Rightarrow> jsval \<Rightarrow> string option" where
  "canonicalPrincipal env value =
     (case value of
        JStr s \<Rightarrow>
          (case parseCaip10 s of None \<Rightarrow> None
           | Some account \<Rightarrow>
               if acc_namespace account \<noteq> ''eip155'' \<and> acc_namespace account \<noteq> ''solana'' then None
               else let ns = (if acc_namespace account = ''eip155'' then Eip155 else SolanaNs) in
                 (case canonicalAddress env (JStr (acc_address account)) ns of None \<Rightarrow> None
                  | Some address \<Rightarrow>
                      if address = [] then None
                      else if ns = Eip155 then
                        map_option (\<lambda>ref. ''eip155:'' @ show_int ref @ '':'' @ address)
                          (eip155Reference (acc_chainId account))
                      else if solana_chain_re (acc_chainId account) then
                        Some (acc_chainId account @ '':'' @ address)
                      else None))
      | _ \<Rightarrow> None)"

section \<open>Validation\<close>

definition authorization_structure :: "props \<Rightarrow> bool" where
  "authorization_structure v \<longleftrightarrow>
     exactKeys v [''version'', ''principal'', ''grants'', ''expiresAt''] [''label'', ''notBefore''] \<and>
     field ''version'' v = JInt 1 \<and>
     (case field ''grants'' v of JArr gs \<Rightarrow> gs \<noteq> [] | _ \<Rightarrow> False) \<and>
     safe_where (\<lambda>n. 0 < n) (field ''expiresAt'' v) \<and>
     (field ''notBefore'' v = JUndefined \<or>
       safe_where (\<lambda>n. 0 \<le> n) (field ''notBefore'' v) \<and>
       int_of (field ''notBefore'' v) < int_of (field ''expiresAt'' v)) \<and>
     (case field ''label'' v of JUndefined \<Rightarrow> True | JStr _ \<Rightarrow> True | _ \<Rightarrow> False)"

definition grant_structure :: "props \<Rightarrow> bool" where
  "grant_structure raw \<longleftrightarrow>
     exactKeys raw [''asset'', ''recipients'', ''maxPerPayment'', ''maxTotal'', ''rails'']
       [''maxCount'', ''period''] \<and>
     (case field ''recipients'' raw of JArr rs \<Rightarrow> rs \<noteq> [] | _ \<Rightarrow> False) \<and>
     big_where (\<lambda>tot. big_where (\<lambda>m. 0 < m \<and> m \<le> tot) (field ''maxPerPayment'' raw)) (field ''maxTotal'' raw) \<and>
     (field ''maxCount'' raw = JUndefined \<or> safe_where (\<lambda>n. 0 < n) (field ''maxCount'' raw)) \<and>
     (case field ''rails'' raw of
        JArr rs \<Rightarrow> rs \<noteq> [] \<and> (\<forall>r \<in> set rs. case r of JStr s \<Rightarrow> s \<in> set all_rails | _ \<Rightarrow> False)
      | _ \<Rightarrow> False)"

definition period_structure :: "props \<Rightarrow> bool" where
  "period_structure raw \<longleftrightarrow>
     (case field ''period'' raw of
        JUndefined \<Rightarrow> True
      | JObj p \<Rightarrow>
          exactKeys p [''amount'', ''seconds'', ''start''] [] \<and>
          big_where (\<lambda>n. 0 < n \<and> n \<le> int_of (field ''maxTotal'' raw)) (field ''amount'' p) \<and>
          safe_where (\<lambda>n. 0 < n) (field ''seconds'' p) \<and>
          safe_where (\<lambda>n. 0 < n) (field ''start'' p)
      | _ \<Rightarrow> False)"

fun read_period :: "jsval \<Rightarrow> session_period" where
  "read_period (JObj p) =
     \<lparr>p_amount = int_of (field ''amount'' p), p_seconds = int_of (field ''seconds'' p),
      p_start = int_of (field ''start'' p)\<rparr>"
| "read_period _ = \<lparr>p_amount = 0, p_seconds = 0, p_start = 0\<rparr>"

text \<open>The body of the loop over \<open>value.grants\<close>.\<close>

definition validate_grant :: "authz_env \<Rightarrow> jsval \<Rightarrow> string + grant" where
  "validate_grant env value =
     (case value of
        JObj raw \<Rightarrow>
          if \<not> grant_structure raw then Inl ''invalid grant structure''
          else if \<not> period_structure raw then Inl ''invalid grant period''
          else (case parseAsset env (field ''asset'' raw) of
            None \<Rightarrow> Inl ''invalid asset''
          | Some asset \<Rightarrow>
              let rs = map (\<lambda>r. canonicalAddress env r (pa_namespace asset)) (items_of (field ''recipients'' raw));
                  rl = map str_of (items_of (field ''rails'' raw))
              in if None \<in> set rs then Inl ''invalid recipient''
                 else if field ''period'' raw \<noteq> JUndefined \<and> ''mpp-session'' \<in> set rl then
                   Inl ''period is not expressible on an MPP rail''
                 else if \<not> distinct (map the rs) \<or> \<not> distinct rl then Inl ''duplicate recipient or rail''
                 else Inr
                   \<lparr>g_asset = canonical asset, recipients = map the rs,
                    maxPerPayment = int_of (field ''maxPerPayment'' raw),
                    maxTotal = int_of (field ''maxTotal'' raw),
                    maxCount = defined int_of (field ''maxCount'' raw),
                    period = defined read_period (field ''period'' raw),
                    g_rails = rl\<rparr>)
      | _ \<Rightarrow> Inl ''invalid grant structure'')"

fun validate_grants :: "authz_env \<Rightarrow> jsval list \<Rightarrow> string + grant list" where
  "validate_grants env [] = Inr []"
| "validate_grants env (v # vs) =
     andThen (validate_grant env v) (\<lambda>g. andThen (validate_grants env vs) (\<lambda>gs. Inr (g # gs)))"

definition grants_overlap :: "grant \<Rightarrow> grant \<Rightarrow> bool" where
  "grants_overlap a b \<longleftrightarrow>
     g_asset a = g_asset b \<and> (\<exists>r \<in> set (recipients a). r \<in> set (recipients b)) \<and>
     (\<exists>r \<in> set (g_rails a). r \<in> set (g_rails b))"

text \<open>The two nested loops over the pairs of grants.\<close>

fun any_overlap :: "grant list \<Rightarrow> bool" where
  "any_overlap [] = False"
| "any_overlap (a # gs) = ((\<exists>b \<in> set gs. grants_overlap a b) \<or> any_overlap gs)"

definition validateAuthorization :: "authz_env \<Rightarrow> jsval \<Rightarrow> string + authorization_doc" where
  "validateAuthorization env value =
     (case value of
        JObj v \<Rightarrow>
          if \<not> authorization_structure v then Inl ''invalid authorization structure''
          else (case canonicalPrincipal env (field ''principal'' v) of
            None \<Rightarrow> Inl ''invalid principal''
          | Some p \<Rightarrow>
              andThen (validate_grants env (items_of (field ''grants'' v))) (\<lambda>gs.
                if any_overlap gs then Inl ''overlapping grants''
                else Inr
                  \<lparr>principal = p, label_text = defined str_of (field ''label'' v), grants = gs,
                   notBefore = defined int_of (field ''notBefore'' v),
                   expiresAt = int_of (field ''expiresAt'' v)\<rparr>))
      | _ \<Rightarrow> Inl ''invalid authorization structure'')"

section \<open>The decision on a spend\<close>

definition request_structure :: "props \<Rightarrow> bool" where
  "request_structure q \<longleftrightarrow>
     exactKeys q [''asset'', ''recipient'', ''amount'', ''rail'', ''at'', ''spentSoFar'', ''countSoFar'']
       [''periodSpentSoFar''] \<and>
     big_where (\<lambda>n. 0 < n) (field ''amount'' q) \<and>
     big_where (\<lambda>n. 0 \<le> n) (field ''spentSoFar'' q) \<and>
     (field ''periodSpentSoFar'' q = JUndefined \<or> big_where (\<lambda>n. 0 \<le> n) (field ''periodSpentSoFar'' q)) \<and>
     safe_where (\<lambda>n. True) (field ''at'' q) \<and>
     safe_where (\<lambda>n. 0 \<le> n) (field ''countSoFar'' q) \<and>
     (case field ''rail'' q of JStr r \<Rightarrow> r \<in> set all_rails | _ \<Rightarrow> False)"

text \<open>The checks on the matching grant, in order.\<close>

definition grant_refusal :: "grant \<Rightarrow> props \<Rightarrow> spend_refusal option" where
  "grant_refusal g q =
     (let amount = int_of (field ''amount'' q); at = int_of (field ''at'' q) in first_some
      [throw_if (amount > maxPerPayment g) OverPerPayment,
       throw_if (int_of (field ''spentSoFar'' q) + amount > maxTotal g) OverTotal,
       throw_if (case maxCount g of None \<Rightarrow> False | Some n \<Rightarrow> int_of (field ''countSoFar'' q) \<ge> n) OverCount,
       (case period g of None \<Rightarrow> None
        | Some p \<Rightarrow>
            if at < p_start p then Some PeriodLimitExceeded
            else if (at - p_start p) div p_seconds p < 0 \<or> field ''periodSpentSoFar'' q = JUndefined then
              Some PeriodLimitExceeded
            else throw_if (int_of (field ''periodSpentSoFar'' q) + amount > p_amount p) PeriodLimitExceeded)])"

text \<open>\<open>grants.map((grant, index) => ({ grant, index }))\<close>.\<close>

definition indexed :: "'a list \<Rightarrow> (nat \<times> 'a) list" where
  "indexed xs = zip [0..<length xs] xs"

definition evaluateSpend :: "authz_env \<Rightarrow> jsval \<Rightarrow> jsval \<Rightarrow> spend_refusal + nat" where
  "evaluateSpend env value request =
     (case validateAuthorization env value of
        Inl _ \<Rightarrow> Inl InvalidAuthorization
      | Inr a \<Rightarrow>
          (case request of
             JObj q \<Rightarrow>
               if \<not> request_structure q then Inl InvalidAuthorization
               else if int_of (field ''at'' q) \<ge> expiresAt a then Inl RefExpired
               else if (case notBefore a of None \<Rightarrow> False | Some n \<Rightarrow> int_of (field ''at'' q) < n) then
                 Inl NotYetValid
               else (case parseAsset env (field ''asset'' q) of
                 None \<Rightarrow> Inl NoMatchingGrant
               | Some asset \<Rightarrow>
                   let assetMatches = filter (\<lambda>(i, g). g_asset g = canonical asset) (indexed (grants a));
                       railMatches = filter (\<lambda>(i, g). str_of (field ''rail'' q) \<in> set (g_rails g)) assetMatches
                   in if assetMatches = [] then Inl NoMatchingGrant
                      else if railMatches = [] then Inl RailNotAllowed
                      else (case canonicalAddress env (field ''recipient'' q) (pa_namespace asset) of
                        None \<Rightarrow> Inl RecipientNotAllowed
                      | Some recipient \<Rightarrow> if recipient = [] then Inl RecipientNotAllowed else
                          (case find (\<lambda>(i, g). recipient \<in> set (recipients g)) railMatches of
                             None \<Rightarrow> Inl RecipientNotAllowed
                           | Some (i, g) \<Rightarrow>
                               (case grant_refusal g q of Some r \<Rightarrow> Inl r | None \<Rightarrow> Inr i))))
           | _ \<Rightarrow> Inl InvalidAuthorization))"

section \<open>Back to plain values\<close>

text \<open>The object a validated authorization is, as the caller would pass it again.\<close>

definition period_js :: "session_period \<Rightarrow> jsval" where
  "period_js p = JObj [(''amount'', JBig (p_amount p)), (''seconds'', JInt (p_seconds p)), (''start'', JInt (p_start p))]"

definition grant_js :: "grant \<Rightarrow> jsval" where
  "grant_js g = JObj ([(''asset'', JStr (g_asset g)), (''recipients'', JArr (map JStr (recipients g))),
     (''maxPerPayment'', JBig (maxPerPayment g)), (''maxTotal'', JBig (maxTotal g))] @
     opt_prop ''maxCount'' JInt (maxCount g) @ opt_prop ''period'' period_js (period g) @
     [(''rails'', JArr (map JStr (g_rails g)))])"

definition authorization_js :: "authorization_doc \<Rightarrow> jsval" where
  "authorization_js a = JObj ([(''version'', JInt 1), (''principal'', JStr (principal a))] @
     opt_prop ''label'' JStr (label_text a) @ [(''grants'', JArr (map grant_js (grants a)))] @
     opt_prop ''notBefore'' JInt (notBefore a) @ [(''expiresAt'', JInt (expiresAt a))])"

section \<open>Canonical forms\<close>

lemma break_at_append: "c \<notin> set a \<Longrightarrow> break_at c (a @ c # b) = Some (a, b)"
  by (induction a) auto

lemma break_at_Some: "break_at c s = Some (a, b) \<longleftrightarrow> s = a @ c # b \<and> c \<notin> set a"
proof (induction s arbitrary: a)
  case (Cons x s)
  then show ?case by (cases a) auto
qed simp

lemma hex_no_line: "is_hex c \<Longrightarrow> ord c \<noteq> 10 \<and> ord c \<noteq> 13"
  by (auto simp: is_hex_def hex_val_def)

lemma evm_addr_dot: "evm_addr_re a \<Longrightarrow> dot_plus a"
proof -
  assume "evm_addr_re a"
  then obtain r where "a = ''0x'' @ r" "\<forall>c \<in> set r. is_hex c" unfolding evm_addr_iff by blast
  moreover have "\<forall>c \<in> set ''0x''. ord c \<noteq> 10 \<and> ord c \<noteq> 13" by (simp add: ord_def)
  ultimately show ?thesis using hex_no_line unfolding dot_plus_def by fastforce
qed

lemma base58_no_line: "base58_char c \<Longrightarrow> ord c \<noteq> 10 \<and> ord c \<noteq> 13"
  by (auto simp: base58_char_def)

lemma isValidAddress_solana [simp]:
  "isValidAddress sha a (Some ''solana'') \<longleftrightarrow> a \<noteq> [] \<and> isValidSolanaAddress a"
  by (simp add: isValidAddress_def)

lemma solana_addr_dot: "isValidAddress sha s (Some ''solana'') \<Longrightarrow> dot_plus s"
  by (auto simp: isValidSolanaAddress_def dot_plus_def dest: base58_no_line)

lemma no_slash_digits: "CHR ''/'' \<notin> set (show_int n)"
proof -
  have "CHR ''/'' \<notin> set (show_nat m)" for m
    using show_nat_digits [of "CHR ''/''" m] by (auto simp: is_digit_def ord_def)
  then show ?thesis by (auto simp: show_int_def)
qed

lemma evm_asset_re_text:
  assumes "0 < n" "k = ''erc20'' \<or> k = ''slip44''" "dot_plus r"
  shows "evm_asset_re (''eip155:'' @ show_int n @ CHR ''/'' # k @ CHR '':'' # r) =
    Some (''eip155:'' @ show_int n, k, r)"
proof -
  have "break_at CHR ''/'' ((''eip155:'' @ show_int n) @ CHR ''/'' # (k @ CHR '':'' # r)) =
      Some (''eip155:'' @ show_int n, k @ CHR '':'' # r)"
    by (rule break_at_append) (use no_slash_digits in auto)
  moreover have "break_at CHR '':'' (k @ CHR '':'' # r) = Some (k, r)"
    by (rule break_at_append) (use assms(2) in auto)
  ultimately show ?thesis
    using assms show_nat_positive [of "nat n"]
    by (auto simp: evm_asset_re_def show_int_pos starts_with_def)
qed

lemma evm_asset_re_Some:
  assumes "evm_asset_re s = Some (c, k, r)"
  shows "(k = ''erc20'' \<or> k = ''slip44'') \<and> dot_plus r"
  using assms by (auto simp: evm_asset_re_def split: option.splits prod.splits if_splits)

lemma solana_chain_iff: "solana_chain_re c \<longleftrightarrow> (\<exists>r. c = ''solana:'' @ r \<and> solana_reference r)"
proof
  assume c: "solana_chain_re c"
  then obtain r where "c = ''solana:'' @ r" unfolding solana_chain_re_def using starts_withE by blast
  with c show "\<exists>r. c = ''solana:'' @ r \<and> solana_reference r" by (simp add: solana_chain_re_def)
qed (auto simp: solana_chain_re_def starts_with_def)

lemma solana_ref_no_slash: "solana_chain_re c \<Longrightarrow> CHR ''/'' \<notin> set c"
proof -
  have "\<not> base58_char CHR ''/''" by (simp add: base58_char_def ord_def)
  then show "solana_chain_re c \<Longrightarrow> CHR ''/'' \<notin> set c"
    by (auto simp: solana_chain_iff solana_reference_def)
qed

lemma solana_asset_re_text:
  assumes "solana_chain_re c" "dot_plus r"
  shows "solana_asset_re (c @ CHR ''/'' # ''token:'' @ r) = Some (c, r) \<and>
    evm_asset_re (c @ CHR ''/'' # ''token:'' @ r) = None"
proof -
  have "break_at CHR ''/'' (c @ CHR ''/'' # (''token:'' @ r)) = Some (c, ''token:'' @ r)"
    by (rule break_at_append) (use assms(1) solana_ref_no_slash in auto)
  moreover have "\<not> starts_with ''eip155:'' c"
    using assms(1) by (cases c) (auto simp: solana_chain_re_def starts_with_def)
  ultimately show ?thesis
    using assms by (auto simp: solana_asset_re_def evm_asset_re_def starts_with_def split: option.splits)
qed

lemma canonicalSolana_id:
  assumes "b58_canonical env" "canonicalSolanaAddress env v = Some a"
  shows "v = JStr a \<and> dot_plus a \<and> canonicalSolanaAddress env (JStr a) = Some a"
  using assms
  by (auto simp: canonicalSolanaAddress_def b58_canonical_def solana_addr_dot
      split: jsval.splits option.splits if_splits)

lemma canonicalAddress_idem:
  assumes "b58_canonical env" "canonicalAddress env v ns = Some a"
  shows "canonicalAddress env (JStr a) ns = Some a"
proof (cases ns)
  case Eip155
  with assms(2) obtain s where "evm_addr_re s" "toChecksumAddress (e_keccak env) s = Some a"
    by (auto simp: canonicalAddress_def split: jsval.splits if_splits)
  with Eip155 show ?thesis
    using toChecksumAddress_Some toChecksumAddress_idem by (simp add: canonicalAddress_def)
next
  case SolanaNs
  then show ?thesis using assms canonicalSolana_id [OF assms(1)]
    by (fastforce simp: canonicalAddress_def split: jsval.splits if_splits)
qed

lemma parseAsset_idem:
  assumes "b58_canonical env" "parseAsset env v = Some p"
  shows "parseAsset env (JStr (canonical p)) = Some p"
proof -
  obtain s where v: "v = JStr s" using assms(2) by (auto simp: parseAsset_def split: jsval.splits)
  show ?thesis
  proof (cases "evm_asset_re s")
    case (Some t)
    then obtain c k r where t: "evm_asset_re s = Some (c, k, r)" by (cases t) auto
    then obtain n where n: "eip155Reference c = Some n"
      using assms(2) v by (auto simp: parseAsset_def split: option.splits)
    then have pos: "0 < n" "n \<le> max_safe" by (simp_all add: eip155Reference_iff)
    note ref = eip155Reference_show [OF pos]
    consider (native) "k = ''slip44''" "r = ''60''" | (token) "k = ''erc20''"
      using evm_asset_re_Some [OF t] assms(2) v t n by (auto simp: parseAsset_def Let_def split: if_splits)
    then show ?thesis
    proof cases
      case native
      have d: "dot_plus ''60''" by (simp add: dot_plus_def ord_def)
      show ?thesis using native assms(2) v t n ref evm_asset_re_text [OF pos(1) _ d, of "''slip44''"]
        by (auto simp: parseAsset_def Let_def)
    next
      case token
      then obtain a where a: "evm_addr_re r" "toChecksumAddress (e_keccak env) r = Some a"
        and p: "p = \<lparr>canonical = ''eip155:'' @ show_int n @ ''/erc20:'' @ a, chain = ''eip155:'' @ show_int n,
          pa_namespace = Eip155, pa_kind = Erc20, pa_address = Some a\<rparr>"
        using assms(2) v t n by (auto simp: parseAsset_def Let_def split: if_splits option.splits)
      have ea: "evm_addr_re a" using toChecksumAddress_Some [OF a(2)] by simp
      show ?thesis
        using p ref ea toChecksumAddress_idem [OF a(2)]
          evm_asset_re_text [OF pos(1) _ evm_addr_dot [OF ea], of "''erc20''"]
        by (simp add: parseAsset_def Let_def)
    qed
  next
    case None
    then obtain c r a where r: "solana_asset_re s = Some (c, r)" "canonicalSolanaAddress env (JStr r) = Some a"
      and p: "p = \<lparr>canonical = c @ ''/token:'' @ a, chain = c, pa_namespace = SolanaNs, pa_kind = Token,
        pa_address = Some a\<rparr>" and ne: "a \<noteq> []"
      using assms(2) v by (auto simp: parseAsset_def split: option.splits if_splits)
    have c: "solana_chain_re c" using r(1) by (auto simp: solana_asset_re_def split: option.splits if_splits)
    show ?thesis
      using p ne canonicalSolana_id [OF assms(1) r(2)] solana_asset_re_text [OF c, of a]
      by (simp add: parseAsset_def)
  qed
qed

section \<open>What validation establishes\<close>

text \<open>A canonical grant: names in canonical form, caps ordered, nothing listed twice.\<close>

definition wf_grant :: "authz_env \<Rightarrow> grant \<Rightarrow> bool" where
  "wf_grant env g \<longleftrightarrow>
     (\<exists>asset. parseAsset env (JStr (g_asset g)) = Some asset \<and> canonical asset = g_asset g \<and>
        (\<forall>r \<in> set (recipients g). canonicalAddress env (JStr r) (pa_namespace asset) = Some r)) \<and>
     recipients g \<noteq> [] \<and> distinct (recipients g) \<and>
     0 < maxPerPayment g \<and> maxPerPayment g \<le> maxTotal g \<and>
     (\<forall>n \<in> set_option (maxCount g). 0 < n \<and> safe_integer n) \<and>
     (\<forall>p \<in> set_option (period g). 0 < p_amount p \<and> p_amount p \<le> maxTotal g \<and>
        0 < p_seconds p \<and> safe_integer (p_seconds p) \<and> 0 < p_start p \<and> safe_integer (p_start p) \<and>
        ''mpp-session'' \<notin> set (g_rails g)) \<and>
     g_rails g \<noteq> [] \<and> distinct (g_rails g) \<and> set (g_rails g) \<subseteq> set all_rails"

definition wf_authorization :: "authz_env \<Rightarrow> authorization_doc \<Rightarrow> bool" where
  "wf_authorization env a \<longleftrightarrow>
     canonicalPrincipal env (JStr (principal a)) = Some (principal a) \<and>
     grants a \<noteq> [] \<and> (\<forall>g \<in> set (grants a). wf_grant env g) \<and> \<not> any_overlap (grants a) \<and>
     0 < expiresAt a \<and> safe_integer (expiresAt a) \<and>
     (\<forall>n \<in> set_option (notBefore a). 0 \<le> n \<and> safe_integer n \<and> n < expiresAt a)"

text \<open>A well-formed document, written out as a plain value, validates to itself.\<close>

lemma period_js_read: "read_period (period_js p) = p"
  by (simp add: period_js_def)

lemma grant_fields:
  "field ''asset'' raw = JStr (g_asset g) \<and> field ''recipients'' raw = JArr (map JStr (recipients g)) \<and>
   field ''maxPerPayment'' raw = JBig (maxPerPayment g) \<and> field ''maxTotal'' raw = JBig (maxTotal g) \<and>
   field ''maxCount'' raw = (case maxCount g of None \<Rightarrow> JUndefined | Some n \<Rightarrow> JInt n) \<and>
   field ''period'' raw = (case period g of None \<Rightarrow> JUndefined | Some p \<Rightarrow> period_js p) \<and>
   field ''rails'' raw = JArr (map JStr (g_rails g)) \<and>
   exactKeys raw [''asset'', ''recipients'', ''maxPerPayment'', ''maxTotal'', ''rails'']
     [''maxCount'', ''period'']"
  if "grant_js g = JObj raw"
  using that by (cases "maxCount g"; cases "period g") (auto simp: grant_js_def opt_prop_def exactKeys_def)

lemma validate_grant_wf:
  assumes "wf_grant env g"
  shows "validate_grant env (grant_js g) = Inr g"
proof -
  obtain raw where raw: "grant_js g = JObj raw" by (simp add: grant_js_def)
  note f = grant_fields [OF raw]
  obtain asset where asset: "parseAsset env (JStr (g_asset g)) = Some asset" "canonical asset = g_asset g"
    "\<forall>r \<in> set (recipients g). canonicalAddress env (JStr r) (pa_namespace asset) = Some r"
    using assms by (auto simp: wf_grant_def)
  have gs: "grant_structure raw"
    using f assms by (auto simp: grant_structure_def wf_grant_def split: option.splits)
  have ps: "period_structure raw"
    using f assms by (auto simp: period_structure_def wf_grant_def period_js_def exactKeys_def split: option.splits)
  have rs: "map (\<lambda>x. the (canonicalAddress env (JStr x) (pa_namespace asset))) (recipients g) = recipients g"
    by (rule map_idI) (use asset(3) in simp)
  have rl: "map str_of (map JStr (g_rails g)) = g_rails g" by (simp add: comp_def)
  have mc: "defined int_of (field ''maxCount'' raw) = maxCount g" using f by (simp split: option.splits)
  have pe: "defined read_period (field ''period'' raw) = period g"
    using f period_js_read by (auto simp: period_js_def split: option.splits)
  have pm: "\<not> (field ''period'' raw \<noteq> JUndefined \<and> ''mpp-session'' \<in> set (g_rails g))"
    using f assms by (auto simp: wf_grant_def split: option.splits)
  show ?thesis
    using f gs ps asset rs rl mc pe pm assms raw
    by (simp add: validate_grant_def wf_grant_def Let_def comp_def)
qed

lemma validate_grants_wf: "\<forall>g \<in> set gs. wf_grant env g \<Longrightarrow> validate_grants env (map grant_js gs) = Inr gs"
  by (induction gs) (simp_all add: validate_grant_wf)

lemma validate_wf:
  assumes "wf_authorization env a"
  shows "validateAuthorization env (authorization_js a) = Inr a"
proof -
  have f: "authorization_js a = JObj v \<Longrightarrow>
      field ''version'' v = JInt 1 \<and> field ''principal'' v = JStr (principal a) \<and>
      field ''grants'' v = JArr (map grant_js (grants a)) \<and> field ''expiresAt'' v = JInt (expiresAt a) \<and>
      field ''label'' v = (case label_text a of None \<Rightarrow> JUndefined | Some l \<Rightarrow> JStr l) \<and>
      field ''notBefore'' v = (case notBefore a of None \<Rightarrow> JUndefined | Some n \<Rightarrow> JInt n) \<and>
      exactKeys v [''version'', ''principal'', ''grants'', ''expiresAt''] [''label'', ''notBefore'']" for v
    by (cases "label_text a"; cases "notBefore a") (auto simp: authorization_js_def opt_prop_def exactKeys_def)
  obtain v where v: "authorization_js a = JObj v" by (simp add: authorization_js_def)
  have st: "authorization_structure v"
    using f [OF v] assms by (auto simp: authorization_structure_def wf_authorization_def split: option.splits)
  show ?thesis
    using f [OF v] v st assms validate_grants_wf [of "grants a" env]
    by (auto simp: validateAuthorization_def wf_authorization_def split: option.splits)
qed

text \<open>And whatever validation returns is well formed.\<close>

lemma validate_grant_Inr:
  assumes "b58_canonical env" "validate_grant env v = Inr g"
  shows "wf_grant env g"
proof -
  obtain raw asset where raw: "v = JObj raw" "grant_structure raw" "period_structure raw"
    and asset: "parseAsset env (field ''asset'' raw) = Some asset"
    and ok: "None \<notin> set (map (\<lambda>r. canonicalAddress env r (pa_namespace asset)) (items_of (field ''recipients'' raw)))"
      "\<not> (field ''period'' raw \<noteq> JUndefined \<and> ''mpp-session'' \<in> set (g_rails g))"
      "distinct (recipients g)" "distinct (g_rails g)"
    and g: "g_asset g = canonical asset"
      "recipients g = map the (map (\<lambda>r. canonicalAddress env r (pa_namespace asset)) (items_of (field ''recipients'' raw)))"
      "maxPerPayment g = int_of (field ''maxPerPayment'' raw)" "maxTotal g = int_of (field ''maxTotal'' raw)"
      "maxCount g = defined int_of (field ''maxCount'' raw)"
      "period g = defined read_period (field ''period'' raw)"
      "g_rails g = map str_of (items_of (field ''rails'' raw))"
    using assms(2) by (auto simp: validate_grant_def Let_def split: jsval.splits if_splits option.splits)
  have a: "parseAsset env (JStr (g_asset g)) = Some asset" using parseAsset_idem [OF assms(1) asset] g(1) by simp
  have r: "\<forall>r \<in> set (recipients g). canonicalAddress env (JStr r) (pa_namespace asset) = Some r"
  proof
    fix r assume "r \<in> set (recipients g)"
    then obtain j where "j \<in> set (items_of (field ''recipients'' raw))"
      "r = the (canonicalAddress env j (pa_namespace asset))" using g(2) by auto
    moreover then have "canonicalAddress env j (pa_namespace asset) \<noteq> None" using ok(1) by (metis imageI set_map)
    ultimately show "canonicalAddress env (JStr r) (pa_namespace asset) = Some r"
      using canonicalAddress_idem [OF assms(1)] by auto
  qed
  have rs: "recipients g \<noteq> []"
    using raw(2) g(2) by (auto simp: grant_structure_def split: jsval.splits)
  have caps: "0 < maxPerPayment g \<and> maxPerPayment g \<le> maxTotal g"
    using raw(2) g(3,4) by (auto simp: grant_structure_def big_where_iff)
  have count: "\<forall>n \<in> set_option (maxCount g). 0 < n \<and> safe_integer n"
    using raw(2) g(5) by (auto simp: grant_structure_def safe_where_iff)
  have rl: "g_rails g \<noteq> [] \<and> set (g_rails g) \<subseteq> set all_rails"
  proof -
    obtain rs where rs: "field ''rails'' raw = JArr rs" "rs \<noteq> []"
      "\<forall>r \<in> set rs. case r of JStr s \<Rightarrow> s \<in> set all_rails | _ \<Rightarrow> False"
      using raw(2) by (auto simp: grant_structure_def split: jsval.splits)
    have "str_of r \<in> set all_rails" if "r \<in> set rs" for r
      using rs(3) that by (cases r) auto
    then show ?thesis using rs(1,2) g(7) by auto
  qed
  have per: "\<forall>p \<in> set_option (period g). 0 < p_amount p \<and> p_amount p \<le> maxTotal g \<and>
        0 < p_seconds p \<and> safe_integer (p_seconds p) \<and> 0 < p_start p \<and> safe_integer (p_start p) \<and>
        ''mpp-session'' \<notin> set (g_rails g)"
  proof
    fix p assume p: "p \<in> set_option (period g)"
    then have d: "field ''period'' raw \<noteq> JUndefined" "p = read_period (field ''period'' raw)"
      using g(6) by (auto simp: defined_def split: if_splits)
    then obtain ps where ps: "field ''period'' raw = JObj ps"
      "big_where (\<lambda>n. 0 < n \<and> n \<le> int_of (field ''maxTotal'' raw)) (field ''amount'' ps)"
      "safe_where (\<lambda>n. 0 < n) (field ''seconds'' ps)" "safe_where (\<lambda>n. 0 < n) (field ''start'' ps)"
      using raw(3) by (auto simp: period_structure_def split: jsval.splits)
    then show "0 < p_amount p \<and> p_amount p \<le> maxTotal g \<and>
        0 < p_seconds p \<and> safe_integer (p_seconds p) \<and> 0 < p_start p \<and> safe_integer (p_start p) \<and>
        ''mpp-session'' \<notin> set (g_rails g)"
      using d ok(2) g(4) by (auto simp: safe_where_iff big_where_iff)
  qed
  show ?thesis unfolding wf_grant_def using a g(1) r rs caps count rl per ok(3,4) by auto
qed

lemma validate_grants_Inr:
  "b58_canonical env \<Longrightarrow> validate_grants env vs = Inr gs \<Longrightarrow>
     (\<forall>g \<in> set gs. wf_grant env g) \<and> length gs = length vs"
  by (induction vs arbitrary: gs) (auto dest: validate_grant_Inr)

lemma canonicalPrincipal_idem:
  assumes "b58_canonical env" "canonicalPrincipal env v = Some p"
  shows "canonicalPrincipal env (JStr p) = Some p"
proof -
  obtain s acc where v: "v = JStr s" and acc: "parseCaip10 s = Some acc"
    using assms(2) by (auto simp: canonicalPrincipal_def split: jsval.splits option.splits)
  consider (evm) "acc_namespace acc = ''eip155''" | (sol) "acc_namespace acc = ''solana''"
    using assms(2) v acc by (auto simp: canonicalPrincipal_def split: if_splits)
  then show ?thesis
  proof cases
    case evm
    then obtain a n where a: "canonicalAddress env (JStr (acc_address acc)) Eip155 = Some a" "a \<noteq> []"
      and n: "eip155Reference (acc_chainId acc) = Some n" and p: "p = ''eip155:'' @ show_int n @ '':'' @ a"
      using assms(2) v acc by (auto simp: canonicalPrincipal_def Let_def split: option.splits if_splits)
    have pos: "0 < n" "n \<le> max_safe" using n by (simp_all add: eip155Reference_iff)
    have ia: "canonicalAddress env (JStr a) Eip155 = Some a" by (rule canonicalAddress_idem [OF assms(1) a(1)])
    then have "evm_addr_re a" by (auto simp: canonicalAddress_def split: if_splits)
    then obtain r where r: "a = ''0x'' @ r" "\<forall>c \<in> set r. is_hex c" unfolding evm_addr_iff by blast
    have "\<not> is_hex CHR '':''" by (simp add: is_hex_def hex_val_def ord_def)
    then have colon: "CHR '':'' \<notin> set a" using r by auto
    let ?acc = "\<lparr>acc_namespace = ''eip155'', acc_chainId = ''eip155:'' @ show_int n, acc_address = a\<rparr>"
    have "parseCaip10 p = Some ?acc"
      using p a(2) colon eip155_text_parse [OF show_nat_positive, of "nat n"] pos
      unfolding parseCaip10_iff by (simp add: show_int_pos)
    then show ?thesis using ia a(2) eip155Reference_show [OF pos] p by (simp add: canonicalPrincipal_def)
  next
    case sol
    then obtain a where a: "canonicalAddress env (JStr (acc_address acc)) SolanaNs = Some a" "a \<noteq> []"
      and c: "solana_chain_re (acc_chainId acc)" and p: "p = acc_chainId acc @ '':'' @ a"
      using assms(2) v acc by (auto simp: canonicalPrincipal_def Let_def split: option.splits if_splits)
    have ia: "canonicalAddress env (JStr a) SolanaNs = Some a" by (rule canonicalAddress_idem [OF assms(1) a(1)])
    then have "isValidSolanaAddress a" by (auto simp: canonicalAddress_def split: if_splits)
    moreover have "\<not> base58_char CHR '':''" by (simp add: base58_char_def ord_def)
    ultimately have colon: "CHR '':'' \<notin> set a" by (auto simp: isValidSolanaAddress_def)
    let ?acc = "\<lparr>acc_namespace = ''solana'', acc_chainId = acc_chainId acc, acc_address = a\<rparr>"
    have "\<exists>q. parseChainId (acc_chainId acc) = Inr q \<and> c2_namespace q = ''solana''"
      using acc sol unfolding parseCaip10_iff by simp
    then have "parseCaip10 p = Some ?acc" using p a(2) colon unfolding parseCaip10_iff by simp
    then show ?thesis using ia a(2) c p by (simp add: canonicalPrincipal_def)
  qed
qed

lemma validate_Inr_wf:
  assumes "b58_canonical env" "validateAuthorization env value = Inr a"
  shows "wf_authorization env a"
proof -
  obtain v where v: "authorization_structure v"
    "canonicalPrincipal env (field ''principal'' v) = Some (principal a)"
    "validate_grants env (items_of (field ''grants'' v)) = Inr (grants a)" "\<not> any_overlap (grants a)"
    "notBefore a = defined int_of (field ''notBefore'' v)" "expiresAt a = int_of (field ''expiresAt'' v)"
    using assms(2) by (auto simp: validateAuthorization_def split: jsval.splits if_splits option.splits)
  have "grants a \<noteq> []"
    using v(1,3) by (auto simp: authorization_structure_def split: jsval.splits dest: validate_grants_Inr [OF assms(1)])
  moreover have "0 < expiresAt a \<and> safe_integer (expiresAt a)"
    using v(1,6) by (auto simp: authorization_structure_def safe_where_iff)
  moreover have "\<forall>n \<in> set_option (notBefore a). 0 \<le> n \<and> safe_integer n \<and> n < expiresAt a"
    using v(1,5,6) by (auto simp: authorization_structure_def safe_where_iff defined_def split: if_splits)
  ultimately show ?thesis
    unfolding wf_authorization_def
    using v canonicalPrincipal_idem [OF assms(1)] validate_grants_Inr [OF assms(1)] by blast
qed

section \<open>What an allowed spend satisfies\<close>

lemma indexed_iff: "(i, x) \<in> set (indexed xs) \<longleftrightarrow> i < length xs \<and> xs ! i = x"
  by (auto simp: indexed_def set_zip intro!: exI [of _ i])

lemma any_overlap_nth:
  "\<not> any_overlap gs \<Longrightarrow> i < length gs \<Longrightarrow> j < length gs \<Longrightarrow> i < j \<Longrightarrow> \<not> grants_overlap (gs ! i) (gs ! j)"
proof (induction gs arbitrary: i j)
  case (Cons g gs)
  then show ?case by (cases i; cases j) auto
qed simp

lemma overlap_sym: "grants_overlap a b \<longleftrightarrow> grants_overlap b a"
  by (auto simp: grants_overlap_def)

text \<open>The grant a spend falls under: asset, rail and recipient all match.\<close>

definition covers :: "authz_env \<Rightarrow> grant \<Rightarrow> props \<Rightarrow> bool" where
  "covers env g q \<longleftrightarrow>
     (\<exists>asset r. parseAsset env (field ''asset'' q) = Some asset \<and> g_asset g = canonical asset \<and>
        str_of (field ''rail'' q) \<in> set (g_rails g) \<and>
        canonicalAddress env (field ''recipient'' q) (pa_namespace asset) = Some r \<and> r \<in> set (recipients g))"

lemma covers_overlap: "covers env g q \<Longrightarrow> covers env h q \<Longrightarrow> grants_overlap g h"
  by (auto simp: covers_def grants_overlap_def)

lemma evaluateSpend_Inr:
  assumes "evaluateSpend env value request = Inr i"
  shows "\<exists>a q. validateAuthorization env value = Inr a \<and> request = JObj q \<and> request_structure q \<and>
    int_of (field ''at'' q) < expiresAt a \<and> (\<forall>n. notBefore a = Some n \<longrightarrow> n \<le> int_of (field ''at'' q)) \<and>
    i < length (grants a) \<and> covers env (grants a ! i) q \<and> grant_refusal (grants a ! i) q = None"
proof -
  obtain a q asset r g where h: "validateAuthorization env value = Inr a" "request = JObj q"
    "request_structure q" "\<not> int_of (field ''at'' q) \<ge> expiresAt a"
    "\<not> (case notBefore a of None \<Rightarrow> False | Some n \<Rightarrow> int_of (field ''at'' q) < n)"
    "parseAsset env (field ''asset'' q) = Some asset"
    "canonicalAddress env (field ''recipient'' q) (pa_namespace asset) = Some r"
    and f: "find (\<lambda>(i, g). r \<in> set (recipients g))
      (filter (\<lambda>(i, g). str_of (field ''rail'' q) \<in> set (g_rails g))
        (filter (\<lambda>(i, g). g_asset g = canonical asset) (indexed (grants a)))) = Some (i, g)"
    and n: "grant_refusal g q = None"
    using assms by (auto simp: evaluateSpend_def Let_def split: sum.splits jsval.splits if_splits option.splits)
  from find_SomeD [OF f] have g: "i < length (grants a)" "grants a ! i = g" "g_asset g = canonical asset"
    "str_of (field ''rail'' q) \<in> set (g_rails g)" "r \<in> set (recipients g)"
    by (auto simp: indexed_iff)
  then have "covers env (grants a ! i) q" using h(6,7) by (auto simp: covers_def)
  with h g n show ?thesis by (auto split: option.splits)
qed

lemma grant_refusal_None:
  "grant_refusal g q = None \<longleftrightarrow>
     int_of (field ''amount'' q) \<le> maxPerPayment g \<and>
     int_of (field ''spentSoFar'' q) + int_of (field ''amount'' q) \<le> maxTotal g \<and>
     (\<forall>n. maxCount g = Some n \<longrightarrow> int_of (field ''countSoFar'' q) < n) \<and>
     (\<forall>p. period g = Some p \<longrightarrow> p_start p \<le> int_of (field ''at'' q) \<and>
        0 \<le> (int_of (field ''at'' q) - p_start p) div p_seconds p \<and>
        field ''periodSpentSoFar'' q \<noteq> JUndefined \<and>
        int_of (field ''periodSpentSoFar'' q) + int_of (field ''amount'' q) \<le> p_amount p)"
  by (auto simp: grant_refusal_def Let_def split: option.splits)

end
