(* ===== verification/AuthzSpend.thy ===== *)
theory AuthzSpend
  imports Authz Interfaces
begin

text \<open>
  What \<open>validateAuthorization\<close> and \<open>evaluateSpend\<close> guarantee: validation is a projection onto
  canonical documents, the decision is equivalent to a declarative condition on the one grant
  that covers the spend, and a payer that records what was allowed never passes a limit.
\<close>

section \<open>The decision, declaratively\<close>

definition spend_allowed :: "authz_env \<Rightarrow> authorization_doc \<Rightarrow> props \<Rightarrow> nat \<Rightarrow> bool" where
  "spend_allowed env a q i \<longleftrightarrow>
     request_structure q \<and> int_of (field ''at'' q) < expiresAt a \<and>
     (\<forall>n. notBefore a = Some n \<longrightarrow> n \<le> int_of (field ''at'' q)) \<and>
     i < length (grants a) \<and> covers env (grants a ! i) q \<and> grant_refusal (grants a ! i) q = None"

lemma covers_unique:
  assumes "validateAuthorization env doc = Inr a"
    and "i < length (grants a)" "j < length (grants a)" "covers env (grants a ! i) q" "covers env (grants a ! j) q"
  shows "i = j"
proof -
  have no: "\<not> any_overlap (grants a)"
    using assms(1) by (auto simp: validateAuthorization_def split: jsval.splits if_splits option.splits)
  show ?thesis
    using assms(2-) covers_overlap any_overlap_nth [OF no] overlap_sym by (metis linorder_neqE_nat)
qed

lemma covers_nonempty:
  assumes "covers env g q"
  shows "\<exists>asset r. parseAsset env (field ''asset'' q) = Some asset \<and> g_asset g = canonical asset \<and>
    str_of (field ''rail'' q) \<in> set (g_rails g) \<and>
    canonicalAddress env (field ''recipient'' q) (pa_namespace asset) = Some r \<and> r \<in> set (recipients g)"
  using assms by (simp add: covers_def)

lemma allowed_evaluates:
  assumes v: "validateAuthorization env doc = Inr a" and al: "spend_allowed env a q i"
    and ne: "\<And>ns. canonicalAddress env (field ''recipient'' q) ns \<noteq> Some []"
  shows "evaluateSpend env doc (JObj q) = Inr i"
proof -
  let ?g = "grants a ! i"
  obtain asset r where c: "parseAsset env (field ''asset'' q) = Some asset" "g_asset ?g = canonical asset"
    "str_of (field ''rail'' q) \<in> set (g_rails ?g)"
    "canonicalAddress env (field ''recipient'' q) (pa_namespace asset) = Some r" "r \<in> set (recipients ?g)"
    using al covers_nonempty [of env ?g q] unfolding spend_allowed_def by blast
  let ?am = "filter (\<lambda>(i, g). g_asset g = canonical asset) (indexed (grants a))"
  let ?rm = "filter (\<lambda>(i, g). str_of (field ''rail'' q) \<in> set (g_rails g)) ?am"
  have i: "i < length (grants a)" using al by (simp add: spend_allowed_def)
  have mem: "(i, ?g) \<in> set ?rm" using c i by (auto simp: indexed_iff)
  have f: "find (\<lambda>(i, g). r \<in> set (recipients g)) ?rm = Some (i, ?g)"
  proof (rule find_unique [OF mem])
    show "case (i, ?g) of (i, g) \<Rightarrow> r \<in> set (recipients g)" using c(5) by simp
    fix y assume y: "y \<in> set ?rm" "case y of (i, g) \<Rightarrow> r \<in> set (recipients g)"
    then obtain j where j: "y = (j, grants a ! j)" "j < length (grants a)" by (auto simp: indexed_iff)
    then have "covers env (grants a ! j) q" using y c by (auto simp: covers_def)
    then have "j = i" using covers_unique [OF v j(2) i] al by (simp add: spend_allowed_def)
    then show "y = (i, ?g)" using j by simp
  qed
  have "?rm \<noteq> []" using mem by (metis empty_iff list.set(1))
  moreover from this have "?am \<noteq> []" by (metis filter.simps(1))
  moreover have "r \<noteq> []" using ne [of "pa_namespace asset"] c(4) by auto
  ultimately show ?thesis
    using v al c f by (auto simp: evaluateSpend_def spend_allowed_def Let_def split: option.splits)
qed

text \<open>The recipients of a well-formed document are addresses, so none of them is empty.\<close>

lemma canonicalAddress_nonempty:
  assumes "b58_canonical env" "canonicalAddress env v ns = Some a"
  shows "a \<noteq> []"
proof (cases ns)
  case Eip155
  with assms(2) obtain s where "toChecksumAddress (e_keccak env) s = Some a"
    by (auto simp: canonicalAddress_def split: jsval.splits if_splits)
  then have "evm_addr_re a" using toChecksumAddress_Some by blast
  then show ?thesis by (auto simp: evm_addr_iff)
next
  case SolanaNs
  then have "canonicalSolanaAddress env v = Some a"
    using assms(2) by (auto simp: canonicalAddress_def split: jsval.splits if_splits)
  then show ?thesis using canonicalSolana_id [OF assms(1)] by (auto simp: dot_plus_def)
qed

lemma evaluateSpend_iff:
  assumes "b58_canonical env" "validateAuthorization env doc = Inr a"
  shows "evaluateSpend env doc (JObj q) = Inr i \<longleftrightarrow> spend_allowed env a q i"
proof
  assume "evaluateSpend env doc (JObj q) = Inr i"
  then show "spend_allowed env a q i"
    using evaluateSpend_Inr [of env doc "JObj q" i] assms(2) by (simp add: spend_allowed_def)
next
  assume "spend_allowed env a q i"
  then show "evaluateSpend env doc (JObj q) = Inr i"
    using allowed_evaluates [OF assms(2)] canonicalAddress_nonempty [OF assms(1)] by blast
qed

section \<open>A payer that records what it was allowed\<close>

record ledger =
  l_spent :: int
  l_count :: int

definition asked_with :: "ledger \<Rightarrow> props \<Rightarrow> bool" where
  "asked_with s q \<longleftrightarrow>
     field ''spentSoFar'' q = JBig (l_spent s) \<and> field ''countSoFar'' q = JInt (l_count s)"

inductive pay_step :: "authz_env \<Rightarrow> jsval \<Rightarrow> nat \<Rightarrow> ledger \<Rightarrow> ledger \<Rightarrow> bool"
  for env :: authz_env and doc :: jsval and i :: nat where
  pay: "evaluateSpend env doc (JObj q) = Inr i \<Longrightarrow> asked_with s q \<Longrightarrow>
    pay_step env doc i s
      \<lparr>l_spent = l_spent s + int_of (field ''amount'' q), l_count = l_count s + 1\<rparr>"

inductive_cases pay_stepE: "pay_step env doc i s s'"

text \<open>The limits of the \<open>i\<close>-th grant of an authorization.\<close>

definition granted :: "authz_env \<Rightarrow> jsval \<Rightarrow> nat \<Rightarrow> grant option" where
  "granted env doc i =
     (case validateAuthorization env doc of Inl _ \<Rightarrow> None
      | Inr a \<Rightarrow> if i < length (grants a) then Some (grants a ! i) else None)"

lemma granted_positive:
  assumes "b58_canonical env" "granted env doc i = Some g"
  shows "0 < maxTotal g \<and> (\<forall>n. maxCount g = Some n \<longrightarrow> 0 < n)"
  using assms validate_Inr_wf [OF assms(1), of doc]
  by (auto simp: granted_def wf_authorization_def wf_grant_def split: sum.splits if_splits dest!: nth_mem)

lemma pay_step_limits:
  assumes "pay_step env doc i s s'"
  obtains g where "granted env doc i = Some g" "l_spent s < l_spent s'" "l_spent s' \<le> maxTotal g"
    "l_count s' = l_count s + 1" "\<forall>n. maxCount g = Some n \<longrightarrow> l_count s' \<le> n"
proof -
  obtain q where q: "evaluateSpend env doc (JObj q) = Inr i" "asked_with s q"
    and s': "s' = \<lparr>l_spent = l_spent s + int_of (field ''amount'' q), l_count = l_count s + 1\<rparr>"
    using assms by (auto elim: pay_stepE)
  obtain a where a: "validateAuthorization env doc = Inr a" "request_structure q" "i < length (grants a)"
    "grant_refusal (grants a ! i) q = None"
    using evaluateSpend_Inr [OF q(1)] by auto
  have "0 < int_of (field ''amount'' q)" using a(2) by (auto simp: request_structure_def big_where_iff)
  moreover have "\<forall>n. maxCount (grants a ! i) = Some n \<longrightarrow> l_count s + 1 \<le> n"
    using a(4) q(2) by (auto simp: grant_refusal_None asked_with_def)
  ultimately show thesis
    using that [of "grants a ! i"] a q(2) s' by (simp add: granted_def asked_with_def grant_refusal_None)
qed

interpretation grant_total: budget l_spent "\<lambda>_. map_option maxTotal (granted env doc i)" "pay_step env doc i"
  for env doc i
  by unfold_locales (auto elim: pay_step_limits)

interpretation grant_count: budget l_count "\<lambda>_. Option.bind (granted env doc i) maxCount" "pay_step env doc i"
  for env doc i
proof unfold_locales
  fix s s' assume "pay_step env doc i s s'"
  then obtain g where g: "granted env doc i = Some g" "l_count s' = l_count s + 1"
    "\<forall>n. maxCount g = Some n \<longrightarrow> l_count s' \<le> n" by (rule pay_step_limits) blast
  then show "l_count s' = l_count s \<or> (\<forall>l. Option.bind (granted env doc i) maxCount = Some l \<longrightarrow> l_count s' \<le> l)"
    by simp
  show "l_count s \<le> l_count s'" using g(2) by simp
qed simp

section \<open>Properties\<close>

text \<open>
  A concrete authorization over concrete parameters: a checksum that leaves addresses in lower
  case, and a base58 codec that knows the address of the Solana system program.
\<close>

definition system_address :: string where
  "system_address = replicate 32 CHR ''1''"

definition toy_env :: authz_env where
  "toy_env = \<lparr>e_keccak = (\<lambda>x. replicate 32 0), e_sha256 = (\<lambda>x. replicate 32 0),
     b58_decode = (\<lambda>s. if s = system_address then Some (replicate 32 0) else None),
     b58_encode = (\<lambda>b. system_address)\<rparr>"

lemma toy_env_canonical: "b58_canonical toy_env"
  by (auto simp: b58_canonical_def toy_env_def split: if_splits)

definition demo_token :: string where "demo_token = ''0x'' @ replicate 40 CHR ''a''"
definition demo_payee :: string where "demo_payee = ''0x'' @ replicate 40 CHR ''b''"
definition demo_owner :: string where "demo_owner = ''0x'' @ replicate 40 CHR ''c''"

definition demo_grant :: grant where
  "demo_grant = \<lparr>g_asset = ''eip155:1/erc20:'' @ demo_token, recipients = [demo_payee],
     maxPerPayment = 40, maxTotal = 100, maxCount = Some 5,
     period = Some \<lparr>p_amount = 60, p_seconds = 3600, p_start = 1000\<rparr>, g_rails = [''transfer'']\<rparr>"

definition demo_doc :: authorization_doc where
  "demo_doc = \<lparr>principal = ''eip155:1:'' @ demo_owner, label_text = Some ''demo'', grants = [demo_grant],
     notBefore = None, expiresAt = 9000\<rparr>"

definition demo_request :: "int \<Rightarrow> int \<Rightarrow> int \<Rightarrow> props" where
  "demo_request amount spent n =
     [(''asset'', JStr (''eip155:1/erc20:'' @ demo_token)), (''recipient'', JStr demo_payee),
      (''amount'', JBig amount), (''rail'', JStr ''transfer''), (''at'', JInt 2000),
      (''spentSoFar'', JBig spent), (''countSoFar'', JInt n), (''periodSpentSoFar'', JBig spent)]"

lemma demo_validates: "validateAuthorization toy_env (authorization_js demo_doc) = Inr demo_doc"
  by code_simp

lemma demo_allowed: "evaluateSpend toy_env (authorization_js demo_doc) (JObj (demo_request 40 0 0)) = Inr 0"
  by code_simp

text \<open>
  Validation is a projection onto canonical documents: what it returns is well formed
  (canonical names, ordered caps, no overlapping grants, a consistent validity window) and
  validating it again returns it unchanged, so a document may be stored and re-validated.
\<close>

lemma validation_projection:
  assumes "b58_canonical env" "validateAuthorization env doc = Inr a"
  shows "wf_authorization env a \<and> validateAuthorization env (authorization_js a) = Inr a"
  using validate_Inr_wf [OF assms] validate_wf by blast

lemma validation_projection_witness:
  "wf_authorization toy_env demo_doc \<and> validateAuthorization toy_env (authorization_js demo_doc) = Inr demo_doc"
  using validation_projection [OF toy_env_canonical demo_validates] .



text \<open>
  A payer that records what it was allowed stays inside the grant: along any sequence of
  payments, each approved by \<open>evaluateSpend\<close> with the totals recorded so far, the amount spent
  under a grant never exceeds its \<open>maxTotal\<close> and the number of payments never exceeds its
  \<open>maxCount\<close>.
\<close>

lemma payments_within_grant:
  assumes "b58_canonical env"
    and "(pay_step env doc i)\<^sup>*\<^sup>* \<lparr>l_spent = 0, l_count = 0\<rparr> s" "granted env doc i = Some g"
  shows "l_spent s \<le> maxTotal g \<and> (\<forall>n. maxCount g = Some n \<longrightarrow> l_count s \<le> n)"
  using grant_total.within_run [OF assms(2), unfolded grant_total.within_def]
    grant_count.within_run [OF assms(2), unfolded grant_count.within_def]
    granted_positive [OF assms(1,3)] assms(3) by auto

lemma payments_within_grant_witness:
  "(pay_step toy_env (authorization_js demo_doc) 0)\<^sup>*\<^sup>* \<lparr>l_spent = 0, l_count = 0\<rparr> \<lparr>l_spent = 40, l_count = 1\<rparr> \<and>
   (40 :: int) \<le> maxTotal demo_grant \<and> (1::int) \<le> 5"
proof -
  let ?r = "demo_request 40 0 0"
  have "pay_step toy_env (authorization_js demo_doc) 0 \<lparr>l_spent = 0, l_count = 0\<rparr>
      \<lparr>l_spent = l_spent \<lparr>l_spent = 0, l_count = 0\<rparr> + int_of (field ''amount'' ?r),
       l_count = l_count \<lparr>l_spent = 0, l_count = 0\<rparr> + 1\<rparr>"
    by (rule pay_step.pay [OF demo_allowed]) (simp add: asked_with_def demo_request_def)
  then have run: "(pay_step toy_env (authorization_js demo_doc) 0)\<^sup>*\<^sup>* \<lparr>l_spent = 0, l_count = 0\<rparr> \<lparr>l_spent = 40, l_count = 1\<rparr>"
    by (simp add: demo_request_def r_into_rtranclp)
  have g: "granted toy_env (authorization_js demo_doc) 0 = Some demo_grant"
    using demo_validates by (simp add: granted_def demo_doc_def)
  from payments_within_grant [OF toy_env_canonical run g] run show ?thesis by (simp add: demo_grant_def)
qed

end
