(* ===== verification/SolanaWire.thy ===== *)
theory SolanaWire
  imports Interfaces Crypto Addresses
begin

text \<open>
  packages/core/src/solana-wire.ts and the byte reader of solana-payment.ts: addresses as keys,
  little-endian integers, the compact length prefix, and the compilation of instructions into a
  version 0 message.  The curve, the hash and the base58 and base64 codecs come from packages and
  are fields of the parameter \<open>env\<close>.  Reader and writer of the length prefix are proved to be a
  strict codec: the reader accepts exactly what the writer writes.
\<close>

section \<open>Errors and external functions\<close>

datatype wallet_error = WalletError (we_code: string) (we_message: string)

abbreviation fail :: "string \<Rightarrow> wallet_error" where
  "fail m \<equiv> WalletError ''invalid_input'' m"

record sol_env =
  s_crypto :: crypto
  ed_public :: "bytes \<Rightarrow> bytes"
  ed_sign :: "bytes \<Rightarrow> bytes \<Rightarrow> bytes"
  ed_verify :: "bytes \<Rightarrow> bytes \<Rightarrow> bytes \<Rightarrow> bool"
  on_curve :: "bytes \<Rightarrow> bool"
  s58_decode :: "string \<Rightarrow> bytes option"
  s58_encode :: "bytes \<Rightarrow> string"
  s64_encode :: "bytes \<Rightarrow> string"

text \<open>
  The documented laws of the codec: a text that decodes is the encoding of what it decodes to, and
  what was encoded decodes.
\<close>

definition base58_laws :: "sol_env \<Rightarrow> bool" where
  "base58_laws env \<longleftrightarrow>
     (\<forall>s b. s58_decode env s = Some b \<longrightarrow> s58_encode env b = s) \<and>
     (\<forall>b. s58_decode env (s58_encode env b) = Some b)"

text \<open>\<open>key(address, what)\<close>.\<close>

definition key_bytes :: "sol_env \<Rightarrow> string \<Rightarrow> string \<Rightarrow> wallet_error + bytes" where
  "key_bytes env address what =
     (case s58_decode env address of
        None \<Rightarrow> Inl (fail (what @ '' is not a base58 address.''))
      | Some b \<Rightarrow> if length b = 32 then Inr b else Inl (fail (what @ '' is not a 32-byte address.'')))"

text \<open>The loop of \<open>equal\<close>: a difference in any byte leaves a bit in \<open>diff\<close>.\<close>

definition equal_bytes :: "bytes \<Rightarrow> bytes \<Rightarrow> bool" where
  "equal_bytes a b \<longleftrightarrow>
     length a = length b \<and> fold (\<lambda>(x, y) diff. or diff (xor x y)) (zip a b) 0 = 0"

section \<open>Little-endian integers\<close>

primrec le_bytes :: "nat \<Rightarrow> nat \<Rightarrow> bytes" where
  "le_bytes 0 v = []"
| "le_bytes (Suc n) v = word_of_nat (v mod 256) # le_bytes n (v div 256)"

fun le_value :: "bytes \<Rightarrow> nat" where
  "le_value [] = 0"
| "le_value (b # bs) = unat b + 256 * le_value bs"

section \<open>The compact length prefix\<close>

fun shortVec :: "nat \<Rightarrow> bytes" where
  "shortVec n =
     (if n < 128 then [word_of_nat n] else word_of_nat (n mod 128 + 128) # shortVec (n div 128))"

declare shortVec.simps [simp del]

text \<open>The methods of \<open>Reader\<close>; the state is what is left to read.\<close>

fun r_byte :: "bytes \<Rightarrow> wallet_error + byte \<times> bytes" where
  "r_byte [] = Inl (fail ''Transaction is truncated.'')"
| "r_byte (b # r) = Inr (b, r)"

definition r_take :: "nat \<Rightarrow> bytes \<Rightarrow> wallet_error + bytes \<times> bytes" where
  "r_take n bs = (if length bs < n then Inl (fail ''Transaction is truncated.'') else Inr (take n bs, drop n bs))"

text \<open>
  \<open>shortVec\<close> of the reader from its \<open>i\<close>-th byte on.  The bits of each byte are disjoint from those
  read before, so \<open>|=\<close> adds.
\<close>

function r_short :: "nat \<Rightarrow> nat \<Rightarrow> bytes \<Rightarrow> wallet_error + nat \<times> bytes" where
  "r_short i acc bs =
     (if 3 \<le> i then Inl (fail ''Length prefix is too long.'')
      else case bs of
        [] \<Rightarrow> Inl (fail ''Transaction is truncated.'')
      | b # r \<Rightarrow>
          let acc' = acc + unat b mod 128 * 128 ^ i in
          if unat b < 128 then
            (if 0 < i \<and> b = 0 then Inl (fail ''Non-canonical length prefix.'') else Inr (acc', r))
          else r_short (Suc i) acc' r)"
  by pat_completeness auto
termination by (relation "measure (\<lambda>(i, _, _). 3 - i)") auto

declare r_short.simps [simp del]

definition r_shortVec :: "bytes \<Rightarrow> wallet_error + nat \<times> bytes" where
  "r_shortVec bs = r_short 0 0 bs"

section \<open>Compiling a message\<close>

record meta =
  m_address :: string
  m_signer :: bool
  m_writable :: bool

record wire_instruction =
  wi_program :: string
  wi_accounts :: "meta list"
  wi_data :: bytes

text \<open>\<open>add(m)\<close>: a \<open>Map\<close> keeps the place of a key that is set again.\<close>

definition add_meta :: "meta \<Rightarrow> (string \<times> meta) list \<Rightarrow> (string \<times> meta) list" where
  "add_meta m metas =
     (let seen = map_of metas (m_address m) in
      AList.update (m_address m)
        \<lparr>m_address = m_address m,
         m_signer = m_signer m \<or> (case seen of None \<Rightarrow> False | Some s \<Rightarrow> m_signer s),
         m_writable = m_writable m \<or> (case seen of None \<Rightarrow> False | Some s \<Rightarrow> m_writable s)\<rparr> metas)"

definition add_instruction :: "wire_instruction \<Rightarrow> (string \<times> meta) list \<Rightarrow> (string \<times> meta) list" where
  "add_instruction ix metas =
     add_meta \<lparr>m_address = wi_program ix, m_signer = False, m_writable = False\<rparr>
       (fold add_meta (wi_accounts ix) metas)"

definition all_metas :: "string \<Rightarrow> wire_instruction list \<Rightarrow> meta list" where
  "all_metas feePayer instructions =
     map snd (fold add_instruction instructions
       (add_meta \<lparr>m_address = feePayer, m_signer = True, m_writable = True\<rparr> []))"

definition meta_group :: "meta list \<Rightarrow> bool \<Rightarrow> bool \<Rightarrow> meta list" where
  "meta_group metas signer writable = filter (\<lambda>m. m_signer m = signer \<and> m_writable m = writable) metas"

definition ordered_metas :: "meta list \<Rightarrow> meta list" where
  "ordered_metas metas =
     meta_group metas True True @ meta_group metas True False @
     meta_group metas False True @ meta_group metas False False"

text \<open>\<open>new Uint8Array([ordered.indexOf(a)])\<close>: an absent address is \<open>-1\<close>, stored as 255.\<close>

definition index_byte :: "string list \<Rightarrow> string \<Rightarrow> byte" where
  "index_byte keys a = (case index_of keys a of None \<Rightarrow> 255 | Some i \<Rightarrow> word_of_nat i)"

definition instruction_bytes :: "string list \<Rightarrow> string \<Rightarrow> string list \<Rightarrow> bytes \<Rightarrow> bytes" where
  "instruction_bytes keys program accounts data =
     [index_byte keys program] @ shortVec (length accounts) @ map (index_byte keys) accounts @
     shortVec (length data) @ data"

text \<open>
  The wire of an unsigned transaction: one zeroed slot per signer, the header, the accounts, the
  blockhash, the instructions and an empty list of lookup tables.
\<close>

definition unsigned_wire ::
  "nat \<Rightarrow> nat \<Rightarrow> nat \<Rightarrow> string list \<Rightarrow> bytes list \<Rightarrow> bytes \<Rightarrow> (string \<times> string list \<times> bytes) list \<Rightarrow> bytes" where
  "unsigned_wire signers readonlySigned readonlyUnsigned keys ks hash ixs =
     shortVec signers @ replicate (64 * signers) 0 @
     [128, word_of_nat signers, word_of_nat readonlySigned, word_of_nat readonlyUnsigned] @
     shortVec (length keys) @ concat ks @ hash @ shortVec (length ixs) @
     concat (map (\<lambda>(p, as, d). instruction_bytes keys p as d) ixs) @ shortVec 0"

definition compileV0 ::
  "sol_env \<Rightarrow> string \<Rightarrow> wire_instruction list \<Rightarrow> string \<Rightarrow> wallet_error + bytes" where
  "compileV0 env feePayer instructions recentBlockhash =
     (let metas = all_metas feePayer instructions;
          ordered = map m_address (ordered_metas metas);
          signers = length (meta_group metas True True) + length (meta_group metas True False)
      in andThen (map_throw (\<lambda>k. key_bytes env k ''account'') ordered) (\<lambda>ks.
         andThen (key_bytes env recentBlockhash ''recentBlockhash'') (\<lambda>hash.
         Inr (unsigned_wire signers (length (meta_group metas True False)) (length (meta_group metas False False))
           ordered ks hash
           (map (\<lambda>ix. (wi_program ix, map m_address (wi_accounts ix), wi_data ix)) instructions)))))"

section \<open>Lemmas\<close>

lemma key_bytes_Inr: "key_bytes env a w = Inr b \<longleftrightarrow> s58_decode env a = Some b \<and> length b = 32"
  by (auto simp: key_bytes_def split: option.splits if_splits)

lemma or_eq_0: "or a b = (0 :: byte) \<longleftrightarrow> a = 0 \<and> b = 0"
  by (auto simp: bit_eq_iff bit_simps)

lemma xor_eq_0: "xor a b = (0 :: byte) \<longleftrightarrow> a = b"
  by (auto simp: bit_eq_iff bit_simps)

lemma fold_diff:
  "fold (\<lambda>(x, y) diff. or diff (xor x y)) zs (d :: byte) = 0 \<longleftrightarrow> d = 0 \<and> (\<forall>(x, y) \<in> set zs. x = y)"
  by (induction zs arbitrary: d) (auto simp: or_eq_0 xor_eq_0)

lemma equal_bytes_iff [simp]: "equal_bytes a b \<longleftrightarrow> a = b"
proof -
  have "(\<forall>(x, y) \<in> set (zip a b). x = y) \<longleftrightarrow> a = b" if "length a = length b"
    using that by (induction a b rule: list_induct2) auto
  then show ?thesis by (auto simp: equal_bytes_def fold_diff)
qed

lemma length_le_bytes [simp]: "length (le_bytes n v) = n"
  by (induction n arbitrary: v) auto

lemma le_value_le_bytes: "v < 256 ^ n \<Longrightarrow> le_value (le_bytes n v) = v"
proof (induction n arbitrary: v)
  case (Suc n)
  then have "v div 256 < 256 ^ n" by (simp add: less_mult_imp_div_less mult.commute)
  then show ?case using Suc by (simp add: unat_word_of_nat_byte)
qed simp

lemma le_value_bound: "le_value bs < 256 ^ length bs"
proof (induction bs)
  case (Cons b bs)
  have "unat b + 256 * le_value bs < 256 + 256 * le_value bs" using unat_byte [of b] by simp
  also have "\<dots> \<le> 256 * 256 ^ length bs" using Cons by (simp add: mult_le_mono2 Suc_le_eq flip: mult_Suc_right)
  finally show ?case by simp
qed simp

lemma le_bytes_le_value [simp]: "le_bytes (length bs) (le_value bs) = bs"
  by (induction bs) (use unat_byte in \<open>auto simp: div_add1_eq mod_add_eq unat_byte\<close>)

lemma le_bytes_inj: "u < 256 ^ n \<Longrightarrow> v < 256 ^ n \<Longrightarrow> le_bytes n u = le_bytes n v \<Longrightarrow> u = v"
  using le_value_le_bytes by metis

lemma unat_small_byte: "n < 256 \<Longrightarrow> unat (word_of_nat n :: byte) = n"
  by (rule unat_word_of_nat_byte)

lemma shortVec_cases:
  "n < 128 \<Longrightarrow> shortVec n = [word_of_nat n]"
  "128 \<le> n \<Longrightarrow> n < 16384 \<Longrightarrow> shortVec n = [word_of_nat (n mod 128 + 128), word_of_nat (n div 128)]"
  "16384 \<le> n \<Longrightarrow> n < 2097152 \<Longrightarrow> shortVec n =
     [word_of_nat (n mod 128 + 128), word_of_nat (n div 128 mod 128 + 128), word_of_nat (n div 16384)]"
  by (simp_all add: shortVec.simps [of n] shortVec.simps [of "n div 128"] shortVec.simps [of "n div 128 div 128"]
      div_mult2_eq [of n 128 128, simplified] less_mult_imp_div_less)

text \<open>The prefix as a strict codec.\<close>

lemma r_short_step:
  "i < 3 \<Longrightarrow> r_short i acc (b # r) =
     (if unat b < 128 then
        (if 0 < i \<and> b = 0 then Inl (fail ''Non-canonical length prefix.'')
         else Inr (acc + unat b * 128 ^ i, r))
      else r_short (Suc i) (acc + (unat b - 128) * 128 ^ i) r)"
proof -
  have "\<not> unat b < 128 \<Longrightarrow> unat b mod 128 = unat b - 128"
    using unat_byte [of b] by (simp add: mod_if)
  then show "i < 3 \<Longrightarrow> ?thesis" by (simp add: r_short.simps [of i] Let_def)
qed

lemma r_short_end: "r_short 3 acc bs = Inl (fail ''Length prefix is too long.'')"
  by (simp add: r_short.simps)

lemma r_short_Nil: "i < 3 \<Longrightarrow> r_short i acc [] = Inl (fail ''Transaction is truncated.'')"
  by (simp add: r_short.simps)

lemma byte_nonzero: "0 < n \<Longrightarrow> n < 256 \<Longrightarrow> (word_of_nat n :: byte) \<noteq> 0"
  using unat_small_byte [of n] by auto

lemma cont_byte: "unat (word_of_nat (k mod 128) + 128 :: byte) = k mod 128 + 128"
  using unat_small_byte [of "k mod 128 + 128"] by simp

lemma r_shortVec_shortVec:
  assumes "n < 2097152"
  shows "r_shortVec (shortVec n @ rest) = Inr (n, rest)"
proof -
  have q: "n div 16384 = n div 128 div 128" by (simp add: div_mult2_eq [of n 128 128, simplified])
  have d: "n mod 128 + n div 128 * 128 = n" "n mod 128 + n div 128 mod 128 * 128 + n div 16384 * 16384 = n"
    using div_mult_mod_eq [of n 128] div_mult_mod_eq [of "n div 128" 128] unfolding q by linarith+
  consider "n < 128" | "128 \<le> n" "n < 16384" | "16384 \<le> n" by linarith
  then show ?thesis
  proof cases
    case 1
    then show ?thesis by (simp add: shortVec_cases r_shortVec_def r_short_step unat_small_byte)
  next
    case 2
    then have "0 < n div 128" "n div 128 < 128" by auto
    with 2 d(1) show ?thesis
      by (simp add: shortVec_cases r_shortVec_def r_short_step unat_small_byte byte_nonzero cont_byte)
  next
    case 3
    then have "0 < n div 16384" "n div 16384 < 128" using assms by auto
    with 3 assms d(2) show ?thesis
      by (simp add: shortVec_cases r_shortVec_def r_short_step unat_small_byte byte_nonzero cont_byte power2_eq_square)
  qed
qed

lemma byte_split: "128 \<le> unat (b :: byte) \<Longrightarrow> word_of_nat ((unat b - 128) + 128) = b"
  by simp

lemma base128: "x < 128 \<Longrightarrow> (x + y * 128) mod 128 = x \<and> (x + y * 128) div 128 = (y :: nat)"
  by simp

lemma r_shortVec_only:
  assumes "r_shortVec bs = Inr (n, rest)"
  shows "bs = shortVec n @ rest \<and> n < 2097152"
proof -
  obtain b r where bs: "bs = b # r" using assms by (cases bs) (auto simp: r_shortVec_def r_short_Nil)
  show ?thesis
  proof (cases "unat b < 128")
    case True
    then show ?thesis using assms bs by (auto simp: r_shortVec_def r_short_step shortVec_cases)
  next
    case F1: False
    then obtain c s where r: "r = c # s"
      using assms bs by (cases r) (auto simp: r_shortVec_def r_short_step r_short_Nil)
    have b: "unat b - 128 < 128" "unat b - 128 + 128 = unat b" using F1 unat_byte [of b] by auto
    show ?thesis
    proof (cases "unat c < 128")
      case True
      then have c: "0 < unat c" and n: "n = (unat b - 128) + unat c * 128" and rest: "rest = s"
        using assms bs r F1 by (auto simp: r_shortVec_def r_short_step unat_gt_0 split: if_splits)
      have "n mod 128 = unat b - 128" "n div 128 = unat c" using base128 [OF b(1)] n by metis+
      moreover have "128 \<le> n" "n < 16384" using n b True c by linarith+
      ultimately show ?thesis using bs r rest b(2) by (simp add: shortVec_cases(2) del: of_nat_add)
    next
      case F2: False
      then obtain d u where s: "s = d # u"
        using assms bs r F1 by (cases s) (auto simp: r_shortVec_def r_short_step r_short_Nil)
      have c: "unat c - 128 < 128" "unat c - 128 + 128 = unat c" using F2 unat_byte [of c] by auto
      have d: "unat d < 128" "0 < unat d" and rest: "rest = u"
        and n: "n = (unat b - 128) + (unat c - 128) * 128 + unat d * 16384"
        using assms bs r s F1 F2
        by (auto simp: r_shortVec_def r_short_step r_short_end unat_gt_0 numeral_3_eq_3 [symmetric]
            numeral_2_eq_2 [symmetric] split: if_splits)
      have q: "n = (unat b - 128) + ((unat c - 128) + unat d * 128) * 128" using n by simp
      have m: "n mod 128 = unat b - 128" "n div 128 = (unat c - 128) + unat d * 128"
        using base128 [OF b(1)] q by metis+
      have "n div 128 mod 128 = unat c - 128" "n div 128 div 128 = unat d"
        using base128 [OF c(1)] m(2) by metis+
      moreover have "n div 16384 = n div 128 div 128" by (simp add: div_mult2_eq [of n 128 128, simplified])
      moreover have "16384 \<le> n" "n < 2097152" using n b(1) c(1) d by linarith+
      ultimately show ?thesis using bs r s rest m(1) b(2) c(2) by (simp add: shortVec_cases(3) del: of_nat_add)
    qed
  qed
qed

interpretation prefix: strict_codec shortVec r_shortVec "\<lambda>n. n < 2097152"
  by unfold_locales (simp_all add: r_shortVec_shortVec r_shortVec_only)

end
