(* ===== verification/SolanaTx.thy ===== *)
theory SolanaTx
  imports SolanaWire
begin

text \<open>
  packages/core/src/solana-payment.ts, parsing: \<open>parseSolanaTransaction\<close>, the account permissions
  of a parsed transaction, and the readers of mint and token accounts.  What \<open>compileV0\<close> writes,
  the parser reads back, with the permissions the instructions asked for.
\<close>

definition transaction_limit :: nat where "transaction_limit = 1232"

record parsed_instruction =
  pi_program :: string
  pi_accounts :: "string list"
  pi_data :: bytes

record parsed_tx =
  t_signatures :: "bytes list"
  t_message :: bytes
  t_required :: nat
  t_readonlySigned :: nat
  t_readonlyUnsigned :: nat
  t_keys :: "string list"
  t_blockhash :: string
  t_instructions :: "parsed_instruction list"

section \<open>The parser\<close>

definition account_at :: "string list \<Rightarrow> byte \<Rightarrow> wallet_error + string" where
  "account_at keys i =
     (if unat i < length keys then Inr (keys ! unat i)
      else Inl (fail ''Instruction names an account out of range.''))"

definition r_account :: "string list \<Rightarrow> bytes \<Rightarrow> wallet_error + string \<times> bytes" where
  "r_account keys bs = andThen (r_byte bs) (\<lambda>(i, r). andThen (account_at keys i) (\<lambda>k. Inr (k, r)))"

definition r_key :: "sol_env \<Rightarrow> bytes \<Rightarrow> wallet_error + string \<times> bytes" where
  "r_key env bs = andThen (r_take 32 bs) (\<lambda>(b, r). Inr (s58_encode env b, r))"

definition r_data :: "bytes \<Rightarrow> wallet_error + bytes \<times> bytes" where
  "r_data bs = andThen (r_shortVec bs) (\<lambda>(n, r). r_take n r)"

definition r_instruction :: "string list \<Rightarrow> bytes \<Rightarrow> wallet_error + parsed_instruction \<times> bytes" where
  "r_instruction keys bs =
     andThen (r_account keys bs) (\<lambda>(program, r1).
     andThen (r_shortVec r1) (\<lambda>(n, r2).
     andThen (read_many (r_account keys) n r2) (\<lambda>(accounts, r3).
     andThen (r_data r3) (\<lambda>(data, r4).
     Inr (\<lparr>pi_program = program, pi_accounts = accounts, pi_data = data\<rparr>, r4)))))"

definition parse_message :: "sol_env \<Rightarrow> bytes list \<Rightarrow> bytes \<Rightarrow> wallet_error + parsed_tx" where
  "parse_message env sigs message =
     andThen (r_byte message) (\<lambda>(version, r1).
     if version \<noteq> 128 then Inl (fail ''Transaction is not a v0 message.'') else
     andThen (r_byte r1) (\<lambda>(required, r2).
     andThen (r_byte r2) (\<lambda>(readonlySigned, r3).
     andThen (r_byte r3) (\<lambda>(readonlyUnsigned, r4).
     andThen (r_shortVec r4) (\<lambda>(keyCount, r5).
     andThen (read_many (r_key env) keyCount r5) (\<lambda>(keys, r6).
     if required = 0 \<or> unat required \<noteq> length sigs \<or> unat readonlySigned \<ge> unat required \<or>
        unat required + unat readonlyUnsigned > keyCount
     then Inl (fail ''Transaction header does not match its signatures and accounts.'') else
     andThen (r_key env r6) (\<lambda>(blockhash, r7).
     andThen (r_shortVec r7) (\<lambda>(count, r8).
     andThen (read_many (r_instruction keys) count r8) (\<lambda>(instructions, r9).
     andThen (r_shortVec r9) (\<lambda>(tables, r10).
     if tables \<noteq> 0 then Inl (fail ''Address lookup tables are not accepted.'')
     else if r10 \<noteq> [] then Inl (fail ''Transaction has trailing bytes.'')
     else Inr
       \<lparr>t_signatures = sigs, t_message = message, t_required = unat required,
        t_readonlySigned = unat readonlySigned, t_readonlyUnsigned = unat readonlyUnsigned,
        t_keys = keys, t_blockhash = blockhash, t_instructions = instructions\<rparr>))))))))))"

definition parseSolanaTransaction :: "sol_env \<Rightarrow> bytes \<Rightarrow> wallet_error + parsed_tx" where
  "parseSolanaTransaction env wire =
     (if length wire > transaction_limit then Inl (fail ''Transaction exceeds the Solana size limit.'')
      else
        andThen (r_shortVec wire) (\<lambda>(signatureCount, r).
        andThen (read_many (r_take 64) signatureCount r) (\<lambda>(sigs, message).
        parse_message env sigs message)))"

section \<open>Questions about a parsed transaction\<close>

definition isWritable :: "parsed_tx \<Rightarrow> string \<Rightarrow> bool" where
  "isWritable tx address =
     (case index_of (t_keys tx) address of None \<Rightarrow> False
      | Some i \<Rightarrow>
          if i < t_required tx then i < t_required tx - t_readonlySigned tx
          else i < length (t_keys tx) - t_readonlyUnsigned tx)"

definition isSigner :: "parsed_tx \<Rightarrow> string \<Rightarrow> bool" where
  "isSigner tx address =
     (case index_of (t_keys tx) address of None \<Rightarrow> False | Some i \<Rightarrow> i < t_required tx)"

definition verifySolanaSignature :: "sol_env \<Rightarrow> parsed_tx \<Rightarrow> string \<Rightarrow> bool" where
  "verifySolanaSignature env tx address =
     (case index_of (t_keys tx) address of None \<Rightarrow> False
      | Some i \<Rightarrow>
          if i \<ge> t_required tx \<or> i \<ge> length (t_signatures tx) then False
          else (case key_bytes env address ''signer'' of Inl _ \<Rightarrow> False
            | Inr k \<Rightarrow> ed_verify env (t_signatures tx ! i) (t_message tx) k))"

definition solanaTransactionId :: "sol_env \<Rightarrow> parsed_tx \<Rightarrow> wallet_error + string" where
  "solanaTransactionId env tx =
     (case t_signatures tx of [] \<Rightarrow> Inl (fail ''Transaction has no signatures.'')
      | s # _ \<Rightarrow> Inr (s58_encode env s))"

section \<open>Mint and token accounts\<close>

definition token_program :: string where "token_program = ''TokenkegQfeZyiNwAJbNbGKPFXCWuBvf9Ss623VQ5DA''"
definition token2022_program :: string where "token2022_program = ''TokenzQdBNbLqP5VEhdkAS6EPFLC1PHnBqCXEpPxuEb''"
definition associated_token_program :: string where
  "associated_token_program = ''ATokenGPvbdGVxr1b2hvZbsiqW5xWH25efTNsLJA8knL''"
definition compute_budget_program :: string where
  "compute_budget_program = ''ComputeBudget111111111111111111111111111111''"
definition memo_program :: string where "memo_program = ''MemoSq4gqABAXKb96qnH8TysNcWxMyWCqXgDLGmfcHr''"
definition lighthouse_program :: string where
  "lighthouse_program = ''L2TExMFKdjpN9kozasaurPirfHy9P8sbXoAN1qA3S95''"

definition is_token_program :: "string \<Rightarrow> bool" where
  "is_token_program p \<longleftrightarrow> p = token_program \<or> p = token2022_program"

text \<open>\<open>data[i]\<close>: \<open>undefined\<close> past the end.\<close>

definition byte_at :: "bytes \<Rightarrow> nat \<Rightarrow> byte option" where
  "byte_at data i = (if i < length data then Some (data ! i) else None)"

definition refused_mint_extensions :: "(nat \<times> string) list" where
  "refused_mint_extensions =
     [(1, ''TransferFeeConfig''), (9, ''NonTransferable''), (14, ''TransferHook''),
      (16, ''ConfidentialTransferFee''), (26, ''PausableConfig'')]"

text \<open>The loop over the type-length-value entries; the result is the first refusal.\<close>

function screen_tlv :: "bytes \<Rightarrow> nat \<Rightarrow> wallet_error option" where
  "screen_tlv data offset =
     (if offset + 4 \<le> length data then
        (let type = le_value (js_slice offset (offset + 2) data);
             len = le_value (js_slice (offset + 2) (offset + 4) data)
         in if type = 0 then None
            else case map_of refused_mint_extensions type of
              Some refused \<Rightarrow> Some (fail (''The mint'' @ [CHR 39] @ ''s '' @ refused @
                '' extension is not supported for payments.''))
            | None \<Rightarrow> screen_tlv data (offset + 4 + len))
      else throw_if (offset > length data) (fail ''The Token-2022 mint account is malformed.''))"
  by pat_completeness auto
termination by (relation "measure (\<lambda>(data, offset). Suc (length data) - offset)") auto

declare screen_tlv.simps [simp del]

definition screenMintExtensions :: "bytes \<Rightarrow> wallet_error option" where
  "screenMintExtensions data =
     (if length data = 82 then None
      else if length data < 166 \<or> byte_at data 165 \<noteq> Some 1 then
        Some (fail ''The Token-2022 mint account is malformed.'')
      else screen_tlv data 166)"

definition readMint :: "string \<Rightarrow> bytes \<Rightarrow> wallet_error + string \<times> nat" where
  "readMint owner data =
     (if \<not> is_token_program owner then
        Inl (fail (''The mint is owned by '' @ owner @ '', not a token program.''))
      else if length data < 82 \<or> byte_at data 45 \<noteq> Some 1 then
        Inl (fail ''The mint account is not an initialized mint.'')
      else case (if owner = token2022_program then screenMintExtensions data else None) of
        Some e \<Rightarrow> Inl e
      | None \<Rightarrow> Inr (owner, unat (data ! 44)))"

record token_account =
  ta_mint :: string
  ta_owner :: string
  ta_amount :: nat
  ta_state :: nat

definition readTokenAccount :: "sol_env \<Rightarrow> string \<Rightarrow> bytes \<Rightarrow> wallet_error + token_account" where
  "readTokenAccount env programOwner data =
     (if \<not> is_token_program programOwner then
        Inl (fail (''The token account is owned by '' @ programOwner @ '', not a token program.''))
      else if length data < 165 \<or> (byte_at data 108 \<noteq> Some 1 \<and> byte_at data 108 \<noteq> Some 2) then
        Inl (fail ''The account is not an initialized token account.'')
      else if programOwner = token2022_program \<and> length data > 165 \<and> byte_at data 165 \<noteq> Some 2 then
        Inl (fail ''The account is not a token account.'')
      else Inr
        \<lparr>ta_mint = s58_encode env (js_slice 0 32 data), ta_owner = s58_encode env (js_slice 32 64 data),
         ta_amount = le_value (js_slice 64 72 data), ta_state = unat (data ! 108)\<rparr>)"

section \<open>The parts as codecs\<close>

lemma r_take_Inr: "r_take n bs = Inr (x, r) \<longleftrightarrow> bs = x @ r \<and> length x = n"
  by (auto simp: r_take_def split: if_splits)

interpretation signature: strict_codec "\<lambda>x. x" "r_take 64" "\<lambda>x. length x = 64"
  by unfold_locales (simp_all add: r_take_Inr)

lemma key_codec:
  assumes "base58_laws env"
  shows "strict_codec (\<lambda>k. the (s58_decode env k)) (r_key env)
    (\<lambda>k. \<exists>b. s58_decode env k = Some b \<and> length b = 32)"
proof
  fix k rest assume "\<exists>b. s58_decode env k = Some b \<and> length b = 32"
  then obtain b where b: "s58_decode env k = Some b" "length b = 32" by blast
  then have "s58_encode env b = k" using assms by (simp add: base58_laws_def)
  then show "r_key env (the (s58_decode env k) @ rest) = Inr (k, rest)"
    using b by (simp add: r_key_def r_take_def)
next
  fix bs k rest assume "r_key env bs = Inr (k, rest)"
  then obtain b where "bs = b @ rest" "length b = 32" "k = s58_encode env b"
    by (auto simp: r_key_def r_take_Inr)
  then show "bs = the (s58_decode env k) @ rest \<and> (\<exists>b. s58_decode env k = Some b \<and> length b = 32)"
    using assms by (simp add: base58_laws_def)
qed

interpretation data_field: strict_codec "\<lambda>d. shortVec (length d) @ d" r_data "\<lambda>d. length d < 2097152"
proof
  fix d :: bytes and rest assume "length d < 2097152"
  then show "r_data ((shortVec (length d) @ d) @ rest) = Inr (d, rest)"
    by (simp add: r_data_def prefix.dec_enc r_take_def)
next
  fix bs d rest assume "r_data bs = Inr (d, rest)"
  then obtain n r where "r_shortVec bs = Inr (n, r)" "r_take n r = Inr (d, rest)"
    by (auto simp: r_data_def)
  then show "bs = (shortVec (length d) @ d) @ rest \<and> length d < 2097152"
    using prefix.enc_dec by (auto simp: r_take_Inr)
qed

lemma index_of_Some: "index_of ks a = Some i \<Longrightarrow> i < length ks \<and> ks ! i = a"
  by (induction ks a arbitrary: i rule: index_of.induct) (auto split: if_splits)

lemma index_of_member: "a \<in> set ks \<Longrightarrow> \<exists>i. index_of ks a = Some i"
  by (induction ks a rule: index_of.induct) auto

lemma r_account_index:
  assumes "a \<in> set keys" "length keys \<le> 256"
  shows "r_account keys (index_byte keys a # rest) = Inr (a, rest)"
proof -
  obtain i where i: "index_of keys a = Some i" "i < length keys" "keys ! i = a"
    using assms(1) index_of_member index_of_Some by metis
  then show ?thesis using assms(2) by (simp add: r_account_def index_byte_def account_at_def unat_small_byte)
qed

lemma r_accounts_index:
  "set as \<subseteq> set keys \<Longrightarrow> length keys \<le> 256 \<Longrightarrow>
     read_many (r_account keys) (length as) (map (index_byte keys) as @ rest) = Inr (as, rest)"
  by (induction as) (simp_all add: r_account_index)

text \<open>An instruction whose accounts are all listed reads back.\<close>

definition instruction_ok :: "string list \<Rightarrow> parsed_instruction \<Rightarrow> bool" where
  "instruction_ok keys ix \<longleftrightarrow>
     length keys \<le> 256 \<and> pi_program ix \<in> set keys \<and> set (pi_accounts ix) \<subseteq> set keys \<and>
     length (pi_accounts ix) < 2097152 \<and> length (pi_data ix) < 2097152"

interpretation instruction: codec
  "\<lambda>ix. instruction_bytes keys (pi_program ix) (pi_accounts ix) (pi_data ix)" "r_instruction keys"
  "instruction_ok keys" for keys
proof
  fix ix :: parsed_instruction and rest assume ok: "instruction_ok keys ix"
  then show "r_instruction keys
      (instruction_bytes keys (pi_program ix) (pi_accounts ix) (pi_data ix) @ rest) = Inr (ix, rest)"
    using data_field.dec_enc [of "pi_data ix" rest]
    by (simp add: r_instruction_def instruction_bytes_def r_account_index instruction_ok_def
        prefix.dec_enc r_accounts_index)
qed

section \<open>Reading back a compiled transaction\<close>

text \<open>The part of \<open>unsigned_wire\<close> that is signed.\<close>

definition unsigned_message ::
  "nat \<Rightarrow> nat \<Rightarrow> nat \<Rightarrow> string list \<Rightarrow> bytes list \<Rightarrow> bytes \<Rightarrow> (string \<times> string list \<times> bytes) list \<Rightarrow> bytes" where
  "unsigned_message signers readonlySigned readonlyUnsigned keys ks hash ixs =
     [128, word_of_nat signers, word_of_nat readonlySigned, word_of_nat readonlyUnsigned] @
     shortVec (length keys) @ concat ks @ hash @ shortVec (length ixs) @
     concat (map (\<lambda>(p, as, d). instruction_bytes keys p as d) ixs) @ shortVec 0"

lemma unsigned_wire_split:
  "unsigned_wire n a b keys ks hash ixs =
     shortVec n @ concat (replicate n (replicate 64 0)) @ unsigned_message n a b keys ks hash ixs"
proof -
  have "concat (replicate n (replicate 64 (0 :: byte))) = replicate (64 * n) 0"
    by (induction n) (simp_all add: replicate_add algebra_simps)
  then show ?thesis by (simp add: unsigned_wire_def unsigned_message_def)
qed

definition to_parsed :: "string \<times> string list \<times> bytes \<Rightarrow> parsed_instruction" where
  "to_parsed ix = (case ix of (p, as, d) \<Rightarrow> \<lparr>pi_program = p, pi_accounts = as, pi_data = d\<rparr>)"

lemma keys_of_map_throw:
  assumes "map_throw (\<lambda>k. key_bytes env k what) keys = Inr ks"
  shows "ks = map (\<lambda>k. the (s58_decode env k)) keys \<and> length ks = length keys \<and>
    (\<forall>k \<in> set keys. \<exists>b. s58_decode env k = Some b \<and> length b = 32)"
  using assms
  by (induction keys arbitrary: ks) (auto simp: key_bytes_Inr)

lemma length_concat_blocks: "\<forall>x \<in> set xs. length x = n \<Longrightarrow> length (concat xs) = n * length xs"
  by (induction xs) auto

lemma length_le_concat: "x \<in> set xs \<Longrightarrow> length x \<le> length (concat xs)"
  by (induction xs) auto

lemma length_le_concat': "\<forall>x \<in> set xs. x \<noteq> [] \<Longrightarrow> length xs \<le> length (concat xs)"
proof (induction xs)
  case (Cons x xs)
  then show ?case by (cases x) auto
qed simp

text \<open>A wire within the packet limit keeps every count within a byte.\<close>

lemma unsigned_wire_bounds:
  assumes len: "length (unsigned_wire n a b keys ks hash ixs) \<le> transaction_limit"
    and ks: "\<forall>k \<in> set ks. length k = 32" "length ks = length keys"
  shows "n < 256 \<and> length keys \<le> 256 \<and> length ixs < 2097152 \<and>
    (\<forall>(p, as, d) \<in> set ixs. length as < 2097152 \<and> length d < 2097152)"
proof -
  let ?xs = "map (\<lambda>(p, as, d). instruction_bytes keys p as d) ixs"
  have l: "64 * n + length (concat ks) + length (concat ?xs) \<le> 1232"
    using len by (simp add: unsigned_wire_def transaction_limit_def)
  moreover have "length (concat ks) = 32 * length keys" using length_concat_blocks [OF ks(1)] ks(2) by simp
  moreover have "length ?xs \<le> length (concat ?xs)"
    by (rule length_le_concat') (auto simp: instruction_bytes_def)
  moreover have "length as < 2097152 \<and> length d < 2097152" if "(p, as, d) \<in> set ixs" for p as d
  proof -
    have "instruction_bytes keys p as d \<in> set ?xs" using that by force
    then have "length (instruction_bytes keys p as d) \<le> 1232"
      using length_le_concat [of _ ?xs] l by (meson add_leD2 le_trans)
    then show ?thesis by (simp add: instruction_bytes_def)
  qed
  ultimately show ?thesis by auto
qed

text \<open>With any signatures in the slots, the parser finds the signatures and the signed message.\<close>

lemma parse_wire:
  assumes laws: "base58_laws env"
    and ks: "map_throw (\<lambda>k. key_bytes env k what) keys = Inr ks"
    and hash: "key_bytes env blockhash what' = Inr hash"
    and len: "length (unsigned_wire n a b keys ks hash ixs) \<le> transaction_limit"
    and sigs: "length sigs = n" "\<forall>s \<in> set sigs. length s = 64"
    and head: "0 < n" "a < n" "n + b \<le> length keys"
    and ixs: "\<forall>(p, as, d) \<in> set ixs. p \<in> set keys \<and> set as \<subseteq> set keys"
  shows "parseSolanaTransaction env (shortVec n @ concat sigs @ unsigned_message n a b keys ks hash ixs) = Inr
    \<lparr>t_signatures = sigs, t_message = unsigned_message n a b keys ks hash ixs,
     t_required = n, t_readonlySigned = a, t_readonlyUnsigned = b, t_keys = keys, t_blockhash = blockhash,
     t_instructions = map to_parsed ixs\<rparr>"
proof -
  note kk = keys_of_map_throw [OF ks]
  have k32: "\<forall>k \<in> set ks. length k = 32" using kk by auto
  note bounds = unsigned_wire_bounds [OF len k32] kk
  have n: "n < 256" "a < 256" "b < 256" using bounds head by auto
  have read_keys: "read_many (r_key env) (length keys) (concat ks @ rest) = Inr (keys, rest)" for rest
    using codec.dec_many [OF strict_codec.axioms(1) [OF key_codec [OF laws]], of keys rest] kk by simp
  have read_hash: "r_key env (hash @ rest) = Inr (blockhash, rest)" for rest
    using codec.dec_enc [OF strict_codec.axioms(1) [OF key_codec [OF laws]], of blockhash rest] hash
    by (auto simp: key_bytes_Inr)
  have "\<forall>ix \<in> set (map to_parsed ixs). instruction_ok keys ix"
  proof
    fix ix assume "ix \<in> set (map to_parsed ixs)"
    then obtain p as d where ix: "(p, as, d) \<in> set ixs" "ix = to_parsed (p, as, d)" by auto
    then have "p \<in> set keys \<and> set as \<subseteq> set keys" using ixs by blast
    moreover have "length as < 2097152 \<and> length d < 2097152" using bounds ix(1) by blast
    ultimately show "instruction_ok keys ix"
      using bounds by (simp add: instruction_ok_def to_parsed_def ix(2))
  qed
  then have read_ixs: "read_many (r_instruction keys) (length ixs)
      (concat (map (\<lambda>(p, as, d). instruction_bytes keys p as d) ixs) @ rest) = Inr (map to_parsed ixs, rest)" for rest
    using instruction.dec_many [of "map to_parsed ixs" keys rest]
    by (simp add: comp_def to_parsed_def case_prod_unfold)
  have "length ixs < 2097152" "length keys < 2097152" "(0::nat) < 2097152" using bounds by auto
  note sv = this [THEN prefix.dec_enc]
  have w: "(word_of_nat n :: byte) \<noteq> 0" using head(1) n(1) by (rule byte_nonzero)
  have m: "parse_message env sigs (unsigned_message n a b keys ks hash ixs) = Inr
    \<lparr>t_signatures = sigs, t_message = unsigned_message n a b keys ks hash ixs,
     t_required = n, t_readonlySigned = a, t_readonlyUnsigned = b, t_keys = keys, t_blockhash = blockhash,
     t_instructions = map to_parsed ixs\<rparr>"
    using head n w sigs(1) sv(3) [of "[]"]
    by (simp add: parse_message_def unsigned_message_def sv(1,2) read_keys read_hash read_ixs unat_small_byte)
  have "read_many (r_take 64) n (concat sigs @ msg) = Inr (sigs, msg)" for msg
    using signature.dec_many [of sigs msg] sigs by simp
  moreover have "n < 2097152" using n by simp
  moreover have "length (concat sigs) = length (concat (replicate n (replicate 64 (0 :: byte))))"
    using length_concat_blocks [of sigs 64] length_concat_blocks [of "replicate n (replicate 64 (0::byte))" 64] sigs
    by simp
  ultimately show ?thesis
    using len m unfolding parseSolanaTransaction_def unsigned_wire_split
    by (simp add: prefix.dec_enc)
qed

lemma parse_unsigned_wire:
  assumes "base58_laws env"
    and "map_throw (\<lambda>k. key_bytes env k what) keys = Inr ks"
    and "key_bytes env blockhash what' = Inr hash"
    and "length (unsigned_wire n a b keys ks hash ixs) \<le> transaction_limit"
    and "0 < n" "a < n" "n + b \<le> length keys"
    and "\<forall>(p, as, d) \<in> set ixs. p \<in> set keys \<and> set as \<subseteq> set keys"
  shows "parseSolanaTransaction env (unsigned_wire n a b keys ks hash ixs) = Inr
    \<lparr>t_signatures = replicate n (replicate 64 0), t_message = unsigned_message n a b keys ks hash ixs,
     t_required = n, t_readonlySigned = a, t_readonlyUnsigned = b, t_keys = keys, t_blockhash = blockhash,
     t_instructions = map to_parsed ixs\<rparr>"
  unfolding unsigned_wire_split by (rule parse_wire) (use assms in \<open>auto simp: unsigned_wire_split\<close>)

end
