(* ===== verification/SolanaCompile.thy ===== *)
theory SolanaCompile
  imports SolanaTx
begin

text \<open>
  Correctness of \<open>compileV0\<close> against the parser: the accounts of a compiled message are the accounts
  of its instructions, each with exactly the permissions some instruction asked for.
\<close>

section \<open>The accounts collected from the instructions\<close>

definition wf_metas :: "(string \<times> meta) list \<Rightarrow> bool" where
  "wf_metas ms \<longleftrightarrow> distinct (map fst ms) \<and> (\<forall>(k, m) \<in> set ms. m_address m = k)"

definition signer_in :: "(string \<times> meta) list \<Rightarrow> string \<Rightarrow> bool" where
  "signer_in ms a \<longleftrightarrow> (\<exists>m. map_of ms a = Some m \<and> m_signer m)"

definition writable_in :: "(string \<times> meta) list \<Rightarrow> string \<Rightarrow> bool" where
  "writable_in ms a \<longleftrightarrow> (\<exists>m. map_of ms a = Some m \<and> m_writable m)"

lemma set_update_subset: "set (AList.update k v ms) \<subseteq> insert (k, v) (set ms)"
  by (induction ms) auto

lemma wf_add_meta: "wf_metas ms \<Longrightarrow> wf_metas (add_meta m ms)"
proof -
  assume w: "wf_metas ms"
  have "\<forall>(k, m') \<in> set (add_meta m ms). m_address m' = k"
  proof
    fix e assume "e \<in> set (add_meta m ms)"
    then show "case e of (k, m') \<Rightarrow> m_address m' = k"
      using w set_update_subset unfolding add_meta_def Let_def wf_metas_def by fastforce
  qed
  then show ?thesis using w by (simp add: wf_metas_def add_meta_def Let_def distinct_update)
qed

lemma fold_wf_metas: "wf_metas ms \<Longrightarrow> wf_metas (fold add_meta xs ms)"
  by (induction xs arbitrary: ms) (simp_all add: wf_add_meta)

lemma fold_wf_instructions: "wf_metas ms \<Longrightarrow> wf_metas (fold add_instruction ixs ms)"
  by (induction ixs arbitrary: ms) (simp_all add: add_instruction_def wf_add_meta fold_wf_metas)

lemma signer_add_meta: "signer_in (add_meta m ms) a \<longleftrightarrow> signer_in ms a \<or> (a = m_address m \<and> m_signer m)"
  by (auto simp: signer_in_def add_meta_def Let_def update_conv' split: option.splits)

lemma writable_add_meta: "writable_in (add_meta m ms) a \<longleftrightarrow> writable_in ms a \<or> (a = m_address m \<and> m_writable m)"
  by (auto simp: writable_in_def add_meta_def Let_def update_conv' split: option.splits)

lemma dom_add_meta: "fst ` set (add_meta m ms) = insert (m_address m) (fst ` set ms)"
  using dom_update [of "m_address m" _ ms] by (simp add: add_meta_def Let_def)

lemma signer_fold: "signer_in (fold add_meta xs ms) a \<longleftrightarrow> signer_in ms a \<or> (\<exists>m \<in> set xs. m_address m = a \<and> m_signer m)"
  by (induction xs arbitrary: ms) (auto simp: signer_add_meta)

lemma writable_fold: "writable_in (fold add_meta xs ms) a \<longleftrightarrow> writable_in ms a \<or> (\<exists>m \<in> set xs. m_address m = a \<and> m_writable m)"
  by (induction xs arbitrary: ms) (auto simp: writable_add_meta)

lemma dom_fold: "fst ` set (fold add_meta xs ms) = fst ` set ms \<union> m_address ` set xs"
  by (induction xs arbitrary: ms) (auto simp: dom_add_meta)

text \<open>What the instructions ask for.\<close>

definition requested_signer :: "string \<Rightarrow> wire_instruction list \<Rightarrow> string \<Rightarrow> bool" where
  "requested_signer feePayer ixs a \<longleftrightarrow>
     a = feePayer \<or> (\<exists>ix \<in> set ixs. \<exists>m \<in> set (wi_accounts ix). m_address m = a \<and> m_signer m)"

definition requested_writable :: "string \<Rightarrow> wire_instruction list \<Rightarrow> string \<Rightarrow> bool" where
  "requested_writable feePayer ixs a \<longleftrightarrow>
     a = feePayer \<or> (\<exists>ix \<in> set ixs. \<exists>m \<in> set (wi_accounts ix). m_address m = a \<and> m_writable m)"

lemma signer_fold_ix: "signer_in (fold add_instruction ixs ms) a \<longleftrightarrow>
   signer_in ms a \<or> (\<exists>ix \<in> set ixs. \<exists>m \<in> set (wi_accounts ix). m_address m = a \<and> m_signer m)"
  by (induction ixs arbitrary: ms) (auto simp: add_instruction_def signer_add_meta signer_fold)

lemma writable_fold_ix: "writable_in (fold add_instruction ixs ms) a \<longleftrightarrow>
   writable_in ms a \<or> (\<exists>ix \<in> set ixs. \<exists>m \<in> set (wi_accounts ix). m_address m = a \<and> m_writable m)"
  by (induction ixs arbitrary: ms) (auto simp: add_instruction_def writable_add_meta writable_fold)

lemma dom_fold_ix: "fst ` set (fold add_instruction ixs ms) =
   fst ` set ms \<union> (\<Union>ix \<in> set ixs. insert (wi_program ix) (m_address ` set (wi_accounts ix)))"
  by (induction ixs arbitrary: ms) (auto simp: add_instruction_def dom_add_meta dom_fold)

abbreviation start_metas :: "string \<Rightarrow> (string \<times> meta) list" where
  "start_metas feePayer \<equiv> [(feePayer, \<lparr>m_address = feePayer, m_signer = True, m_writable = True\<rparr>)]"

lemma all_metas_eq: "all_metas feePayer ixs = map snd (fold add_instruction ixs (start_metas feePayer))"
  by (simp add: all_metas_def add_meta_def)

text \<open>The fee payer stays first, with both permissions.\<close>

lemma first_kept:
  "\<exists>ms'. add_meta m ((fp, \<lparr>m_address = fp, m_signer = True, m_writable = True\<rparr>) # ms) =
     (fp, \<lparr>m_address = fp, m_signer = True, m_writable = True\<rparr>) # ms'"
  by (simp add: add_meta_def Let_def)

lemma first_kept_fold:
  "\<exists>ms'. fold add_meta xs ((fp, \<lparr>m_address = fp, m_signer = True, m_writable = True\<rparr>) # ms) =
     (fp, \<lparr>m_address = fp, m_signer = True, m_writable = True\<rparr>) # ms'"
proof (induction xs arbitrary: ms)
  case (Cons x xs)
  obtain ms' where "add_meta x ((fp, \<lparr>m_address = fp, m_signer = True, m_writable = True\<rparr>) # ms) =
      (fp, \<lparr>m_address = fp, m_signer = True, m_writable = True\<rparr>) # ms'"
    using first_kept by blast
  then show ?case using Cons [of ms'] by simp
qed simp

lemma first_kept_ix:
  "\<exists>ms'. fold add_instruction ixs ((fp, \<lparr>m_address = fp, m_signer = True, m_writable = True\<rparr>) # ms) =
     (fp, \<lparr>m_address = fp, m_signer = True, m_writable = True\<rparr>) # ms'"
proof (induction ixs arbitrary: ms)
  case (Cons ix ixs)
  obtain ms' where "add_instruction ix ((fp, \<lparr>m_address = fp, m_signer = True, m_writable = True\<rparr>) # ms) =
      (fp, \<lparr>m_address = fp, m_signer = True, m_writable = True\<rparr>) # ms'"
    using first_kept first_kept_fold unfolding add_instruction_def by metis
  then show ?case using Cons [of ms'] by simp
qed simp

section \<open>The order of the accounts\<close>

lemma index_of_append:
  "index_of (xs @ ys) a =
     (if a \<in> set xs then index_of xs a else map_option ((+) (length xs)) (index_of ys a))"
proof (induction xs a rule: index_of.induct)
  case (1 x)
  then show ?case by (cases "index_of ys x") auto
qed (auto simp: option.map_comp comp_def)

lemma index_of_less: "a \<in> set xs \<Longrightarrow> \<exists>i < length xs. index_of xs a = Some i"
  using index_of_member index_of_Some by metis

lemma index_of_None: "a \<notin> set xs \<Longrightarrow> index_of xs a = None"
  by (induction xs a rule: index_of.induct) auto

text \<open>In four consecutive groups, where an address is found tells its group.\<close>

lemma index_groups:
  assumes "distinct (a @ b @ c @ d)"
  shows "x \<in> set a \<Longrightarrow> \<exists>i. index_of (a @ b @ c @ d) x = Some i \<and> i < length a"
    and "x \<in> set b \<Longrightarrow> \<exists>i. index_of (a @ b @ c @ d) x = Some i \<and> length a \<le> i \<and> i < length a + length b"
    and "x \<in> set c \<Longrightarrow> \<exists>i. index_of (a @ b @ c @ d) x = Some i \<and>
      length a + length b \<le> i \<and> i < length a + length b + length c"
    and "x \<in> set d \<Longrightarrow> \<exists>i. index_of (a @ b @ c @ d) x = Some i \<and> length a + length b + length c \<le> i"
  using assms index_of_less [of x a] index_of_less [of x b] index_of_less [of x c] index_of_less [of x d]
  by (auto simp: index_of_append)

lemma group_permissions:
  assumes "distinct (a @ b @ c @ d)" "t_keys tx = a @ b @ c @ d" "t_required tx = length a + length b"
    "t_readonlySigned tx = length b" "t_readonlyUnsigned tx = length d"
  shows "x \<in> set a \<Longrightarrow> isSigner tx x \<and> isWritable tx x"
    and "x \<in> set b \<Longrightarrow> isSigner tx x \<and> \<not> isWritable tx x"
    and "x \<in> set c \<Longrightarrow> \<not> isSigner tx x \<and> isWritable tx x"
    and "x \<in> set d \<Longrightarrow> \<not> isSigner tx x \<and> \<not> isWritable tx x"
  using index_groups [OF assms(1), of x] assms(2-)
  by (fastforce simp: isSigner_def isWritable_def)+

lemma meta_groups_set: "set (ordered_metas ms) = set ms"
  by (auto simp: ordered_metas_def meta_group_def)

lemma distinct_ordered:
  assumes "distinct (map m_address ms)"
  shows "distinct (map m_address (ordered_metas ms))"
proof -
  have inj: "inj_on m_address (set ms)" and d: "distinct ms" using assms by (auto simp: distinct_map)
  have "distinct (ordered_metas ms)" using d by (auto simp: ordered_metas_def meta_group_def)
  then show ?thesis using inj by (simp add: distinct_map meta_groups_set)
qed

lemma group_member:
  "x \<in> m_address ` set (meta_group ms s w) \<longleftrightarrow> (\<exists>m \<in> set ms. m_address m = x \<and> m_signer m = s \<and> m_writable m = w)"
  by (auto simp: meta_group_def)

section \<open>Compiling and parsing\<close>

lemma concat_replicate_zeros: "concat (replicate n (replicate m x)) = replicate (m * n) x"
  by (induction n) (simp_all add: replicate_add add.commute)

text \<open>The wire parses, and so does the wire with signatures written into its slots.\<close>

lemma compileV0_signed:
  assumes laws: "base58_laws env" and c: "compileV0 env fp ixs blockhash = Inr wire"
    and len: "length wire \<le> transaction_limit"
  shows "\<exists>t. parseSolanaTransaction env wire = Inr t \<and>
    wire = shortVec (t_required t) @ replicate (64 * t_required t) 0 @ t_message t \<and>
    t_signatures t = replicate (t_required t) (replicate 64 0) \<and>
    (\<forall>sigs. length sigs = t_required t \<longrightarrow> (\<forall>s \<in> set sigs. length s = 64) \<longrightarrow>
       parseSolanaTransaction env (shortVec (t_required t) @ concat sigs @ t_message t) = Inr (t\<lparr>t_signatures := sigs\<rparr>)) \<and>
    t_keys t \<noteq> [] \<and> hd (t_keys t) = fp \<and> t_blockhash t = blockhash \<and>
    t_instructions t =
      map (\<lambda>ix. \<lparr>pi_program = wi_program ix, pi_accounts = map m_address (wi_accounts ix), pi_data = wi_data ix\<rparr>) ixs \<and>
    (\<forall>a. isSigner t a \<longleftrightarrow> requested_signer fp ixs a) \<and>
    (\<forall>a. isWritable t a \<longleftrightarrow> requested_writable fp ixs a)"
proof -
  let ?raw = "fold add_instruction ixs (start_metas fp)"
  let ?metas = "all_metas fp ixs" and ?g = "meta_group (all_metas fp ixs)"
  let ?keys = "map m_address (ordered_metas ?metas)"
  let ?n = "length (?g True True) + length (?g True False)"
  let ?ixs = "map (\<lambda>ix. (wi_program ix, map m_address (wi_accounts ix), wi_data ix)) ixs"
  obtain ks hash where ks: "map_throw (\<lambda>k. key_bytes env k ''account'') ?keys = Inr ks"
    and hash: "key_bytes env blockhash ''recentBlockhash'' = Inr hash"
    and wire: "wire = unsigned_wire ?n (length (?g True False)) (length (?g False False)) ?keys ks hash ?ixs"
    using c by (auto simp: compileV0_def Let_def)
  have wf: "wf_metas ?raw" by (rule fold_wf_instructions) (simp add: wf_metas_def)
  then have addr: "map m_address ?metas = map fst ?raw"
    unfolding all_metas_eq wf_metas_def by (auto intro!: map_cong)
  have dist: "distinct ?keys"
    by (rule distinct_ordered) (use wf addr in \<open>simp add: wf_metas_def\<close>)
  obtain ms where raw: "?raw = (fp, \<lparr>m_address = fp, m_signer = True, m_writable = True\<rparr>) # ms"
    using first_kept_ix by blast
  then have first: "\<exists>gs. ?g True True = \<lparr>m_address = fp, m_signer = True, m_writable = True\<rparr> # gs"
    by (simp add: all_metas_eq meta_group_def)
  have split: "?keys = map m_address (?g True True) @ map m_address (?g True False) @
      map m_address (?g False True) @ map m_address (?g False False)"
    by (simp add: ordered_metas_def)
  have in_keys: "set ?keys = fst ` set ?raw" using addr by (metis meta_groups_set set_map)
  have member: "\<forall>(p, as, d) \<in> set ?ixs. p \<in> set ?keys \<and> set as \<subseteq> set ?keys"
    unfolding in_keys dom_fold_ix by auto
  let ?t = "\<lparr>t_signatures = replicate ?n (replicate 64 0),
     t_message = unsigned_message ?n (length (?g True False)) (length (?g False False)) ?keys ks hash ?ixs,
     t_required = ?n, t_readonlySigned = length (?g True False), t_readonlyUnsigned = length (?g False False),
     t_keys = ?keys, t_blockhash = blockhash, t_instructions = map to_parsed ?ixs\<rparr>"
  have sgn: "parseSolanaTransaction env (shortVec ?n @ concat sigs @ t_message ?t) = Inr (?t\<lparr>t_signatures := sigs\<rparr>)"
    if "length sigs = ?n" "\<forall>s \<in> set sigs. length s = 64" for sigs
    unfolding parsed_tx.simps
  proof (rule parse_wire [OF laws ks hash])
    show "0 < ?n" "length (?g True False) < ?n" using first by auto
    show "?n + length (?g False False) \<le> length ?keys" by (simp add: ordered_metas_def)
  qed (use len wire member that in auto)
  moreover have w: "wire = shortVec ?n @ replicate (64 * ?n) 0 @ t_message ?t"
    by (simp add: wire unsigned_wire_def unsigned_message_def)
  moreover have "parseSolanaTransaction env wire = Inr ?t"
    using sgn [of "replicate ?n (replicate 64 0)"] unfolding w by (simp add: concat_replicate_zeros)
  moreover have "?keys \<noteq> []" "hd ?keys = fp" using first by (auto simp: ordered_metas_def)
  moreover have "map to_parsed ?ixs =
      map (\<lambda>ix. \<lparr>pi_program = wi_program ix, pi_accounts = map m_address (wi_accounts ix), pi_data = wi_data ix\<rparr>) ixs"
    by (simp add: to_parsed_def)
  moreover have "isSigner ?t a \<longleftrightarrow> requested_signer fp ixs a" "isWritable ?t a \<longleftrightarrow> requested_writable fp ixs a" for a
  proof -
    note pos = group_permissions [OF dist [unfolded split], of ?t a]
    have flags: "signer_in ?raw a \<longleftrightarrow> requested_signer fp ixs a" "writable_in ?raw a \<longleftrightarrow> requested_writable fp ixs a"
      unfolding signer_fold_ix writable_fold_ix requested_signer_def requested_writable_def
      by (auto simp: signer_in_def writable_in_def)
    have "isSigner ?t a = signer_in ?raw a \<and> isWritable ?t a = writable_in ?raw a"
    proof (cases "map_of ?raw a")
      case None
      then have "a \<notin> set ?keys" unfolding in_keys by (simp add: map_of_eq_None_iff)
      then show ?thesis using None
        by (simp add: isSigner_def isWritable_def index_of_None signer_in_def writable_in_def del: set_map)
    next
      case (Some m)
      then have "(a, m) \<in> set ?raw" by (rule map_of_SomeD)
      then have m: "m \<in> set ?metas" "m_address m = a"
        using wf unfolding all_metas_eq wf_metas_def by force+
      then have "a \<in> m_address ` set (?g (m_signer m) (m_writable m))" by (auto simp: group_member)
      then show ?thesis
        using Some pos split by (cases "m_signer m"; cases "m_writable m") (simp_all add: signer_in_def writable_in_def)
    qed
    then show "isSigner ?t a \<longleftrightarrow> requested_signer fp ixs a" "isWritable ?t a \<longleftrightarrow> requested_writable fp ixs a"
      using flags by blast+
  qed
  ultimately show ?thesis by (intro exI [of _ ?t]) simp
qed

lemma compileV0_reads_back:
  assumes "base58_laws env" "compileV0 env fp ixs blockhash = Inr wire" "length wire \<le> transaction_limit"
  shows "\<exists>t. parseSolanaTransaction env wire = Inr t \<and>
    t_keys t \<noteq> [] \<and> hd (t_keys t) = fp \<and> t_blockhash t = blockhash \<and>
    t_instructions t =
      map (\<lambda>ix. \<lparr>pi_program = wi_program ix, pi_accounts = map m_address (wi_accounts ix), pi_data = wi_data ix\<rparr>) ixs \<and>
    (\<forall>a. isSigner t a \<longleftrightarrow> requested_signer fp ixs a) \<and>
    (\<forall>a. isWritable t a \<longleftrightarrow> requested_writable fp ixs a)"
  using compileV0_signed [OF assms] by blast

end
