(* ===== verification/SolanaPayment.thy ===== *)
theory SolanaPayment
  imports SolanaCompile
begin

text \<open>
  packages/core/src/solana-payment.ts: one SPL token payment, built and checked byte by byte, and
  the owner's delegate approval and revocation.  Every refusal is a branch, in the order of the
  code; the RPC endpoint is a record of answers.
\<close>

record spl_payment =
  feePayer :: string
  authority :: string
  sourceOwner :: "string option"
  mint :: string
  tokenProgram :: string
  decimals :: int
  recipient :: string
  amount :: int
  memo :: "string option"
  recentBlockhash :: string
  computeUnitLimit :: "int option"
  computeUnitPrice :: "int option"

record spl_revocation =
  r_owner :: string
  r_mint :: string
  r_tokenProgram :: string
  r_blockhash :: string

record spl_approval = spl_revocation +
  r_decimals :: int
  r_delegate :: string
  r_amount :: int

section \<open>Derived addresses\<close>

definition pda_marker :: bytes where "pda_marker = utf8 ''ProgramDerivedAddress''"

text \<open>The loop over the bump seed, from \<open>bump - 1\<close> down to 0: the first hash off the curve.\<close>

primrec find_pda :: "sol_env \<Rightarrow> bytes \<Rightarrow> bytes \<Rightarrow> nat \<Rightarrow> (string \<times> nat) option" where
  "find_pda env seeds program 0 = None"
| "find_pda env seeds program (Suc bump) =
     (let hash = sha256 (s_crypto env) (seeds @ [word_of_nat bump] @ program @ pda_marker)
      in if on_curve env hash then find_pda env seeds program bump
         else Some (s58_encode env hash, bump))"

definition associatedTokenAddress :: "sol_env \<Rightarrow> string \<Rightarrow> string \<Rightarrow> string \<Rightarrow> wallet_error + string" where
  "associatedTokenAddress env owner mnt tokenProg =
     andThen (key_bytes env owner ''owner'') (\<lambda>o'.
     andThen (key_bytes env tokenProg ''token program'') (\<lambda>t.
     andThen (key_bytes env mnt ''mint'') (\<lambda>m.
     andThen (key_bytes env associated_token_program ''program'') (\<lambda>program.
     case find_pda env (o' @ t @ m) program 256 of
       None \<Rightarrow> Inl (fail ''No associated token address exists for these seeds.'')
     | Some (address, _) \<Rightarrow> Inr address))))"

section \<open>Building a payment\<close>

definition default_unit_limit :: int where "default_unit_limit = 40000"
definition default_unit_price :: int where "default_unit_price = 1"

definition key_check :: "sol_env \<Rightarrow> string \<Rightarrow> string \<Rightarrow> wallet_error option" where
  "key_check env what v = (case key_bytes env v what of Inl e \<Rightarrow> Some e | Inr _ \<Rightarrow> None)"

definition checkPayment :: "sol_env \<Rightarrow> spl_payment \<Rightarrow> wallet_error + int \<times> int" where
  "checkPayment env p =
     (let limit = or_else (computeUnitLimit p) default_unit_limit;
          price = or_else (computeUnitPrice p) default_unit_price
      in case first_some
        [throw_if (\<not> is_token_program (tokenProgram p)) (fail ''tokenProgram is not SPL Token or Token-2022.''),
         throw_if (decimals p < 0 \<or> decimals p > 255) (fail ''decimals is not a byte.''),
         throw_if (amount p \<le> 0 \<or> amount p > u64_max) (fail ''amount is not a positive u64.''),
         throw_if (recipient p = authority p \<or> Some (recipient p) = sourceOwner p)
           (fail ''The payer cannot pay itself.''),
         (case sourceOwner p of None \<Rightarrow> None | Some s \<Rightarrow> key_check env ''sourceOwner'' s),
         throw_if (limit \<le> 0 \<or> limit > 1400000) (fail ''computeUnitLimit is out of range.''),
         throw_if (price < 0 \<or> price > u64_max) (fail ''computeUnitPrice is not a u64.''),
         key_check env ''feePayer'' (feePayer p), key_check env ''authority'' (authority p),
         key_check env ''mint'' (mint p), key_check env ''recipient'' (recipient p),
         key_check env ''recentBlockhash'' (recentBlockhash p)]
      of Some e \<Rightarrow> Inl e | None \<Rightarrow> Inr (limit, price))"

definition le_u64 :: "int \<Rightarrow> bytes" where "le_u64 n = le_bytes 8 (nat n)"
definition le_u32 :: "int \<Rightarrow> bytes" where "le_u32 n = le_bytes 4 (nat n)"

definition limit_instruction :: "int \<Rightarrow> parsed_instruction" where
  "limit_instruction limit = \<lparr>pi_program = compute_budget_program, pi_accounts = [], pi_data = 2 # le_u32 limit\<rparr>"

definition price_instruction :: "int \<Rightarrow> parsed_instruction" where
  "price_instruction price = \<lparr>pi_program = compute_budget_program, pi_accounts = [], pi_data = 3 # le_u64 price\<rparr>"

definition transfer_instruction :: "spl_payment \<Rightarrow> string \<Rightarrow> string \<Rightarrow> parsed_instruction" where
  "transfer_instruction p source destination =
     \<lparr>pi_program = tokenProgram p, pi_accounts = [source, mint p, destination, authority p],
      pi_data = 12 # le_u64 (amount p) @ [word_of_int (decimals p)]\<rparr>"

definition memo_instruction :: "string \<Rightarrow> parsed_instruction" where
  "memo_instruction m = \<lparr>pi_program = memo_program, pi_accounts = [], pi_data = utf8 m\<rparr>"

text \<open>The budget and transfer instructions, then the memo if there is one.\<close>

definition paymentInstructions :: "sol_env \<Rightarrow> spl_payment \<Rightarrow> wallet_error + parsed_instruction list" where
  "paymentInstructions env p =
     andThen (checkPayment env p) (\<lambda>(limit, price).
     andThen (associatedTokenAddress env (or_else (sourceOwner p) (authority p)) (mint p) (tokenProgram p)) (\<lambda>source.
     andThen (associatedTokenAddress env (recipient p) (mint p) (tokenProgram p)) (\<lambda>destination.
     let base = [limit_instruction limit, price_instruction price, transfer_instruction p source destination] in
     case memo p of
       None \<Rightarrow> Inr base
     | Some m \<Rightarrow>
         if m = [] \<or> length (utf8 m) > 566 then Inl (fail ''memo must be 1 to 566 bytes.'')
         else Inr (base @ [memo_instruction m]))))"

text \<open>The accounts of the message, in order, and how many sign and are read only.\<close>

definition payment_signers :: "spl_payment \<Rightarrow> string list" where
  "payment_signers p = (if feePayer p = authority p then [feePayer p] else [feePayer p, authority p])"

definition payment_readonly :: "spl_payment \<Rightarrow> string list" where
  "payment_readonly p =
     [mint p, tokenProgram p, compute_budget_program] @ (if memo p = None then [] else [memo_program])"

definition payment_keys :: "spl_payment \<Rightarrow> string \<Rightarrow> string \<Rightarrow> string list" where
  "payment_keys p source destination = payment_signers p @ [source, destination] @ payment_readonly p"

definition as_triple :: "parsed_instruction \<Rightarrow> string \<times> string list \<times> bytes" where
  "as_triple ix = (pi_program ix, pi_accounts ix, pi_data ix)"

definition buildSplTransferTransaction :: "sol_env \<Rightarrow> spl_payment \<Rightarrow> wallet_error + bytes" where
  "buildSplTransferTransaction env p =
     andThen (paymentInstructions env p) (\<lambda>ixs.
     let accounts = pi_accounts (ixs ! 2); keys = payment_keys p (accounts ! 0) (accounts ! 2) in
     if \<not> distinct keys then
       Inl (fail ''The payment accounts overlap (fee payer, payer, token accounts).'')
     else
       andThen (map_throw (\<lambda>k. key_bytes env k ''account'') keys) (\<lambda>ks.
       andThen (key_bytes env (recentBlockhash p) ''recentBlockhash'') (\<lambda>hash.
       let wire = unsigned_wire (length (payment_signers p)) (if feePayer p = authority p then 0 else 1)
                    (length (payment_readonly p)) keys ks hash (map as_triple ixs)
       in if length wire > transaction_limit then
            Inl (fail ''The payment transaction exceeds the Solana size limit.'')
          else Inr wire)))"

section \<open>Owner-signed approval and revocation\<close>

definition approvalInstruction :: "sol_env \<Rightarrow> spl_approval \<Rightarrow> wallet_error + parsed_instruction" where
  "approvalInstruction env a =
     andThen (checkPayment env
       \<lparr>feePayer = r_owner a, authority = r_owner a, sourceOwner = None, mint = r_mint a,
        tokenProgram = r_tokenProgram a, decimals = r_decimals a, recipient = r_delegate a,
        amount = r_amount a, memo = None, recentBlockhash = r_blockhash a,
        computeUnitLimit = None, computeUnitPrice = None\<rparr>) (\<lambda>_.
     andThen (associatedTokenAddress env (r_owner a) (r_mint a) (r_tokenProgram a)) (\<lambda>source.
     Inr \<lparr>pi_program = r_tokenProgram a, pi_accounts = [source, r_mint a, r_delegate a, r_owner a],
          pi_data = 13 # le_u64 (r_amount a) @ [word_of_int (r_decimals a)]\<rparr>))"

definition revocationInstruction :: "sol_env \<Rightarrow> spl_revocation \<Rightarrow> wallet_error + parsed_instruction" where
  "revocationInstruction env a =
     (if \<not> is_token_program (r_tokenProgram a) then Inl (fail ''tokenProgram is not SPL Token or Token-2022.'')
      else
        andThen (associatedTokenAddress env (r_owner a) (r_mint a) (r_tokenProgram a)) (\<lambda>source.
        Inr \<lparr>pi_program = r_tokenProgram a, pi_accounts = [source, r_owner a], pi_data = [5]\<rparr>))"

definition buildApproveDelegateTransaction :: "sol_env \<Rightarrow> spl_approval \<Rightarrow> wallet_error + bytes" where
  "buildApproveDelegateTransaction env a =
     andThen (approvalInstruction env a) (\<lambda>ix.
     compileV0 env (r_owner a)
       [\<lparr>wi_program = pi_program ix,
         wi_accounts =
           [\<lparr>m_address = pi_accounts ix ! 0, m_signer = False, m_writable = True\<rparr>,
            \<lparr>m_address = pi_accounts ix ! 1, m_signer = False, m_writable = False\<rparr>,
            \<lparr>m_address = pi_accounts ix ! 2, m_signer = False, m_writable = False\<rparr>,
            \<lparr>m_address = pi_accounts ix ! 3, m_signer = True, m_writable = False\<rparr>],
         wi_data = pi_data ix\<rparr>]
       (r_blockhash a))"

definition buildRevokeDelegateTransaction :: "sol_env \<Rightarrow> spl_revocation \<Rightarrow> wallet_error + bytes" where
  "buildRevokeDelegateTransaction env a =
     andThen (revocationInstruction env a) (\<lambda>ix.
     compileV0 env (r_owner a)
       [\<lparr>wi_program = pi_program ix,
         wi_accounts =
           [\<lparr>m_address = pi_accounts ix ! 0, m_signer = False, m_writable = True\<rparr>,
            \<lparr>m_address = pi_accounts ix ! 1, m_signer = True, m_writable = False\<rparr>],
         wi_data = pi_data ix\<rparr>]
       (r_blockhash a))"

datatype owner_request = Approve spl_approval | Revoke spl_revocation

fun request_base :: "owner_request \<Rightarrow> spl_revocation" where
  "request_base (Approve a) = spl_revocation.truncate a"
| "request_base (Revoke a) = a"

fun request_instruction :: "sol_env \<Rightarrow> owner_request \<Rightarrow> wallet_error + parsed_instruction" where
  "request_instruction env (Approve a) = approvalInstruction env a"
| "request_instruction env (Revoke a) = revocationInstruction env a"

definition max_instructions :: nat where "max_instructions = 6"

definition same_instruction :: "parsed_instruction \<Rightarrow> parsed_instruction \<Rightarrow> bool" where
  "same_instruction got want \<longleftrightarrow>
     pi_program got = pi_program want \<and> length (pi_accounts got) = length (pi_accounts want) \<and>
     (\<forall>(a, b) \<in> set (zip (pi_accounts got) (pi_accounts want)). a = b) \<and>
     equal_bytes (pi_data got) (pi_data want)"

text \<open>The loop over the instructions: how many are ours, or the first refusal.\<close>

fun count_ours :: "parsed_instruction \<Rightarrow> parsed_instruction list \<Rightarrow> wallet_error + nat" where
  "count_ours want [] = Inr 0"
| "count_ours want (ix # ixs) =
     (if pi_program ix = pi_program want then
        (if \<not> same_instruction ix want then Inl (fail ''The wallet changed the token instruction.'')
         else andThen (count_ours want ixs) (\<lambda>n. Inr (n + 1)))
      else if pi_program ix \<noteq> compute_budget_program \<and> pi_program ix \<noteq> lighthouse_program then
        Inl (fail (''The wallet added an instruction for '' @ pi_program ix @ ''.''))
      else count_ours want ixs)"

definition verifySignedOwnerTransaction :: "sol_env \<Rightarrow> bytes \<Rightarrow> owner_request \<Rightarrow> wallet_error + string" where
  "verifySignedOwnerTransaction env wire expected =
     andThen (request_instruction env expected) (\<lambda>want.
     let base = request_base expected in
     andThen (parseSolanaTransaction env wire) (\<lambda>tx.
     if t_keys tx = [] \<or> hd (t_keys tx) \<noteq> r_owner base \<or> t_required tx \<noteq> 1 then
       Inl (fail ''The owner must pay for and alone sign this transaction.'')
     else if t_blockhash tx \<noteq> r_blockhash base then Inl (fail ''The wallet changed the blockhash.'')
     else if length (t_instructions tx) > max_instructions then
       Inl (fail ''The wallet added too many instructions.'')
     else
       andThen (count_ours want (t_instructions tx)) (\<lambda>ours.
       if ours \<noteq> 1 then Inl (fail ''The transaction must hold exactly one token instruction.'')
       else
         andThen (key_bytes env (r_owner base) ''owner'') (\<lambda>k.
         if t_signatures tx = [] \<or> \<not> ed_verify env (hd (t_signatures tx)) (t_message tx) k then
           Inl (fail (''The transaction is not signed by '' @ r_owner base @ ''.''))
         else Inr (s64_encode env wire)))))"

section \<open>Checking a signed payment\<close>

text \<open>The loop over the instructions after the transfer: how many memos.\<close>

fun count_memos ::
  "parsed_instruction option \<Rightarrow> bool \<Rightarrow> parsed_instruction list \<Rightarrow> wallet_error + nat" where
  "count_memos want allowLighthouse [] = Inr 0"
| "count_memos want allowLighthouse (ix # ixs) =
     (if pi_program ix = memo_program then
        (case want of
           None \<Rightarrow> Inl (fail ''The wallet changed the memo.'')
         | Some m \<Rightarrow>
             if pi_accounts ix \<noteq> [] \<or> \<not> equal_bytes (pi_data ix) (pi_data m) then
               Inl (fail ''The wallet changed the memo.'')
             else andThen (count_memos want allowLighthouse ixs) (\<lambda>n. Inr (n + 1)))
      else if \<not> allowLighthouse \<or> pi_program ix \<noteq> lighthouse_program then
        Inl (fail (''The wallet added an instruction for '' @ pi_program ix @ ''.''))
      else count_memos want allowLighthouse ixs)"

text \<open>The check of the payer's signature: \<open>accountKeys.indexOf\<close> and its slot.\<close>

definition verify_signer :: "sol_env \<Rightarrow> parsed_tx \<Rightarrow> string \<Rightarrow> wallet_error option" where
  "verify_signer env tx address =
     (case key_bytes env address ''signer'' of
        Inl e \<Rightarrow> Some e
      | Inr k \<Rightarrow>
          throw_if (case index_of (t_keys tx) address of None \<Rightarrow> True
              | Some i \<Rightarrow> i \<ge> length (t_signatures tx) \<or>
                  \<not> ed_verify env (t_signatures tx ! i) (t_message tx) k)
            (fail (''The transaction is not signed by '' @ address @ ''.'')))"

definition verifySignedSplTransfer ::
  "sol_env \<Rightarrow> bytes \<Rightarrow> spl_payment \<Rightarrow> bool \<Rightarrow> wallet_error + string" where
  "verifySignedSplTransfer env wire p allowLighthouse =
     andThen (paymentInstructions env p) (\<lambda>expected.
     andThen (parseSolanaTransaction env wire) (\<lambda>tx.
     let accounts = pi_accounts (expected ! 2);
         want_memo = (if length expected > 3 then Some (expected ! 3) else None)
     in case first_some
       [throw_if (t_keys tx = [] \<or> hd (t_keys tx) \<noteq> feePayer p) (fail ''The wallet changed the fee payer.''),
        throw_if (t_blockhash tx \<noteq> recentBlockhash p) (fail ''The wallet changed the blockhash.''),
        throw_if (length (t_instructions tx) > max_instructions) (fail ''The wallet added too many instructions.''),
        throw_if (length (t_instructions tx) < 3 \<or>
            \<not> (\<forall>(got, want) \<in> set (zip (take 3 (t_instructions tx)) (take 3 expected)). same_instruction got want))
          (fail ''The wallet changed the payment instructions.''),
        throw_if (\<not> isWritable tx (accounts ! 0) \<or> \<not> isWritable tx (accounts ! 2) \<or> \<not> isSigner tx (authority p))
          (fail ''The permissions of the transfer accounts changed.'')]
     of Some e \<Rightarrow> Inl e
     | None \<Rightarrow>
         andThen (count_memos want_memo allowLighthouse (drop 3 (t_instructions tx))) (\<lambda>memos.
         case first_some
           [throw_if (memos \<noteq> (if want_memo = None then 0 else 1)) (fail ''The wallet changed the memo.''),
            verify_signer env tx (authority p),
            throw_if (feePayer p = authority p \<and> t_required tx \<noteq> 1)
              (fail ''A self-funded payment has exactly one signer.''),
            throw_if (feePayer p \<noteq> authority p \<and> t_required tx \<noteq> 2)
              (fail ''The transaction must be signed by the fee payer and the payer.'')]
         of Some e \<Rightarrow> Inl e | None \<Rightarrow> Inr (s64_encode env wire))))"

text \<open>\<open>wire.set(bytes, offset)\<close>; outside the array it throws, which the callers never do.\<close>

definition set_at :: "nat \<Rightarrow> bytes \<Rightarrow> bytes \<Rightarrow> bytes" where
  "set_at offset bs wire = take offset wire @ bs @ drop (offset + length bs) wire"

section \<open>The RPC endpoint\<close>

text \<open>What one call session of an RPC endpoint answers; \<open>Inl\<close> is a rejected promise.\<close>

record sol_rpc =
  getGenesisHash :: "wallet_error + string"
  getLatestBlockhash :: "wallet_error + string"
  getAccountInfo :: "string \<Rightarrow> wallet_error + (string \<times> bytes) option"

definition assertSolanaCluster :: "sol_rpc \<Rightarrow> string \<Rightarrow> wallet_error + unit" where
  "assertSolanaCluster rpc network =
     andThen (getGenesisHash rpc) (\<lambda>genesis.
     if ''solana:'' @ js_slice 0 32 genesis \<noteq> network then
       Inl (WalletError ''chain_mismatch''
         (''The Solana RPC serves solana:'' @ js_slice 0 32 genesis @ '', not '' @ network @ ''.''))
     else Inr ())"

section \<open>What a check establishes\<close>

lemma all_zip_eq: "length xs = length ys \<Longrightarrow> (\<forall>(a, b) \<in> set (zip xs ys). a = b) \<longleftrightarrow> xs = ys"
  by (induction xs ys rule: list_induct2) auto

lemma same_instruction_iff [simp]: "same_instruction got want \<longleftrightarrow> got = want"
proof (cases "length (pi_accounts got) = length (pi_accounts want)")
  case True
  then show ?thesis by (cases got; cases want) (simp add: same_instruction_def all_zip_eq)
qed (auto simp: same_instruction_def)

lemma checkPayment_Inr:
  assumes "checkPayment env p = Inr lp"
  shows "is_token_program (tokenProgram p) \<and> 0 < amount p \<and> amount p \<le> u64_max \<and>
    0 \<le> decimals p \<and> decimals p \<le> 255 \<and>
    (\<exists>b. key_bytes env (feePayer p) ''feePayer'' = Inr b) \<and>
    (\<exists>b. key_bytes env (authority p) ''authority'' = Inr b) \<and>
    (\<exists>b. key_bytes env (recentBlockhash p) ''recentBlockhash'' = Inr b)"
  using assms
  by (auto simp: checkPayment_def key_check_def Let_def split: option.splits sum.splits)

lemma paymentInstructions_Inr:
  assumes "paymentInstructions env p = Inr ixs"
  obtains limit price source destination where
    "checkPayment env p = Inr (limit, price)"
    "associatedTokenAddress env (or_else (sourceOwner p) (authority p)) (mint p) (tokenProgram p) = Inr source"
    "associatedTokenAddress env (recipient p) (mint p) (tokenProgram p) = Inr destination"
    "ixs = [limit_instruction limit, price_instruction price, transfer_instruction p source destination] @
       (case memo p of None \<Rightarrow> [] | Some m \<Rightarrow> [memo_instruction m])"
  using assms by (cases "memo p") (auto simp: paymentInstructions_def Let_def split: if_splits)

text \<open>The programs a payment uses are different programs.\<close>

lemma programs_differ:
  "is_token_program q \<Longrightarrow> q \<noteq> compute_budget_program \<and> q \<noteq> memo_program \<and> q \<noteq> lighthouse_program"
  "\<not> is_token_program compute_budget_program" "\<not> is_token_program memo_program"
  "\<not> is_token_program lighthouse_program" "memo_program \<noteq> lighthouse_program"
  by (auto simp: is_token_program_def token_program_def token2022_program_def compute_budget_program_def
      memo_program_def lighthouse_program_def)

lemma count_memos_Inr:
  "count_memos want al ixs = Inr n \<Longrightarrow>
     (\<forall>ix \<in> set ixs. (pi_program ix = memo_program \<and>
        (\<exists>m. want = Some m \<and> pi_accounts ix = [] \<and> pi_data ix = pi_data m)) \<or>
      (al \<and> pi_program ix = lighthouse_program)) \<and>
     n = length (filter (\<lambda>ix. pi_program ix = memo_program) ixs)"
  by (induction want al ixs arbitrary: n rule: count_memos.induct) (auto split: if_splits option.splits)

lemma count_ours_Inr:
  "count_ours want ixs = Inr n \<Longrightarrow>
     (\<forall>ix \<in> set ixs. ix = want \<or> pi_program ix = compute_budget_program \<or> pi_program ix = lighthouse_program) \<and>
     filter (\<lambda>ix. pi_program ix = pi_program want) ixs = replicate n want"
  by (induction want ixs arbitrary: n rule: count_ours.induct) (auto split: if_splits)

lemma verify_signer_None:
  "verify_signer env tx a = None \<longleftrightarrow>
     (\<exists>k i. key_bytes env a ''signer'' = Inr k \<and> index_of (t_keys tx) a = Some i \<and>
        i < length (t_signatures tx) \<and> ed_verify env (t_signatures tx ! i) (t_message tx) k)"
  by (auto simp: verify_signer_def split: sum.splits option.splits)

lemma verified_transfer:
  assumes v: "verifySignedSplTransfer env wire p al = Inr encoded"
  shows "\<exists>tx source destination. encoded = s64_encode env wire \<and> parseSolanaTransaction env wire = Inr tx \<and>
    hd (t_keys tx) = feePayer p \<and> t_blockhash tx = recentBlockhash p \<and>
    associatedTokenAddress env (or_else (sourceOwner p) (authority p)) (mint p) (tokenProgram p) = Inr source \<and>
    associatedTokenAddress env (recipient p) (mint p) (tokenProgram p) = Inr destination \<and>
    filter (\<lambda>ix. is_token_program (pi_program ix)) (t_instructions tx) = [transfer_instruction p source destination] \<and>
    (\<forall>ix \<in> set (t_instructions tx). is_token_program (pi_program ix) \<or>
       pi_program ix = compute_budget_program \<or> pi_program ix = memo_program \<or>
       (al \<and> pi_program ix = lighthouse_program)) \<and>
    isSigner tx (authority p) \<and> verify_signer env tx (authority p) = None"
proof -
  obtain ixs tx where p: "paymentInstructions env p = Inr ixs" and tx: "parseSolanaTransaction env wire = Inr tx"
    using v by (auto simp: verifySignedSplTransfer_def)
  from p obtain limit price source destination where
    c: "checkPayment env p = Inr (limit, price)"
    and s: "associatedTokenAddress env (or_else (sourceOwner p) (authority p)) (mint p) (tokenProgram p) = Inr source"
    and d: "associatedTokenAddress env (recipient p) (mint p) (tokenProgram p) = Inr destination"
    and ixs: "ixs = [limit_instruction limit, price_instruction price, transfer_instruction p source destination] @
       (case memo p of None \<Rightarrow> [] | Some m \<Rightarrow> [memo_instruction m])"
    by (rule paymentInstructions_Inr)
  have three: "take 3 ixs = [limit_instruction limit, price_instruction price, transfer_instruction p source destination]"
    by (simp add: ixs)
  let ?want = "if length ixs > 3 then Some (ixs ! 3) else None"
  obtain memos where n:
    "hd (t_keys tx) = feePayer p" "t_blockhash tx = recentBlockhash p" "\<not> length (t_instructions tx) < 3"
    "\<forall>(got, want) \<in> set (zip (take 3 (t_instructions tx)) (take 3 ixs)). same_instruction got want"
    "isSigner tx (authority p)" "count_memos ?want al (drop 3 (t_instructions tx)) = Inr memos"
    "verify_signer env tx (authority p) = None" "encoded = s64_encode env wire"
    using v p tx by (auto simp: verifySignedSplTransfer_def Let_def split: option.splits)
  have "take 3 (t_instructions tx) = take 3 ixs"
    using n(3,4) three all_zip_eq [of "take 3 (t_instructions tx)" "take 3 ixs"] by simp
  then have all: "t_instructions tx =
      [limit_instruction limit, price_instruction price, transfer_instruction p source destination] @
      drop 3 (t_instructions tx)"
    using three by (metis append_take_drop_id)
  have tok: "is_token_program (tokenProgram p)" using checkPayment_Inr [OF c] by simp
  note rest = count_memos_Inr [OF n(6), THEN conjunct1]
  then have drop3: "filter (\<lambda>ix. is_token_program (pi_program ix)) (drop 3 (t_instructions tx)) = []"
    using programs_differ by (auto simp: filter_empty_conv)
  have "filter (\<lambda>ix. is_token_program (pi_program ix)) (t_instructions tx) = [transfer_instruction p source destination]"
    using drop3 tok programs_differ(2)
    by (subst all) (simp add: limit_instruction_def price_instruction_def transfer_instruction_def)
  moreover have "\<forall>ix \<in> set (t_instructions tx). is_token_program (pi_program ix) \<or>
       pi_program ix = compute_budget_program \<or> pi_program ix = memo_program \<or>
       (al \<and> pi_program ix = lighthouse_program)"
  proof
    fix ix assume "ix \<in> set (t_instructions tx)"
    then have "ix \<in> set (drop 3 (t_instructions tx)) \<or> ix = limit_instruction limit \<or>
        ix = price_instruction price \<or> ix = transfer_instruction p source destination"
      by (subst (asm) all) auto
    then show "is_token_program (pi_program ix) \<or> pi_program ix = compute_budget_program \<or>
        pi_program ix = memo_program \<or> (al \<and> pi_program ix = lighthouse_program)"
      using rest tok by (auto simp: limit_instruction_def price_instruction_def transfer_instruction_def)
  qed
  ultimately show ?thesis using n tx s d by blast
qed

end
