(* ===== verification/KeyAdapter.thy ===== *)
theory KeyAdapter
  imports SolanaWire
begin

text \<open>
  What the Solana session-key manager and the channel voucher-key manager share: one JSON array of
  records behind a storage adapter, read and written whole under the key's and the storage's
  lock (\<open>loadAll\<close>, \<open>saveAll\<close> and \<open>update\<close> of both classes).  A slot whose text does not parse makes
  every read fail; a write may fail.
\<close>

datatype 'r raw_slot = NoRaw | Saved "'r list" | BadText

record 'r adapter =
  raw :: "'r raw_slot"
  accepts :: bool

definition rec_loadAll :: "'r adapter \<Rightarrow> wallet_error + 'r list" where
  "rec_loadAll a =
     (case raw a of NoRaw \<Rightarrow> Inr [] | Saved rs \<Rightarrow> Inr rs
      | BadText \<Rightarrow> Inl (WalletError ''error'' ''Unexpected token in JSON''))"

definition rec_saveAll :: "'r list \<Rightarrow> 'r adapter \<Rightarrow> wallet_error + 'r adapter" where
  "rec_saveAll rs a =
     (if accepts a then Inr (a\<lparr>raw := Saved rs\<rparr>) else Inl (WalletError ''storage_write_failed'' []))"

definition find_rec :: "('r \<Rightarrow> string) \<Rightarrow> string \<Rightarrow> 'r list \<Rightarrow> 'r option" where
  "find_rec idf kid rs = find (\<lambda>r. idf r = kid) rs"

fun put_rec :: "('r \<Rightarrow> string) \<Rightarrow> 'r \<Rightarrow> 'r list \<Rightarrow> 'r list" where
  "put_rec idf r [] = [r]"
| "put_rec idf r (x # xs) = (if idf x = idf r then r # xs else x # put_rec idf r xs)"

text \<open>
  \<open>update(id, change)\<close>: the callback receives the record and all records and answers with its
  result and all records after its assignments; nothing is saved when it throws.
\<close>

definition rec_update ::
  "('r \<Rightarrow> string) \<Rightarrow> (string \<Rightarrow> string) \<Rightarrow> string \<Rightarrow> ('r \<Rightarrow> 'r list \<Rightarrow> wallet_error + 't \<times> 'r list) \<Rightarrow>
   'r adapter \<Rightarrow> wallet_error + 't \<times> 'r adapter" where
  "rec_update idf missing kid change a =
     andThen (rec_loadAll a) (\<lambda>rs.
     case find_rec idf kid rs of
       None \<Rightarrow> Inl (fail (missing kid))
     | Some r \<Rightarrow>
         andThen (change r rs) (\<lambda>(result, rs').
         andThen (rec_saveAll rs' a) (\<lambda>a'. Inr (result, a'))))"

text \<open>A callback that assigns to its own record only.\<close>

definition own_change ::
  "('r \<Rightarrow> string) \<Rightarrow> ('r \<Rightarrow> wallet_error + 't \<times> 'r) \<Rightarrow> 'r \<Rightarrow> 'r list \<Rightarrow> wallet_error + 't \<times> 'r list" where
  "own_change idf f r rs = andThen (f r) (\<lambda>(result, r'). Inr (result, put_rec idf r' rs))"

text \<open>\<open>keys.push(stored)\<close> under the storage lock.\<close>

definition rec_push :: "'r \<Rightarrow> 'r adapter \<Rightarrow> wallet_error + 'r adapter" where
  "rec_push r a = andThen (rec_loadAll a) (\<lambda>rs. rec_saveAll (rs @ [r]) a)"

section \<open>Lemmas\<close>

lemma find_put_rec: "find_rec idf kid (put_rec idf r rs) = (if kid = idf r then Some r else find_rec idf kid rs)"
  by (induction idf r rs rule: put_rec.induct) (auto simp: find_rec_def)

lemma find_rec_key: "find_rec idf kid rs = Some r \<Longrightarrow> idf r = kid"
  by (auto simp: find_rec_def dest: find_SomeD)

interpretation records: keyed_map "find_rec idf" "put_rec idf" idf for idf :: "'r \<Rightarrow> string"
  by unfold_locales (simp_all add: find_put_rec find_rec_key)

definition table :: "'r adapter \<Rightarrow> 'r list" where
  "table a = (case raw a of Saved rs \<Rightarrow> rs | _ \<Rightarrow> [])"

lemma loadAll_table: "rec_loadAll a = Inr rs \<Longrightarrow> rs = table a"
  by (auto simp: rec_loadAll_def table_def split: raw_slot.splits)

lemma saveAll_table: "rec_saveAll rs a = Inr a' \<Longrightarrow> table a' = rs"
  by (auto simp: rec_saveAll_def table_def split: if_splits)

lemma rec_update_Inr:
  assumes "rec_update idf missing kid change a = Inr (result, a')"
  shows "\<exists>r. find_rec idf kid (table a) = Some r \<and> change r (table a) = Inr (result, table a')"
  using assms
  by (auto simp: rec_update_def split: option.splits dest!: loadAll_table dest: saveAll_table)

lemma own_update_Inr:
  assumes "rec_update idf missing kid (own_change idf f) a = Inr (result, a')"
  shows "\<exists>r r'. find_rec idf kid (table a) = Some r \<and> f r = Inr (result, r') \<and>
    table a' = put_rec idf r' (table a)"
  using rec_update_Inr [OF assms] by (auto simp: own_change_def)

lemma find_push: "find_rec idf kid (rs @ [r]) =
   (case find_rec idf kid rs of Some x \<Rightarrow> Some x | None \<Rightarrow> if idf r = kid then Some r else None)"
  by (auto simp: find_rec_def find_append split: option.splits)

lemma rec_push_Inr: "rec_push r a = Inr a' \<Longrightarrow> table a' = table a @ [r]"
  by (auto simp: rec_push_def dest!: loadAll_table dest: saveAll_table)

section \<open>Records and what was issued under them\<close>

text \<open>
  The account book of a manager: every stored record satisfies \<open>acc\<close> for the entries issued under
  its identifier, and nothing was issued under an identifier that is not stored.
\<close>

definition issued_by :: "string \<Rightarrow> (string \<times> 'e) list \<Rightarrow> 'e list" where
  "issued_by kid es = map snd (filter (\<lambda>e. fst e = kid) es)"

definition book_ok ::
  "('r \<Rightarrow> string) \<Rightarrow> ('r \<Rightarrow> 'e list \<Rightarrow> bool) \<Rightarrow> 'r adapter \<Rightarrow> (string \<times> 'e) list \<Rightarrow> bool" where
  "book_ok idf acc a es \<longleftrightarrow>
     (\<forall>kid. (find_rec idf kid (table a) = None \<longrightarrow> issued_by kid es = []) \<and>
       (\<forall>r. find_rec idf kid (table a) = Some r \<longrightarrow> acc r (issued_by kid es)))"

lemma issued_by_simps [simp]:
  "issued_by kid [] = []"
  "issued_by kid (xs @ ys) = issued_by kid xs @ issued_by kid ys"
  "issued_by kid [(i, e)] = (if i = kid then [e] else [])"
  by (simp_all add: issued_by_def)

lemma book_found: "book_ok idf acc a es \<Longrightarrow> find_rec idf kid (table a) = Some r \<Longrightarrow> acc r (issued_by kid es)"
  by (simp add: book_ok_def)

text \<open>A record is replaced, and perhaps one entry issued under it.\<close>

lemma book_put:
  assumes "book_ok idf acc a es" "find_rec idf kid (table a) = Some r" "table a' = put_rec idf r' (table a)"
    and "idf r' = kid" "acc r' (issued_by kid (es @ new))" "\<forall>e \<in> set new. fst e = kid"
  shows "book_ok idf acc a' (es @ new)"
proof -
  have "issued_by i (es @ new) = issued_by i es" if "i \<noteq> kid" for i
    using assms(6) that by (auto simp: issued_by_def filter_empty_conv)
  then show ?thesis
    using assms(1-5) unfolding book_ok_def by (auto simp: find_put_rec split: if_splits)
qed

text \<open>An operation on one record that may issue one entry under it.\<close>

lemma book_update:
  assumes "rec_update idf missing kid (own_change idf f) a = Inr (result, a')" "book_ok idf acc a es"
    and "\<And>r r'. f r = Inr (result, r') \<Longrightarrow> idf r' = idf r \<and>
      (idf r = kid \<longrightarrow> acc r (issued_by kid es) \<longrightarrow> acc r' (issued_by kid (es @ new)))"
    and "\<forall>e \<in> set new. fst e = kid"
  shows "book_ok idf acc a' (es @ new)"
proof -
  obtain r r' where r: "find_rec idf kid (table a) = Some r" "f r = Inr (result, r')"
    "table a' = put_rec idf r' (table a)" using own_update_Inr [OF assms(1)] by blast
  then show ?thesis
    using book_put [OF assms(2) r(1,3) _ _ assms(4)] assms(3) [OF r(2)] book_found [OF assms(2) r(1)]
      find_rec_key [OF r(1)] by auto
qed

lemma book_push:
  assumes "book_ok idf acc a es" "table a' = table a @ [r]" "find_rec idf (idf r) (table a) = None" "acc r []"
  shows "book_ok idf acc a' es"
  using assms unfolding book_ok_def by (auto simp: find_push split: option.splits if_splits)

end
