(* ===== verification/JsonText.thy ===== *)
theory JsonText
  imports JsNumbers
begin

text \<open>
  \<open>JSON.stringify\<close> on the values the record bindings are built from: strings, integers, \<open>null\<close> and
  arrays.  The text determines the value, also inside a longer text, so a hash of it binds every
  part.
\<close>

datatype json = JText string | JNumber int | JNil | JList "json list"

definition escape_char :: "char \<Rightarrow> string" where
  "escape_char c =
     (if c = CHR 34 then [CHR 92, CHR 34]
      else if c = CHR 92 then [CHR 92, CHR 92]
      else if ord c = 8 then [CHR 92, CHR ''b'']
      else if ord c = 9 then [CHR 92, CHR ''t'']
      else if ord c = 10 then [CHR 92, CHR ''n'']
      else if ord c = 12 then [CHR 92, CHR ''f'']
      else if ord c = 13 then [CHR 92, CHR ''r'']
      else if ord c < 32 then [CHR 92, CHR ''u''] @ hex_padded 4 (ord c)
      else [c])"

definition quote_text :: "string \<Rightarrow> string" where
  "quote_text s = CHR 34 # concat (map escape_char s) @ [CHR 34]"

fun join_texts :: "string list \<Rightarrow> string" where
  "join_texts [] = []"
| "join_texts [s] = s"
| "join_texts (s # ss) = s @ CHR '','' # join_texts ss"

fun json_text :: "json \<Rightarrow> string" where
  "json_text (JText s) = quote_text s"
| "json_text (JNumber n) = show_int n"
| "json_text JNil = ''null''"
| "json_text (JList xs) = CHR ''['' # join_texts (map json_text xs) @ '']''"

text \<open>Optional parts of an array.\<close>

definition json_opt :: "('a \<Rightarrow> json) \<Rightarrow> 'a option \<Rightarrow> json" where
  "json_opt f v = (case v of None \<Rightarrow> JNil | Some x \<Rightarrow> f x)"

section \<open>Strings\<close>

lemma ord_quote: "ord CHR 34 = 34" "ord CHR 92 = 92"
  by (simp_all add: ord_def)

lemma escape_shape:
  "escape_char c = [c] \<and> c \<noteq> CHR 34 \<and> c \<noteq> CHR 92 \<or>
   (\<exists>d. d \<noteq> CHR ''u'' \<and> escape_char c = [CHR 92, d]) \<or>
   escape_char c = [CHR 92, CHR ''u''] @ hex_padded 4 (ord c)"
  by (auto simp: escape_char_def)

lemma hex_padded_4: "length (hex_padded 4 (ord c)) = 4"
  using ord_bound [of c] by (simp add: length_hex_padded)

lemma escape_inj: "escape_char c = escape_char d \<Longrightarrow> c = d"
proof -
  assume h: "escape_char c = escape_char d"
  have "hex_padded 4 (ord c) = hex_padded 4 (ord d) \<Longrightarrow> c = d"
    using hex_padded_inj by fastforce
  with h show "c = d"
    by (auto simp: escape_char_def split: if_splits intro: char_eqI)
qed

lemma escape_prefix: "escape_char c @ r = escape_char d @ s \<Longrightarrow> c = d \<and> r = s"
proof -
  assume h: "escape_char c @ r = escape_char d @ s"
  have "length (escape_char c) = length (escape_char d)"
    using h escape_shape [of c] escape_shape [of d] hex_padded_4 [of c] hex_padded_4 [of d] by auto
  with h show ?thesis using escape_inj by simp
qed

lemma escape_no_quote: "\<exists>x y. escape_char c = x # y \<and> x \<noteq> CHR 34"
  using escape_shape [of c] by auto

lemma escaped_inj:
  "concat (map escape_char s) @ CHR 34 # x = concat (map escape_char t) @ CHR 34 # y \<Longrightarrow> s = t \<and> x = y"
proof (induction s arbitrary: t)
  case Nil
  then show ?case
  proof (cases t)
    case (Cons d t')
    obtain u v where "escape_char d = u # v" "u \<noteq> CHR 34" using escape_no_quote by blast
    then show ?thesis using Nil Cons by simp
  qed simp
next
  case (Cons c s)
  show ?case
  proof (cases t)
    case Nil
    obtain u v where "escape_char c = u # v" "u \<noteq> CHR 34" using escape_no_quote by blast
    then show ?thesis using Cons.prems Nil by simp
  next
    case t: (Cons d t')
    have "escape_char c @ (concat (map escape_char s) @ CHR 34 # x) =
        escape_char d @ (concat (map escape_char t') @ CHR 34 # y)"
      using Cons.prems t by simp
    then have "c = d" "concat (map escape_char s) @ CHR 34 # x = concat (map escape_char t') @ CHR 34 # y"
      using escape_prefix by blast+
    then show ?thesis using Cons.IH t by blast
  qed
qed

section \<open>Numbers\<close>

text \<open>What may follow a value inside an array.\<close>

definition stops :: "string \<Rightarrow> bool" where
  "stops r \<longleftrightarrow> r = [] \<or> hd r = CHR '','' \<or> hd r = CHR '']''"

lemma digits_then_stop:
  "\<forall>c \<in> set a. is_digit c \<Longrightarrow> \<forall>c \<in> set b. is_digit c \<Longrightarrow> stops r \<Longrightarrow> stops s \<Longrightarrow> a @ r = b @ s \<Longrightarrow> a = b \<and> r = s"
proof (induction a arbitrary: b)
  case Nil
  then show ?case
    by (cases b) (auto simp: stops_def is_digit_def ord_def)
next
  case (Cons c a)
  then show ?case
    by (cases b) (auto simp: stops_def is_digit_def ord_def)
qed

lemma show_int_parts:
  "\<exists>ds. (\<forall>c \<in> set ds. is_digit c) \<and> ds \<noteq> [] \<and> show_int n = (if n < 0 then CHR ''-'' # ds else ds)"
  using show_nat_digits by (auto simp: show_int_def)

lemma show_int_inj: "show_int m = show_int n \<Longrightarrow> m = n"
proof -
  assume h: "show_int m = show_int n"
  have d: "\<not> is_digit CHR ''-''" by (simp add: is_digit_def ord_def)
  have "m < 0 \<longleftrightarrow> n < 0" using h show_int_parts [of m] show_int_parts [of n] d by (auto split: if_splits)
  then show "m = n"
    using h show_base_inj [of 10 "nat (- m)" "nat (- n)"] show_base_inj [of 10 "nat m" "nat n"]
    by (auto simp: show_int_def split: if_splits)
qed

lemma show_int_stop: "show_int m @ r = show_int n @ s \<Longrightarrow> stops r \<Longrightarrow> stops s \<Longrightarrow> m = n \<and> r = s"
proof -
  assume h: "show_int m @ r = show_int n @ s" "stops r" "stops s"
  have d: "\<not> is_digit CHR ''-''" by (simp add: is_digit_def ord_def)
  obtain a where a: "\<forall>c \<in> set a. is_digit c" "a \<noteq> []" "show_int m = (if m < 0 then CHR ''-'' # a else a)"
    using show_int_parts by blast
  obtain b where b: "\<forall>c \<in> set b. is_digit c" "b \<noteq> []" "show_int n = (if n < 0 then CHR ''-'' # b else b)"
    using show_int_parts by blast
  have sg: "m < 0 \<longleftrightarrow> n < 0"
    using h(1) a b d by (cases a; cases b) (auto split: if_splits)
  then have "a @ r = b @ s" using h(1) a(3) b(3) by (auto split: if_splits)
  then have "a = b \<and> r = s" using digits_then_stop a(1) b(1) h by blast
  then show ?thesis using sg a(3) b(3) show_int_inj by metis
qed

section \<open>Values\<close>

lemma json_text_first:
  "\<exists>c r. json_text v = c # r \<and>
     (case v of JText _ \<Rightarrow> c = CHR 34 | JNumber _ \<Rightarrow> c = CHR ''-'' \<or> is_digit c | JNil \<Rightarrow> c = CHR ''n''
      | JList _ \<Rightarrow> c = CHR ''['')"
proof (cases v)
  case (JNumber n)
  obtain ds where ds: "\<forall>c \<in> set ds. is_digit c" "ds \<noteq> []" "show_int n = (if n < 0 then CHR ''-'' # ds else ds)"
    using show_int_parts by blast
  then show ?thesis using JNumber by (cases ds) auto
qed (simp_all add: quote_text_def)

lemma json_not_stop: "json_text v @ r = s \<Longrightarrow> \<not> stops s"
proof -
  assume "json_text v @ r = s"
  moreover obtain c q where "json_text v = c # q" "c \<noteq> CHR '','' \<and> c \<noteq> CHR '']''"
  proof -
    have "\<not> is_digit CHR '',''" "\<not> is_digit CHR '']''" by (simp_all add: is_digit_def ord_def)
    then show thesis using json_text_first [of v] that by (cases v) auto
  qed
  ultimately show ?thesis by (auto simp: stops_def)
qed

lemma stops_cons [simp]: "stops (CHR '','' # r)" "stops (CHR '']'' # r)" "stops []"
  by (simp_all add: stops_def)

lemma json_kind:
  assumes "json_text v @ r = json_text w @ s"
  shows "(\<exists>a b. v = JText a \<and> w = JText b) \<or> (\<exists>a b. v = JNumber a \<and> w = JNumber b) \<or>
    (v = JNil \<and> w = JNil) \<or> (\<exists>a b. v = JList a \<and> w = JList b)"
proof -
  have d: "\<not> is_digit CHR 34" "\<not> is_digit CHR ''n''" "\<not> is_digit CHR ''[''"
    by (simp_all add: is_digit_def ord_def)
  show ?thesis
    using assms json_text_first [of v] json_text_first [of w] d by (cases v; cases w) auto
qed

text \<open>The elements of an array, up to its closing bracket.\<close>

lemma join_inj:
  assumes elem: "\<And>v w r s. v \<in> set xs \<Longrightarrow> json_text v @ r = json_text w @ s \<Longrightarrow> stops r \<Longrightarrow> stops s \<Longrightarrow> v = w \<and> r = s"
    and eq: "join_texts (map json_text xs) @ CHR '']'' # r = join_texts (map json_text ys) @ CHR '']'' # s"
  shows "xs = ys \<and> r = s"
  using assms
proof (induction xs arbitrary: ys)
  case Nil
  then show ?case
  proof (cases ys)
    case (Cons w ws)
    then have "\<exists>q. json_text w @ q = CHR '']'' # r" using Nil.prems(2) by (cases ws) auto
    then show ?thesis using json_not_stop by fastforce
  qed simp
next
  case (Cons v xs)
  show ?case
  proof (cases ys)
    case Nil
    then have "\<exists>q. json_text v @ q = CHR '']'' # s" using Cons.prems(2) by (cases xs) auto
    then show ?thesis using json_not_stop by fastforce
  next
    case ys: (Cons w ws)
    define tail_of where "tail_of zs q = (if zs = [] then CHR '']'' # q else CHR '','' # join_texts (map json_text zs) @ CHR '']'' # q)"
      for zs q
    have tails: "join_texts (map json_text (z # zs)) @ CHR '']'' # q = json_text z @ tail_of zs q" for z zs q
      by (cases zs) (simp_all add: tail_of_def)
    have st: "stops (tail_of zs q)" for zs q by (simp add: tail_of_def)
    have "json_text v @ tail_of xs r = json_text w @ tail_of ws s"
      using Cons.prems(2) unfolding ys tails .
    then have vw: "v = w" "tail_of xs r = tail_of ws s" using Cons.prems(1) st by (meson list.set_intros(1))+
    show ?thesis
    proof (cases "xs = []")
      case True
      then show ?thesis using vw ys by (auto simp: tail_of_def split: if_splits)
    next
      case False
      then have "ws \<noteq> []" "join_texts (map json_text xs) @ CHR '']'' # r = join_texts (map json_text ws) @ CHR '']'' # s"
        using vw(2) by (auto simp: tail_of_def split: if_splits)
      then have "xs = ws \<and> r = s" using Cons.IH Cons.prems(1) by (meson list.set_intros(2))
      then show ?thesis using vw ys by simp
    qed
  qed
qed

lemma json_text_prefix:
  "json_text v @ r = json_text w @ s \<Longrightarrow> stops r \<Longrightarrow> stops s \<Longrightarrow> v = w \<and> r = s"
proof (induction v arbitrary: w r s)
  case (JText a)
  then obtain b where w: "w = JText b" using json_kind by blast
  then show ?case using JText escaped_inj [of a r b s] by (simp add: quote_text_def)
next
  case (JNumber m)
  then obtain n where "w = JNumber n" using json_kind by blast
  then show ?case using JNumber show_int_stop by simp
next
  case JNil
  then show ?case using json_kind [OF JNil(1)] by auto
next
  case (JList xs)
  then obtain ys where w: "w = JList ys" using json_kind by blast
  then have "join_texts (map json_text xs) @ CHR '']'' # r = join_texts (map json_text ys) @ CHR '']'' # s"
    using JList.prems(1) by simp
  then have "xs = ys \<and> r = s" using JList.IH by (intro join_inj) blast+
  then show ?case using w by simp
qed

lemma json_text_inj: "json_text v = json_text w \<Longrightarrow> v = w"
  using json_text_prefix [of v "[]" w "[]"] by simp

end
