(* ===== verification/SealedRecord.thy ===== *)
theory SealedRecord
  imports KeyVault JsonText SolanaWire
begin

text \<open>
  How the Solana session keys and the channel voucher keys seal a secret: the associated data of the
  AES-GCM encryption is the SHA-256 hash of the JSON text of the record's fixed facts
  (\<open>recordBinding\<close> of both managers), so an edited record does not open.
\<close>

definition facts_binding :: "crypto \<Rightarrow> json \<Rightarrow> string" where
  "facts_binding c facts = ''0x'' @ bytesToHex (sha256 c (utf8 (json_text facts)))"

text \<open>A plain \<open>Error\<close> thrown by the vault, as it leaves a manager.\<close>

definition from_vault :: "fault + 'a \<Rightarrow> wallet_error + 'a" where
  "from_vault r = (case r of Inl _ \<Rightarrow> Inl (WalletError ''error'' ''seal'') | Inr x \<Rightarrow> Inr x)"

lemma from_vault_Inr [simp]: "from_vault r = Inr x \<longleftrightarrow> r = Inr x"
  by (auto simp: from_vault_def split: sum.splits)

lemma facts_binding_hex: "hex_decode (drop 2 (facts_binding c f)) = Some (sha256 c (utf8 (json_text f)))"
  by (simp add: facts_binding_def)

text \<open>SHA-256 keeps the JSON texts of two sets of facts apart.\<close>

definition facts_apart :: "crypto \<Rightarrow> json \<Rightarrow> json \<Rightarrow> bool" where
  "facts_apart c f g = hash_apart (sha256 c) [utf8 (json_text f), utf8 (json_text g)]"

lemma altered_facts:
  assumes "gcm_binds c" "hash_lengths c" "facts_apart c f f'" "f' \<noteq> f"
    and "encryptPrivateKey c secret password slt nonce iterations (Some (facts_binding c f)) weak = Inr kp"
  shows "\<exists>e. decryptPrivateKey c (kp\<lparr>publicKey := facts_binding c f'\<rparr>) password later = Inl e"
proof (rule seal_then_alter [OF assms(1,5) facts_binding_hex facts_binding_hex])
  show "length (sha256 c (utf8 (json_text f'))) = length (sha256 c (utf8 (json_text f)))"
    using assms(2) by (simp add: hash_lengths_def)
  have "utf8 (json_text f') \<noteq> utf8 (json_text f)" using assms(4) json_text_inj utf8_inj by blast
  moreover have "utf8 (json_text f') = utf8 (json_text f)"
    if "sha256 c (utf8 (json_text f')) = sha256 c (utf8 (json_text f))"
    by (rule hash_apartD [OF assms(3) [unfolded facts_apart_def] that]) simp_all
  ultimately show "sha256 c (utf8 (json_text f')) \<noteq> sha256 c (utf8 (json_text f))" by blast
qed

text \<open>A sealed secret of 32 bytes opens to itself under the facts it was sealed with.\<close>

lemma sealed_opens:
  assumes "gcm_correct c"
    and "encryptPrivateKey c (''0x'' @ bytesToHex secret) password slt nonce iterations (Some (facts_binding c f)) weak = Inr kp"
  shows "decryptPrivateKey c (kp\<lparr>publicKey := facts_binding c f\<rparr>) password later = Inr (''0x'' @ bytesToHex secret)"
proof -
  have "publicKey kp = facts_binding c f"
    using assms(2) by (auto simp: encryptPrivateKey_def Let_def split: option.splits)
  then have "kp\<lparr>publicKey := facts_binding c f\<rparr> = kp" by (simp flip: \<open>publicKey kp = facts_binding c f\<close>)
  then show ?thesis using seal_then_open [OF assms, of later] by simp
qed

lemma seals:
  "\<exists>kp. encryptPrivateKey c (''0x'' @ bytesToHex secret) password slt nonce None (Some (facts_binding c f)) weak = Inr kp"
  by (simp add: encryptPrivateKey_def assertIterationFloor_def facts_binding_def Let_def)

end
