(* ===== verification/SolanaKeys.thy ===== *)
theory SolanaKeys
  imports SolanaPayment KeyAdapter SealedRecord Caip
begin

text \<open>
  packages/core/src/session-keys/solana-session-keys.ts: keys the owner approves as SPL delegate and
  that sign one kind of transaction.  \<open>Date.now()\<close> is read several times by a call; the readings
  are the record \<open>sol_clock\<close>.  Random bytes and identifiers are arguments; a handler runs under the
  key's lock, so it is one step on the adapter.
\<close>

section \<open>Data\<close>

record sol_scope =
  ss_cluster :: string
  ss_mint :: string
  ss_budget :: int
  ss_maxPerPayment :: int
  ss_allowedRecipients :: "string list"
  ss_expiry :: int
  ss_maxTxCount :: "int option"
  ss_period :: "session_period option"

datatype sol_status = SolPending | SolActive | SolRevoked | SolExpired

fun sol_status_text :: "sol_status \<Rightarrow> string" where
  "sol_status_text SolPending = ''pending''" | "sol_status_text SolActive = ''active''"
| "sol_status_text SolRevoked = ''revoked''" | "sol_status_text SolExpired = ''expired''"

record sol_info =
  sk_id :: string
  sk_address :: string
  sk_owner :: string
  sk_scope :: sol_scope
  sk_tokenProgram :: string
  sk_decimals :: int
  sk_status :: sol_status
  sk_spent :: int
  sk_useCount :: int
  sk_createdAt :: int

record sol_key = sol_info +
  sk_keyPair :: encrypted_key_pair
  sk_lastUsedAt :: int
  sk_periodIndex :: "int option"
  sk_periodSpent :: "int option"

record sol_config =
  sol_encryptionKey :: string
  sol_iterations :: "int option"
  sol_allowWeakKdf :: bool
  sol_maxExpiryMs :: int

definition sol_default_max_expiry :: int where "sol_default_max_expiry = 30 * 24 * 60 * 60 * 1000"

record sol_session_payment =
  sp_recipient :: string
  sp_amount :: int
  sp_feePayer :: string
  sp_memo :: "string option"

text \<open>The readings of the clock during \<open>signPayment\<close>, in milliseconds and in order.\<close>

record sol_clock =
  pre_expiry :: int
  pre_period :: int
  lk_expiry :: int
  lk_period :: int
  lk_account :: int
  lk_used :: int

abbreviation scope_refusal_error :: "string \<Rightarrow> wallet_error" where
  "scope_refusal_error m \<equiv> WalletError ''session_scope_exceeded'' m"

definition sol_address :: "string \<Rightarrow> bool" where
  "sol_address v \<longleftrightarrow> v \<noteq> [] \<and> isValidSolanaAddress v"

section \<open>The binding of a sealed key\<close>

definition period_facts :: "session_period option \<Rightarrow> json list" where
  "period_facts p =
     (case p of None \<Rightarrow> []
      | Some q \<Rightarrow> [JText (show_int (p_amount q)), JNumber (p_seconds q), JNumber (p_start q)])"

definition sol_facts :: "'a sol_info_scheme \<Rightarrow> json" where
  "sol_facts k =
     (let s = sk_scope k in JList (
       [JText (if ss_period s \<noteq> None then ''naculus-solana-session-key/v2'' else ''naculus-solana-session-key/v1''),
        JText (sk_id k), JText (sk_address k), JText (sk_owner k), JText (ss_cluster s), JText (ss_mint s),
        JText (sk_tokenProgram k), JNumber (sk_decimals k), JText (show_int (ss_budget s)),
        JText (show_int (ss_maxPerPayment s)), JList (map JText (ss_allowedRecipients s)),
        JNumber (ss_expiry s), json_opt JNumber (ss_maxTxCount s)] @ period_facts (ss_period s)))"

definition sol_binding :: "sol_env \<Rightarrow> 'a sol_info_scheme \<Rightarrow> string" where
  "sol_binding env k = facts_binding (s_crypto env) (sol_facts k)"

definition sol_open :: "sol_env \<Rightarrow> sol_config \<Rightarrow> sol_key \<Rightarrow> wallet_error + bytes" where
  "sol_open env cfg k =
     (case decryptPrivateKey (s_crypto env) ((sk_keyPair k)\<lparr>publicKey := sol_binding env k\<rparr>)
         (sol_encryptionKey cfg) None of
        Inl _ \<Rightarrow> Inl (fail ''The stored key does not open: wrong password or altered record.'')
      | Inr hex \<Rightarrow> (case hex_decode (drop 2 hex) of None \<Rightarrow> Inl (WalletError ''error'' ''hex'') | Some b \<Rightarrow> Inr b))"

section \<open>Listing and creation\<close>

definition sol_key_info :: "int \<Rightarrow> sol_key \<Rightarrow> sol_info" where
  "sol_key_info now_ms k =
     (sol_info.truncate k)
       \<lparr>sk_status := (if sk_status k = SolActive \<and> ss_expiry (sk_scope k) * 1000 \<le> now_ms then SolExpired
          else sk_status k)\<rparr>"

definition sol_listSessions :: "int \<Rightarrow> sol_key adapter \<Rightarrow> wallet_error + sol_info list" where
  "sol_listSessions now_ms a = andThen (rec_loadAll a) (\<lambda>ks. Inr (map (sol_key_info now_ms) ks))"

definition sol_period_bad :: "int \<Rightarrow> session_period \<Rightarrow> bool" where
  "sol_period_bad lim p \<longleftrightarrow>
     p_amount p \<le> 0 \<or> p_amount p > lim \<or> \<not> safe_integer (p_seconds p) \<or> p_seconds p \<le> 0 \<or>
     \<not> safe_integer (p_start p) \<or> p_start p < 0"

definition sol_create_refusal :: "sol_config \<Rightarrow> sol_scope \<Rightarrow> string \<Rightarrow> int \<Rightarrow> wallet_error option" where
  "sol_create_refusal cfg s owner now_ms = first_some
     [throw_if (\<not> sol_address owner) (fail ''owner is not a Solana address.''),
      throw_if (\<not> (starts_with ''solana:'' (ss_cluster s) \<and> solana_reference (drop 7 (ss_cluster s))))
        (fail ''cluster is not a Solana CAIP-2 id.''),
      throw_if (\<not> sol_address (ss_mint s)) (fail ''mint is not a Solana address.''),
      throw_if (ss_budget s \<le> 0 \<or> ss_budget s > u64_max) (fail ''budget is not a positive u64.''),
      throw_if (ss_maxPerPayment s \<le> 0 \<or> ss_maxPerPayment s > ss_budget s)
        (fail ''maxPerPayment must be positive and within the budget.''),
      throw_if (ss_allowedRecipients s = [] \<or> \<not> (\<forall>r \<in> set (ss_allowedRecipients s). sol_address r) \<or>
          owner \<in> set (ss_allowedRecipients s))
        (fail ''allowedRecipients must list Solana addresses other than the owner.''),
      throw_if (\<not> safe_integer (ss_expiry s) \<or> ss_expiry s \<le> now_ms div 1000 \<or>
          ss_expiry s * 1000 > now_ms + sol_maxExpiryMs cfg)
        (fail ''expiry must be in the future and within maxExpiryMs.''),
      throw_if (case ss_maxTxCount s of None \<Rightarrow> False | Some n \<Rightarrow> \<not> safe_integer n \<or> n \<le> 0)
        (fail ''maxTxCount must be a positive integer.''),
      throw_if (case ss_period s of None \<Rightarrow> False | Some p \<Rightarrow> sol_period_bad (ss_budget s) p)
        (fail ''period must have a positive amount within budget and valid times.'')]"

text \<open>What \<open>crypto\<close> and the clock supply to one creation.\<close>

record sol_entropy =
  en_secret :: bytes
  en_salt :: bytes
  en_nonce :: bytes
  en_id :: string
  en_now :: int

definition sol_createSessionKey ::
  "sol_env \<Rightarrow> sol_config \<Rightarrow> sol_scope \<Rightarrow> string \<Rightarrow> sol_rpc \<Rightarrow> int \<Rightarrow> sol_entropy \<Rightarrow> sol_key adapter \<Rightarrow>
   wallet_error + sol_info \<times> sol_key adapter" where
  "sol_createSessionKey env cfg s owner rpc now_ms en a =
     (case sol_create_refusal cfg s owner now_ms of Some e \<Rightarrow> Inl e
      | None \<Rightarrow>
          andThen (assertSolanaCluster rpc (ss_cluster s)) (\<lambda>_.
          andThen (getAccountInfo rpc (ss_mint s)) (\<lambda>acc.
          case acc of None \<Rightarrow> Inl (fail ''The mint does not exist on this cluster.'')
          | Some (mintOwner, data) \<Rightarrow>
              andThen (readMint mintOwner data) (\<lambda>(prog, dec).
              let info = \<lparr>sk_id = en_id en, sk_address = s58_encode env (ed_public env (en_secret en)),
                    sk_owner = owner, sk_scope = s, sk_tokenProgram = prog, sk_decimals = int dec,
                    sk_status = SolPending, sk_spent = 0, sk_useCount = 0, sk_createdAt = en_now en\<rparr>
              in andThen (from_vault (encryptPrivateKey (s_crypto env) (''0x'' @ bytesToHex (en_secret en))
                    (sol_encryptionKey cfg) (en_salt en) (en_nonce en) (sol_iterations cfg)
                    (Some (sol_binding env info)) (sol_allowWeakKdf cfg))) (\<lambda>kp.
                 let stored = sol_info.extend info
                       (sol_key.fields kp (en_now en) None None)
                 in andThen (rec_push stored a) (\<lambda>a'. Inr (sol_key_info (en_now en) stored, a')))))))"

section \<open>Approval and revocation\<close>

abbreviation sol_missing :: "string \<Rightarrow> string" where
  "sol_missing kid \<equiv> ''Solana session key '' @ kid @ '' not found.''"

definition sol_get :: "string \<Rightarrow> sol_key adapter \<Rightarrow> wallet_error + sol_key" where
  "sol_get kid a =
     andThen (rec_loadAll a) (\<lambda>ks.
     case find_rec sk_id kid ks of None \<Rightarrow> Inl (fail (sol_missing kid)) | Some k \<Rightarrow> Inr k)"

definition approvalFor :: "sol_key \<Rightarrow> string \<Rightarrow> spl_approval" where
  "approvalFor k blockhash =
     \<lparr>r_owner = sk_owner k, r_mint = ss_mint (sk_scope k), r_tokenProgram = sk_tokenProgram k,
      r_blockhash = blockhash, r_decimals = sk_decimals k, r_delegate = sk_address k,
      r_amount = ss_budget (sk_scope k)\<rparr>"

definition assertIntact :: "sol_env \<Rightarrow> sol_config \<Rightarrow> sol_key \<Rightarrow> wallet_error + unit" where
  "assertIntact env cfg k = andThen (sol_open env cfg k) (\<lambda>_. Inr ())"

definition sol_prepareApproval ::
  "sol_env \<Rightarrow> sol_config \<Rightarrow> string \<Rightarrow> sol_rpc \<Rightarrow> sol_key adapter \<Rightarrow> wallet_error + bytes \<times> string" where
  "sol_prepareApproval env cfg kid rpc a =
     andThen (sol_get kid a) (\<lambda>k.
     if sk_status k \<noteq> SolPending then Inl (fail ''This key is not awaiting approval.'')
     else
       andThen (assertIntact env cfg k) (\<lambda>_.
       andThen (assertSolanaCluster rpc (ss_cluster (sk_scope k))) (\<lambda>_.
       andThen (getLatestBlockhash rpc) (\<lambda>blockhash.
       andThen (buildApproveDelegateTransaction env (approvalFor k blockhash)) (\<lambda>tx. Inr (tx, blockhash))))))"

text \<open>The loop over the other keys: this approval replaces any other delegate of the account.\<close>

definition retire_rivals :: "sol_key \<Rightarrow> sol_key list \<Rightarrow> sol_key list" where
  "retire_rivals key all =
     map (\<lambda>x. if sk_id x \<noteq> sk_id key \<and> sk_owner x = sk_owner key \<and>
            ss_mint (sk_scope x) = ss_mint (sk_scope key) \<and>
            ss_cluster (sk_scope x) = ss_cluster (sk_scope key) \<and>
            (sk_status x = SolActive \<or> sk_status x = SolPending)
          then x\<lparr>sk_status := SolRevoked\<rparr> else x) all"

definition sol_attachApproval ::
  "sol_env \<Rightarrow> sol_config \<Rightarrow> string \<Rightarrow> bytes \<Rightarrow> string \<Rightarrow> sol_key adapter \<Rightarrow>
   wallet_error + string \<times> sol_key adapter" where
  "sol_attachApproval env cfg kid signed_tx blockhash =
     rec_update sk_id sol_missing kid (\<lambda>key all.
       if sk_status key \<noteq> SolPending then Inl (fail ''This key is not awaiting approval.'')
       else
         andThen (assertIntact env cfg key) (\<lambda>_.
         andThen (verifySignedOwnerTransaction env signed_tx (Approve (approvalFor key blockhash))) (\<lambda>tx.
         Inr (tx, retire_rivals key (put_rec sk_id (key\<lparr>sk_status := SolActive\<rparr>) all)))))"

definition sol_revoke :: "string \<Rightarrow> sol_key adapter \<Rightarrow> wallet_error + unit \<times> sol_key adapter" where
  "sol_revoke kid =
     rec_update sk_id sol_missing kid (own_change sk_id (\<lambda>k. Inr ((), k\<lparr>sk_status := SolRevoked\<rparr>)))"

definition sol_prepareRevocation ::
  "sol_env \<Rightarrow> string \<Rightarrow> sol_rpc \<Rightarrow> sol_key adapter \<Rightarrow>
   (wallet_error + bytes \<times> string) \<times> sol_key adapter" where
  "sol_prepareRevocation env kid rpc a =
     (case andThen (sol_get kid a) (\<lambda>k.
           andThen (assertSolanaCluster rpc (ss_cluster (sk_scope k))) (\<lambda>_.
           andThen (getLatestBlockhash rpc) (\<lambda>blockhash. Inr (k, blockhash)))) of
        Inl e \<Rightarrow> (Inl e, a)
      | Inr (k, blockhash) \<Rightarrow>
          (case sol_revoke kid a of
             Inl e \<Rightarrow> (Inl e, a)
           | Inr (_, a') \<Rightarrow>
               (andThen (buildRevokeDelegateTransaction env
                   \<lparr>r_owner = sk_owner k, r_mint = ss_mint (sk_scope k), r_tokenProgram = sk_tokenProgram k,
                    r_blockhash = blockhash\<rparr>) (\<lambda>tx. Inr (tx, blockhash)), a')))"

section \<open>Signing\<close>

definition periodState :: "sol_key \<Rightarrow> int \<Rightarrow> wallet_error + (int \<times> int) option" where
  "periodState k now_ms =
     (case ss_period (sk_scope k) of None \<Rightarrow> Inr None
      | Some p \<Rightarrow>
          let at = now_ms div 1000 in
          if at < p_start p then Inl (scope_refusal_error ''The period has not started.'')
          else
            let index = (at - p_start p) div p_seconds p in
            (case (sk_periodIndex k, sk_periodSpent k) of
               (None, None) \<Rightarrow> Inr (Some (index, 0))
             | (Some i, Some v) \<Rightarrow>
                 if \<not> safe_integer i \<or> i < 0 \<or> v < 0 \<or> i > index then
                   Inl (scope_refusal_error ''The stored period usage is malformed.'')
                 else Inr (Some (index, if i = index then v else 0))
             | _ \<Rightarrow> Inl (scope_refusal_error ''The stored period usage is malformed.'')))"

definition checkPeriod :: "sol_key \<Rightarrow> int \<Rightarrow> int \<Rightarrow> wallet_error option" where
  "checkPeriod k amt now_ms =
     (case periodState k now_ms of Inl e \<Rightarrow> Some e
      | Inr None \<Rightarrow> None
      | Inr (Some (_, v)) \<Rightarrow>
          throw_if (case ss_period (sk_scope k) of None \<Rightarrow> False | Some p \<Rightarrow> v + amt > p_amount p)
            (scope_refusal_error ''The amount exceeds the period limit of the key.''))"

definition sol_check :: "sol_key \<Rightarrow> sol_session_payment \<Rightarrow> int \<Rightarrow> int \<Rightarrow> wallet_error option" where
  "sol_check k pay now_expiry now_period =
     (let s = sk_scope k in first_some
      [throw_if (sk_status k \<noteq> SolActive) (scope_refusal_error (''The key is '' @ sol_status_text (sk_status k) @ ''.'')),
       throw_if (ss_expiry s * 1000 \<le> now_expiry) (scope_refusal_error ''The key has expired.''),
       throw_if (sp_recipient pay \<notin> set (ss_allowedRecipients s))
         (scope_refusal_error ''The recipient is not allowed for this key.''),
       throw_if (sp_amount pay \<le> 0) (scope_refusal_error ''The amount must be positive.''),
       throw_if (sp_amount pay > ss_maxPerPayment s) (scope_refusal_error ''The amount exceeds the per-payment limit.''),
       throw_if (sk_spent k + sp_amount pay > ss_budget s)
         (scope_refusal_error ''The amount exceeds the remaining budget.''),
       checkPeriod k (sp_amount pay) now_period,
       throw_if (case ss_maxTxCount s of None \<Rightarrow> False | Some n \<Rightarrow> sk_useCount k \<ge> n)
         (scope_refusal_error ''The key has made its maximum number of payments.''),
       throw_if (sp_feePayer pay = sk_address k \<or> sp_feePayer pay = sk_owner k)
         (scope_refusal_error ''The fee must be paid by the sponsor, not the key or the owner.'')])"

definition accountPeriod :: "sol_key \<Rightarrow> int \<Rightarrow> int \<Rightarrow> wallet_error + sol_key" where
  "accountPeriod k amt now_ms =
     andThen (periodState k now_ms) (\<lambda>st.
     case st of None \<Rightarrow> Inr k
     | Some (index, v) \<Rightarrow> Inr (k\<lparr>sk_periodIndex := Some index, sk_periodSpent := Some (v + amt)\<rparr>))"

definition built_payment :: "sol_key \<Rightarrow> sol_session_payment \<Rightarrow> string \<Rightarrow> spl_payment" where
  "built_payment k pay blockhash =
     \<lparr>feePayer = sp_feePayer pay, authority = sk_address k, sourceOwner = Some (sk_owner k),
      mint = ss_mint (sk_scope k), tokenProgram = sk_tokenProgram k, decimals = sk_decimals k,
      recipient = sp_recipient pay, amount = sp_amount pay, memo = sp_memo pay,
      recentBlockhash = blockhash, computeUnitLimit = None, computeUnitPrice = None\<rparr>"

text \<open>The transaction: built, signed in the key's slot, and checked as a wallet's answer would be.\<close>

definition sign_built :: "sol_env \<Rightarrow> sol_config \<Rightarrow> sol_key \<Rightarrow> spl_payment \<Rightarrow> wallet_error + string" where
  "sign_built env cfg k built =
     andThen (buildSplTransferTransaction env built) (\<lambda>wire.
     andThen (parseSolanaTransaction env wire) (\<lambda>tx.
     andThen (sol_open env cfg k) (\<lambda>secret.
     if s58_encode env (ed_public env secret) \<noteq> sk_address k then
       Inl (fail ''The stored key does not match its address.'')
     else case index_of (t_keys tx) (sk_address k) of
       None \<Rightarrow> Inl (WalletError ''error'' ''RangeError: offset is out of bounds'')
     | Some slot \<Rightarrow>
         verifySignedSplTransfer env
           (set_at (1 + 64 * slot) (ed_sign env (t_message tx) secret) wire) built False)))"

text \<open>The callback of \<open>update\<close>: nothing is recorded unless all of it succeeds.\<close>

definition sign_change ::
  "sol_env \<Rightarrow> sol_config \<Rightarrow> sol_session_payment \<Rightarrow> string \<Rightarrow> sol_clock \<Rightarrow> sol_key \<Rightarrow>
   wallet_error + string \<times> sol_key" where
  "sign_change env cfg pay blockhash clk k =
     (case sol_check k pay (lk_expiry clk) (lk_period clk) of Some e \<Rightarrow> Inl e
      | None \<Rightarrow>
          andThen (sign_built env cfg k (built_payment k pay blockhash)) (\<lambda>transaction.
          andThen (accountPeriod (k\<lparr>sk_spent := sk_spent k + sp_amount pay\<rparr>) (sp_amount pay) (lk_account clk)) (\<lambda>k'.
          Inr (transaction, k'\<lparr>sk_useCount := sk_useCount k' + 1, sk_lastUsedAt := lk_used clk\<rparr>))))"

definition sol_signPayment ::
  "sol_env \<Rightarrow> sol_config \<Rightarrow> string \<Rightarrow> sol_session_payment \<Rightarrow> sol_rpc \<Rightarrow> sol_clock \<Rightarrow> sol_key adapter \<Rightarrow>
   sol_key adapter \<Rightarrow> wallet_error + string \<times> sol_key adapter" where
  "sol_signPayment env cfg kid pay rpc clk before a =
     (if \<not> sol_address (sp_recipient pay) then Inl (fail ''recipient is not an address.'')
      else if \<not> sol_address (sp_feePayer pay) then Inl (fail ''feePayer is not an address.'')
      else
        andThen (sol_get kid before) (\<lambda>snapshot.
        case sol_check snapshot pay (pre_expiry clk) (pre_period clk) of Some e \<Rightarrow> Inl e
        | None \<Rightarrow>
            andThen (assertSolanaCluster rpc (ss_cluster (sk_scope snapshot))) (\<lambda>_.
            andThen (getLatestBlockhash rpc) (\<lambda>blockhash.
            rec_update sk_id sol_missing kid
              (own_change sk_id (sign_change env cfg pay blockhash clk)) a))))"

end
