(* ===== verification/SolanaChannel.thy ===== *)
theory SolanaChannel
  imports SolanaPayment
begin

text \<open>
  packages/core/src/solana-channel.ts: payment channels on Solana.  The derived channel address, the
  five transactions of a channel's life, the voucher message, the check of the deployed program
  against its reviewed pins, and the check of a wallet-signed open transaction.
\<close>

section \<open>Constants and data\<close>

definition channel_program :: string where
  "channel_program = ''CHNLxYvVA28MJP9PrFuDXccuoGXAx7jBacfLEkahyGsX''"
definition bpf_upgradeable_loader :: string where
  "bpf_upgradeable_loader = ''BPFLoaderUpgradeab1e11111111111111111111111''"
definition system_program :: string where
  "system_program = ''11111111111111111111111111111111''"
definition rent_account :: string where
  "rent_account = ''SysvarRent111111111111111111111111111111111''"
definition channel_seed :: bytes where "channel_seed = utf8 ''channel''"
definition event_authority_seed :: bytes where "event_authority_seed = utf8 ''event_authority''"
definition max_open_instructions :: nat where "max_open_instructions = 6"

record trusted_program =
  tp_address :: string
  tp_programData :: string
  tp_lastDeployedSlot :: int
  tp_upgradeAuthority :: string

definition solana_mainnet :: string where "solana_mainnet = ''solana:5eykt4UsFv8P8NJdTREpY1vzqKqZKvdp''"
definition solana_devnet :: string where "solana_devnet = ''solana:EtWTRABZaYq6iMfeYKouRu166VU2xqa1''"

definition trusted_channel_programs :: "(string \<times> trusted_program) list" where
  "trusted_channel_programs =
     [(solana_mainnet,
        \<lparr>tp_address = channel_program, tp_programData = ''CghQXkmw2F6p1exMETiZdNeUx9QGraWsNZ4eom1Cuiw1'',
         tp_lastDeployedSlot = 431447053, tp_upgradeAuthority = ''DXtFpbPjcn2hxPnw79x1Pfoj35vXh5AsWBkS37YnXMVv''\<rparr>),
      (solana_devnet,
        \<lparr>tp_address = channel_program, tp_programData = ''CghQXkmw2F6p1exMETiZdNeUx9QGraWsNZ4eom1Cuiw1'',
         tp_lastDeployedSlot = 480232051, tp_upgradeAuthority = ''4zTeC5mVqWLruDexgU2mV66p9t5vCA9JyiZqdGDUspap''\<rparr>)]"

record channel_pda_input =
  ci_programAddress :: "string option"
  ci_payer :: string
  ci_payee :: string
  ci_mint :: string
  ci_authorizedSigner :: string
  ci_salt :: int
  ci_openSlot :: int

record channel_mint =
  cm_address :: string
  cm_owner :: string
  cm_data :: bytes

record open_channel = channel_pda_input +
  ci_feePayer :: string
  ci_mintAccount :: channel_mint
  ci_deposit :: int
  ci_gracePeriod :: int
  ci_blockhash :: string

record channel_voucher =
  cv_channelId :: string
  cv_cumulativeAmount :: int
  cv_expiresAt :: int

section \<open>Encoding and derivation\<close>

definition channel_u32 :: "int \<Rightarrow> string \<Rightarrow> wallet_error + bytes" where
  "channel_u32 v what = (if v < 0 \<or> v > 4294967295 then Inl (fail (what @ '' is not a u32.'')) else Inr (le_u32 v))"

definition channel_u64 :: "int \<Rightarrow> string \<Rightarrow> wallet_error + bytes" where
  "channel_u64 v what = (if v < 0 \<or> v > u64_max then Inl (fail (what @ '' is not a u64.'')) else Inr (le_u64 v))"

definition derivePda :: "sol_env \<Rightarrow> bytes \<Rightarrow> string \<Rightarrow> wallet_error + string \<times> nat" where
  "derivePda env seeds program =
     andThen (key_bytes env program ''programAddress'') (\<lambda>p.
     case find_pda env seeds p 256 of
       None \<Rightarrow> Inl (fail ''No program-derived address exists for these seeds.'')
     | Some r \<Rightarrow> Inr r)"

definition deriveChannelPda :: "sol_env \<Rightarrow> 'a channel_pda_input_scheme \<Rightarrow> wallet_error + string \<times> nat" where
  "deriveChannelPda env i =
     andThen (key_bytes env (ci_payer i) ''payer'') (\<lambda>a.
     andThen (key_bytes env (ci_payee i) ''payee'') (\<lambda>b.
     andThen (key_bytes env (ci_mint i) ''mint'') (\<lambda>c.
     andThen (key_bytes env (ci_authorizedSigner i) ''authorizedSigner'') (\<lambda>d.
     andThen (channel_u64 (ci_salt i) ''salt'') (\<lambda>s.
     andThen (channel_u64 (ci_openSlot i) ''openSlot'') (\<lambda>t.
     derivePda env (channel_seed @ a @ b @ c @ d @ s @ t)
       (or_else (ci_programAddress i) channel_program)))))))"

definition programAddress :: "sol_env \<Rightarrow> string option \<Rightarrow> wallet_error + string" where
  "programAddress env v =
     (let address = or_else v channel_program
      in andThen (key_bytes env address ''programAddress'') (\<lambda>_. Inr address))"

definition mintDetails :: "sol_env \<Rightarrow> channel_mint \<Rightarrow> wallet_error + string" where
  "mintDetails env m =
     andThen (key_bytes env (cm_address m) ''mint'') (\<lambda>_.
     andThen (readMint (cm_owner m) (cm_data m)) (\<lambda>(prog, _). Inr prog))"

text \<open>\<open>{ address, signer, writable }\<close>.\<close>

definition acc :: "string \<Rightarrow> bool \<Rightarrow> bool \<Rightarrow> meta" where
  "acc a s w = \<lparr>m_address = a, m_signer = s, m_writable = w\<rparr>"

section \<open>The transactions of a channel\<close>

definition open_data :: "open_channel \<Rightarrow> bytes \<Rightarrow> wallet_error + bytes" where
  "open_data i gracePeriod =
     andThen (channel_u64 (ci_salt i) ''salt'') (\<lambda>s.
     andThen (channel_u64 (ci_deposit i) ''deposit'') (\<lambda>d.
     andThen (channel_u64 (ci_openSlot i) ''openSlot'') (\<lambda>o'.
     andThen (channel_u32 0 ''recipients length'') (\<lambda>r. Inr ([1] @ s @ d @ gracePeriod @ o' @ r)))))"

definition buildOpenChannelTransaction :: "sol_env \<Rightarrow> open_channel \<Rightarrow> wallet_error + bytes" where
  "buildOpenChannelTransaction env i =
     (if ci_mint i \<noteq> cm_address (ci_mintAccount i) then Inl (fail ''mint does not match mintAccount.address.'')
      else if ci_deposit i \<le> 0 \<or> ci_deposit i > u64_max then Inl (fail ''deposit is not a positive u64.'')
      else
        andThen (channel_u32 (ci_gracePeriod i) ''gracePeriod'') (\<lambda>gracePeriod.
        andThen (programAddress env (ci_programAddress i)) (\<lambda>program.
        andThen (mintDetails env (ci_mintAccount i)) (\<lambda>prog.
        andThen (deriveChannelPda env (i\<lparr>ci_programAddress := Some program\<rparr>)) (\<lambda>(channelId, _).
        andThen (derivePda env event_authority_seed program) (\<lambda>(eventAuthority, _).
        andThen (associatedTokenAddress env (ci_payer i) (ci_mint i) prog) (\<lambda>payerTokenAccount.
        andThen (associatedTokenAddress env channelId (ci_mint i) prog) (\<lambda>channelTokenAccount.
        andThen (open_data i gracePeriod) (\<lambda>data.
        compileV0 env (ci_feePayer i)
          [\<lparr>wi_program = program,
            wi_accounts =
              [acc (ci_payer i) True True, acc (ci_feePayer i) True True, acc (ci_payee i) False False,
               acc (ci_mint i) False False, acc (ci_authorizedSigner i) False False, acc channelId False True,
               acc payerTokenAccount False True, acc channelTokenAccount False True, acc prog False False,
               acc system_program False False, acc rent_account False False,
               acc associated_token_program False False, acc eventAuthority False False, acc program False False],
            wi_data = data\<rparr>]
          (ci_blockhash i))))))))))"

record channel_tx =
  ct_programAddress :: "string option"
  ct_feePayer :: string
  ct_payer :: string
  ct_channelId :: string
  ct_blockhash :: string

definition token_accounts ::
  "sol_env \<Rightarrow> channel_tx \<Rightarrow> channel_mint \<Rightarrow> string \<Rightarrow> wallet_error + string \<times> string" where
  "token_accounts env i m prog =
     andThen (associatedTokenAddress env (ct_payer i) (cm_address m) prog) (\<lambda>p.
     andThen (associatedTokenAddress env (ct_channelId i) (cm_address m) prog) (\<lambda>c. Inr (p, c)))"

definition buildTopUpChannelTransaction :: "sol_env \<Rightarrow> channel_tx \<Rightarrow> channel_mint \<Rightarrow> int \<Rightarrow> wallet_error + bytes" where
  "buildTopUpChannelTransaction env i m amt =
     (if amt \<le> 0 \<or> amt > u64_max then Inl (fail ''amount is not a positive u64.'')
      else
        andThen (programAddress env (ct_programAddress i)) (\<lambda>program.
        andThen (mintDetails env m) (\<lambda>prog.
        andThen (token_accounts env i m prog) (\<lambda>(payerTokenAccount, channelTokenAccount).
        andThen (channel_u64 amt ''amount'') (\<lambda>a.
        compileV0 env (ct_feePayer i)
          [\<lparr>wi_program = program,
            wi_accounts =
              [acc (ct_payer i) True True, acc (ct_channelId i) False True, acc payerTokenAccount False True,
               acc channelTokenAccount False True, acc (cm_address m) False False, acc prog False False],
            wi_data = 3 # a\<rparr>]
          (ct_blockhash i))))))"

definition buildRequestCloseChannelTransaction :: "sol_env \<Rightarrow> channel_tx \<Rightarrow> wallet_error + bytes" where
  "buildRequestCloseChannelTransaction env i =
     andThen (programAddress env (ct_programAddress i)) (\<lambda>program.
     compileV0 env (ct_feePayer i)
       [\<lparr>wi_program = program, wi_accounts = [acc (ct_payer i) True False, acc (ct_channelId i) False True],
         wi_data = [5]\<rparr>]
       (ct_blockhash i))"

definition buildSealChannelTransaction :: "sol_env \<Rightarrow> channel_tx \<Rightarrow> wallet_error + bytes" where
  "buildSealChannelTransaction env i =
     andThen (programAddress env (ct_programAddress i)) (\<lambda>program.
     compileV0 env (ct_feePayer i)
       [\<lparr>wi_program = program, wi_accounts = [acc (ct_channelId i) False True], wi_data = [6]\<rparr>]
       (ct_blockhash i))"

definition buildWithdrawPayerChannelTransaction :: "sol_env \<Rightarrow> channel_tx \<Rightarrow> channel_mint \<Rightarrow> wallet_error + bytes" where
  "buildWithdrawPayerChannelTransaction env i m =
     andThen (programAddress env (ct_programAddress i)) (\<lambda>program.
     andThen (mintDetails env m) (\<lambda>prog.
     andThen (associatedTokenAddress env (ct_channelId i) (cm_address m) prog) (\<lambda>channelTokenAccount.
     andThen (associatedTokenAddress env (ct_payer i) (cm_address m) prog) (\<lambda>payerTokenAccount.
     compileV0 env (ct_feePayer i)
       [\<lparr>wi_program = program,
         wi_accounts =
           [acc (ct_payer i) True False, acc (ct_channelId i) False True, acc channelTokenAccount False True,
            acc payerTokenAccount False True, acc (cm_address m) False False, acc prog False False],
         wi_data = [8]\<rparr>]
       (ct_blockhash i)))))"

section \<open>Vouchers\<close>

definition i64_min :: int where "i64_min = - (2 ^ 63)"

text \<open>\<open>setBigInt64(0, v, true)\<close>: two's complement.\<close>

definition le_i64 :: "int \<Rightarrow> bytes" where
  "le_i64 v = le_bytes 8 (nat (v mod 2 ^ 64))"

definition encodeChannelVoucher :: "sol_env \<Rightarrow> channel_voucher \<Rightarrow> wallet_error + bytes" where
  "encodeChannelVoucher env v =
     (if cv_expiresAt v < i64_min \<or> cv_expiresAt v > i64_max then Inl (fail ''expiresAt is not an i64.'')
      else
        andThen (key_bytes env (cv_channelId v) ''channelId'') (\<lambda>k.
        andThen (channel_u64 (cv_cumulativeAmount v) ''cumulativeAmount'') (\<lambda>a.
        Inr ([86, 1] @ k @ a @ le_i64 (cv_expiresAt v)))))"

definition signVoucher :: "sol_env \<Rightarrow> bytes \<Rightarrow> channel_voucher \<Rightarrow> wallet_error + bytes" where
  "signVoucher env secretKey v =
     (if length secretKey \<noteq> 32 then Inl (fail ''voucher secretKey must be 32 bytes.'')
      else andThen (encodeChannelVoucher env v) (\<lambda>m. Inr (ed_sign env m secretKey)))"

definition verifyVoucher :: "sol_env \<Rightarrow> bytes \<Rightarrow> string \<Rightarrow> channel_voucher \<Rightarrow> bool" where
  "verifyVoucher env sig signer v =
     (case encodeChannelVoucher env v of Inl _ \<Rightarrow> False
      | Inr m \<Rightarrow> (case key_bytes env signer ''authorizedSigner'' of Inl _ \<Rightarrow> False | Inr k \<Rightarrow> ed_verify env sig m k))"

section \<open>The deployed program\<close>

definition readProgramDataAddress :: "sol_env \<Rightarrow> bytes \<Rightarrow> wallet_error + string" where
  "readProgramDataAddress env data =
     (if length data \<noteq> 36 \<or> le_value (js_slice 0 4 data) \<noteq> 2 then
        Inl (fail ''The channel program account is not upgradeable program data.'')
      else Inr (s58_encode env (drop 4 data)))"

definition readProgramData :: "sol_env \<Rightarrow> bytes \<Rightarrow> wallet_error + int \<times> string" where
  "readProgramData env data =
     (if length data < 45 \<or> le_value (js_slice 0 4 data) \<noteq> 3 \<or> byte_at data 12 \<noteq> Some 1 then
        Inl (fail ''The channel ProgramData account has no pinned upgrade authority.'')
      else Inr (int (le_value (js_slice 4 12 data)), s58_encode env (js_slice 13 45 data)))"

definition require_account ::
  "(string \<times> bytes) option \<Rightarrow> string \<Rightarrow> string \<Rightarrow> wallet_error + bytes" where
  "require_account account missing foreign =
     (case account of None \<Rightarrow> Inl (fail missing)
      | Some (owner, data) \<Rightarrow> if owner \<noteq> bpf_upgradeable_loader then Inl (fail foreign) else Inr data)"

definition assertTrustedChannelProgram ::
  "sol_env \<Rightarrow> sol_rpc \<Rightarrow> string \<Rightarrow> trusted_program option \<Rightarrow> wallet_error + trusted_program" where
  "assertTrustedChannelProgram env rpc cluster override =
     andThen (assertSolanaCluster rpc cluster) (\<lambda>_.
     case map_of trusted_channel_programs cluster of
       None \<Rightarrow> Inl (fail (''No channel program is trusted for '' @ cluster @ ''.''))
     | Some builtIn \<Rightarrow>
         let trusted = or_else override builtIn in
         andThen (key_bytes env (tp_address trusted) ''channel program'') (\<lambda>_.
         andThen (key_bytes env (tp_programData trusted) ''channel ProgramData'') (\<lambda>_.
         andThen (key_bytes env (tp_upgradeAuthority trusted) ''channel upgrade authority'') (\<lambda>_.
         andThen (getAccountInfo rpc (tp_address trusted)) (\<lambda>program.
         andThen (require_account program ''The trusted channel program account is missing.''
             ''The channel program is not owned by the upgradeable loader.'') (\<lambda>data.
         andThen (readProgramDataAddress env data) (\<lambda>pd.
         if pd \<noteq> tp_programData trusted then Inl (fail ''The channel program points to different ProgramData.'')
         else
           andThen (getAccountInfo rpc (tp_programData trusted)) (\<lambda>programData.
           andThen (require_account programData ''The trusted channel ProgramData account is missing.''
               ''The channel ProgramData is not owned by the upgradeable loader.'') (\<lambda>data2.
           andThen (readProgramData env data2) (\<lambda>(slot, authority).
           if slot \<noteq> tp_lastDeployedSlot trusted then
             Inl (fail ''The channel program was redeployed after it was reviewed.'')
           else if authority \<noteq> tp_upgradeAuthority trusted then
             Inl (fail ''The channel program upgrade authority changed.'')
           else Inr trusted))))))))))"

section \<open>A signed open transaction\<close>

definition verifySignedChannelOpen :: "sol_env \<Rightarrow> bytes \<Rightarrow> open_channel \<Rightarrow> wallet_error + string" where
  "verifySignedChannelOpen env wire i =
     andThen (buildOpenChannelTransaction env i) (\<lambda>built.
     andThen (parseSolanaTransaction env built) (\<lambda>wanted.
     andThen (parseSolanaTransaction env wire) (\<lambda>got.
     case first_some
       [throw_if (t_keys got = [] \<or> hd (t_keys got) \<noteq> ci_feePayer i) (fail ''The wallet changed the fee payer.''),
        throw_if (t_blockhash got \<noteq> ci_blockhash i) (fail ''The wallet changed the blockhash.''),
        throw_if (t_required got \<noteq> t_required wanted \<or> t_instructions got = [] \<or>
            length (t_instructions got) > max_open_instructions)
          (fail ''The wallet changed the open transaction shape.''),
        throw_if (t_instructions wanted = [] \<or>
            \<not> same_instruction (hd (t_instructions got)) (hd (t_instructions wanted)))
          (fail ''The wallet changed the channel-open instruction.''),
        throw_if (\<exists>a \<in> set (t_keys wanted).
            isSigner got a \<noteq> isSigner wanted a \<or> isWritable got a \<noteq> isWritable wanted a)
          (fail ''The permissions of the open transaction accounts changed.''),
        (case find (\<lambda>ix. pi_program ix \<noteq> lighthouse_program) (drop 1 (t_instructions got)) of
           None \<Rightarrow> None
         | Some added \<Rightarrow> Some (fail (''The wallet added an instruction for '' @ pi_program added @ ''.''))),
        throw_if (\<not> verifySolanaSignature env got (ci_payer i))
          (fail (''The transaction is not signed by '' @ ci_payer i @ ''.''))]
     of Some e \<Rightarrow> Inl e | None \<Rightarrow> Inr (s64_encode env wire))))"

section \<open>Vouchers are unambiguous\<close>

lemma channel_u64_Inr: "channel_u64 v w = Inr b \<longleftrightarrow> 0 \<le> v \<and> v \<le> u64_max \<and> b = le_u64 v"
  by (auto simp: channel_u64_def)

lemma le_u64_inj: "0 \<le> u \<Longrightarrow> u \<le> u64_max \<Longrightarrow> 0 \<le> v \<Longrightarrow> v \<le> u64_max \<Longrightarrow> le_u64 u = le_u64 v \<Longrightarrow> u = v"
  using le_bytes_inj [of "nat u" 8 "nat v"] by (simp add: le_u64_def u64_max_def nat_less_iff eq_nat_nat_iff)

lemma le_i64_inj:
  assumes "i64_min \<le> u" "u \<le> i64_max" "i64_min \<le> v" "v \<le> i64_max" "le_i64 u = le_i64 v"
  shows "u = v"
proof -
  have "nat (u mod 2 ^ 64) = nat (v mod 2 ^ 64)"
    using assms(5) le_bytes_inj [of "nat (u mod 2 ^ 64)" 8 "nat (v mod 2 ^ 64)"]
    by (simp add: le_i64_def nat_less_iff)
  then have "u mod 2 ^ 64 = v mod 2 ^ 64" by (simp add: eq_nat_nat_iff)
  then have "2 ^ 64 dvd u - v" by (simp only: mod_eq_dvd_iff)
  then obtain q where q: "u - v = 2 ^ 64 * q" by (elim dvdE)
  have "q < 1" "- 1 < q" using q assms(1-4) by (simp_all add: i64_min_def i64_max_def)
  then show ?thesis using q by simp
qed

lemma encodeChannelVoucher_Inr:
  "encodeChannelVoucher env v = Inr b \<longleftrightarrow>
     i64_min \<le> cv_expiresAt v \<and> cv_expiresAt v \<le> i64_max \<and>
     0 \<le> cv_cumulativeAmount v \<and> cv_cumulativeAmount v \<le> u64_max \<and>
     (\<exists>k. s58_decode env (cv_channelId v) = Some k \<and> length k = 32 \<and>
        b = [86, 1] @ k @ le_u64 (cv_cumulativeAmount v) @ le_i64 (cv_expiresAt v))"
  by (auto simp: encodeChannelVoucher_def key_bytes_Inr channel_u64_Inr)

lemma voucher_inj:
  assumes "base58_laws env" "encodeChannelVoucher env v = Inr b" "encodeChannelVoucher env v' = Inr b"
  shows "v = v' \<and> length b = 50"
proof -
  note e = assms(2,3) [unfolded encodeChannelVoucher_Inr]
  obtain k where k: "s58_decode env (cv_channelId v) = Some k" "length k = 32"
    "b = [86, 1] @ k @ le_u64 (cv_cumulativeAmount v) @ le_i64 (cv_expiresAt v)" using e(1) by blast
  obtain k' where k': "s58_decode env (cv_channelId v') = Some k'" "length k' = 32"
    "b = [86, 1] @ k' @ le_u64 (cv_cumulativeAmount v') @ le_i64 (cv_expiresAt v')" using e(2) by blast
  have l: "length (le_u64 x) = 8" "length (le_i64 x) = 8" for x by (simp_all add: le_u64_def le_i64_def)
  have "k = k'" "le_u64 (cv_cumulativeAmount v) = le_u64 (cv_cumulativeAmount v')"
    "le_i64 (cv_expiresAt v) = le_i64 (cv_expiresAt v')"
    using k(2,3) k'(2,3) l by simp_all
  moreover have "cv_channelId v = cv_channelId v'"
    using assms(1) k(1) k'(1) \<open>k = k'\<close> unfolding base58_laws_def by metis
  ultimately have "v = v'" using e le_u64_inj le_i64_inj by (intro channel_voucher.equality) auto
  then show ?thesis using k(2,3) l by simp
qed

end
