(* ===== verification/VoucherKeys.thy ===== *)
theory VoucherKeys
  imports SolanaChannel KeyAdapter SealedRecord Caip "HOL-Library.Signed_Division"
begin

text \<open>
  packages/core/src/session-keys/channel-voucher-keys.ts: keys that sign cumulative vouchers for one
  payment channel.  Each handler runs under the key's lock, so it is one step on the adapter; random
  bytes, identifiers and clock readings (milliseconds) are arguments.
\<close>

section \<open>Data\<close>

record voucher_policy =
  vp_cluster :: string
  vp_channelProgram :: string
  vp_payer :: string
  vp_mint :: string
  vp_payee :: string
  vp_pricePerUnit :: int
  vp_maxCumulative :: int
  vp_maxDelta :: int
  vp_expiry :: int

datatype voucher_status = VkActive | VkRevoked | VkExpired

fun voucher_status_text :: "voucher_status \<Rightarrow> string" where
  "voucher_status_text VkActive = ''active''" | "voucher_status_text VkRevoked = ''revoked''"
| "voucher_status_text VkExpired = ''expired''"

record channel_binding =
  bc_channelId :: string
  bc_deposit :: int
  bc_openSlot :: int
  bc_salt :: int

record bound_channel = channel_binding +
  bc_maxCumulative :: int

record voucher_info =
  vk_id :: string
  vk_address :: string
  vk_policy :: voucher_policy
  vk_status :: voucher_status
  vk_channel :: "bound_channel option"
  vk_lastCumulative :: int
  vk_createdAt :: int

record voucher_key = voucher_info +
  vk_kind :: string
  vk_keyPair :: encrypted_key_pair

record voucher_config =
  vc_encryptionKey :: string
  vc_iterations :: "int option"
  vc_allowWeakKdf :: bool
  vc_overrides :: "(string \<times> string) list"

definition record_kind :: string where "record_kind = ''naculus-channel-voucher-key/v1''"

abbreviation voucher_refusal :: "string \<Rightarrow> wallet_error" where
  "voucher_refusal m \<equiv> WalletError ''session_scope_exceeded'' m"

definition voucher_address :: "string \<Rightarrow> bool" where
  "voucher_address v \<longleftrightarrow> v \<noteq> [] \<and> isValidSolanaAddress v"

section \<open>The binding of a sealed key\<close>

definition channel_facts :: "bound_channel option \<Rightarrow> json list" where
  "channel_facts c =
     [json_opt (JText \<circ> bc_channelId) c, json_opt (JText \<circ> show_int \<circ> bc_deposit) c,
      json_opt (JText \<circ> show_int \<circ> bc_openSlot) c, json_opt (JText \<circ> show_int \<circ> bc_salt) c,
      json_opt (JText \<circ> show_int \<circ> bc_maxCumulative) c]"

definition voucher_facts ::
  "string \<Rightarrow> string \<Rightarrow> string \<Rightarrow> voucher_policy \<Rightarrow> bound_channel option \<Rightarrow> json" where
  "voucher_facts kind kid address p c = JList (
     [JText kind, JText kid, JText address, JText (vp_cluster p), JText (vp_channelProgram p),
      JText (vp_payer p), JText (vp_mint p), JText (vp_payee p), JText (show_int (vp_pricePerUnit p)),
      JText (show_int (vp_maxCumulative p)), JText (show_int (vp_maxDelta p)), JNumber (vp_expiry p)] @
     channel_facts c)"

definition key_facts :: "voucher_key \<Rightarrow> json" where
  "key_facts k = voucher_facts (vk_kind k) (vk_id k) (vk_address k) (vk_policy k) (vk_channel k)"

definition vk_open :: "sol_env \<Rightarrow> voucher_config \<Rightarrow> voucher_key \<Rightarrow> wallet_error + bytes" where
  "vk_open env cfg k =
     (let e = fail ''The stored voucher key does not open: wrong password or altered record.'' in
      case decryptPrivateKey (s_crypto env)
          ((vk_keyPair k)\<lparr>publicKey := facts_binding (s_crypto env) (key_facts k)\<rparr>) (vc_encryptionKey cfg) None of
        Inl _ \<Rightarrow> Inl e
      | Inr hex \<Rightarrow> (case hex_decode (drop 2 hex) of None \<Rightarrow> Inl e | Some b \<Rightarrow> Inr b))"

definition vk_seal ::
  "sol_env \<Rightarrow> voucher_config \<Rightarrow> bytes \<Rightarrow> bytes \<Rightarrow> bytes \<Rightarrow> json \<Rightarrow> wallet_error + encrypted_key_pair" where
  "vk_seal env cfg secret slt nonce facts =
     from_vault (encryptPrivateKey (s_crypto env) (''0x'' @ bytesToHex secret) (vc_encryptionKey cfg) slt nonce
       (vc_iterations cfg) (Some (facts_binding (s_crypto env) facts)) (vc_allowWeakKdf cfg))"

section \<open>Creation\<close>

definition vk_key_info :: "int \<Rightarrow> voucher_key \<Rightarrow> voucher_info" where
  "vk_key_info now_ms k =
     (voucher_info.truncate k)
       \<lparr>vk_status := (if vk_status k = VkActive \<and> vp_expiry (vk_policy k) * 1000 \<le> now_ms then VkExpired
          else vk_status k)\<rparr>"

text \<open>The program a policy may name: the app's pin for the cluster, or the reviewed one.\<close>

definition pinned_program :: "voucher_config \<Rightarrow> string \<Rightarrow> string option" where
  "pinned_program cfg cluster =
     (case map_of (vc_overrides cfg) cluster of Some p \<Rightarrow> Some p
      | None \<Rightarrow> map_option tp_address (map_of trusted_channel_programs cluster))"

definition policy_refusal :: "voucher_config \<Rightarrow> voucher_policy \<Rightarrow> int \<Rightarrow> wallet_error option" where
  "policy_refusal cfg p now_ms = first_some
     [throw_if (\<not> (starts_with ''solana:'' (vp_cluster p) \<and> solana_reference (drop 7 (vp_cluster p))))
        (fail ''cluster is not a Solana CAIP-2 id.''),
      throw_if (\<not> voucher_address (vp_channelProgram p)) (fail ''channelProgram is not a Solana address.''),
      throw_if (\<not> voucher_address (vp_payer p)) (fail ''payer is not a Solana address.''),
      throw_if (\<not> voucher_address (vp_mint p)) (fail ''mint is not a Solana address.''),
      throw_if (\<not> voucher_address (vp_payee p)) (fail ''payee is not a Solana address.''),
      throw_if (case pinned_program cfg (vp_cluster p) of None \<Rightarrow> True
          | Some e \<Rightarrow> e = [] \<or> vp_channelProgram p \<noteq> e)
        (fail ''channelProgram is not pinned for this cluster.''),
      throw_if (vp_pricePerUnit p \<le> 0 \<or> vp_pricePerUnit p > u64_max) (fail ''pricePerUnit is not a positive u64.''),
      throw_if (vp_maxCumulative p \<le> 0 \<or> vp_maxCumulative p > u64_max) (fail ''maxCumulative is not a positive u64.''),
      throw_if (vp_maxDelta p \<le> 0 \<or> vp_maxDelta p > vp_maxCumulative p)
        (fail ''maxDelta must be positive and within maxCumulative.''),
      throw_if (\<not> safe_integer (vp_expiry p) \<or> vp_expiry p \<le> now_ms div 1000 \<or> vp_expiry p > i64_max)
        (fail ''expiry must be a future i64 Unix timestamp.'')]"

text \<open>What \<open>crypto\<close> and the clock supply to one creation.\<close>

record voucher_entropy =
  ve_secret :: bytes
  ve_salt :: bytes
  ve_nonce :: bytes
  ve_id :: string
  ve_checked :: int
  ve_created :: int
  ve_listed :: int

definition vk_create ::
  "sol_env \<Rightarrow> voucher_config \<Rightarrow> voucher_policy \<Rightarrow> voucher_entropy \<Rightarrow> voucher_key adapter \<Rightarrow>
   wallet_error + voucher_info \<times> voucher_key adapter" where
  "vk_create env cfg p en a =
     (case policy_refusal cfg p (ve_checked en) of Some e \<Rightarrow> Inl e
      | None \<Rightarrow>
          let address = s58_encode env (ed_public env (ve_secret en)) in
          andThen (vk_seal env cfg (ve_secret en) (ve_salt en) (ve_nonce en)
              (voucher_facts record_kind (ve_id en) address p None)) (\<lambda>kp.
          let stored = \<lparr>vk_id = ve_id en, vk_address = address, vk_policy = p, vk_status = VkActive,
                vk_channel = None, vk_lastCumulative = 0, vk_createdAt = ve_created en,
                vk_kind = record_kind, vk_keyPair = kp\<rparr>
          in andThen (rec_push stored a) (\<lambda>a'. Inr (vk_key_info (ve_listed en) stored, a'))))"

section \<open>Binding a channel\<close>

abbreviation vk_missing :: "string \<Rightarrow> string" where
  "vk_missing kid \<equiv> ''Channel voucher key '' @ kid @ '' not found.''"

definition channel_identity :: "voucher_key \<Rightarrow> 'a channel_binding_scheme \<Rightarrow> channel_pda_input" where
  "channel_identity k b =
     \<lparr>ci_programAddress = Some (vp_channelProgram (vk_policy k)), ci_payer = vp_payer (vk_policy k),
      ci_payee = vp_payee (vk_policy k), ci_mint = vp_mint (vk_policy k), ci_authorizedSigner = vk_address k,
      ci_salt = bc_salt b, ci_openSlot = bc_openSlot b\<rparr>"

text \<open>The policy limit capped by the deposit.\<close>

definition bound_to :: "voucher_key \<Rightarrow> channel_binding \<Rightarrow> bound_channel" where
  "bound_to k b = channel_binding.extend b (bound_channel.fields
     (if vp_maxCumulative (vk_policy k) < bc_deposit b then vp_maxCumulative (vk_policy k) else bc_deposit b))"

definition bind_change ::
  "sol_env \<Rightarrow> voucher_config \<Rightarrow> channel_binding \<Rightarrow> bytes \<Rightarrow> bytes \<Rightarrow> int \<Rightarrow> voucher_key \<Rightarrow>
   wallet_error + voucher_info \<times> voucher_key" where
  "bind_change env cfg b slt nonce now_ms k =
     (if vk_channel k \<noteq> None then Inl (voucher_refusal ''The voucher key is already bound to a channel.'')
      else if bc_deposit b \<le> 0 \<or> bc_deposit b > u64_max then Inl (fail ''deposit is not a positive u64.'')
      else
        andThen (deriveChannelPda env (channel_identity k b)) (\<lambda>(channelId, _).
        if channelId \<noteq> bc_channelId b then
          Inl (voucher_refusal ''channelId does not match the sealed channel identity.'')
        else
          andThen (vk_open env cfg k) (\<lambda>secret.
          let k1 = k\<lparr>vk_channel := Some (bound_to k b)\<rparr> in
          andThen (vk_seal env cfg secret slt nonce (key_facts k1)) (\<lambda>kp.
          let k2 = k1\<lparr>vk_keyPair := kp\<rparr> in Inr (vk_key_info now_ms k2, k2)))))"

definition vk_bindChannel ::
  "sol_env \<Rightarrow> voucher_config \<Rightarrow> string \<Rightarrow> channel_binding \<Rightarrow> bytes \<Rightarrow> bytes \<Rightarrow> int \<Rightarrow> voucher_key adapter \<Rightarrow>
   wallet_error + voucher_info \<times> voucher_key adapter" where
  "vk_bindChannel env cfg kid b slt nonce now_ms =
     rec_update vk_id vk_missing kid (own_change vk_id (bind_change env cfg b slt nonce now_ms))"

section \<open>Signing a voucher\<close>

text \<open>The guards of \<open>signVoucher\<close> and the cumulative amount they allow.\<close>

definition next_cumulative ::
  "voucher_key \<Rightarrow> string \<Rightarrow> int \<Rightarrow> int \<Rightarrow> wallet_error + bound_channel \<times> int" where
  "next_cumulative k channelId units now_ms =
     (if vk_status k \<noteq> VkActive then
        Inl (voucher_refusal (''The voucher key is '' @ voucher_status_text (vk_status k) @ ''.''))
      else if vp_expiry (vk_policy k) * 1000 \<le> now_ms then Inl (voucher_refusal ''The voucher key has expired.'')
      else case vk_channel k of
        None \<Rightarrow> Inl (voucher_refusal ''The voucher key is not bound to a channel.'')
      | Some c \<Rightarrow>
          if channelId \<noteq> bc_channelId c then Inl (voucher_refusal ''channelId does not match the bound channel.'')
          else if units \<le> 0 \<or> units > u64_max then Inl (voucher_refusal ''units must be a positive u64.'')
          else if vp_pricePerUnit (vk_policy k) = 0 then Inl (WalletError ''error'' ''RangeError: Division by zero'')
          else if units > u64_max sdiv vp_pricePerUnit (vk_policy k) then
            Inl (voucher_refusal ''The voucher delta overflows u64.'')
          else
            let delta = units * vp_pricePerUnit (vk_policy k) in
            if delta > vp_maxDelta (vk_policy k) then Inl (voucher_refusal ''The voucher delta exceeds maxDelta.'')
            else if vk_lastCumulative k > u64_max - delta then
              Inl (voucher_refusal ''The cumulative amount overflows u64.'')
            else
              let cumulative = vk_lastCumulative k + delta in
              if cumulative \<le> vk_lastCumulative k then
                Inl (voucher_refusal ''The cumulative amount must strictly increase.'')
              else if cumulative > bc_maxCumulative c \<or> bc_maxCumulative c > bc_deposit c then
                Inl (voucher_refusal ''The cumulative amount exceeds the channel budget.'')
              else Inr (c, cumulative))"

definition voucher_change ::
  "sol_env \<Rightarrow> voucher_config \<Rightarrow> string \<Rightarrow> int \<Rightarrow> int \<Rightarrow> voucher_key \<Rightarrow>
   wallet_error + (channel_voucher \<times> bytes) \<times> voucher_key" where
  "voucher_change env cfg channelId units now_ms k =
     andThen (next_cumulative k channelId units now_ms) (\<lambda>(c, cumulative).
     let voucher = \<lparr>cv_channelId = bc_channelId c, cv_cumulativeAmount = cumulative,
           cv_expiresAt = vp_expiry (vk_policy k)\<rparr>
     in andThen (vk_open env cfg k) (\<lambda>secret.
        if s58_encode env (ed_public env secret) \<noteq> vk_address k then
          Inl (fail ''The stored voucher key does not match its address.'')
        else
          andThen (signVoucher env secret voucher) (\<lambda>signature.
          Inr ((voucher, signature), k\<lparr>vk_lastCumulative := cumulative\<rparr>))))"

definition vk_signVoucher ::
  "sol_env \<Rightarrow> voucher_config \<Rightarrow> string \<Rightarrow> string \<Rightarrow> int \<Rightarrow> int \<Rightarrow> voucher_key adapter \<Rightarrow>
   wallet_error + (channel_voucher \<times> bytes) \<times> voucher_key adapter" where
  "vk_signVoucher env cfg kid channelId units now_ms =
     rec_update vk_id vk_missing kid (own_change vk_id (voucher_change env cfg channelId units now_ms))"

section \<open>Listing and revocation\<close>

definition vk_list :: "sol_env \<Rightarrow> voucher_config \<Rightarrow> int \<Rightarrow> voucher_key adapter \<Rightarrow> wallet_error + voucher_info list" where
  "vk_list env cfg now_ms a =
     andThen (rec_loadAll a) (\<lambda>ks.
     andThen (map_throw (vk_open env cfg) ks) (\<lambda>_. Inr (map (vk_key_info now_ms) ks)))"

definition vk_revoke :: "string \<Rightarrow> voucher_key adapter \<Rightarrow> wallet_error + unit \<times> voucher_key adapter" where
  "vk_revoke kid =
     rec_update vk_id vk_missing kid (own_change vk_id (\<lambda>k. Inr ((), k\<lparr>vk_status := VkRevoked\<rparr>)))"

end
