(* ===== verification/AuthzCompile.thy ===== *)
theory AuthzCompile
  imports AuthzSpend SolanaKeys VoucherKeys DelegationHandlers "HOL-Library.List_Lexorder" "HOL-Library.Char_ord"
begin

text \<open>
  packages/core/src/authorization/index.ts, second half: what a validated authorization is compiled
  to (the scope of an EVM session key, of a Solana session key, the policy of a channel voucher
  key), how stored keys are listed as authorizations again, and the revocation of a listed entry.
  A refusal is the reason the code returns.
\<close>

section \<open>What all compilations share\<close>

datatype enforcement = OnChain | Device

definition validatedForCompile :: "authz_env \<Rightarrow> jsval \<Rightarrow> string + authorization_doc" where
  "validatedForCompile env value =
     andThen (validateAuthorization env value) (\<lambda>a.
     if notBefore a = None then Inr a else Inl ''notBefore is not expressible by existing session scopes'')"

text \<open>Both sides sorted and compared position by position.\<close>

definition sameStrings :: "string list \<Rightarrow> string list \<Rightarrow> bool" where
  "sameStrings l r \<longleftrightarrow> length l = length r \<and> sort l = sort r"

definition asset_of :: "authz_env \<Rightarrow> grant \<Rightarrow> parsed_asset option" where
  "asset_of env g = parseAsset env (JStr (g_asset g))"

definition asset_address :: "authz_env \<Rightarrow> grant \<Rightarrow> string" where
  "asset_address env g = or_nil (Option.bind (asset_of env g) pa_address)"

definition grants_on :: "authz_env \<Rightarrow> string \<Rightarrow> grant list \<Rightarrow> grant list" where
  "grants_on env chn gs = filter (\<lambda>g. map_option chain (asset_of env g) = Some chn) gs"

definition has_kind :: "authz_env \<Rightarrow> asset_kind \<Rightarrow> grant \<Rightarrow> bool" where
  "has_kind env kind g \<longleftrightarrow> map_option pa_kind (asset_of env g) = Some kind"

section \<open>The scope of an EVM session key\<close>

text \<open>\<open>EvmCompileOptions.mode\<close> and the mode of a scope it stands for.\<close>

datatype compile_mode = AsOffchain | AsEip7702

fun mode_of :: "compile_mode \<Rightarrow> session_mode" where
  "mode_of AsOffchain = Offchain" | "mode_of AsEip7702 = Eip7702"

definition token_grants :: "authz_env \<Rightarrow> grant list \<Rightarrow> grant list" where
  "token_grants env sel = filter (has_kind env Erc20) sel"

definition native_grant :: "authz_env \<Rightarrow> grant list \<Rightarrow> grant option" where
  "native_grant env sel = find (has_kind env Native) sel"

text \<open>\<open>(tokenGrants[0] ?? nativeGrant ?? selected[0]).rails\<close>.\<close>

definition scope_rails :: "authz_env \<Rightarrow> grant list \<Rightarrow> string list" where
  "scope_rails env sel =
     g_rails (case token_grants env sel of g # _ \<Rightarrow> g | [] \<Rightarrow> or_else (native_grant env sel) (hd sel))"

definition evm_selection_refusal :: "authz_env \<Rightarrow> grant list \<Rightarrow> string option" where
  "evm_selection_refusal env sel = first_some
     [throw_if (sel = []) ''no grants on chain'',
      throw_if (\<exists>g \<in> set sel. \<exists>r \<in> set (g_rails g). r \<noteq> ''transfer'' \<and> r \<noteq> ''x402-exact'')
        ''rail is not expressible by EVM scope'',
      throw_if (\<exists>g \<in> set sel. \<not> sameStrings (recipients g) (recipients (hd sel)) \<or> maxCount g \<noteq> maxCount (hd sel))
        ''recipient sets or counts differ'',
      throw_if (\<not> distinct (map g_asset sel)) ''duplicate asset grants are not faithfully expressible'',
      throw_if (\<exists>g \<in> set (token_grants env sel). \<not> sameStrings (g_rails g) (scope_rails env sel))
        ''token grant rail sets differ'']"

text \<open>No caveat caps a single transfer; the lifetime and period caveats bound it.\<close>

definition on_chain_bound :: "grant \<Rightarrow> int" where
  "on_chain_bound g =
     (case period g of Some p \<Rightarrow> if p_amount p < maxTotal g then p_amount p else maxTotal g | None \<Rightarrow> maxTotal g)"

definition on_chain_refusal :: "authz_env \<Rightarrow> int \<Rightarrow> grant list \<Rightarrow> string option" where
  "on_chain_refusal env chainId sel =
     (let tokens = token_grants env sel in first_some
      [throw_if (chainId \<notin> set delegation_chain_ids) ''chain is not supported by the delegation framework'',
       throw_if (native_grant env sel \<noteq> None) ''native authorization is not faithfully expressible on chain'',
       throw_if (length tokens \<noteq> 1) ''on-chain authorization requires exactly one token grant'',
       throw_if (length (recipients (hd sel)) > 1) ''on-chain authorization supports at most one recipient'',
       throw_if (maxPerPayment (hd tokens) < on_chain_bound (hd tokens) \<or>
           map_option p_start (period (hd tokens)) = Some 0 \<or> (\<exists>r \<in> set (g_rails (hd tokens)). r \<noteq> ''transfer''))
         ''an EVM grant limit or rail has no on-chain caveat''])"

text \<open>\<open>??=\<close> on an object that is created with its first key.\<close>

definition some_entries :: "'v entries \<Rightarrow> 'v entries option" where
  "some_entries es = (if es = [] then None else Some es)"

text \<open>
  The scope literal and the loop that fills its maps.  The canonical addresses of grants on one
  chain with distinct assets are distinct, so the assignments never overwrite one another.
\<close>

definition compiled_evm_scope :: "authz_env \<Rightarrow> authorization_doc \<Rightarrow> int \<Rightarrow> compile_mode \<Rightarrow> grant list \<Rightarrow> session_scope" where
  "compiled_evm_scope env a chainId md sel =
     (let tokens = token_grants env sel; native = native_grant env sel in
      \<lparr>expiry = expiresAt a, maxTotalGas = None, maxGasPerTx = None,
       maxTotalValue = Some (case native of None \<Rightarrow> 0 | Some g \<Rightarrow> maxTotal g),
       maxValuePerTx = Some (case native of None \<Rightarrow> 0 | Some g \<Rightarrow> maxPerPayment g),
       maxTxCount = maxCount (hd sel),
       allowedContracts = Some (map (asset_address env) tokens),
       allowedMethods = (if tokens = [] then None else Some [''0xa9059cbb'']),
       tokenAllowances = some_entries (map (\<lambda>g. (asset_address env g, maxTotal g)) tokens),
       tokenMaxPerTx = some_entries (map (\<lambda>g. (asset_address env g, maxPerPayment g))
          (filter (\<lambda>g. md = AsOffchain \<and> maxPerPayment g < maxTotal g) tokens)),
       periodLimits = some_entries
          ([(asset_address env g, p). g \<leftarrow> tokens, p \<leftarrow> (case period g of None \<Rightarrow> [] | Some p \<Rightarrow> [p])] @
           (case Option.bind native period of None \<Rightarrow> [] | Some p \<Rightarrow> [(''native'', p)])),
       allowedRecipients = Some (recipients (hd sel)),
       nativeTransfer = (if native = None then None else Some native_transfer_mode),
       allowedChainIds = Some [chainId],
       rails = Some (scope_rails env sel),
       mode = mode_of md\<rparr>)"

definition compileEvmSessionScope ::
  "authz_env \<Rightarrow> jsval \<Rightarrow> int \<Rightarrow> bool \<Rightarrow> compile_mode \<Rightarrow> string + session_scope \<times> enforcement" where
  "compileEvmSessionScope env value chainId requireOnChain md =
     (if requireOnChain \<and> md \<noteq> AsEip7702 then Inl ''on-chain enforcement is not available''
      else
        andThen (validatedForCompile env value) (\<lambda>a.
        if \<not> safe_integer chainId \<or> chainId \<le> 0 then Inl ''invalid chainId''
        else
          let sel = grants_on env (''eip155:'' @ show_int chainId) (grants a) in
          case evm_selection_refusal env sel of Some e \<Rightarrow> Inl e
          | None \<Rightarrow>
              (case (if md = AsEip7702 then on_chain_refusal env chainId sel else None) of Some e \<Rightarrow> Inl e
               | None \<Rightarrow> Inr (compiled_evm_scope env a chainId md sel, if md = AsEip7702 then OnChain else Device))))"

section \<open>The scope of a Solana session key\<close>

definition compileSolanaSessionScope :: "authz_env \<Rightarrow> jsval \<Rightarrow> string \<Rightarrow> bool \<Rightarrow> string + sol_scope \<times> enforcement" where
  "compileSolanaSessionScope env value cluster requireOnChain =
     (if requireOnChain then Inl ''on-chain enforcement is not available''
      else
        andThen (validatedForCompile env value) (\<lambda>a.
        if \<not> solana_chain_re cluster then Inl ''invalid cluster''
        else case grants_on env cluster (grants a) of
          [g] \<Rightarrow>
            if \<exists>r \<in> set (g_rails g). r \<noteq> ''transfer'' \<and> r \<noteq> ''mpp-charge'' \<and> r \<noteq> ''x402-exact'' then
              Inl ''rail is not expressible by Solana scope''
            else if maxTotal g > u64_max \<or> maxPerPayment g > u64_max then Inl ''amount exceeds Solana u64''
            else Inr
              (\<lparr>ss_cluster = cluster, ss_mint = asset_address env g, ss_budget = maxTotal g,
                ss_maxPerPayment = maxPerPayment g, ss_allowedRecipients = recipients g,
                ss_expiry = expiresAt a, ss_maxTxCount = maxCount g, ss_period = period g\<rparr>, Device)
        | _ \<Rightarrow> Inl ''exactly one token grant is required''))"

section \<open>The policy of a channel voucher key\<close>

record mpp_context =
  mc_channelProgram :: string
  mc_payer :: string
  mc_pricePerUnit :: int
  mc_deposit :: int
  mc_gracePeriod :: "int option"

record mpp_client =
  ml_recipient :: string
  ml_mint :: string
  ml_amount :: int
  ml_deposit :: int
  ml_maxCumulative :: int
  ml_maxDelta :: int
  ml_expiresAt :: int
  ml_gracePeriod :: "int option"

definition mpp_grant_refusal :: "grant \<Rightarrow> string option" where
  "mpp_grant_refusal g = first_some
     [throw_if (period g \<noteq> None) ''MPP session cannot enforce period'',
      throw_if (length (g_rails g) \<noteq> 1) ''mixed rails are not faithfully expressible'',
      throw_if (length (recipients g) \<noteq> 1) ''MPP session requires exactly one recipient'',
      throw_if (maxCount g \<noteq> None) ''MPP session cannot enforce maxCount'']"

definition mpp_bounds_refusal :: "authorization_doc \<Rightarrow> grant \<Rightarrow> mpp_context \<Rightarrow> string option" where
  "mpp_bounds_refusal a g ctx = first_some
     [throw_if (mc_pricePerUnit ctx \<le> 0 \<or> mc_pricePerUnit ctx > u64_max) ''invalid MPP context'',
      throw_if (mc_deposit ctx < maxTotal g \<or> mc_deposit ctx > u64_max) ''deposit must cover maxTotal'',
      throw_if (maxTotal g > u64_max \<or> expiresAt a > i64_max) ''authorization exceeds MPP integer bounds'',
      throw_if (case mc_gracePeriod ctx of None \<Rightarrow> False | Some n \<Rightarrow> \<not> safe_integer n \<or> n \<le> 0)
        ''invalid minimum grace period'']"

definition compileMppSession ::
  "authz_env \<Rightarrow> jsval \<Rightarrow> string \<Rightarrow> mpp_context \<Rightarrow> bool \<Rightarrow> string + (voucher_policy \<times> mpp_client) \<times> enforcement" where
  "compileMppSession env value cluster ctx requireOnChain =
     (if requireOnChain then Inl ''on-chain enforcement is not available''
      else
        andThen (validatedForCompile env value) (\<lambda>a.
        if \<not> solana_chain_re cluster then Inl ''invalid cluster''
        else case filter (\<lambda>g. ''mpp-session'' \<in> set (g_rails g)) (grants_on env cluster (grants a)) of
          [g] \<Rightarrow>
            (case mpp_grant_refusal g of Some e \<Rightarrow> Inl e
             | None \<Rightarrow>
                 (case (canonicalSolanaAddress env (JStr (mc_channelProgram ctx)),
                        canonicalSolanaAddress env (JStr (mc_payer ctx))) of
                    (Some prog, Some payr) \<Rightarrow>
                      if prog = [] \<or> payr = [] then Inl ''invalid MPP context''
                      else (case mpp_bounds_refusal a g ctx of Some e \<Rightarrow> Inl e
                        | None \<Rightarrow> Inr
                            ((\<lparr>vp_cluster = cluster, vp_channelProgram = prog, vp_payer = payr,
                               vp_mint = asset_address env g, vp_payee = hd (recipients g),
                               vp_pricePerUnit = mc_pricePerUnit ctx, vp_maxCumulative = maxTotal g,
                               vp_maxDelta = maxPerPayment g, vp_expiry = expiresAt a\<rparr>,
                              \<lparr>ml_recipient = hd (recipients g), ml_mint = asset_address env g,
                               ml_amount = mc_pricePerUnit ctx, ml_deposit = mc_deposit ctx,
                               ml_maxCumulative = maxTotal g, ml_maxDelta = maxPerPayment g,
                               ml_expiresAt = expiresAt a, ml_gracePeriod = mc_gracePeriod ctx\<rparr>), Device))
                  | _ \<Rightarrow> Inl ''invalid MPP context''))
        | _ \<Rightarrow> Inl ''exactly one mpp-session grant is required''))"

end
