(* ===== verification/AuthzList.thy ===== *)
theory AuthzList
  imports AuthzCompile
begin

text \<open>
  packages/core/src/authorization/index.ts, the listing: stored keys of the three managers presented
  as authorizations again (\<open>decompileEvm\<close>, \<open>decompileSolana\<close>, \<open>decompileMppVoucher\<close>,
  \<open>listAuthorizations\<close>) and the revocation of a listed entry.
\<close>

section \<open>Listed authorizations\<close>

datatype listed_flag = UnrestrictedRecipientLegacy | NotExpressible

datatype listed_raw = RawEvm key_info | RawSolana sol_info | RawVoucher voucher_info

record listed =
  li_keyId :: string
  li_status :: string
  li_principal :: "string option"
  li_expiresAt :: int
  li_grants :: "grant list"
  li_spent :: "int entries option"
  li_flags :: "listed_flag list"
  li_raw :: listed_raw

fun enforcer :: "listed_raw \<Rightarrow> string" where
  "enforcer (RawEvm i) = ''evm-session''"
| "enforcer (RawSolana i) = ''solana-session''"
| "enforcer (RawVoucher i) = ''mpp-voucher''"

definition hasValidEvmScopeRails :: "string list option \<Rightarrow> bool" where
  "hasValidEvmScopeRails v \<longleftrightarrow>
     (case v of None \<Rightarrow> False
      | Some rs \<Rightarrow> rs \<noteq> [] \<and> set rs \<subseteq> {''transfer'', ''x402-exact'', ''mpp-charge''} \<and> distinct rs)"

definition sameAddresses :: "string list option \<Rightarrow> string list \<Rightarrow> bool" where
  "sameAddresses l r \<longleftrightarrow>
     (case l of None \<Rightarrow> False
      | Some xs \<Rightarrow> length xs = length r \<and> sort (map lower r) = sort (map lower xs))"

fun key_status_text :: "key_status \<Rightarrow> string" where
  "key_status_text Active = ''active''" | "key_status_text Revoked = ''revoked''"
| "key_status_text Expired = ''expired''"

section \<open>EVM keys\<close>

text \<open>
  What one token allowance on one chain contributes: \<open>None\<close> is the skipped entry that sets the
  flag, the outer \<open>None\<close> the exception of \<open>toChecksumAddress\<close>.
\<close>

definition token_entry ::
  "(bytes \<Rightarrow> bytes) \<Rightarrow> session_scope \<Rightarrow> string list \<Rightarrow> int \<Rightarrow> string \<times> int \<Rightarrow> grant option option" where
  "token_entry keccak s rcps chainId = (\<lambda>(token, lim).
     if lim \<le> 0 then Some None
     else
       let perPayment = map_option snd (entry_ci token (tokenMaxPerTx s)) in
       if (case perPayment of None \<Rightarrow> False | Some v \<Rightarrow> v \<le> 0 \<or> v > lim) then Some None
       else
         Option.bind (toChecksumAddress keccak token) (\<lambda>address.
         if \<not> hasValidEvmScopeRails (rails s) then Some None
         else
           map_option (\<lambda>rs. Some
             \<lparr>g_asset = ''eip155:'' @ show_int chainId @ ''/erc20:'' @ address, recipients = rs,
              maxPerPayment = or_else perPayment lim, maxTotal = lim, maxCount = maxTxCount s,
              period = None, g_rails = or_nil (rails s)\<rparr>)
             (those (map (toChecksumAddress keccak) rcps))))"

definition native_entry ::
  "(bytes \<Rightarrow> bytes) \<Rightarrow> session_scope \<Rightarrow> string list \<Rightarrow> int \<Rightarrow> grant option option" where
  "native_entry keccak s rcps chainId =
     (case (maxValuePerTx s, maxTotalValue s) of
        (Some per, Some lim) \<Rightarrow>
          if nativeTransfer s = Some native_transfer_mode \<and> per > 0 \<and> lim > 0 \<and>
             hasValidEvmScopeRails (rails s) \<and> ''transfer'' \<in> set (or_nil (rails s)) then
            map_option (\<lambda>rs. Some
              \<lparr>g_asset = ''eip155:'' @ show_int chainId @ ''/slip44:60'', recipients = rs, maxPerPayment = per,
               maxTotal = lim, maxCount = maxTxCount s, period = None, g_rails = [''transfer'']\<rparr>)
              (those (map (toChecksumAddress keccak) rcps))
          else Some None
      | _ \<Rightarrow> Some None)"

text \<open>
  The grants of all chains, with the allowance each came from (none for the native grant), and
  whether an allowance was skipped.
\<close>

definition chain_entries ::
  "(bytes \<Rightarrow> bytes) \<Rightarrow> session_scope \<Rightarrow> string list \<Rightarrow> int \<Rightarrow> ((string option \<times> grant) list \<times> bool) option" where
  "chain_entries keccak s rcps chainId =
     Option.bind (those (map (token_entry keccak s rcps chainId) (or_nil (tokenAllowances s)))) (\<lambda>ts.
     map_option (\<lambda>nat.
       ([(Some token, g). ((token, _), Some g) \<leftarrow> zip (or_nil (tokenAllowances s)) ts] @
          (case nat of None \<Rightarrow> [] | Some g \<Rightarrow> [(None, g)]),
        None \<in> set ts))
       (native_entry keccak s rcps chainId))"

definition evm_grants ::
  "(bytes \<Rightarrow> bytes) \<Rightarrow> session_scope \<Rightarrow> ((string option \<times> grant) list \<times> bool) option" where
  "evm_grants keccak s =
     (let rcps = or_nil (allowedRecipients s); chains = or_nil (allowedChainIds s) in
      if rcps = [] \<or> chains = [] then Some ([], False)
      else map_option (\<lambda>rs. (concat (map fst rs), \<exists>r \<in> set rs. snd r))
             (those (map (chain_entries keccak s rcps) chains)))"

text \<open>The shape a compiled scope has: anything else is flagged.\<close>

definition evm_expressible :: "session_scope \<Rightarrow> bool" where
  "evm_expressible s \<longleftrightarrow>
     (let tokens = or_nil (tokenAllowances s); tokenAddresses = map fst tokens;
          positive = (\<lambda>v. (case v of None \<Rightarrow> False | Some n \<Rightarrow> (n :: int) > 0)) in
      sameAddresses (allowedContracts s) tokenAddresses \<and>
      (if tokenAddresses = [] then or_nil (allowedMethods s) = []
       else \<exists>m. allowedMethods s = Some [m] \<and> lower m = erc20_transfer_selector) \<and>
      (if positive (maxValuePerTx s) \<or> positive (maxTotalValue s) then
         nativeTransfer s = Some native_transfer_mode \<and> positive (maxValuePerTx s) \<and> positive (maxTotalValue s)
       else nativeTransfer s = None) \<and>
      (\<forall>(token, cap) \<in> set (or_nil (tokenMaxPerTx s)).
         cap > 0 \<and> (\<exists>(allowed, lim) \<in> set tokens. lower allowed = lower token \<and> cap \<le> lim)) \<and>
      maxGasPerTx s = None \<and> maxTotalGas s = None)"

definition listed_spent :: "key_usage option \<Rightarrow> (string option \<times> grant) list \<Rightarrow> int entries option" where
  "listed_spent usage gs =
     map_option (\<lambda>u. fold (\<lambda>(token, g) acc. AList.update (g_asset g)
         (case token of None \<Rightarrow> valueSpent u
          | Some t \<Rightarrow> (case entry_ci t (Some (tokenSpent u)) of None \<Rightarrow> 0 | Some (_, v) \<Rightarrow> v)) acc) gs []) usage"

definition decompileEvm :: "(bytes \<Rightarrow> bytes) \<Rightarrow> key_info \<Rightarrow> listed option" where
  "decompileEvm keccak i =
     (let s = i_scope i; chains = or_nil (allowedChainIds s) in
      Option.bind (evm_grants keccak s) (\<lambda>(gs, skipped).
      let inexpressible = chains = [] \<or> skipped \<or> \<not> evm_expressible s;
          listing = (\<lambda>p. Some
            \<lparr>li_keyId = i_id i, li_status = key_status_text (i_status i), li_principal = p,
             li_expiresAt = expiry s, li_grants = map snd gs, li_spent = listed_spent (i_usage i) gs,
             li_flags = (if or_nil (allowedRecipients s) = [] then [UnrestrictedRecipientLegacy] else []) @
               (if inexpressible then [NotExpressible] else []),
             li_raw = RawEvm i\<rparr>)
      in if length chains = 1 \<and> \<not> isZeroAddress (i_signerAddress i) then
           Option.bind (toChecksumAddress keccak (i_signerAddress i)) (\<lambda>address.
           listing (Some (''eip155:'' @ show_int (hd chains) @ '':'' @ address)))
         else listing None))"

section \<open>Solana keys and voucher keys\<close>

definition decompileSolana :: "sol_info \<Rightarrow> listed" where
  "decompileSolana i =
     (let s = sk_scope i; asset = ss_cluster s @ ''/token:'' @ ss_mint s in
      \<lparr>li_keyId = sk_id i, li_status = sol_status_text (sk_status i),
       li_principal = Some (ss_cluster s @ '':'' @ sk_owner i), li_expiresAt = ss_expiry s,
       li_grants = [\<lparr>g_asset = asset, recipients = ss_allowedRecipients s, maxPerPayment = ss_maxPerPayment s,
          maxTotal = ss_budget s, maxCount = ss_maxTxCount s, period = None,
          g_rails = [''transfer'', ''mpp-charge'', ''x402-exact'']\<rparr>],
       li_spent = Some [(asset, sk_spent i)], li_flags = [], li_raw = RawSolana i\<rparr>)"

definition decompileMppVoucher :: "voucher_info \<Rightarrow> listed" where
  "decompileMppVoucher i =
     (let p = vk_policy i; asset = vp_cluster p @ ''/token:'' @ vp_mint p in
      \<lparr>li_keyId = vk_id i, li_status = voucher_status_text (vk_status i),
       li_principal = Some (vp_cluster p @ '':'' @ vp_payer p), li_expiresAt = vp_expiry p,
       li_grants = [\<lparr>g_asset = asset, recipients = [vp_payee p], maxPerPayment = vp_maxDelta p,
          maxTotal = vp_maxCumulative p, maxCount = None, period = None, g_rails = [''mpp-session'']\<rparr>],
       li_spent = Some [(asset, vk_lastCumulative i)], li_flags = [], li_raw = RawVoucher i\<rparr>)"

section \<open>The three managers\<close>

record key_managers =
  km_evm :: "manager option"
  km_solana :: "sol_key adapter option"
  km_voucher :: "voucher_key adapter option"

datatype listing_error = EvmFault fault | KeyError wallet_error | ListingError string

text \<open>
  \<open>Promise.all\<close> starts all three listings, so the refresh of the EVM manager is kept even when
  another listing rejects; the error returned is then the first one in the order of the list.
\<close>

definition listAuthorizations ::
  "(bytes \<Rightarrow> bytes) \<Rightarrow> sol_env \<Rightarrow> voucher_config \<Rightarrow> int \<Rightarrow> key_managers \<Rightarrow>
   (listing_error + listed list) \<times> key_managers" where
  "listAuthorizations keccak env vcfg now ms =
     (let (evm, km) =
        (case km_evm ms of None \<Rightarrow> (Inr [], None)
         | Some m \<Rightarrow> (case listSessions now m of (r, m') \<Rightarrow>
             (case r of Inl e \<Rightarrow> Inl (EvmFault e) | Inr is \<Rightarrow> Inr is, Some m')));
        sol = (case km_solana ms of None \<Rightarrow> Inr []
          | Some a \<Rightarrow> (case sol_listSessions now a of Inl e \<Rightarrow> Inl (KeyError e) | Inr is \<Rightarrow> Inr is));
        vch = (case km_voucher ms of None \<Rightarrow> Inr []
          | Some a \<Rightarrow> (case vk_list env vcfg now a of Inl e \<Rightarrow> Inl (KeyError e) | Inr is \<Rightarrow> Inr is))
      in
      (andThen evm (\<lambda>es. andThen sol (\<lambda>ss. andThen vch (\<lambda>vs.
         case those (map (decompileEvm keccak) es) of
           None \<Rightarrow> Inl (ListingError ''Invalid EVM address'')
         | Some ls \<Rightarrow> Inr (ls @ map decompileSolana ss @ map decompileMppVoucher vs)))),
       ms\<lparr>km_evm := km\<rparr>))"

text \<open>The answer is whether something is left to revoke on chain.\<close>

definition revokeListedAuthorization ::
  "key_managers \<Rightarrow> listed \<Rightarrow> listing_error + bool \<times> key_managers" where
  "revokeListedAuthorization ms entry =
     (case li_raw entry of
        RawEvm i \<Rightarrow>
          (case km_evm ms of None \<Rightarrow> Inl (ListingError ''EVM session-key manager is required'')
           | Some m \<Rightarrow> (case revokeSession (li_keyId entry) m of
               (Inl e, _) \<Rightarrow> Inl (EvmFault e)
             | (Inr _, m') \<Rightarrow> Inr (mode (i_scope i) = Eip7702, ms\<lparr>km_evm := Some m'\<rparr>)))
      | RawSolana i \<Rightarrow>
          (case km_solana ms of None \<Rightarrow> Inl (ListingError ''Solana session-key manager is required'')
           | Some a \<Rightarrow> (case sol_revoke (li_keyId entry) a of
               Inl e \<Rightarrow> Inl (KeyError e)
             | Inr (_, a') \<Rightarrow> Inr (True, ms\<lparr>km_solana := Some a'\<rparr>)))
      | RawVoucher i \<Rightarrow>
          (case km_voucher ms of None \<Rightarrow> Inl (ListingError ''MPP voucher-key manager is required'')
           | Some a \<Rightarrow> (case vk_revoke (li_keyId entry) a of
               Inl e \<Rightarrow> Inl (KeyError e)
             | Inr (_, a') \<Rightarrow> Inr (False, ms\<lparr>km_voucher := Some a'\<rparr>))))"

end
