(* ===== verification/SolanaDemo.thy ===== *)
theory SolanaDemo
  imports SolanaCompile SealedRecord
begin

text \<open>
  Concrete external functions for evaluating the Solana model.  The base58 codec reads a text as
  its characters, except that the well-known program addresses stand for 32-byte keys; the two are
  swapped, so both laws of the codec hold.  A hash is the number of bytes and a part of them, no hash
  is on the curve, and a signature is the key followed by the message, cut to 64 bytes.
\<close>

definition known_programs :: "string list" where
  "known_programs =
     [token_program, token2022_program, associated_token_program, compute_budget_program, memo_program,
      lighthouse_program, ''CHNLxYvVA28MJP9PrFuDXccuoGXAx7jBacfLEkahyGsX'',
      ''SysvarRent111111111111111111111111111111111'']"

definition swap_pairs :: "(bytes \<times> bytes) list" where
  "swap_pairs =
     (let ps = zip (map utf8 known_programs) (map (\<lambda>i. replicate 32 (word_of_nat (200 + i))) [0..<8])
      in ps @ map (\<lambda>(a, b). (b, a)) ps)"

definition swap_known :: "bytes \<Rightarrow> bytes" where
  "swap_known b = or_else (map_of swap_pairs b) b"

definition text_of_bytes :: "bytes \<Rightarrow> string" where
  "text_of_bytes bs = map (\<lambda>b. char_of (unat b)) bs"

lemma utf8_text_of_bytes: "utf8 (text_of_bytes bs) = bs"
proof -
  have "word_of_nat (ord (char_of (unat b))) = b" for b :: byte
    using unat_byte [of b] by (simp add: ord_char_of)
  then show ?thesis by (simp add: utf8_def text_of_bytes_def comp_def)
qed

lemma text_of_bytes_utf8: "text_of_bytes (utf8 s) = s"
  using utf8_text_of_bytes utf8_inj by blast

lemma swap_pairs_distinct: "distinct (map fst swap_pairs)"
  by code_simp

lemma swap_pairs_sym: "(a, b) \<in> set swap_pairs \<Longrightarrow> (b, a) \<in> set swap_pairs"
  by (auto simp: swap_pairs_def Let_def)

lemma swap_known_twice: "swap_known (swap_known b) = b"
proof (cases "map_of swap_pairs b")
  case None
  then show ?thesis by (simp add: swap_known_def)
next
  case (Some c)
  then have "(c, b) \<in> set swap_pairs" by (simp add: map_of_SomeD swap_pairs_sym)
  then have "map_of swap_pairs c = Some b" using swap_pairs_distinct by simp
  with Some show ?thesis by (simp add: swap_known_def)
qed

definition toy_sol :: sol_env where
  "toy_sol =
     \<lparr>s_crypto = toy_crypto\<lparr>sha256 := (\<lambda>x. word_of_nat (length x) # tl (map (\<lambda>b. b + 1) (toy_digest x)))\<rparr>,
      ed_public = (\<lambda>secret. secret),
      ed_sign = (\<lambda>msg secret. take 64 (secret @ msg @ replicate 64 0)),
      ed_verify = (\<lambda>sig msg pub. sig = take 64 (pub @ msg @ replicate 64 0)),
      on_curve = (\<lambda>h. False),
      s58_decode = (\<lambda>s. Some (swap_known (utf8 s))),
      s58_encode = (\<lambda>b. text_of_bytes (swap_known b)),
      s64_encode = bytesToHex\<rparr>"

lemma toy_sol_laws: "base58_laws toy_sol"
  by (simp add: base58_laws_def toy_sol_def swap_known_twice utf8_text_of_bytes text_of_bytes_utf8)

lemma toy_sol_crypto: "gcm_correct (s_crypto toy_sol)" "gcm_binds (s_crypto toy_sol)" "hash_lengths (s_crypto toy_sol)"
  using toy_crypto_laws toy_gcm_binds
  by (simp_all add: gcm_correct_def gcm_binds_def hash_lengths_def toy_sol_def) (auto simp: toy_digest_def min_def)

text \<open>Facts whose texts have different lengths (modulo 256) are apart.\<close>

lemma facts_apart_length:
  assumes "(word_of_nat (length (json_text f)) :: byte) \<noteq> word_of_nat (length (json_text g))"
  shows "facts_apart (s_crypto toy_sol) f g"
  using assms by (auto simp: facts_apart_def hash_apart_def toy_sol_def utf8_def)

text \<open>An address in the shape the address check accepts.\<close>

definition sol_addr :: "char \<Rightarrow> string" where
  "sol_addr c = replicate 31 CHR ''1'' @ [c]"

definition demo_key :: "char \<Rightarrow> string" where
  "demo_key c = replicate 32 c"

text \<open>
  A compiled transaction reads back as it was meant: when the wire fits the packet limit, the
  strict parser accepts what \<open>compileV0\<close> wrote, finds the fee payer first, the blockhash and the
  instructions with their accounts and data in order, and sees an account as a signer, or as
  writable, exactly when some instruction asked for it (or it is the fee payer).
\<close>

lemma compile_reads_back:
  assumes "base58_laws env" "compileV0 env fp ixs blockhash = Inr wire" "length wire \<le> transaction_limit"
  shows "\<exists>t. parseSolanaTransaction env wire = Inr t \<and>
    t_keys t \<noteq> [] \<and> hd (t_keys t) = fp \<and> t_blockhash t = blockhash \<and>
    t_instructions t =
      map (\<lambda>ix. \<lparr>pi_program = wi_program ix, pi_accounts = map m_address (wi_accounts ix), pi_data = wi_data ix\<rparr>) ixs \<and>
    (\<forall>a. isSigner t a \<longleftrightarrow> requested_signer fp ixs a) \<and>
    (\<forall>a. isWritable t a \<longleftrightarrow> requested_writable fp ixs a)"
  by (rule compileV0_reads_back [OF assms])

definition demo_ixs :: "wire_instruction list" where
  "demo_ixs =
     [\<lparr>wi_program = token_program,
       wi_accounts = [\<lparr>m_address = demo_key CHR ''s'', m_signer = False, m_writable = True\<rparr>,
         \<lparr>m_address = demo_key CHR ''o'', m_signer = True, m_writable = False\<rparr>],
       wi_data = [5]\<rparr>]"

lemma compile_reads_back_witness:
  "\<exists>wire t. compileV0 toy_sol (demo_key CHR ''p'') demo_ixs (demo_key CHR ''h'') = Inr wire \<and>
     parseSolanaTransaction toy_sol wire = Inr t \<and> isSigner t (demo_key CHR ''o'') \<and>
     \<not> isWritable t (demo_key CHR ''o'')"
proof -
  have "case compileV0 toy_sol (demo_key CHR ''p'') demo_ixs (demo_key CHR ''h'') of
      Inl _ \<Rightarrow> False | Inr w \<Rightarrow> length w \<le> transaction_limit"
    by code_simp
  then obtain wire where w: "compileV0 toy_sol (demo_key CHR ''p'') demo_ixs (demo_key CHR ''h'') = Inr wire"
    "length wire \<le> transaction_limit"
    by (auto split: sum.splits)
  have "requested_signer (demo_key CHR ''p'') demo_ixs (demo_key CHR ''o'')"
    "\<not> requested_writable (demo_key CHR ''p'') demo_ixs (demo_key CHR ''o'')"
    by code_simp+
  then show ?thesis using compile_reads_back [OF toy_sol_laws w] w(1) by blast
qed

text \<open>
  The compact length prefix round-trips and is canonical: for every count below \<open>2^21\<close> the
  reader returns what the writer wrote and stops behind it, and whatever the reader accepts is
  the one encoding the writer produces, so no two byte strings stand for the same length.
\<close>

lemma length_prefix_canonical:
  "r_shortVec bs = Inr (n, rest) \<longleftrightarrow> bs = shortVec n @ rest \<and> n < 2097152"
  by (rule prefix.dec_iff)

end
