(* ===== verification/SolanaChecks.thy ===== *)
theory SolanaChecks
  imports SolanaPayment SolanaDemo
begin

text \<open>
  The properties of the payment transactions: what an accepted wallet answer contains, and that a
  payment built here and signed by its authority is accepted.
\<close>

section \<open>Signing what was built\<close>

text \<open>The documented law of the signature scheme: a signature is 64 bytes and verifies.\<close>

definition ed_laws :: "sol_env \<Rightarrow> bool" where
  "ed_laws env \<longleftrightarrow> (\<forall>msg secret. length (ed_sign env msg secret) = 64 \<and>
     ed_verify env (ed_sign env msg secret) msg (ed_public env secret))"

lemma payment_reads_back:
  assumes laws: "base58_laws env" and b: "buildSplTransferTransaction env p = Inr wire"
    and ixs: "paymentInstructions env p = Inr ixs"
    and sigs: "length sigs = length (payment_signers p)" "\<forall>s \<in> set sigs. length s = 64"
  shows "\<exists>message tx.
    wire = shortVec (length (payment_signers p)) @ replicate (64 * length (payment_signers p)) 0 @ message \<and>
    parseSolanaTransaction env (shortVec (length (payment_signers p)) @ concat sigs @ message) = Inr tx \<and>
    t_signatures tx = sigs \<and> t_message tx = message \<and> t_required tx = length (payment_signers p) \<and>
    t_keys tx = payment_keys p (pi_accounts (ixs ! 2) ! 0) (pi_accounts (ixs ! 2) ! 2) \<and>
    t_blockhash tx = recentBlockhash p \<and> t_instructions tx = ixs \<and> distinct (t_keys tx) \<and>
    t_readonlySigned tx = (if feePayer p = authority p then 0 else 1) \<and>
    t_readonlyUnsigned tx = length (payment_readonly p)"
proof -
  obtain limit price source destination where
    c: "checkPayment env p = Inr (limit, price)"
    and i: "ixs = [limit_instruction limit, price_instruction price, transfer_instruction p source destination] @
       (case memo p of None \<Rightarrow> [] | Some m \<Rightarrow> [memo_instruction m])"
    using ixs by (rule paymentInstructions_Inr)
  have acc: "pi_accounts (ixs ! 2) ! 0 = source" "pi_accounts (ixs ! 2) ! 2 = destination"
    by (simp_all add: i transfer_instruction_def)
  let ?keys = "payment_keys p source destination" and ?n = "length (payment_signers p)"
  let ?a = "if feePayer p = authority p then 0 else 1 :: nat" and ?r = "length (payment_readonly p)"
  obtain ks hash where ks: "map_throw (\<lambda>k. key_bytes env k ''account'') ?keys = Inr ks"
    and hash: "key_bytes env (recentBlockhash p) ''recentBlockhash'' = Inr hash"
    and wire: "wire = unsigned_wire ?n ?a ?r ?keys ks hash (map as_triple ixs)"
    and len: "length wire \<le> transaction_limit" and dist: "distinct ?keys"
    using b ixs by (auto simp: buildSplTransferTransaction_def Let_def acc split: if_splits)
  let ?msg = "unsigned_message ?n ?a ?r ?keys ks hash (map as_triple ixs)"
  have memb: "\<forall>(q, as, d) \<in> set (map as_triple ixs). q \<in> set ?keys \<and> set as \<subseteq> set ?keys"
    by (auto simp: i as_triple_def limit_instruction_def price_instruction_def transfer_instruction_def
        memo_instruction_def payment_keys_def payment_signers_def payment_readonly_def split: option.splits)
  have "map to_parsed (map as_triple ixs) = ixs" by (simp add: to_parsed_def as_triple_def map_idI)
  then have "parseSolanaTransaction env (shortVec ?n @ concat sigs @ ?msg) = Inr
    \<lparr>t_signatures = sigs, t_message = ?msg, t_required = ?n, t_readonlySigned = ?a, t_readonlyUnsigned = ?r,
     t_keys = ?keys, t_blockhash = recentBlockhash p, t_instructions = ixs\<rparr>"
    using parse_wire [OF laws ks hash len [unfolded wire], of sigs] sigs memb
    by (simp add: payment_keys_def payment_signers_def)
  moreover have "wire = shortVec ?n @ replicate (64 * ?n) 0 @ ?msg"
    by (simp add: wire unsigned_wire_def unsigned_message_def)
  ultimately show ?thesis using dist acc by auto
qed

lemma sign_then_verify:
  assumes laws: "base58_laws env" "ed_laws env"
    and b: "buildSplTransferTransaction env p = Inr wire"
    and own: "authority p = s58_encode env (ed_public env secret)"
  shows "\<exists>tx slot. parseSolanaTransaction env wire = Inr tx \<and> index_of (t_keys tx) (authority p) = Some slot \<and>
    verifySignedSplTransfer env (set_at (1 + 64 * slot) (ed_sign env (t_message tx) secret) wire) p al =
      Inr (s64_encode env (set_at (1 + 64 * slot) (ed_sign env (t_message tx) secret) wire))"
proof -
  obtain ixs where ixs: "paymentInstructions env p = Inr ixs"
    using b by (auto simp: buildSplTransferTransaction_def)
  obtain limit price source destination where c: "checkPayment env p = Inr (limit, price)"
    and i: "ixs = [limit_instruction limit, price_instruction price, transfer_instruction p source destination] @
       (case memo p of None \<Rightarrow> [] | Some m \<Rightarrow> [memo_instruction m])"
    using ixs by (rule paymentInstructions_Inr)
  have acc: "pi_accounts (ixs ! 2) = [source, mint p, destination, authority p]"
    by (simp add: i transfer_instruction_def)
  let ?n = "length (payment_signers p)" and ?slot = "length (payment_signers p) - 1"
  obtain msg tx where w: "wire = shortVec ?n @ replicate (64 * ?n) 0 @ msg"
    and tx: "parseSolanaTransaction env (shortVec ?n @ concat (replicate ?n (replicate 64 0)) @ msg) = Inr tx"
      "t_message tx = msg" "t_keys tx = payment_keys p source destination"
    using payment_reads_back [OF laws(1) b ixs, of "replicate ?n (replicate 64 0)"]
    by (auto simp: acc)
  have z: "concat (replicate ?n (replicate 64 (0 :: byte))) = replicate (64 * ?n) 0"
    by (simp add: payment_signers_def flip: replicate_add)
  have slot: "index_of (payment_keys p source destination) (authority p) = Some ?slot"
    by (simp add: payment_keys_def payment_signers_def)
  let ?sig = "ed_sign env msg secret"
  let ?sigs = "replicate ?slot (replicate 64 0) @ [?sig]"
  have l: "length ?sig = 64" using laws(2) by (simp add: ed_laws_def)
  have sv: "length (shortVec ?n) = 1" by (simp add: payment_signers_def shortVec_cases)
  have w': "set_at (1 + 64 * ?slot) ?sig wire = shortVec ?n @ concat ?sigs @ msg"
    using l by (simp add: w set_at_def payment_signers_def shortVec_cases)
  obtain msg' tx' where t': "wire = shortVec ?n @ replicate (64 * ?n) 0 @ msg'"
    "parseSolanaTransaction env (shortVec ?n @ concat ?sigs @ msg') = Inr tx'"
    "t_signatures tx' = ?sigs" "t_message tx' = msg'" "t_required tx' = ?n"
    "t_keys tx' = payment_keys p source destination" "t_blockhash tx' = recentBlockhash p"
    "t_instructions tx' = ixs" "distinct (t_keys tx')"
    "t_readonlySigned tx' = (if feePayer p = authority p then 0 else 1)"
    "t_readonlyUnsigned tx' = length (payment_readonly p)"
    using payment_reads_back [OF laws(1) b ixs, of ?sigs] l by (auto simp: acc payment_signers_def)
  have m: "msg' = msg" using t'(1) w by simp
  have perms: "isWritable tx' source" "isWritable tx' destination" "isSigner tx' (authority p)"
    using group_permissions [of "[feePayer p]" "if feePayer p = authority p then [] else [authority p]"
        "[source, destination]" "payment_readonly p" tx'] t'(5,6,9,10,11)
    by (auto simp: payment_keys_def payment_signers_def split: if_splits)
  have sgn: "verify_signer env tx' (authority p) = None"
  proof -
    obtain k where "key_bytes env (authority p) ''authority'' = Inr k" using checkPayment_Inr [OF c] by blast
    then have "key_bytes env (authority p) ''signer'' = Inr (ed_public env secret)"
      using laws(1) own by (auto simp: key_bytes_Inr base58_laws_def)
    then show ?thesis
      using slot t'(3,4,6) m laws(2) unfolding verify_signer_None
      by (simp add: ed_laws_def nth_append payment_signers_def)
  qed
  have "verifySignedSplTransfer env (shortVec ?n @ concat ?sigs @ msg) p al =
      Inr (s64_encode env (shortVec ?n @ concat ?sigs @ msg))"
    using ixs t' perms sgn m
    by (cases "memo p")
      (simp_all add: verifySignedSplTransfer_def i transfer_instruction_def max_instructions_def payment_keys_def
        payment_signers_def memo_instruction_def programs_differ throw_if_def split: if_splits)
  then show ?thesis using tx slot w' z w by auto
qed

section \<open>A concrete payment\<close>

lemma toy_ed_laws: "ed_laws toy_sol"
  by (auto simp: ed_laws_def toy_sol_def min_def)

definition demo_payment :: spl_payment where
  "demo_payment =
     \<lparr>feePayer = demo_key CHR ''f'', authority = demo_key CHR ''k'', sourceOwner = Some (demo_key CHR ''o''),
      mint = demo_key CHR ''m'', tokenProgram = token_program, decimals = 6, recipient = demo_key CHR ''r'',
      amount = 250, memo = Some ''order 7'', recentBlockhash = demo_key CHR ''h'',
      computeUnitLimit = None, computeUnitPrice = None\<rparr>"

definition demo_secret :: bytes where "demo_secret = utf8 (demo_key CHR ''k'')"

lemma demo_payment_builds: "\<exists>wire. buildSplTransferTransaction toy_sol demo_payment = Inr wire"
proof -
  have "case buildSplTransferTransaction toy_sol demo_payment of Inl _ \<Rightarrow> False | Inr _ \<Rightarrow> True" by code_simp
  then show ?thesis by (auto split: sum.splits)
qed

lemma demo_authority: "authority demo_payment = s58_encode toy_sol (ed_public toy_sol demo_secret)"
  by code_simp

section \<open>Properties\<close>

text \<open>
  C18: a wallet answer that \<open>verifySignedSplTransfer\<close> accepts moves exactly the agreed tokens: the
  parsed wire has the agreed fee payer and blockhash, its only token-program instruction is the
  expected TransferChecked (amount, mint, decimals, source and destination token accounts of the
  agreed parties), every other instruction is a compute-budget, memo or permitted Lighthouse
  one, and the signature of the paying authority verifies over the message in the wire.
\<close>

theorem accepted_payment_is_ours:
  assumes "verifySignedSplTransfer env wire p al = Inr encoded"
  shows "\<exists>tx source destination. encoded = s64_encode env wire \<and> parseSolanaTransaction env wire = Inr tx \<and>
    hd (t_keys tx) = feePayer p \<and> t_blockhash tx = recentBlockhash p \<and>
    associatedTokenAddress env (or_else (sourceOwner p) (authority p)) (mint p) (tokenProgram p) = Inr source \<and>
    associatedTokenAddress env (recipient p) (mint p) (tokenProgram p) = Inr destination \<and>
    filter (\<lambda>ix. is_token_program (pi_program ix)) (t_instructions tx) = [transfer_instruction p source destination] \<and>
    (\<forall>ix \<in> set (t_instructions tx). is_token_program (pi_program ix) \<or>
       pi_program ix = compute_budget_program \<or> pi_program ix = memo_program \<or>
       (al \<and> pi_program ix = lighthouse_program)) \<and>
    isSigner tx (authority p) \<and> verify_signer env tx (authority p) = None"
  by (rule verified_transfer [OF assms])

lemma accepted_payment_is_ours_witness:
  "\<exists>wire tx source destination. parseSolanaTransaction toy_sol wire = Inr tx \<and>
     filter (\<lambda>ix. is_token_program (pi_program ix)) (t_instructions tx) =
       [transfer_instruction demo_payment source destination] \<and> isSigner tx (authority demo_payment)"
proof -
  obtain wire where "buildSplTransferTransaction toy_sol demo_payment = Inr wire" using demo_payment_builds by blast
  from sign_then_verify [OF toy_sol_laws toy_ed_laws this demo_authority, of False]
  obtain w where "verifySignedSplTransfer toy_sol w demo_payment False = Inr (s64_encode toy_sol w)" by blast
  from accepted_payment_is_ours [OF this] show ?thesis by blast
qed

text \<open>
  Signing what was built works: the wire \<open>buildSplTransferTransaction\<close> returns parses, the payer
  has a signature slot in it, and with the payer's signature over the parsed message written into
  that slot the checker accepts it, so a payment is never refused because builder, parser and
  checker disagree about the layout.
\<close>

lemma built_payment_verifies:
  assumes "base58_laws env" "ed_laws env"
    and "buildSplTransferTransaction env p = Inr wire"
    and "authority p = s58_encode env (ed_public env secret)"
  shows "\<exists>tx slot. parseSolanaTransaction env wire = Inr tx \<and> index_of (t_keys tx) (authority p) = Some slot \<and>
    verifySignedSplTransfer env (set_at (1 + 64 * slot) (ed_sign env (t_message tx) secret) wire) p al =
      Inr (s64_encode env (set_at (1 + 64 * slot) (ed_sign env (t_message tx) secret) wire))"
  by (rule sign_then_verify [OF assms])

lemma built_payment_verifies_witness:
  "\<exists>wire tx slot. buildSplTransferTransaction toy_sol demo_payment = Inr wire \<and>
     parseSolanaTransaction toy_sol wire = Inr tx \<and> index_of (t_keys tx) (authority demo_payment) = Some slot"
proof -
  obtain wire where w: "buildSplTransferTransaction toy_sol demo_payment = Inr wire" using demo_payment_builds by blast
  from built_payment_verifies [OF toy_sol_laws toy_ed_laws w demo_authority, of False] w show ?thesis by blast
qed

lemma verified_owner:
  assumes "verifySignedOwnerTransaction env wire expected = Inr encoded"
  shows "\<exists>tx want k. encoded = s64_encode env wire \<and> parseSolanaTransaction env wire = Inr tx \<and>
    request_instruction env expected = Inr want \<and>
    t_required tx = 1 \<and> hd (t_keys tx) = r_owner (request_base expected) \<and>
    t_blockhash tx = r_blockhash (request_base expected) \<and>
    filter (\<lambda>ix. pi_program ix = pi_program want) (t_instructions tx) = [want] \<and>
    (\<forall>ix \<in> set (t_instructions tx). ix = want \<or> pi_program ix = compute_budget_program \<or>
       pi_program ix = lighthouse_program) \<and>
    key_bytes env (r_owner (request_base expected)) ''owner'' = Inr k \<and>
    ed_verify env (hd (t_signatures tx)) (t_message tx) k"
  using assms
  by (auto simp: verifySignedOwnerTransaction_def Let_def split: if_splits dest: count_ours_Inr)

end
