(* ===== verification/VoucherSafety.thy ===== *)
theory VoucherSafety
  imports VoucherKeys SolanaChecks
begin

text \<open>
  What a channel voucher key can issue: over any history the vouchers of a key form one strictly
  increasing sequence for one channel, within the policy and the deposit; every voucher returned is
  recorded and verifies; and an edited record neither signs nor lists.
\<close>

section \<open>One voucher\<close>

lemma next_cumulative_Inr:
  assumes "next_cumulative k channelId units now_ms = Inr (c, n)"
  shows "vk_status k = VkActive \<and> now_ms < vp_expiry (vk_policy k) * 1000 \<and> vk_channel k = Some c \<and>
    channelId = bc_channelId c \<and> 0 < units \<and> n = vk_lastCumulative k + units * vp_pricePerUnit (vk_policy k) \<and>
    vk_lastCumulative k < n \<and> n \<le> vk_lastCumulative k + vp_maxDelta (vk_policy k) \<and>
    n \<le> bc_maxCumulative c \<and> bc_maxCumulative c \<le> bc_deposit c"
  using assms by (auto simp: next_cumulative_def Let_def split: if_splits option.splits)

lemma voucher_change_Inr:
  assumes "voucher_change env cfg channelId units now_ms k = Inr ((v, s), k')"
  shows "\<exists>c secret. next_cumulative k channelId units now_ms = Inr (c, cv_cumulativeAmount v) \<and>
    v = \<lparr>cv_channelId = bc_channelId c, cv_cumulativeAmount = cv_cumulativeAmount v,
         cv_expiresAt = vp_expiry (vk_policy k)\<rparr> \<and>
    vk_open env cfg k = Inr secret \<and> s58_encode env (ed_public env secret) = vk_address k \<and>
    signVoucher env secret v = Inr s \<and> k' = k\<lparr>vk_lastCumulative := cv_cumulativeAmount v\<rparr>"
  using assms by (auto simp: voucher_change_def Let_def split: if_splits)

lemma bind_change_Inr:
  assumes "bind_change env cfg b slt nonce now_ms k = Inr (info, k')"
  shows "\<exists>kp bump. vk_channel k = None \<and> 0 < bc_deposit b \<and> bc_deposit b \<le> u64_max \<and>
    deriveChannelPda env (channel_identity k b) = Inr (bc_channelId b, bump) \<and>
    k' = k\<lparr>vk_channel := Some (bound_to k b), vk_keyPair := kp\<rparr>"
  using assms by (auto simp: bind_change_def Let_def split: if_splits)

lemma bound_to_fields [simp]:
  "bc_channelId (bound_to k b) = bc_channelId b" "bc_deposit (bound_to k b) = bc_deposit b"
  "bc_openSlot (bound_to k b) = bc_openSlot b" "bc_salt (bound_to k b) = bc_salt b"
  "bc_maxCumulative (bound_to k b) = min (vp_maxCumulative (vk_policy k)) (bc_deposit b)"
  by (simp_all add: bound_to_def channel_binding.defs bound_channel.defs min_def)

lemma channel_identity_bound: "channel_identity k (bound_to k b) = channel_identity k b"
  by (simp add: channel_identity_def)

lemma channel_identity_cong:
  "vk_policy k' = vk_policy k \<Longrightarrow> vk_address k' = vk_address k \<Longrightarrow> channel_identity k' c = channel_identity k c"
  by (simp add: channel_identity_def)

section \<open>The sequence of vouchers of a key\<close>

definition voucher_sequence :: "int \<Rightarrow> channel_voucher list \<Rightarrow> bool" where
  "voucher_sequence delta vs \<longleftrightarrow>
     successively (\<lambda>x y. x < y \<and> y \<le> x + delta) (0 # map cv_cumulativeAmount vs)"

definition vouchers_ok :: "sol_env \<Rightarrow> voucher_key \<Rightarrow> channel_voucher list \<Rightarrow> bool" where
  "vouchers_ok env k vs \<longleftrightarrow>
     vk_lastCumulative k = last (0 # map cv_cumulativeAmount vs) \<and>
     voucher_sequence (vp_maxDelta (vk_policy k)) vs \<and>
     (vk_channel k = None \<longrightarrow> vs = []) \<and>
     (\<forall>c. vk_channel k = Some c \<longrightarrow>
        bc_maxCumulative c = min (vp_maxCumulative (vk_policy k)) (bc_deposit c) \<and>
        (\<exists>bump. deriveChannelPda env (channel_identity k c) = Inr (bc_channelId c, bump)) \<and>
        (\<forall>v \<in> set vs. cv_channelId v = bc_channelId c \<and> cv_cumulativeAmount v \<le> bc_maxCumulative c \<and>
           cv_expiresAt v = vp_expiry (vk_policy k)))"

lemma voucher_sequence_snoc:
  "voucher_sequence d (vs @ [v]) \<longleftrightarrow>
     voucher_sequence d vs \<and> last (0 # map cv_cumulativeAmount vs) < cv_cumulativeAmount v \<and>
     cv_cumulativeAmount v \<le> last (0 # map cv_cumulativeAmount vs) + d"
  using successively_append_iff [of "\<lambda>x y. x < y \<and> y \<le> x + d" "0 # map cv_cumulativeAmount vs" "[cv_cumulativeAmount v]"]
  by (simp add: voucher_sequence_def)

lemma vouchers_ok_status: "vouchers_ok env (k\<lparr>vk_status := st\<rparr>) vs = vouchers_ok env k vs"
  by (simp add: vouchers_ok_def channel_identity_def)

lemma vouchers_ok_bind:
  assumes "vouchers_ok env k vs" "bind_change env cfg b slt nonce now_ms k = Inr (info, k')"
  shows "vouchers_ok env k' vs"
proof -
  obtain kp bump where b: "vk_channel k = None" "deriveChannelPda env (channel_identity k b) = Inr (bc_channelId b, bump)"
    "k' = k\<lparr>vk_channel := Some (bound_to k b), vk_keyPair := kp\<rparr>"
    using bind_change_Inr [OF assms(2)] by blast
  have "vs = []" using assms(1) b(1) by (simp add: vouchers_ok_def)
  moreover have "channel_identity k' (bound_to k b) = channel_identity k b"
    using channel_identity_cong [of k' k "bound_to k b"] b(3) by (simp add: channel_identity_bound)
  ultimately show ?thesis using assms(1) b by (simp add: vouchers_ok_def)
qed

lemma vouchers_ok_sign:
  assumes "vouchers_ok env k vs" "voucher_change env cfg channelId units now_ms k = Inr ((v, s), k')"
  shows "vouchers_ok env k' (vs @ [v])"
proof -
  obtain c where n: "next_cumulative k channelId units now_ms = Inr (c, cv_cumulativeAmount v)"
    and v: "v = \<lparr>cv_channelId = bc_channelId c, cv_cumulativeAmount = cv_cumulativeAmount v,
         cv_expiresAt = vp_expiry (vk_policy k)\<rparr>"
    and k': "k' = k\<lparr>vk_lastCumulative := cv_cumulativeAmount v\<rparr>"
    using voucher_change_Inr [OF assms(2)] by blast
  note n' = next_cumulative_Inr [OF n]
  have f: "cv_channelId v = bc_channelId c" "cv_expiresAt v = vp_expiry (vk_policy k)"
    by (subst v, simp)+
  have i: "channel_identity k' c = channel_identity k c" by (simp add: k' channel_identity_def)
  show ?thesis
    using assms(1) n' f i unfolding vouchers_ok_def by (auto simp: k' voucher_sequence_snoc)
qed

section \<open>Histories\<close>

record voucher_world =
  vw_store :: "voucher_key adapter"
  vw_issued :: "(string \<times> channel_voucher) list"

inductive voucher_step :: "sol_env \<Rightarrow> voucher_config \<Rightarrow> voucher_world \<Rightarrow> voucher_world \<Rightarrow> bool" for env cfg where
  create: "vk_create env cfg p en (vw_store w) = Inr (info, a') \<Longrightarrow>
    find_rec vk_id (ve_id en) (table (vw_store w)) = None \<Longrightarrow> voucher_step env cfg w (w\<lparr>vw_store := a'\<rparr>)"
| bind: "vk_bindChannel env cfg kid b slt nonce now (vw_store w) = Inr (info, a') \<Longrightarrow>
    voucher_step env cfg w (w\<lparr>vw_store := a'\<rparr>)"
| revoke: "vk_revoke kid (vw_store w) = Inr (u, a') \<Longrightarrow> voucher_step env cfg w (w\<lparr>vw_store := a'\<rparr>)"
| sign: "vk_signVoucher env cfg kid channelId units now (vw_store w) = Inr ((v, s), a') \<Longrightarrow>
    voucher_step env cfg w \<lparr>vw_store = a', vw_issued = vw_issued w @ [(kid, v)]\<rparr>"

inductive_cases voucher_stepE: "voucher_step env cfg w w'"

abbreviation voucher_book :: "sol_env \<Rightarrow> voucher_world \<Rightarrow> bool" where
  "voucher_book env w \<equiv> book_ok vk_id (vouchers_ok env) (vw_store w) (vw_issued w)"

lemma create_fresh:
  assumes "vk_create env cfg p en a = Inr (info, a')"
  shows "\<exists>k. table a' = table a @ [k] \<and> vk_id k = ve_id en \<and> vouchers_ok env k []"
  using assms
  by (auto simp: vk_create_def Let_def vouchers_ok_def voucher_sequence_def split: option.splits dest!: rec_push_Inr)

lemma step_book:
  assumes "voucher_step env cfg w w'" "voucher_book env w"
  shows "voucher_book env w'"
  using assms(1)
proof cases
  case (create p en info a')
  obtain k where "table a' = table (vw_store w) @ [k]" "vk_id k = ve_id en" "vouchers_ok env k []"
    using create_fresh [OF create(2)] by blast
  then show ?thesis using book_push [OF assms(2)] create by simp
next
  case (bind kid b slt nonce now info a')
  then show ?thesis
    using book_update [OF bind(2) [unfolded vk_bindChannel_def] assms(2), of "[]"] bind_change_Inr vouchers_ok_bind
    by fastforce
next
  case (revoke kid u a')
  then show ?thesis
    using book_update [OF revoke(2) [unfolded vk_revoke_def] assms(2), of "[]"] by (auto simp: vouchers_ok_status)
next
  case (sign kid channelId units now v s a')
  have "vk_id k' = vk_id k \<and> vouchers_ok env k' (vs @ [v])"
    if "voucher_change env cfg channelId units now k = Inr ((v, s), k')" "vouchers_ok env k vs" for k k' vs
    using voucher_change_Inr [OF that(1)] vouchers_ok_sign [OF that(2,1)] by auto
  then show ?thesis
    using book_update [OF sign(2) [unfolded vk_signVoucher_def] assms(2), of "[(kid, v)]"] voucher_change_Inr sign(1)
    by fastforce
qed

lemma run_book: "(voucher_step env cfg)\<^sup>*\<^sup>* w w' \<Longrightarrow> voucher_book env w \<Longrightarrow> voucher_book env w'"
  by (induction rule: rtranclp_induct) (auto intro: step_book)

section \<open>The seal\<close>

lemma channel_facts_inj:
  assumes "channel_facts a = channel_facts b"
  shows "a = b"
proof (cases a)
  case None
  then show ?thesis using assms by (auto simp: channel_facts_def json_opt_def split: option.splits)
next
  case (Some c)
  then obtain d where d: "b = Some d" using assms by (auto simp: channel_facts_def json_opt_def split: option.splits)
  then show ?thesis using assms Some
    by (auto simp: channel_facts_def json_opt_def dest!: show_int_inj intro!: bound_channel.equality)
qed

lemma key_facts_inj:
  assumes "key_facts k = key_facts k'"
  shows "vk_kind k = vk_kind k' \<and> vk_id k = vk_id k' \<and> vk_address k = vk_address k' \<and>
    vk_policy k = vk_policy k' \<and> vk_channel k = vk_channel k'"
  using assms
  by (auto simp: key_facts_def voucher_facts_def dest!: show_int_inj channel_facts_inj intro!: voucher_policy.equality)

lemma altered_voucher_key:
  assumes "gcm_binds (s_crypto env)" "hash_lengths (s_crypto env)"
    and "facts_apart (s_crypto env) (key_facts k) (key_facts k')" "key_facts k' \<noteq> key_facts k"
    and "vk_seal env cfg secret slt nonce (key_facts k) = Inr (vk_keyPair k)" "vk_keyPair k' = vk_keyPair k"
  shows "\<exists>e. vk_open env cfg k' = Inl e"
  using altered_facts [OF assms(1-4) assms(5) [unfolded vk_seal_def from_vault_Inr], of None]
  by (auto simp: vk_open_def Let_def assms(6))

lemma list_needs_all:
  assumes "rec_loadAll a = Inr ks" "k \<in> set ks" "vk_open env cfg k = Inl e"
  shows "\<exists>e'. vk_list env cfg now a = Inl e'"
proof -
  have "\<exists>e'. map_throw (vk_open env cfg) ks = Inl e'"
    using assms(2,3) unfolding in_set_conv_nth
    by (cases "map_throw (vk_open env cfg) ks") (auto simp: map_throw_Inr)
  then show ?thesis using assms(1) by (auto simp: vk_list_def)
qed

section \<open>A returned voucher verifies\<close>

lemma deriveChannelPda_signer:
  "deriveChannelPda env i = Inr r \<Longrightarrow> \<exists>b. s58_decode env (ci_authorizedSigner i) = Some b \<and> length b = 32"
  by (auto simp: deriveChannelPda_def key_bytes_Inr)

lemma signVoucher_verifies:
  assumes laws: "base58_laws env" "ed_laws env"
    and "signVoucher env secret v = Inr s" "s58_encode env (ed_public env secret) = signer"
    and "s58_decode env signer = Some b" "length b = 32"
  shows "verifyVoucher env s signer v"
proof -
  have "b = ed_public env secret" using laws(1) assms(4,5) unfolding base58_laws_def by (metis option.inject)
  moreover obtain m where "encodeChannelVoucher env v = Inr m" "s = ed_sign env m secret"
    using assms(3) by (auto simp: signVoucher_def split: if_splits)
  moreover have "ed_verify env (ed_sign env m secret) m (ed_public env secret)"
    using laws(2) by (simp add: ed_laws_def)
  moreover have "key_bytes env signer ''authorizedSigner'' = Inr b" using assms(5,6) by (simp add: key_bytes_Inr)
  ultimately show ?thesis by (simp add: verifyVoucher_def)
qed

section \<open>A concrete key\<close>

definition demo_vk_cfg :: voucher_config where
  "demo_vk_cfg = \<lparr>vc_encryptionKey = ''pw'', vc_iterations = None, vc_allowWeakKdf = False,
     vc_overrides = [(''solana:'' @ replicate 32 CHR ''g'', channel_program)]\<rparr>"

definition demo_vk_policy :: voucher_policy where
  "demo_vk_policy = \<lparr>vp_cluster = ''solana:'' @ replicate 32 CHR ''g'', vp_channelProgram = channel_program,
     vp_payer = sol_addr CHR ''p'', vp_mint = sol_addr CHR ''m'', vp_payee = sol_addr CHR ''q'',
     vp_pricePerUnit = 10, vp_maxCumulative = 1000, vp_maxDelta = 300, vp_expiry = 5000\<rparr>"

definition demo_vk_secret :: bytes where "demo_vk_secret = utf8 (sol_addr CHR ''k'')"

definition demo_identity :: channel_pda_input where
  "demo_identity = \<lparr>ci_programAddress = Some channel_program, ci_payer = sol_addr CHR ''p'',
     ci_payee = sol_addr CHR ''q'', ci_mint = sol_addr CHR ''m'', ci_authorizedSigner = sol_addr CHR ''k'',
     ci_salt = 9, ci_openSlot = 7\<rparr>"

definition demo_channel_id :: string where
  "demo_channel_id = (case deriveChannelPda toy_sol demo_identity of Inl _ \<Rightarrow> [] | Inr (x, _) \<Rightarrow> x)"

definition demo_bound :: bound_channel where
  "demo_bound = \<lparr>bc_channelId = demo_channel_id, bc_deposit = 800, bc_openSlot = 7, bc_salt = 9,
     bc_maxCumulative = 800\<rparr>"

definition demo_vk :: "encrypted_key_pair \<Rightarrow> voucher_key" where
  "demo_vk kp = \<lparr>vk_id = ''id1'', vk_address = sol_addr CHR ''k'', vk_policy = demo_vk_policy, vk_status = VkActive,
     vk_channel = Some demo_bound, vk_lastCumulative = 0, vk_createdAt = 1000, vk_kind = record_kind, vk_keyPair = kp\<rparr>"

abbreviation demo_vk_store :: "encrypted_key_pair \<Rightarrow> voucher_key adapter" where
  "demo_vk_store kp \<equiv> \<lparr>raw = Saved [demo_vk kp], accepts = True\<rparr>"

lemma demo_derived: "\<exists>bump. deriveChannelPda toy_sol demo_identity = Inr (demo_channel_id, bump)"
proof -
  have "case deriveChannelPda toy_sol demo_identity of Inl _ \<Rightarrow> False | Inr _ \<Rightarrow> True" by code_simp
  then show ?thesis by (auto simp: demo_channel_id_def split: sum.splits)
qed

lemma demo_vk_ok: "vouchers_ok toy_sol (demo_vk kp) []"
proof -
  have "channel_identity (demo_vk kp) demo_bound = demo_identity"
    by (simp add: channel_identity_def demo_vk_def demo_vk_policy_def demo_bound_def demo_identity_def)
  then show ?thesis
    using demo_derived
    by (simp add: vouchers_ok_def voucher_sequence_def demo_vk_def demo_bound_def demo_vk_policy_def)
qed

lemma demo_vk_facts: "key_facts (demo_vk kp) = key_facts (demo_vk kp')"
  by (simp add: key_facts_def demo_vk_def)

lemma demo_vk_sealed:
  "\<exists>kp. vk_seal toy_sol demo_vk_cfg demo_vk_secret [1] [2] (key_facts (demo_vk kp)) = Inr kp"
proof -
  obtain kp where kp: "vk_seal toy_sol demo_vk_cfg demo_vk_secret [1] [2] (key_facts (demo_vk undefined)) = Inr kp"
    using seals [of "s_crypto toy_sol" demo_vk_secret "''pw''" "[1]" "[2]" _ False]
    by (auto simp: vk_seal_def demo_vk_cfg_def)
  then show ?thesis using demo_vk_facts [of undefined kp] by (intro exI [of _ kp]) simp
qed

lemma demo_vk_opens:
  assumes "vk_seal toy_sol demo_vk_cfg demo_vk_secret [1] [2] (key_facts (demo_vk kp)) = Inr kp"
  shows "vk_open toy_sol demo_vk_cfg (demo_vk kp) = Inr demo_vk_secret"
proof -
  have "vk_keyPair (demo_vk kp) = kp" by (simp add: demo_vk_def)
  then show ?thesis
    using sealed_opens [OF toy_sol_crypto(1) assms [unfolded vk_seal_def from_vault_Inr], of None]
    by (simp add: vk_open_def demo_vk_cfg_def)
qed

lemma demo_vk_signs:
  "\<exists>kp v s a'. vk_seal toy_sol demo_vk_cfg demo_vk_secret [1] [2] (key_facts (demo_vk kp)) = Inr kp \<and>
     vk_signVoucher toy_sol demo_vk_cfg ''id1'' demo_channel_id 25 2000000 (demo_vk_store kp) = Inr ((v, s), a') \<and>
     cv_cumulativeAmount v = 250"
proof -
  obtain kp where kp: "vk_seal toy_sol demo_vk_cfg demo_vk_secret [1] [2] (key_facts (demo_vk kp)) = Inr kp"
    using demo_vk_sealed by blast
  note o = demo_vk_opens [OF kp]
  have n: "next_cumulative (demo_vk kp) demo_channel_id 25 2000000 = Inr (demo_bound, 250)"
    by (simp add: next_cumulative_def demo_vk_def demo_vk_policy_def demo_bound_def u64_max_def
        signed_divide_int_def Let_def)
  have k: "s58_encode toy_sol (ed_public toy_sol demo_vk_secret) = sol_addr CHR ''k''" by code_simp
  have "case signVoucher toy_sol demo_vk_secret
      \<lparr>cv_channelId = demo_channel_id, cv_cumulativeAmount = 250, cv_expiresAt = 5000\<rparr> of
      Inl _ \<Rightarrow> False | Inr _ \<Rightarrow> True"
    by code_simp
  then obtain sig where sig: "signVoucher toy_sol demo_vk_secret
      \<lparr>cv_channelId = demo_channel_id, cv_cumulativeAmount = 250, cv_expiresAt = 5000\<rparr> = Inr sig"
    by (auto split: sum.splits)
  have f: "find_rec vk_id ''id1'' [demo_vk kp] = Some (demo_vk kp)" by (simp add: find_rec_def demo_vk_def)
  have p: "vp_expiry (vk_policy (demo_vk kp)) = 5000" "vk_address (demo_vk kp) = sol_addr CHR ''k''"
    "bc_channelId demo_bound = demo_channel_id"
    by (simp_all add: demo_vk_def demo_vk_policy_def demo_bound_def)
  show ?thesis
    by (intro exI [of _ kp] exI [of _ "\<lparr>cv_channelId = demo_channel_id, cv_cumulativeAmount = 250, cv_expiresAt = 5000\<rparr>"]
        exI [of _ sig])
      (use kp o n k sig f p in \<open>auto simp: vk_signVoucher_def rec_update_def rec_loadAll_def rec_saveAll_def
        own_change_def voucher_change_def Let_def\<close>)
qed

section \<open>Properties\<close>

text \<open>
  C25: the vouchers of a key form one sequence for one channel: after any history of creations,
  bindings, signatures and revocations, the cumulative amounts returned under a key strictly
  increase, each by at most \<open>maxDelta\<close>; the last one is the amount the record holds; all name the
  channel derived from the policy and the key, expire with the policy and stay within the policy's
  limit and the deposit.
\<close>

theorem vouchers_form_one_sequence:
  assumes "(voucher_step env cfg)\<^sup>*\<^sup>* w w'" "voucher_book env w"
    and "find_rec vk_id kid (table (vw_store w')) = Some k"
  shows "vouchers_ok env k (issued_by kid (vw_issued w'))"
  by (rule book_found [OF run_book [OF assms(1,2)] assms(3)])

lemma vouchers_form_one_sequence_witness:
  "\<exists>(w :: voucher_world) k. vouchers_ok toy_sol k (issued_by ''id1'' (vw_issued w)) \<and>
     vk_lastCumulative k = 250 \<and> length (vw_issued w) = 1"
proof -
  obtain kp v s a' where sgn: "vk_signVoucher toy_sol demo_vk_cfg ''id1'' demo_channel_id 25 2000000 (demo_vk_store kp)
      = Inr ((v, s), a')" "cv_cumulativeAmount v = 250" using demo_vk_signs by blast
  let ?w = "\<lparr>vw_store = demo_vk_store kp, vw_issued = []\<rparr>"
  let ?w' = "\<lparr>vw_store = a', vw_issued = [(''id1'', v)]\<rparr>"
  have "voucher_step toy_sol demo_vk_cfg ?w ?w'"
    using voucher_step.sign [of toy_sol demo_vk_cfg "''id1''" demo_channel_id 25 2000000 ?w v s a'] sgn(1) by simp
  then have run: "(voucher_step toy_sol demo_vk_cfg)\<^sup>*\<^sup>* ?w ?w'" by blast
  have book: "voucher_book toy_sol ?w"
    using demo_vk_ok by (auto simp: book_ok_def table_def find_rec_def)
  obtain k k' where k: "voucher_change toy_sol demo_vk_cfg demo_channel_id 25 2000000 k = Inr ((v, s), k')"
    "table a' = put_rec vk_id k' (table (demo_vk_store kp))" "find_rec vk_id ''id1'' (table (demo_vk_store kp)) = Some k"
    using own_update_Inr [OF sgn(1) [unfolded vk_signVoucher_def]] by blast
  have k': "vk_id k' = ''id1''" "vk_lastCumulative k' = 250"
    using voucher_change_Inr [OF k(1)] find_rec_key [OF k(3)] sgn(2) by auto
  then have "find_rec vk_id ''id1'' (table (vw_store ?w')) = Some k'" using k(2) by (simp add: find_put_rec)
  from vouchers_form_one_sequence [OF run book this] k'(2) show ?thesis
    by (intro exI [of _ ?w'] exI [of _ k']) simp
qed

text \<open>
  A returned voucher was allowed, verifies and is recorded: the key was active and unexpired and
  bound to the named channel, the amount is the last recorded one plus the price of the units and
  within every limit, the signature verifies under the key's address, and the record saved before
  the return holds the new amount.
\<close>

lemma voucher_signed_safely:
  assumes "base58_laws env" "ed_laws env"
    and "find_rec vk_id kid (table a) = Some k" "vouchers_ok env k vs"
    and "vk_signVoucher env cfg kid channelId units now_ms a = Inr ((v, s), a')"
  shows "\<exists>c k'. vk_status k = VkActive \<and> now_ms < vp_expiry (vk_policy k) * 1000 \<and> vk_channel k = Some c \<and>
    channelId = bc_channelId c \<and> cv_channelId v = channelId \<and> cv_expiresAt v = vp_expiry (vk_policy k) \<and>
    cv_cumulativeAmount v = vk_lastCumulative k + units * vp_pricePerUnit (vk_policy k) \<and>
    vk_lastCumulative k < cv_cumulativeAmount v \<and>
    cv_cumulativeAmount v \<le> vk_lastCumulative k + vp_maxDelta (vk_policy k) \<and>
    cv_cumulativeAmount v \<le> vp_maxCumulative (vk_policy k) \<and> cv_cumulativeAmount v \<le> bc_deposit c \<and>
    verifyVoucher env s (vk_address k) v \<and>
    find_rec vk_id kid (table a') = Some k' \<and> k' = k\<lparr>vk_lastCumulative := cv_cumulativeAmount v\<rparr>"
proof -
  obtain k' where k: "voucher_change env cfg channelId units now_ms k = Inr ((v, s), k')"
    "table a' = put_rec vk_id k' (table a)"
    using own_update_Inr [OF assms(5) [unfolded vk_signVoucher_def]] assms(3) by auto
  obtain c secret where n: "next_cumulative k channelId units now_ms = Inr (c, cv_cumulativeAmount v)"
    and v: "v = \<lparr>cv_channelId = bc_channelId c, cv_cumulativeAmount = cv_cumulativeAmount v,
         cv_expiresAt = vp_expiry (vk_policy k)\<rparr>"
    and sgn: "s58_encode env (ed_public env secret) = vk_address k" "signVoucher env secret v = Inr s"
    and k': "k' = k\<lparr>vk_lastCumulative := cv_cumulativeAmount v\<rparr>"
    using voucher_change_Inr [OF k(1)] by blast
  note n' = next_cumulative_Inr [OF n]
  have ok: "bc_maxCumulative c = min (vp_maxCumulative (vk_policy k)) (bc_deposit c)"
    "\<exists>bump. deriveChannelPda env (channel_identity k c) = Inr (bc_channelId c, bump)"
    using assms(4) n' unfolding vouchers_ok_def by blast+
  have "\<exists>b. s58_decode env (vk_address k) = Some b \<and> length b = 32"
    using ok(2) deriveChannelPda_signer by (fastforce simp: channel_identity_def)
  then have "verifyVoucher env s (vk_address k) v" using signVoucher_verifies [OF assms(1,2) sgn(2,1)] by blast
  moreover have "find_rec vk_id kid (table a') = Some k'"
    using k(2) k' find_rec_key [OF assms(3)] by (simp add: find_put_rec)
  moreover have "cv_channelId v = bc_channelId c" "cv_expiresAt v = vp_expiry (vk_policy k)" by (subst v, simp)+
  ultimately show ?thesis using n' ok(1) k' by (intro exI [of _ c] exI [of _ k']) auto
qed

lemma voucher_signed_safely_witness:
  "\<exists>v s. verifyVoucher toy_sol s (sol_addr CHR ''k'') v \<and> cv_cumulativeAmount v = 250"
proof -
  obtain kp v s a' where sgn: "vk_signVoucher toy_sol demo_vk_cfg ''id1'' demo_channel_id 25 2000000 (demo_vk_store kp)
      = Inr ((v, s), a')" "cv_cumulativeAmount v = 250" using demo_vk_signs by blast
  have "find_rec vk_id ''id1'' (table (demo_vk_store kp)) = Some (demo_vk kp)"
    by (simp add: table_def find_rec_def demo_vk_def)
  from voucher_signed_safely [OF toy_sol_laws toy_ed_laws this demo_vk_ok sgn(1)] sgn(2)
  show ?thesis by (auto simp: demo_vk_def)
qed

text \<open>
  A sealed voucher key is bound to its policy and its channel: when the secret was sealed under
  one set of facts and the stored record shows another policy, channel, address or identifier,
  the key does not open, no voucher is signed with it, and no list that contains it is returned.
\<close>

lemma voucher_record_bound:
  assumes "gcm_binds (s_crypto env)" "hash_lengths (s_crypto env)"
    and "facts_apart (s_crypto env) (key_facts k) (key_facts k')"
    and "vk_seal env cfg secret slt nonce (key_facts k) = Inr (vk_keyPair k)" "vk_keyPair k' = vk_keyPair k"
    and "(vk_id k', vk_address k', vk_policy k', vk_channel k') \<noteq> (vk_id k, vk_address k, vk_policy k, vk_channel k)"
  shows "(\<forall>channelId units now. \<exists>e. voucher_change env cfg channelId units now k' = Inl e) \<and>
    (\<forall>a ks now. rec_loadAll a = Inr ks \<longrightarrow> k' \<in> set ks \<longrightarrow> (\<exists>e. vk_list env cfg now a = Inl e))"
proof -
  have "key_facts k' \<noteq> key_facts k" using assms(6) key_facts_inj [of k' k] by auto
  from altered_voucher_key [OF assms(1-3) this assms(4,5)]
  obtain e where e: "vk_open env cfg k' = Inl e" by blast
  have "\<exists>e. voucher_change env cfg channelId units now k' = Inl e" for channelId units now
    using e by (cases "next_cumulative k' channelId units now") (auto simp: voucher_change_def Let_def)
  then show ?thesis using list_needs_all e by blast
qed

lemma voucher_record_bound_witness:
  "\<exists>kp. \<exists>e. voucher_change toy_sol demo_vk_cfg demo_channel_id 25 2000000
     ((demo_vk kp)\<lparr>vk_policy := demo_vk_policy\<lparr>vp_maxCumulative := 50000\<rparr>\<rparr>) = Inl e"
proof -
  obtain kp where kp: "vk_seal toy_sol demo_vk_cfg demo_vk_secret [1] [2] (key_facts (demo_vk kp)) = Inr kp"
    using demo_vk_sealed by blast
  let ?k = "demo_vk kp" and ?k' = "(demo_vk kp)\<lparr>vk_policy := demo_vk_policy\<lparr>vp_maxCumulative := 50000\<rparr>\<rparr>"
  have "(\<forall>channelId units now. \<exists>e. voucher_change toy_sol demo_vk_cfg channelId units now ?k' = Inl e) \<and>
    (\<forall>a ks now. rec_loadAll a = Inr ks \<longrightarrow> ?k' \<in> set ks \<longrightarrow> (\<exists>e. vk_list toy_sol demo_vk_cfg now a = Inl e))"
  proof (rule voucher_record_bound [OF toy_sol_crypto(2,3)])
    show "facts_apart (s_crypto toy_sol) (key_facts ?k) (key_facts ?k')"
      by (rule facts_apart_length) code_simp
    show "vk_seal toy_sol demo_vk_cfg demo_vk_secret [1] [2] (key_facts ?k) = Inr (vk_keyPair ?k)"
      using kp by (simp add: demo_vk_def)
  qed (simp_all add: demo_vk_def demo_vk_policy_def)
  then show ?thesis by blast
qed

text \<open>
  A voucher message means one voucher: the encoding is 50 bytes, and two vouchers with one
  encoding are the same voucher, so a signature over it can not be read as another channel,
  amount or expiry.
\<close>

lemma voucher_unambiguous:
  assumes "base58_laws env" "encodeChannelVoucher env v = Inr b" "encodeChannelVoucher env v' = Inr b"
  shows "v = v' \<and> length b = 50"
  by (rule voucher_inj [OF assms])

lemma voucher_unambiguous_witness:
  "\<exists>b. encodeChannelVoucher toy_sol
     \<lparr>cv_channelId = sol_addr CHR ''c'', cv_cumulativeAmount = 250, cv_expiresAt = - 1\<rparr> = Inr b \<and> length b = 50"
proof -
  let ?v = "\<lparr>cv_channelId = sol_addr CHR ''c'', cv_cumulativeAmount = 250, cv_expiresAt = - 1\<rparr>"
  have "case encodeChannelVoucher toy_sol ?v of Inl _ \<Rightarrow> False | Inr _ \<Rightarrow> True" by code_simp
  then obtain b where b: "encodeChannelVoucher toy_sol ?v = Inr b" by (auto split: sum.splits)
  from voucher_unambiguous [OF toy_sol_laws b b] b show ?thesis by blast
qed

end
