(* ===== verification/SolanaSafety.thy ===== *)
theory SolanaSafety
  imports SolanaKeys SolanaChecks
begin

text \<open>
  What a Solana session key can do: the limits of its scope hold over any history of calls, each
  returned transaction is accounted and pays only what the scope allows, and a sealed key is
  bound to every fact the owner approved.
\<close>

section \<open>One payment on the record\<close>

lemma sol_check_None:
  "sol_check k pay t1 t2 = None \<longleftrightarrow>
     sk_status k = SolActive \<and> t1 < ss_expiry (sk_scope k) * 1000 \<and>
     sp_recipient pay \<in> set (ss_allowedRecipients (sk_scope k)) \<and> 0 < sp_amount pay \<and>
     sp_amount pay \<le> ss_maxPerPayment (sk_scope k) \<and> sk_spent k + sp_amount pay \<le> ss_budget (sk_scope k) \<and>
     checkPeriod k (sp_amount pay) t2 = None \<and>
     (\<forall>n. ss_maxTxCount (sk_scope k) = Some n \<longrightarrow> sk_useCount k < n) \<and>
     sp_feePayer pay \<noteq> sk_address k \<and> sp_feePayer pay \<noteq> sk_owner k"
  by (auto simp: sol_check_def Let_def split: option.splits)

lemma accountPeriod_Inr:
  "accountPeriod k amt t = Inr k' \<Longrightarrow>
     sk_id k' = sk_id k \<and> sk_scope k' = sk_scope k \<and> sk_status k' = sk_status k \<and> sk_spent k' = sk_spent k \<and>
     sk_useCount k' = sk_useCount k \<and> sk_owner k' = sk_owner k \<and> sk_address k' = sk_address k \<and>
     sk_keyPair k' = sk_keyPair k \<and> sk_tokenProgram k' = sk_tokenProgram k \<and> sk_decimals k' = sk_decimals k"
  by (auto simp: accountPeriod_def split: option.splits)

lemma sign_change_Inr:
  assumes "sign_change env cfg pay blockhash clk k = Inr (tx, k')"
  shows "sol_check k pay (lk_expiry clk) (lk_period clk) = None \<and>
    sign_built env cfg k (built_payment k pay blockhash) = Inr tx \<and>
    sk_id k' = sk_id k \<and> sk_scope k' = sk_scope k \<and> sk_status k' = sk_status k \<and>
    sk_spent k' = sk_spent k + sp_amount pay \<and> sk_useCount k' = sk_useCount k + 1"
  using assms by (auto simp: sign_change_def split: option.splits dest: accountPeriod_Inr)

text \<open>What can happen to a record: a payment, or a change of its status.\<close>

inductive sol_key_step :: "sol_env \<Rightarrow> sol_config \<Rightarrow> sol_key \<Rightarrow> sol_key \<Rightarrow> bool" for env cfg where
  pay: "sign_change env cfg p blockhash clk k = Inr (tx, k') \<Longrightarrow> sol_key_step env cfg k k'"
| restatus: "sol_key_step env cfg k (k\<lparr>sk_status := st\<rparr>)"

inductive_cases sol_key_stepE: "sol_key_step env cfg k k'"

interpretation sol_total: budget sk_spent "\<lambda>k. Some (ss_budget (sk_scope k))" "sol_key_step env cfg" for env cfg
  by unfold_locales
    (auto elim!: sol_key_stepE dest!: sign_change_Inr simp: sol_check_None)

interpretation sol_count: budget sk_useCount "\<lambda>k. ss_maxTxCount (sk_scope k)" "sol_key_step env cfg" for env cfg
  by unfold_locales
    (auto elim!: sol_key_stepE dest!: sign_change_Inr simp: sol_check_None)

section \<open>Histories\<close>

record sol_entry =
  le_id :: string
  le_recipient :: string
  le_amount :: int

text \<open>The stored records and the payments whose transaction was returned to a caller.\<close>

record sol_world =
  w_store :: "sol_key adapter"
  w_paid :: "sol_entry list"

inductive sol_step :: "sol_env \<Rightarrow> sol_config \<Rightarrow> sol_world \<Rightarrow> sol_world \<Rightarrow> bool" for env cfg where
  create: "sol_createSessionKey env cfg s owner rpc now en (w_store w) = Inr (info, a') \<Longrightarrow>
    find_rec sk_id (en_id en) (table (w_store w)) = None \<Longrightarrow> sol_step env cfg w (w\<lparr>w_store := a'\<rparr>)"
| attach: "sol_attachApproval env cfg kid signed_tx blockhash (w_store w) = Inr (tx, a') \<Longrightarrow>
    sol_step env cfg w (w\<lparr>w_store := a'\<rparr>)"
| revoke: "sol_revoke kid (w_store w) = Inr (u, a') \<Longrightarrow> sol_step env cfg w (w\<lparr>w_store := a'\<rparr>)"
| prepare_revocation: "sol_prepareRevocation env kid rpc (w_store w) = (r, a') \<Longrightarrow>
    sol_step env cfg w (w\<lparr>w_store := a'\<rparr>)"
| sign: "sol_signPayment env cfg kid p rpc clk before (w_store w) = Inr (tx, a') \<Longrightarrow>
    sol_step env cfg w
      \<lparr>w_store = a', w_paid = w_paid w @ [\<lparr>le_id = kid, le_recipient = sp_recipient p, le_amount = sp_amount p\<rparr>]\<rparr>"

inductive_cases sol_stepE: "sol_step env cfg w w'"

definition paid_by :: "string \<Rightarrow> sol_entry list \<Rightarrow> sol_entry list" where
  "paid_by kid es = filter (\<lambda>e. le_id e = kid) es"

definition key_accounted :: "sol_key \<Rightarrow> sol_entry list \<Rightarrow> bool" where
  "key_accounted k es \<longleftrightarrow>
     sk_spent k = sum_list (map le_amount es) \<and> sk_useCount k = int (length es) \<and>
     sk_spent k \<le> ss_budget (sk_scope k) \<and>
     (\<forall>n. ss_maxTxCount (sk_scope k) = Some n \<longrightarrow> sk_useCount k \<le> n) \<and>
     (\<forall>e \<in> set es. le_recipient e \<in> set (ss_allowedRecipients (sk_scope k)) \<and>
        0 < le_amount e \<and> le_amount e \<le> ss_maxPerPayment (sk_scope k))"

definition world_accounted :: "sol_world \<Rightarrow> bool" where
  "world_accounted w \<longleftrightarrow>
     (\<forall>kid. (find_rec sk_id kid (table (w_store w)) = None \<longrightarrow> paid_by kid (w_paid w) = []) \<and>
       (\<forall>k. find_rec sk_id kid (table (w_store w)) = Some k \<longrightarrow> key_accounted k (paid_by kid (w_paid w))))"

lemma key_accounted_status: "key_accounted (k\<lparr>sk_status := st\<rparr>) es = key_accounted k es"
  by (simp add: key_accounted_def)

lemma key_accounted_pay:
  assumes "key_accounted k es" "sign_change env cfg p blockhash clk k = Inr (tx, k')"
  shows "key_accounted k' (es @ [\<lparr>le_id = kid, le_recipient = sp_recipient p, le_amount = sp_amount p\<rparr>])"
  using assms sign_change_Inr [OF assms(2)] by (auto simp: key_accounted_def sol_check_None)

lemma find_rec_map:
  assumes "\<And>x. idf (f x) = idf x"
  shows "find_rec idf kid (map f rs) = map_option f (find_rec idf kid rs)"
  by (induction rs) (auto simp: find_rec_def assms)

lemma retire_rivals_find:
  "find_rec sk_id kid (retire_rivals key rs) = None \<longleftrightarrow> find_rec sk_id kid rs = None"
  "find_rec sk_id kid (retire_rivals key rs) = Some k \<Longrightarrow>
     \<exists>k0. find_rec sk_id kid rs = Some k0 \<and> (k = k0 \<or> k = k0\<lparr>sk_status := SolRevoked\<rparr>)"
proof -
  let ?f = "\<lambda>x. if sk_id x \<noteq> sk_id key \<and> sk_owner x = sk_owner key \<and>
            ss_mint (sk_scope x) = ss_mint (sk_scope key) \<and> ss_cluster (sk_scope x) = ss_cluster (sk_scope key) \<and>
            (sk_status x = SolActive \<or> sk_status x = SolPending)
          then x\<lparr>sk_status := SolRevoked\<rparr> else x"
  have m: "find_rec sk_id kid (retire_rivals key rs) = map_option ?f (find_rec sk_id kid rs)"
    unfolding retire_rivals_def by (rule find_rec_map) simp
  show "find_rec sk_id kid (retire_rivals key rs) = None \<longleftrightarrow> find_rec sk_id kid rs = None"
    by (simp add: m)
  assume "find_rec sk_id kid (retire_rivals key rs) = Some k"
  then obtain k0 where "find_rec sk_id kid rs = Some k0" "k = ?f k0" unfolding m by auto
  then show "\<exists>k0. find_rec sk_id kid rs = Some k0 \<and> (k = k0 \<or> k = k0\<lparr>sk_status := SolRevoked\<rparr>)"
    by (auto split: if_splits)
qed

text \<open>Operations that only change the status of stored records.\<close>

definition restatused :: "sol_key adapter \<Rightarrow> sol_key adapter \<Rightarrow> bool" where
  "restatused a a' \<longleftrightarrow>
     (\<forall>kid. (find_rec sk_id kid (table a') = None \<longleftrightarrow> find_rec sk_id kid (table a) = None) \<and>
       (\<forall>k. find_rec sk_id kid (table a') = Some k \<longrightarrow>
          (\<exists>k0 st. find_rec sk_id kid (table a) = Some k0 \<and> (k = k0 \<or> k = k0\<lparr>sk_status := st\<rparr>))))"

lemma restatused_refl: "restatused a a"
  by (auto simp: restatused_def)

lemma put_restatused:
  assumes "find_rec sk_id kid (table a) = Some k" "table a' = put_rec sk_id (k\<lparr>sk_status := st\<rparr>) (table a)"
  shows "restatused a a'"
proof -
  have "sk_id k = kid" using assms(1) by (rule find_rec_key)
  then show ?thesis using assms unfolding restatused_def by (auto simp: find_put_rec)
qed

lemma revoke_restatused: "sol_revoke kid a = Inr (u, a') \<Longrightarrow> restatused a a'"
  unfolding sol_revoke_def by (drule own_update_Inr) (auto intro: put_restatused)

lemma attach_restatused:
  assumes "sol_attachApproval env cfg kid signed_tx blockhash a = Inr (tx, a')"
  shows "restatused a a'"
proof -
  obtain key where key: "find_rec sk_id kid (table a) = Some key"
    and t: "table a' = retire_rivals key (put_rec sk_id (key\<lparr>sk_status := SolActive\<rparr>) (table a))"
    using assms unfolding sol_attachApproval_def
    by (auto dest!: rec_update_Inr split: if_splits)
  have id: "sk_id key = kid" using key by (rule find_rec_key)
  show ?thesis
    unfolding restatused_def
  proof (intro allI conjI impI)
    fix kid'
    show "find_rec sk_id kid' (table a') = None \<longleftrightarrow> find_rec sk_id kid' (table a) = None"
      using key id by (auto simp: t retire_rivals_find(1) find_put_rec)
  next
    fix kid' k assume "find_rec sk_id kid' (table a') = Some k"
    then obtain k0 where k0: "find_rec sk_id kid' (put_rec sk_id (key\<lparr>sk_status := SolActive\<rparr>) (table a)) = Some k0"
      "k = k0 \<or> k = k0\<lparr>sk_status := SolRevoked\<rparr>"
      using retire_rivals_find(2) t by metis
    show "\<exists>k0 st. find_rec sk_id kid' (table a) = Some k0 \<and> (k = k0 \<or> k = k0\<lparr>sk_status := st\<rparr>)"
    proof (cases "kid' = kid")
      case True
      then have "k0 = key\<lparr>sk_status := SolActive\<rparr>" using k0(1) id by (simp add: find_put_rec)
      then show ?thesis using k0(2) key True by auto
    qed (use k0 id in \<open>auto simp: find_put_rec\<close>)
  qed
qed

lemma prepareRevocation_restatused: "sol_prepareRevocation env kid rpc a = (r, a') \<Longrightarrow> restatused a a'"
  by (auto simp: sol_prepareRevocation_def restatused_refl split: sum.splits prod.splits dest: revoke_restatused)

lemma restatused_accounted:
  assumes "restatused (w_store w) a'" "world_accounted w"
  shows "world_accounted (w\<lparr>w_store := a'\<rparr>)"
  unfolding world_accounted_def
proof (intro allI conjI impI)
  fix kid assume "find_rec sk_id kid (table (w_store (w\<lparr>w_store := a'\<rparr>))) = None"
  then show "paid_by kid (w_paid (w\<lparr>w_store := a'\<rparr>)) = []"
    using assms by (simp add: restatused_def world_accounted_def)
next
  fix kid k assume "find_rec sk_id kid (table (w_store (w\<lparr>w_store := a'\<rparr>))) = Some k"
  then obtain k0 st where "find_rec sk_id kid (table (w_store w)) = Some k0" "k = k0 \<or> k = k0\<lparr>sk_status := st\<rparr>"
    using assms(1) unfolding restatused_def by fastforce
  then show "key_accounted k (paid_by kid (w_paid (w\<lparr>w_store := a'\<rparr>)))"
    using assms(2) by (auto simp: world_accounted_def key_accounted_status)
qed

lemma create_stored:
  assumes "sol_createSessionKey env cfg s owner rpc now en a = Inr (info, a')"
  shows "\<exists>k. table a' = table a @ [k] \<and> sk_id k = en_id en \<and> sk_scope k = s \<and> sk_spent k = 0 \<and>
    sk_useCount k = 0 \<and> sk_status k = SolPending \<and> sol_create_refusal cfg s owner now = None"
  using assms
  by (auto simp: sol_createSessionKey_def Let_def sol_info.defs sol_key.defs split: option.splits dest!: rec_push_Inr)

lemma signPayment_change:
  assumes "sol_signPayment env cfg kid p rpc clk before a = Inr (tx, a')"
  shows "\<exists>k k' blockhash. find_rec sk_id kid (table a) = Some k \<and> getLatestBlockhash rpc = Inr blockhash \<and>
    sign_change env cfg p blockhash clk k = Inr (tx, k') \<and> table a' = put_rec sk_id k' (table a)"
  using assms
  by (auto simp: sol_signPayment_def split: if_splits option.splits dest!: own_update_Inr)

lemma step_accounted:
  assumes "sol_step env cfg w w'" "world_accounted w"
  shows "world_accounted w'"
  using assms(1)
proof cases
  case (create s owner rpc now en info a')
  obtain k where k: "table a' = table (w_store w) @ [k]" "sk_id k = en_id en" "sk_scope k = s"
    "sk_spent k = 0" "sk_useCount k = 0" "sol_create_refusal cfg s owner now = None"
    using create_stored [OF create(2)] by blast
  have "0 < ss_budget s" "\<forall>n. ss_maxTxCount s = Some n \<longrightarrow> 0 < n"
    using k(6) by (auto simp: sol_create_refusal_def split: option.splits)
  then have new: "key_accounted k []" using k by (auto simp: key_accounted_def)
  have none: "paid_by (en_id en) (w_paid w) = []"
    using assms(2) create(3) unfolding world_accounted_def by blast
  show ?thesis
    using assms(2) create(1,3) k(1,2) new none unfolding world_accounted_def
    by (auto simp: find_push split: option.splits if_splits)
next
  case (sign kid p rpc clk before tx a')
  obtain k k' blockhash where k: "find_rec sk_id kid (table (w_store w)) = Some k"
    "sign_change env cfg p blockhash clk k = Inr (tx, k')" "table a' = put_rec sk_id k' (table (w_store w))"
    using signPayment_change [OF sign(2)] by blast
  have id: "sk_id k' = kid" using find_rec_key [OF k(1)] sign_change_Inr [OF k(2)] by simp
  have "key_accounted k (paid_by kid (w_paid w))"
    using assms(2) k(1) unfolding world_accounted_def by blast
  note acc = key_accounted_pay [OF this k(2), of kid]
  show ?thesis
    using assms(2) acc sign(1) k(3) id unfolding world_accounted_def
    by (auto simp: find_put_rec paid_by_def)
qed (use assms(2) in \<open>auto intro: restatused_accounted attach_restatused revoke_restatused prepareRevocation_restatused\<close>)

lemma run_accounted: "(sol_step env cfg)\<^sup>*\<^sup>* w w' \<Longrightarrow> world_accounted w \<Longrightarrow> world_accounted w'"
  by (induction rule: rtranclp_induct) (auto intro: step_accounted)

section \<open>The seal\<close>

lemma map_JText_inj: "map JText xs = map JText ys \<longleftrightarrow> xs = ys"
  by (rule inj_map_eq_map) (simp add: inj_def)

lemma sol_facts_inj:
  assumes "sol_facts k = sol_facts k'"
  shows "sk_id k = sk_id k' \<and> sk_address k = sk_address k' \<and> sk_owner k = sk_owner k' \<and>
    sk_scope k = sk_scope k' \<and> sk_tokenProgram k = sk_tokenProgram k' \<and> sk_decimals k = sk_decimals k'"
proof -
  have p: "period_facts a = period_facts b \<Longrightarrow> a = b" for a b
    by (auto simp: period_facts_def show_int_inj split: option.splits)
  have o: "json_opt JNumber a = json_opt JNumber b \<Longrightarrow> a = b" for a b
    by (auto simp: json_opt_def split: option.splits)
  show ?thesis
    using assms by (auto simp: sol_facts_def Let_def map_JText_inj dest!: p o show_int_inj intro!: sol_scope.equality)
qed

lemma altered_record:
  assumes "gcm_binds (s_crypto env)" "hash_lengths (s_crypto env)"
    and "facts_apart (s_crypto env) (sol_facts k) (sol_facts k')" "sol_facts k' \<noteq> sol_facts k"
    and "encryptPrivateKey (s_crypto env) secret (sol_encryptionKey cfg) slt nonce iterations
      (Some (sol_binding env k)) weak = Inr (sk_keyPair k)"
    and "sk_keyPair k' = sk_keyPair k"
  shows "\<exists>e. sol_open env cfg k' = Inl e"
  using altered_facts [OF assms(1-4) assms(5) [unfolded sol_binding_def], of None]
  by (auto simp: sol_open_def sol_binding_def assms(6))

section \<open>An admissible payment is signed\<close>

lemma periodState_later:
  assumes "periodState k t = Inr st" "t \<le> t'" "\<And>p. ss_period (sk_scope k) = Some p \<Longrightarrow> 0 < p_seconds p"
  shows "\<exists>st'. periodState k t' = Inr st'"
proof (cases "ss_period (sk_scope k)")
  case (Some p)
  have "t div 1000 \<le> t' div 1000" using assms(2) by (simp add: zdiv_mono1)
  moreover from this have "(t div 1000 - p_start p) div p_seconds p \<le> (t' div 1000 - p_start p) div p_seconds p"
    using assms(3) [OF Some] by (simp add: zdiv_mono1)
  ultimately show ?thesis
    using assms(1) Some
    by (auto simp: periodState_def Let_def split: if_splits option.splits)
qed (simp add: periodState_def)

lemma periodState_spent [simp]: "periodState (k\<lparr>sk_spent := v\<rparr>) t = periodState k t"
  by (cases "ss_period (sk_scope k)") (simp_all add: periodState_def Let_def)

lemma sign_change_total:
  assumes laws: "base58_laws env" "ed_laws env"
    and "sol_check k pay (lk_expiry clk) (lk_period clk) = None" "lk_period clk \<le> lk_account clk"
    and "\<And>p. ss_period (sk_scope k) = Some p \<Longrightarrow> 0 < p_seconds p"
    and b: "buildSplTransferTransaction env (built_payment k pay blockhash) = Inr wire"
    and o: "sol_open env cfg k = Inr secret" "sk_address k = s58_encode env (ed_public env secret)"
  shows "\<exists>tx k'. sign_change env cfg pay blockhash clk k = Inr (tx, k')"
proof -
  have au: "authority (built_payment k pay blockhash) = sk_address k" by (simp add: built_payment_def)
  obtain tx slot enc where "parseSolanaTransaction env wire = Inr tx" "index_of (t_keys tx) (sk_address k) = Some slot"
    "verifySignedSplTransfer env (set_at (1 + 64 * slot) (ed_sign env (t_message tx) secret) wire)
       (built_payment k pay blockhash) False = Inr enc"
    using sign_then_verify [OF laws b, of secret False] o(2) au by auto
  then have s: "sign_built env cfg k (built_payment k pay blockhash) = Inr enc"
    using b o by (simp add: sign_built_def)
  obtain st where "periodState k (lk_period clk) = Inr st"
    using assms(3) by (auto simp: sol_check_None checkPeriod_def split: sum.splits)
  then obtain st' where "periodState k (lk_account clk) = Inr st'"
    using periodState_later assms(4,5) by blast
  then show ?thesis
    using assms(3) s by (auto simp: sign_change_def accountPeriod_def split: option.splits)
qed

lemma signPayment_total:
  assumes laws: "base58_laws env" "ed_laws env"
    and found: "raw a = Saved ks" "accepts a" "find_rec sk_id kid ks = Some k"
    and addr: "sol_address (sp_recipient pay)" "sol_address (sp_feePayer pay)"
    and "sol_check k pay (pre_expiry clk) (pre_period clk) = None"
    and "sol_check k pay (lk_expiry clk) (lk_period clk) = None" "lk_period clk \<le> lk_account clk"
    and "\<And>p. ss_period (sk_scope k) = Some p \<Longrightarrow> 0 < p_seconds p"
    and rpc: "assertSolanaCluster rpc (ss_cluster (sk_scope k)) = Inr ()" "getLatestBlockhash rpc = Inr blockhash"
    and "buildSplTransferTransaction env (built_payment k pay blockhash) = Inr wire"
    and "sol_open env cfg k = Inr secret" "sk_address k = s58_encode env (ed_public env secret)"
  shows "\<exists>tx a'. sol_signPayment env cfg kid pay rpc clk a a = Inr (tx, a')"
proof -
  obtain tx k' where "sign_change env cfg pay blockhash clk k = Inr (tx, k')"
    using sign_change_total [OF laws assms(9-11,14-16)] by blast
  then show ?thesis
    using assms
    by (simp add: sol_signPayment_def sol_get_def rec_loadAll_def rec_update_def own_change_def rec_saveAll_def)
qed

section \<open>A concrete key\<close>

definition demo_sol_cfg :: sol_config where
  "demo_sol_cfg = \<lparr>sol_encryptionKey = ''pw'', sol_iterations = None, sol_allowWeakKdf = False,
     sol_maxExpiryMs = sol_default_max_expiry\<rparr>"

definition demo_sol_scope :: sol_scope where
  "demo_sol_scope = \<lparr>ss_cluster = ''solana:'' @ replicate 32 CHR ''g'', ss_mint = sol_addr CHR ''m'', ss_budget = 1000,
     ss_maxPerPayment = 300, ss_allowedRecipients = [sol_addr CHR ''r''], ss_expiry = 5000, ss_maxTxCount = Some 3,
     ss_period = Some \<lparr>p_amount = 500, p_seconds = 60, p_start = 1000\<rparr>\<rparr>"

definition demo_sol_rpc :: sol_rpc where
  "demo_sol_rpc = \<lparr>getGenesisHash = Inr (replicate 40 CHR ''g''), getLatestBlockhash = Inr (sol_addr CHR ''h''),
     getAccountInfo = (\<lambda>x. Inr (Some (token_program, replicate 44 0 @ [6, 1] @ replicate 36 0)))\<rparr>"

definition demo_sol_secret :: bytes where "demo_sol_secret = utf8 (sol_addr CHR ''k'')"

definition demo_sol_info :: sol_info where
  "demo_sol_info = \<lparr>sk_id = ''id1'', sk_address = sol_addr CHR ''k'', sk_owner = sol_addr CHR ''o'',
     sk_scope = demo_sol_scope, sk_tokenProgram = token_program, sk_decimals = 6, sk_status = SolActive,
     sk_spent = 0, sk_useCount = 0, sk_createdAt = 2000000\<rparr>"

definition demo_sol_key :: "encrypted_key_pair \<Rightarrow> sol_key" where
  "demo_sol_key kp = sol_info.extend demo_sol_info (sol_key.fields kp 2000000 None None)"

definition demo_sol_pay :: sol_session_payment where
  "demo_sol_pay = \<lparr>sp_recipient = sol_addr CHR ''r'', sp_amount = 250, sp_feePayer = sol_addr CHR ''f'', sp_memo = None\<rparr>"

definition demo_sol_clk :: sol_clock where
  "demo_sol_clk = \<lparr>pre_expiry = 2000000, pre_period = 2000000, lk_expiry = 2000000, lk_period = 2000000,
     lk_account = 2000000, lk_used = 2000000\<rparr>"

lemma demo_sol_sealed:
  "\<exists>kp. encryptPrivateKey (s_crypto toy_sol) (''0x'' @ bytesToHex demo_sol_secret) ''pw'' [1] [2] None
     (Some (sol_binding toy_sol demo_sol_info)) False = Inr kp"
  unfolding sol_binding_def by (rule seals)

lemma demo_sol_binding: "sol_binding env (demo_sol_key kp) = sol_binding env demo_sol_info"
  by (simp add: sol_binding_def sol_facts_def demo_sol_key_def demo_sol_info_def sol_info.defs sol_key.defs)

lemma demo_sol_fields:
  "sk_scope (demo_sol_key kp) = demo_sol_scope" "sk_id (demo_sol_key kp) = ''id1''"
  "sk_address (demo_sol_key kp) = sol_addr CHR ''k''" "sk_keyPair (demo_sol_key kp) = kp"
  "sk_spent (demo_sol_key kp) = 0" "sk_useCount (demo_sol_key kp) = 0" "sk_status (demo_sol_key kp) = SolActive"
  by (simp_all add: demo_sol_key_def demo_sol_info_def sol_info.defs sol_key.defs)

lemma demo_sol_opens:
  assumes "encryptPrivateKey (s_crypto toy_sol) (''0x'' @ bytesToHex demo_sol_secret) ''pw'' [1] [2] None
     (Some (sol_binding toy_sol demo_sol_info)) False = Inr kp"
  shows "sol_open toy_sol demo_sol_cfg (demo_sol_key kp) = Inr demo_sol_secret"
  using sealed_opens [OF toy_sol_crypto(1) assms [unfolded sol_binding_def], of None]
  by (simp add: sol_open_def demo_sol_fields demo_sol_cfg_def demo_sol_binding [unfolded sol_binding_def] sol_binding_def)

lemma demo_sol_builds:
  "\<exists>wire. buildSplTransferTransaction toy_sol (built_payment (demo_sol_key kp) demo_sol_pay (sol_addr CHR ''h'')) = Inr wire"
proof -
  have p: "built_payment (demo_sol_key kp) demo_sol_pay (sol_addr CHR ''h'') =
      \<lparr>feePayer = sol_addr CHR ''f'', authority = sol_addr CHR ''k'', sourceOwner = Some (sol_addr CHR ''o''),
       mint = sol_addr CHR ''m'', tokenProgram = token_program, decimals = 6, recipient = sol_addr CHR ''r'',
       amount = 250, memo = None, recentBlockhash = sol_addr CHR ''h'',
       computeUnitLimit = None, computeUnitPrice = None\<rparr>"
    by (simp add: built_payment_def demo_sol_key_def demo_sol_info_def demo_sol_pay_def demo_sol_scope_def
        sol_info.defs sol_key.defs)
  have "case buildSplTransferTransaction toy_sol
      \<lparr>feePayer = sol_addr CHR ''f'', authority = sol_addr CHR ''k'', sourceOwner = Some (sol_addr CHR ''o''),
       mint = sol_addr CHR ''m'', tokenProgram = token_program, decimals = 6, recipient = sol_addr CHR ''r'',
       amount = 250, memo = None, recentBlockhash = sol_addr CHR ''h'',
       computeUnitLimit = None, computeUnitPrice = None\<rparr> of Inl _ \<Rightarrow> False | Inr _ \<Rightarrow> True"
    by code_simp
  then show ?thesis unfolding p by (auto split: sum.splits)
qed

abbreviation demo_sol_store :: "encrypted_key_pair \<Rightarrow> sol_key adapter" where
  "demo_sol_store kp \<equiv> \<lparr>raw = Saved [demo_sol_key kp], accepts = True\<rparr>"

lemma demo_sol_ready:
  "find_rec sk_id ''id1'' [demo_sol_key kp] = Some (demo_sol_key kp)"
  "sol_address (sp_recipient demo_sol_pay)" "sol_address (sp_feePayer demo_sol_pay)"
  "sol_check (demo_sol_key kp) demo_sol_pay (pre_expiry demo_sol_clk) (pre_period demo_sol_clk) = None"
  "sol_check (demo_sol_key kp) demo_sol_pay (lk_expiry demo_sol_clk) (lk_period demo_sol_clk) = None"
  "lk_period demo_sol_clk \<le> lk_account demo_sol_clk"
  "ss_period (sk_scope (demo_sol_key kp)) = Some p \<Longrightarrow> 0 < p_seconds p"
  "assertSolanaCluster demo_sol_rpc (ss_cluster (sk_scope (demo_sol_key kp))) = Inr ()"
  "getLatestBlockhash demo_sol_rpc = Inr (sol_addr CHR ''h'')"
  "sk_address (demo_sol_key kp) = s58_encode toy_sol (ed_public toy_sol demo_sol_secret)"
proof -
  have chk: "sol_check (demo_sol_key kp) demo_sol_pay 2000000 2000000 = None"
    by (simp add: sol_check_None demo_sol_key_def demo_sol_info_def demo_sol_pay_def demo_sol_scope_def
        sol_info.defs sol_key.defs checkPeriod_def periodState_def sol_addr_def)
  show "sol_check (demo_sol_key kp) demo_sol_pay (pre_expiry demo_sol_clk) (pre_period demo_sol_clk) = None"
    "sol_check (demo_sol_key kp) demo_sol_pay (lk_expiry demo_sol_clk) (lk_period demo_sol_clk) = None"
    using chk by (simp_all add: demo_sol_clk_def)
  show "find_rec sk_id ''id1'' [demo_sol_key kp] = Some (demo_sol_key kp)"
    by (simp add: find_rec_def demo_sol_fields)
  show "sol_address (sp_recipient demo_sol_pay)" "sol_address (sp_feePayer demo_sol_pay)" by code_simp+
  show "sk_address (demo_sol_key kp) = s58_encode toy_sol (ed_public toy_sol demo_sol_secret)"
    unfolding demo_sol_fields by code_simp
  show "assertSolanaCluster demo_sol_rpc (ss_cluster (sk_scope (demo_sol_key kp))) = Inr ()"
    unfolding demo_sol_fields by code_simp
  show "lk_period demo_sol_clk \<le> lk_account demo_sol_clk" by (simp add: demo_sol_clk_def)
  show "ss_period (sk_scope (demo_sol_key kp)) = Some p \<Longrightarrow> 0 < p_seconds p"
    by (auto simp: demo_sol_fields demo_sol_scope_def)
  show "getLatestBlockhash demo_sol_rpc = Inr (sol_addr CHR ''h'')" by (simp add: demo_sol_rpc_def)
qed

lemma demo_sol_signs:
  obtains kp tx a' where
    "sol_signPayment toy_sol demo_sol_cfg ''id1'' demo_sol_pay demo_sol_rpc demo_sol_clk
       (demo_sol_store kp) (demo_sol_store kp) = Inr (tx, a')"
proof -
  obtain kp where kp: "encryptPrivateKey (s_crypto toy_sol) (''0x'' @ bytesToHex demo_sol_secret) ''pw'' [1] [2] None
     (Some (sol_binding toy_sol demo_sol_info)) False = Inr kp" using demo_sol_sealed by blast
  obtain wire where w: "buildSplTransferTransaction toy_sol
      (built_payment (demo_sol_key kp) demo_sol_pay (sol_addr CHR ''h'')) = Inr wire" using demo_sol_builds by blast
  have "\<exists>tx a'. sol_signPayment toy_sol demo_sol_cfg ''id1'' demo_sol_pay demo_sol_rpc demo_sol_clk
       (demo_sol_store kp) (demo_sol_store kp) = Inr (tx, a')"
    by (rule signPayment_total [OF toy_sol_laws toy_ed_laws _ _ demo_sol_ready(1-9) w demo_sol_opens [OF kp] demo_sol_ready(10)])
      simp_all
  then show thesis using that by blast
qed

section \<open>Properties\<close>





text \<open>
  A stored key is bound to the facts its owner approved: if the secret was sealed under one set
  of facts (identifier, address, owner, scope, token program, decimals) and any of them is changed
  in storage, the key no longer opens and signs nothing, whatever is asked of it.  AES-GCM is
  assumed to authenticate its associated data, and SHA-256 to keep the two JSON texts apart.
\<close>

lemma sol_record_bound:
  assumes "gcm_binds (s_crypto env)" "hash_lengths (s_crypto env)"
    and "facts_apart (s_crypto env) (sol_facts k) (sol_facts k')"
    and "encryptPrivateKey (s_crypto env) secret (sol_encryptionKey cfg) slt nonce iterations
      (Some (sol_binding env k)) weak = Inr (sk_keyPair k)"
    and "sk_keyPair k' = sk_keyPair k"
    and "(sk_id k', sk_address k', sk_owner k', sk_scope k', sk_tokenProgram k', sk_decimals k') \<noteq>
      (sk_id k, sk_address k, sk_owner k, sk_scope k, sk_tokenProgram k, sk_decimals k)"
  shows "(\<exists>e. sol_open env cfg k' = Inl e) \<and>
    (\<forall>pay blockhash clk. \<exists>e. sign_change env cfg pay blockhash clk k' = Inl e)"
proof -
  have "sol_facts k' \<noteq> sol_facts k" using assms(6) sol_facts_inj [of k' k] by auto
  from altered_record [OF assms(1-3) this assms(4,5)]
  have o: "\<exists>e. sol_open env cfg k' = Inl e" .
  have "\<exists>e. sign_built env cfg k' p = Inl e" for p
    using o unfolding sign_built_def
    by (cases "buildSplTransferTransaction env p"; simp; cases "parseSolanaTransaction env (projr (buildSplTransferTransaction env p))") auto
  then have "\<exists>e. sign_change env cfg pay blockhash clk k' = Inl e" for pay blockhash clk
    by (metis (no_types, lifting) sign_change_Inr sum.exhaust_sel sum.disc_eq_case(1) prod.exhaust Inl_Inr_False)
  with o show ?thesis by blast
qed

lemma sol_record_bound_witness:
  "\<exists>kp. \<exists>e. sol_open toy_sol demo_sol_cfg ((demo_sol_key kp)\<lparr>sk_scope := demo_sol_scope\<lparr>ss_budget := 99999\<rparr>\<rparr>) = Inl e"
proof -
  obtain kp where kp: "encryptPrivateKey (s_crypto toy_sol) (''0x'' @ bytesToHex demo_sol_secret) ''pw'' [1] [2] None
     (Some (sol_binding toy_sol demo_sol_info)) False = Inr kp" using demo_sol_sealed by blast
  let ?k = "demo_sol_key kp" and ?k' = "(demo_sol_key kp)\<lparr>sk_scope := demo_sol_scope\<lparr>ss_budget := 99999\<rparr>\<rparr>"
  have "(\<exists>e. sol_open toy_sol demo_sol_cfg ?k' = Inl e) \<and>
    (\<forall>pay blockhash clk. \<exists>e. sign_change toy_sol demo_sol_cfg pay blockhash clk ?k' = Inl e)"
  proof (rule sol_record_bound [OF toy_sol_crypto(2,3)])
    show "facts_apart (s_crypto toy_sol) (sol_facts ?k) (sol_facts ?k')"
      by (rule facts_apart_length) code_simp
    show "encryptPrivateKey (s_crypto toy_sol) (''0x'' @ bytesToHex demo_sol_secret) (sol_encryptionKey demo_sol_cfg)
       [1] [2] None (Some (sol_binding toy_sol ?k)) False = Inr (sk_keyPair ?k)"
      using kp by (simp add: demo_sol_binding demo_sol_fields demo_sol_cfg_def)
  qed (simp_all add: demo_sol_fields demo_sol_scope_def)
  then show ?thesis by blast
qed

text \<open>
  C17: an admissible payment is signed: if the key passes the check before and under the lock, the
  endpoint serves the key's cluster and answers with a blockhash, the sealed secret opens and
  belongs to the key's address, the transaction builds and the adapter accepts the write, then
  \<open>signPayment\<close> returns a transaction; the checks after signing can not refuse it.
\<close>

theorem admissible_payment_signed:
  assumes "base58_laws env" "ed_laws env"
    and "raw a = Saved ks" "accepts a" "find_rec sk_id kid ks = Some k"
    and "sol_address (sp_recipient pay)" "sol_address (sp_feePayer pay)"
    and "sol_check k pay (pre_expiry clk) (pre_period clk) = None"
    and "sol_check k pay (lk_expiry clk) (lk_period clk) = None" "lk_period clk \<le> lk_account clk"
    and "\<And>p. ss_period (sk_scope k) = Some p \<Longrightarrow> 0 < p_seconds p"
    and "assertSolanaCluster rpc (ss_cluster (sk_scope k)) = Inr ()" "getLatestBlockhash rpc = Inr blockhash"
    and "buildSplTransferTransaction env (built_payment k pay blockhash) = Inr wire"
    and "sol_open env cfg k = Inr secret" "sk_address k = s58_encode env (ed_public env secret)"
  shows "\<exists>tx a'. sol_signPayment env cfg kid pay rpc clk a a = Inr (tx, a')"
  by (rule signPayment_total [OF assms])

lemma admissible_payment_signed_witness:
  "\<exists>kp tx a'. sol_signPayment toy_sol demo_sol_cfg ''id1'' demo_sol_pay demo_sol_rpc demo_sol_clk
     (demo_sol_store kp) (demo_sol_store kp) = Inr (tx, a')"
proof -
  obtain kp where kp: "encryptPrivateKey (s_crypto toy_sol) (''0x'' @ bytesToHex demo_sol_secret) ''pw'' [1] [2] None
     (Some (sol_binding toy_sol demo_sol_info)) False = Inr kp" using demo_sol_sealed by blast
  obtain wire where w: "buildSplTransferTransaction toy_sol
      (built_payment (demo_sol_key kp) demo_sol_pay (sol_addr CHR ''h'')) = Inr wire" using demo_sol_builds by blast
  have "\<exists>tx a'. sol_signPayment toy_sol demo_sol_cfg ''id1'' demo_sol_pay demo_sol_rpc demo_sol_clk
       (demo_sol_store kp) (demo_sol_store kp) = Inr (tx, a')"
    by (rule admissible_payment_signed
        [OF toy_sol_laws toy_ed_laws _ _ demo_sol_ready(1-9) w demo_sol_opens [OF kp] demo_sol_ready(10)])
      simp_all
  then show ?thesis by blast
qed

end
