(* ===== verification/AuthzEnforce.thy ===== *)
theory AuthzEnforce
  imports AuthzCompile VoucherSafety SolanaSafety
begin

text \<open>
  What compilation guarantees: whatever passes the check of a compiled key is a spend the
  authorization allows, as \<open>evaluateSpend\<close> decides it on the counters the key keeps.
\<close>

section \<open>A spend as a request\<close>

definition spend_request ::
  "string \<Rightarrow> string \<Rightarrow> int \<Rightarrow> string \<Rightarrow> int \<Rightarrow> int \<Rightarrow> int \<Rightarrow> int option \<Rightarrow> props" where
  "spend_request asset to amt rail now spent cnt pspent =
     [(''asset'', JStr asset), (''recipient'', JStr to), (''amount'', JBig amt), (''rail'', JStr rail),
      (''at'', JInt now), (''spentSoFar'', JBig spent), (''countSoFar'', JInt cnt)] @
     opt_prop ''periodSpentSoFar'' JBig pspent"

lemma spend_request_fields [simp]:
  "field ''asset'' (spend_request asset to amt rail now spent cnt ps) = JStr asset"
  "field ''recipient'' (spend_request asset to amt rail now spent cnt ps) = JStr to"
  "field ''amount'' (spend_request asset to amt rail now spent cnt ps) = JBig amt"
  "field ''rail'' (spend_request asset to amt rail now spent cnt ps) = JStr rail"
  "field ''at'' (spend_request asset to amt rail now spent cnt ps) = JInt now"
  "field ''spentSoFar'' (spend_request asset to amt rail now spent cnt ps) = JBig spent"
  "field ''countSoFar'' (spend_request asset to amt rail now spent cnt ps) = JInt cnt"
  "field ''periodSpentSoFar'' (spend_request asset to amt rail now spent cnt ps) =
     (case ps of None \<Rightarrow> JUndefined | Some v \<Rightarrow> JBig v)"
  by (simp_all add: spend_request_def opt_prop_def split: option.splits)

lemma spend_request_structure:
  "request_structure (spend_request asset to amt rail now spent cnt ps) \<longleftrightarrow>
     0 < amt \<and> 0 \<le> spent \<and> (\<forall>v. ps = Some v \<longrightarrow> 0 \<le> v) \<and> safe_integer now \<and> safe_integer cnt \<and> 0 \<le> cnt \<and>
     rail \<in> set all_rails"
  by (auto simp: request_structure_def exactKeys_def spend_request_def opt_prop_def split: option.splits)

text \<open>The limits of one grant, on the numbers of a request.\<close>

definition within_grant :: "grant \<Rightarrow> int \<Rightarrow> int \<Rightarrow> int \<Rightarrow> int \<Rightarrow> int option \<Rightarrow> bool" where
  "within_grant g amt now spent cnt ps \<longleftrightarrow>
     amt \<le> maxPerPayment g \<and> spent + amt \<le> maxTotal g \<and> (\<forall>n. maxCount g = Some n \<longrightarrow> cnt < n) \<and>
     (\<forall>p. period g = Some p \<longrightarrow> p_start p \<le> now \<and> (\<exists>v. ps = Some v \<and> v + amt \<le> p_amount p))"

lemma allowed_request:
  assumes "b58_canonical env" "validateAuthorization env value = Inr a" "notBefore a = None"
    and "i < length (grants a)" "grants a ! i = g" "asset_of env g = Some p" "canonicalAddress env (JStr to) (pa_namespace p) = Some r"
    and "r \<in> set (recipients g)" "rail \<in> set (g_rails g)" "now < expiresAt a"
    and "0 < amt" "0 \<le> spent" "\<forall>v. ps = Some v \<longrightarrow> 0 \<le> v" "safe_integer now" "safe_integer cnt" "0 \<le> cnt"
    and "within_grant g amt now spent cnt ps"
  shows "evaluateSpend env value (JObj (spend_request (g_asset g) to amt rail now spent cnt ps)) = Inr i"
proof -
  have wf: "wf_grant env g"
    using validate_Inr_wf [OF assms(1,2)] assms(4,5) by (auto simp: wf_authorization_def)
  let ?q = "spend_request (g_asset g) to amt rail now spent cnt ps"
  have "canonical p = g_asset g" using wf assms(6) by (auto simp: wf_grant_def asset_of_def)
  then have "covers env g ?q"
    using assms(6-9) by (auto simp: covers_def asset_of_def)
  moreover have "rail \<in> set all_rails" using wf assms(9) by (auto simp: wf_grant_def)
  moreover have "grant_refusal g ?q = None"
    using assms(17) wf by (auto simp: grant_refusal_None within_grant_def wf_grant_def pos_imp_zdiv_nonneg_iff)
  ultimately have "spend_allowed env a ?q i"
    using assms(3-5,10-16) by (simp add: spend_allowed_def spend_request_structure)
  then show ?thesis using evaluateSpend_iff [OF assms(1,2)] by blast
qed

lemma validatedForCompile_Inr:
  "validatedForCompile env value = Inr a \<longleftrightarrow> validateAuthorization env value = Inr a \<and> notBefore a = None"
  by (auto simp: validatedForCompile_def split: if_splits)

section \<open>Solana session keys\<close>

lemma compileSolana_Inr:
  assumes "compileSolanaSessionScope env value cluster ro = Inr (s, enf)"
  shows "\<exists>a g. validateAuthorization env value = Inr a \<and> notBefore a = None \<and> g \<in> set (grants a) \<and>
    map_option chain (asset_of env g) = Some cluster \<and> solana_chain_re cluster \<and>
    s = \<lparr>ss_cluster = cluster, ss_mint = asset_address env g, ss_budget = maxTotal g,
         ss_maxPerPayment = maxPerPayment g, ss_allowedRecipients = recipients g,
         ss_expiry = expiresAt a, ss_maxTxCount = maxCount g, ss_period = period g\<rparr>"
proof -
  obtain a where a: "validateAuthorization env value = Inr a" "notBefore a = None"
    and r: "solana_chain_re cluster"
    and c: "(case grants_on env cluster (grants a) of [g] \<Rightarrow>
         if \<exists>r \<in> set (g_rails g). r \<noteq> ''transfer'' \<and> r \<noteq> ''mpp-charge'' \<and> r \<noteq> ''x402-exact'' then
              Inl ''rail is not expressible by Solana scope''
            else if maxTotal g > u64_max \<or> maxPerPayment g > u64_max then Inl ''amount exceeds Solana u64''
            else Inr
              (\<lparr>ss_cluster = cluster, ss_mint = asset_address env g, ss_budget = maxTotal g,
                ss_maxPerPayment = maxPerPayment g, ss_allowedRecipients = recipients g,
                ss_expiry = expiresAt a, ss_maxTxCount = maxCount g, ss_period = period g\<rparr>, Device)
        | _ \<Rightarrow> Inl ''exactly one token grant is required'') = Inr (s, enf)"
    using assms by (auto simp: compileSolanaSessionScope_def validatedForCompile_Inr split: if_splits)
  obtain g where g: "grants_on env cluster (grants a) = [g]"
    using c by (cases "grants_on env cluster (grants a)" rule: list.exhaust; cases "tl (grants_on env cluster (grants a))") auto
  have "g \<in> set (grants_on env cluster (grants a))" using g by simp
  then have "g \<in> set (grants a)" "map_option chain (asset_of env g) = Some cluster" by (simp_all add: grants_on_def)
  with a r c g show ?thesis by (intro exI [of _ a] exI [of _ g]) (auto split: if_splits)
qed

text \<open>The namespace of a Solana asset is Solana.\<close>

lemma solana_asset:
  assumes "asset_of env g = Some p" "chain p = cluster" "solana_chain_re cluster"
  shows "pa_namespace p = SolanaNs \<and> pa_kind p = Token"
proof (rule ccontr)
  assume "\<not> ?thesis"
  then obtain n where "chain p = ''eip155:'' @ show_int n"
    using assms(1)
    by (auto simp: asset_of_def parseAsset_def Let_def split: option.splits if_splits prod.splits)
  then show False using assms(2,3) by (auto simp: solana_chain_iff)
qed

lemma canonical_recipient:
  assumes "b58_canonical env" "validateAuthorization env value = Inr a" "g \<in> set (grants a)"
    and "asset_of env g = Some p" "r \<in> set (recipients g)"
  shows "canonicalAddress env (JStr r) (pa_namespace p) = Some r"
  using validate_Inr_wf [OF assms(1,2)] assms(3-5)
  by (fastforce simp: wf_authorization_def wf_grant_def asset_of_def)

text \<open>What the key has recorded for the period the clock is in.\<close>

definition sol_period_spent :: "sol_key \<Rightarrow> int \<Rightarrow> int option" where
  "sol_period_spent k now_ms = (case periodState k now_ms of Inr (Some (_, v)) \<Rightarrow> Some v | _ \<Rightarrow> None)"

lemma sol_within_grant:
  assumes "sol_check k pay t t = None" "ss_period (sk_scope k) = period g" "ss_maxTxCount (sk_scope k) = maxCount g"
    and "ss_budget (sk_scope k) = maxTotal g" "ss_maxPerPayment (sk_scope k) = maxPerPayment g"
  shows "within_grant g (sp_amount pay) (t div 1000) (sk_spent k) (sk_useCount k) (sol_period_spent k t) \<and>
    (\<forall>v. sol_period_spent k t = Some v \<longrightarrow> 0 \<le> v)"
proof -
  note c = assms(1) [unfolded sol_check_None]
  have cp: "checkPeriod k (sp_amount pay) t = None" using c by blast
  have "p_start p \<le> t div 1000 \<and> (\<exists>v. sol_period_spent k t = Some v \<and> v + sp_amount pay \<le> p_amount p \<and> 0 \<le> v)"
    if p: "period g = Some p" for p
  proof -
    have "ss_period (sk_scope k) = Some p" using p assms(2) by simp
    then show ?thesis
      using cp by (auto simp: checkPeriod_def sol_period_spent_def periodState_def Let_def
        split: if_splits option.splits sum.splits)
  qed
  moreover have "sol_period_spent k t = None" if "period g = None"
    using that assms(2) by (simp add: sol_period_spent_def periodState_def)
  ultimately show ?thesis
    using c assms(2-5) unfolding within_grant_def by (cases "period g") auto
qed

lemma seconds_before: "t < e * 1000 \<Longrightarrow> t div 1000 < (e :: int)"
  by linarith

lemma safe_before: "0 \<le> n \<Longrightarrow> n < m \<Longrightarrow> safe_integer m \<Longrightarrow> safe_integer (n :: int)"
  by (simp add: safe_integer_def)

section \<open>Channel voucher keys\<close>

lemma compileMpp_Inr:
  assumes "compileMppSession env value cluster ctx ro = Inr ((vp, cl), enf)"
  shows "\<exists>a g. validateAuthorization env value = Inr a \<and> notBefore a = None \<and> g \<in> set (grants a) \<and>
    map_option chain (asset_of env g) = Some cluster \<and> solana_chain_re cluster \<and> ''mpp-session'' \<in> set (g_rails g) \<and>
    mpp_grant_refusal g = None \<and> mpp_bounds_refusal a g ctx = None \<and>
    vp_cluster vp = cluster \<and> vp_mint vp = asset_address env g \<and> vp_payee vp = hd (recipients g) \<and>
    vp_pricePerUnit vp = mc_pricePerUnit ctx \<and> vp_maxCumulative vp = maxTotal g \<and>
    vp_maxDelta vp = maxPerPayment g \<and> vp_expiry vp = expiresAt a"
proof -
  obtain a where a: "validateAuthorization env value = Inr a" "notBefore a = None" "solana_chain_re cluster"
    using assms by (auto simp: compileMppSession_def validatedForCompile_Inr split: if_splits)
  let ?sel = "filter (\<lambda>g. ''mpp-session'' \<in> set (g_rails g)) (grants_on env cluster (grants a))"
  obtain g where g: "?sel = [g]"
    using assms a
    by (cases ?sel; cases "tl ?sel") (auto simp: compileMppSession_def validatedForCompile_def split: if_splits)
  have "g \<in> set ?sel" using g by simp
  then have m: "g \<in> set (grants a)" "map_option chain (asset_of env g) = Some cluster" "''mpp-session'' \<in> set (g_rails g)"
    by (simp_all add: grants_on_def)
  show ?thesis
    using assms a g m
    by (intro exI [of _ a] exI [of _ g])
      (auto simp: compileMppSession_def validatedForCompile_def split: if_splits option.splits)
qed

lemma voucher_sequence_nonneg: "voucher_sequence d vs \<Longrightarrow> 0 \<le> last (0 # map cv_cumulativeAmount vs)"
proof (induction vs rule: rev_induct)
  case (snoc v vs)
  then have "0 \<le> last (0 # map cv_cumulativeAmount vs)" by (simp add: voucher_sequence_snoc)
  then show ?case using snoc.prems by (simp add: voucher_sequence_snoc)
qed simp

lemma solana_scope_enforced:
  assumes "b58_canonical env" "compileSolanaSessionScope env value cluster ro = Inr (sk_scope k, enf)"
    and "sol_check k pay t t = None" "0 \<le> t" "0 \<le> sk_spent k" "0 \<le> sk_useCount k" "safe_integer (sk_useCount k)"
  shows "\<exists>a i. validateAuthorization env value = Inr a \<and> i < length (grants a) \<and>
    asset_address env (grants a ! i) = ss_mint (sk_scope k) \<and>
    (\<forall>rail \<in> set (g_rails (grants a ! i)).
       evaluateSpend env value (JObj (spend_request (g_asset (grants a ! i)) (sp_recipient pay) (sp_amount pay) rail
         (t div 1000) (sk_spent k) (sk_useCount k) (sol_period_spent k t))) = Inr i)"
proof -
  obtain a g where a: "validateAuthorization env value = Inr a" "notBefore a = None" "g \<in> set (grants a)"
    "map_option chain (asset_of env g) = Some cluster" "solana_chain_re cluster"
    and s: "sk_scope k = \<lparr>ss_cluster = cluster, ss_mint = asset_address env g, ss_budget = maxTotal g,
         ss_maxPerPayment = maxPerPayment g, ss_allowedRecipients = recipients g,
         ss_expiry = expiresAt a, ss_maxTxCount = maxCount g, ss_period = period g\<rparr>"
    using compileSolana_Inr [OF assms(2)] by blast
  obtain i where i: "i < length (grants a)" "grants a ! i = g" using a(3) by (auto simp: in_set_conv_nth)
  obtain p where p: "asset_of env g = Some p" "chain p = cluster" using a(4) by auto
  note c = assms(3) [unfolded sol_check_None]
  have rec: "sp_recipient pay \<in> set (recipients g)" using c s by simp
  have w: "within_grant g (sp_amount pay) (t div 1000) (sk_spent k) (sk_useCount k) (sol_period_spent k t)"
    "\<forall>v. sol_period_spent k t = Some v \<longrightarrow> 0 \<le> v"
    using sol_within_grant [OF assms(3), of g] s by simp_all
  have at: "t div 1000 < expiresAt a" "0 \<le> t div 1000" using c s seconds_before assms(4) by simp_all
  have "safe_integer (expiresAt a)" using validate_Inr_wf [OF assms(1) a(1)] by (simp add: wf_authorization_def)
  then have "safe_integer (t div 1000)" using safe_before at by blast
  then have "evaluateSpend env value (JObj (spend_request (g_asset g) (sp_recipient pay) (sp_amount pay) rail
         (t div 1000) (sk_spent k) (sk_useCount k) (sol_period_spent k t))) = Inr i"
    if "rail \<in> set (g_rails g)" for rail
    using allowed_request [OF assms(1) a(1,2) i p(1) canonical_recipient [OF assms(1) a(1,3) p(1) rec] rec that at(1)
        _ assms(5) w(2) _ assms(7,6) w(1)] c by blast
  then show ?thesis using a(1) i s by (intro exI [of _ a] exI [of _ i]) simp
qed

lemma mpp_policy_enforced:
  assumes "b58_canonical env" "compileMppSession env value cluster ctx ro = Inr ((vk_policy k, cl), enf)"
    and "vouchers_ok senv k vs" "next_cumulative k channelId units t = Inr (c, n)" "0 \<le> t"
    and "0 \<le> cnt" "safe_integer cnt"
  shows "\<exists>a i. validateAuthorization env value = Inr a \<and> i < length (grants a) \<and>
    asset_address env (grants a ! i) = vp_mint (vk_policy k) \<and>
    evaluateSpend env value (JObj (spend_request (g_asset (grants a ! i)) (vp_payee (vk_policy k))
      (n - vk_lastCumulative k) ''mpp-session'' (t div 1000) (vk_lastCumulative k) cnt None)) = Inr i"
proof -
  obtain a g where a: "validateAuthorization env value = Inr a" "notBefore a = None" "g \<in> set (grants a)"
    "map_option chain (asset_of env g) = Some cluster" "''mpp-session'' \<in> set (g_rails g)" "mpp_grant_refusal g = None"
    and v: "vp_mint (vk_policy k) = asset_address env g" "vp_payee (vk_policy k) = hd (recipients g)"
      "vp_maxCumulative (vk_policy k) = maxTotal g" "vp_maxDelta (vk_policy k) = maxPerPayment g"
      "vp_expiry (vk_policy k) = expiresAt a"
    using compileMpp_Inr [OF assms(2)] by blast
  obtain i where i: "i < length (grants a)" "grants a ! i = g" using a(3) by (auto simp: in_set_conv_nth)
  obtain p where p: "asset_of env g = Some p" using a(4) by auto
  note nc = next_cumulative_Inr [OF assms(4)]
  have g: "period g = None" "maxCount g = None" "length (recipients g) = 1"
    using a(6) by (simp_all add: mpp_grant_refusal_def)
  then have rec: "vp_payee (vk_policy k) \<in> set (recipients g)" using v(2) by (cases "recipients g") auto
  have "bc_maxCumulative c \<le> maxTotal g" "0 \<le> vk_lastCumulative k"
    using assms(3) nc v(3) voucher_sequence_nonneg unfolding vouchers_ok_def by fastforce+
  then have w: "within_grant g (n - vk_lastCumulative k) (t div 1000) (vk_lastCumulative k) cnt None"
    "0 \<le> vk_lastCumulative k"
    using nc g v by (auto simp: within_grant_def)
  have at: "t div 1000 < expiresAt a" "0 \<le> t div 1000" using nc v seconds_before assms(5) by simp_all
  have "safe_integer (expiresAt a)" using validate_Inr_wf [OF assms(1) a(1)] by (simp add: wf_authorization_def)
  then have "safe_integer (t div 1000)" using safe_before at by blast
  then have "evaluateSpend env value (JObj (spend_request (g_asset g) (vp_payee (vk_policy k))
      (n - vk_lastCumulative k) ''mpp-session'' (t div 1000) (vk_lastCumulative k) cnt None)) = Inr i"
    using allowed_request [OF assms(1) a(1,2) i p canonical_recipient [OF assms(1) a(1,3) p rec] rec a(5) at(1)
        _ w(2) _ _ assms(7,6) w(1)] nc by simp
  then show ?thesis using a(1) i v(1) by (intro exI [of _ a] exI [of _ i]) simp
qed

section \<open>EVM session keys\<close>

lemma sameStrings_set: "sameStrings l r \<Longrightarrow> set l = set r"
  unfolding sameStrings_def by (metis set_sort)

lemma evm_selection_None:
  "evm_selection_refusal env sel = None \<longleftrightarrow>
     sel \<noteq> [] \<and> (\<forall>g \<in> set sel. set (g_rails g) \<subseteq> {''transfer'', ''x402-exact''}) \<and>
     (\<forall>g \<in> set sel. sameStrings (recipients g) (recipients (hd sel)) \<and> maxCount g = maxCount (hd sel)) \<and>
     distinct (map g_asset sel) \<and>
     (\<forall>g \<in> set (token_grants env sel). sameStrings (g_rails g) (scope_rails env sel))"
  unfolding evm_selection_refusal_def first_some_None list.set by (simp add: subset_iff) blast

lemma compileEvm_Inr:
  assumes "compileEvmSessionScope env value chainId ro md = Inr (s, enf)"
  shows "\<exists>a sel. validateAuthorization env value = Inr a \<and> notBefore a = None \<and>
    sel = grants_on env (''eip155:'' @ show_int chainId) (grants a) \<and> evm_selection_refusal env sel = None \<and>
    (md = AsEip7702 \<longrightarrow> on_chain_refusal env chainId sel = None) \<and> s = compiled_evm_scope env a chainId md sel"
  using assms
  by (auto simp: compileEvmSessionScope_def validatedForCompile_Inr Let_def split: if_splits option.splits)

lemma erc20_asset:
  assumes "has_kind env Erc20 g"
  shows "\<exists>p addr. asset_of env g = Some p \<and> pa_namespace p = Eip155 \<and> pa_address p = Some addr \<and>
    asset_address env g = addr \<and> canonical p = chain p @ ''/erc20:'' @ addr \<and>
    toChecksumAddress (e_keccak env) addr = Some addr \<and> evm_addr_re addr"
proof -
  obtain p where p: "asset_of env g = Some p" "pa_kind p = Erc20" using assms by (auto simp: has_kind_def)
  then obtain addr x where "pa_namespace p = Eip155" "pa_address p = Some addr" "canonical p = chain p @ ''/erc20:'' @ addr"
    "toChecksumAddress (e_keccak env) x = Some addr"
    by (auto simp: asset_of_def parseAsset_def Let_def split: option.splits if_splits prod.splits)
  then show ?thesis using p toChecksumAddress_idem toChecksumAddress_Some
    by (intro exI [of _ p] exI [of _ addr]) (auto simp: asset_address_def)
qed

lemma same_address:
  assumes "toChecksumAddress k x = Some x" "toChecksumAddress k y = Some y" "lower x = lower y"
  shows "x = y"
proof -
  have "evm_addr_re x" "evm_addr_re y" using assms(1,2) toChecksumAddress_Some by blast+
  then show ?thesis using toChecksumAddress_lower_eq [of x y k] assms by simp
qed

lemma tokens_distinct_ci:
  assumes "evm_selection_refusal env sel = None" "sel = grants_on env chn gs" "\<forall>g \<in> set gs. wf_grant env g"
  shows "distinct_ci (map (asset_address env) (token_grants env sel))"
proof -
  let ?ts = "token_grants env sel"
  have d: "distinct (map g_asset sel)" using assms(1) by (simp add: evm_selection_refusal_def)
  have inj: "inj_on (\<lambda>g. lower (asset_address env g)) (set ?ts)"
  proof (rule inj_onI)
    fix g h assume gh: "g \<in> set ?ts" "h \<in> set ?ts" "lower (asset_address env g) = lower (asset_address env h)"
    have sel: "g \<in> set sel" "h \<in> set sel" using gh by (auto simp: token_grants_def)
    have chn: "map_option chain (asset_of env g) = Some chn" "map_option chain (asset_of env h) = Some chn"
      "wf_grant env g" "wf_grant env h"
      using sel assms(2,3) by (auto simp: grants_on_def)
    have "has_kind env Erc20 g" "has_kind env Erc20 h" using gh(1,2) by (simp_all add: token_grants_def)
    then obtain p q where p: "asset_of env g = Some p" "canonical p = chain p @ ''/erc20:'' @ asset_address env g"
        "toChecksumAddress (e_keccak env) (asset_address env g) = Some (asset_address env g)"
      and q: "asset_of env h = Some q" "canonical q = chain q @ ''/erc20:'' @ asset_address env h"
        "toChecksumAddress (e_keccak env) (asset_address env h) = Some (asset_address env h)"
      using erc20_asset by metis
    have "asset_address env g = asset_address env h" by (rule same_address [OF p(3) q(3) gh(3)])
    then have "canonical p = canonical q" using p(1,2) q(1,2) chn(1,2) by simp
    moreover have "canonical p = g_asset g" "canonical q = g_asset h"
      using chn(3,4) p(1) q(1) by (auto simp: wf_grant_def asset_of_def)
    ultimately show "g = h" using d sel by (metis distinct_map inj_onD)
  qed
  have "distinct sel" using d by (simp add: distinct_map)
  then have "distinct ?ts" by (simp add: token_grants_def)
  then show ?thesis using inj
    by (simp add: distinct_ci_def distinct_map) (metis comp_def inj_on_cong comp_inj_on_iff inj_on_imageI inj_on_imageI2)
qed

lemma evm_addr_of_lower:
  assumes "evm_addr_re x" "lower x = lower (''0x'' @ z)"
  shows "evm_addr_re (''0x'' @ z)"
proof -
  obtain r where r: "x = ''0x'' @ r" "length r = 40" "\<forall>c \<in> set r. is_hex c" using assms(1) evm_addr_iff by blast
  have l: "lower r = lower z" using assms(2) unfolding r(1) lower_0x by simp
  then have "length z = 40" using r(2) by (metis length_lower)
  moreover have "\<forall>c \<in> set (lower z). is_hex c" using r(3) unfolding l [symmetric] by (auto simp: lower_def)
  then have "\<forall>c \<in> set z. is_hex c" by (auto simp: lower_def)
  ultimately show ?thesis unfolding evm_addr_iff by blast
qed

lemma or_nil_some_entries [simp]: "or_nil (some_entries es) = es"
  by (simp add: some_entries_def)

definition period_entries :: "authz_env \<Rightarrow> grant list \<Rightarrow> session_period entries" where
  "period_entries env ts = [(asset_address env g, p). g \<leftarrow> ts, p \<leftarrow> (case period g of None \<Rightarrow> [] | Some p \<Rightarrow> [p])]"

lemma period_entries_mem:
  "(x, p) \<in> set (period_entries env ts) \<longleftrightarrow> (\<exists>g \<in> set ts. x = asset_address env g \<and> period g = Some p)"
  by (induction ts) (auto simp: period_entries_def split: option.splits)

lemma period_entries_keys:
  "map fst (period_entries env ts) = map (asset_address env) (filter (\<lambda>g. period g \<noteq> None) ts)"
  by (induction ts) (auto simp: period_entries_def split: option.splits)

lemma native_not_address: "evm_addr_re x \<Longrightarrow> lower x \<noteq> lower ''native''"
  unfolding evm_addr_iff by (auto simp: lower_def)

text \<open>The period of a token grant is the one its address finds in the scope.\<close>

lemma compiled_period:
  assumes d: "distinct_ci (map (asset_address env) ts)" and g: "g \<in> set ts" "\<forall>g \<in> set ts. has_kind env Erc20 g"
    and native: "native = [] \<or> (\<exists>q. native = [(''native'', q)])"
  shows "entry_ci (asset_address env g) (some_entries (period_entries env ts @ native)) =
      map_option (\<lambda>p. (asset_address env g, p)) (period g) \<and>
    (\<forall>p. period g = Some p \<longrightarrow>
      map_of (or_nil (some_entries (period_entries env ts @ native))) (asset_address env g) = Some p)"
proof -
  let ?es = "period_entries env ts @ native"
  have addr: "evm_addr_re (asset_address env h)" if "h \<in> set ts" for h using erc20_asset g(2) that by metis
  have "distinct_ci (map (asset_address env) (filter (\<lambda>g. period g \<noteq> None) ts))"
    using distinct_map_filter [of "\<lambda>g. lower (asset_address env g)" ts] d by (simp add: distinct_ci_def comp_def)
  then have dk: "distinct_ci (map fst ?es)"
    using native addr native_not_address
    by (auto simp: distinct_ci_def period_entries_keys simp flip: map_map)
  have uniq: "h = g" if "h \<in> set ts" "lower (asset_address env h) = lower (asset_address env g)" for h
    using d that g(1) by (auto simp: distinct_ci_def distinct_map comp_def inj_on_def)
  show ?thesis
  proof (cases "period g")
    case None
    have "lower x \<noteq> lower (asset_address env g)" if m: "(x, q) \<in> set ?es" for x q
    proof
      assume l: "lower x = lower (asset_address env g)"
      consider "(x, q) \<in> set (period_entries env ts)" | "x = ''native''" using m native by auto
      then show False
      proof cases
        case 1
        then obtain h where "h \<in> set ts" "x = asset_address env h" "period h = Some q"
          by (auto simp: period_entries_mem)
        then show False using uniq l None by fastforce
      next
        case 2
        then show False using l native_not_address [OF addr [OF g(1)]] by simp
      qed
    qed
    then show ?thesis using None by (auto simp: entry_ci_def find_None_iff)
  next
    case (Some p)
    then have m: "(asset_address env g, p) \<in> set ?es" using g(1) by (auto simp: period_entries_mem)
    have "distinct (map fst ?es)" using dk unfolding distinct_ci_def by (simp only: distinct_map [of lower])
    then have "map_of ?es (asset_address env g) = Some p" using m by (rule map_of_is_SomeI)
    moreover have "entry_ci (asset_address env g) (some_entries ?es) = Some (asset_address env g, p)"
      using m dk by (intro entry_ci_unique) simp_all
    ultimately show ?thesis using Some by simp
  qed
qed

text \<open>What the key has recorded for the token's current period.\<close>

definition evm_period_spent :: "session_scope \<Rightarrow> counters \<Rightarrow> string \<Rightarrow> int \<Rightarrow> int option" where
  "evm_period_spent s c token now =
     (case entry_ci token (periodLimits s) of None \<Rightarrow> None
      | Some (asset, p) \<Rightarrow> Some (period_spent (c_periods c) asset ((now - p_start p) div p_seconds p)))"

lemma period_passed:
  assumes "period_guard s tx usage now = None" "decodeScopedTokenSpend s tx = Spend t"
    and "entry_ci (ts_token t) (periodLimits s) = Some (asset, p)" "map_of (or_nil (periodLimits s)) asset = Some p"
    and "asset \<noteq> []"
  shows "p_start p \<le> now \<and> 0 \<le> period_spent usage asset ((now - p_start p) div p_seconds p) \<and>
    period_spent usage asset ((now - p_start p) div p_seconds p) + ts_amount t \<le> p_amount p"
proof -
  have a: "period_asset s (Some t) = Some asset" using assms(3) by (simp add: period_asset_def)
  obtain c where c: "periodUsageFor s tx usage (Some t) now = Inr c"
    using period_guard_Inr [OF assms(1)] assms(2) by (auto simp: spend_of_def)
  let ?i = "(now - p_start p) div p_seconds p"
  have f: "p_start p \<le> now" "\<not> usage_malformed ?i (map_of (or_nil usage) asset)"
    "c = Some \<lparr>pc_asset = asset, pc_index = ?i, pc_amount = ts_amount t\<rparr>"
    using c a assms(4,5) by (auto simp: periodUsageFor_def Let_def split: if_splits)
  then have "period_spent usage asset ?i + ts_amount t \<le> p_amount p"
    using period_guard_None [OF assms(1), of "\<lparr>pc_asset = asset, pc_index = ?i, pc_amount = ts_amount t\<rparr>" p] c assms(2,4)
    by (simp add: spend_of_def)
  moreover have "0 \<le> period_spent usage asset ?i"
    using f(2) by (auto simp: period_spent_def usage_malformed_def split: option.splits)
  ultimately show ?thesis using f(1) by blast
qed

lemma evm_scope_fields:
  "tokenAllowances (compiled_evm_scope env a chainId md sel) =
     some_entries (map (\<lambda>g. (asset_address env g, maxTotal g)) (token_grants env sel))"
  "tokenMaxPerTx (compiled_evm_scope env a chainId md sel) =
     some_entries (map (\<lambda>g. (asset_address env g, maxPerPayment g))
       (filter (\<lambda>g. md = AsOffchain \<and> maxPerPayment g < maxTotal g) (token_grants env sel)))"
  "periodLimits (compiled_evm_scope env a chainId md sel) =
     some_entries (period_entries env (token_grants env sel) @
       (case Option.bind (native_grant env sel) period of None \<Rightarrow> [] | Some p \<Rightarrow> [(''native'', p)]))"
  "allowedRecipients (compiled_evm_scope env a chainId md sel) = Some (recipients (hd sel))"
  "maxTxCount (compiled_evm_scope env a chainId md sel) = maxCount (hd sel)"
  "rails (compiled_evm_scope env a chainId md sel) = Some (scope_rails env sel)"
  "expiry (compiled_evm_scope env a chainId md sel) = expiresAt a"
  by (simp_all add: compiled_evm_scope_def Let_def period_entries_def)

lemma evm_within_grant:
  assumes s: "s = compiled_evm_scope env a chainId md sel"
    and ref: "evm_selection_refusal env sel = None" "md = AsEip7702 \<longrightarrow> on_chain_refusal env chainId sel = None"
    and dist: "distinct_ci (map (asset_address env) (token_grants env sel))"
    and g: "g \<in> set (token_grants env sel)" "ts_token t = asset_address env g" "ts_allowance t = maxTotal g"
    and chk: "token_guard s tx (c_tokens c) = None" "period_guard s tx (c_periods c) now = None"
      "count_guard s (c_count c) = None" "decodeScopedTokenSpend s tx = Spend t"
    and spent: "0 \<le> accumulatedTokenSpend (c_tokens c) (ts_token t)"
  shows "within_grant g (ts_amount t) now (accumulatedTokenSpend (c_tokens c) (ts_token t)) (c_count c)
      (evm_period_spent s c (ts_token t) now) \<and>
    (\<forall>v. evm_period_spent s c (ts_token t) now = Some v \<longrightarrow> 0 \<le> v)"
proof -
  let ?ts = "token_grants env sel" and ?acc = "accumulatedTokenSpend (c_tokens c) (ts_token t)"
  have kinds: "\<forall>g \<in> set ?ts. has_kind env Erc20 g" by (simp add: token_grants_def)
  have gs: "g \<in> set sel" using g(1) by (simp add: token_grants_def)
  have addr: "evm_addr_re (asset_address env g)" using erc20_asset kinds g(1) by metis
  then have ne: "asset_address env g \<noteq> []" by (auto simp: evm_addr_iff)
  note tg = token_guard_Spend [OF chk(1,4)]
  have total: "?acc + ts_amount t \<le> maxTotal g" using tg g(3) by simp
  have cnt: "\<forall>n. maxCount g = Some n \<longrightarrow> c_count c < n"
  proof -
    have "maxCount g = maxCount (hd sel)" using ref(1) gs unfolding evm_selection_None by blast
    then show ?thesis using chk(3) by (simp add: s evm_scope_fields count_guard_None)
  qed
  obtain nat where "nat = (case Option.bind (native_grant env sel) period of None \<Rightarrow> [] | Some p \<Rightarrow> [(''native'', p)])"
    and nat: "nat = [] \<or> (\<exists>q. nat = [(''native'', q)])" by (auto split: option.splits)
  note per = compiled_period [OF dist g(1) kinds nat]
  have pl: "periodLimits s = some_entries (period_entries env ?ts @ nat)"
    by (simp add: s evm_scope_fields \<open>nat = _\<close>)
  have none: "evm_period_spent s c (ts_token t) now = None" if "period g = None"
    using per that by (simp add: evm_period_spent_def pl g(2))
  have some: "\<exists>v. evm_period_spent s c (ts_token t) now = Some v \<and> p_start p \<le> now \<and> 0 \<le> v \<and> v + ts_amount t \<le> p_amount p"
    if "period g = Some p" for p
  proof -
    have e: "entry_ci (ts_token t) (periodLimits s) = Some (asset_address env g, p)"
      "map_of (or_nil (periodLimits s)) (asset_address env g) = Some p"
      using per that by (simp_all add: pl g(2))
    from period_passed [OF chk(2,4) e ne] show ?thesis using e(1) by (simp add: evm_period_spent_def)
  qed
  have cap: "ts_amount t \<le> maxPerPayment g"
  proof (cases "md = AsOffchain \<and> maxPerPayment g < maxTotal g")
    case True
    have "entry_ci (ts_token t) (tokenMaxPerTx s) = Some (asset_address env g, maxPerPayment g)"
    proof (rule entry_ci_unique)
      show "distinct_ci (map fst (or_nil (tokenMaxPerTx s)))"
        using distinct_map_filter [of "\<lambda>g. lower (asset_address env g)" ?ts] dist
        by (simp add: s evm_scope_fields distinct_ci_def comp_def)
    qed (use True g in \<open>auto simp: s evm_scope_fields\<close>)
    then show ?thesis using tg by blast
  next
    case False
    show ?thesis
    proof (cases "md = AsEip7702")
      case True
      then have "length ?ts = 1" "\<not> maxPerPayment (hd ?ts) < on_chain_bound (hd ?ts)"
        using ref(2) by (simp_all add: on_chain_refusal_def Let_def)
      then have b: "on_chain_bound g \<le> maxPerPayment g" using g(1) by (cases ?ts) auto
      show ?thesis
      proof (cases "period g")
        case None
        then show ?thesis using b total spent by (simp add: on_chain_bound_def)
      next
        case (Some p)
        then show ?thesis using b total spent some [OF Some] by (auto simp: on_chain_bound_def split: if_splits)
      qed
    next
      case False
      then have "maxTotal g \<le> maxPerPayment g" using \<open>\<not> (md = AsOffchain \<and> maxPerPayment g < maxTotal g)\<close> by (cases md) auto
      then show ?thesis using total spent by simp
    qed
  qed
  show ?thesis
    using cap total cnt some none unfolding within_grant_def by (cases "period g") fastforce+
qed

lemma evm_scope_enforced:
  assumes canon: "b58_canonical env" and cmp: "compileEvmSessionScope env value chainId ro md = Inr (s, enf)"
    and chk: "checkScopeAgainstTx cfg s c tx now = Inr rest" "decodeScopedTokenSpend s tx = Spend t"
    and rail: "rail \<in> set (or_nil (rails s))"
    and time: "0 \<le> now" "now < expiry s"
    and cnt: "0 < ts_amount t" "0 \<le> accumulatedTokenSpend (c_tokens c) (ts_token t)" "0 \<le> c_count c" "safe_integer (c_count c)"
  shows "\<exists>a i. validateAuthorization env value = Inr a \<and> i < length (grants a) \<and>
    asset_address env (grants a ! i) = ts_token t \<and>
    evaluateSpend env value (JObj (spend_request (g_asset (grants a ! i)) (ts_recipient t) (ts_amount t) rail now
      (accumulatedTokenSpend (c_tokens c) (ts_token t)) (c_count c) (evm_period_spent s c (ts_token t) now))) = Inr i"
proof -
  obtain a sel where a: "validateAuthorization env value = Inr a" "notBefore a = None"
    and sel: "sel = grants_on env (''eip155:'' @ show_int chainId) (grants a)"
    and ref: "evm_selection_refusal env sel = None" "md = AsEip7702 \<longrightarrow> on_chain_refusal env chainId sel = None"
    and s: "s = compiled_evm_scope env a chainId md sel"
    using compileEvm_Inr [OF cmp] by blast
  note wf = validate_Inr_wf [OF canon a(1), unfolded wf_authorization_def]
  have dist: "distinct_ci (map (asset_address env) (token_grants env sel))"
    using tokens_distinct_ci [OF ref(1) sel] wf by blast
  obtain v gas where guards: "token_guard s tx (c_tokens c) = None" "period_guard s tx (c_periods c) now = None"
    "recipient_guard s tx = None" "count_guard s (c_count c) = None"
    using chk(1) by (rule check_guards)
  obtain target where "entry_ci target (tokenAllowances s) = Some (ts_token t, ts_allowance t)"
    using decode_Spend [OF chk(2)] by blast
  then have "(ts_token t, ts_allowance t) \<in> set (or_nil (tokenAllowances s))" using entry_ci_Some by fastforce
  then obtain g where g: "g \<in> set (token_grants env sel)" "ts_token t = asset_address env g" "ts_allowance t = maxTotal g"
    by (auto simp: s evm_scope_fields)
  have gs: "g \<in> set sel" "g \<in> set (grants a)" using g(1) sel by (auto simp: token_grants_def grants_on_def)
  obtain p where p: "asset_of env g = Some p" "pa_namespace p = Eip155"
    using erc20_asset [of env g] g(1) by (auto simp: token_grants_def)
  have same: "set (recipients g) = set (recipients (hd sel))" "rail \<in> set (g_rails g)"
    using ref(1) gs(1) g(1) rail sameStrings_set unfolding evm_selection_None by (auto simp: s evm_scope_fields)
  have "recipients g \<noteq> []" using wf gs(2) by (auto simp: wf_grant_def)
  then have "recipients (hd sel) \<noteq> []" using same(1) by auto
  then obtain x where x: "x \<in> set (recipients (hd sel))" "lower x = lower (ts_recipient t)"
    using recipient_guard_None [OF guards(3)] chk(2)
    by (auto simp: s evm_scope_fields recipient_of_def listed_ci_def)
  have cx: "canonicalAddress env (JStr x) Eip155 = Some x"
    using canonical_recipient [OF canon a(1) gs(2) p(1)] x(1) same(1) p(2) by auto
  have ex: "evm_addr_re x" "toChecksumAddress (e_keccak env) x = Some x"
    using cx by (auto simp: canonicalAddress_def split: if_splits)
  obtain z where z: "ts_recipient t = ''0x'' @ z"
    using chk(2) by (auto simp: decodeScopedTokenSpend_def Let_def split: if_splits option.splits)
  have er: "evm_addr_re (ts_recipient t)" using evm_addr_of_lower [OF ex(1)] x(2) unfolding z by blast
  have "toChecksumAddress (e_keccak env) (ts_recipient t) = Some x"
    using toChecksumAddress_lower_eq [OF er ex(1)] x(2) ex(2) by simp
  then have cr: "canonicalAddress env (JStr (ts_recipient t)) (pa_namespace p) = Some x"
    using er by (simp add: canonicalAddress_def p(2))
  have w: "within_grant g (ts_amount t) now (accumulatedTokenSpend (c_tokens c) (ts_token t)) (c_count c)
      (evm_period_spent s c (ts_token t) now)"
    "\<forall>v. evm_period_spent s c (ts_token t) now = Some v \<longrightarrow> 0 \<le> v"
    using evm_within_grant [OF s ref dist g guards(1,2,4) chk(2) cnt(2)] by blast+
  obtain i where i: "i < length (grants a)" "grants a ! i = g" using gs(2) by (auto simp: in_set_conv_nth)
  have at: "now < expiresAt a" using time s by (simp add: evm_scope_fields)
  then have "safe_integer now" using safe_before time(1) wf by blast
  then have "evaluateSpend env value (JObj (spend_request (g_asset g) (ts_recipient t) (ts_amount t) rail now
      (accumulatedTokenSpend (c_tokens c) (ts_token t)) (c_count c) (evm_period_spent s c (ts_token t) now))) = Inr i"
    using allowed_request [OF canon a i p(1) cr _ same(2) at cnt(1,2) w(2) _ cnt(4,3) w(1)] x(1) same(1) by blast
  then show ?thesis using a(1) i g(2) by (intro exI [of _ a] exI [of _ i]) simp
qed

section \<open>Concrete compilations\<close>

definition demo_spl_env :: authz_env where
  "demo_spl_env = \<lparr>e_keccak = (\<lambda>x. replicate 32 0), e_sha256 = (\<lambda>x. replicate 32 0),
     b58_decode = s58_decode toy_sol, b58_encode = s58_encode toy_sol\<rparr>"

lemma demo_spl_canonical: "b58_canonical demo_spl_env"
  by (auto simp: b58_canonical_def demo_spl_env_def toy_sol_def swap_known_twice text_of_bytes_utf8)

definition demo_cluster :: string where
  "demo_cluster = ''solana:'' @ replicate 32 CHR ''g''"

definition demo_spl_doc :: "string \<Rightarrow> int option \<Rightarrow> session_period option \<Rightarrow> authorization_doc" where
  "demo_spl_doc rail cnt p = \<lparr>principal = demo_cluster @ '':'' @ sol_addr CHR ''k'', label_text = None,
     grants = [\<lparr>g_asset = demo_cluster @ ''/token:'' @ sol_addr CHR ''m'', recipients = [if rail = ''mpp-session'' then sol_addr CHR ''q'' else sol_addr CHR ''r''],
       maxPerPayment = 300, maxTotal = 1000, maxCount = cnt, period = p, g_rails = [rail]\<rparr>],
     notBefore = None, expiresAt = 5000\<rparr>"

definition demo_spl_value :: jsval where
  "demo_spl_value = authorization_js (demo_spl_doc ''transfer'' (Some 3)
     (Some \<lparr>p_amount = 500, p_seconds = 60, p_start = 1000\<rparr>))"

definition demo_mpp_value :: jsval where
  "demo_mpp_value = authorization_js (demo_spl_doc ''mpp-session'' None None)"

definition demo_mpp_context :: mpp_context where
  "demo_mpp_context = \<lparr>mc_channelProgram = channel_program, mc_payer = sol_addr CHR ''p'', mc_pricePerUnit = 10,
     mc_deposit = 1000, mc_gracePeriod = None\<rparr>"

definition demo_transfer :: session_tx where
  "demo_transfer = empty_tx\<lparr>tx_to := Some AuthzSpend.demo_token, tx_chainId := Some 1,
     tx_data := Some (''0xa9059cbb'' @ replicate 24 CHR ''0'' @ replicate 40 CHR ''b'' @ replicate 62 CHR ''0'' @ ''28'')\<rparr>"

definition demo_counters :: counters where
  "demo_counters = \<lparr>c_count = 0, c_value = 0, c_gas = 0, c_tokens = None, c_periods = None\<rparr>"

lemma demo_spl_compiles:
  "compileSolanaSessionScope demo_spl_env demo_spl_value demo_cluster False = Inr (demo_sol_scope, Device)"
  by code_simp

text \<open>The address of the channel program, as the base58 number it spells.\<close>

definition channel_program_number :: nat where
  "channel_program_number = 75822444875365196818290240196343548007642759818282648262639022858095683704238"

lemma channel_program_valid: "isValidSolanaAddress channel_program"
proof -
  have "\<forall>c \<in> set channel_program. base58_char c" by code_simp
  moreover have "base58_value solana_base58 0 channel_program = Some channel_program_number"
    by (simp add: channel_program_def solana_base58_def channel_program_number_def)
  moreover have "length (significant_hex channel_program_number) = 64"
    by (simp add: significant_hex_def channel_program_number_def show_base_def to_base.simps Let_def pad_start_def
        del: One_nat_def)
  moreover have "leading CHR ''1'' channel_program = 0" "length channel_program = 44"
    by (simp_all add: leading_def channel_program_def)
  ultimately show ?thesis by (simp add: isValidSolanaAddress_def)
qed

lemma channel_program_canonical:
  "canonicalSolanaAddress demo_spl_env (JStr channel_program) = Some channel_program"
proof -
  have "s58_decode toy_sol channel_program = Some (replicate 32 206)" "s58_encode toy_sol (replicate 32 206) = channel_program"
    by code_simp+
  moreover have "channel_program \<noteq> []" by (simp add: channel_program_def)
  ultimately show ?thesis
    using channel_program_valid by (simp add: canonicalSolanaAddress_def demo_spl_env_def isValidAddress_def)
qed

lemma demo_mpp_compiles:
  "\<exists>cl. compileMppSession demo_spl_env demo_mpp_value demo_cluster demo_mpp_context False =
     Inr ((demo_vk_policy, cl), Device)"
proof -
  let ?a = "demo_spl_doc ''mpp-session'' None None"
  let ?g = "hd (grants ?a)"
  have v: "validateAuthorization demo_spl_env demo_mpp_value = Inr ?a" by code_simp
  have c: "solana_chain_re demo_cluster" by code_simp
  have s: "filter (\<lambda>g. ''mpp-session'' \<in> set (g_rails g)) (grants_on demo_spl_env demo_cluster (grants ?a)) = [?g]"
    by code_simp
  have p: "canonicalSolanaAddress demo_spl_env (JStr (sol_addr CHR ''p'')) = Some (sol_addr CHR ''p'')" by code_simp
  have r: "mpp_grant_refusal ?g = None" "mpp_bounds_refusal ?a ?g demo_mpp_context = None" by code_simp+
  have m: "asset_address demo_spl_env ?g = sol_addr CHR ''m''" "hd (recipients ?g) = sol_addr CHR ''q''" by code_simp+
  have ne: "channel_program \<noteq> []" "sol_addr CHR ''p'' \<noteq> []" by (simp_all add: channel_program_def sol_addr_def)
  have k: "mc_channelProgram demo_mpp_context = channel_program" "mc_payer demo_mpp_context = sol_addr CHR ''p''"
    by (simp_all add: demo_mpp_context_def)
  have b: "notBefore ?a = None" "expiresAt ?a = 5000" "maxTotal ?g = 1000" "maxPerPayment ?g = 300"
    by (simp_all add: demo_spl_doc_def)
  show ?thesis
    unfolding compileMppSession_def validatedForCompile_def
    by (simp add: v c s p r m ne k b channel_program_canonical del: filter.simps)
      (simp add: demo_vk_policy_def demo_mpp_context_def demo_cluster_def)
qed

section \<open>Properties\<close>



text \<open>
  C21: a compiled Solana scope enforces its authorization: whenever the check of the session key
  passes a payment, \<open>evaluateSpend\<close> allows it under the compiled grant, on each of its rails, with
  the amounts, the count and the period usage the key has recorded.
\<close>

theorem compiled_solana_scope_enforces:
  assumes "b58_canonical env" "compileSolanaSessionScope env doc cluster ro = Inr (sk_scope k, enf)"
    and "sol_check k pay t t = None" "0 \<le> t" "0 \<le> sk_spent k" "0 \<le> sk_useCount k" "safe_integer (sk_useCount k)"
  shows "\<exists>a i. validateAuthorization env doc = Inr a \<and> i < length (grants a) \<and>
    asset_address env (grants a ! i) = ss_mint (sk_scope k) \<and>
    (\<forall>rail \<in> set (g_rails (grants a ! i)).
       evaluateSpend env doc (JObj (spend_request (g_asset (grants a ! i)) (sp_recipient pay) (sp_amount pay) rail
         (t div 1000) (sk_spent k) (sk_useCount k) (sol_period_spent k t))) = Inr i)"
  by (rule solana_scope_enforced [OF assms])

lemma compiled_solana_scope_enforces_witness:
  "\<exists>a i. validateAuthorization demo_spl_env demo_spl_value = Inr a \<and> i < length (grants a) \<and>
     asset_address demo_spl_env (grants a ! i) = sol_addr CHR ''m''"
proof -
  let ?k = "demo_sol_key undefined"
  have c: "compileSolanaSessionScope demo_spl_env demo_spl_value demo_cluster False = Inr (sk_scope ?k, Device)"
    using demo_spl_compiles by (simp add: demo_sol_fields)
  have k: "sol_check ?k demo_sol_pay 2000000 2000000 = None"
    by (simp add: sol_check_def checkPeriod_def periodState_def Let_def demo_sol_key_def demo_sol_info_def
        sol_info.defs sol_key.defs demo_sol_scope_def demo_sol_pay_def throw_if_def sol_addr_def)
  from compiled_solana_scope_enforces [OF demo_spl_canonical c k] show ?thesis
    by (auto simp: demo_sol_fields demo_sol_scope_def safe_integer_def max_safe_def)
qed

text \<open>
  C22: a compiled voucher policy enforces its authorization: every voucher signed under it raises the
  cumulative amount by a spend that \<open>evaluateSpend\<close> allows on the \<open>mpp-session\<close> rail, with the
  amount already signed for as the total spent so far.
\<close>

theorem compiled_mpp_policy_enforces:
  assumes "b58_canonical env" "compileMppSession env doc cluster ctx ro = Inr ((vk_policy k, cl), enf)"
    and "find_rec vk_id kid (table st) = Some k" "vouchers_ok senv k vs"
    and "vk_signVoucher senv cfg kid channelId units t st = Inr ((v, sig), st')" "0 \<le> t" "0 \<le> cnt" "safe_integer cnt"
  shows "\<exists>a i. validateAuthorization env doc = Inr a \<and> i < length (grants a) \<and>
    asset_address env (grants a ! i) = vp_mint (vk_policy k) \<and>
    evaluateSpend env doc (JObj (spend_request (g_asset (grants a ! i)) (vp_payee (vk_policy k))
      (cv_cumulativeAmount v - vk_lastCumulative k) ''mpp-session'' (t div 1000) (vk_lastCumulative k) cnt None)) = Inr i"
proof -
  obtain k' where "voucher_change senv cfg channelId units t k = Inr ((v, sig), k')"
    using own_update_Inr [OF assms(5) [unfolded vk_signVoucher_def]] assms(3) by auto
  then obtain c where "next_cumulative k channelId units t = Inr (c, cv_cumulativeAmount v)"
    using voucher_change_Inr by blast
  from mpp_policy_enforced [OF assms(1,2,4) this assms(6-8)] show ?thesis .
qed

lemma compiled_mpp_policy_enforces_witness:
  "\<exists>a i. validateAuthorization demo_spl_env demo_mpp_value = Inr a \<and> i < length (grants a) \<and>
     asset_address demo_spl_env (grants a ! i) = sol_addr CHR ''m''"
proof -
  obtain kp v s a' where sgn: "vk_signVoucher toy_sol demo_vk_cfg ''id1'' demo_channel_id 25 2000000 (demo_vk_store kp)
      = Inr ((v, s), a')" using demo_vk_signs by blast
  have f: "find_rec vk_id ''id1'' (table (demo_vk_store kp)) = Some (demo_vk kp)"
    by (simp add: table_def find_rec_def demo_vk_def)
  obtain cl where c: "compileMppSession demo_spl_env demo_mpp_value demo_cluster demo_mpp_context False =
      Inr ((vk_policy (demo_vk kp), cl), Device)"
    using demo_mpp_compiles by (auto simp: demo_vk_def)
  from compiled_mpp_policy_enforces [OF demo_spl_canonical c f demo_vk_ok sgn, of 0] show ?thesis
    by (auto simp: demo_vk_def demo_vk_policy_def safe_integer_def max_safe_def)
qed

end
