(* ===== verification/AuthzListing.thy ===== *)
theory AuthzListing
  imports AuthzList AuthzEnforce
begin

text \<open>
  The listing of a key made from an authorization shows that authorization: the entries
  \<open>decompileEvm\<close> builds from a scope that \<open>compileEvmSessionScope\<close> returned, one by one.
\<close>

section \<open>Mapping partial functions\<close>

lemma those_map: "\<forall>x \<in> set xs. f x = Some (h x) \<Longrightarrow> those (map f xs) = Some (map h xs)"
  by (induction xs) auto

lemma zip_entries:
  "[(Some token, g). ((token, _), Some g) \<leftarrow> zip (map k xs) (map (\<lambda>x. Some (h x)) xs)] =
   map (\<lambda>x. (Some (fst (k x)), h x)) xs"
  by (induction xs) (auto split: prod.splits)

section \<open>The compiled scope, entry by entry\<close>

text \<open>A grant as the listing shows it.\<close>

definition shown :: "string list \<Rightarrow> string list \<Rightarrow> compile_mode \<Rightarrow> grant \<Rightarrow> grant" where
  "shown rcps rs md g = g\<lparr>recipients := rcps, period := None, g_rails := rs,
     maxPerPayment := (if md = AsOffchain then maxPerPayment g else maxTotal g)\<rparr>"

lemma per_tx_entry:
  assumes "distinct_ci (map (asset_address env) (token_grants env sel))" "g \<in> set (token_grants env sel)"
  shows "entry_ci (asset_address env g) (tokenMaxPerTx (compiled_evm_scope env a chainId md sel)) =
    (if md = AsOffchain \<and> maxPerPayment g < maxTotal g then Some (asset_address env g, maxPerPayment g) else None)"
proof -
  let ?es = "map (\<lambda>g. (asset_address env g, maxPerPayment g))
     (filter (\<lambda>g. md = AsOffchain \<and> maxPerPayment g < maxTotal g) (token_grants env sel))"
  have inj: "h = g" if "h \<in> set (token_grants env sel)" "lower (asset_address env h) = lower (asset_address env g)" for h
    using assms that by (auto simp: distinct_ci_def distinct_map comp_def inj_on_def)
  show ?thesis
  proof (cases "md = AsOffchain \<and> maxPerPayment g < maxTotal g")
    case True
    have "distinct_ci (map fst ?es)"
      using distinct_map_filter [of "\<lambda>g. lower (asset_address env g)" "token_grants env sel"] assms(1)
      by (simp add: distinct_ci_def comp_def)
    then have "entry_ci (asset_address env g) (some_entries ?es) = Some (asset_address env g, maxPerPayment g)"
      using True assms(2) by (intro entry_ci_unique) auto
    then show ?thesis using True by (simp add: evm_scope_fields)
  next
    case False
    have "\<forall>(k, v) \<in> set ?es. lower k \<noteq> lower (asset_address env g)" using False inj by auto
    then have "find (\<lambda>(k', _). lower k' = lower (asset_address env g)) ?es = None"
      by (auto simp: find_None_iff)
    then have "entry_ci (asset_address env g) (some_entries ?es) = None" by (simp add: entry_ci_def)
    then show ?thesis using False unfolding evm_scope_fields by argo
  qed
qed

lemma scope_rails_mem: "sel \<noteq> [] \<Longrightarrow> \<exists>g \<in> set sel. scope_rails env sel = g_rails g"
proof (cases "token_grants env sel")
  case (Cons g gs)
  then have "g \<in> set (token_grants env sel)" by simp
  then show ?thesis using Cons by (auto simp: scope_rails_def token_grants_def)
next
  case Nil
  then show "sel \<noteq> [] \<Longrightarrow> ?thesis"
    by (cases "native_grant env sel") (auto simp: scope_rails_def native_grant_def dest: find_SomeD)
qed

lemma evm_chain_asset:
  assumes "asset_of env g = Some p" "chain p = ''eip155:'' @ n"
  shows "pa_namespace p = Eip155 \<and> (pa_kind p = Native \<longrightarrow> canonical p = chain p @ ''/slip44:60'')"
  using assms
  by (auto simp: asset_of_def parseAsset_def Let_def solana_asset_re_def solana_chain_iff
      split: option.splits if_splits prod.splits)

text \<open>What the selected grants of a compiled document have in common.\<close>

definition selected_ok :: "authz_env \<Rightarrow> int \<Rightarrow> grant list \<Rightarrow> bool" where
  "selected_ok env chainId sel \<longleftrightarrow>
     evm_selection_refusal env sel = None \<and>
     (\<forall>g \<in> set sel. wf_grant env g \<and> map_option chain (asset_of env g) = Some (''eip155:'' @ show_int chainId))"

lemma selected_recipients:
  assumes "selected_ok env chainId sel" "g \<in> set sel" "r \<in> set (recipients g)"
  shows "toChecksumAddress (e_keccak env) r = Some r"
proof -
  obtain p where p: "asset_of env g = Some p" "chain p = ''eip155:'' @ show_int chainId"
    using assms(1,2) by (auto simp: selected_ok_def)
  then have "canonicalAddress env (JStr r) Eip155 = Some r"
    using assms evm_chain_asset [OF p] by (auto simp: selected_ok_def wf_grant_def asset_of_def)
  then show ?thesis by (auto simp: canonicalAddress_def split: if_splits)
qed

lemma selected_assets:
  assumes "selected_ok env chainId sel" "g \<in> set sel"
  shows "has_kind env Erc20 g \<longrightarrow>
      g_asset g = ''eip155:'' @ show_int chainId @ ''/erc20:'' @ asset_address env g \<and>
      toChecksumAddress (e_keccak env) (asset_address env g) = Some (asset_address env g)"
    "has_kind env Native g \<longrightarrow> g_asset g = ''eip155:'' @ show_int chainId @ ''/slip44:60''"
proof -
  obtain p where p: "asset_of env g = Some p" "chain p = ''eip155:'' @ show_int chainId" "canonical p = g_asset g"
    using assms by (auto simp: selected_ok_def wf_grant_def asset_of_def)
  show "has_kind env Erc20 g \<longrightarrow>
      g_asset g = ''eip155:'' @ show_int chainId @ ''/erc20:'' @ asset_address env g \<and>
      toChecksumAddress (e_keccak env) (asset_address env g) = Some (asset_address env g)"
    using erc20_asset [of env g] p by auto
  show "has_kind env Native g \<longrightarrow> g_asset g = ''eip155:'' @ show_int chainId @ ''/slip44:60''"
    using evm_chain_asset [OF p(1,2)] p by (auto simp: has_kind_def)
qed

lemma selected_rails:
  assumes "selected_ok env chainId sel"
  shows "hasValidEvmScopeRails (Some (scope_rails env sel))"
proof -
  have "sel \<noteq> []" "\<forall>g \<in> set sel. set (g_rails g) \<subseteq> {''transfer'', ''x402-exact''}"
    using assms by (simp_all add: selected_ok_def evm_selection_None)
  then show ?thesis using assms scope_rails_mem [of sel env]
    by (fastforce simp: hasValidEvmScopeRails_def selected_ok_def wf_grant_def)
qed

section \<open>The entries of a compiled scope\<close>

lemma compiled_token_entry:
  assumes ok: "selected_ok env chainId sel" and g: "g \<in> set (token_grants env sel)"
    and dist: "distinct_ci (map (asset_address env) (token_grants env sel))"
    and s: "s = compiled_evm_scope env a chainId md sel"
  shows "token_entry (e_keccak env) s (recipients (hd sel)) chainId (asset_address env g, maxTotal g) =
    Some (Some (shown (recipients (hd sel)) (scope_rails env sel) md g))"
proof -
  have gs: "g \<in> set sel" "has_kind env Erc20 g" using g by (auto simp: token_grants_def)
  then have "sel \<noteq> []" by auto
  then have "\<forall>r \<in> set (recipients (hd sel)). toChecksumAddress (e_keccak env) r = Some r"
    using selected_recipients [OF ok, of "hd sel"] by simp
  then have rcps: "those (map (toChecksumAddress (e_keccak env)) (recipients (hd sel))) = Some (recipients (hd sel))"
    using those_map [of "recipients (hd sel)" "toChecksumAddress (e_keccak env)" "\<lambda>r. r"] by simp
  have wf: "0 < maxPerPayment g" "maxPerPayment g \<le> maxTotal g" using ok gs(1) by (auto simp: selected_ok_def wf_grant_def)
  have cnt: "maxTxCount s = maxCount g"
    using ok gs(1) unfolding s evm_scope_fields selected_ok_def evm_selection_None by metis
  have asset: "g_asset g = ''eip155:'' @ show_int chainId @ ''/erc20:'' @ asset_address env g"
    "toChecksumAddress (e_keccak env) (asset_address env g) = Some (asset_address env g)"
    using selected_assets [OF ok gs(1)] gs(2) by simp_all
  have rails: "rails s = Some (scope_rails env sel)" by (simp add: s evm_scope_fields)
  show ?thesis
    using wf
    by (simp only: token_entry_def s per_tx_entry [OF dist g] prod.case)
      (auto simp: rcps asset rails [unfolded s] selected_rails [OF ok] cnt [unfolded s] shown_def Let_def
        intro!: grant.equality)
qed

lemma compiled_native_entry:
  assumes ok: "selected_ok env chainId sel" and ne: "sel \<noteq> []"
    and s: "s = compiled_evm_scope env a chainId md sel"
  shows "native_entry (e_keccak env) s (recipients (hd sel)) chainId =
    Some (case native_grant env sel of None \<Rightarrow> None
      | Some g \<Rightarrow> if ''transfer'' \<in> set (scope_rails env sel) then
          Some (shown (recipients (hd sel)) [''transfer''] AsOffchain g) else None)"
proof -
  have "\<forall>r \<in> set (recipients (hd sel)). toChecksumAddress (e_keccak env) r = Some r"
    using selected_recipients [OF ok, of "hd sel"] ne by simp
  then have rcps: "those (map (toChecksumAddress (e_keccak env)) (recipients (hd sel))) = Some (recipients (hd sel))"
    using those_map [of "recipients (hd sel)" "toChecksumAddress (e_keccak env)" "\<lambda>r. r"] by simp
  have rails: "rails s = Some (scope_rails env sel)" "hasValidEvmScopeRails (rails s)"
    using selected_rails [OF ok] by (simp_all add: s evm_scope_fields)
  have f: "maxValuePerTx s = Some (case native_grant env sel of None \<Rightarrow> 0 | Some g \<Rightarrow> maxPerPayment g)"
    "maxTotalValue s = Some (case native_grant env sel of None \<Rightarrow> 0 | Some g \<Rightarrow> maxTotal g)"
    "nativeTransfer s = (if native_grant env sel = None then None else Some native_transfer_mode)"
    "maxTxCount s = maxCount (hd sel)"
    by (simp_all add: s compiled_evm_scope_def Let_def)
  show ?thesis
  proof (cases "native_grant env sel")
    case None
    then show ?thesis by (simp add: native_entry_def f)
  next
    case (Some g)
    then have g: "g \<in> set sel" "has_kind env Native g" by (auto simp: native_grant_def dest: find_SomeD)
    have wf: "0 < maxPerPayment g" "maxPerPayment g \<le> maxTotal g" using ok g(1) by (auto simp: selected_ok_def wf_grant_def)
    have cnt: "maxCount (hd sel) = maxCount g"
      using ok g(1) unfolding selected_ok_def evm_selection_None by metis
    have "g_asset g = ''eip155:'' @ show_int chainId @ ''/slip44:60''" using selected_assets [OF ok g(1)] g(2) by simp
    then show ?thesis using wf
      by (auto simp: native_entry_def f Some rails(1) selected_rails [OF ok] rcps cnt shown_def intro!: grant.equality)
  qed
qed

lemma compiled_expressible:
  assumes ok: "selected_ok env chainId sel" and s: "s = compiled_evm_scope env a chainId md sel"
  shows "evm_expressible s"
proof -
  let ?ts = "token_grants env sel"
  have nat: "0 < maxPerPayment g \<and> maxPerPayment g \<le> maxTotal g" if "native_grant env sel = Some g" for g
    using ok that by (auto simp: selected_ok_def wf_grant_def native_grant_def dest: find_SomeD)
  have caps: "0 < maxPerPayment g" if "g \<in> set ?ts" for g
    using ok that by (auto simp: selected_ok_def wf_grant_def token_grants_def)
  have "tokenAllowances s = some_entries (map (\<lambda>g. (asset_address env g, maxTotal g)) ?ts)"
    "tokenMaxPerTx s = some_entries (map (\<lambda>g. (asset_address env g, maxPerPayment g))
       (filter (\<lambda>g. md = AsOffchain \<and> maxPerPayment g < maxTotal g) ?ts))"
    "allowedContracts s = Some (map (asset_address env) ?ts)"
    "allowedMethods s = (if ?ts = [] then None else Some [''0xa9059cbb''])"
    "maxValuePerTx s = Some (case native_grant env sel of None \<Rightarrow> 0 | Some g \<Rightarrow> maxPerPayment g)"
    "maxTotalValue s = Some (case native_grant env sel of None \<Rightarrow> 0 | Some g \<Rightarrow> maxTotal g)"
    "nativeTransfer s = (if native_grant env sel = None then None else Some native_transfer_mode)"
    "maxGasPerTx s = None" "maxTotalGas s = None"
    by (simp_all add: s compiled_evm_scope_def Let_def)
  moreover have "lower ''0xa9059cbb'' = erc20_transfer_selector" by code_simp
  ultimately show ?thesis
    using nat caps
    by (fastforce simp: evm_expressible_def sameAddresses_def Let_def comp_def split: option.splits)
qed

text \<open>The native grant the listing adds, when the scope's rails include plain transfers.\<close>

definition shown_native :: "authz_env \<Rightarrow> grant list \<Rightarrow> grant list" where
  "shown_native env sel =
     (case native_grant env sel of None \<Rightarrow> []
      | Some g \<Rightarrow> if ''transfer'' \<in> set (scope_rails env sel) then [shown (recipients (hd sel)) [''transfer''] AsOffchain g] else [])"

lemma compiled_grants:
  assumes ok: "selected_ok env chainId sel"
    and dist: "distinct_ci (map (asset_address env) (token_grants env sel))"
    and s: "s = compiled_evm_scope env a chainId md sel"
  shows "\<exists>gs. evm_grants (e_keccak env) s = Some (gs, False) \<and>
    map snd gs = map (shown (recipients (hd sel)) (scope_rails env sel) md) (token_grants env sel) @ shown_native env sel"
proof -
  let ?ts = "token_grants env sel" and ?rcps = "recipients (hd sel)"
  let ?h = "shown ?rcps (scope_rails env sel) md"
  have ne: "sel \<noteq> []" using ok by (simp add: selected_ok_def evm_selection_None)
  then have "?rcps \<noteq> []" using ok by (auto simp: selected_ok_def wf_grant_def)
  have ta: "or_nil (tokenAllowances s) = map (\<lambda>g. (asset_address env g, maxTotal g)) ?ts"
    "allowedRecipients s = Some ?rcps" "allowedChainIds s = Some [chainId]"
    by (simp_all add: s compiled_evm_scope_def Let_def)
  have "those (map (\<lambda>g. token_entry (e_keccak env) s ?rcps chainId (asset_address env g, maxTotal g)) ?ts) =
      Some (map (\<lambda>g. Some (?h g)) ?ts)"
    using compiled_token_entry [OF ok _ dist s] by (intro those_map) blast
  then have ts: "those (map (token_entry (e_keccak env) s ?rcps chainId) (or_nil (tokenAllowances s))) =
      Some (map (\<lambda>g. Some (?h g)) ?ts)"
    by (simp add: ta comp_def)
  note nat = compiled_native_entry [OF ok ne s]
  let ?gs = "map (\<lambda>g. (Some (asset_address env g), ?h g)) ?ts @ map (Pair None) (shown_native env sel)"
  have "chain_entries (e_keccak env) s ?rcps chainId = Some (?gs, False)"
    unfolding chain_entries_def ts nat Option.bind.simps option.map unfolding ta zip_entries
    by (auto simp: shown_native_def split: option.splits)
  then have "evm_grants (e_keccak env) s = Some (?gs, False)"
    using \<open>?rcps \<noteq> []\<close> by (simp add: evm_grants_def ta Let_def)
  then show ?thesis by (intro exI [of _ ?gs]) (simp add: comp_def)
qed

lemma compiled_listing:
  assumes "b58_canonical env" "compileEvmSessionScope env doc chainId ro md = Inr (i_scope i, enf)"
    and "evm_addr_re (i_signerAddress i)"
  shows "\<exists>a sel l. validateAuthorization env doc = Inr a \<and>
    sel = grants_on env (''eip155:'' @ show_int chainId) (grants a) \<and> selected_ok env chainId sel \<and>
    decompileEvm (e_keccak env) i = Some l \<and> li_flags l = [] \<and> li_expiresAt l = expiresAt a \<and>
    li_grants l = map (shown (recipients (hd sel)) (scope_rails env sel) md) (token_grants env sel) @ shown_native env sel"
proof -
  obtain a sel where a: "validateAuthorization env doc = Inr a"
    and sel: "sel = grants_on env (''eip155:'' @ show_int chainId) (grants a)"
    and ref: "evm_selection_refusal env sel = None" and s: "i_scope i = compiled_evm_scope env a chainId md sel"
    using compileEvm_Inr [OF assms(2)] by blast
  note wf = validate_Inr_wf [OF assms(1) a, unfolded wf_authorization_def]
  have ok: "selected_ok env chainId sel" using ref wf sel by (auto simp: selected_ok_def grants_on_def)
  have dist: "distinct_ci (map (asset_address env) (token_grants env sel))"
    using tokens_distinct_ci [OF ref sel] wf by blast
  obtain gs where gs: "evm_grants (e_keccak env) (i_scope i) = Some (gs, False)"
    "map snd gs = map (shown (recipients (hd sel)) (scope_rails env sel) md) (token_grants env sel) @ shown_native env sel"
    using compiled_grants [OF ok dist s] by blast
  have "sel \<noteq> []" using ref by (simp add: evm_selection_None)
  then have "recipients (hd sel) \<noteq> []" using ok by (auto simp: selected_ok_def wf_grant_def)
  then have f: "expiry (i_scope i) = expiresAt a" "or_nil (allowedChainIds (i_scope i)) = [chainId]"
    "or_nil (allowedRecipients (i_scope i)) \<noteq> []"
    by (simp_all add: s compiled_evm_scope_def Let_def)
  obtain x where "toChecksumAddress (e_keccak env) (i_signerAddress i) = Some x"
    using assms(3) by (auto simp: toChecksumAddress_def Let_def)
  then have "\<exists>l. decompileEvm (e_keccak env) i = Some l \<and> li_flags l = [] \<and> li_expiresAt l = expiresAt a \<and>
      li_grants l = map snd gs"
    using compiled_expressible [OF ok s] gs(1) f by (simp add: decompileEvm_def Let_def)
  then obtain l where l: "decompileEvm (e_keccak env) i = Some l" "li_flags l = []" "li_expiresAt l = expiresAt a"
      "li_grants l = map snd gs" by blast
  then show ?thesis using a sel ok gs(2)
    by (intro exI [of _ a] exI [of _ sel] exI [of _ l]) simp
qed

section \<open>Property\<close>


definition demo_info :: key_info where
  "demo_info = \<lparr>i_id = ''k1'', i_publicKey = ''0x'', i_scope = compiled_evm_scope toy_env demo_doc 1 AsOffchain [demo_grant],
     i_status = Active, i_createdAt = 1, i_expiresAt = 9000000, i_useCount = 0, i_signerAddress = demo_owner,
     i_authorized = True, i_authorizationType = Offchain, i_authorizationMessage = None, i_usage = None\<rparr>"


end
