(* ===== verification/Base64.thy ===== *)
theory Base64
  imports Bytes
begin

text \<open>
  The base64 codec of the platform (\<open>btoa\<close>, \<open>atob\<close>) and the unpadded base64url form the payment
  headers use.  The decoder is the forgiving one of the platform: it ignores white space, accepts
  missing padding and drops the bits left over in the last group.  Encoding and decoding are proved
  to be inverse for every sequence of bytes.
\<close>

section \<open>The platform codec\<close>

text \<open>The alphabet: \<open>A\<close> to \<open>Z\<close>, \<open>a\<close> to \<open>z\<close>, \<open>0\<close> to \<open>9\<close>, \<open>+\<close> and \<open>/\<close>.\<close>

definition b64_char :: "nat \<Rightarrow> char" where
  "b64_char n =
     (if n < 26 then char_of (n + 65)
      else if n < 52 then char_of (n + 71)
      else if n < 62 then char_of (n - 4)
      else if n = 62 then CHR ''+'' else CHR ''/'')"

definition b64_value :: "char \<Rightarrow> nat option" where
  "b64_value c =
     (if 65 \<le> ord c \<and> ord c \<le> 90 then Some (ord c - 65)
      else if 97 \<le> ord c \<and> ord c \<le> 122 then Some (ord c - 71)
      else if 48 \<le> ord c \<and> ord c \<le> 57 then Some (ord c + 4)
      else if c = CHR ''+'' then Some 62
      else if c = CHR ''/'' then Some 63
      else None)"

fun byte_sextets :: "bytes \<Rightarrow> nat list" where
  "byte_sextets [] = []"
| "byte_sextets [a] = [unat a div 4, unat a mod 4 * 16]"
| "byte_sextets [a, b] = [unat a div 4, unat a mod 4 * 16 + unat b div 16, unat b mod 16 * 4]"
| "byte_sextets (a # b # c # r) =
     unat a div 4 # (unat a mod 4 * 16 + unat b div 16) # (unat b mod 16 * 4 + unat c div 64) #
     unat c mod 64 # byte_sextets r"

definition btoa :: "bytes \<Rightarrow> string" where
  "btoa bs = map b64_char (byte_sextets bs) @ replicate ((3 - length bs mod 3) mod 3) CHR ''=''"

fun sextet_bytes :: "nat list \<Rightarrow> bytes" where
  "sextet_bytes [] = []"
| "sextet_bytes [p] = []"
| "sextet_bytes [p, q] = [word_of_nat (p * 4 + q div 16)]"
| "sextet_bytes [p, q, r] = [word_of_nat (p * 4 + q div 16), word_of_nat (q mod 16 * 16 + r div 4)]"
| "sextet_bytes (p # q # r # s # t) =
     word_of_nat (p * 4 + q div 16) # word_of_nat (q mod 16 * 16 + r div 4) #
     word_of_nat (r mod 4 * 64 + s) # sextet_bytes t"

definition ascii_space :: "char \<Rightarrow> bool" where
  "ascii_space c \<longleftrightarrow> c = CHR '' '' \<or> ord c = 9 \<or> ord c = 10 \<or> ord c = 12 \<or> ord c = 13"

text \<open>At most two padding characters, and only at the end of a text of full groups.\<close>

definition unpad :: "string \<Rightarrow> string" where
  "unpad s =
     (if length s mod 4 = 0 then
        (if s \<noteq> [] \<and> last s = CHR ''='' then
           (let t = butlast s in if t \<noteq> [] \<and> last t = CHR ''='' then butlast t else t)
         else s)
      else s)"

fun values_of :: "string \<Rightarrow> nat list option" where
  "values_of [] = Some []"
| "values_of (c # s) =
     (case b64_value c of None \<Rightarrow> None | Some v \<Rightarrow> map_option ((#) v) (values_of s))"

definition atob :: "string \<Rightarrow> bytes option" where
  "atob text =
     (let s = unpad (filter (\<lambda>c. \<not> ascii_space c) text)
      in if length s mod 4 = 1 then None else map_option sextet_bytes (values_of s))"

section \<open>The URL alphabet\<close>

text \<open>\<open>s.replace(/=+$/, "")\<close>.\<close>

definition strip_end :: "char \<Rightarrow> string \<Rightarrow> string" where
  "strip_end c s = rev (strip_while (\<lambda>x. x = c) (rev s))"

definition to_url :: "char \<Rightarrow> char" where
  "to_url c = (if c = CHR ''+'' then CHR ''-'' else if c = CHR ''/'' then CHR ''_'' else c)"

definition from_url :: "char \<Rightarrow> char" where
  "from_url c = (if c = CHR ''-'' then CHR ''+'' else if c = CHR ''_'' then CHR ''/'' else c)"

definition base64Url :: "bytes \<Rightarrow> string" where
  "base64Url bs = strip_end CHR ''='' (map to_url (btoa bs))"

definition url_char :: "char \<Rightarrow> bool" where
  "url_char c \<longleftrightarrow>
     65 \<le> ord c \<and> ord c \<le> 90 \<or> 97 \<le> ord c \<and> ord c \<le> 122 \<or> 48 \<le> ord c \<and> ord c \<le> 57 \<or>
     c = CHR ''_'' \<or> c = CHR ''-''"

definition base64url_re :: "string \<Rightarrow> bool" where
  "base64url_re s \<longleftrightarrow> s \<noteq> [] \<and> (\<forall>c \<in> set s. url_char c)"

definition from_base64url :: "string \<Rightarrow> bytes option" where
  "from_base64url s =
     (if \<not> base64url_re s \<or> length s mod 4 = 1 then None
      else atob (map from_url s @ replicate ((4 - length s mod 4) mod 4) CHR ''=''))"

section \<open>Encoding and decoding are inverse\<close>

lemma sextets_bound: "v \<in> set (byte_sextets bs) \<Longrightarrow> v < 64"
proof (induction bs rule: byte_sextets.induct)
  case (2 a)
  then show ?case using unat_byte [of a] by auto
next
  case (3 a b)
  then show ?case using unat_byte [of a] unat_byte [of b] by auto
next
  case (4 a b c r)
  then show ?case using unat_byte [of a] unat_byte [of b] unat_byte [of c] by auto
qed simp

text \<open>The bits of a byte are shared between two neighbouring groups.\<close>

lemma group_arith:
  fixes a b c :: nat
  assumes "b < 256" "c < 256"
  shows "a div 4 * 4 + (a mod 4 * 16 + b div 16) div 16 = a"
    "(a mod 4 * 16 + b div 16) mod 16 * 16 + b mod 16 * 4 div 4 = b"
    "(a mod 4 * 16 + b div 16) mod 16 * 16 + (b mod 16 * 4 + c div 64) div 4 = b"
    "(b mod 16 * 4 + c div 64) mod 4 * 64 + c mod 64 = c"
proof -
  have bc: "b div 16 < 16" "c div 64 < 4" using assms by auto
  show "a div 4 * 4 + (a mod 4 * 16 + b div 16) div 16 = a" using bc by simp
  have m: "(a mod 4 * 16 + b div 16) mod 16 = b div 16" using bc by simp
  show "(a mod 4 * 16 + b div 16) mod 16 * 16 + b mod 16 * 4 div 4 = b" using m by simp
  show "(a mod 4 * 16 + b div 16) mod 16 * 16 + (b mod 16 * 4 + c div 64) div 4 = b" using m bc by simp
  have "(b mod 16 * 4 + c div 64) mod 4 = c div 64" using bc by simp
  then show "(b mod 16 * 4 + c div 64) mod 4 * 64 + c mod 64 = c" by simp
qed

lemma sextet_bytes_sextets: "sextet_bytes (byte_sextets bs) = bs"
proof (induction bs rule: byte_sextets.induct)
  case (2 a)
  show ?case by simp
next
  case (3 a b)
  show ?case using group_arith(1,2) [of "unat b" 0 "unat a"] unat_byte [of b]
    by (simp only: byte_sextets.simps sextet_bytes.simps) simp
next
  case (4 a b c r)
  show ?case
    using group_arith(1,3) [of "unat b" "unat c" "unat a"] group_arith(4) [of "unat b" "unat c"] unat_byte [of b] unat_byte [of c] 4
    by (simp only: byte_sextets.simps sextet_bytes.simps) simp
qed simp

lemma ord_url_marks: "ord CHR ''+'' = 43" "ord CHR ''/'' = 47" "ord CHR ''-'' = 45" "ord CHR ''_'' = 95" "ord CHR ''='' = 61"
  "ord CHR '' '' = 32"
  by (simp_all add: ord_def)

lemma ord_b64_char:
  "n < 64 \<Longrightarrow> ord (b64_char n) =
     (if n < 26 then n + 65 else if n < 52 then n + 71 else if n < 62 then n - 4 else if n = 62 then 43 else 47)"
  by (simp add: b64_char_def ord_url_marks)

lemma char_eq_ord: "c = d \<longleftrightarrow> ord c = ord d"
  by simp

lemma b64_char_facts:
  assumes "n < 64"
  shows "b64_value (b64_char n) = Some n" "b64_char n \<noteq> CHR ''=''" "\<not> ascii_space (b64_char n)"
    "from_url (to_url (b64_char n)) = b64_char n" "to_url (b64_char n) \<noteq> CHR ''=''"
    "url_char (to_url (b64_char n))"
  using assms
  by (auto simp: b64_value_def ascii_space_def from_url_def to_url_def url_char_def char_eq_ord ord_url_marks
      ord_b64_char simp del: ord_inject split: if_splits)

lemma values_of_chars: "(\<And>v. v \<in> set vs \<Longrightarrow> v < 64) \<Longrightarrow> values_of (map b64_char vs) = Some vs"
  by (induction vs) (simp_all add: b64_char_facts)

lemma sextets_groups:
  "length bs mod 3 = 0 \<and> length (byte_sextets bs) mod 4 = 0 \<or>
   length bs mod 3 = 1 \<and> length (byte_sextets bs) mod 4 = 2 \<or>
   length bs mod 3 = 2 \<and> length (byte_sextets bs) mod 4 = 3"
proof (induction bs rule: byte_sextets.induct)
  case (4 a b c r)
  have "Suc (Suc (Suc n)) mod 3 = n mod 3" "Suc (Suc (Suc (Suc n))) mod 4 = n mod 4" for n :: nat
    by presburger+
  then have "length (a # b # c # r) mod 3 = length r mod 3"
    "length (byte_sextets (a # b # c # r)) mod 4 = length (byte_sextets r) mod 4"
    by simp_all
  then show ?case using 4 by (simp only:)
qed simp_all

lemma padding_fills:
  "(length (byte_sextets bs) + (3 - length bs mod 3) mod 3) mod 4 = 0" "length (byte_sextets bs) mod 4 \<noteq> Suc 0"
  "(4 - length (byte_sextets bs) mod 4) mod 4 = (3 - length bs mod 3) mod 3" "(3 - length bs mod 3) mod 3 \<le> 2"
proof -
  show "(length (byte_sextets bs) + (3 - length bs mod 3) mod 3) mod 4 = 0"
    by (subst mod_add_left_eq [symmetric]) (use sextets_groups [of bs] in auto)
qed (use sextets_groups [of bs] in auto)

text \<open>Text of the alphabet, padded to full groups, decodes to its groups.\<close>

lemma atob_padded:
  assumes "\<And>v. v \<in> set vs \<Longrightarrow> v < 64" "k \<le> 2" "(length vs + k) mod 4 = 0" "length vs mod 4 \<noteq> Suc 0"
  shows "atob (map b64_char vs @ replicate k CHR ''='') = Some (sextet_bytes vs)"
proof -
  let ?s = "map b64_char vs"
  have sp: "filter (\<lambda>c. \<not> ascii_space c) (?s @ replicate k CHR ''='') = ?s @ replicate k CHR ''=''"
    proof -
    have "\<not> ascii_space CHR ''=''" by (simp add: ascii_space_def ord_def)
    then show ?thesis using assms(1) by (auto simp: filter_id_conv b64_char_facts)
  qed
  have ls: "?s \<noteq> [] \<Longrightarrow> last ?s \<noteq> CHR ''=''"
    using assms(1) by (simp add: last_map b64_char_facts)
  have "k = 0 \<or> k = 1 \<or> k = 2" using assms(2) by auto
  then have "unpad (?s @ replicate k CHR ''='') = ?s"
    using assms(3) ls by (auto simp: unpad_def Let_def butlast_append numeral_2_eq_2)
  then show ?thesis using sp assms(4) values_of_chars [OF assms(1)] by (simp add: atob_def)
qed

lemma atob_btoa: "atob (btoa bs) = Some bs"
  unfolding btoa_def
  by (subst atob_padded) (auto simp: padding_fills sextet_bytes_sextets dest: sextets_bound)

lemma strip_while_replicate: "(ys \<noteq> [] \<Longrightarrow> \<not> p (hd ys)) \<Longrightarrow> p c \<Longrightarrow> strip_while p (replicate k c @ ys) = ys"
  by (induction k) (cases ys; simp)+

lemma base64Url_chars: "base64Url bs = map (to_url \<circ> b64_char) (byte_sextets bs)"
proof -
  let ?s = "map (to_url \<circ> b64_char) (byte_sextets bs)"
  have e: "to_url CHR ''='' = CHR ''=''" by (simp add: to_url_def)
  have "strip_while (\<lambda>x. x = CHR ''='') (replicate k CHR ''='' @ rev ?s) = rev ?s" for k
  proof (rule strip_while_replicate)
    show "rev ?s \<noteq> [] \<Longrightarrow> hd (rev ?s) \<noteq> CHR ''=''"
    proof -
      assume "rev ?s \<noteq> []"
      then have "hd (rev ?s) \<in> set ?s" using hd_in_set [of "rev ?s"] by (simp del: hd_rev)
      then obtain v where "v \<in> set (byte_sextets bs)" "hd (rev ?s) = to_url (b64_char v)" by auto
      then show ?thesis using b64_char_facts(5) sextets_bound by metis
    qed
  qed simp
  then show ?thesis by (simp add: base64Url_def strip_end_def btoa_def e)
qed

theorem base64url_roundtrip: "bs \<noteq> [] \<Longrightarrow> from_base64url (base64Url bs) = Some bs"
proof -
  assume ne: "bs \<noteq> []"
  let ?v = "byte_sextets bs"
  have b: "\<And>v. v \<in> set ?v \<Longrightarrow> v < 64" by (rule sextets_bound)
  have n: "?v \<noteq> []" using ne by (cases bs rule: byte_sextets.cases) auto
  have "map (from_url \<circ> (to_url \<circ> b64_char)) ?v = map b64_char ?v"
    using b b64_char_facts(4) by (intro map_cong refl) (simp add: o_def)
  then have "map from_url (base64Url bs) = map b64_char ?v" by (simp only: base64Url_chars map_map)
  moreover have "base64url_re (base64Url bs)" "length (base64Url bs) = length ?v"
    using n b by (auto simp: base64url_re_def base64Url_chars b64_char_facts)
  ultimately show ?thesis
    using atob_btoa [of bs] padding_fills [of bs] by (simp add: from_base64url_def btoa_def)
qed

text \<open>Every text of the encoder consists of characters that need no quoting in a header.\<close>

lemma base64Url_set: "c \<in> set (base64Url bs) \<Longrightarrow> url_char c"
  by (auto simp: base64Url_chars b64_char_facts dest!: sextets_bound)

lemma base64Url_inj: "base64Url a = base64Url b \<Longrightarrow> a = b"
proof -
  assume h: "base64Url a = base64Url b"
  have "byte_sextets x = [] \<longleftrightarrow> x = []" for x
    by (cases x rule: byte_sextets.cases) simp_all
  then have "base64Url x = [] \<longleftrightarrow> x = []" for x
    by (simp add: base64Url_chars)
  then have "a = [] \<longleftrightarrow> b = []" using h by metis
  moreover have "a \<noteq> [] \<Longrightarrow> b \<noteq> [] \<Longrightarrow> Some a = Some b"
    by (simp only: base64url_roundtrip [symmetric] h not_False_eq_True simp_thms)
  ultimately show "a = b" by blast
qed

end
