(* ===== verification/JsonParse.thy ===== *)
theory JsonParse
  imports Base64 JsValues JsonText
begin

text \<open>
  \<open>JSON.parse\<close> and the UTF-8 decoder, as the payment messages use them.  The parser is the grammar
  of RFC 8259 with the last of equal keys winning; it is exact on ASCII text and on integers that a
  double holds exactly.  What lies outside (other numbers, code units above Latin-1, bytes above 127,
  dates) is left to the parameter \<open>js_runtime\<close>.  The parser is given fuel: more than the length of
  the text, which is shown to be always enough.
\<close>

section \<open>What the model leaves to the runtime\<close>

record js_runtime =
  rt_decode :: "bytes \<Rightarrow> string option"
  rt_decode_lossy :: "bytes \<Rightarrow> string"
  rt_unit :: "nat \<Rightarrow> char"
  rt_number :: "string \<Rightarrow> jsval"
  rt_number_text :: "int \<Rightarrow> string"
  rt_date :: "string \<Rightarrow> int option"
  rt_iso :: "int \<Rightarrow> string"

definition ascii_bytes :: "bytes \<Rightarrow> bool" where
  "ascii_bytes bs \<longleftrightarrow> (\<forall>b \<in> set bs. b < 128)"

definition bytes_text :: "bytes \<Rightarrow> string" where
  "bytes_text bs = map (\<lambda>b. char_of (unat b)) bs"

text \<open>\<open>new TextDecoder("utf-8", { fatal: true }).decode(bs)\<close>; \<open>None\<close> is the \<open>TypeError\<close>.\<close>

definition decode_text :: "js_runtime \<Rightarrow> bytes \<Rightarrow> string option" where
  "decode_text rt bs = (if ascii_bytes bs then Some (bytes_text bs) else rt_decode rt bs)"

definition decode_lossy :: "js_runtime \<Rightarrow> bytes \<Rightarrow> string" where
  "decode_lossy rt bs = (if ascii_bytes bs then bytes_text bs else rt_decode_lossy rt bs)"

section \<open>The parser\<close>

definition json_space :: "char \<Rightarrow> bool" where
  "json_space c \<longleftrightarrow> c = CHR '' '' \<or> ord c = 9 \<or> ord c = 10 \<or> ord c = 13"

abbreviation skip :: "string \<Rightarrow> string" where "skip s \<equiv> dropWhile json_space s"

definition json_unit :: "js_runtime \<Rightarrow> nat \<Rightarrow> char" where
  "json_unit rt n = (if n < 256 then char_of n else rt_unit rt n)"

text \<open>The character an escape stands for, with the rest of the text after the backslash.\<close>

definition json_escape :: "js_runtime \<Rightarrow> string \<Rightarrow> (char \<times> string) option" where
  "json_escape rt s =
     (case s of
        [] \<Rightarrow> None
      | e # r \<Rightarrow>
          if e = CHR ''u'' then
            (if length r < 4 then None
             else map_option (\<lambda>n. (json_unit rt n, drop 4 r)) (parse_base 16 (take 4 r)))
          else if e = CHR 34 \<or> e = CHR 92 \<or> e = CHR ''/'' then Some (e, r)
          else if e = CHR ''b'' then Some (char_of (8 :: nat), r)
          else if e = CHR ''f'' then Some (char_of (12 :: nat), r)
          else if e = CHR ''n'' then Some (char_of (10 :: nat), r)
          else if e = CHR ''r'' then Some (char_of (13 :: nat), r)
          else if e = CHR ''t'' then Some (char_of (9 :: nat), r)
          else None)"

text \<open>The text after the opening quote, up to the closing one.\<close>

function json_string :: "js_runtime \<Rightarrow> string \<Rightarrow> (string \<times> string) option" where
  "json_string rt s =
     (case s of
        [] \<Rightarrow> None
      | c # r \<Rightarrow>
          if c = CHR 34 then Some ([], r)
          else if c = CHR 92 then
            (case json_escape rt r of
               None \<Rightarrow> None
             | Some (d, r') \<Rightarrow> map_option (\<lambda>(t, q). (d # t, q)) (json_string rt r'))
          else if ord c < 32 then None
          else map_option (\<lambda>(t, q). (c # t, q)) (json_string rt r))"
  by pat_completeness auto

lemma json_escape_length: "json_escape rt s = Some (d, r) \<Longrightarrow> length r < length s"
  by (auto simp: json_escape_def split: list.splits if_splits)

termination json_string
  by (relation "measure (\<lambda>(rt, s). length s)") (auto dest: json_escape_length)

declare json_string.simps [simp del]

definition span_digits :: "string \<Rightarrow> string \<times> string" where
  "span_digits s = (takeWhile is_digit s, dropWhile is_digit s)"

text \<open>A fraction and an exponent: the text consumed and the rest, or \<open>None\<close> for a syntax error.\<close>

definition json_fraction :: "string \<Rightarrow> (string \<times> string) option" where
  "json_fraction s =
     (if s \<noteq> [] \<and> hd s = CHR ''.'' then
        (case span_digits (tl s) of (ds, r) \<Rightarrow> if ds = [] then None else Some (CHR ''.'' # ds, r))
      else Some ([], s))"

definition json_exponent :: "string \<Rightarrow> (string \<times> string) option" where
  "json_exponent s =
     (if s \<noteq> [] \<and> lower_char (hd s) = CHR ''e'' then
        (let t = tl s;
             (sg, u) = (if t \<noteq> [] \<and> (hd t = CHR ''+'' \<or> hd t = CHR ''-'') then ([hd t], tl t) else ([], t))
         in case span_digits u of (ds, r) \<Rightarrow> if ds = [] then None else Some (hd s # sg @ ds, r))
      else Some ([], s))"

definition json_number :: "js_runtime \<Rightarrow> string \<Rightarrow> (jsval \<times> string) option" where
  "json_number rt s =
     (let (neg, t) = (if s \<noteq> [] \<and> hd s = CHR ''-'' then (True, tl s) else (False, s));
          (ds, r) = span_digits t
      in if ds = [] \<or> (hd ds = CHR ''0'' \<and> length ds > 1) then None
      else case json_fraction r of
        None \<Rightarrow> None
      | Some (fr, r1) \<Rightarrow>
          (case json_exponent r1 of
             None \<Rightarrow> None
           | Some (ex, r2) \<Rightarrow>
               let n = (if neg then - int (of_base 10 (digits_of 10 ds)) else int (of_base 10 (digits_of 10 ds)));
                   text = (if neg then CHR ''-'' # ds else ds) @ fr @ ex
               in Some (if fr = [] \<and> ex = [] \<and> safe_integer n then JInt n else rt_number rt text, r2)))"

definition json_word :: "string \<Rightarrow> jsval \<Rightarrow> string \<Rightarrow> (jsval \<times> string) option" where
  "json_word w v s = (if starts_with w s then Some (v, drop (length w) s) else None)"

definition json_atom :: "js_runtime \<Rightarrow> string \<Rightarrow> (jsval \<times> string) option" where
  "json_atom rt s =
     (if s \<noteq> [] \<and> hd s = CHR 34 then map_option (\<lambda>(t, r). (JStr t, r)) (json_string rt (tl s))
      else if starts_with ''true'' s then json_word ''true'' (JBool True) s
      else if starts_with ''false'' s then json_word ''false'' (JBool False) s
      else if starts_with ''null'' s then json_word ''null'' JNull s
      else json_number rt s)"

text \<open>A member's key, colon included.\<close>

definition json_key :: "js_runtime \<Rightarrow> string \<Rightarrow> (string \<times> string) option" where
  "json_key rt s =
     (let t = skip s in
      if t \<noteq> [] \<and> hd t = CHR 34 then
        (case json_string rt (tl t) of
           None \<Rightarrow> None
         | Some (k, r) \<Rightarrow>
             let r' = skip r in if r' \<noteq> [] \<and> hd r' = CHR '':'' then Some (k, tl r') else None)
      else None)"

definition opens_with :: "char \<Rightarrow> string \<Rightarrow> bool" where
  "opens_with c s \<longleftrightarrow> s \<noteq> [] \<and> hd s = c"

fun json_value :: "js_runtime \<Rightarrow> nat \<Rightarrow> string \<Rightarrow> (jsval \<times> string) option"
  and json_items :: "js_runtime \<Rightarrow> nat \<Rightarrow> string \<Rightarrow> (jsval list \<times> string) option"
  and json_members :: "js_runtime \<Rightarrow> nat \<Rightarrow> string \<Rightarrow> (props \<times> string) option"
where
  "json_value rt 0 s = None"
| "json_value rt (Suc n) s =
     (let t = skip s in
      if opens_with CHR ''['' t then
        (if opens_with CHR '']'' (skip (tl t)) then Some (JArr [], tl (skip (tl t)))
         else map_option (\<lambda>(vs, r). (JArr vs, r)) (json_items rt n (tl t)))
      else if opens_with CHR ''{'' t then
        (if opens_with CHR ''}'' (skip (tl t)) then Some (JObj [], tl (skip (tl t)))
         else map_option (\<lambda>(ps, r). (JObj (fold (\<lambda>(k, v). AList.update k v) ps []), r)) (json_members rt n (tl t)))
      else json_atom rt t)"
| "json_items rt 0 s = None"
| "json_items rt (Suc n) s =
     (case json_value rt n s of
        None \<Rightarrow> None
      | Some (v, r) \<Rightarrow>
          let q = skip r in
          if opens_with CHR '']'' q then Some ([v], tl q)
          else if opens_with CHR '','' q then map_option (\<lambda>(vs, z). (v # vs, z)) (json_items rt n (tl q))
          else None)"
| "json_members rt 0 s = None"
| "json_members rt (Suc n) s =
     (case json_key rt s of
        None \<Rightarrow> None
      | Some (k, u) \<Rightarrow>
          (case json_value rt n u of
             None \<Rightarrow> None
           | Some (v, r) \<Rightarrow>
               let q = skip r in
               if opens_with CHR ''}'' q then Some ([(k, v)], tl q)
               else if opens_with CHR '','' q then map_option (\<lambda>(ps, z). ((k, v) # ps, z)) (json_members rt n (tl q))
               else None))"

text \<open>\<open>JSON.parse(text)\<close>; \<open>None\<close> is the \<open>SyntaxError\<close>.\<close>

definition json_parse :: "js_runtime \<Rightarrow> string \<Rightarrow> jsval option" where
  "json_parse rt s =
     (case json_value rt (2 * length s + 2) s of
        None \<Rightarrow> None
      | Some (v, r) \<Rightarrow> if skip r = [] then Some v else None)"

section \<open>The fuel is enough\<close>

text \<open>Every part of a value consumes at least one character.\<close>

lemma json_string_shorter: "json_string rt s = Some (t, r) \<Longrightarrow> length r < length s"
proof (induction rt s arbitrary: t r rule: json_string.induct)
  case (1 rt s)
  show ?case
  proof (cases s)
    case Nil
    then show ?thesis using 1(3) by (subst (asm) json_string.simps) simp
  next
    case (Cons c q)
    have e: "json_escape rt q = Some (d, x) \<Longrightarrow> length x < length q" for d x
      by (rule json_escape_length)
    show ?thesis
      using 1(3) Cons e 1(1) [OF Cons] 1(2) [OF Cons]
      by (auto simp: json_string.simps [of rt "c # q"] split: if_splits option.splits prod.splits) force+
  qed
qed

lemma skip_length: "length (skip s) \<le> length s"
  by (rule length_dropWhile_le)

lemma tl_less: "s \<noteq> [] \<Longrightarrow> length (tl s) < length s"
  by (cases s) auto

lemma skip_tl: "skip s \<noteq> [] \<Longrightarrow> length (tl (skip s)) < length s"
  using tl_less [of "skip s"] skip_length [of s] by linarith

lemma span_digits_length: "span_digits s = (a, b) \<Longrightarrow> length a + length b = length s"
  by (auto simp: span_digits_def simp flip: length_append)

lemma json_fraction_length: "json_fraction s = Some (a, r) \<Longrightarrow> length r \<le> length s"
  using span_digits_length [of "tl s"] tl_less [of s]
  by (fastforce simp: json_fraction_def split: if_splits prod.splits)

lemma json_exponent_length: "json_exponent s = Some (a, r) \<Longrightarrow> length r \<le> length s"
  using span_digits_length [of "tl s"] span_digits_length [of "tl (tl s)"] tl_less [of s] tl_less [of "tl s"]
  by (fastforce simp: json_exponent_def Let_def split: if_splits prod.splits)

lemma json_number_shorter: "json_number rt s = Some (v, r) \<Longrightarrow> length r < length s"
proof -
  assume h: "json_number rt s = Some (v, r)"
  obtain neg t where t: "(if s \<noteq> [] \<and> hd s = CHR ''-'' then (True, tl s) else (False, s)) = (neg, t)"
    by (metis surj_pair)
  have lt: "length t \<le> length s" using t by (auto split: if_splits)
  obtain ds q where d: "span_digits t = (ds, q)" by (metis surj_pair)
  obtain fr r1 where f: "json_fraction q = Some (fr, r1)" and ds: "ds \<noteq> []"
    using h unfolding json_number_def Let_def t d prod.case by (auto split: if_splits option.splits)
  obtain ex where e: "json_exponent r1 = Some (ex, r)"
    using h f unfolding json_number_def Let_def t d prod.case by (auto split: if_splits option.splits)
  have "0 < length ds" using ds by simp
  then show ?thesis
    using span_digits_length [OF d] json_fraction_length [OF f] json_exponent_length [OF e] lt by linarith
qed

lemma json_word_shorter: "json_word w v s = Some (x, r) \<Longrightarrow> w \<noteq> [] \<Longrightarrow> length r < length s"
  by (cases s) (auto simp: json_word_def starts_with_def split: if_splits)

lemma json_atom_shorter: "json_atom rt s = Some (v, r) \<Longrightarrow> length r < length s"
  by (auto simp: json_atom_def dest!: json_string_shorter json_number_shorter json_word_shorter split: if_splits)

lemma json_key_shorter: "json_key rt s = Some (k, r) \<Longrightarrow> length r < length s"
proof -
  assume h: "json_key rt s = Some (k, r)"
  obtain q where q: "skip s \<noteq> []" "json_string rt (tl (skip s)) = Some (k, q)" "skip q \<noteq> []" "r = tl (skip q)"
    using h by (auto simp: json_key_def Let_def split: if_splits option.splits prod.splits)
  show ?thesis
    using json_string_shorter [OF q(2)] tl_less [OF q(1)] tl_less [OF q(3)] q(4) skip_length [of s] skip_length [of q]
    by simp
qed

lemma json_shorter:
  "json_value rt f s = Some (v, r) \<Longrightarrow> length r < length s"
  "json_items rt f s = Some (vs, r) \<Longrightarrow> length r < length s"
  "json_members rt f s = Some (ps, r) \<Longrightarrow> length r < length s"
proof (induction f arbitrary: s v vs ps r)
  case 0
  { case 1 then show ?case by simp next case 2 then show ?case by simp next case 3 then show ?case by simp }
next
  case (Suc n)
  {
    case 1
    define t where "t = skip s"
    define q where "q = skip (tl t)"
    have len: "length t \<le> length s" using skip_length [of s] unfolding t_def .
    have lt: "t \<noteq> [] \<Longrightarrow> length (tl t) < length s" using tl_less [of t] len by linarith
    have lq: "t \<noteq> [] \<Longrightarrow> length (tl q) < length s"
      using lt skip_length [of "tl t"] unfolding q_def by (metis diff_le_self le_less_trans length_tl order_trans)
    have ih: "json_items rt n (tl t) = Some (vs, r) \<Longrightarrow> length r < length (tl t)"
      "json_members rt n (tl t) = Some (ps, r) \<Longrightarrow> length r < length (tl t)" for vs ps r
      using Suc(2,3) by blast+
    show ?case
      using 1 len lt lq ih json_atom_shorter [of rt t v r]
      unfolding json_value.simps Let_def t_def [symmetric] q_def [symmetric]
      by (auto simp: opens_with_def simp del: length_tl split: if_splits)
  next
    case 2
    then obtain w q where w: "json_value rt n s = Some (w, q)" by (auto split: option.splits)
    have "length (tl (skip q)) \<le> length q" using skip_length [of q] by simp
    then show ?case
      using 2 w Suc(1) [OF w] Suc(2) [of "tl (skip q)"] by (fastforce simp: Let_def split: if_splits)
  next
    case 3
    then obtain k u w q where k: "json_key rt s = Some (k, u)" and w: "json_value rt n u = Some (w, q)"
      by (auto split: option.splits)
    have "length (tl (skip q)) \<le> length q" using skip_length [of q] by simp
    then show ?case
      using 3 k w json_key_shorter [OF k] Suc(1) [OF w] Suc(3) [of "tl (skip q)"]
      by (fastforce simp: Let_def split: if_splits)
  }
qed

lemma json_fuel_steps:
  "2 * length s + 1 \<le> f \<Longrightarrow> 2 * length s + 1 \<le> g \<Longrightarrow> json_value rt f s = json_value rt g s"
  "2 * length s + 2 \<le> f \<Longrightarrow> 2 * length s + 2 \<le> g \<Longrightarrow> json_items rt f s = json_items rt g s"
  "2 * length s + 2 \<le> f \<Longrightarrow> 2 * length s + 2 \<le> g \<Longrightarrow> json_members rt f s = json_members rt g s"
proof (induction f arbitrary: g s)
  case 0
  { case 1 then show ?case by simp next case 2 then show ?case by simp next case 3 then show ?case by simp }
next
  case (Suc n)
  {
    case 1
    then obtain m where g: "g = Suc m" by (cases g) auto
    have sk: "skip s \<noteq> [] \<Longrightarrow> 2 * length (tl (skip s)) + 2 \<le> 2 * length s"
      using skip_tl [of s] by simp
    have "skip s \<noteq> [] \<Longrightarrow> json_items rt n (tl (skip s)) = json_items rt m (tl (skip s))"
      "skip s \<noteq> [] \<Longrightarrow> json_members rt n (tl (skip s)) = json_members rt m (tl (skip s))"
      using 1 g sk Suc(2,3) [of "tl (skip s)" m] by simp_all
    then show ?case unfolding g by (simp add: Let_def opens_with_def)
  next
    case 2
    then obtain m where g: "g = Suc m" by (cases g) auto
    have v: "json_value rt n s = json_value rt m s" using 2 g Suc(1) [of s m] by simp
    have "json_value rt m s = Some (w, q) \<Longrightarrow> json_items rt n (tl (skip q)) = json_items rt m (tl (skip q))" for w q
    proof -
      assume "json_value rt m s = Some (w, q)"
      then have "length q < length s" by (rule json_shorter)
      then have "2 * length (tl (skip q)) + 2 \<le> 2 * length s" using skip_length [of q] by simp
      then show ?thesis using 2 g Suc(2) [of "tl (skip q)" m] by simp
    qed
    then show ?case unfolding g by (simp add: v Let_def split: option.splits)
  next
    case 3
    then obtain m where g: "g = Suc m" by (cases g) auto
    have v: "json_key rt s = Some (k, u) \<Longrightarrow> json_value rt n u = json_value rt m u" for k u
      using 3 g Suc(1) [of u m] json_key_shorter [of rt s k u] by simp
    have "json_key rt s = Some (k, u) \<Longrightarrow> json_value rt m u = Some (w, q) \<Longrightarrow>
        json_members rt n (tl (skip q)) = json_members rt m (tl (skip q))" for k u w q
    proof -
      assume h: "json_key rt s = Some (k, u)" "json_value rt m u = Some (w, q)"
      have "length q < length s" using json_shorter(1) [OF h(2)] json_key_shorter [OF h(1)] by simp
      then have "2 * length (tl (skip q)) + 2 \<le> 2 * length s" using skip_length [of q] by simp
      then show ?thesis using 3 g Suc(3) [of "tl (skip q)" m] by simp
    qed
    then show ?case unfolding g using v by (simp add: Let_def split: option.splits)
  }
qed

lemma json_fuel_enough:
  assumes "2 * length s + 2 \<le> f"
  shows "json_parse rt s =
    (case json_value rt f s of None \<Rightarrow> None | Some (v, r) \<Rightarrow> if skip r = [] then Some v else None)"
  unfolding json_parse_def using assms json_fuel_steps(1) [of s "2 * length s + 2" f rt] by simp

end
