(* ===== verification/CanonicalJson.thy ===== *)
theory CanonicalJson
  imports JsonParse
begin

text \<open>
  The canonical JSON of packages/payments-mpp/src/server/challenge.ts (RFC 8785) and the base64url
  messages of wire.ts.  A canonical text parses back to the value with the keys of every object
  sorted, so both sides of a payment read the same request from the bytes one of them hashed.
\<close>

section \<open>canonicalJson\<close>

lemma map_throw_cong [fundef_cong]:
  "xs = ys \<Longrightarrow> (\<And>x. x \<in> set ys \<Longrightarrow> f x = g x) \<Longrightarrow> map_throw f xs = map_throw g ys"
proof (induction xs arbitrary: ys)
  case (Cons x xs)
  then show ?case by (cases ys) auto
qed simp

definition non_finite :: "string \<Rightarrow> bool" where
  "non_finite t \<longleftrightarrow> t = ''NaN'' \<or> t = ''Infinity'' \<or> t = ''-Infinity''"

text \<open>
  \<open>JSON.stringify(n)\<close> of an integral number: exact up to \<open>2\<^sup>5\<^sup>3\<close>, the runtime's beyond.  The
  \<open>throw\<close>s carry the message of the \<open>TypeError\<close>; a lone surrogate is not a text of the model.
\<close>

function canonicalJson :: "js_runtime \<Rightarrow> jsval \<Rightarrow> string + string" where
  "canonicalJson rt JUndefined = Inl ''JCS: undefined is not JSON data.''"
| "canonicalJson rt JNull = Inr ''null''"
| "canonicalJson rt (JBool b) = Inr (if b then ''true'' else ''false'')"
| "canonicalJson rt (JInt n) = Inr (if safe_integer n then show_int n else rt_number_text rt n)"
| "canonicalJson rt (JFloat t) = (if non_finite t then Inl ''JCS: non-finite number.'' else Inr t)"
| "canonicalJson rt (JBig n) = Inl ''JCS: bigint is not JSON data.''"
| "canonicalJson rt (JStr s) = Inr (quote_text s)"
| "canonicalJson rt (JArr vs) =
     andThen (map_throw (\<lambda>v. canonicalJson rt v) vs) (\<lambda>ts. Inr (CHR ''['' # join_texts ts @ '']''))"
| "canonicalJson rt (JObj ps) =
     andThen (map_throw (\<lambda>p. andThen (canonicalJson rt (snd p)) (\<lambda>t. Inr (quote_text (fst p) @ CHR '':'' # t)))
       (sort_key fst ps)) (\<lambda>ts. Inr (CHR ''{'' # join_texts ts @ ''}''))"
  by pat_completeness auto

lemma size_prop: "p \<in> set ps \<Longrightarrow> size (snd p) < size (JObj ps)"
proof (induction ps)
  case (Cons q ps)
  then show ?case by (cases p; cases q) auto
qed simp

lemma size_item: "v \<in> set vs \<Longrightarrow> size v < size (JArr vs)"
  by (induction vs) auto

termination canonicalJson
  by (relation "measure (\<lambda>(rt, v). size v)") (simp_all add: size_prop size_item del: jsval.size)

section \<open>JSON data and its normal form\<close>

definition ascii :: "string \<Rightarrow> bool" where
  "ascii s \<longleftrightarrow> (\<forall>c \<in> set s. ord c < 128)"

text \<open>Values JSON carries unchanged in the model: exact integers, ASCII text, distinct keys.\<close>

fun json_data :: "jsval \<Rightarrow> bool" where
  "json_data JNull = True"
| "json_data (JBool b) = True"
| "json_data (JInt n) = safe_integer n"
| "json_data (JStr s) = ascii s"
| "json_data (JArr vs) = list_all json_data vs"
| "json_data (JObj ps) = (distinct (map fst ps) \<and> list_all (\<lambda>p. ascii (fst p)) ps \<and> list_all (\<lambda>p. json_data (snd p)) ps)"
| "json_data _ = False"

fun sorted_value :: "jsval \<Rightarrow> jsval" where
  "sorted_value (JArr vs) = JArr (map sorted_value vs)"
| "sorted_value (JObj ps) = JObj (sort_key fst (map (\<lambda>p. (fst p, sorted_value (snd p))) ps))"
| "sorted_value v = v"


lemma sort_key_map_snd: "sort_key fst (map (\<lambda>p. (fst p, f (snd p))) ps) = map (\<lambda>p. (fst p, f (snd p))) (sort_key fst ps)"
proof -
  have "insort_key fst (fst x, f (snd x)) (map (\<lambda>p. (fst p, f (snd p))) ys) =
      map (\<lambda>p. (fst p, f (snd p))) (insort_key fst x ys)" for x ys
    by (induction ys) auto
  then have i: "insort_key fst (fst x, f (snd x)) (map (\<lambda>p. (fst p, f (snd p))) ys) =
      map (\<lambda>p. (fst p, f (snd p))) (insort_key fst x ys)" for x ys .
  show ?thesis by (induction ps) (simp_all only: list.map sort_key_simps foldr.simps i)
qed

lemma map_of_sort_key:
  assumes "distinct (map fst ps)"
  shows "map_of (sort_key fst ps) = map_of ps"
proof -
  have "distinct (map fst (sort_key fst ps))" using assms by (simp add: distinct_map inj_on_def)
  then show ?thesis using assms by (metis map_of_inject_set set_sort)
qed

text \<open>A property of the normal form is the normal form of the property.\<close>

lemma field_sorted:
  assumes "distinct (map fst ps)"
  shows "field k (sort_key fst (map (\<lambda>p. (fst p, sorted_value (snd p))) ps)) = sorted_value (field k ps)"
proof -
  let ?qs = "map (\<lambda>p. (fst p, sorted_value (snd p))) ps"
  have "distinct (map fst ?qs)" using assms by (simp add: o_def)
  moreover have "map_of ?qs k = map_option sorted_value (map_of ps k)"
    by (induction ps) auto
  ultimately show ?thesis by (simp add: field_def map_of_sort_key or_else_def split: option.splits)
qed

section \<open>A canonical text parses to the normal form\<close>

text \<open>What may follow a value.\<close>

definition after_value :: "string \<Rightarrow> bool" where
  "after_value r \<longleftrightarrow> r = [] \<or> hd r = CHR '','' \<or> hd r = CHR '']'' \<or> hd r = CHR ''}''"

lemma after_value_simps [simp]:
  "after_value []" "after_value (CHR '','' # r)" "after_value (CHR '']'' # r)" "after_value (CHR ''}'' # r)"
  by (simp_all add: after_value_def)

lemma quotes: "ord CHR 34 = 34" "ord CHR 92 = 92" "ord CHR ''/'' = 47" "ord CHR ''u'' = 117"
  by (simp_all add: ord_def)

lemma ord_of_controls:
  "ord c = 8 \<Longrightarrow> c = char_of (8 :: nat)" "ord c = 9 \<Longrightarrow> c = char_of (9 :: nat)" "ord c = 10 \<Longrightarrow> c = char_of (10 :: nat)"
  "ord c = 12 \<Longrightarrow> c = char_of (12 :: nat)" "ord c = 13 \<Longrightarrow> c = char_of (13 :: nat)"
  by (simp_all add: char_eq_ord del: ord_inject)

lemma escape_read_back: "json_string rt (escape_char c @ s) = map_option (\<lambda>(t, q). (c # t, q)) (json_string rt s)"
proof -
  have h: "length (hex_padded 4 (ord c)) = 4" by (rule hex_padded_4)
  have u: "json_unit rt (ord c) = c" using ord_bound [of c] by (simp add: json_unit_def ord_def)
  have e: "json_escape rt (CHR ''u'' # hex_padded 4 (ord c) @ s) = Some (c, s)"
    by (simp add: json_escape_def h u)
  show ?thesis
  proof (cases "escape_char c = [c]")
    case True
    then have "c \<noteq> CHR 34" "c \<noteq> CHR 92" "\<not> ord c < 32"
      by (auto simp: escape_char_def split: if_splits)
    with True show ?thesis by (simp add: json_string.simps [of rt "c # s"])
  next
    case False
    show ?thesis
      using False e
      by (auto simp: escape_char_def json_escape_def json_string.simps [of rt "CHR 92 # x" for x] quotes
          dest!: ord_of_controls split: if_splits option.splits)
  qed
qed

lemma string_reads_back: "json_string rt (concat (map escape_char t) @ CHR 34 # r) = Some (t, r)"
proof (induction t)
  case Nil
  show ?case by (simp add: json_string.simps [of rt "CHR 34 # r"])
next
  case (Cons c t)
  then show ?case by (simp add: escape_read_back)
qed

lemma digit_marks: "\<not> is_digit CHR ''.''" "\<not> is_digit CHR ''-''" "\<not> is_digit CHR '',''" "\<not> is_digit CHR '']''"
  "\<not> is_digit CHR ''}''" "\<not> is_digit CHR 34" "\<not> is_digit CHR ''t''" "\<not> is_digit CHR ''f''" "\<not> is_digit CHR ''n''"
  "\<not> is_digit CHR ''[''" "\<not> is_digit CHR ''{''"
  by (simp_all add: is_digit_def ord_def)

lemma after_value_hd:
  assumes "after_value r" "r \<noteq> []"
  shows "\<not> is_digit (hd r)" "hd r \<noteq> CHR ''.''" "lower_char (hd r) \<noteq> CHR ''e''"
  using assms by (auto simp: after_value_def digit_marks lower_char_def ord_def)

lemma span_digits_append:
  assumes "\<forall>c \<in> set ds. is_digit c" "after_value r"
  shows "span_digits (ds @ r) = (ds, r)"
proof -
  have "takeWhile is_digit r = []" "dropWhile is_digit r = r"
    using after_value_hd(1) [OF assms(2)] by (cases r; simp)+
  then show ?thesis using assms(1) by (simp add: span_digits_def takeWhile_append2 dropWhile_append2)
qed

lemma decimal_head: "canonical_decimal ds \<Longrightarrow> ds \<noteq> [] \<and> \<not> (hd ds = CHR ''0'' \<and> 1 < length ds)"
  by (auto simp: canonical_decimal_def positive_decimal_def)

lemma number_reads_back:
  assumes "safe_integer n" "after_value r"
  shows "json_number rt (show_int n @ r) = Some (JInt n, r)"
proof -
  obtain neg m where m: "n = (if neg then - int m else int m)" "neg \<longleftrightarrow> n < 0"
    "show_int n = (if neg then CHR ''-'' # show_nat m else show_nat m)"
  proof (cases "n < 0")
    case True
    then show thesis using that [of True "nat (- n)"] by (simp add: show_int_def)
  next
    case False
    then show thesis using that [of False "nat n"] by (simp add: show_int_def)
  qed
  have d: "\<forall>c \<in> set (show_nat m). is_digit c" using show_nat_digits by blast
  have c: "show_nat m \<noteq> []" "\<not> (hd (show_nat m) = CHR ''0'' \<and> 1 < length (show_nat m))"
    using decimal_head [OF canonical_decimal_show [of m]] by auto
  have v: "of_base 10 (digits_of 10 (show_nat m)) = m"
    using parse_show [of 10 m] by (auto simp: parse_base_def split: if_splits)
  have hd: "hd (show_nat m @ r) \<noteq> CHR ''-''"
    using c(1) d digit_marks(2) by (metis hd_append2 hd_in_set)
  have sign: "(if show_int n @ r \<noteq> [] \<and> hd (show_int n @ r) = CHR ''-'' then (True, tl (show_int n @ r)) else (False, show_int n @ r)) =
      (neg, show_nat m @ r)"
    using m(3) hd by auto
  have fe: "json_fraction r = Some ([], r)" "json_exponent r = Some ([], r)"
    using after_value_hd [OF assms(2)] by (auto simp: json_fraction_def json_exponent_def)
  show ?thesis
    unfolding json_number_def Let_def sign prod.case span_digits_append [OF d assms(2)]
    using c fe v m(1) assms(1) by auto
qed

text \<open>The first character of a value tells its kind.\<close>

definition value_start :: "char \<Rightarrow> bool" where
  "value_start c \<longleftrightarrow> c \<in> {CHR 34, CHR ''['', CHR ''{'', CHR ''n'', CHR ''t'', CHR ''f'', CHR ''-''} \<or> is_digit c"

lemma value_start_facts:
  "value_start c \<Longrightarrow> \<not> json_space c" "value_start c \<Longrightarrow> c \<noteq> CHR '']''" "value_start c \<Longrightarrow> c \<noteq> CHR ''}''"
  by (auto simp: value_start_def json_space_def is_digit_def ord_def)

lemma skip_start: "value_start c \<Longrightarrow> skip (c # s) = c # s"
  by (simp add: value_start_facts)

lemma show_int_start: "\<exists>c s. show_int n = c # s \<and> (c = CHR ''-'' \<or> is_digit c)"
proof -
  obtain ds where "\<forall>c \<in> set ds. is_digit c" "ds \<noteq> []" "show_int n = (if n < 0 then CHR ''-'' # ds else ds)"
    using show_int_parts by blast
  then show ?thesis by (cases ds) auto
qed

lemma canonical_start: "canonicalJson rt v = Inr t \<Longrightarrow> json_data v \<Longrightarrow> \<exists>c s. t = c # s \<and> value_start c"
proof (cases v)
  case (JInt n)
  assume "canonicalJson rt v = Inr t" "json_data v"
  then show ?thesis using JInt show_int_start [of n] by (auto simp: value_start_def)
qed (auto simp: value_start_def quote_text_def split: if_splits)

lemma json_atom_number:
  "c \<noteq> CHR 34 \<Longrightarrow> c \<noteq> CHR ''t'' \<Longrightarrow> c \<noteq> CHR ''f'' \<Longrightarrow> c \<noteq> CHR ''n'' \<Longrightarrow>
   json_atom rt (c # s) = json_number rt (c # s)"
  by (simp add: json_atom_def starts_with_def)

lemma atom_reads_back:
  assumes "canonicalJson rt v = Inr t" "json_data v" "after_value r" "\<And>vs. v \<noteq> JArr vs" "\<And>ps. v \<noteq> JObj ps"
  shows "json_value rt (Suc n) (t @ r) = Some (sorted_value v, r)"
proof -
  obtain c s where t: "t = c # s" "value_start c" using canonical_start assms(1,2) by blast
  have k: "c \<noteq> CHR ''['' \<and> c \<noteq> CHR ''{'' \<and> json_atom rt (t @ r) = Some (sorted_value v, r)"
  proof (cases v)
    case (JInt m)
    then obtain c' s' where cs: "show_int m = c' # s'" "c' = CHR ''-'' \<or> is_digit c'" using show_int_start by blast
    have m: "t = show_int m" using JInt assms(1,2) by auto
    then have "t @ r = c # (s @ r)" "c' = c" using cs t by auto
    moreover have "c \<noteq> CHR 34" "c \<noteq> CHR ''t''" "c \<noteq> CHR ''f''" "c \<noteq> CHR ''n''" "c \<noteq> CHR ''[''" "c \<noteq> CHR ''{''"
      using cs(2) \<open>c' = c\<close> digit_marks by auto
    ultimately show ?thesis
      using number_reads_back [of m r rt] JInt assms(2,3) m by (simp add: json_atom_number)
  next
    case (JStr x)
    then have "t = quote_text x" using assms(1) by simp
    then show ?thesis using JStr string_reads_back [of rt x r] t
      by (auto simp: json_atom_def quote_text_def)
  next
    case (JBool b)
    then show ?thesis using assms(1) t by (auto simp: json_atom_def json_word_def starts_with_def split: if_splits)
  next
    case JNull
    then show ?thesis using assms(1) t by (auto simp: json_atom_def json_word_def starts_with_def)
  qed (use assms in auto)
  have sk: "skip (t @ r) = t @ r" using t by (simp add: value_start_facts)
  have op: "\<not> opens_with CHR ''['' (t @ r)" "\<not> opens_with CHR ''{'' (t @ r)"
    using k t by (simp_all add: opens_with_def)
  show ?thesis using k op by (simp only: json_value.simps Let_def sk if_False)
qed

definition parses :: "js_runtime \<Rightarrow> string \<Rightarrow> jsval \<Rightarrow> bool" where
  "parses rt t w \<longleftrightarrow>
     (\<forall>r f. after_value r \<longrightarrow> 2 * length (t @ r) + 1 \<le> f \<longrightarrow> json_value rt f (t @ r) = Some (w, r))"

lemma parsesD: "parses rt t w \<Longrightarrow> after_value r \<Longrightarrow> 2 * length (t @ r) + 1 \<le> f \<Longrightarrow>
    json_value rt f (t @ r) = Some (w, r)"
  unfolding parses_def by blast

lemma parses_json_parse: "parses rt t w \<Longrightarrow> json_parse rt t = Some w"
  using parsesD [of rt t w "[]" "2 * length t + 2"] by (simp add: json_parse_def)

lemma parses_atom:
  assumes "canonicalJson rt v = Inr t" "json_data v" "\<And>vs. v \<noteq> JArr vs" "\<And>ps. v \<noteq> JObj ps"
  shows "parses rt t v"
  unfolding parses_def
proof (intro allI impI)
  fix r f assume h: "after_value r" "2 * length (t @ r) + 1 \<le> f"
  then obtain n where "f = Suc n" by (cases f) auto
  moreover have "sorted_value v = v" using assms(3,4) by (cases v) auto
  ultimately show "json_value rt f (t @ r) = Some (v, r)" using atom_reads_back [OF assms(1,2) h(1) assms(3,4)] by metis
qed

lemma opens_with_simps [simp]: "opens_with c (d # s) \<longleftrightarrow> d = c" "\<not> opens_with c []"
  by (auto simp: opens_with_def)

lemma skip_marks: "\<not> json_space CHR '',''" "\<not> json_space CHR '']''" "\<not> json_space CHR ''}''" "\<not> json_space CHR '':''"
    "\<not> json_space CHR 34" "\<not> json_space CHR ''[''" "\<not> json_space CHR ''{''"
  by (simp_all add: json_space_def ord_def)

lemma map_throw_all2: "map_throw f xs = Inr ys \<longleftrightarrow> list_all2 (\<lambda>x y. f x = Inr y) xs ys"
  by (simp add: map_throw_Inr list_all2_conv_all_nth)

lemma items_read_back:
  "list_all2 (parses rt) ts ws \<Longrightarrow> ts \<noteq> [] \<Longrightarrow> 2 * length (join_texts ts @ CHR '']'' # r) + 2 \<le> f \<Longrightarrow>
   json_items rt f (join_texts ts @ CHR '']'' # r) = Some (ws, r)"
proof (induction ts ws arbitrary: f rule: list_all2_induct)
  case (Cons t ts w ws)
  obtain n where f: "f = Suc n" using Cons.prems by (cases f) auto
  show ?case
  proof (cases ts)
    case Nil
    then have "json_value rt n (t @ CHR '']'' # r) = Some (w, CHR '']'' # r)"
      using Cons.prems f by (intro parsesD [OF Cons.hyps(1)]) auto
    then show ?thesis using Nil Cons.hyps(2) f by (simp add: skip_marks Let_def)
  next
    case ts: (Cons t' ts')
    let ?q = "join_texts ts @ CHR '']'' # r"
    have "json_value rt n (t @ CHR '','' # ?q) = Some (w, CHR '','' # ?q)"
      using Cons.prems f ts by (intro parsesD [OF Cons.hyps(1)]) auto
    moreover have "json_items rt n ?q = Some (ws, r)"
      using Cons.prems f ts by (intro Cons.IH) auto
    ultimately show ?thesis using ts f by (simp add: skip_marks Let_def)
  qed
qed simp

definition parses_member :: "js_runtime \<Rightarrow> string \<Rightarrow> string \<times> jsval \<Rightarrow> bool" where
  "parses_member rt t p \<longleftrightarrow> (\<exists>u. t = quote_text (fst p) @ CHR '':'' # u \<and> parses rt u (snd p))"

lemma key_reads_back: "json_key rt (quote_text k @ CHR '':'' # u) = Some (k, u)"
  by (simp add: json_key_def quote_text_def skip_marks string_reads_back Let_def)

lemma members_read_back:
  "list_all2 (parses_member rt) ts ps \<Longrightarrow> ts \<noteq> [] \<Longrightarrow> 2 * length (join_texts ts @ CHR ''}'' # r) + 2 \<le> f \<Longrightarrow>
   json_members rt f (join_texts ts @ CHR ''}'' # r) = Some (ps, r)"
proof (induction ts ps arbitrary: f rule: list_all2_induct)
  case (Cons t ts p ps)
  obtain n where f: "f = Suc n" using Cons.prems by (cases f) auto
  obtain u where u: "t = quote_text (fst p) @ CHR '':'' # u" "parses rt u (snd p)"
    using Cons.hyps(1) by (auto simp: parses_member_def)
  show ?case
  proof (cases ts)
    case Nil
    then have "json_value rt n (u @ CHR ''}'' # r) = Some (snd p, CHR ''}'' # r)"
      using Cons.prems f u by (intro parsesD) auto
    then show ?thesis using Nil Cons.hyps(2) f u(1) by (simp add: skip_marks Let_def key_reads_back)
  next
    case ts: (Cons t' ts')
    let ?q = "join_texts ts @ CHR ''}'' # r"
    have "json_value rt n (u @ CHR '','' # ?q) = Some (snd p, CHR '','' # ?q)"
      using Cons.prems f u ts by (intro parsesD) auto
    moreover have "json_members rt n ?q = Some (ps, r)"
      using Cons.prems f u ts by (intro Cons.IH) auto
    ultimately show ?thesis using ts f u(1) by (simp add: skip_marks Let_def key_reads_back)
  qed
qed simp

lemma update_fresh: "k \<notin> fst ` set ps \<Longrightarrow> AList.update k v ps = ps @ [(k, v)]"
  by (induction ps) auto

lemma fold_update_distinct:
  "distinct (map fst (qs @ ps)) \<Longrightarrow> fold (\<lambda>(k, v). AList.update k v) ps qs = qs @ ps"
proof (induction ps arbitrary: qs)
  case (Cons p ps)
  have "AList.update (fst p) (snd p) qs = qs @ [p]" using Cons.prems by (simp add: update_fresh)
  then show ?case using Cons.IH [of "qs @ [p]"] Cons.prems by (simp add: case_prod_beta)
qed simp

text \<open>The first text of a list of values or members decides whether the list is empty.\<close>

definition starts_value :: "string \<Rightarrow> bool" where
  "starts_value t \<longleftrightarrow> (\<exists>c s. t = c # s \<and> value_start c)"

lemma join_start: "ts \<noteq> [] \<Longrightarrow> \<forall>t \<in> set ts. starts_value t \<Longrightarrow> starts_value (join_texts ts)"
  by (cases ts rule: join_texts.cases) (auto simp: starts_value_def)

lemma parses_array:
  assumes "list_all2 (parses rt) ts ws" "\<forall>t \<in> set ts. starts_value t"
  shows "parses rt (CHR ''['' # join_texts ts @ '']'') (JArr ws)"
  unfolding parses_def
proof (intro allI impI)
  fix r f
  assume f: "2 * length ((CHR ''['' # join_texts ts @ '']'') @ r) + 1 \<le> f"
  then obtain n where n: "f = Suc n" by (cases f) auto
  show "json_value rt f ((CHR ''['' # join_texts ts @ '']'') @ r) = Some (JArr ws, r)"
  proof (cases "ts = []")
    case True
    then show ?thesis using assms(1) n by (simp add: skip_marks)
  next
    case False
    then obtain c s where cs: "join_texts ts = c # s" "value_start c"
      using join_start assms(2) unfolding starts_value_def by metis
    have "json_items rt n (join_texts ts @ CHR '']'' # r) = Some (ws, r)"
      using f n by (intro items_read_back [OF assms(1) False]) simp
    then show ?thesis using n cs by (simp add: skip_marks value_start_facts)
  qed
qed

lemma parses_object:
  assumes "list_all2 (parses_member rt) ts ps" "distinct (map fst ps)"
  shows "parses rt (CHR ''{'' # join_texts ts @ ''}'') (JObj ps)"
  unfolding parses_def
proof (intro allI impI)
  fix r f
  assume f: "2 * length ((CHR ''{'' # join_texts ts @ ''}'') @ r) + 1 \<le> f"
  then obtain n where n: "f = Suc n" by (cases f) auto
  show "json_value rt f ((CHR ''{'' # join_texts ts @ ''}'') @ r) = Some (JObj ps, r)"
  proof (cases "ts = []")
    case True
    then show ?thesis using assms(1) n by (simp add: skip_marks)
  next
    case False
    have "parses_member rt t p \<Longrightarrow> starts_value t" for p t
      by (auto simp: parses_member_def quote_text_def value_start_def starts_value_def)
    then have "\<forall>t \<in> set ts. starts_value t" using assms(1) by (metis in_set_conv_nth list_all2_conv_all_nth)
    then obtain c s where cs: "join_texts ts = c # s" "value_start c"
      using join_start [OF False] unfolding starts_value_def by metis
    have "json_members rt n (join_texts ts @ CHR ''}'' # r) = Some (ps, r)"
      using f n by (intro members_read_back [OF assms(1) False]) simp
    then show ?thesis
      using n cs fold_update_distinct [of "[]" ps] assms(2) by (simp add: skip_marks value_start_facts)
  qed
qed

lemma canonical_parses: "canonicalJson rt v = Inr t \<Longrightarrow> json_data v \<Longrightarrow> parses rt t (sorted_value v)"
proof (induction rt v arbitrary: t rule: canonicalJson.induct)
  case (8 rt vs)
  then obtain ts where ts: "list_all2 (\<lambda>v t. canonicalJson rt v = Inr t) vs ts" "t = CHR ''['' # join_texts ts @ '']''"
    by (auto simp: map_throw_all2)
  have d: "\<forall>v \<in> set vs. json_data v" using 8(3) by (simp add: list_all_iff)
  have e: "i < length vs \<Longrightarrow> canonicalJson rt (vs ! i) = Inr (ts ! i)" for i
    using ts(1) by (simp add: list_all2_conv_all_nth)
  have l: "length vs = length ts" using ts(1) by (rule list_all2_lengthD)
  have "list_all2 (parses rt) ts (map sorted_value vs)"
    using 8(1) d e l by (simp add: list_all2_conv_all_nth)
  moreover have "\<forall>t \<in> set ts. starts_value t"
  proof
    fix t assume "t \<in> set ts"
    then obtain i where "i < length vs" "t = ts ! i" using l by (auto simp: in_set_conv_nth)
    then show "starts_value t" using canonical_start [OF e] d by (simp add: starts_value_def)
  qed
  ultimately show ?case unfolding ts(2) by (simp add: parses_array)
next
  case (9 rt ps)
  let ?f = "\<lambda>p. andThen (canonicalJson rt (snd p)) (\<lambda>t. Inr (quote_text (fst p) @ CHR '':'' # t))"
  from 9 obtain ts where ts: "list_all2 (\<lambda>p t. ?f p = Inr t) (sort_key fst ps) ts" "t = CHR ''{'' # join_texts ts @ ''}''"
    by (auto simp: map_throw_all2)
  have d: "\<forall>p \<in> set ps. json_data (snd p)" "distinct (map fst ps)" using 9(3) by (simp_all add: list_all_iff)
  have l: "length (sort_key fst ps) = length ts" using ts(1) by (rule list_all2_lengthD)
  have "parses_member rt (ts ! i) (fst (sort_key fst ps ! i), sorted_value (snd (sort_key fst ps ! i)))"
    if i: "i < length ts" for i
  proof -
    let ?p = "sort_key fst ps ! i"
    have p: "?p \<in> set ps" using i l by (metis nth_mem set_sort)
    have "?f ?p = Inr (ts ! i)" using ts(1) i l by (simp add: list_all2_conv_all_nth)
    then obtain u where "canonicalJson rt (snd ?p) = Inr u" "ts ! i = quote_text (fst ?p) @ CHR '':'' # u" by auto
    then show ?thesis using 9(1) [of ?p u] d(1) p by (auto simp: parses_member_def)
  qed
  then have "list_all2 (parses_member rt) ts (map (\<lambda>p. (fst p, sorted_value (snd p))) (sort_key fst ps))"
    using l by (simp add: list_all2_conv_all_nth)
  moreover have "distinct (map fst (map (\<lambda>p. (fst p, sorted_value (snd p))) (sort_key fst ps)))"
    using d(2) by (simp add: o_def distinct_map inj_on_def)
  ultimately show ?case unfolding ts(2) by (simp add: parses_object sort_key_map_snd)
qed (simp_all only: sorted_value.simps, (rule parses_atom; simp)+)

lemma ascii_simps [simp]:
  "ascii []" "ascii (c # s) \<longleftrightarrow> ord c < 128 \<and> ascii s" "ascii (s @ t) \<longleftrightarrow> ascii s \<and> ascii t"
  by (auto simp: ascii_def)

lemma ascii_concat: "ascii (concat ss) \<longleftrightarrow> (\<forall>s \<in> set ss. ascii s)"
  by (auto simp: ascii_def)

lemma ascii_join: "ascii (join_texts ts) \<longleftrightarrow> (\<forall>t \<in> set ts. ascii t)"
  by (induction ts rule: join_texts.induct) (auto simp: ord_def)

lemma ascii_hex: "\<forall>c \<in> set s. is_hex c \<Longrightarrow> ascii s"
  by (fastforce simp: ascii_def is_hex_def hex_val_def split: if_splits)

lemma ascii_quote: "ascii s \<Longrightarrow> ascii (quote_text s)"
proof -
  have "ord c < 128 \<Longrightarrow> ascii (escape_char c)" for c
    using ascii_hex [of "hex_padded 4 (ord c)"] hex_padded_hex by (auto simp: escape_char_def ord_def)
  then show "ascii s \<Longrightarrow> ascii (quote_text s)"
    by (auto simp: quote_text_def ascii_concat quotes) (auto simp: ascii_def)
qed

lemma ascii_digits: "ascii (show_int n)"
proof -
  obtain ds where "\<forall>c \<in> set ds. is_digit c" "show_int n = (if n < 0 then CHR ''-'' # ds else ds)"
    using show_int_parts by blast
  then show ?thesis using ascii_hex [of ds] is_digit_hex by (auto simp: ord_def)
qed

lemma canonical_ascii: "canonicalJson rt v = Inr t \<Longrightarrow> json_data v \<Longrightarrow> ascii t"
proof (induction rt v arbitrary: t rule: canonicalJson.induct)
  case (8 rt vs)
  then obtain ts where ts: "list_all2 (\<lambda>v t. canonicalJson rt v = Inr t) vs ts" "t = CHR ''['' # join_texts ts @ '']''"
    by (auto simp: map_throw_all2)
  have "ascii (ts ! i)" if "i < length ts" for i
  proof -
    have "vs ! i \<in> set vs" "canonicalJson rt (vs ! i) = Inr (ts ! i)"
      using ts(1) that by (simp_all add: list_all2_conv_all_nth)
    then show ?thesis using 8(1,3) by (simp add: list_all_iff)
  qed
  then have "\<forall>t \<in> set ts. ascii t" by (auto simp: in_set_conv_nth)
  then show ?case by (simp add: ts(2) ascii_join) (simp add: ord_def)
next
  case (9 rt ps)
  let ?f = "\<lambda>p. andThen (canonicalJson rt (snd p)) (\<lambda>t. Inr (quote_text (fst p) @ CHR '':'' # t))"
  from 9 obtain ts where ts: "list_all2 (\<lambda>p t. ?f p = Inr t) (sort_key fst ps) ts" "t = CHR ''{'' # join_texts ts @ ''}''"
    by (auto simp: map_throw_all2)
  have "ascii (ts ! i)" if "i < length ts" for i
  proof -
    have p: "sort_key fst ps ! i \<in> set ps" "?f (sort_key fst ps ! i) = Inr (ts ! i)"
      using ts(1) that by (simp_all add: list_all2_conv_all_nth) (metis length_sort nth_mem set_sort)
    then obtain u where u: "canonicalJson rt (snd (sort_key fst ps ! i)) = Inr u"
      "ts ! i = quote_text (fst (sort_key fst ps ! i)) @ CHR '':'' # u" by auto
    have "ascii u" "ascii (fst (sort_key fst ps ! i))"
      using 9(1) [of "sort_key fst ps ! i" u] 9(3) p(1) u(1) by (simp_all add: list_all_iff)
    then show ?thesis unfolding u(2) by (simp add: ascii_quote) (simp add: ord_def)
  qed
  then show ?case by (auto simp: ts(2) ascii_join in_set_conv_nth) (simp_all add: ord_def)
qed (auto simp: ascii_quote ascii_digits ord_def)

section \<open>JSON.stringify\<close>

text \<open>
  \<open>JSON.stringify(v)\<close>: \<open>Inr None\<close> is \<open>undefined\<close>, which an object drops and an array prints as
  \<open>null\<close>; a bigint throws.
\<close>

function json_stringify :: "js_runtime \<Rightarrow> jsval \<Rightarrow> string + string option" where
  "json_stringify rt JUndefined = Inr None"
| "json_stringify rt JNull = Inr (Some ''null'')"
| "json_stringify rt (JBool b) = Inr (Some (if b then ''true'' else ''false''))"
| "json_stringify rt (JInt n) = Inr (Some (if safe_integer n then show_int n else rt_number_text rt n))"
| "json_stringify rt (JFloat t) = Inr (Some (if non_finite t then ''null'' else t))"
| "json_stringify rt (JBig n) = Inl ''Do not know how to serialize a BigInt''"
| "json_stringify rt (JStr s) = Inr (Some (quote_text s))"
| "json_stringify rt (JArr vs) =
     andThen (map_throw (\<lambda>v. json_stringify rt v) vs)
       (\<lambda>ts. Inr (Some (CHR ''['' # join_texts (map (\<lambda>t. or_else t ''null'') ts) @ '']'')))"
| "json_stringify rt (JObj ps) =
     andThen (map_throw (\<lambda>p. andThen (json_stringify rt (snd p))
         (\<lambda>t. Inr (map_option (\<lambda>u. quote_text (fst p) @ CHR '':'' # u) t))) ps)
       (\<lambda>ts. Inr (Some (CHR ''{'' # join_texts (List.map_filter (\<lambda>t. t) ts) @ ''}'')))"
  by pat_completeness auto
termination
  by (relation "measure (\<lambda>(rt, v). size v)") (simp_all add: size_prop size_item del: jsval.size)

lemma map_throw_Some:
  "\<forall>x \<in> set xs. f x = Inr (Some (g x)) \<Longrightarrow> map_throw f xs = Inr (map (\<lambda>x. Some (g x)) xs)"
  by (induction xs) auto

lemma map_filter_Some: "List.map_filter (\<lambda>t. t) (map (\<lambda>x. Some (g x)) xs) = map g xs"
  by (induction xs) (auto simp: map_filter_simps)

text \<open>What \<open>JSON.stringify\<close> prints of JSON data.\<close>

definition stringified :: "js_runtime \<Rightarrow> jsval \<Rightarrow> string" where
  "stringified rt v = (case json_stringify rt v of Inr (Some t) \<Rightarrow> t | _ \<Rightarrow> [])"

lemma stringifiedI: "json_stringify rt v = Inr (Some t) \<Longrightarrow> stringified rt v = t"
  by (simp add: stringified_def)

lemma stringify_parses:
  "json_data v \<Longrightarrow> json_stringify rt v = Inr (Some (stringified rt v)) \<and> starts_value (stringified rt v) \<and>
     parses rt (stringified rt v) v \<and> ascii (stringified rt v)"
proof (induction rt v rule: json_stringify.induct)
  case (4 rt n)
  then have "starts_value (show_int n)"
    using show_int_start [of n] by (auto simp: starts_value_def value_start_def)
  then show ?case using 4 parses_atom [of rt "JInt n" "show_int n"] ascii_digits by (simp add: stringified_def)
next
  case (8 rt vs)
  have ih: "\<forall>v \<in> set vs. json_stringify rt v = Inr (Some (stringified rt v)) \<and> starts_value (stringified rt v) \<and>
      parses rt (stringified rt v) v \<and> ascii (stringified rt v)"
    using 8 by (simp add: list_all_iff)
  then have m: "map_throw (\<lambda>v. json_stringify rt v) vs = Inr (map (\<lambda>v. Some (stringified rt v)) vs)"
    by (intro map_throw_Some) simp
  have "list_all2 (parses rt) (map (stringified rt) vs) vs"
    using ih by (simp add: list_all2_map1 list_all2_same)
  then have "parses rt (CHR ''['' # join_texts (map (stringified rt) vs) @ '']'') (JArr vs)"
    using ih by (intro parses_array) auto
  moreover have "ascii (join_texts (map (stringified rt) vs))" using ih by (simp add: ascii_join)
  moreover have e: "json_stringify rt (JArr vs) = Inr (Some (CHR ''['' # join_texts (map (stringified rt) vs) @ '']''))"
    using m by (simp add: o_def)
  ultimately show ?case using stringifiedI [OF e] by (simp add: starts_value_def value_start_def ord_def)
next
  case (9 rt ps)
  let ?g = "\<lambda>p. quote_text (fst p) @ CHR '':'' # stringified rt (snd p)"
  have ih: "\<forall>p \<in> set ps. json_stringify rt (snd p) = Inr (Some (stringified rt (snd p))) \<and>
      parses rt (stringified rt (snd p)) (snd p) \<and> ascii (stringified rt (snd p))"
    using 9 by (simp add: list_all_iff)
  then have m: "map_throw (\<lambda>p. andThen (json_stringify rt (snd p))
      (\<lambda>t. Inr (map_option (\<lambda>u. quote_text (fst p) @ CHR '':'' # u) t))) ps = Inr (map (\<lambda>p. Some (?g p)) ps)"
    by (intro map_throw_Some) simp
  have "list_all2 (parses_member rt) (map ?g ps) ps"
    using ih by (auto simp: list_all2_map1 list_all2_same parses_member_def)
  then have "parses rt (CHR ''{'' # join_texts (map ?g ps) @ ''}'') (JObj ps)"
    using 9(2) by (intro parses_object) auto
  moreover have "ascii (join_texts (map ?g ps))"
    using ih 9(2) by (auto simp: ascii_join list_all_iff ascii_quote) (simp_all add: ord_def)
  moreover have e: "json_stringify rt (JObj ps) = Inr (Some (CHR ''{'' # join_texts (map ?g ps) @ ''}''))"
    using m by (simp add: map_filter_Some)
  ultimately show ?case using stringifiedI [OF e] by (simp add: starts_value_def value_start_def ord_def)
next
  case (7 rt s)
  then show ?case using ascii_quote [of s] parses_atom [of rt "JStr s" "quote_text s"]
    by (simp add: stringified_def starts_value_def) (simp add: quote_text_def value_start_def)
qed (auto simp: stringified_def starts_value_def value_start_def ord_def intro!: parses_atom)

section \<open>base64url messages\<close>

text \<open>\<open>encodeCanonical\<close> and the \<open>encodeBase64UrlJson\<close> and \<open>decodeBase64UrlJson\<close> of wire.ts.\<close>

definition encodeCanonical :: "js_runtime \<Rightarrow> jsval \<Rightarrow> string + string" where
  "encodeCanonical rt v = andThen (canonicalJson rt v) (\<lambda>t. Inr (base64Url (utf8 t)))"

definition encodeBase64UrlJson :: "js_runtime \<Rightarrow> jsval \<Rightarrow> string + string" where
  "encodeBase64UrlJson rt v = andThen (json_stringify rt v) (\<lambda>t. Inr (base64Url (utf8 (or_nil t))))"

definition decodeBase64UrlJson :: "js_runtime \<Rightarrow> string \<Rightarrow> jsval" where
  "decodeBase64UrlJson rt s =
     (case from_base64url s of
        None \<Rightarrow> JNull
      | Some bs \<Rightarrow>
          (case decode_text rt bs of None \<Rightarrow> JNull | Some t \<Rightarrow> or_else (json_parse rt t) JNull))"

lemma decode_utf8: "ascii t \<Longrightarrow> decode_text rt (utf8 t) = Some t"
proof -
  assume h: "ascii t"
  have "unat (word_of_nat (ord c) :: byte) = ord c" for c using ord_bound [of c] by (simp add: unat_word_of_nat_byte)
  then have "bytes_text (utf8 t) = t" "ascii_bytes (utf8 t)"
    using h by (auto simp: bytes_text_def utf8_def ascii_bytes_def ascii_def word_less_nat_alt map_idI ord_def)
  then show ?thesis by (simp add: decode_text_def)
qed

text \<open>A message decodes to what was encoded; a canonical one to its normal form.\<close>

lemma decode_encoded: "ascii t \<Longrightarrow> t \<noteq> [] \<Longrightarrow> parses rt t w \<Longrightarrow> decodeBase64UrlJson rt (base64Url (utf8 t)) = w"
proof -
  assume h: "ascii t" "t \<noteq> []" "parses rt t w"
  have "utf8 t \<noteq> []" using h(2) by (simp add: utf8_def)
  then have "from_base64url (base64Url (utf8 t)) = Some (utf8 t)" by (rule base64url_roundtrip)
  then show ?thesis using h by (simp add: decodeBase64UrlJson_def decode_utf8 parses_json_parse)
qed

theorem json_message_roundtrip:
  assumes "json_data v"
  shows "encodeBase64UrlJson rt v = Inr (base64Url (utf8 (stringified rt v)))"
    "decodeBase64UrlJson rt (base64Url (utf8 (stringified rt v))) = v"
  using stringify_parses [OF assms, of rt]
  by (auto simp: encodeBase64UrlJson_def starts_value_def intro!: decode_encoded)

theorem canonical_message_roundtrip:
  assumes "json_data v" "encodeCanonical rt v = Inr s"
  shows "decodeBase64UrlJson rt s = sorted_value v"
proof -
  obtain t where t: "canonicalJson rt v = Inr t" "s = base64Url (utf8 t)"
    using assms(2) by (auto simp: encodeCanonical_def)
  show ?thesis unfolding t(2)
    using canonical_start [OF t(1) assms(1)]
    by (intro decode_encoded canonical_ascii [OF t(1) assms(1)] canonical_parses [OF t(1) assms(1)]) auto
qed

text \<open>JSON data always has a canonical text.\<close>

lemma canonical_total: "json_data v \<Longrightarrow> \<exists>t. canonicalJson rt v = Inr t"
proof (induction rt v rule: canonicalJson.induct)
  case (8 rt vs)
  then have "\<forall>v \<in> set vs. \<exists>t. canonicalJson rt v = Inr t" by (simp add: list_all_iff)
  then obtain g where "\<forall>v \<in> set vs. canonicalJson rt v = Inr (g v)" by metis
  then have "list_all2 (\<lambda>v t. canonicalJson rt v = Inr t) vs (map g vs)" by (simp add: list_all2_conv_all_nth)
  then show ?case by (auto simp: map_throw_all2)
next
  case (9 rt ps)
  then have "\<forall>p \<in> set ps. \<exists>t. canonicalJson rt (snd p) = Inr t" by (simp add: list_all_iff)
  then obtain g where g: "\<forall>p \<in> set ps. canonicalJson rt (snd p) = Inr (g p)" by metis
  have "list_all2 (\<lambda>p t. andThen (canonicalJson rt (snd p)) (\<lambda>t. Inr (quote_text (fst p) @ CHR '':'' # t)) = Inr t)
      (sort_key fst ps) (map (\<lambda>p. quote_text (fst p) @ CHR '':'' # g p) (sort_key fst ps))"
    using g by (simp add: list_all2_map2 list_all2_same)
  then show ?case by (auto simp: map_throw_all2)
qed auto

end
