(* ===== verification/MppWire.thy ===== *)
theory MppWire
  imports CanonicalJson SolanaWire
begin

text \<open>
  packages/payments-mpp/src/wire.ts: the tokenizer of a \<open>WWW-Authenticate\<close> value, the reader of a
  Payment challenge, credentials and receipts.  The tokenizer's position \<open>i\<close> in the value is the rest
  of the value from \<open>i\<close>.  Its two loops are partial functions, and it is proved that they return
  for every value, each round having consumed at least one character.
\<close>

section \<open>Errors\<close>

datatype mpp_code = InvalidChallenge | NoAcceptableChallenge | InvalidReceipt | PaymentRejected | InvalidInput

text \<open>
  What the payment clients throw: an \<open>MppError\<close>, an error of the core package that passes through,
  or the plain \<open>Error\<close> of a session call that needs an active channel.
\<close>

datatype mpp_error = MppError mpp_code string | Thrown wallet_error | NoActiveSession

abbreviation bad_challenge :: "string \<Rightarrow> mpp_error" where "bad_challenge m \<equiv> MppError InvalidChallenge m"
abbreviation bad_input :: "string \<Rightarrow> mpp_error" where "bad_input m \<equiv> MppError InvalidInput m"

text \<open>An error of the core package passes through unchanged.\<close>

definition from_core :: "wallet_error + 'a \<Rightarrow> mpp_error + 'a" where
  "from_core r = (case r of Inl e \<Rightarrow> Inl (Thrown e) | Inr x \<Rightarrow> Inr x)"

lemma from_core_Inr [simp]: "from_core r = Inr x \<longleftrightarrow> r = Inr x"
  by (auto simp: from_core_def split: sum.splits)

text \<open>\<open>isRecord\<close>: an object that is neither null nor an array.\<close>

fun isRecord :: "jsval \<Rightarrow> bool" where
  "isRecord (JObj ps) = True"
| "isRecord _ = False"

fun props_of :: "jsval \<Rightarrow> props" where
  "props_of (JObj ps) = ps"
| "props_of _ = []"

fun is_str :: "jsval \<Rightarrow> bool" where
  "is_str (JStr s) = True"
| "is_str _ = False"

text \<open>\<open>Number.isInteger(v)\<close> and a condition on the number.\<close>

fun integer_where :: "(int \<Rightarrow> bool) \<Rightarrow> jsval \<Rightarrow> bool" where
  "integer_where P (JInt n) = P n"
| "integer_where P _ = False"

section \<open>The detail of a problem response\<close>

text \<open>
  \<open>problemDetail\<close>: chunks are read until 4096 bytes have arrived, then the text is decoded, parsed
  and its \<open>detail\<close> cut to 200 characters without control characters.  \<open>None\<close> is a failed read.
\<close>

fun read_chunks :: "nat \<Rightarrow> bytes option list \<Rightarrow> bytes option" where
  "read_chunks n [] = Some []"
| "read_chunks n (c # cs) =
     (if 4096 \<le> n then Some []
      else case c of None \<Rightarrow> None | Some bs \<Rightarrow> map_option ((@) bs) (read_chunks (n + length bs) cs))"

definition control :: "char \<Rightarrow> bool" where
  "control c \<longleftrightarrow> ord c < 32 \<or> 127 \<le> ord c \<and> ord c \<le> 159"

definition problemDetail :: "js_runtime \<Rightarrow> bool \<Rightarrow> bytes option list option \<Rightarrow> string" where
  "problemDetail rt problemJson body =
     (case body of
        None \<Rightarrow> []
      | Some chunks \<Rightarrow>
          if \<not> problemJson then []
          else case read_chunks 0 chunks of
            None \<Rightarrow> []
          | Some bs \<Rightarrow>
              (case json_parse rt (decode_lossy rt bs) of
                 Some (JObj ps) \<Rightarrow>
                   (case field ''detail'' ps of
                      JStr d \<Rightarrow> '': '' @ take 200 (map (\<lambda>c. if control c then CHR '' '' else c) d)
                    | _ \<Rightarrow> [])
               | _ \<Rightarrow> []))"

section \<open>The tokenizer\<close>

definition tchar :: "char \<Rightarrow> bool" where
  "tchar c \<longleftrightarrow>
     48 \<le> ord c \<and> ord c \<le> 57 \<or> 65 \<le> ord c \<and> ord c \<le> 90 \<or> 97 \<le> ord c \<and> ord c \<le> 122 \<or>
     ord c \<in> {33, 35, 36, 37, 38, 39, 42, 43, 45, 46, 94, 95, 96, 124, 126}"

definition token68_char :: "char \<Rightarrow> bool" where
  "token68_char c \<longleftrightarrow>
     48 \<le> ord c \<and> ord c \<le> 57 \<or> 65 \<le> ord c \<and> ord c \<le> 90 \<or> 97 \<le> ord c \<and> ord c \<le> 122 \<or>
     ord c \<in> {45, 46, 95, 126, 43, 47}"

definition is_ows :: "char \<Rightarrow> bool" where
  "is_ows c \<longleftrightarrow> c = CHR '' '' \<or> ord c = 9"

definition is_separator :: "char \<Rightarrow> bool" where
  "is_separator c \<longleftrightarrow> c = CHR '','' \<or> is_ows c"

definition skipOws :: "string \<Rightarrow> string" where
  "skipOws s = dropWhile is_ows s"

text \<open>\<open>token()\<close>: the token and the rest of the value.\<close>

definition token :: "string \<Rightarrow> string \<times> string" where
  "token s = (takeWhile tchar s, dropWhile tchar s)"

record raw_challenge =
  rc_scheme :: string
  rc_params :: "(string \<times> string) list"
  rc_error :: "string option"

definition bad :: "string \<Rightarrow> mpp_error + 'a" where
  "bad why = Inl (bad_challenge (''Malformed WWW-Authenticate: '' @ why @ ''.''))"

definition unexpected :: "char \<Rightarrow> string" where
  "unexpected c = ''unexpected '' @ [CHR 34, c, CHR 34]"

definition atParam :: "string \<Rightarrow> bool" where
  "atParam s =
     (let (name, r) = token s; r1 = skipOws r in
      name \<noteq> [] \<and> opens_with CHR ''='' r1 \<and>
      (let r2 = skipOws (tl r1) in r2 \<noteq> [] \<and> hd r2 \<noteq> CHR ''='' \<and> hd r2 \<noteq> CHR '',''))"

definition quoted_control :: "char \<Rightarrow> bool" where
  "quoted_control c \<longleftrightarrow> (ord c < 32 \<and> ord c \<noteq> 9) \<or> ord c = 127"

text \<open>The loop of \<open>quoted()\<close>, after the opening quote.\<close>

fun quoted :: "string \<Rightarrow> string \<Rightarrow> mpp_error + string \<times> string" where
  "quoted out [] = bad ''unterminated quoted-string''"
| "quoted out [c] =
     (if c = CHR 34 then Inr (out, [])
      else if c = CHR 92 then bad ''unterminated quoted-string''
      else if quoted_control c then bad ''control character''
      else bad ''unterminated quoted-string'')"
| "quoted out (c # d # r) =
     (if c = CHR 34 then Inr (out, d # r)
      else if c = CHR 92 then (if quoted_control d then bad ''control character'' else quoted (out @ [d]) r)
      else if quoted_control c then bad ''control character''
      else quoted (out @ [c]) (d # r))"

text \<open>
  One auth-param at the start of the rest: its name, its value and what follows, optional white
  space skipped.
\<close>

definition auth_param :: "string \<Rightarrow> mpp_error + (string \<times> string) \<times> string" where
  "auth_param s =
     (let name = lower (fst (token s)); r = skipOws (snd (token s)) in
      if \<not> opens_with CHR ''='' r then bad (''parameter '' @ name @ '' has no value'')
      else let r1 = skipOws (tl r) in
        if opens_with CHR 34 r1 then
          andThen (quoted [] (tl r1)) (\<lambda>(v, r2). Inr ((name, v), skipOws r2))
        else let (v, r2) = token r1 in
          if v = [] then bad (''parameter '' @ name @ '' has no value'') else Inr ((name, v), skipOws r2))"

text \<open>
  \<open>challenge.params[name] = value\<close>, unless the object has the name already.  Assigning a string to
  \<open>__proto__\<close> has no effect on an object literal.
\<close>

definition add_param :: "raw_challenge \<Rightarrow> string \<Rightarrow> string \<Rightarrow> raw_challenge" where
  "add_param c name v =
     (if name \<in> fst ` set (rc_params c) then c\<lparr>rc_error := Some (''parameter '' @ name @ '' appears twice'')\<rparr>
      else if name = ''__proto__'' then c
      else c\<lparr>rc_params := rc_params c @ [(name, v)]\<rparr>)"

partial_function (option) params_loop ::
  "raw_challenge \<Rightarrow> string \<Rightarrow> (mpp_error + raw_challenge \<times> string) option" where
  "params_loop c s =
     (case auth_param s of
        Inl e \<Rightarrow> Some (Inl e)
      | Inr ((name, v), r) \<Rightarrow>
          let c' = add_param c name v in
          if r = [] then Some (Inr (c', []))
          else if hd r \<noteq> CHR '','' then Some (bad (unexpected (hd r) @ '' after '' @ name))
          else let r' = dropWhile is_separator r in
            if r' = [] \<or> \<not> atParam r' then Some (Inr (c', r')) else params_loop c' r')"

declare params_loop.simps [code]

text \<open>A token68 is consumed and ignored.\<close>

definition skip_token68 :: "string \<Rightarrow> mpp_error + string" where
  "skip_token68 s =
     (let r = dropWhile (\<lambda>c. c = CHR ''='') (dropWhile token68_char s) in
      if r = s then bad (unexpected (hd s))
      else let r' = skipOws r in
        if r' \<noteq> [] \<and> hd r' \<noteq> CHR '','' then bad ''token68 followed by more data'' else Inr r')"

partial_function (option) challenges_loop ::
  "raw_challenge list \<Rightarrow> string \<Rightarrow> (mpp_error + raw_challenge list) option" where
  "challenges_loop cs s =
     (let r = dropWhile is_separator s in
      if r = [] then Some (Inr cs)
      else let scheme = fst (token r) in
        if scheme = [] then Some (bad (unexpected (hd r)))
        else let c = \<lparr>rc_scheme = scheme, rc_params = [], rc_error = None\<rparr>; r1 = skipOws (snd (token r)) in
          if r1 = [] \<or> hd r1 = CHR '','' then challenges_loop (cs @ [c]) r1
          else if \<not> atParam r1 then
            (case skip_token68 r1 of Inl e \<Rightarrow> Some (Inl e) | Inr r2 \<Rightarrow> challenges_loop (cs @ [c]) r2)
          else Option.bind (params_loop c r1) (\<lambda>res.
            case res of Inl e \<Rightarrow> Some (Inl e) | Inr (c', r2) \<Rightarrow> challenges_loop (cs @ [c']) r2))"

declare challenges_loop.simps [code]

definition parseAuthenticate :: "string \<Rightarrow> (mpp_error + raw_challenge list) option" where
  "parseAuthenticate s = challenges_loop [] s"

section \<open>Payment challenges\<close>

record challenge_params =
  cp_id :: string
  cp_realm :: string
  cp_method :: string
  cp_intent :: string
  cp_request :: string
  cp_expires :: "string option"
  cp_digest :: "string option"
  cp_description :: "string option"
  cp_header :: "string option"
  cp_opaque :: "string option"

record wire_challenge =
  wc_params :: challenge_params
  wc_request :: props
  wc_expiresAt :: "int option"

definition payment_authorization :: string where "payment_authorization = ''Payment-Authorization''"

text \<open>The anchored expressions \<open>METHOD\<close>, \<open>INTENT\<close> and \<open>RFC3339\<close>.\<close>

definition lower_letter :: "char \<Rightarrow> bool" where
  "lower_letter c \<longleftrightarrow> 97 \<le> ord c \<and> ord c \<le> 122"

definition method_re :: "string \<Rightarrow> bool" where
  "method_re s \<longleftrightarrow> s \<noteq> [] \<and> (\<forall>c \<in> set s. lower_letter c)"

definition intent_re :: "string \<Rightarrow> bool" where
  "intent_re s \<longleftrightarrow>
     s \<noteq> [] \<and> (\<forall>c \<in> set s. is_digit c \<or> lower_letter c \<or> 65 \<le> ord c \<and> ord c \<le> 90 \<or> c = CHR ''-'')"

text \<open>\<open>d\<close> a digit, \<open>t\<close> a \<open>T\<close> of either case, anything else itself.\<close>

definition shape_char :: "char \<Rightarrow> char \<Rightarrow> bool" where
  "shape_char p c \<longleftrightarrow>
     (if p = CHR ''d'' then is_digit c else if p = CHR ''t'' then lower_char c = CHR ''t'' else c = p)"

definition shaped :: "string \<Rightarrow> string \<Rightarrow> bool" where
  "shaped p s \<longleftrightarrow> list_all2 shape_char p s"

definition rfc3339_re :: "string \<Rightarrow> bool" where
  "rfc3339_re s \<longleftrightarrow>
     shaped ''dddd-dd-ddtdd:dd:dd'' (take 19 s) \<and>
     (let r = drop 19 s;
          z = (if opens_with CHR ''.'' r then dropWhile is_digit (tl r) else r)
      in (opens_with CHR ''.'' r \<longrightarrow> takeWhile is_digit (tl r) \<noteq> []) \<and>
         (lower z = ''z'' \<or> shaped ''+dd:dd'' z \<or> shaped ''-dd:dd'' z))"

text \<open>\<open>parseRfc3339\<close>: \<open>None\<close> is \<open>NaN\<close>.\<close>

definition parseRfc3339 :: "js_runtime \<Rightarrow> string \<Rightarrow> int option" where
  "parseRfc3339 rt s = (if rfc3339_re s then rt_date rt s else None)"

definition required_params :: "string list" where
  "required_params = [''id'', ''realm'', ''method'', ''intent'', ''request'']"

definition string_map :: "jsval \<Rightarrow> bool" where
  "string_map v \<longleftrightarrow> isRecord v \<and> (\<forall>p \<in> set (props_of v). is_str (snd p))"

definition opaque_bad :: "js_runtime \<Rightarrow> string option \<Rightarrow> bool" where
  "opaque_bad rt v = (case v of None \<Rightarrow> False | Some s \<Rightarrow> \<not> string_map (decodeBase64UrlJson rt s))"

definition params_of :: "(string \<times> string) list \<Rightarrow> challenge_params" where
  "params_of ps =
     \<lparr>cp_id = or_nil (map_of ps ''id''), cp_realm = or_nil (map_of ps ''realm''),
      cp_method = or_nil (map_of ps ''method''), cp_intent = or_nil (map_of ps ''intent''),
      cp_request = or_nil (map_of ps ''request''), cp_expires = map_of ps ''expires'',
      cp_digest = map_of ps ''digest'', cp_description = map_of ps ''description'',
      cp_header = map_of ps ''header'', cp_opaque = map_of ps ''opaque''\<rparr>"

text \<open>Why a challenge is unreadable, in the order of the checks.\<close>

definition challenge_refusal :: "js_runtime \<Rightarrow> raw_challenge \<Rightarrow> string option" where
  "challenge_refusal rt raw =
     (let ps = rc_params raw; p = params_of ps in first_some
       [rc_error raw,
        first_error (\<lambda>n. throw_if (map_of ps n = None) (n @ '' is missing'')) required_params,
        throw_if (cp_id p = []) ''id is empty'',
        throw_if (\<not> method_re (cp_method p)) ''method is not lowercase ASCII'',
        throw_if (\<not> intent_re (cp_intent p)) ''intent is not a token'',
        throw_if (\<not> isRecord (decodeBase64UrlJson rt (cp_request p))) ''request is not base64url JSON'',
        (case cp_header p of None \<Rightarrow> None
         | Some h \<Rightarrow> throw_if (h \<noteq> payment_authorization) (''header '' @ h @ '' is not '' @ payment_authorization)),
        throw_if (opaque_bad rt (cp_opaque p)) ''opaque is not a base64url JSON string map'',
        (case cp_expires p of None \<Rightarrow> None
         | Some e \<Rightarrow> throw_if (parseRfc3339 rt e = None) ''expires is not an RFC 3339 time'')])"

definition readChallenge :: "js_runtime \<Rightarrow> raw_challenge \<Rightarrow> string + wire_challenge" where
  "readChallenge rt raw =
     (case challenge_refusal rt raw of
        Some why \<Rightarrow> Inl why
      | None \<Rightarrow> let p = params_of (rc_params raw) in
          Inr \<lparr>wc_params = p, wc_request = props_of (decodeBase64UrlJson rt (cp_request p)),
               wc_expiresAt = Option.bind (cp_expires p) (parseRfc3339 rt)\<rparr>)"

record rejected_challenge =
  rj_params :: "(string \<times> string) list"
  rj_reason :: string

definition sort_challenge ::
  "js_runtime \<Rightarrow> raw_challenge \<Rightarrow> wire_challenge list \<times> rejected_challenge list \<Rightarrow>
     wire_challenge list \<times> rejected_challenge list" where
  "sort_challenge rt raw res =
     (case res of (cs, rj) \<Rightarrow>
        if lower (rc_scheme raw) \<noteq> ''payment'' then (cs, rj)
        else case readChallenge rt raw of
          Inl why \<Rightarrow> (cs, rj @ [\<lparr>rj_params = rc_params raw, rj_reason = why\<rparr>])
        | Inr c \<Rightarrow> (cs @ [c], rj))"

definition parsePaymentChallenges ::
  "js_runtime \<Rightarrow> string option \<Rightarrow> (mpp_error + wire_challenge list \<times> rejected_challenge list) option" where
  "parsePaymentChallenges rt v =
     (if or_nil v = [] then Some (Inl (bad_challenge ''The 402 carries no WWW-Authenticate header.''))
      else map_option (\<lambda>r. andThen r (\<lambda>raws.
        let res = fold (sort_challenge rt) raws ([], []) in
        if fst res = [] \<and> snd res = [] then Inl (bad_challenge ''The 402 carries no Payment challenge.'')
        else Inr res)) (parseAuthenticate (the v)))"

section \<open>Credential and receipt\<close>

record mpp_credential =
  cr_challenge :: challenge_params
  cr_payload :: props
  cr_source :: "string option"

definition params_props :: "challenge_params \<Rightarrow> props" where
  "params_props p =
     [(''id'', JStr (cp_id p)), (''realm'', JStr (cp_realm p)), (''method'', JStr (cp_method p)),
      (''intent'', JStr (cp_intent p)), (''request'', JStr (cp_request p))] @
     opt_prop ''expires'' JStr (cp_expires p) @ opt_prop ''digest'' JStr (cp_digest p) @
     opt_prop ''description'' JStr (cp_description p) @ opt_prop ''header'' JStr (cp_header p) @
     opt_prop ''opaque'' JStr (cp_opaque p)"

definition credential_value :: "mpp_credential \<Rightarrow> jsval" where
  "credential_value c =
     JObj ([(''challenge'', JObj (params_props (cr_challenge c))), (''payload'', JObj (cr_payload c))] @
       opt_prop ''source'' JStr (cr_source c))"

text \<open>The field name and its value; the left side is the \<open>TypeError\<close> of a payload JSON cannot print.\<close>

definition encodeCredential :: "js_runtime \<Rightarrow> mpp_credential \<Rightarrow> string + string \<times> string" where
  "encodeCredential rt c =
     andThen (encodeBase64UrlJson rt (credential_value c))
       (\<lambda>t. Inr (or_else (cp_header (cr_challenge c)) ''Authorization'', ''Payment '' @ t))"

definition receipt_bad :: "jsval \<Rightarrow> bool" where
  "receipt_bad v \<longleftrightarrow>
     \<not> isRecord v \<or> field ''status'' (props_of v) \<noteq> JStr ''success'' \<or>
     \<not> is_str (field ''method'' (props_of v)) \<or> \<not> is_str (field ''timestamp'' (props_of v)) \<or>
     \<not> is_str (field ''reference'' (props_of v))"

definition parsePaymentReceipt :: "js_runtime \<Rightarrow> string option \<Rightarrow> mpp_error + props option" where
  "parsePaymentReceipt rt v =
     (case v of
        None \<Rightarrow> Inr None
      | Some s \<Rightarrow>
          let r = decodeBase64UrlJson rt (trim s) in
          if receipt_bad r then Inl (MppError InvalidReceipt ''Payment-Receipt is malformed.'')
          else Inr (Some (props_of r)))"

section \<open>The tokenizer returns for every value\<close>

lemma skipOws_length: "length (skipOws s) \<le> length s"
  by (simp add: skipOws_def length_dropWhile_le)

lemma token_length: "token s = (a, b) \<Longrightarrow> length a + length b = length s"
  by (auto simp: token_def simp flip: length_append)

lemma bad_Inr [simp]: "bad why \<noteq> Inr x"
  by (simp add: bad_def)

lemma quoted_length: "quoted out s = Inr (v, r) \<Longrightarrow> length r < length s"
proof (induction out s rule: quoted.induct)
  case (3 out c d r)
  then show ?case by (fastforce split: if_splits)
qed (auto split: if_splits)

lemma auth_param_length: "auth_param s = Inr (p, r) \<Longrightarrow> length r < length s"
proof -
  assume h: "auth_param s = Inr (p, r)"
  define t where "t = skipOws (snd (token s))"
  define u where "u = skipOws (tl t)"
  have lt: "length t \<le> length s"
    using token_length [of s "fst (token s)" "snd (token s)"] skipOws_length [of "snd (token s)"]
    by (simp add: t_def)
  have e: "t \<noteq> []" using h by (auto simp: auth_param_def Let_def t_def [symmetric] opens_with_def split: if_splits)
  then have lu: "length u < length s"
    using lt skipOws_length [of "tl t"] tl_less [of t] unfolding u_def by linarith
  obtain x where x: "r = skipOws x" "x = snd (token u) \<or> (u \<noteq> [] \<and> (\<exists>v. quoted [] (tl u) = Inr (v, x)))"
    using h by (auto simp: auth_param_def Let_def t_def [symmetric] u_def [symmetric] opens_with_def case_prod_beta
        split: if_splits)
  have "length (snd (token u)) \<le> length u" using token_length [of u "fst (token u)" "snd (token u)"] by simp
  then have "length x \<le> length u" using x(2) quoted_length [of "[]" "tl u"] tl_less [of u] by fastforce
  then show ?thesis using lu skipOws_length [of x] x(1) by simp
qed

lemma params_loop_returns:
  "\<exists>res. params_loop c s = Some res \<and> (\<forall>c' r. res = Inr (c', r) \<longrightarrow> length r < length s)"
proof (induction s arbitrary: c rule: length_induct)
  case (1 s)
  show ?case
  proof (cases "auth_param s")
    case (Inl e)
    then show ?thesis by (simp add: params_loop.simps [of c s])
  next
    case (Inr q)
    obtain name v r where q: "q = ((name, v), r)" by (metis prod.collapse)
    let ?r = "dropWhile is_separator r"
    have l: "length r < length s" using auth_param_length Inr q by blast
    then have lr: "length ?r < length s" using length_dropWhile_le [of is_separator r] by linarith
    show ?thesis
      using 1 [rule_format, OF lr, of "add_param c name v"] l lr
      by (auto simp: params_loop.simps [of c s] Inr q Let_def bad_def intro: less_trans)
  qed
qed

lemma skip_token68_length: "skip_token68 s = Inr r \<Longrightarrow> length r \<le> length s"
proof -
  assume h: "skip_token68 s = Inr r"
  have "r = skipOws (dropWhile (\<lambda>c. c = CHR ''='') (dropWhile token68_char s))"
    using h by (auto simp: skip_token68_def Let_def split: if_splits)
  then show ?thesis using skipOws_length length_dropWhile_le by (metis order_trans)
qed

lemma challenges_loop_returns: "\<exists>res. challenges_loop cs s = Some res"
proof (induction s arbitrary: cs rule: length_induct)
  case (1 s)
  define r where "r = dropWhile is_separator s"
  define r1 where "r1 = skipOws (snd (token r))"
  let ?c = "\<lparr>rc_scheme = fst (token r), rc_params = [], rc_error = None\<rparr>"
  have lr: "length r \<le> length s" by (simp add: r_def length_dropWhile_le)
  show ?case
  proof (cases "r = [] \<or> fst (token r) = []")
    case True
    then show ?thesis by (auto simp: challenges_loop.simps [of cs s] Let_def r_def [symmetric])
  next
    case False
    then have l1: "length r1 < length s"
    proof -
      have "0 < length (fst (token r))" using False by simp
      moreover have "length (fst (token r)) + length (snd (token r)) = length r" by (rule token_length) simp
      ultimately show ?thesis using skipOws_length [of "snd (token r)"] lr unfolding r1_def by linarith
    qed
    obtain res where res: "params_loop ?c r1 = Some res" "\<And>c' x. res = Inr (c', x) \<Longrightarrow> length x < length r1"
      using params_loop_returns [of ?c r1] by blast
    have ih: "length x < length s \<Longrightarrow> \<exists>y. challenges_loop cs' x = Some y" for x cs' using 1 by blast
    have t68: "skip_token68 r1 = Inr x \<Longrightarrow> length x < length s" for x
      using skip_token68_length [of r1 x] l1 by linarith
    show ?thesis
      using False ih l1 res t68 less_trans [OF res(2) l1]
      by (auto simp: challenges_loop.simps [of cs s] Let_def r_def [symmetric] r1_def [symmetric] split: sum.splits)
  qed
qed

text \<open>
  C36: parsing a \<open>WWW-Authenticate\<close> value always returns: for every value the tokenizer yields either
  the list of challenges or the error it throws, and so does the reader of its Payment challenges,
  which is never left in one of the loops.
\<close>

theorem parse_always_returns:
  "(\<exists>raws. parseAuthenticate s = Some raws) \<and> (\<exists>res. parsePaymentChallenges rt v = Some res)"
proof -
  have "\<exists>raws. parseAuthenticate s = Some raws" for s
    unfolding parseAuthenticate_def by (rule challenges_loop_returns)
  then show ?thesis by (auto simp: parsePaymentChallenges_def)
qed

end
