(* ===== verification/MppSession.thy ===== *)
theory MppSession
  imports VoucherKeys MppWire
begin

text \<open>
  packages/payments-mpp/src/session.ts: the client of an MPP Solana session.  It meters units, opens a
  payment channel when a server asks for one, pays with vouchers of a channel voucher key, and closes
  the channel.  The HTTP exchanges are answers the steps receive; the key manager is the model of
  VoucherKeys, and the channel transactions are those of SolanaChannel.
\<close>

section \<open>Errors and data\<close>

record mpp_policy =
  mp_recipient :: string
  mp_mint :: string
  mp_amount :: int
  mp_deposit :: int
  mp_maxCumulative :: int
  mp_maxDelta :: int
  mp_expiresAt :: int
  mp_minimumGrace :: "int option"

text \<open>A challenge as the wire layer returns it: method, intent, decoded request, expiry in ms.\<close>

record mpp_challenge =
  ch_method :: string
  ch_intent :: string
  ch_request :: props
  ch_expiresAt :: "int option"

record session_request =
  sr_amount :: int
  sr_currency :: string
  sr_recipient :: string
  sr_cluster :: string
  sr_channelProgram :: string
  sr_recentBlockhash :: string
  sr_recentSlot :: int
  sr_decimals :: int
  sr_tokenProgram :: "string option"
  sr_feePayerKey :: "string option"
  sr_gracePeriod :: int
  sr_minimumDeposit :: int

record mpp_channel =
  mo_cluster :: string
  mo_channelId :: string
  mo_payer :: string
  mo_payee :: string
  mo_mint :: string
  mo_channelProgram :: string
  mo_deposit :: int
  mo_gracePeriod :: int
  mo_openSlot :: int
  mo_salt :: int

record settlement_binding =
  sb_cluster :: string
  sb_channelId :: string
  sb_channelProgram :: string
  sb_expectedSettled :: string
  sb_afterForcedClose :: bool

section \<open>Reading a challenge\<close>

text \<open>The refusal of a network does not repeat the rejected value here.\<close>

definition mpp_networks :: "(string \<times> string) list" where
  "mpp_networks = [(''mainnet'', solana_mainnet), (''devnet'', solana_devnet)]"

definition mpp_decimal :: "jsval \<Rightarrow> string \<Rightarrow> bool \<Rightarrow> mpp_error + int" where
  "mpp_decimal v name allowZero =
     (case v of
        JStr s \<Rightarrow>
          (case (if canonical_decimal s then parse_base 10 s else None) of
             None \<Rightarrow> Inl (bad_challenge (name @ '' is not a decimal integer string.''))
           | Some n \<Rightarrow>
               if (\<not> allowZero \<and> n = 0) \<or> int n > u64_max then
                 Inl (bad_challenge (name @ '' is not a '' @ (if allowZero then ''u64'' else ''positive u64'') @ ''.''))
               else Inr (int n))
      | _ \<Rightarrow> Inl (bad_challenge (name @ '' is not a decimal integer string.'')))"

definition mpp_address :: "jsval \<Rightarrow> string \<Rightarrow> mpp_error + string" where
  "mpp_address v name =
     (case v of
        JStr s \<Rightarrow> if voucher_address s then Inr s else Inl (bad_challenge (name @ '' is not a Solana address.''))
      | _ \<Rightarrow> Inl (bad_challenge (name @ '' is not a Solana address.'')))"

definition details_refusal :: "props \<Rightarrow> mpp_error option" where
  "details_refusal d = first_some
     [throw_if (field ''network'' d \<noteq> JStr ''mainnet'' \<and> field ''network'' d \<noteq> JStr ''devnet'')
        (bad_challenge ''network is not supported.''),
      throw_if (field ''channelId'' d \<noteq> JUndefined) (bad_challenge ''Resuming an existing channel is not supported.''),
      throw_if (field ''voucherSigner'' d \<noteq> JUndefined \<and> field ''voucherSigner'' d \<noteq> JStr ''client'')
        (bad_challenge ''Only client-signed vouchers are supported.''),
      throw_if (field ''operator'' d \<noteq> JUndefined) (bad_challenge ''operator is forbidden for client-signed vouchers.''),
      throw_if (field ''distributionSplits'' d \<noteq> JUndefined \<and> field ''distributionSplits'' d \<noteq> JArr [])
        (bad_challenge ''Only the single challenge recipient may receive settlement.''),
      throw_if (\<not> integer_where (\<lambda>n. 0 \<le> n \<and> n \<le> 9) (field ''decimals'' d))
        (bad_challenge ''methodDetails.decimals is not 0 to 9.''),
      throw_if (\<not> integer_where (\<lambda>n. 0 < n \<and> n \<le> 4294967295) (field ''gracePeriodSeconds'' d))
        (bad_challenge ''gracePeriodSeconds is not a positive u32.''),
      throw_if (field ''tokenProgram'' d \<notin> {JUndefined, JStr token_program, JStr token2022_program})
        (bad_challenge ''tokenProgram is not a supported token program.''),
      throw_if (field ''feePayer'' d \<notin> {JUndefined, JBool True, JBool False})
        (bad_challenge ''feePayer is not a boolean.''),
      (if field ''feePayer'' d = JBool True then
         (case mpp_address (field ''feePayerKey'' d) ''feePayerKey'' of Inl e \<Rightarrow> Some e | Inr _ \<Rightarrow> None)
       else throw_if (field ''feePayerKey'' d \<noteq> JUndefined) (bad_challenge ''feePayerKey requires feePayer=true.''))]"

definition readSessionRequest :: "mpp_challenge \<Rightarrow> mpp_error + session_request" where
  "readSessionRequest c =
     (if ch_method c \<noteq> ''solana'' \<or> ch_intent c \<noteq> ''session'' then
        Inl (bad_challenge ''The challenge is not a Solana session challenge.'')
      else let r = ch_request c in
      case field ''methodDetails'' r of
        JObj d \<Rightarrow>
          (case details_refusal d of Some e \<Rightarrow> Inl e
           | None \<Rightarrow>
               andThen (mpp_decimal (field ''amount'' r) ''amount'' False) (\<lambda>amount.
               andThen (mpp_address (field ''currency'' r) ''currency'') (\<lambda>currency.
               andThen (mpp_address (field ''recipient'' r) ''recipient'') (\<lambda>recipient.
               andThen (mpp_address (field ''channelProgram'' d) ''channelProgram'') (\<lambda>program.
               andThen (mpp_address (field ''recentBlockhash'' d) ''recentBlockhash'') (\<lambda>blockhash.
               andThen (mpp_decimal (field ''recentSlot'' d) ''recentSlot'' True) (\<lambda>slt.
               andThen (if field ''minimumDeposit'' r = JUndefined then Inr 0
                        else mpp_decimal (field ''minimumDeposit'' r) ''minimumDeposit'' True) (\<lambda>minimum.
               Inr \<lparr>sr_amount = amount, sr_currency = currency, sr_recipient = recipient,
                    sr_cluster = or_nil (map_of mpp_networks (str_of (field ''network'' d))),
                    sr_channelProgram = program, sr_recentBlockhash = blockhash, sr_recentSlot = slt,
                    sr_decimals = int_of (field ''decimals'' d),
                    sr_tokenProgram = defined str_of (field ''tokenProgram'' d),
                    sr_feePayerKey = (if field ''feePayer'' d = JBool True then Some (str_of (field ''feePayerKey'' d)) else None),
                    sr_gracePeriod = int_of (field ''gracePeriodSeconds'' d), sr_minimumDeposit = minimum\<rparr>))))))))
      | _ \<Rightarrow> Inl (bad_challenge ''methodDetails is missing.''))"

section \<open>Vouchers on the wire\<close>

text \<open>The private \<open>base58\<close> of the file: the loop over the digits, then one \<open>1\<close> per leading zero byte.\<close>

fun b58_loop :: "nat \<Rightarrow> string \<Rightarrow> string" where
  "b58_loop v text = (if v = 0 then text else b58_loop (v div 58) ((solana_base58 ! (v mod 58)) # text))"

declare b58_loop.simps [simp del]

definition mpp_base58 :: "bytes \<Rightarrow> string" where
  "mpp_base58 bs =
     (let text = replicate (length (takeWhile (\<lambda>b. b = 0) bs)) CHR ''1'' @
          b58_loop (foldl (\<lambda>v b. v * 256 + unat b) 0 bs) []
      in if text = [] then ''1'' else text)"

record wire_voucher =
  wv_channelId :: string
  wv_cumulativeAmount :: string
  wv_expiresAt :: int
  wv_signer :: string
  wv_signature :: string

definition signedVoucher :: "channel_voucher \<times> bytes \<Rightarrow> string \<Rightarrow> wire_voucher" where
  "signedVoucher sv signer =
     (case sv of (v, sig) \<Rightarrow>
        \<lparr>wv_channelId = cv_channelId v, wv_cumulativeAmount = show_int (cv_cumulativeAmount v),
         wv_expiresAt = cv_expiresAt v, wv_signer = signer, wv_signature = mpp_base58 sig\<rparr>)"

section \<open>The client and its state\<close>

record mpp_rpc =
  mr_rpc :: sol_rpc
  mr_blockhashValid :: "string \<Rightarrow> wallet_error + bool"

record mpp_client_options =
  mc_env :: sol_env
  mc_keys :: voucher_config
  mc_policy :: mpp_policy
  mc_signer :: string
  mc_trust :: "trusted_program option"

definition policy_valid :: "mpp_policy \<Rightarrow> bool" where
  "policy_valid p \<longleftrightarrow>
     0 < mp_amount p \<and> 0 < mp_deposit p \<and> 0 < mp_maxCumulative p \<and> mp_maxCumulative p \<le> mp_deposit p \<and>
     0 < mp_maxDelta p \<and> mp_maxDelta p \<le> mp_maxCumulative p \<and> safe_integer (mp_expiresAt p) \<and>
     voucher_address (mp_mint p)"

text \<open>
  The object \<open>active\<close> points to.  Later code keeps references to it (\<open>snapshot\<close>), so objects live in
  a store and are named by their address.
\<close>

record session_obj =
  so_channel :: mpp_channel
  so_challenge :: mpp_challenge
  so_keyId :: "string option"
  so_keyAddress :: string
  so_mintAccount :: channel_mint
  so_lastVoucher :: "wire_voucher option"
  so_endpoint :: string

text \<open>Where a started call waits: its continuation runs when the awaited answer arrives.\<close>

datatype task =
    WaitingForOpen nat string "int option"
  | FirstRequest string
  | Signing string string int bool string
  | OpenSent nat string channel_binding
  | Closing nat string wire_voucher
  | Forcing nat settlement_binding

record mpp_state =
  ms_objs :: "(nat \<times> session_obj) list"
  ms_active :: "nat option"
  ms_channels :: "nat list"
  ms_pending :: int
  ms_opening :: "nat option"
  ms_tasks :: "(nat \<times> task) list"
  ms_settled :: "(nat \<times> bool) list"
  ms_next :: nat
  ms_keys :: "voucher_key adapter"

definition initial_mpp :: "voucher_key adapter \<Rightarrow> mpp_state" where
  "initial_mpp keys =
     \<lparr>ms_objs = [], ms_active = None, ms_channels = [], ms_pending = 0, ms_opening = None, ms_tasks = [],
      ms_settled = [], ms_next = 0, ms_keys = keys\<rparr>"

definition active_obj :: "mpp_state \<Rightarrow> session_obj option" where
  "active_obj s = Option.bind (ms_active s) (map_of (ms_objs s))"

definition active_channel_is :: "string \<Rightarrow> mpp_state \<Rightarrow> bool" where
  "active_channel_is cid s \<longleftrightarrow> map_option (mo_channelId \<circ> so_channel) (active_obj s) = Some cid"

definition change_obj :: "nat \<Rightarrow> (session_obj \<Rightarrow> session_obj) \<Rightarrow> mpp_state \<Rightarrow> mpp_state" where
  "change_obj r f s = s\<lparr>ms_objs := map (\<lambda>(r', ob). (r', if r' = r then f ob else ob)) (ms_objs s)\<rparr>"

section \<open>Metering and starting a request\<close>

definition meter_add :: "int \<Rightarrow> mpp_state \<Rightarrow> mpp_error + mpp_state" where
  "meter_add units s =
     (if units \<le> 0 \<or> ms_pending s > u64_max - units then Inl (bad_input ''Meter units must be a positive u64.'')
      else Inr (s\<lparr>ms_pending := ms_pending s + units\<rparr>))"

text \<open>The part of \<open>performFetch\<close> before its first \<open>await\<close>: the task it waits in.\<close>

definition perform_fetch :: "string \<Rightarrow> int option \<Rightarrow> mpp_state \<Rightarrow> mpp_error + task \<times> mpp_state" where
  "perform_fetch request units s =
     (if (\<exists>u \<in> set_option units. u \<le> 0) then Inl (bad_input ''Request units must be a positive bigint.'')
      else if units \<noteq> None \<and> ms_pending s \<noteq> 0 then
        Inl (bad_input ''Use either request units or meter.add(), not both.'')
      else case active_obj s of
        Some ob \<Rightarrow>
          (case so_keyId ob of
             None \<Rightarrow> Inl (bad_input ''The channel open was not acknowledged; use forceClose for recovery.'')
           | Some kid \<Rightarrow>
               let metered = or_else units (ms_pending s) in
               if metered \<le> 0 then Inl (bad_input ''No metered units were reported.'')
               else Inr (Signing kid (mo_channelId (so_channel ob)) metered (units = None) request,
                         if units = None then s\<lparr>ms_pending := ms_pending s - metered\<rparr> else s))
      | None \<Rightarrow>
          if units \<noteq> None then Inl (bad_input ''Request units apply only after the channel is open.'')
          else Inr (FirstRequest request, s))"

definition add_task :: "task \<Rightarrow> mpp_state \<Rightarrow> mpp_state" where
  "add_task t s = s\<lparr>ms_tasks := (ms_next s, t) # ms_tasks s, ms_next := ms_next s + 1\<rparr>"

text \<open>
  A task ends; \<open>finally\<close> forgets it as the opening one.  A caller that waits for an opening learns
  from \<open>ms_settled\<close> whether it succeeded.
\<close>

definition end_task :: "nat \<Rightarrow> bool \<Rightarrow> mpp_state \<Rightarrow> mpp_state" where
  "end_task t ok s =
     s\<lparr>ms_tasks := filter (\<lambda>(t', _). t' \<noteq> t) (ms_tasks s), ms_settled := (t, ok) # ms_settled s,
       ms_opening := (if ms_opening s = Some t then None else ms_opening s)\<rparr>"

definition next_task :: "nat \<Rightarrow> task \<Rightarrow> mpp_state \<Rightarrow> mpp_state" where
  "next_task t k s = s\<lparr>ms_tasks := map (\<lambda>(t', k'). (t', if t' = t then k else k')) (ms_tasks s)\<rparr>"

definition session_fetch :: "string \<Rightarrow> int option \<Rightarrow> mpp_state \<Rightarrow> mpp_error + mpp_state" where
  "session_fetch request units s =
     (case ms_opening s of
        Some t \<Rightarrow> Inr (add_task (WaitingForOpen t request units) s)
      | None \<Rightarrow>
          andThen (perform_fetch request units s) (\<lambda>(k, s').
          Inr (if ms_active s \<noteq> None then add_task k s' else (add_task k s')\<lparr>ms_opening := Some (ms_next s)\<rparr>)))"

text \<open>The awaited opening has settled: its failure is thrown, otherwise the request is performed.\<close>

definition resume_waiting :: "nat \<Rightarrow> mpp_state \<Rightarrow> mpp_error + mpp_state" where
  "resume_waiting t s =
     (case map_of (ms_tasks s) t of
        Some (WaitingForOpen t' request units) \<Rightarrow>
          (case map_of (ms_settled s) t' of
             None \<Rightarrow> Inr s
           | Some False \<Rightarrow> Inr (end_task t False s)
           | Some True \<Rightarrow>
               (case perform_fetch request units s of
                  Inl e \<Rightarrow> Inr (end_task t False s)
                | Inr (k, s') \<Rightarrow> Inr (next_task t k s')))
      | _ \<Rightarrow> Inr s)"

section \<open>Opening a channel\<close>

text \<open>
  Everything \<open>performFetch\<close> checks of the challenge and the RPC before it creates a key: the terms
  it goes on with.  The two readings of the clock are those of the two expiry checks.
\<close>

definition session_terms ::
  "mpp_client_options \<Rightarrow> mpp_challenge \<Rightarrow> mpp_rpc \<Rightarrow> int \<Rightarrow> int \<Rightarrow>
   mpp_error + session_request \<times> string \<times> channel_mint" where
  "session_terms opts c rpc now1_ms now2_ms =
     (let p = mc_policy opts in
      if (\<exists>e \<in> set_option (ch_expiresAt c). e \<le> now1_ms) then
        Inl (bad_challenge ''The Solana session challenge has expired.'')
      else
        andThen (readSessionRequest c) (\<lambda>r.
        if sr_currency r \<noteq> mp_mint p then Inl (bad_challenge ''The challenged mint is not the app policy mint.'')
        else
          andThen (from_core (assertSolanaCluster (mr_rpc rpc) (sr_cluster r))) (\<lambda>_.
          andThen (from_core (assertTrustedChannelProgram (mc_env opts) (mr_rpc rpc) (sr_cluster r) (mc_trust opts))) (\<lambda>trusted.
          if sr_channelProgram r \<noteq> tp_address trusted then
            Inl (bad_challenge ''The challenge channelProgram is not the app-trusted program.'')
          else
            andThen (from_core (mr_blockhashValid rpc (sr_recentBlockhash r))) (\<lambda>valid.
            if \<not> valid then Inl (bad_challenge ''The challenged recentBlockhash is not valid on the app RPC.'')
            else
              andThen (from_core (getAccountInfo (mr_rpc rpc) (sr_currency r))) (\<lambda>account.
              case account of
                None \<Rightarrow> Inl (bad_challenge ''The challenged mint account does not exist.'')
              | Some (owner, data) \<Rightarrow>
                  andThen (from_core (readMint owner data)) (\<lambda>(prog, decimals).
                  if int decimals \<noteq> sr_decimals r \<or> (\<exists>t \<in> set_option (sr_tokenProgram r). t \<noteq> [] \<and> t \<noteq> prog) then
                    Inl (bad_challenge ''The challenge does not match the mint account.'')
                  else if sr_recipient r \<noteq> mp_recipient p \<or> sr_amount r \<noteq> mp_amount p \<or>
                      sr_gracePeriod r < or_else (mp_minimumGrace p) 3600 \<or> mp_deposit p < sr_minimumDeposit r then
                    Inl (bad_challenge ''The session challenge exceeds the app policy.'')
                  else if mp_expiresAt p < now2_ms div 1000 + sr_gracePeriod r then
                    Inl (bad_input ''Voucher expiry must outlast the forced-close settlement window.'')
                  else Inr (r, tp_address trusted, \<lparr>cm_address = sr_currency r, cm_owner = owner, cm_data = data\<rparr>))))))))"

text \<open>The policy of the voucher key, and the channel it is to be opened for.\<close>

definition session_voucher_policy :: "mpp_client_options \<Rightarrow> session_request \<Rightarrow> string \<Rightarrow> voucher_policy" where
  "session_voucher_policy opts r program =
     (let p = mc_policy opts in
      \<lparr>vp_cluster = sr_cluster r, vp_channelProgram = program, vp_payer = mc_signer opts, vp_mint = sr_currency r,
       vp_payee = sr_recipient r, vp_pricePerUnit = mp_amount p, vp_maxCumulative = mp_maxCumulative p,
       vp_maxDelta = mp_maxDelta p, vp_expiry = mp_expiresAt p\<rparr>)"

definition open_input ::
  "mpp_client_options \<Rightarrow> session_request \<Rightarrow> string \<Rightarrow> channel_mint \<Rightarrow> string \<Rightarrow> int \<Rightarrow> open_channel" where
  "open_input opts r program mintAcc keyAddress slt =
     \<lparr>ci_programAddress = Some program, ci_payer = mc_signer opts, ci_payee = sr_recipient r,
      ci_mint = sr_currency r, ci_authorizedSigner = keyAddress, ci_salt = slt, ci_openSlot = sr_recentSlot r,
      ci_feePayer = or_else (sr_feePayerKey r) (mc_signer opts), ci_mintAccount = mintAcc,
      ci_deposit = mp_deposit (mc_policy opts), ci_gracePeriod = sr_gracePeriod r,
      ci_blockhash = sr_recentBlockhash r\<rparr>"

definition opened_channel :: "mpp_client_options \<Rightarrow> session_request \<Rightarrow> string \<Rightarrow> string \<Rightarrow> int \<Rightarrow> mpp_channel" where
  "opened_channel opts r program channelId slt =
     \<lparr>mo_cluster = sr_cluster r, mo_channelId = channelId, mo_payer = mc_signer opts, mo_payee = sr_recipient r,
      mo_mint = sr_currency r, mo_channelProgram = program, mo_deposit = mp_deposit (mc_policy opts),
      mo_gracePeriod = sr_gracePeriod r, mo_openSlot = sr_recentSlot r, mo_salt = slt\<rparr>"

definition opened_obj ::
  "mpp_client_options \<Rightarrow> mpp_challenge \<Rightarrow> session_request \<Rightarrow> string \<Rightarrow> channel_mint \<Rightarrow> voucher_info \<Rightarrow> string \<Rightarrow> int \<Rightarrow>
   string \<Rightarrow> session_obj" where
  "opened_obj opts c r program mintAcc created channelId slt request =
     \<lparr>so_channel = opened_channel opts r program channelId slt, so_challenge = c, so_keyId = Some (vk_id created),
      so_keyAddress = vk_address created, so_mintAccount = mintAcc, so_lastVoucher = None, so_endpoint = request\<rparr>"

definition open_binding :: "mpp_client_options \<Rightarrow> session_request \<Rightarrow> string \<Rightarrow> int \<Rightarrow> channel_binding" where
  "open_binding opts r channelId slt =
     \<lparr>bc_channelId = channelId, bc_deposit = mp_deposit (mc_policy opts), bc_openSlot = sr_recentSlot r, bc_salt = slt\<rparr>"

text \<open>\<open>active\<close> becomes the new session, whatever it was, and the channel is listed.\<close>

definition install_session :: "session_obj \<Rightarrow> mpp_state \<Rightarrow> mpp_state" where
  "install_session ob s =
     s\<lparr>ms_objs := (ms_next s, ob) # ms_objs s, ms_active := Some (ms_next s),
       ms_channels := ms_channels s @ [ms_next s], ms_next := ms_next s + 1\<rparr>"

text \<open>What the platform and the wallet supply to one opening.\<close>

record opening_world =
  ow_rpc :: mpp_rpc
  ow_challenge_ms :: int
  ow_expiry_ms :: int
  ow_entropy :: voucher_entropy
  ow_salt :: int
  ow_sign :: "bytes \<Rightarrow> wallet_error + bytes"

text \<open>\<open>keyManager.revoke(id).catch(() => {})\<close>.\<close>

definition revoke_quietly :: "string \<Rightarrow> voucher_key adapter \<Rightarrow> voucher_key adapter" where
  "revoke_quietly kid a = (case vk_revoke kid a of Inl _ \<Rightarrow> a | Inr (_, a') \<Rightarrow> a')"

text \<open>
  The \<open>catch\<close> of an opening: the key is revoked; a channel already handed to the server keeps its
  place without a key, and one that was not is forgotten.
\<close>

definition failed_open :: "string \<Rightarrow> string \<Rightarrow> bool \<Rightarrow> mpp_state \<Rightarrow> mpp_state" where
  "failed_open kid channelId handed s =
     (let s1 = s\<lparr>ms_keys := revoke_quietly kid (ms_keys s)\<rparr> in
      case ms_active s1 of None \<Rightarrow> s1
      | Some r \<Rightarrow>
          if \<not> active_channel_is channelId s1 then s1
          else if handed then change_obj r (\<lambda>ob. ob\<lparr>so_keyId := None\<rparr>) s1
          else s1\<lparr>ms_active := None,
                  ms_channels := (case find (\<lambda>r'. map_option (mo_channelId \<circ> so_channel) (map_of (ms_objs s1) r') = Some channelId)
                                    (ms_channels s1) of
                      None \<Rightarrow> ms_channels s1 | Some r' \<Rightarrow> remove1 r' (ms_channels s1))\<rparr>)"

text \<open>
  The answer to the first request carried the challenge \<open>c\<close>: the key is created, the wallet signs
  the opening transaction, and the credential with the transaction is sent.  The answer is the
  transaction handed to the server.
\<close>

definition open_session ::
  "mpp_client_options \<Rightarrow> nat \<Rightarrow> string \<Rightarrow> mpp_challenge \<Rightarrow> opening_world \<Rightarrow> mpp_state \<Rightarrow>
   (mpp_error + string) \<times> mpp_state" where
  "open_session opts t request c w s =
     (case session_terms opts c (ow_rpc w) (ow_challenge_ms w) (ow_expiry_ms w) of
        Inl e \<Rightarrow> (Inl e, end_task t False s)
      | Inr (r, program, mintAcc) \<Rightarrow>
          (case vk_create (mc_env opts) (mc_keys opts) (session_voucher_policy opts r program) (ow_entropy w) (ms_keys s) of
             Inl e \<Rightarrow> (Inl (Thrown e), end_task t False s)
           | Inr (created, keys) \<Rightarrow>
               let s1 = s\<lparr>ms_keys := keys\<rparr>; i = open_input opts r program mintAcc (vk_address created) (ow_salt w) in
               (case deriveChannelPda (mc_env opts) i of
                  Inl e \<Rightarrow> (Inl (Thrown e), end_task t False s1)
                | Inr (channelId, _) \<Rightarrow>
                    (case andThen (buildOpenChannelTransaction (mc_env opts) i) (\<lambda>tx.
                          andThen (ow_sign w tx) (\<lambda>signed. verifySignedChannelOpen (mc_env opts) signed i)) of
                       Inl e \<Rightarrow> (Inl (Thrown e), end_task t False (failed_open (vk_id created) channelId False s1))
                     | Inr transaction \<Rightarrow>
                         (Inr transaction,
                          next_task t (OpenSent (ms_next s1) (vk_id created) (open_binding opts r channelId (ow_salt w)))
                            (install_session (opened_obj opts c r program mintAcc created channelId (ow_salt w) request) s1))))))"

section \<open>The answers of the server\<close>

record mpp_receipt =
  rc_method :: string
  rc_intent :: "string option"
  rc_reference :: string

text \<open>
  What a sent credential resolves to: no response, or a status and the receipt header as
  \<open>parsePaymentReceipt\<close> reads it (absent, malformed or a receipt).
\<close>

datatype paid_answer = NoResponse wallet_error | Response int "mpp_error + mpp_receipt option"

definition receiptFor :: "mpp_error + mpp_receipt option \<Rightarrow> string \<Rightarrow> mpp_error + mpp_receipt" where
  "receiptFor header channelId =
     andThen header (\<lambda>receipt.
     case receipt of
       None \<Rightarrow> Inl (bad_challenge ''The server did not return a matching Solana session receipt.'')
     | Some rc \<Rightarrow>
         if rc_method rc \<noteq> ''solana'' \<or> rc_intent rc \<noteq> Some ''session'' \<or> rc_reference rc \<noteq> channelId then
           Inl (bad_challenge ''The server did not return a matching Solana session receipt.'')
         else Inr rc)"

definition paid :: "paid_answer \<Rightarrow> string \<Rightarrow> string \<Rightarrow> mpp_error + mpp_receipt" where
  "paid answer channelId rejected =
     (case answer of
        NoResponse e \<Rightarrow> Inl (Thrown e)
      | Response code header \<Rightarrow>
          if code = 402 then Inl (MppError PaymentRejected rejected) else receiptFor header channelId)"

definition open_answered ::
  "mpp_client_options \<Rightarrow> nat \<Rightarrow> nat \<Rightarrow> string \<Rightarrow> channel_binding \<Rightarrow> paid_answer \<Rightarrow> bytes \<Rightarrow> bytes \<Rightarrow> int \<Rightarrow> mpp_state \<Rightarrow>
   (mpp_error + mpp_receipt) \<times> mpp_state" where
  "open_answered opts t ref kid binding answer slt nonce now_ms s =
     (case andThen (paid answer (bc_channelId binding) ''The server rejected the channel open.'') (\<lambda>receipt.
          andThen (from_core (vk_bindChannel (mc_env opts) (mc_keys opts) kid binding slt nonce now_ms (ms_keys s)))
            (\<lambda>(_, keys). Inr (receipt, keys))) of
        Inl e \<Rightarrow> (Inl e, end_task t False (failed_open kid (bc_channelId binding) True s))
      | Inr (receipt, keys) \<Rightarrow> (Inr receipt, end_task t True (s\<lparr>ms_keys := keys\<rparr>)))"

section \<open>Paying with vouchers\<close>

text \<open>
  The key manager answers a voucher request.  A failure gives the metered units back; a voucher is
  remembered as the last one of the active channel and sent with the next request.  The task ends
  here: what the server answers to the voucher changes nothing.
\<close>

definition voucher_signed ::
  "mpp_client_options \<Rightarrow> nat \<Rightarrow> string \<Rightarrow> string \<Rightarrow> int \<Rightarrow> bool \<Rightarrow> string \<Rightarrow> int \<Rightarrow> mpp_state \<Rightarrow>
   (mpp_error + channel_voucher) \<times> mpp_state" where
  "voucher_signed opts t kid channelId metered from_meter request now_ms s =
     (case vk_signVoucher (mc_env opts) (mc_keys opts) kid channelId metered now_ms (ms_keys s) of
        Inl e \<Rightarrow>
          (Inl (Thrown e),
           end_task t False (if from_meter then s\<lparr>ms_pending := ms_pending s + metered\<rparr> else s))
      | Inr ((v, sig), keys) \<Rightarrow>
          let s1 = s\<lparr>ms_keys := keys\<rparr> in
          (case ms_active s1 of
             None \<Rightarrow> (Inl NoActiveSession, end_task t False s1)
           | Some r \<Rightarrow>
               (Inr v,
                end_task t True
                  (change_obj r (\<lambda>ob. ob\<lparr>so_lastVoucher := Some (signedVoucher (v, sig) (so_keyAddress ob)),
                     so_endpoint := request\<rparr>) s1))))"

section \<open>Closing\<close>

definition begin_close :: "mpp_state \<Rightarrow> mpp_error + mpp_state" where
  "begin_close s =
     (case (ms_active s, active_obj s) of
        (Some r, Some ob) \<Rightarrow>
          (case (so_keyId ob, so_lastVoucher ob) of
             (None, _) \<Rightarrow> Inl (bad_input ''The channel open was not acknowledged; use forceClose for recovery.'')
           | (Some kid, None) \<Rightarrow> Inl (bad_input ''A final voucher is required before close.'')
           | (Some kid, Some v) \<Rightarrow> Inr (add_task (Closing r kid v) s))
      | _ \<Rightarrow> Inl (bad_input ''There is no open channel.''))"

definition binding_of :: "mpp_channel \<Rightarrow> string \<Rightarrow> bool \<Rightarrow> settlement_binding" where
  "binding_of c settled forced =
     \<lparr>sb_cluster = mo_cluster c, sb_channelId = mo_channelId c, sb_channelProgram = mo_channelProgram c,
      sb_expectedSettled = settled, sb_afterForcedClose = forced\<rparr>"

text \<open>A delayed close owns only its original channel, never a replacement.\<close>

definition forget_channel :: "nat \<Rightarrow> mpp_state \<Rightarrow> mpp_state" where
  "forget_channel r s =
     s\<lparr>ms_channels := remove1 r (ms_channels s),
       ms_active := (if ms_active s = Some r then None else ms_active s)\<rparr>"

definition close_answered ::
  "nat \<Rightarrow> nat \<Rightarrow> string \<Rightarrow> wire_voucher \<Rightarrow> paid_answer \<Rightarrow> mpp_state \<Rightarrow>
   (mpp_error + settlement_binding) \<times> mpp_state" where
  "close_answered t r kid v answer s =
     (case map_of (ms_objs s) r of
        None \<Rightarrow> (Inl NoActiveSession, end_task t False s)
      | Some ob \<Rightarrow>
          (case paid answer (mo_channelId (so_channel ob)) ''The server rejected the session credential.'' of
             Inl e \<Rightarrow> (Inl e, end_task t False s)
           | Inr _ \<Rightarrow>
               (case vk_revoke kid (ms_keys s) of
                  Inl e \<Rightarrow> (Inl (Thrown e), end_task t False s)
                | Inr (_, keys) \<Rightarrow>
                    (Inr (binding_of (so_channel ob) (wv_cumulativeAmount v) False),
                     end_task t True (forget_channel r (s\<lparr>ms_keys := keys\<rparr>))))))"

definition begin_force :: "bool \<Rightarrow> mpp_state \<Rightarrow> mpp_error + mpp_state" where
  "begin_force can_send s =
     (case (ms_active s, active_obj s) of
        (Some r, Some ob) \<Rightarrow>
          if \<not> can_send then Inl (bad_input ''forceClose requires app-supplied sendTransaction.'')
          else Inr (add_task (Forcing r (binding_of (so_channel ob)
            (case so_lastVoucher ob of None \<Rightarrow> ''0'' | Some v \<Rightarrow> wv_cumulativeAmount v) True)) s)
      | _ \<Rightarrow> Inl (bad_input ''There is no open channel.''))"

text \<open>The wallet signed exactly the message it was given.\<close>

definition verifyOwnerSignedTransaction ::
  "sol_env \<Rightarrow> bytes \<Rightarrow> bytes \<Rightarrow> string \<Rightarrow> mpp_error + bytes" where
  "verifyOwnerSignedTransaction env unsigned_tx signed_tx owner =
     andThen (from_core (parseSolanaTransaction env unsigned_tx)) (\<lambda>wanted.
     andThen (from_core (parseSolanaTransaction env signed_tx)) (\<lambda>got.
     if t_message wanted \<noteq> t_message got then Inl (bad_input ''The wallet changed the force-close transaction.'')
     else if \<not> verifySolanaSignature env got owner then
       Inl (bad_input ''The wallet did not sign the force-close transaction.'')
     else Inr signed_tx))"

definition channel_call :: "mpp_client_options \<Rightarrow> mpp_channel \<Rightarrow> string \<Rightarrow> channel_tx" where
  "channel_call opts c blockhash =
     \<lparr>ct_programAddress = Some (mo_channelProgram c), ct_feePayer = mc_signer opts, ct_payer = mc_signer opts,
      ct_channelId = mo_channelId c, ct_blockhash = blockhash\<rparr>"

text \<open>\<open>signAndSend\<close>: the transaction that is broadcast, and what the broadcast answers.\<close>

definition sign_and_send ::
  "mpp_client_options \<Rightarrow> (bytes \<Rightarrow> wallet_error + bytes) \<Rightarrow> (bytes \<Rightarrow> wallet_error + string) \<Rightarrow> bytes \<Rightarrow> mpp_error + string" where
  "sign_and_send opts sign send tx =
     andThen (from_core (sign tx)) (\<lambda>signed_tx.
     andThen (verifyOwnerSignedTransaction (mc_env opts) tx signed_tx (mc_signer opts)) (\<lambda>checked.
     from_core (send checked)))"

definition force_answered ::
  "mpp_client_options \<Rightarrow> nat \<Rightarrow> nat \<Rightarrow> settlement_binding \<Rightarrow> wallet_error + string \<Rightarrow> (bytes \<Rightarrow> wallet_error + bytes) \<Rightarrow>
   (bytes \<Rightarrow> wallet_error + string) \<Rightarrow> mpp_state \<Rightarrow> (mpp_error + string \<times> settlement_binding) \<times> mpp_state" where
  "force_answered opts t r sb blockhash sign send s =
     (case map_of (ms_objs s) r of
        None \<Rightarrow> (Inl NoActiveSession, end_task t False s)
      | Some ob \<Rightarrow>
          (case andThen (from_core blockhash) (\<lambda>bh.
              andThen (from_core (buildRequestCloseChannelTransaction (mc_env opts) (channel_call opts (so_channel ob) bh)))
                (sign_and_send opts sign send)) of
             Inl e \<Rightarrow> (Inl e, end_task t False s)
           | Inr tx_hash \<Rightarrow>
               (case (case so_keyId ob of None \<Rightarrow> Inr ((), ms_keys s) | Some kid \<Rightarrow> vk_revoke kid (ms_keys s)) of
                  Inl e \<Rightarrow> (Inl (Thrown e), end_task t False s)
                | Inr (_, keys) \<Rightarrow> (Inr (tx_hash, sb), end_task t True (forget_channel r (s\<lparr>ms_keys := keys\<rparr>))))))"

text \<open>
  The closing state of a channel account: status 1 is open to withdrawal, status 2 carries the time
  at which closure started.
\<close>

definition readClosingChannel :: "(string \<times> bytes) option \<Rightarrow> mpp_error + int option" where
  "readClosingChannel account =
     (case account of None \<Rightarrow> Inl (bad_input ''Channel missing.'')
      | Some (_, data) \<Rightarrow>
          if length data \<le> 3 \<or> (data ! 3 \<noteq> 1 \<and> (data ! 3 \<noteq> 2 \<or> length data < 44)) then
            Inl (bad_input ''Unknown status.'')
          else if data ! 3 = 1 then Inr None
          else Inr (Some (let n = int (le_value (take 8 (drop 36 data))) in if n < 2 ^ 63 then n else n - 2 ^ 64)))"

text \<open>
  \<open>withdrawPayer\<close>: the transactions it has signed and broadcast, in order.  Each \<open>getLatestBlockhash\<close>
  has its own answer.
\<close>

definition withdrawPayer ::
  "mpp_client_options \<Rightarrow> mpp_channel \<Rightarrow> channel_mint \<Rightarrow> (string \<times> bytes) option \<Rightarrow> int \<Rightarrow> string \<Rightarrow> string \<Rightarrow>
   (bytes \<Rightarrow> wallet_error + bytes) \<Rightarrow> (bytes \<Rightarrow> wallet_error + string) \<Rightarrow> mpp_error + string list" where
  "withdrawPayer opts c mintAcc account now_ms blockhash1 blockhash2 sign send =
     andThen (readClosingChannel account) (\<lambda>started.
     andThen
       (case started of None \<Rightarrow> Inr []
        | Some at \<Rightarrow>
            if now_ms div 1000 < at + mo_gracePeriod c then
              Inl (bad_input (''grace period has not elapsed; retry after '' @ show_int (at + mo_gracePeriod c)))
            else
              andThen (from_core (buildSealChannelTransaction (mc_env opts) (channel_call opts c blockhash1))) (\<lambda>tx.
              andThen (sign_and_send opts sign send tx) (\<lambda>h. Inr [h])))
       (\<lambda>sealed.
     andThen (from_core (buildWithdrawPayerChannelTransaction (mc_env opts) (channel_call opts c blockhash2) mintAcc)) (\<lambda>tx.
     andThen (sign_and_send opts sign send tx) (\<lambda>h. Inr (sealed @ [h])))))"

section \<open>Steps\<close>

text \<open>
  What can happen next: a call of the application, or the answer a task waits for.  \<open>w_reported\<close> adds up
  the units the meter accepted, \<open>w_signed\<close> lists the vouchers that were signed: key, units, whether the
  units came from the meter, and the voucher.  The identifier of a new key, a random UUID, is not one
  of a stored key.
\<close>

record mpp_world =
  w_state :: mpp_state
  w_reported :: int
  w_signed :: "(string \<times> int \<times> bool \<times> channel_voucher) list"

inductive mpp_step :: "mpp_client_options \<Rightarrow> mpp_world \<Rightarrow> mpp_world \<Rightarrow> bool" for opts where
  meter: "meter_add units (w_state w) = Inr s \<Longrightarrow>
    mpp_step opts w (w\<lparr>w_state := s, w_reported := w_reported w + units\<rparr>)"
| fetch: "session_fetch request units (w_state w) = Inr s \<Longrightarrow> mpp_step opts w (w\<lparr>w_state := s\<rparr>)"
| resume: "resume_waiting t (w_state w) = Inr s \<Longrightarrow> mpp_step opts w (w\<lparr>w_state := s\<rparr>)"
| free: "map_of (ms_tasks (w_state w)) t = Some (FirstRequest request) \<Longrightarrow>
    mpp_step opts w (w\<lparr>w_state := end_task t True (w_state w)\<rparr>)"
| refused: "map_of (ms_tasks (w_state w)) t = Some (FirstRequest request) \<Longrightarrow>
    mpp_step opts w (w\<lparr>w_state := end_task t False (w_state w)\<rparr>)"
| opens: "map_of (ms_tasks (w_state w)) t = Some (FirstRequest request) \<Longrightarrow>
    find_rec vk_id (ve_id (ow_entropy ow)) (table (ms_keys (w_state w))) = None \<Longrightarrow>
    open_session opts t request c ow (w_state w) = (r, s) \<Longrightarrow> mpp_step opts w (w\<lparr>w_state := s\<rparr>)"
| opened: "map_of (ms_tasks (w_state w)) t = Some (OpenSent ref kid binding) \<Longrightarrow>
    open_answered opts t ref kid binding answer slt nonce now_ms (w_state w) = (r, s) \<Longrightarrow>
    mpp_step opts w (w\<lparr>w_state := s\<rparr>)"
| voucher: "map_of (ms_tasks (w_state w)) t = Some (Signing kid channelId units metered request) \<Longrightarrow>
    voucher_signed opts t kid channelId units metered request now_ms (w_state w) = (r, s) \<Longrightarrow>
    mpp_step opts w (w\<lparr>w_state := s, w_signed := w_signed w @
      (case vk_signVoucher (mc_env opts) (mc_keys opts) kid channelId units now_ms (ms_keys (w_state w)) of
         Inl _ \<Rightarrow> [] | Inr ((v, _), _) \<Rightarrow> [(kid, units, metered, v)])\<rparr>)"
| close: "begin_close (w_state w) = Inr s \<Longrightarrow> mpp_step opts w (w\<lparr>w_state := s\<rparr>)"
| closed: "map_of (ms_tasks (w_state w)) t = Some (Closing ref kid v) \<Longrightarrow>
    close_answered t ref kid v answer (w_state w) = (r, s) \<Longrightarrow> mpp_step opts w (w\<lparr>w_state := s\<rparr>)"
| force: "begin_force can_send (w_state w) = Inr s \<Longrightarrow> mpp_step opts w (w\<lparr>w_state := s\<rparr>)"
| forced: "map_of (ms_tasks (w_state w)) t = Some (Forcing ref sb) \<Longrightarrow>
    force_answered opts t ref sb blockhash sign send (w_state w) = (r, s) \<Longrightarrow> mpp_step opts w (w\<lparr>w_state := s\<rparr>)"

inductive_cases mpp_stepE: "mpp_step opts w w'"

end
