(* ===== verification/ChannelChecks.thy ===== *)
theory ChannelChecks
  imports SolanaChannel SolanaChecks
begin

text \<open>
  The check of a wallet-signed channel opening: what an accepted wire contains, and that the opening
  built here and signed by its payer is accepted.
\<close>

section \<open>What the check establishes\<close>

lemma verifySignedChannelOpen_Inr:
  assumes "verifySignedChannelOpen env wire i = Inr tx"
  shows "\<exists>built wanted got. buildOpenChannelTransaction env i = Inr built \<and> parseSolanaTransaction env built = Inr wanted \<and>
    parseSolanaTransaction env wire = Inr got \<and> tx = s64_encode env wire \<and>
    t_keys got \<noteq> [] \<and> hd (t_keys got) = ci_feePayer i \<and> t_blockhash got = ci_blockhash i \<and>
    same_instruction (hd (t_instructions got)) (hd (t_instructions wanted)) \<and>
    (\<forall>ix \<in> set (drop 1 (t_instructions got)). pi_program ix = lighthouse_program) \<and>
    (\<forall>a \<in> set (t_keys wanted). isSigner got a = isSigner wanted a \<and> isWritable got a = isWritable wanted a) \<and>
    verifySolanaSignature env got (ci_payer i)"
proof -
  obtain built wanted got where p: "buildOpenChannelTransaction env i = Inr built" "parseSolanaTransaction env built = Inr wanted"
    "parseSolanaTransaction env wire = Inr got" using assms by (auto simp: verifySignedChannelOpen_def)
  then show ?thesis using assms
    by (auto simp: verifySignedChannelOpen_def find_None_iff split: option.split_asm)
qed

text \<open>The one instruction of an opening.\<close>

lemma buildOpen_Inr:
  assumes "buildOpenChannelTransaction env i = Inr wire"
  shows "\<exists>ix. compileV0 env (ci_feePayer i) [ix] (ci_blockhash i) = Inr wire \<and>
    (\<forall>m \<in> set (wi_accounts ix). m_signer m \<longrightarrow> m_address m \<in> {ci_payer i, ci_feePayer i}) \<and>
    (\<exists>m \<in> set (wi_accounts ix). m_signer m \<and> m_address m = ci_payer i) \<and>
    (\<exists>b. key_bytes env (ci_payer i) ''payer'' = Inr b)"
proof -
  obtain program prog channelId bump ea eb pta cta data b where
    c: "compileV0 env (ci_feePayer i)
          [\<lparr>wi_program = program,
            wi_accounts =
              [acc (ci_payer i) True True, acc (ci_feePayer i) True True, acc (ci_payee i) False False,
               acc (ci_mint i) False False, acc (ci_authorizedSigner i) False False, acc channelId False True,
               acc pta False True, acc cta False True, acc prog False False,
               acc system_program False False, acc rent_account False False,
               acc associated_token_program False False, acc ea False False, acc program False False],
            wi_data = data\<rparr>]
          (ci_blockhash i) = Inr wire"
    and k: "key_bytes env (ci_payer i) ''payer'' = Inr b"
    using assms by (auto simp: buildOpenChannelTransaction_def deriveChannelPda_def split: if_split_asm)
  show ?thesis by (rule exI, intro conjI, rule c) (use k in \<open>auto simp: acc_def\<close>)
qed

text \<open>Where the payer's signature goes.\<close>

lemma index_of_signer: "isSigner t a \<Longrightarrow> \<exists>slot < t_required t. index_of (t_keys t) a = Some slot"
  by (auto simp: isSigner_def split: option.splits)

lemma permissions_signed:
  "isSigner (t\<lparr>t_signatures := sigs\<rparr>) a = isSigner t a" "isWritable (t\<lparr>t_signatures := sigs\<rparr>) a = isWritable t a"
  by (cases "index_of (t_keys t) a"; simp add: isSigner_def isWritable_def)+

lemma open_sign_then_verify:
  assumes laws: "base58_laws env" "ed_laws env"
    and b: "buildOpenChannelTransaction env i = Inr wire" and len: "length wire \<le> transaction_limit"
    and own: "ci_payer i = s58_encode env (ed_public env secret)"
  shows "\<exists>t slot. parseSolanaTransaction env wire = Inr t \<and> index_of (t_keys t) (ci_payer i) = Some slot \<and>
    verifySignedChannelOpen env (set_at (1 + 64 * slot) (ed_sign env (t_message t) secret) wire) i =
      Inr (s64_encode env (set_at (1 + 64 * slot) (ed_sign env (t_message t) secret) wire))"
proof -
  obtain ix k where c: "compileV0 env (ci_feePayer i) [ix] (ci_blockhash i) = Inr wire"
    and payer: "\<exists>m \<in> set (wi_accounts ix). m_signer m \<and> m_address m = ci_payer i"
    and k: "key_bytes env (ci_payer i) ''payer'' = Inr k"
    using buildOpen_Inr [OF b] by blast
  obtain t where t: "parseSolanaTransaction env wire = Inr t"
    "wire = shortVec (t_required t) @ replicate (64 * t_required t) 0 @ t_message t"
    "t_keys t \<noteq> []" "hd (t_keys t) = ci_feePayer i" "t_blockhash t = ci_blockhash i"
    and one': "t_instructions t = [\<lparr>pi_program = wi_program ix, pi_accounts = map m_address (wi_accounts ix), pi_data = wi_data ix\<rparr>]"
    and signers: "isSigner t a = requested_signer (ci_feePayer i) [ix] a"
    and sgn: "length sigs = t_required t \<Longrightarrow> \<forall>s \<in> set sigs. length s = 64 \<Longrightarrow>
      parseSolanaTransaction env (shortVec (t_required t) @ concat sigs @ t_message t) = Inr (t\<lparr>t_signatures := sigs\<rparr>)" for a sigs
    using compileV0_signed [OF laws(1) c len] by (auto simp only: list.map)
  have "isSigner t (ci_payer i)" using signers payer by (auto simp: requested_signer_def)
  then obtain slot where slot: "slot < t_required t" "index_of (t_keys t) (ci_payer i) = Some slot"
    using index_of_signer by blast
  let ?sig = "ed_sign env (t_message t) secret"
  let ?sigs = "replicate slot (replicate 64 0) @ [?sig] @ replicate (t_required t - Suc slot) (replicate 64 0)"
  have l: "length ?sig = 64" using laws(2) by (simp add: ed_laws_def)
  have n: "t_required t < 128" using len t(2) by (auto simp: transaction_limit_def dest: arg_cong [of _ _ length])
  have r: "replicate (64 * t_required t) (0 :: byte) =
      replicate (64 * slot) 0 @ replicate 64 0 @ replicate (64 * (t_required t - Suc slot)) 0"
    using slot(1) by (simp flip: replicate_add)
  have w: "set_at (1 + 64 * slot) ?sig wire = shortVec (t_required t) @ concat ?sigs @ t_message t"
    unfolding set_at_def
    by (subst (1 2) t(2)) (simp add: r l n shortVec_cases concat_replicate_zeros drop_Cons')
  have p: "parseSolanaTransaction env (set_at (1 + 64 * slot) ?sig wire) = Inr (t\<lparr>t_signatures := ?sigs\<rparr>)"
    unfolding w using slot(1) l by (intro sgn) auto
  have "key_bytes env (ci_payer i) ''signer'' = Inr (ed_public env secret)"
    using laws(1) own k by (auto simp: key_bytes_Inr base58_laws_def)
  then have v: "verifySolanaSignature env (t\<lparr>t_signatures := ?sigs\<rparr>) (ci_payer i)"
    using slot laws(2) by (simp add: verifySolanaSignature_def nth_append ed_laws_def)
  obtain pix where one: "t_instructions t = [pix]" using one' by blast
  have "verifySignedChannelOpen env (set_at (1 + 64 * slot) ?sig wire) i =
      Inr (s64_encode env (set_at (1 + 64 * slot) ?sig wire))"
    using b t(1,3,4,5) one p v
    by (simp add: verifySignedChannelOpen_def permissions_signed throw_if_def max_open_instructions_def)
  then show ?thesis using t(1) slot(2) by blast
qed

section \<open>A concrete opening\<close>

definition demo_open :: open_channel where
  "demo_open =
     \<lparr>ci_programAddress = Some (sol_addr CHR ''c''), ci_payer = sol_addr CHR ''p'', ci_payee = sol_addr CHR ''q'',
      ci_mint = sol_addr CHR ''m'', ci_authorizedSigner = sol_addr CHR ''k'', ci_salt = 9, ci_openSlot = 7,
      ci_feePayer = sol_addr CHR ''p'',
      ci_mintAccount = \<lparr>cm_address = sol_addr CHR ''m'', cm_owner = token_program,
        cm_data = replicate 44 0 @ [6, 1] @ replicate 36 0\<rparr>,
      ci_deposit = 800, ci_gracePeriod = 1000, ci_blockhash = sol_addr CHR ''h''\<rparr>"

text \<open>The derived addresses of the opening, each evaluated on its own.\<close>

definition open_id :: string where
  "open_id = (case deriveChannelPda toy_sol demo_open of Inl _ \<Rightarrow> [] | Inr (x, _) \<Rightarrow> x)"

definition open_event :: string where
  "open_event = (case derivePda toy_sol event_authority_seed (sol_addr CHR ''c'') of Inl _ \<Rightarrow> [] | Inr (x, _) \<Rightarrow> x)"

definition open_account :: "string \<Rightarrow> string" where
  "open_account owner = (case associatedTokenAddress toy_sol owner (sol_addr CHR ''m'') token_program of
     Inl _ \<Rightarrow> [] | Inr x \<Rightarrow> x)"

lemma open_parts:
  "\<exists>bump. deriveChannelPda toy_sol demo_open = Inr (open_id, bump)"
  "\<exists>bump. derivePda toy_sol event_authority_seed (sol_addr CHR ''c'') = Inr (open_event, bump)"
  "associatedTokenAddress toy_sol (sol_addr CHR ''p'') (sol_addr CHR ''m'') token_program = Inr (open_account (sol_addr CHR ''p''))"
  "associatedTokenAddress toy_sol open_id (sol_addr CHR ''m'') token_program = Inr (open_account open_id)"
proof -
  have "case deriveChannelPda toy_sol demo_open of Inl _ \<Rightarrow> False | Inr _ \<Rightarrow> True"
    "case derivePda toy_sol event_authority_seed (sol_addr CHR ''c'') of Inl _ \<Rightarrow> False | Inr _ \<Rightarrow> True"
    "case associatedTokenAddress toy_sol (sol_addr CHR ''p'') (sol_addr CHR ''m'') token_program of Inl _ \<Rightarrow> False | Inr _ \<Rightarrow> True"
    "case associatedTokenAddress toy_sol open_id (sol_addr CHR ''m'') token_program of Inl _ \<Rightarrow> False | Inr _ \<Rightarrow> True"
    by code_simp+
  then show "\<exists>bump. deriveChannelPda toy_sol demo_open = Inr (open_id, bump)"
    "\<exists>bump. derivePda toy_sol event_authority_seed (sol_addr CHR ''c'') = Inr (open_event, bump)"
    "associatedTokenAddress toy_sol (sol_addr CHR ''p'') (sol_addr CHR ''m'') token_program = Inr (open_account (sol_addr CHR ''p''))"
    "associatedTokenAddress toy_sol open_id (sol_addr CHR ''m'') token_program = Inr (open_account open_id)"
    unfolding open_id_def open_event_def open_account_def by (auto split: sum.splits)
qed

definition open_instruction :: wire_instruction where
  "open_instruction =
     \<lparr>wi_program = sol_addr CHR ''c'',
      wi_accounts =
        [acc (sol_addr CHR ''p'') True True, acc (sol_addr CHR ''p'') True True, acc (sol_addr CHR ''q'') False False,
         acc (sol_addr CHR ''m'') False False, acc (sol_addr CHR ''k'') False False, acc open_id False True,
         acc (open_account (sol_addr CHR ''p'')) False True, acc (open_account open_id) False True,
         acc token_program False False, acc system_program False False, acc rent_account False False,
         acc associated_token_program False False, acc open_event False False, acc (sol_addr CHR ''c'') False False],
      wi_data = [1] @ le_u64 9 @ le_u64 800 @ le_u32 1000 @ le_u64 7 @ le_u32 0\<rparr>"

lemma demo_open_compiles:
  "case compileV0 toy_sol (sol_addr CHR ''p'') [open_instruction] (sol_addr CHR ''h'') of
     Inl _ \<Rightarrow> False | Inr w \<Rightarrow> length w \<le> transaction_limit"
  by code_simp

lemma demo_open_builds:
  "\<exists>w. buildOpenChannelTransaction toy_sol demo_open = Inr w \<and> length w \<le> transaction_limit"
proof -
  obtain w where w: "compileV0 toy_sol (sol_addr CHR ''p'') [open_instruction] (sol_addr CHR ''h'') = Inr w"
    "length w \<le> transaction_limit" using demo_open_compiles by (auto split: sum.splits)
  have m: "mintDetails toy_sol (ci_mintAccount demo_open) = Inr token_program"
    "programAddress toy_sol (Some (sol_addr CHR ''c'')) = Inr (sol_addr CHR ''c'')" by code_simp+
  have "demo_open\<lparr>ci_programAddress := Some (sol_addr CHR ''c'')\<rparr> = demo_open" by (simp add: demo_open_def)
  then have "buildOpenChannelTransaction toy_sol demo_open = Inr w"
    using open_parts m w(1)
    by (auto simp: buildOpenChannelTransaction_def demo_open_def channel_u32_def channel_u64_def open_data_def
        u64_max_def open_instruction_def)
  then show ?thesis using w(2) by blast
qed

section \<open>Properties\<close>

text \<open>
  A channel opening built here and signed by its payer is accepted: the wire
  \<open>buildOpenChannelTransaction\<close> returns parses, the payer has a signature slot in it, and with the
  payer's signature over the parsed message written into that slot \<open>verifySignedChannelOpen\<close> accepts
  the wire for the same input, whoever pays the fees; so no honest wallet's answer is refused.
\<close>

lemma built_open_verifies:
  assumes "base58_laws env" "ed_laws env"
    and "buildOpenChannelTransaction env i = Inr wire" "length wire \<le> transaction_limit"
    and "ci_payer i = s58_encode env (ed_public env secret)"
  shows "\<exists>t slot. parseSolanaTransaction env wire = Inr t \<and> index_of (t_keys t) (ci_payer i) = Some slot \<and>
    verifySignedChannelOpen env (set_at (1 + 64 * slot) (ed_sign env (t_message t) secret) wire) i =
      Inr (s64_encode env (set_at (1 + 64 * slot) (ed_sign env (t_message t) secret) wire))"
  by (rule open_sign_then_verify [OF assms])

lemma built_open_verifies_witness:
  "\<exists>wire t slot. parseSolanaTransaction toy_sol wire = Inr t \<and> index_of (t_keys t) (sol_addr CHR ''p'') = Some slot \<and>
     (\<exists>tx. verifySignedChannelOpen toy_sol
        (set_at (1 + 64 * slot) (ed_sign toy_sol (t_message t) (utf8 (sol_addr CHR ''p''))) wire) demo_open = Inr tx)"
proof -
  obtain w where w: "buildOpenChannelTransaction toy_sol demo_open = Inr w" "length w \<le> transaction_limit"
    using demo_open_builds by blast
  have p: "ci_payer demo_open = s58_encode toy_sol (ed_public toy_sol (utf8 (sol_addr CHR ''p'')))" by code_simp
  have "ci_payer demo_open = sol_addr CHR ''p''" by (simp add: demo_open_def)
  with built_open_verifies [OF toy_sol_laws toy_ed_laws w p] show ?thesis by (metis (no_types, lifting))
qed

end
