(* ===== verification/MppDemo.thy ===== *)
theory MppDemo
  imports MppSession VoucherSafety ChannelChecks
begin

text \<open>
  A concrete session for evaluating the model: a policy, a challenge that fits it, an RPC that serves
  the pinned program and the mint, and a wallet that signs what it is given.
\<close>

definition demo_mpp_policy :: mpp_policy where
  "demo_mpp_policy =
     \<lparr>mp_recipient = sol_addr CHR ''q'', mp_mint = sol_addr CHR ''m'', mp_amount = 10, mp_deposit = 800,
      mp_maxCumulative = 1000, mp_maxDelta = 300, mp_expiresAt = 5000, mp_minimumGrace = Some 1000\<rparr>"

definition demo_pin :: trusted_program where
  "demo_pin = \<lparr>tp_address = sol_addr CHR ''c'', tp_programData = sol_addr CHR ''d'', tp_lastDeployedSlot = 7,
     tp_upgradeAuthority = sol_addr CHR ''u''\<rparr>"

definition demo_mpp_opts :: mpp_client_options where
  "demo_mpp_opts = \<lparr>mc_env = toy_sol, mc_keys = demo_vk_cfg\<lparr>vc_overrides := [(solana_devnet, sol_addr CHR ''c'')]\<rparr>, mc_policy = demo_mpp_policy,
     mc_signer = sol_addr CHR ''p'', mc_trust = Some demo_pin\<rparr>"

definition demo_mpp_details :: props where
  "demo_mpp_details =
     [(''network'', JStr ''devnet''), (''decimals'', JInt 6), (''gracePeriodSeconds'', JInt 1000),
      (''channelProgram'', JStr (sol_addr CHR ''c'')), (''recentBlockhash'', JStr (sol_addr CHR ''h'')),
      (''recentSlot'', JStr ''7'')]"

definition demo_mpp_challenge :: mpp_challenge where
  "demo_mpp_challenge =
     \<lparr>ch_method = ''solana'', ch_intent = ''session'',
      ch_request = [(''amount'', JStr ''10''), (''currency'', JStr (sol_addr CHR ''m'')),
        (''recipient'', JStr (sol_addr CHR ''q'')), (''minimumDeposit'', JStr ''500''),
        (''methodDetails'', JObj demo_mpp_details)],
      ch_expiresAt = Some 3000000\<rparr>"

definition demo_accounts :: "string \<Rightarrow> (string \<times> bytes) option" where
  "demo_accounts a =
     (if a = sol_addr CHR ''c'' then
        Some (bpf_upgradeable_loader, [2, 0, 0, 0] @ utf8 (sol_addr CHR ''d''))
      else if a = sol_addr CHR ''d'' then
        Some (bpf_upgradeable_loader, [3, 0, 0, 0, 7, 0, 0, 0, 0, 0, 0, 0, 1] @ utf8 (sol_addr CHR ''u''))
      else if a = sol_addr CHR ''m'' then
        Some (token_program, replicate 44 0 @ [6, 1] @ replicate 36 0)
      else None)"

definition demo_mpp_rpc :: mpp_rpc where
  "demo_mpp_rpc = \<lparr>mr_rpc = \<lparr>getGenesisHash = Inr (drop 7 solana_devnet @ ''GENESIS''),
     getLatestBlockhash = Inr (sol_addr CHR ''h''), getAccountInfo = (\<lambda>a. Inr (demo_accounts a))\<rparr>, mr_blockhashValid = (\<lambda>h. Inr True)\<rparr>"

text \<open>The wallet writes its signature into its slot of the wire.\<close>

definition demo_wallet :: "bytes \<Rightarrow> wallet_error + bytes" where
  "demo_wallet tx =
     andThen (parseSolanaTransaction toy_sol tx) (\<lambda>t.
     case index_of (t_keys t) (sol_addr CHR ''p'') of
       None \<Rightarrow> Inl (fail ''No slot.'')
     | Some slot \<Rightarrow> Inr (set_at (1 + 64 * slot) (ed_sign toy_sol (t_message t) (utf8 (sol_addr CHR ''p''))) tx))"

definition demo_opening :: opening_world where
  "demo_opening = \<lparr>ow_rpc = demo_mpp_rpc, ow_challenge_ms = 2000000, ow_expiry_ms = 2000000,
     ow_entropy = \<lparr>ve_secret = demo_vk_secret, ve_salt = [1], ve_nonce = [2], ve_id = ''id1'', ve_checked = 2000000,
       ve_created = 2000, ve_listed = 2000000\<rparr>, ow_salt = 9, ow_sign = demo_wallet\<rparr>"

definition demo_request :: session_request where
  "demo_request = \<lparr>sr_amount = 10, sr_currency = sol_addr CHR ''m'', sr_recipient = sol_addr CHR ''q'',
     sr_cluster = solana_devnet, sr_channelProgram = sol_addr CHR ''c'', sr_recentBlockhash = sol_addr CHR ''h'',
     sr_recentSlot = 7, sr_decimals = 6, sr_tokenProgram = None, sr_feePayerKey = None, sr_gracePeriod = 1000,
     sr_minimumDeposit = 500\<rparr>"

definition demo_mint_account :: channel_mint where
  "demo_mint_account = \<lparr>cm_address = sol_addr CHR ''m'', cm_owner = token_program,
     cm_data = replicate 44 0 @ [6, 1] @ replicate 36 0\<rparr>"

lemma demo_terms:
  "session_terms demo_mpp_opts demo_mpp_challenge (ow_rpc demo_opening) 2000000 2000000 =
     Inr (demo_request, sol_addr CHR ''c'', demo_mint_account)"
  by code_simp

lemma demo_policy_ok:
  "policy_refusal (mc_keys demo_mpp_opts) (session_voucher_policy demo_mpp_opts demo_request (sol_addr CHR ''c'')) 2000000 = None"
  by code_simp

lemma demo_open_eq:
  "open_input demo_mpp_opts demo_request (sol_addr CHR ''c'') demo_mint_account (sol_addr CHR ''k'') 9 = demo_open"
  by (simp add: open_input_def demo_mpp_opts_def demo_request_def demo_mint_account_def demo_mpp_policy_def demo_open_def)

lemma demo_open_signed:
  "\<exists>built signed' tx. buildOpenChannelTransaction toy_sol demo_open = Inr built \<and> demo_wallet built = Inr signed' \<and>
     verifySignedChannelOpen toy_sol signed' demo_open = Inr tx"
proof -
  obtain w where w: "buildOpenChannelTransaction toy_sol demo_open = Inr w" "length w \<le> transaction_limit"
    using demo_open_builds by blast
  have p: "ci_payer demo_open = s58_encode toy_sol (ed_public toy_sol (utf8 (sol_addr CHR ''p'')))" by code_simp
  have "ci_payer demo_open = sol_addr CHR ''p''" by (simp add: demo_open_def)
  with open_sign_then_verify [OF toy_sol_laws toy_ed_laws w p] w(1) show ?thesis
    by (fastforce simp: demo_wallet_def)
qed

definition demo_created :: voucher_info where
  "demo_created = \<lparr>vk_id = ''id1'', vk_address = sol_addr CHR ''k'',
     vk_policy = session_voucher_policy demo_mpp_opts demo_request (sol_addr CHR ''c''), vk_status = VkActive,
     vk_channel = None, vk_lastCumulative = 0, vk_createdAt = 2000\<rparr>"

abbreviation no_keys :: "voucher_key adapter" where
  "no_keys \<equiv> \<lparr>raw = NoRaw, accepts = True\<rparr>"

lemma demo_creates:
  "\<exists>k. vk_create toy_sol (mc_keys demo_mpp_opts) (session_voucher_policy demo_mpp_opts demo_request (sol_addr CHR ''c''))
     (ow_entropy demo_opening) no_keys = Inr (demo_created, \<lparr>raw = Saved [k], accepts = True\<rparr>)"
proof -
  let ?p = "session_voucher_policy demo_mpp_opts demo_request (sol_addr CHR ''c'')"
  obtain kp where kp: "vk_seal toy_sol (mc_keys demo_mpp_opts) demo_vk_secret [1] [2]
      (voucher_facts record_kind ''id1'' (sol_addr CHR ''k'') ?p None) = Inr kp"
    using seals [of "s_crypto toy_sol" demo_vk_secret "''pw''" "[1]" "[2]" _ False]
    by (auto simp: vk_seal_def demo_vk_cfg_def demo_mpp_opts_def)
  have k: "s58_encode toy_sol (ed_public toy_sol demo_vk_secret) = sol_addr CHR ''k''" by code_simp
  have e: "vp_expiry ?p = 5000" by (simp add: session_voucher_policy_def Let_def demo_mpp_opts_def demo_mpp_policy_def)
  show ?thesis using kp k e demo_policy_ok
    by (simp add: vk_create_def Let_def demo_opening_def rec_push_def rec_loadAll_def rec_saveAll_def vk_key_info_def
        voucher_info.defs demo_created_def)
qed

text \<open>The opening succeeds from a session that waits for its first answer.\<close>

definition demo_waiting :: mpp_state where
  "demo_waiting = (initial_mpp no_keys)\<lparr>ms_tasks := [(0, FirstRequest ''GET /'')], ms_next := 1, ms_opening := Some 0\<rparr>"

lemma demo_opens: "\<exists>tx s. open_session demo_mpp_opts 0 ''GET /'' demo_mpp_challenge demo_opening demo_waiting = (Inr tx, s)"
proof -
  obtain k where k: "vk_create toy_sol (mc_keys demo_mpp_opts)
      (session_voucher_policy demo_mpp_opts demo_request (sol_addr CHR ''c'')) (ow_entropy demo_opening) no_keys =
      Inr (demo_created, \<lparr>raw = Saved [k], accepts = True\<rparr>)" using demo_creates by blast
  obtain built signed' tx where b: "buildOpenChannelTransaction toy_sol demo_open = Inr built"
    "demo_wallet built = Inr signed'" "verifySignedChannelOpen toy_sol signed' demo_open = Inr tx"
    using demo_open_signed by blast
  obtain bump where d: "deriveChannelPda toy_sol demo_open = Inr (open_id, bump)" using open_parts(1) by blast
  have o1: "ow_challenge_ms demo_opening = 2000000" "ow_expiry_ms demo_opening = 2000000" "ow_salt demo_opening = 9"
    "ow_sign demo_opening = demo_wallet" "mc_env demo_mpp_opts = toy_sol" "ms_keys demo_waiting = no_keys"
    "vk_address demo_created = sol_addr CHR ''k''"
    by (simp_all add: demo_opening_def demo_mpp_opts_def demo_waiting_def initial_mpp_def demo_created_def)
  show ?thesis
    using k b d unfolding open_session_def o1 demo_terms by (simp add: Let_def o1 demo_open_eq)
qed

end
