(* ===== verification/MppSafety.thy ===== *)
theory MppSafety
  imports MppDemo
begin

text \<open>
  What an MPP session client can spend: the units its meter accepted are pending, in flight or paid
  for, once each; the vouchers of a key add up to the price of the units signed under it, within the
  policy and the deposit; an opening transaction is handed out only for a challenge within the policy.
\<close>

section \<open>Tasks\<close>

lemma sum_filter_key:
  assumes "distinct (map fst xs)" "map_of xs t = Some k"
  shows "(\<Sum>x \<leftarrow> filter (\<lambda>(t', _). t' \<noteq> t) xs. f (snd x)) = (\<Sum>x \<leftarrow> xs. f (snd x)) - (f k :: int)"
  using assms
proof (induction xs)
  case (Cons x xs)
  have "filter (\<lambda>(t', _). t' \<noteq> fst x) xs = xs" using Cons.prems(1) by (auto simp: filter_id_conv image_iff)
  then show ?case using Cons by (auto split: if_splits)
qed simp

lemma sum_change_key:
  assumes "distinct (map fst xs)" "map_of xs t = Some k"
  shows "(\<Sum>x \<leftarrow> xs. f (if fst x = t then k1 else snd x)) = (\<Sum>x \<leftarrow> xs. f (snd x)) - (f k :: int) + f k1"
  using assms
proof (induction xs)
  case (Cons x xs)
  have "(\<Sum>y \<leftarrow> xs. f (if fst y = fst x then k1 else snd y)) = (\<Sum>y \<leftarrow> xs. f (snd y))"
    using Cons.prems(1) by (intro arg_cong [of _ _ sum_list] map_cong) (auto simp: image_iff)
  then show ?case using Cons by (auto split: if_splits)
qed simp

text \<open>Identifiers of waiting calls are distinct and were handed out by the counter.\<close>

definition tasks_ok :: "mpp_state \<Rightarrow> bool" where
  "tasks_ok s \<longleftrightarrow> distinct (map fst (ms_tasks s)) \<and> (\<forall>t \<in> fst ` set (ms_tasks s). t < ms_next s)"

text \<open>The metered units a waiting call has taken from the meter.\<close>

fun held :: "task \<Rightarrow> int" where
  "held (Signing kid channelId units metered request) = (if metered then units else 0)"
| "held _ = 0"

definition in_flight :: "mpp_state \<Rightarrow> int" where
  "in_flight s = (\<Sum>x \<leftarrow> ms_tasks s. held (snd x))"

definition task_of :: "nat \<Rightarrow> mpp_state \<Rightarrow> task option" where
  "task_of t s = map_of (ms_tasks s) t"

named_theorems task_simps \<open>what the operations on waiting calls do\<close>

lemma add_task_simps [task_simps]:
  "in_flight (add_task k s) = in_flight s + held k"
  "tasks_ok s \<Longrightarrow> tasks_ok (add_task k s)"
  "ms_pending (add_task k s) = ms_pending s" "ms_keys (add_task k s) = ms_keys s"
  "ms_objs (add_task k s) = ms_objs s" "ms_active (add_task k s) = ms_active s"
  "ms_channels (add_task k s) = ms_channels s" "ms_tasks (add_task k s) = (ms_next s, k) # ms_tasks s"
  by (auto simp: add_task_def in_flight_def tasks_ok_def)

lemma end_task_simps [task_simps]:
  "tasks_ok s \<Longrightarrow> map_of (ms_tasks s) t = Some k \<Longrightarrow> in_flight (end_task t done' s) = in_flight s - held k"
  "tasks_ok s \<Longrightarrow> tasks_ok (end_task t done' s)"
  "ms_pending (end_task t done' s) = ms_pending s" "ms_keys (end_task t done' s) = ms_keys s"
  "ms_objs (end_task t done' s) = ms_objs s" "ms_active (end_task t done' s) = ms_active s"
  "ms_channels (end_task t done' s) = ms_channels s" "ms_next (end_task t done' s) = ms_next s"
  by (auto simp: end_task_def in_flight_def tasks_ok_def sum_filter_key distinct_map_filter)

lemma next_task_simps [task_simps]:
  "tasks_ok s \<Longrightarrow> map_of (ms_tasks s) t = Some k \<Longrightarrow>
     in_flight (next_task t k' s) = in_flight s - held k + held k'"
  "tasks_ok s \<Longrightarrow> tasks_ok (next_task t k' s)"
  "ms_pending (next_task t k' s) = ms_pending s" "ms_keys (next_task t k' s) = ms_keys s"
  "ms_objs (next_task t k' s) = ms_objs s" "ms_active (next_task t k' s) = ms_active s"
  "ms_channels (next_task t k' s) = ms_channels s" "ms_next (next_task t k' s) = ms_next s"
  by (simp_all add: next_task_def in_flight_def tasks_ok_def sum_change_key comp_def case_prod_beta image_image)

lemma end_task_subset: "set (ms_tasks (end_task t done' s)) \<subseteq> set (ms_tasks s)"
  by (auto simp: end_task_def)

lemma next_task_subset: "set (ms_tasks (next_task t k s)) \<subseteq> insert (t, k) (set (ms_tasks s))"
  by (auto simp: next_task_def split: if_splits)

section \<open>What an operation leaves alone\<close>

lemma perform_fetch_Inr:
  assumes "perform_fetch request units s = Inr (k, s')"
  shows "s' = s\<lparr>ms_pending := ms_pending s - held k\<rparr> \<and> 0 \<le> held k \<and> held k \<le> max 0 (ms_pending s) \<and>
    (case k of
       Signing kid channelId n metered r \<Rightarrow> 0 < n \<and> (\<exists>ob. active_obj s = Some ob \<and> so_keyId ob = Some kid \<and>
         mo_channelId (so_channel ob) = channelId)
     | FirstRequest r \<Rightarrow> ms_active s = None \<or> active_obj s = None
     | _ \<Rightarrow> False)"
  using assms
  by (auto simp: perform_fetch_def Let_def split: if_splits option.splits)

text \<open>The part of the state an opening or a closing may change besides the waiting calls.\<close>

lemma failed_open_simps [task_simps]:
  "ms_tasks (failed_open kid cid handed s) = ms_tasks s" "ms_pending (failed_open kid cid handed s) = ms_pending s"
  "ms_next (failed_open kid cid handed s) = ms_next s"
  "ms_keys (failed_open kid cid handed s) = revoke_quietly kid (ms_keys s)"
  by (auto simp: failed_open_def change_obj_def Let_def split: option.splits)

lemma forget_channel_simps [task_simps]:
  "ms_tasks (forget_channel r s) = ms_tasks s" "ms_pending (forget_channel r s) = ms_pending s"
  "ms_next (forget_channel r s) = ms_next s" "ms_keys (forget_channel r s) = ms_keys s"
  "ms_objs (forget_channel r s) = ms_objs s"
  by (auto simp: forget_channel_def)

lemma change_obj_simps [task_simps]:
  "ms_tasks (change_obj r f s) = ms_tasks s" "ms_pending (change_obj r f s) = ms_pending s"
  "ms_next (change_obj r f s) = ms_next s" "ms_keys (change_obj r f s) = ms_keys s"
  "ms_active (change_obj r f s) = ms_active s" "ms_channels (change_obj r f s) = ms_channels s"
  by (auto simp: change_obj_def)

lemma tasks_cong:
  "ms_tasks s' = ms_tasks s \<Longrightarrow> in_flight s' = in_flight s"
  "ms_tasks s' = ms_tasks s \<Longrightarrow> ms_next s \<le> ms_next s' \<Longrightarrow> tasks_ok s \<Longrightarrow> tasks_ok s'"
  by (auto simp: in_flight_def tasks_ok_def)

section \<open>Every metered unit once\<close>

definition paid_units :: "(string \<times> int \<times> bool \<times> channel_voucher) list \<Rightarrow> int" where
  "paid_units es = (\<Sum>(kid, units, metered, v) \<leftarrow> es. if metered then units else 0)"

definition metered_ok :: "mpp_world \<Rightarrow> bool" where
  "metered_ok w \<longleftrightarrow> tasks_ok (w_state w) \<and>
     w_reported w = ms_pending (w_state w) + in_flight (w_state w) + paid_units (w_signed w) \<and>
     0 \<le> ms_pending (w_state w) \<and> (\<forall>x \<in> set (ms_tasks (w_state w)). 0 \<le> held (snd x)) \<and>
     0 \<le> paid_units (w_signed w)"

text \<open>A step that moves no units and keeps the waiting calls, up to one that is answered.\<close>

lemma metered_ended:
  assumes "metered_ok w" "map_of (ms_tasks (w_state w)) t = Some k" "held k = 0"
    and "ms_tasks s = ms_tasks (w_state w)" "ms_pending s = ms_pending (w_state w)" "ms_next s = ms_next (w_state w)"
  shows "metered_ok (w\<lparr>w_state := end_task t done' s\<rparr>)"
proof -
  have "tasks_ok s" using assms unfolding metered_ok_def by (auto intro: tasks_cong(2))
  then show ?thesis using assms end_task_subset [of t done' s]
    by (auto simp: metered_ok_def task_simps tasks_cong(1) [OF assms(4)])
qed

lemma metered_moved:
  assumes "metered_ok w" "map_of (ms_tasks (w_state w)) t = Some k" "0 \<le> held k'"
    and "ms_tasks s = ms_tasks (w_state w)" "ms_pending s = ms_pending (w_state w) + held k - held k'"
    and "0 \<le> ms_pending s" "ms_next (w_state w) \<le> ms_next s"
  shows "metered_ok (w\<lparr>w_state := next_task t k' s\<rparr>)"
proof -
  have "tasks_ok s" using assms unfolding metered_ok_def by (auto intro: tasks_cong(2))
  then show ?thesis using assms next_task_subset [of t k' s]
    by (auto simp: metered_ok_def task_simps tasks_cong(1) [OF assms(4)])
qed

lemma metered_started:
  assumes "metered_ok w" "0 \<le> held k" "ms_tasks s = ms_tasks (w_state w)" "ms_next s = ms_next (w_state w)"
    and "ms_pending s = ms_pending (w_state w) - held k" "0 \<le> ms_pending s"
  shows "metered_ok (w\<lparr>w_state := add_task k s\<rparr>)"
proof -
  have "tasks_ok s" using assms unfolding metered_ok_def by (auto intro: tasks_cong(2))
  then show ?thesis using assms
    by (auto simp: metered_ok_def task_simps tasks_cong(1) [OF assms(3)])
qed

lemma metered_opening: "metered_ok (w\<lparr>w_state := s\<lparr>ms_opening := x\<rparr>\<rparr>) = metered_ok (w\<lparr>w_state := s\<rparr>)"
  by (simp add: metered_ok_def tasks_ok_def in_flight_def)

lemma session_fetch_metered:
  assumes "metered_ok w" "session_fetch request units (w_state w) = Inr s"
  shows "metered_ok (w\<lparr>w_state := s\<rparr>)"
proof (cases "ms_opening (w_state w)")
  case None
  then obtain k s' where k: "perform_fetch request units (w_state w) = Inr (k, s')"
    and s: "s = add_task k s' \<or> s = (add_task k s')\<lparr>ms_opening := Some (ms_next (w_state w))\<rparr>"
    using assms(2) by (auto simp: session_fetch_def split: if_splits)
  have "metered_ok (w\<lparr>w_state := add_task k s'\<rparr>)"
    using perform_fetch_Inr [OF k] assms(1) by (intro metered_started) (auto simp: metered_ok_def)
  then show ?thesis using s by (auto simp: metered_opening)
next
  case (Some t)
  then show ?thesis
    using assms metered_started [OF assms(1), of "WaitingForOpen t request units" "w_state w"]
    by (auto simp: session_fetch_def metered_ok_def)
qed

lemma resume_metered:
  assumes "metered_ok w" "resume_waiting t (w_state w) = Inr s"
  shows "metered_ok (w\<lparr>w_state := s\<rparr>)"
proof (cases "\<exists>t' request units k s'. map_of (ms_tasks (w_state w)) t = Some (WaitingForOpen t' request units) \<and>
    perform_fetch request units (w_state w) = Inr (k, s') \<and> s = next_task t k s'")
  case True
  then obtain t' request units k s' where k: "map_of (ms_tasks (w_state w)) t = Some (WaitingForOpen t' request units)"
    "perform_fetch request units (w_state w) = Inr (k, s')" "s = next_task t k s'" by blast
  show ?thesis unfolding k(3)
    using perform_fetch_Inr [OF k(2)] assms(1) k(1) by (intro metered_moved) (auto simp: metered_ok_def)
next
  case False
  then have "s = w_state w \<or> (\<exists>t' request units. map_of (ms_tasks (w_state w)) t = Some (WaitingForOpen t' request units) \<and>
      s = end_task t False (w_state w))"
    using assms(2)
    by (auto simp: resume_waiting_def split: option.splits task.splits bool.splits sum.splits)
  then show ?thesis using assms(1) by (auto intro: metered_ended)
qed

text \<open>How the four longer operations end.\<close>

definition same_meter :: "mpp_state \<Rightarrow> mpp_state \<Rightarrow> bool" where
  "same_meter s s' \<longleftrightarrow> ms_tasks s' = ms_tasks s \<and> ms_pending s' = ms_pending s \<and> ms_next s' = ms_next s"

lemma same_meter_simps [task_simps]:
  "same_meter s s" "same_meter s (s\<lparr>ms_keys := a\<rparr>)" "same_meter s (failed_open kid cid handed (s\<lparr>ms_keys := a\<rparr>))"
  "same_meter s (failed_open kid cid handed s)" "same_meter s (forget_channel r (s\<lparr>ms_keys := a\<rparr>))"
  by (simp_all add: same_meter_def task_simps)

lemma answered_ends:
  "open_answered opts t ref kid binding answer slt nonce now_ms s = (r, s') \<Longrightarrow>
     \<exists>s1 b. s' = end_task t b s1 \<and> same_meter s s1"
  "close_answered t ref kid v answer s = (r', s') \<Longrightarrow> \<exists>s1 b. s' = end_task t b s1 \<and> same_meter s s1"
  "force_answered opts t ref sb blockhash sign send s = (r'', s') \<Longrightarrow> \<exists>s1 b. s' = end_task t b s1 \<and> same_meter s s1"
  by (auto simp: open_answered_def close_answered_def force_answered_def split: sum.splits option.splits
      intro: task_simps)+

lemma open_session_Inr:
  assumes "open_session opts t request c ow s = (Inr tx, s')"
  shows "\<exists>r program mintAcc created keys channelId bump built signed'.
    session_terms opts c (ow_rpc ow) (ow_challenge_ms ow) (ow_expiry_ms ow) = Inr (r, program, mintAcc) \<and>
    vk_create (mc_env opts) (mc_keys opts) (session_voucher_policy opts r program) (ow_entropy ow) (ms_keys s) =
      Inr (created, keys) \<and>
    deriveChannelPda (mc_env opts) (open_input opts r program mintAcc (vk_address created) (ow_salt ow)) =
      Inr (channelId, bump) \<and>
    buildOpenChannelTransaction (mc_env opts) (open_input opts r program mintAcc (vk_address created) (ow_salt ow)) =
      Inr built \<and>
    ow_sign ow built = Inr signed' \<and>
    verifySignedChannelOpen (mc_env opts) signed' (open_input opts r program mintAcc (vk_address created) (ow_salt ow)) =
      Inr tx \<and>
    s' = next_task t (OpenSent (ms_next s) (vk_id created) (open_binding opts r channelId (ow_salt ow)))
      (install_session (opened_obj opts c r program mintAcc created channelId (ow_salt ow) request) (s\<lparr>ms_keys := keys\<rparr>))"
  using assms by (auto simp: open_session_def Let_def split: sum.splits)

lemma open_session_Inl:
  assumes "open_session opts t request c ow s = (Inl e, s')"
  shows "s' = end_task t False s \<or>
    (\<exists>p created keys channelId. vk_create (mc_env opts) (mc_keys opts) p (ow_entropy ow) (ms_keys s) = Inr (created, keys) \<and>
       (s' = end_task t False (s\<lparr>ms_keys := keys\<rparr>) \<or>
        s' = end_task t False (failed_open (vk_id created) channelId False (s\<lparr>ms_keys := keys\<rparr>))))"
  using assms by (auto simp: open_session_def Let_def split: sum.splits) blast+

lemma install_simps [task_simps]:
  "ms_tasks (install_session ob s) = ms_tasks s" "ms_pending (install_session ob s) = ms_pending s"
  "ms_next (install_session ob s) = ms_next s + 1" "ms_keys (install_session ob s) = ms_keys s"
  "ms_objs (install_session ob s) = (ms_next s, ob) # ms_objs s" "ms_active (install_session ob s) = Some (ms_next s)"
  "ms_channels (install_session ob s) = ms_channels s @ [ms_next s]"
  by (simp_all add: install_session_def)

lemma opens_metered:
  assumes "metered_ok w" "map_of (ms_tasks (w_state w)) t = Some (FirstRequest request)"
    and "open_session opts t request c ow (w_state w) = (r, s)"
  shows "metered_ok (w\<lparr>w_state := s\<rparr>)"
proof (cases r)
  case (Inl e)
  then obtain s1 where "s = end_task t False s1" "same_meter (w_state w) s1"
    using open_session_Inl [OF assms(3) [unfolded Inl]] same_meter_simps by blast
  then show ?thesis using assms(1,2) by (auto simp: same_meter_def intro: metered_ended)
next
  case (Inr tx)
  then show ?thesis using open_session_Inr assms
    by (fastforce simp: task_simps metered_ok_def [of w] intro!: metered_moved [OF assms(1,2)])
qed

lemma voucher_metered:
  assumes "metered_ok w" "map_of (ms_tasks (w_state w)) t = Some (Signing kid channelId units metered request)"
    and "voucher_signed opts t kid channelId units metered request now_ms (w_state w) = (r, s)"
  shows "metered_ok (w\<lparr>w_state := s, w_signed := w_signed w @
      (case vk_signVoucher (mc_env opts) (mc_keys opts) kid channelId units now_ms (ms_keys (w_state w)) of
         Inl _ \<Rightarrow> [] | Inr ((v, _), _) \<Rightarrow> [(kid, units, metered, v)])\<rparr>)"
proof -
  let ?k = "Signing kid channelId units metered request"
  have h: "0 \<le> held ?k" using assms(1,2) by (force simp: metered_ok_def dest!: map_of_SomeD)
  have ended: "tasks_ok (end_task t b s1) \<and> in_flight (end_task t b s1) = in_flight (w_state w) - held ?k \<and>
      (\<forall>x \<in> set (ms_tasks (end_task t b s1)). 0 \<le> held (snd x))"
    if "ms_tasks s1 = ms_tasks (w_state w)" "ms_next s1 = ms_next (w_state w)" for s1 b
  proof -
    have "tasks_ok s1" using assms(1) that unfolding metered_ok_def by (auto intro: tasks_cong(2))
    then show ?thesis using assms(1,2) that end_task_subset [of t b s1]
      by (auto simp: metered_ok_def task_simps tasks_cong(1) [OF that(1)])
  qed
  show ?thesis
  proof (cases "vk_signVoucher (mc_env opts) (mc_keys opts) kid channelId units now_ms (ms_keys (w_state w))")
    case (Inl e)
    let ?s1 = "if metered then (w_state w)\<lparr>ms_pending := ms_pending (w_state w) + units\<rparr> else w_state w"
    have "s = end_task t False ?s1" using assms(3) Inl by (simp add: voucher_signed_def)
    then show ?thesis using ended [of ?s1 False] assms(1) h Inl by (auto simp: metered_ok_def task_simps)
  next
    case (Inr q)
    then obtain v sig keys where q: "q = ((v, sig), keys)" by (metis surj_pair)
    have "\<exists>s1 b. s = end_task t b s1 \<and> ms_tasks s1 = ms_tasks (w_state w) \<and> ms_next s1 = ms_next (w_state w) \<and>
        ms_pending s1 = ms_pending (w_state w)"
      using assms(3) Inr q
      by (auto simp: voucher_signed_def Let_def split: option.splits)
        (fastforce simp: task_simps)+
    then obtain s1 b where "s = end_task t b s1" "ms_tasks s1 = ms_tasks (w_state w)" "ms_next s1 = ms_next (w_state w)"
        "ms_pending s1 = ms_pending (w_state w)" by blast
    then show ?thesis using ended [of s1 b] assms(1) h Inr q
      by (auto simp: metered_ok_def task_simps paid_units_def)
  qed
qed

lemma step_metered:
  assumes "mpp_step opts w w'" "metered_ok w"
  shows "metered_ok w'"
  using assms(1)
proof cases
  case (meter units s)
  then have "s = (w_state w)\<lparr>ms_pending := ms_pending (w_state w) + units\<rparr>" "0 < units"
    by (auto simp: meter_add_def split: if_splits)
  then show ?thesis using assms(2) meter(1) by (auto simp: metered_ok_def tasks_ok_def in_flight_def)
next
  case (opens t request c ow r s)
  then show ?thesis using opens_metered [OF assms(2)] by simp
next
  case (opened t ref kid binding answer slt nonce now_ms r s)
  then show ?thesis using answered_ends(1) [OF opened(3)]
    by (auto simp: same_meter_def intro!: metered_ended [OF assms(2)])
next
  case (close s)
  then show ?thesis using assms(2)
    by (auto simp: begin_close_def metered_ok_def task_simps split: option.splits)
next
  case (closed t ref kid v answer r s)
  then show ?thesis using answered_ends(2) [OF closed(3)]
    by (auto simp: same_meter_def intro!: metered_ended [OF assms(2)])
next
  case (force can_send s)
  then show ?thesis using assms(2)
    by (auto simp: begin_force_def metered_ok_def task_simps split: option.splits if_splits)
next
  case (forced t ref sb blockhash sign send r s)
  then show ?thesis using answered_ends(3) [OF forced(3)]
    by (auto simp: same_meter_def intro!: metered_ended [OF assms(2)])
qed (auto intro: session_fetch_metered resume_metered voucher_metered metered_ended [OF assms(2)] simp: assms(2))

section \<open>The keys of a session\<close>

definition same_policies :: "voucher_key adapter \<Rightarrow> voucher_key adapter \<Rightarrow> bool" where
  "same_policies a a' \<longleftrightarrow>
     (\<forall>kid k. find_rec vk_id kid (table a) = Some k \<longrightarrow>
        (\<exists>k'. find_rec vk_id kid (table a') = Some k' \<and> vk_policy k' = vk_policy k))"

lemma same_policies_refl [simp]: "same_policies a a"
  by (simp add: same_policies_def)

lemma same_policies_trans: "same_policies a b \<Longrightarrow> same_policies b c \<Longrightarrow> same_policies a c"
  unfolding same_policies_def by metis

text \<open>A key's vouchers form one sequence, and add up to the price of the units signed under it.\<close>

definition units_ok :: "sol_env \<Rightarrow> voucher_key \<Rightarrow> (int \<times> bool \<times> channel_voucher) list \<Rightarrow> bool" where
  "units_ok env k es \<longleftrightarrow> vouchers_ok env k (map (\<lambda>(_, _, v). v) es) \<and>
     vk_lastCumulative k = vp_pricePerUnit (vk_policy k) * sum_list (map fst es)"

text \<open>Keys stored before the session began, those of \<open>a0\<close>, are not its concern.\<close>

definition session_book ::
  "sol_env \<Rightarrow> voucher_key adapter \<Rightarrow> voucher_key adapter \<Rightarrow> (string \<times> int \<times> bool \<times> channel_voucher) list \<Rightarrow> bool" where
  "session_book env a0 a es \<longleftrightarrow>
     book_ok vk_id (\<lambda>k vs. find_rec vk_id (vk_id k) (table a0) = None \<longrightarrow> units_ok env k vs) a es"

definition keys_advance ::
  "sol_env \<Rightarrow> voucher_key adapter \<Rightarrow> (string \<times> int \<times> bool \<times> channel_voucher) list \<Rightarrow> voucher_key adapter \<Rightarrow> bool" where
  "keys_advance env a new a' \<longleftrightarrow> same_policies a a' \<and>
     (\<forall>a0 es. session_book env a0 a es \<longrightarrow> session_book env a0 a' (es @ new))"

lemma advance_refl [simp]: "keys_advance env a [] a"
  by (simp add: keys_advance_def)

lemma advance_trans: "keys_advance env a [] b \<Longrightarrow> keys_advance env b [] c \<Longrightarrow> keys_advance env a [] c"
  unfolding keys_advance_def using same_policies_trans by auto

lemma advance_update:
  assumes "rec_update vk_id missing kid (own_change vk_id f) a = Inr (result, a')"
    and "\<And>k k'. f k = Inr (result, k') \<Longrightarrow> vk_id k' = vk_id k \<and> vk_policy k' = vk_policy k \<and>
      (\<forall>es. units_ok env k es \<longrightarrow> units_ok env k' (es @ map snd new))"
    and "\<forall>e \<in> set new. fst e = kid"
  shows "keys_advance env a new a'"
proof -
  obtain k k' where k: "find_rec vk_id kid (table a) = Some k" "f k = Inr (result, k')"
    "table a' = put_rec vk_id k' (table a)" using own_update_Inr [OF assms(1)] by blast
  have "same_policies a a'" using k assms(2) [OF k(2)] find_rec_key [OF k(1)]
    by (auto simp: same_policies_def find_put_rec)
  moreover have "issued_by kid new = map snd new" using assms(3) by (auto simp: issued_by_def filter_id_conv)
  ultimately show ?thesis
    using book_update [OF assms(1) _ _ assms(3)] assms(2)
    by (auto simp: keys_advance_def session_book_def)
qed

lemma advance_revoke:
  assumes "vk_revoke kid a = Inr (u, a')"
  shows "keys_advance env a [] a'"
  by (rule advance_update [OF assms [unfolded vk_revoke_def]]) (auto simp: units_ok_def vouchers_ok_status)

lemma advance_quietly: "keys_advance env a [] (revoke_quietly kid a)"
  by (auto simp: revoke_quietly_def advance_revoke split: sum.splits)

lemma advance_bind:
  assumes "vk_bindChannel env cfg kid b slt nonce now a = Inr (info, a')"
  shows "keys_advance env a [] a'"
proof (rule advance_update [OF assms [unfolded vk_bindChannel_def]])
  fix k k' assume "bind_change env cfg b slt nonce now k = Inr (info, k')"
  then show "vk_id k' = vk_id k \<and> vk_policy k' = vk_policy k \<and>
      (\<forall>es. units_ok env k es \<longrightarrow> units_ok env k' (es @ map snd []))"
    using bind_change_Inr vouchers_ok_bind by (fastforce simp: units_ok_def)
qed simp

lemma advance_sign:
  assumes "vk_signVoucher env cfg kid channelId units now a = Inr ((v, s), a')"
  shows "keys_advance env a [(kid, units, metered, v)] a'"
proof (rule advance_update [OF assms [unfolded vk_signVoucher_def]])
  fix k k' assume c: "voucher_change env cfg channelId units now k = Inr ((v, s), k')"
  then show "vk_id k' = vk_id k \<and> vk_policy k' = vk_policy k \<and>
      (\<forall>es. units_ok env k es \<longrightarrow> units_ok env k' (es @ map snd [(kid, units, metered, v)]))"
    using voucher_change_Inr [OF c] next_cumulative_Inr vouchers_ok_sign [OF _ c]
    by (fastforce simp: units_ok_def algebra_simps)
qed simp

lemma advance_create:
  assumes "vk_create env cfg p en a = Inr (info, a')" "find_rec vk_id (ve_id en) (table a) = None"
  shows "keys_advance env a [] a' \<and> (\<exists>k. find_rec vk_id (vk_id info) (table a') = Some k \<and> vk_policy k = p) \<and>
    vk_id info = ve_id en"
proof -
  obtain k where k: "table a' = table a @ [k]" "vk_id k = ve_id en" "vouchers_ok env k []"
    using create_fresh [OF assms(1)] by blast
  have i: "vk_id info = ve_id en" "vk_policy k = p"
    using assms(1) k(1)
    by (auto simp: vk_create_def Let_def vk_key_info_def voucher_info.defs split: option.splits dest!: rec_push_Inr)
  have "units_ok env k []" using k(3) by (simp add: units_ok_def vouchers_ok_def)
  then have "session_book env a0 a es \<Longrightarrow> session_book env a0 a' es" for a0 es
    using book_push [of vk_id _ a es a' k] k(1,2) assms(2) by (auto simp: session_book_def)
  then show ?thesis using k i assms(2) by (auto simp: keys_advance_def same_policies_def find_push)
qed

section \<open>The session and its keys\<close>

definition key_for_session :: "mpp_client_options \<Rightarrow> voucher_key \<Rightarrow> bool" where
  "key_for_session opts k \<longleftrightarrow>
     vp_pricePerUnit (vk_policy k) = mp_amount (mc_policy opts) \<and>
     vp_maxCumulative (vk_policy k) = mp_maxCumulative (mc_policy opts) \<and>
     vp_maxDelta (vk_policy k) = mp_maxDelta (mc_policy opts) \<and> vp_expiry (vk_policy k) = mp_expiresAt (mc_policy opts) \<and>
     vp_payer (vk_policy k) = mc_signer opts \<and> vp_payee (vk_policy k) = mp_recipient (mc_policy opts) \<and>
     vp_mint (vk_policy k) = mp_mint (mc_policy opts)"

definition client_key :: "mpp_client_options \<Rightarrow> voucher_key adapter \<Rightarrow> voucher_key adapter \<Rightarrow> string \<Rightarrow> bool" where
  "client_key opts a0 a kid \<longleftrightarrow> find_rec vk_id kid (table a0) = None \<and>
     (\<exists>k. find_rec vk_id kid (table a) = Some k \<and> key_for_session opts k)"

lemma client_key_advance: "client_key opts a0 a kid \<Longrightarrow> same_policies a a' \<Longrightarrow> client_key opts a0 a' kid"
  by (fastforce simp: client_key_def key_for_session_def same_policies_def)

fun signing :: "task \<Rightarrow> string set" where
  "signing (Signing kid channelId units metered request) = {kid}"
| "signing _ = {}"

text \<open>The keys the client can sign with, or is signing with.\<close>

definition client_kids :: "mpp_state \<Rightarrow> string set" where
  "client_kids s = (\<Union>x \<in> set (ms_objs s). set_option (so_keyId (snd x))) \<union> (\<Union>x \<in> set (ms_tasks s). signing (snd x))"

definition session_ok :: "mpp_client_options \<Rightarrow> voucher_key adapter \<Rightarrow> mpp_world \<Rightarrow> bool" where
  "session_ok opts a0 w \<longleftrightarrow> same_policies a0 (ms_keys (w_state w)) \<and>
     session_book (mc_env opts) a0 (ms_keys (w_state w)) (w_signed w) \<and>
     (\<forall>kid \<in> client_kids (w_state w) \<union> fst ` set (w_signed w). client_key opts a0 (ms_keys (w_state w)) kid)"

lemma session_advance:
  assumes "session_ok opts a0 w" "keys_advance (mc_env opts) (ms_keys (w_state w)) new (ms_keys (w_state w'))"
    and "w_signed w' = w_signed w @ new" "client_kids (w_state w') \<subseteq> client_kids (w_state w) \<union> N"
    and "\<And>kid. kid \<in> N \<union> fst ` set new \<Longrightarrow>
      client_key opts a0 (ms_keys (w_state w)) kid \<or> client_key opts a0 (ms_keys (w_state w')) kid"
  shows "session_ok opts a0 w'"
proof -
  have p: "same_policies (ms_keys (w_state w)) (ms_keys (w_state w'))" using assms(2) by (simp add: keys_advance_def)
  have "client_key opts a0 (ms_keys (w_state w')) kid" if "kid \<in> client_kids (w_state w') \<union> fst ` set (w_signed w')" for kid
  proof -
    have "kid \<in> client_kids (w_state w) \<union> fst ` set (w_signed w) \<or> kid \<in> N \<union> fst ` set new"
      using that assms(3,4) by auto
    then have "client_key opts a0 (ms_keys (w_state w)) kid \<or> client_key opts a0 (ms_keys (w_state w')) kid"
      using assms(1,5) unfolding session_ok_def by blast
    then show ?thesis using client_key_advance [OF _ p] by blast
  qed
  then show ?thesis using assms(1-3) same_policies_trans [OF _ p] by (auto simp: session_ok_def keys_advance_def)
qed

lemma change_obj_objs: "ms_objs (change_obj r f s) = map (\<lambda>(r', ob). (r', if r' = r then f ob else ob)) (ms_objs s)"
  by (simp add: change_obj_def)

lemma client_kids_simps:
  "client_kids (end_task t b s) \<subseteq> client_kids s" "client_kids (add_task k s) = client_kids s \<union> signing k"
  "client_kids (next_task t k s) \<subseteq> client_kids s \<union> signing k"
  "client_kids (s\<lparr>ms_keys := a\<rparr>) = client_kids s" "client_kids (s\<lparr>ms_pending := n\<rparr>) = client_kids s"
  "client_kids (s\<lparr>ms_opening := op'\<rparr>) = client_kids s"
  "client_kids (forget_channel r s) = client_kids s"
  "client_kids (install_session ob s) = client_kids s \<union> set_option (so_keyId ob)"
  using end_task_subset [of t b s] next_task_subset [of t k s]
  by (auto simp: client_kids_def task_simps install_session_def)

lemma client_kids_change:
  "(\<And>ob. set_option (so_keyId (f ob)) \<subseteq> set_option (so_keyId ob)) \<Longrightarrow> client_kids (change_obj r f s) \<subseteq> client_kids s"
  by (fastforce simp: client_kids_def change_obj_objs task_simps split: if_splits)

lemma client_kids_failed: "client_kids (failed_open kid cid handed s) \<subseteq> client_kids s"
proof -
  have "client_kids (change_obj r (\<lambda>ob. ob\<lparr>so_keyId := None\<rparr>) (s\<lparr>ms_keys := a\<rparr>)) \<subseteq> client_kids s" for r a
    using client_kids_change [of "\<lambda>ob. ob\<lparr>so_keyId := None\<rparr>" r "s\<lparr>ms_keys := a\<rparr>"] by (simp add: client_kids_simps)
  moreover have "client_kids (s\<lparr>ms_keys := a, ms_active := x, ms_channels := ys\<rparr>) = client_kids s" for a x ys
    by (simp add: client_kids_def)
  ultimately show ?thesis by (auto simp: failed_open_def Let_def client_kids_simps split: option.splits)
qed

lemma perform_fetch_kids:
  assumes "perform_fetch request units s = Inr (k, s')"
  shows "signing k \<subseteq> client_kids s" "client_kids s' = client_kids s" "ms_keys s' = ms_keys s"
proof -
  have s': "s' = s\<lparr>ms_pending := ms_pending s - held k\<rparr>" using perform_fetch_Inr [OF assms] by blast
  then show "client_kids s' = client_kids s" "ms_keys s' = ms_keys s" by (simp_all add: client_kids_simps)
  show "signing k \<subseteq> client_kids s"
    using perform_fetch_Inr [OF assms]
    by (cases k) (fastforce simp: client_kids_def active_obj_def bind_eq_Some_conv dest!: map_of_SomeD)+
qed

lemma session_fetch_kids:
  assumes "session_fetch request units s = Inr s'"
  shows "client_kids s' = client_kids s \<and> ms_keys s' = ms_keys s"
proof (cases "ms_opening s")
  case None
  then obtain k s1 where k: "perform_fetch request units s = Inr (k, s1)"
    and s: "s' = add_task k s1 \<or> s' = (add_task k s1)\<lparr>ms_opening := Some (ms_next s)\<rparr>"
    using assms by (auto simp: session_fetch_def split: if_splits)
  then show ?thesis using perform_fetch_kids [OF k] by (auto simp: client_kids_simps task_simps)
next
  case (Some t)
  then show ?thesis using assms by (auto simp: session_fetch_def client_kids_simps task_simps)
qed

lemma resume_cases:
  assumes "resume_waiting t s = Inr s'"
  shows "s' = s \<or> s' = end_task t False s \<or>
    (\<exists>t' request units k s1. map_of (ms_tasks s) t = Some (WaitingForOpen t' request units) \<and>
      map_of (ms_settled s) t' = Some True \<and> perform_fetch request units s = Inr (k, s1) \<and> s' = next_task t k s1)"
  using assms by (simp add: resume_waiting_def split: option.splits task.splits bool.splits sum.splits prod.splits)

lemma resume_kids:
  assumes "resume_waiting t s = Inr s'"
  shows "client_kids s' \<subseteq> client_kids s \<and> ms_keys s' = ms_keys s"
  using resume_cases [OF assms]
proof (elim disjE exE conjE)
  fix t' request units k s1
  assume "perform_fetch request units s = Inr (k, s1)" "s' = next_task t k s1"
  then show ?thesis using perform_fetch_kids client_kids_simps(3) [of t k s1] by (fastforce simp: task_simps)
qed (use client_kids_simps(1) in \<open>auto simp: task_simps\<close>)

lemma guard_Inr: "(if b then Inl e else r) = Inr x \<longleftrightarrow> \<not> b \<and> r = Inr x"
  by auto

lemma found_Inr: "(case v of None \<Rightarrow> Inl e | Some y \<Rightarrow> f y) = Inr x \<longleftrightarrow> (\<exists>y. v = Some y \<and> f y = Inr x)"
  by (auto split: option.splits)

lemma session_terms_Inr:
  assumes "session_terms opts c rpc now1 now2 = Inr (r, program, mintAcc)"
  shows "readSessionRequest c = Inr r \<and> (\<forall>e. ch_expiresAt c = Some e \<longrightarrow> now1 < e) \<and>
    sr_currency r = mp_mint (mc_policy opts) \<and> sr_recipient r = mp_recipient (mc_policy opts) \<and>
    sr_amount r = mp_amount (mc_policy opts) \<and> or_else (mp_minimumGrace (mc_policy opts)) 3600 \<le> sr_gracePeriod r \<and>
    sr_minimumDeposit r \<le> mp_deposit (mc_policy opts) \<and> now2 div 1000 + sr_gracePeriod r \<le> mp_expiresAt (mc_policy opts) \<and>
    assertSolanaCluster (mr_rpc rpc) (sr_cluster r) = Inr () \<and>
    (\<exists>trusted. assertTrustedChannelProgram (mc_env opts) (mr_rpc rpc) (sr_cluster r) (mc_trust opts) = Inr trusted \<and>
       program = tp_address trusted) \<and> sr_channelProgram r = program \<and>
    mr_blockhashValid rpc (sr_recentBlockhash r) = Inr True \<and>
    getAccountInfo (mr_rpc rpc) (sr_currency r) = Inr (Some (cm_owner mintAcc, cm_data mintAcc)) \<and>
    cm_address mintAcc = sr_currency r"
  using assms unfolding session_terms_def Let_def guard_Inr found_Inr andThen_Inr by (auto simp: guard_Inr)

lemma created_policy: "vk_create env cfg p en a = Inr (info, a') \<Longrightarrow> vk_policy info = p"
  by (auto simp: vk_create_def Let_def vk_key_info_def voucher_info.defs split: option.split_asm)

lemma opens_session_ok:
  assumes "session_ok opts a0 w" "find_rec vk_id (ve_id (ow_entropy ow)) (table (ms_keys (w_state w))) = None"
    and "open_session opts t request c ow (w_state w) = (r, s)"
  shows "session_ok opts a0 (w\<lparr>w_state := s\<rparr>)"
proof (cases r)
  case (Inl e)
  have "keys_advance (mc_env opts) (ms_keys (w_state w)) [] (ms_keys s) \<and> client_kids s \<subseteq> client_kids (w_state w)"
    using open_session_Inl [OF assms(3) [unfolded Inl]]
  proof (elim disjE exE conjE)
    fix p created keys channelId
    assume v: "vk_create (mc_env opts) (mc_keys opts) p (ow_entropy ow) (ms_keys (w_state w)) = Inr (created, keys)"
      and s: "s = end_task t False (failed_open (vk_id created) channelId False ((w_state w)\<lparr>ms_keys := keys\<rparr>))"
    have "client_kids s \<subseteq> client_kids (w_state w)"
      using client_kids_failed [of "vk_id created" channelId False "(w_state w)\<lparr>ms_keys := keys\<rparr>"]
        client_kids_simps(1) unfolding s client_kids_simps(4) by (rule subset_trans [rotated])
    moreover have "keys_advance (mc_env opts) (ms_keys (w_state w)) [] (ms_keys s)"
      using advance_create [OF v assms(2)] advance_trans advance_quietly unfolding s by (auto simp: task_simps)
    ultimately show ?thesis by blast
  next
    fix p created keys channelId
    assume v: "vk_create (mc_env opts) (mc_keys opts) p (ow_entropy ow) (ms_keys (w_state w)) = Inr (created, keys)"
      and s: "s = end_task t False ((w_state w)\<lparr>ms_keys := keys\<rparr>)"
    then show ?thesis
      using advance_create [OF v assms(2)] client_kids_simps(1) [of t False "(w_state w)\<lparr>ms_keys := keys\<rparr>"]
      by (simp add: task_simps client_kids_simps(4))
  qed (use client_kids_simps(1) in \<open>simp add: task_simps\<close>)
  then show ?thesis using session_advance [OF assms(1), of "[]" "w\<lparr>w_state := s\<rparr>" "{}"] by simp
next
  case (Inr tx)
  obtain rq program mintAcc created keys channelId where
    q: "session_terms opts c (ow_rpc ow) (ow_challenge_ms ow) (ow_expiry_ms ow) = Inr (rq, program, mintAcc)"
      "vk_create (mc_env opts) (mc_keys opts) (session_voucher_policy opts rq program) (ow_entropy ow)
         (ms_keys (w_state w)) = Inr (created, keys)"
    and s: "s = next_task t (OpenSent (ms_next (w_state w)) (vk_id created) (open_binding opts rq channelId (ow_salt ow)))
      (install_session (opened_obj opts c rq program mintAcc created channelId (ow_salt ow) request)
        ((w_state w)\<lparr>ms_keys := keys\<rparr>))"
    using open_session_Inr [OF assms(3) [unfolded Inr]] by blast
  note v = advance_create [OF q(2) assms(2)]
  have keys: "ms_keys s = keys" by (simp add: s task_simps)
  have new: "find_rec vk_id (ve_id (ow_entropy ow)) (table a0) = None"
    using assms(1,2) unfolding session_ok_def same_policies_def by (metis option.exhaust option.simps(3))
  have key: "client_key opts a0 keys (vk_id created)"
    using v new session_terms_Inr [OF q(1)]
    by (auto simp: client_key_def key_for_session_def session_voucher_policy_def Let_def)
  have kids: "client_kids s \<subseteq> client_kids (w_state w) \<union> {vk_id created}"
    unfolding s using client_kids_simps(3) by (force simp: client_kids_simps(4,8) opened_obj_def)
  show ?thesis
    by (rule session_advance [OF assms(1), of "[]" _ "{vk_id created}"]) (use v key kids keys in auto)
qed

text \<open>The three answers after an opening.\<close>

lemma revoked_keys:
  assumes "(case kid of None \<Rightarrow> Inr ((), a) | Some i \<Rightarrow> vk_revoke i a) = Inr (u, a')"
  shows "keys_advance env a [] a'"
  using assms by (auto simp: advance_revoke split: option.splits)

lemma open_answered_keys:
  assumes "open_answered opts t ref kid binding answer slt nonce now_ms s = (r, s')"
  shows "keys_advance (mc_env opts) (ms_keys s) [] (ms_keys s') \<and> client_kids s' \<subseteq> client_kids s"
proof -
  have "client_kids (end_task t False (failed_open kid (bc_channelId binding) True s)) \<subseteq> client_kids s"
    using client_kids_simps(1) client_kids_failed by (rule subset_trans)
  moreover have "client_kids (end_task t True (s\<lparr>ms_keys := a\<rparr>)) \<subseteq> client_kids s" for a
    using client_kids_simps(1) [of t True "s\<lparr>ms_keys := a\<rparr>"] by (simp add: client_kids_simps(4))
  ultimately show ?thesis using assms
    by (auto simp: open_answered_def task_simps advance_quietly split: sum.splits dest!: advance_bind)
qed

lemma forget_keys:
  assumes "keys_advance env (ms_keys s) [] a"
  shows "keys_advance env (ms_keys s) [] (ms_keys (end_task t b (forget_channel r (s\<lparr>ms_keys := a\<rparr>)))) \<and>
    client_kids (end_task t b (forget_channel r (s\<lparr>ms_keys := a\<rparr>))) \<subseteq> client_kids s"
  using client_kids_simps(1) [of t b "forget_channel r (s\<lparr>ms_keys := a\<rparr>)"] assms
  by (simp add: client_kids_simps task_simps)

lemma ended_keys:
  "keys_advance env (ms_keys s) [] (ms_keys (end_task t b s)) \<and> client_kids (end_task t b s) \<subseteq> client_kids s"
  using client_kids_simps(1) by (simp add: task_simps)

lemma close_answered_cases:
  assumes "close_answered t ref kid v answer s = (r, s')"
  shows "(\<exists>e. r = Inl e \<and> s' = end_task t False s) \<or>
    (\<exists>a. vk_revoke kid (ms_keys s) = Inr ((), a) \<and> s' = end_task t True (forget_channel ref (s\<lparr>ms_keys := a\<rparr>)))"
  using assms by (auto simp: close_answered_def split: option.splits sum.splits)

lemma force_answered_cases:
  assumes "force_answered opts t ref sb blockhash sign send s = (r, s')"
  shows "(\<exists>e. r = Inl e \<and> s' = end_task t False s) \<or>
    (\<exists>kid a. (case kid of None \<Rightarrow> Inr ((), ms_keys s) | Some i \<Rightarrow> vk_revoke i (ms_keys s)) = Inr ((), a) \<and>
       s' = end_task t True (forget_channel ref (s\<lparr>ms_keys := a\<rparr>)))"
  using assms by (auto simp: force_answered_def split: option.splits sum.splits)

lemma answered_keys:
  "close_answered t ref kid v answer s = (r, s') \<Longrightarrow>
     keys_advance env (ms_keys s) [] (ms_keys s') \<and> client_kids s' \<subseteq> client_kids s"
  "force_answered opts t ref sb blockhash sign send s = (r', s') \<Longrightarrow>
     keys_advance env (ms_keys s) [] (ms_keys s') \<and> client_kids s' \<subseteq> client_kids s"
  by (drule close_answered_cases, use ended_keys forget_keys advance_revoke in blast)
    (drule force_answered_cases, use ended_keys forget_keys revoked_keys in blast)

lemma voucher_signed_cases:
  assumes "voucher_signed opts t kid channelId units metered request now_ms s = (r, s')"
  shows "(\<exists>e n. vk_signVoucher (mc_env opts) (mc_keys opts) kid channelId units now_ms (ms_keys s) = Inl e \<and>
      s' = end_task t False (s\<lparr>ms_pending := n\<rparr>)) \<or>
    (\<exists>v sig a. vk_signVoucher (mc_env opts) (mc_keys opts) kid channelId units now_ms (ms_keys s) = Inr ((v, sig), a) \<and>
      (s' = end_task t False (s\<lparr>ms_keys := a\<rparr>) \<or>
       (\<exists>ref. ms_active s = Some ref \<and> s' = end_task t True (change_obj ref (\<lambda>ob. ob\<lparr>so_lastVoucher :=
          Some (signedVoucher (v, sig) (so_keyAddress ob)), so_endpoint := request\<rparr>) (s\<lparr>ms_keys := a\<rparr>)))))"
proof (cases "vk_signVoucher (mc_env opts) (mc_keys opts) kid channelId units now_ms (ms_keys s)")
  case (Inl e)
  then have "s' = end_task t False (s\<lparr>ms_pending := if metered then ms_pending s + units else ms_pending s\<rparr>)"
    using assms by (simp add: voucher_signed_def split: if_splits)
  then show ?thesis using Inl by blast
next
  case (Inr q)
  then obtain v sig a where "q = ((v, sig), a)" by (metis surj_pair)
  then show ?thesis using assms Inr
    by (cases "ms_active s") (simp_all add: voucher_signed_def Let_def)
qed

lemma voucher_signed_kids:
  assumes "voucher_signed opts t kid channelId units metered request now_ms s = (r, s')"
  shows "client_kids s' \<subseteq> client_kids s \<and>
    ms_keys s' = (case vk_signVoucher (mc_env opts) (mc_keys opts) kid channelId units now_ms (ms_keys s) of
      Inl _ \<Rightarrow> ms_keys s | Inr (_, keys) \<Rightarrow> keys)"
  using voucher_signed_cases [OF assms]
proof (elim disjE exE conjE)
  fix v sig a ref
  let ?f = "\<lambda>ob. ob\<lparr>so_lastVoucher := Some (signedVoucher (v, sig) (so_keyAddress ob)), so_endpoint := request\<rparr>"
  assume "vk_signVoucher (mc_env opts) (mc_keys opts) kid channelId units now_ms (ms_keys s) = Inr ((v, sig), a)"
    "s' = end_task t True (change_obj ref ?f (s\<lparr>ms_keys := a\<rparr>))"
  then show ?thesis
    using client_kids_simps(1) [of t True "change_obj ref ?f (s\<lparr>ms_keys := a\<rparr>)"]
      client_kids_change [of ?f ref "s\<lparr>ms_keys := a\<rparr>"] by (simp add: task_simps client_kids_simps(4) subset_iff)
next
  fix e n
  assume "vk_signVoucher (mc_env opts) (mc_keys opts) kid channelId units now_ms (ms_keys s) = Inl e"
    "s' = end_task t False (s\<lparr>ms_pending := n\<rparr>)"
  then show ?thesis using client_kids_simps(1) [of t False "s\<lparr>ms_pending := n\<rparr>"]
    by (simp add: task_simps client_kids_simps(5))
next
  fix v sig a
  assume "vk_signVoucher (mc_env opts) (mc_keys opts) kid channelId units now_ms (ms_keys s) = Inr ((v, sig), a)"
    "s' = end_task t False (s\<lparr>ms_keys := a\<rparr>)"
  then show ?thesis using client_kids_simps(1) [of t False "s\<lparr>ms_keys := a\<rparr>"]
    by (simp add: task_simps client_kids_simps(4))
qed

lemma step_session_ok:
  assumes "mpp_step opts w w'" "session_ok opts a0 w"
  shows "session_ok opts a0 w'"
  using assms(1)
proof cases
  case (meter units s)
  then show ?thesis using session_advance [OF assms(2), of "[]" w' "{}"]
    by (auto simp: meter_add_def client_kids_simps split: if_splits)
next
  case (fetch request units s)
  then show ?thesis using session_advance [OF assms(2), of "[]" w' "{}"] session_fetch_kids by simp
next
  case (resume t s)
  then show ?thesis using session_advance [OF assms(2), of "[]" w' "{}"] resume_kids by simp
next
  case (free t request)
  then show ?thesis using session_advance [OF assms(2), of "[]" w' "{}"] ended_keys by simp
next
  case (refused t request)
  then show ?thesis using session_advance [OF assms(2), of "[]" w' "{}"] ended_keys by simp
next
  case (opens t request c ow r s)
  then show ?thesis using opens_session_ok [OF assms(2)] by simp
next
  case (opened t ref kid binding answer slt nonce now_ms r s)
  then show ?thesis using session_advance [OF assms(2), of "[]" w' "{}"] open_answered_keys by simp
next
  case (voucher t kid channelId units metered request now_ms r s)
  have kid: "client_key opts a0 (ms_keys (w_state w)) kid"
    using assms(2) map_of_SomeD [OF voucher(2)] by (fastforce simp: session_ok_def client_kids_def)
  define new where "new = (case vk_signVoucher (mc_env opts) (mc_keys opts) kid channelId units now_ms
      (ms_keys (w_state w)) of Inl _ \<Rightarrow> [] | Inr ((v, _), _) \<Rightarrow> [(kid, units, metered, v)])"
  have "keys_advance (mc_env opts) (ms_keys (w_state w)) new (ms_keys s)"
    using voucher_signed_kids [OF voucher(3)] advance_sign by (auto simp: new_def split: sum.splits)
  moreover have "fst ` set new \<subseteq> {kid}" by (auto simp: new_def split: sum.splits)
  ultimately show ?thesis
    using session_advance [OF assms(2), of new w' "{}"] voucher_signed_kids [OF voucher(3)] voucher(1) kid
    by (auto simp: new_def [symmetric])
next
  case (close s)
  then show ?thesis using session_advance [OF assms(2), of "[]" w' "{}"]
    by (auto simp: begin_close_def client_kids_simps task_simps split: option.splits)
next
  case (closed t ref kid v answer r s)
  then show ?thesis using session_advance [OF assms(2), of "[]" w' "{}"] answered_keys(1) by simp
next
  case (force can_send s)
  then show ?thesis using session_advance [OF assms(2), of "[]" w' "{}"]
    by (auto simp: begin_force_def client_kids_simps task_simps split: option.splits if_splits)
next
  case (forced t ref sb blockhash sign send r s)
  then show ?thesis using session_advance [OF assms(2), of "[]" w' "{}"] answered_keys(2) by simp
qed

section \<open>The listed channels\<close>

definition listed_ok :: "mpp_state \<Rightarrow> bool" where
  "listed_ok s \<longleftrightarrow> distinct (ms_channels s) \<and> (\<forall>r \<in> set (ms_channels s) \<union> fst ` set (ms_objs s). r < ms_next s) \<and>
     (\<forall>r. ms_active s = Some r \<longrightarrow> r \<in> set (ms_channels s) \<inter> fst ` set (ms_objs s))"

lemma listed_simps:
  "listed_ok (end_task t b s) = listed_ok s" "listed_ok (next_task t k s) = listed_ok s"
  "listed_ok (s\<lparr>ms_keys := a\<rparr>) = listed_ok s" "listed_ok (s\<lparr>ms_pending := n\<rparr>) = listed_ok s"
  "listed_ok (s\<lparr>ms_opening := op'\<rparr>) = listed_ok s" "listed_ok (change_obj r f s) = listed_ok s"
  "listed_ok s \<Longrightarrow> listed_ok (add_task k s)" "listed_ok s \<Longrightarrow> listed_ok (forget_channel r s)"
  "listed_ok s \<Longrightarrow> listed_ok (install_session ob s)" "listed_ok s \<Longrightarrow> listed_ok (failed_open kid cid handed s)"
proof -
  show c: "listed_ok (change_obj r f s) = listed_ok s" for r f s
    by (simp add: listed_ok_def task_simps change_obj_objs image_image case_prod_beta)
  have "listed_ok s \<Longrightarrow> listed_ok (s\<lparr>ms_keys := a, ms_active := None, ms_channels := remove1 x (ms_channels s)\<rparr>)" for a x
    by (auto simp: listed_ok_def dest: notin_set_remove1)
  moreover have "listed_ok s \<Longrightarrow> listed_ok (s\<lparr>ms_keys := a, ms_active := None, ms_channels := ms_channels s\<rparr>)" for a
    by (simp add: listed_ok_def)
  moreover have k: "listed_ok (s\<lparr>ms_keys := a\<rparr>) = listed_ok s" for a by (simp add: listed_ok_def)
  ultimately show "listed_ok s \<Longrightarrow> listed_ok (failed_open kid cid handed s)"
    by (simp add: failed_open_def Let_def c split: option.split)
qed (auto simp: listed_ok_def task_simps add_task_def forget_channel_def less_Suc_eq dest: notin_set_remove1)

lemma perform_fetch_listed: "perform_fetch request units s = Inr (k, s') \<Longrightarrow> listed_ok s' = listed_ok s"
  using perform_fetch_Inr [of request units s k s'] by (auto simp: listed_simps(4))

lemma open_session_listed:
  assumes "open_session opts t request c ow s = (r, s')" "listed_ok s"
  shows "listed_ok s'"
proof (cases r)
  case (Inl e)
  then show ?thesis
    using open_session_Inl [OF assms(1) [unfolded Inl]] assms(2) by (auto simp: listed_simps)
next
  case (Inr tx)
  have "listed_ok (s\<lparr>ms_keys := a\<rparr>)" for a using assms(2) by (simp add: listed_simps(3))
  then show ?thesis using open_session_Inr [OF assms(1) [unfolded Inr]] by (auto simp: listed_simps)
qed

lemma step_listed:
  assumes "mpp_step opts w w'" "listed_ok (w_state w)"
  shows "listed_ok (w_state w')"
  using assms(1)
proof cases
  case (fetch request units s)
  then show ?thesis using assms(2) perform_fetch_listed
    by (auto simp: session_fetch_def listed_simps split: option.splits if_splits)
next
  case (resume t s)
  then show ?thesis using assms(2) resume_cases [OF resume(2)] perform_fetch_listed listed_simps(1,2) by auto
next
  case (voucher t kid channelId units metered request now_ms r s)
  then show ?thesis using assms(2) voucher_signed_cases [OF voucher(3)] by (auto simp: listed_simps)
next
  case (opened t ref kid binding answer slt nonce now_ms r s)
  then show ?thesis using assms(2) by (auto simp: open_answered_def listed_simps split: sum.splits)
next
  case (closed t ref kid v answer r s)
  then show ?thesis using assms(2) close_answered_cases [OF closed(3)] by (auto simp: listed_simps)
next
  case (forced t ref sb blockhash sign send r s)
  then show ?thesis using assms(2) force_answered_cases [OF forced(3)] by (auto simp: listed_simps)
qed (use assms(2) open_session_listed in
  \<open>auto simp: meter_add_def begin_close_def begin_force_def listed_simps split: if_splits option.splits\<close>)

section \<open>The vouchers of a key\<close>

lemma sequence_below_last:
  "voucher_sequence d vs \<Longrightarrow> v \<in> set vs \<Longrightarrow> cv_cumulativeAmount v \<le> last (0 # map cv_cumulativeAmount vs)"
proof (induction vs rule: rev_induct)
  case (snoc x xs)
  then show ?case by (fastforce simp: voucher_sequence_snoc split: if_splits)
qed simp

lemma issued_within:
  assumes "units_ok env k es" "es \<noteq> []"
  shows "\<exists>c. vk_channel k = Some c \<and> vk_lastCumulative k \<le> vp_maxCumulative (vk_policy k) \<and>
    vk_lastCumulative k \<le> bc_deposit c \<and>
    (\<forall>(units, metered, v) \<in> set es. cv_channelId v = bc_channelId c \<and> cv_cumulativeAmount v \<le> vk_lastCumulative k)"
proof -
  define vs where "vs = map (\<lambda>(_, _, v). v) es"
  have ok: "vouchers_ok env k vs" and ne: "vs \<noteq> []" using assms by (simp_all add: units_ok_def vs_def)
  then obtain c where c: "vk_channel k = Some c" "bc_maxCumulative c = min (vp_maxCumulative (vk_policy k)) (bc_deposit c)"
    "\<forall>v \<in> set vs. cv_channelId v = bc_channelId c \<and> cv_cumulativeAmount v \<le> bc_maxCumulative c"
    by (cases "vk_channel k") (auto simp: vouchers_ok_def)
  have sq: "voucher_sequence (vp_maxDelta (vk_policy k)) vs" and l: "vk_lastCumulative k = last (0 # map cv_cumulativeAmount vs)"
    using ok by (simp_all add: vouchers_ok_def)
  have "last vs \<in> set vs" "vk_lastCumulative k = cv_cumulativeAmount (last vs)" using ne l by (simp_all add: last_map)
  then have "vk_lastCumulative k \<le> bc_maxCumulative c" using c(3) by simp
  moreover have "\<forall>v \<in> set vs. cv_channelId v = bc_channelId c \<and> cv_cumulativeAmount v \<le> vk_lastCumulative k"
    using sequence_below_last [OF sq] c(3) l by simp
  ultimately show ?thesis using c(1,2) by (intro exI [of _ c]) (auto simp: vs_def)
qed

section \<open>Runs\<close>

definition mpp_start :: "voucher_key adapter \<Rightarrow> mpp_world" where
  "mpp_start keys = \<lparr>w_state = initial_mpp keys, w_reported = 0, w_signed = []\<rparr>"

lemma start_ok:
  "metered_ok (mpp_start keys)" "session_ok opts keys (mpp_start keys)" "listed_ok (w_state (mpp_start keys))"
  by (simp_all add: mpp_start_def initial_mpp_def metered_ok_def tasks_ok_def in_flight_def paid_units_def
      session_ok_def client_kids_def listed_ok_def session_book_def book_ok_def find_rec_key)

lemma run_metered: "(mpp_step opts)\<^sup>*\<^sup>* w w' \<Longrightarrow> metered_ok w \<Longrightarrow> metered_ok w'"
  by (induction rule: rtranclp_induct) (auto intro: step_metered)

lemma run_session_ok: "(mpp_step opts)\<^sup>*\<^sup>* w w' \<Longrightarrow> session_ok opts a0 w \<Longrightarrow> session_ok opts a0 w'"
  by (induction rule: rtranclp_induct) (auto intro: step_session_ok)

lemma run_listed: "(mpp_step opts)\<^sup>*\<^sup>* w w' \<Longrightarrow> listed_ok (w_state w) \<Longrightarrow> listed_ok (w_state w')"
  by (induction rule: rtranclp_induct) (auto intro: step_listed)

section \<open>A concrete run\<close>

text \<open>A session over the key of VoucherSafety: 25 metered units, paid with one voucher.\<close>

definition demo_pay_opts :: mpp_client_options where
  "demo_pay_opts = demo_mpp_opts\<lparr>mc_keys := demo_vk_cfg\<rparr>"

definition demo_obj :: session_obj where
  "demo_obj = opened_obj demo_mpp_opts demo_mpp_challenge demo_request (sol_addr CHR ''c'') demo_mint_account demo_created
     demo_channel_id 9 ''GET /''"

definition demo_session :: "encrypted_key_pair \<Rightarrow> mpp_world" where
  "demo_session kp = \<lparr>w_state = (initial_mpp (demo_vk_store kp))\<lparr>ms_objs := [(0, demo_obj)], ms_active := Some 0,
     ms_channels := [0], ms_pending := 25, ms_next := 1\<rparr>, w_reported = 25, w_signed = []\<rparr>"

lemma demo_session_ok:
  "metered_ok (demo_session kp)" "listed_ok (w_state (demo_session kp))" "session_ok demo_pay_opts no_keys (demo_session kp)"
proof -
  show "metered_ok (demo_session kp)" "listed_ok (w_state (demo_session kp))"
    by (simp_all add: demo_session_def initial_mpp_def metered_ok_def listed_ok_def tasks_ok_def in_flight_def paid_units_def)
  have "vk_id (demo_vk kp) = ''id1''" by (simp add: demo_vk_def)
  moreover have "units_ok toy_sol (demo_vk kp) []" using demo_vk_ok by (simp add: units_ok_def demo_vk_def)
  moreover have "key_for_session demo_pay_opts (demo_vk kp)"
    by (simp add: key_for_session_def demo_pay_opts_def demo_mpp_opts_def demo_mpp_policy_def demo_vk_def demo_vk_policy_def)
  ultimately show "session_ok demo_pay_opts no_keys (demo_session kp)"
    by (auto simp: session_ok_def session_book_def book_ok_def same_policies_def client_kids_def client_key_def
        demo_session_def initial_mpp_def table_def find_rec_def demo_pay_opts_def demo_mpp_opts_def demo_obj_def
        opened_obj_def demo_created_def)
qed

lemma demo_session_pays:
  "\<exists>kp w v. (mpp_step demo_pay_opts)\<^sup>*\<^sup>* (demo_session kp) w \<and> w_signed w = [(''id1'', 25, True, v)] \<and>
     w_reported w = 25 \<and> cv_cumulativeAmount v = 250 \<and> ms_active (w_state w) = Some 0"
proof -
  obtain kp v sig a where sgn: "vk_signVoucher toy_sol demo_vk_cfg ''id1'' demo_channel_id 25 2000000 (demo_vk_store kp) =
    Inr ((v, sig), a)" "cv_cumulativeAmount v = 250" using demo_vk_signs by blast
  let ?w = "demo_session kp" and ?task = "Signing ''id1'' demo_channel_id 25 True ''GET /a''"
  let ?s1 = "add_task ?task ((w_state ?w)\<lparr>ms_pending := 0\<rparr>)"
  have f: "session_fetch ''GET /a'' None (w_state ?w) = Inr ?s1"
    by (simp add: session_fetch_def perform_fetch_def active_obj_def demo_session_def initial_mpp_def demo_obj_def
        opened_obj_def opened_channel_def demo_created_def Let_def)
  have s1: "mpp_step demo_pay_opts ?w (?w\<lparr>w_state := ?s1\<rparr>)" by (rule mpp_step.fetch [OF f])
  obtain r s2 where v: "voucher_signed demo_pay_opts 1 ''id1'' demo_channel_id 25 True ''GET /a'' 2000000 ?s1 = (r, s2)"
    by fastforce
  have keys: "ms_keys ?s1 = demo_vk_store kp" by (simp add: add_task_def demo_session_def initial_mpp_def)
  have act: "ms_active ?s1 = Some 0" by (simp add: add_task_def demo_session_def)
  have o1: "mc_env demo_pay_opts = toy_sol" "mc_keys demo_pay_opts = demo_vk_cfg"
    by (simp_all add: demo_pay_opts_def demo_mpp_opts_def)
  have t: "map_of (ms_tasks (w_state (?w\<lparr>w_state := ?s1\<rparr>))) 1 = Some ?task"
    by (simp add: add_task_def demo_session_def)
  let ?w2 = "?w\<lparr>w_state := s2, w_signed := [(''id1'', 25, True, v)]\<rparr>"
  have "mpp_step demo_pay_opts (?w\<lparr>w_state := ?s1\<rparr>) ?w2"
    using mpp_step.voucher [OF t, of demo_pay_opts 2000000 r s2] v sgn(1) keys
    by (simp add: o1 demo_session_def)
  then have "(mpp_step demo_pay_opts)\<^sup>*\<^sup>* ?w ?w2" using s1 by (meson converse_rtranclp_into_rtranclp rtranclp.rtrancl_refl)
  moreover have "ms_active s2 = Some 0"
    using voucher_signed_cases [OF v] act by (auto simp: task_simps)
  ultimately show ?thesis using sgn(2)
    by (intro exI [of _ kp] exI [of _ ?w2] exI [of _ v]) (simp add: demo_session_def)
qed

section \<open>Properties\<close>

text \<open>
  C26: every metered unit is charged at most once and none is lost: in every run the units the meter
  accepted are the pending ones, those taken by requests whose voucher is being signed and those
  paid for; what is paid for never exceeds what was reported.
\<close>

theorem metered_once:
  assumes "(mpp_step opts)\<^sup>*\<^sup>* w w'" "metered_ok w"
  shows "w_reported w' = ms_pending (w_state w') + in_flight (w_state w') + paid_units (w_signed w') \<and>
    0 \<le> ms_pending (w_state w') \<and> 0 \<le> in_flight (w_state w') \<and> paid_units (w_signed w') \<le> w_reported w'"
proof -
  have ok: "metered_ok w'" by (rule run_metered [OF assms])
  then have "0 \<le> in_flight (w_state w')" by (auto simp: metered_ok_def in_flight_def intro!: sum_list_nonneg)
  then show ?thesis using ok by (simp add: metered_ok_def)
qed

lemma metered_once_witness:
  "\<exists>w :: mpp_world. w_reported w = 25 \<and> paid_units (w_signed w) = 25 \<and> ms_pending (w_state w) = 0 \<and> in_flight (w_state w) = 0"
proof -
  obtain kp w v where w: "(mpp_step demo_pay_opts)\<^sup>*\<^sup>* (demo_session kp) w" "w_signed w = [(''id1'', 25, True, v)]"
    "w_reported w = 25" using demo_session_pays by blast
  from metered_once [OF w(1) demo_session_ok(1)] w(2,3) show ?thesis
    by (intro exI [of _ w]) (simp add: paid_units_def)
qed

text \<open>
  C27: a session pays the price of its units and no more than its policy: in every run, whatever keys
  were stored before it, a key the session has signed with is a key of its own, pays the policy's
  recipient in the policy's mint, and has spent exactly the policy's amount for every unit signed
  under it; that sum is within the policy's ceiling and the deposit, and all its vouchers name the one
  channel the key is bound to and never exceed that sum.
\<close>

theorem session_spends_within_policy:
  assumes "(mpp_step opts)\<^sup>*\<^sup>* w w'" "session_ok opts a0 w" "kid \<in> fst ` set (w_signed w')"
  shows "\<exists>k c. find_rec vk_id kid (table (ms_keys (w_state w'))) = Some k \<and> find_rec vk_id kid (table a0) = None \<and>
    vk_channel k = Some c \<and> vp_payee (vk_policy k) = mp_recipient (mc_policy opts) \<and>
    vp_mint (vk_policy k) = mp_mint (mc_policy opts) \<and>
    vk_lastCumulative k = mp_amount (mc_policy opts) * sum_list (map fst (issued_by kid (w_signed w'))) \<and>
    vk_lastCumulative k \<le> mp_maxCumulative (mc_policy opts) \<and> vk_lastCumulative k \<le> bc_deposit c \<and>
    (\<forall>(units, metered, v) \<in> set (issued_by kid (w_signed w')).
       cv_channelId v = bc_channelId c \<and> cv_cumulativeAmount v \<le> vk_lastCumulative k)"
proof -
  have ok: "session_ok opts a0 w'" by (rule run_session_ok [OF assms(1,2)])
  then have ck: "client_key opts a0 (ms_keys (w_state w')) kid" using assms(3) by (auto simp: session_ok_def)
  then obtain k where k: "find_rec vk_id kid (table (ms_keys (w_state w'))) = Some k" "key_for_session opts k"
    and new: "find_rec vk_id kid (table a0) = None" by (auto simp: client_key_def)
  let ?es = "issued_by kid (w_signed w')"
  have u: "units_ok (mc_env opts) k ?es"
    using ok book_found [OF _ k(1)] new find_rec_key [OF k(1)] by (auto simp: session_ok_def session_book_def)
  have "?es \<noteq> []" using assms(3) by (force simp: issued_by_def filter_empty_conv)
  then show ?thesis using issued_within [OF u] u k new by (auto simp: key_for_session_def units_ok_def)
qed

lemma session_spends_within_policy_witness:
  "\<exists>(k :: voucher_key) c. vk_channel k = Some c \<and> vk_lastCumulative k = 250 \<and> vk_lastCumulative k \<le> bc_deposit c"
proof -
  obtain kp w v where w: "(mpp_step demo_pay_opts)\<^sup>*\<^sup>* (demo_session kp) w" "w_signed w = [(''id1'', 25, True, v)]"
    using demo_session_pays by blast
  have "''id1'' \<in> fst ` set (w_signed w)" by (simp add: w(2))
  from session_spends_within_policy [OF w(1) demo_session_ok(3) this]
  obtain k :: voucher_key and c where "vk_channel k = Some c" "vk_lastCumulative k \<le> bc_deposit c"
    "vk_lastCumulative k = mp_amount (mc_policy demo_pay_opts) * sum_list (map fst (issued_by ''id1'' (w_signed w)))" by blast
  then show ?thesis
    by (intro exI [of _ k] exI [of _ c]) (simp add: w(2) demo_pay_opts_def demo_mpp_opts_def demo_mpp_policy_def)
qed

text \<open>
  C28: what a wallet's opening transaction can be: one is handed to the server only for a challenge
  that has not expired and asks for the policy's mint, recipient and price, a long enough grace
  period and a deposit the policy covers; its program is the one the deployment check trusts; it
  carries the wallet's signature, opens with the channel instruction built for the policy's deposit
  and the new key, and holds nothing else but guard instructions.  The new key can sign for the
  policy's price, within its limits, to its recipient.
\<close>

theorem opening_within_policy:
  assumes "open_session opts t request c ow s = (Inr tx, s')"
  shows "\<exists>r trusted mintAcc created channelId signed' built got wanted.
    readSessionRequest c = Inr r \<and> (\<forall>e. ch_expiresAt c = Some e \<longrightarrow> ow_challenge_ms ow < e) \<and>
    sr_currency r = mp_mint (mc_policy opts) \<and> sr_recipient r = mp_recipient (mc_policy opts) \<and>
    sr_amount r = mp_amount (mc_policy opts) \<and> or_else (mp_minimumGrace (mc_policy opts)) 3600 \<le> sr_gracePeriod r \<and>
    sr_minimumDeposit r \<le> mp_deposit (mc_policy opts) \<and>
    assertTrustedChannelProgram (mc_env opts) (mr_rpc (ow_rpc ow)) (sr_cluster r) (mc_trust opts) = Inr trusted \<and>
    sr_channelProgram r = tp_address trusted \<and>
    (let i = open_input opts r (tp_address trusted) mintAcc (vk_address created) (ow_salt ow) in
       ci_deposit i = mp_deposit (mc_policy opts) \<and> ci_payee i = mp_recipient (mc_policy opts) \<and>
       tx = s64_encode (mc_env opts) signed' \<and> parseSolanaTransaction (mc_env opts) signed' = Inr got \<and>
       buildOpenChannelTransaction (mc_env opts) i = Inr built \<and>
       parseSolanaTransaction (mc_env opts) built = Inr wanted \<and>
       same_instruction (hd (t_instructions got)) (hd (t_instructions wanted)) \<and>
       (\<forall>ix \<in> set (drop 1 (t_instructions got)). pi_program ix = lighthouse_program) \<and>
       verifySolanaSignature (mc_env opts) got (mc_signer opts)) \<and>
    vp_pricePerUnit (vk_policy created) = mp_amount (mc_policy opts) \<and>
    vp_maxCumulative (vk_policy created) = mp_maxCumulative (mc_policy opts) \<and>
    vp_payee (vk_policy created) = mp_recipient (mc_policy opts) \<and>
    active_obj s' = Some (opened_obj opts c r (tp_address trusted) mintAcc created channelId (ow_salt ow) request)"
proof -
  obtain r program mintAcc created keys channelId signed' where
    t: "session_terms opts c (ow_rpc ow) (ow_challenge_ms ow) (ow_expiry_ms ow) = Inr (r, program, mintAcc)"
    and k: "vk_create (mc_env opts) (mc_keys opts) (session_voucher_policy opts r program) (ow_entropy ow) (ms_keys s) =
      Inr (created, keys)"
    and v: "verifySignedChannelOpen (mc_env opts) signed' (open_input opts r program mintAcc (vk_address created) (ow_salt ow)) =
      Inr tx"
    and s': "s' = next_task t (OpenSent (ms_next s) (vk_id created) (open_binding opts r channelId (ow_salt ow)))
      (install_session (opened_obj opts c r program mintAcc created channelId (ow_salt ow) request) (s\<lparr>ms_keys := keys\<rparr>))"
    using open_session_Inr [OF assms] by blast
  note f = session_terms_Inr [OF t]
  obtain trusted where p: "assertTrustedChannelProgram (mc_env opts) (mr_rpc (ow_rpc ow)) (sr_cluster r) (mc_trust opts) =
      Inr trusted" "program = tp_address trusted" using f by blast
  have pol: "vk_policy created = session_voucher_policy opts r program" by (rule created_policy [OF k])
  have act: "active_obj s' = Some (opened_obj opts c r program mintAcc created channelId (ow_salt ow) request)"
    by (simp add: s' active_obj_def task_simps)
  obtain built wanted got where
    "buildOpenChannelTransaction (mc_env opts) (open_input opts r program mintAcc (vk_address created) (ow_salt ow)) = Inr built"
    "parseSolanaTransaction (mc_env opts) built = Inr wanted" "parseSolanaTransaction (mc_env opts) signed' = Inr got"
    "tx = s64_encode (mc_env opts) signed'" "same_instruction (hd (t_instructions got)) (hd (t_instructions wanted))"
    "\<forall>ix \<in> set (drop 1 (t_instructions got)). pi_program ix = lighthouse_program"
    "verifySolanaSignature (mc_env opts) got (mc_signer opts)"
    using verifySignedChannelOpen_Inr [OF v] by (auto simp: open_input_def)
  with f p pol act show ?thesis
    by (intro exI [of _ r] exI [of _ trusted] exI [of _ mintAcc] exI [of _ created] exI [of _ channelId] exI [of _ signed']
        exI [of _ built] exI [of _ got] exI [of _ wanted])
      (simp add: Let_def open_input_def session_voucher_policy_def)
qed

lemma opening_within_policy_witness:
  "\<exists>(s :: mpp_state) ob. active_obj s = Some ob \<and> mo_deposit (so_channel ob) = 800 \<and> so_keyId ob \<noteq> None"
proof -
  obtain tx s where "open_session demo_mpp_opts 0 ''GET /'' demo_mpp_challenge demo_opening demo_waiting = (Inr tx, s)"
    using demo_opens by blast
  from opening_within_policy [OF this] obtain r program mintAcc created channelId where
    "active_obj s = Some (opened_obj demo_mpp_opts demo_mpp_challenge r program mintAcc created channelId (ow_salt demo_opening) ''GET /'')"
    by blast
  then show ?thesis
    by (intro exI [of _ s]) (simp add: opened_obj_def opened_channel_def demo_mpp_opts_def demo_mpp_policy_def)
qed

text \<open>
  A delayed close owns only its channel: when a close or a forced close of one channel is answered
  after the session moved on to another, the other one stays active and listed, with its key and its
  last voucher, and every other channel stays listed.
\<close>

lemma delayed_close_keeps_replacement:
  assumes "(mpp_step opts)\<^sup>*\<^sup>* w w'" "listed_ok (w_state w)" "ms_active (w_state w') = Some current" "current \<noteq> ref"
    and "close_answered t ref kid v answer (w_state w') = (r, s) \<or>
      force_answered opts t ref sb blockhash sign send (w_state w') = (r', s)"
  shows "ms_active s = Some current \<and> current \<in> set (ms_channels s) \<and> active_obj s = active_obj (w_state w') \<and>
    set (ms_channels (w_state w')) \<subseteq> insert ref (set (ms_channels s))"
proof -
  have "listed_ok (w_state w')" by (rule run_listed [OF assms(1,2)])
  then have "current \<in> set (ms_channels (w_state w'))" using assms(3) by (auto simp: listed_ok_def)
  moreover have "\<exists>b a. s = end_task t b (w_state w') \<or> s = end_task t b (forget_channel ref ((w_state w')\<lparr>ms_keys := a\<rparr>))"
    using assms(5) close_answered_cases force_answered_cases by meson
  ultimately show ?thesis using assms(3,4)
    by (auto simp: task_simps active_obj_def forget_channel_def in_set_remove1) (metis in_set_remove1)
qed

lemma delayed_close_keeps_replacement_witness:
  "\<exists>s :: mpp_state. ms_active s = Some 0 \<and> 0 \<in> set (ms_channels s)"
proof -
  obtain kp w v where w: "(mpp_step demo_pay_opts)\<^sup>*\<^sup>* (demo_session kp) w" "ms_active (w_state w) = Some 0"
    using demo_session_pays by blast
  obtain r s where "close_answered 1 7 ''id1'' wv (NoResponse (fail ''offline'')) (w_state w) = (r, s)" for wv
    by (cases "map_of (ms_objs (w_state w)) 7") (auto simp: close_answered_def paid_def)
  note answer = this
  have "0 \<noteq> (7 :: nat)" by simp
  from delayed_close_keeps_replacement [OF w(1) demo_session_ok(2) w(2) this disjI1, OF answer] show ?thesis by blast
qed

end
