(* ===== verification/Findings.thy ===== *)
theory Findings
  imports AuthzListing Scenario MppSafety
begin

text \<open>
  Behaviours of the code that differ from what its documents or its own types say, each shown on a
  concrete input of the model.
\<close>

section \<open>Native value carried by a token transfer\<close>

text \<open>
  An authorization with a token grant and a native grant, both for one recipient, and its compiled
  scope.  A token transfer may carry native value: it goes to the token contract, which is no
  recipient, and the period limit of the native coin is not applied to it, for \<open>periodUsageFor\<close>
  looks at the token's limit only.  \<open>evaluateSpend\<close> refuses both.
\<close>

definition native_demo_grant :: grant where
  "native_demo_grant = \<lparr>g_asset = ''eip155:1/slip44:60'', recipients = [demo_payee], maxPerPayment = 40,
     maxTotal = 100, maxCount = Some 5, period = Some \<lparr>p_amount = 60, p_seconds = 3600, p_start = 1000\<rparr>,
     g_rails = [''transfer'']\<rparr>"

definition two_grants :: authorization_doc where
  "two_grants = demo_doc\<lparr>grants := [demo_grant, native_demo_grant]\<rparr>"

definition two_grants_scope :: session_scope where
  "two_grants_scope = compiled_evm_scope toy_env two_grants 1 AsOffchain [demo_grant, native_demo_grant]"

definition native_request :: "string \<Rightarrow> int \<Rightarrow> props" where
  "native_request to spent = spend_request ''eip155:1/slip44:60'' to 40 ''transfer'' 2000 spent 1 (Some spent)"

lemma token_call_moves_native_value:
  "compileEvmSessionScope toy_env (authorization_js two_grants) 1 False AsOffchain = Inr (two_grants_scope, Device)"
  "checkScopeAgainstTx default_config two_grants_scope (demo_counters\<lparr>c_value := 40, c_count := 1\<rparr>)
     (demo_transfer\<lparr>tx_value := Some ''40''\<rparr>) 2000 =
   Inr \<lparr>remainingGas = None, remainingValue = Some 20, remainingTxCount = Some 3\<rparr>"
  "evaluateSpend toy_env (authorization_js two_grants) (JObj (native_request AuthzSpend.demo_token 40)) =
     Inl RecipientNotAllowed"
  "evaluateSpend toy_env (authorization_js two_grants) (JObj (native_request demo_payee 40)) = Inl PeriodLimitExceeded"
  by code_simp+

section \<open>The preview of a scope check\<close>

text \<open>
  \<open>checkSessionScope\<close> leaves the period usage of the record out of the check, so it answers
  that a payment is allowed which signing refuses.
\<close>

definition period_used :: counters where
  "period_used = demo_counters\<lparr>c_periods := Some [(AuthzSpend.demo_token, \<lparr>periodIndex = 0, periodSpent = 60\<rparr>)]\<rparr>"

lemma preview_ignores_periods:
  "case checkScopeAgainstTx default_config two_grants_scope (period_used\<lparr>c_periods := None\<rparr>) demo_transfer 2000 of
     Inl _ \<Rightarrow> False | Inr _ \<Rightarrow> True"
  "case checkScopeAgainstTx default_config two_grants_scope period_used demo_transfer 2000 of Inl _ \<Rightarrow> True | Inr _ \<Rightarrow> False"
  by code_simp+

section \<open>Calls that waited for an opening\<close>

text \<open>
  Two calls wait while the first request of a session is answered.  The answer is not 402, so no
  channel was opened; both waiting calls then send their first request, and neither is the opening
  one.  Each can be challenged and open a channel: \<open>active\<close> becomes the last of them, and the deposit
  of the other is in a channel no call of the client reaches.
\<close>

definition three_calls :: "mpp_error + mpp_state" where
  "three_calls =
     andThen (session_fetch ''a'' None (initial_mpp no_keys)) (\<lambda>s.
     andThen (session_fetch ''b'' None s) (\<lambda>s.
     andThen (session_fetch ''c'' None s) (\<lambda>s.
     andThen (resume_waiting 1 (end_task 0 True s)) (resume_waiting 2))))"

lemma waiting_calls_open_twice:
  "\<exists>s. three_calls = Inr s \<and> ms_tasks s = [(2, FirstRequest ''c''), (1, FirstRequest ''b'')] \<and> ms_opening s = None"
  "open_session opts t request c ow s = (Inr tx, s') \<Longrightarrow>
     ms_active s' = Some (ms_next s) \<and> ms_channels s' = ms_channels s @ [ms_next s]"
proof -
  show "\<exists>s. three_calls = Inr s \<and> ms_tasks s = [(2, FirstRequest ''c''), (1, FirstRequest ''b'')] \<and> ms_opening s = None"
    by (simp add: three_calls_def session_fetch_def perform_fetch_def resume_waiting_def active_obj_def add_task_def
        end_task_def next_task_def initial_mpp_def)
  show "ms_active s' = Some (ms_next s) \<and> ms_channels s' = ms_channels s @ [ms_next s]"
    if "open_session opts t request c ow s = (Inr tx, s')"
    using open_session_Inr [OF that] by (auto simp: task_simps)
qed

end
