(* ===== verification/MppRequests.thy ===== *)
theory MppRequests
  imports MppWire TypedData SolanaKeys SolanaChannel
begin

text \<open>
  The charge requests of packages/payments-mpp/src/evm-charge.ts and solana-charge.ts: their readers,
  which the client and the server share, and the client's choice of the first challenge it can pay.
\<close>

section \<open>Data\<close>

record token_domain =
  td_chainId :: int
  td_address :: string
  td_name :: string
  td_version :: string

definition usdc_domains :: "token_domain list" where
  "usdc_domains =
     [\<lparr>td_chainId = 1, td_address = ''0xA0b86991c6218b36c1d19D4a2e9Eb0cE3606eB48'', td_name = ''USD Coin'', td_version = ''2''\<rparr>,
      \<lparr>td_chainId = 11155111, td_address = ''0x1c7D4B196Cb0C7B01d743Fbc6116a902379C7238'', td_name = ''USDC'', td_version = ''2''\<rparr>,
      \<lparr>td_chainId = 8453, td_address = ''0x833589fCD6eDb6E08f4c7C32D4f71b54bdA02913'', td_name = ''USD Coin'', td_version = ''2''\<rparr>,
      \<lparr>td_chainId = 84532, td_address = ''0x036CbD53842c5426634e7929541eC2318f3dCF7e'', td_name = ''USDC'', td_version = ''2''\<rparr>,
      \<lparr>td_chainId = 42161, td_address = ''0xaf88d065e77c8cC2239327C5EDb3A432268e5831'', td_name = ''USD Coin'', td_version = ''2''\<rparr>,
      \<lparr>td_chainId = 10, td_address = ''0x0b2C639c533813f4Aa9D7837CAf62653d097Ff85'', td_name = ''USD Coin'', td_version = ''2''\<rparr>,
      \<lparr>td_chainId = 137, td_address = ''0x3c499c542cEF5E3811e1192ce70d8cC03d5c3359'', td_name = ''USD Coin'', td_version = ''2''\<rparr>]"

record evm_request =
  ev_amount :: string
  ev_currency :: string
  ev_recipient :: string
  ev_chainId :: int
  ev_externalId :: "string option"

record solana_request =
  so_amount :: string
  so_currency :: string
  so_recipient :: string
  so_network :: string
  so_decimals :: int
  so_tokenProgram :: "string option"
  so_feePayerKey :: "string option"
  so_recentBlockhash :: "string option"
  so_externalId :: "string option"

section \<open>Readers\<close>

text \<open>\<open>String(v)\<close>, for the messages that repeat a value.\<close>

fun js_text :: "js_runtime \<Rightarrow> jsval \<Rightarrow> string" where
  "js_text rt JUndefined = ''undefined''"
| "js_text rt JNull = ''null''"
| "js_text rt (JBool b) = (if b then ''true'' else ''false'')"
| "js_text rt (JInt n) = (if safe_integer n then show_int n else rt_number_text rt n)"
| "js_text rt (JFloat t) = t"
| "js_text rt (JBig n) = show_int n"
| "js_text rt (JStr s) = s"
| "js_text rt (JArr vs) = join_texts (map (\<lambda>v. if v = JUndefined \<or> v = JNull then [] else js_text rt v) vs)"
| "js_text rt (JObj ps) = ''[object Object]''"

text \<open>A string value that satisfies a condition.\<close>

fun str_where :: "(string \<Rightarrow> bool) \<Rightarrow> jsval \<Rightarrow> bool" where
  "str_where P (JStr s) = P s"
| "str_where P _ = False"

text \<open>\<open>BigInt(s)\<close> of a text the decimal expression has accepted.\<close>

definition dec_value :: "string \<Rightarrow> int" where
  "dec_value s = (case bigint_of s of None \<Rightarrow> 0 | Some n \<Rightarrow> n)"

definition splits_bad :: "jsval \<Rightarrow> bool" where
  "splits_bad v \<longleftrightarrow> v \<noteq> JUndefined \<and> v \<noteq> JArr []"

definition evm_request_refusal :: "props \<Rightarrow> string option" where
  "evm_request_refusal r =
     (let d = props_of (field ''methodDetails'' r) in first_some
       [throw_if (\<not> str_where canonical_decimal (field ''amount'' r)) ''amount is not a decimal integer string'',
        throw_if (let v = dec_value (str_of (field ''amount'' r)) in v = 0 \<or> v > uint256_max)
          ''amount is not a positive uint256'',
        throw_if (\<not> str_where (hex_literal 40) (field ''currency'' r)) ''currency is not a token address'',
        throw_if (\<not> str_where (hex_literal 40) (field ''recipient'' r)) ''recipient is not an EVM address'',
        throw_if (\<not> isRecord (field ''methodDetails'' r)) ''methodDetails is missing'',
        throw_if (\<not> safe_where (\<lambda>n. 0 < n) (field ''chainId'' d)) ''methodDetails.chainId is not a positive integer'',
        throw_if (JStr ''authorization'' \<notin> set (items_of (field ''credentialTypes'' d)))
          ''the challenge does not accept an EIP-3009 authorization'',
        throw_if (splits_bad (field ''splits'' d)) ''payment splits are not supported'',
        throw_if (field ''externalId'' r \<noteq> JUndefined \<and> \<not> is_str (field ''externalId'' r)) ''externalId is not a string''])"

definition readEvmRequest :: "props \<Rightarrow> string + evm_request" where
  "readEvmRequest r =
     (case evm_request_refusal r of
        Some why \<Rightarrow> Inl why
      | None \<Rightarrow> Inr
          \<lparr>ev_amount = str_of (field ''amount'' r), ev_currency = str_of (field ''currency'' r),
           ev_recipient = str_of (field ''recipient'' r),
           ev_chainId = int_of (field ''chainId'' (props_of (field ''methodDetails'' r))),
           ev_externalId = defined str_of (field ''externalId'' r)\<rparr>)"

definition clusters :: "(string \<times> string) list" where
  "clusters = [(''mainnet'', solana_mainnet), (''devnet'', solana_devnet)]"

text \<open>\<open>const { network = "mainnet" } = methodDetails\<close>.\<close>

definition request_network :: "props \<Rightarrow> jsval" where
  "request_network d = (if field ''network'' d = JUndefined then JStr ''mainnet'' else field ''network'' d)"

definition solana_details_refusal :: "js_runtime \<Rightarrow> string list \<Rightarrow> props \<Rightarrow> string option" where
  "solana_details_refusal rt networks d = first_some
     [throw_if (request_network d \<noteq> JStr ''mainnet'' \<and> request_network d \<noteq> JStr ''devnet'')
        (''network '' @ js_text rt (request_network d) @ '' is not supported''),
      throw_if (str_of (request_network d) \<notin> set networks)
        (''network '' @ str_of (request_network d) @ '' is not in the allowed list''),
      throw_if (\<not> integer_where (\<lambda>n. 0 \<le> n \<and> n \<le> 9) (field ''decimals'' d)) ''methodDetails.decimals is not 0 to 9'',
      throw_if (field ''tokenProgram'' d \<notin> {JUndefined, JStr token_program, JStr token2022_program})
        ''methodDetails.tokenProgram is not a token program'',
      throw_if (field ''feePayer'' d \<notin> {JUndefined, JBool True, JBool False}) ''methodDetails.feePayer is not a boolean'',
      throw_if (if field ''feePayer'' d = JBool True then \<not> str_where sol_address (field ''feePayerKey'' d)
          else field ''feePayerKey'' d \<noteq> JUndefined)
        ''methodDetails.feePayerKey does not match feePayer'',
      throw_if (splits_bad (field ''splits'' d)) ''payment splits are not supported'',
      throw_if (field ''recentBlockhash'' d \<noteq> JUndefined \<and> \<not> str_where sol_address (field ''recentBlockhash'' d))
        ''methodDetails.recentBlockhash is not a blockhash'']"

definition external_id_ok :: "string \<Rightarrow> bool" where
  "external_id_ok s \<longleftrightarrow> s \<noteq> [] \<and> length (utf8 s) \<le> 566"

definition solana_request_refusal :: "js_runtime \<Rightarrow> string list \<Rightarrow> props \<Rightarrow> string option" where
  "solana_request_refusal rt networks r = first_some
     [throw_if (\<not> str_where canonical_decimal (field ''amount'' r)) ''amount is not a decimal integer string'',
      throw_if (let v = dec_value (str_of (field ''amount'' r)) in v = 0 \<or> v > u64_max) ''amount is not a positive u64'',
      throw_if (field ''currency'' r = JStr ''sol'') ''native SOL is not supported'',
      throw_if (\<not> str_where sol_address (field ''currency'' r)) ''currency is not a mint address'',
      throw_if (\<not> str_where sol_address (field ''recipient'' r)) ''recipient is not a Solana address'',
      throw_if (field ''externalId'' r \<noteq> JUndefined \<and> \<not> str_where external_id_ok (field ''externalId'' r))
        ''externalId is not a 1 to 566 byte string'',
      throw_if (\<not> isRecord (field ''methodDetails'' r)) ''methodDetails is missing'',
      solana_details_refusal rt networks (props_of (field ''methodDetails'' r))]"

definition both_networks :: "string list" where "both_networks = [''mainnet'', ''devnet'']"

definition readSolanaRequest :: "js_runtime \<Rightarrow> string list \<Rightarrow> props \<Rightarrow> string + solana_request" where
  "readSolanaRequest rt networks r =
     (case solana_request_refusal rt networks r of
        Some why \<Rightarrow> Inl why
      | None \<Rightarrow> let d = props_of (field ''methodDetails'' r) in Inr
          \<lparr>so_amount = str_of (field ''amount'' r), so_currency = str_of (field ''currency'' r),
           so_recipient = str_of (field ''recipient'' r),
           so_network = or_nil (map_of clusters (str_of (request_network d))),
           so_decimals = int_of (field ''decimals'' d),
           so_tokenProgram = defined str_of (field ''tokenProgram'' d),
           so_feePayerKey = (if field ''feePayer'' d = JBool True then Some (str_of (field ''feePayerKey'' d)) else None),
           so_recentBlockhash = defined str_of (field ''recentBlockhash'' d),
           so_externalId = defined str_of (field ''externalId'' r)\<rparr>)"

section \<open>The client's choice\<close>

text \<open>\<open>now\<close> is a field here: the time the call reads or is given.\<close>

record select_options =
  se_chainIds :: "int list option"
  se_tokenDomains :: "token_domain list option"
  se_now :: int
  se_evm :: bool
  se_solana :: bool
  se_solanaNetworks :: "string list option"

definition domain_matches :: "evm_request \<Rightarrow> token_domain \<Rightarrow> bool" where
  "domain_matches r d \<longleftrightarrow> td_chainId d = ev_chainId r \<and> lower (td_address d) = lower (ev_currency r)"

definition findDomain :: "evm_request \<Rightarrow> token_domain list option \<Rightarrow> token_domain option" where
  "findDomain r domains =
     (case find (domain_matches r) (or_nil domains) of
        Some d \<Rightarrow> Some d
      | None \<Rightarrow> find (domain_matches r) usdc_domains)"

datatype selected_charge =
    SelectedEvm wire_challenge evm_request token_domain
  | SelectedSolana wire_challenge solana_request

definition evm_charge_of :: "select_options \<Rightarrow> wire_challenge \<Rightarrow> string + selected_charge" where
  "evm_charge_of opts c =
     (if \<not> se_evm opts then Inl ''no EVM signer is configured''
      else andThen (readEvmRequest (wc_request c)) (\<lambda>r.
        if (case se_chainIds opts of None \<Rightarrow> False | Some ids \<Rightarrow> ev_chainId r \<notin> set ids) then
          Inl (''chain '' @ show_int (ev_chainId r) @ '' is not in the allowed list'')
        else case findDomain r (se_tokenDomains opts) of
          None \<Rightarrow> Inl (''no EIP-712 domain is known for token '' @ ev_currency r @ '' on chain '' @ show_int (ev_chainId r))
        | Some d \<Rightarrow> Inr (SelectedEvm c r d)))"

text \<open>
  \<open>unsupportedReason\<close> and what \<open>selectCharge\<close> builds when it is null, in one pass over the same
  readers: the reason, or the charge.
\<close>

definition charge_of :: "js_runtime \<Rightarrow> wire_challenge \<Rightarrow> select_options \<Rightarrow> string + selected_charge" where
  "charge_of rt c opts =
     (let p = wc_params c in
      if cp_method p \<noteq> ''evm'' \<and> cp_method p \<noteq> ''solana'' then Inl (''method '' @ cp_method p @ '' is not supported'')
      else if cp_intent p \<noteq> ''charge'' then Inl (''intent '' @ cp_intent p @ '' is not supported'')
      else if (case wc_expiresAt c of None \<Rightarrow> False | Some e \<Rightarrow> e div 1000 \<le> se_now opts div 1000) then
        Inl ''the challenge has expired''
      else if cp_method p = ''solana'' then
        (if \<not> se_solana opts then Inl ''no Solana signer is configured''
         else andThen (readSolanaRequest rt (or_else (se_solanaNetworks opts) both_networks) (wc_request c))
           (\<lambda>r. Inr (SelectedSolana c r)))
      else evm_charge_of opts c)"

definition unsupportedReason :: "js_runtime \<Rightarrow> wire_challenge \<Rightarrow> select_options \<Rightarrow> string option" where
  "unsupportedReason rt c opts = (case charge_of rt c opts of Inl why \<Rightarrow> Some why | Inr _ \<Rightarrow> None)"

fun join_reasons :: "string list \<Rightarrow> string" where
  "join_reasons [] = []"
| "join_reasons [r] = r"
| "join_reasons (r # rs) = r @ ''; '' @ join_reasons rs"

fun select_loop ::
  "js_runtime \<Rightarrow> select_options \<Rightarrow> string list \<Rightarrow> wire_challenge list \<Rightarrow> mpp_error + selected_charge" where
  "select_loop rt opts reasons [] =
     Inl (MppError NoAcceptableChallenge (''No payable challenge: '' @
       (if join_reasons reasons = [] then ''none offered'' else join_reasons reasons) @ ''.''))"
| "select_loop rt opts reasons (c # cs) =
     (case charge_of rt c opts of
        Inl why \<Rightarrow> select_loop rt opts (reasons @ [why]) cs
      | Inr x \<Rightarrow> Inr x)"

definition selectCharge ::
  "js_runtime \<Rightarrow> wire_challenge list \<Rightarrow> select_options \<Rightarrow> rejected_challenge list \<Rightarrow> mpp_error + selected_charge" where
  "selectCharge rt cs opts rejected = select_loop rt opts (map rj_reason rejected) cs"

text \<open>The choice is the first usable challenge in the server's order.\<close>

lemma select_first:
  "selectCharge rt cs opts rejected = Inr x \<longleftrightarrow>
     (\<exists>ps c qs. cs = ps @ c # qs \<and> charge_of rt c opts = Inr x \<and> (\<forall>p \<in> set ps. unsupportedReason rt p opts \<noteq> None))"
proof -
  let ?Q = "\<lambda>cs ps c qs. cs = ps @ c # qs \<and> charge_of rt c opts = Inr x \<and> (\<forall>p \<in> set ps. unsupportedReason rt p opts \<noteq> None)"
  have "select_loop rt opts rs cs = Inr x \<longleftrightarrow> (\<exists>ps c qs. ?Q cs ps c qs)" for rs
  proof (induction cs arbitrary: rs)
    case (Cons d cs)
    show ?case
    proof (cases "charge_of rt d opts")
      case (Inl why)
      then have "?Q (d # cs) ps c qs \<longleftrightarrow> (\<exists>ps'. ps = d # ps' \<and> ?Q cs ps' c qs)" for ps c qs
        by (cases ps) (auto simp: unsupportedReason_def)
      then show ?thesis using Inl Cons.IH by simp blast
    next
      case (Inr y)
      then have "?Q (d # cs) ps c qs \<longleftrightarrow> ps = [] \<and> c = d \<and> qs = cs \<and> y = x" for ps c qs
        by (cases ps) (auto simp: unsupportedReason_def)
      then show ?thesis using Inr by simp
    qed
  qed simp
  then show ?thesis by (simp add: selectCharge_def)
qed

section \<open>What a reader guarantees\<close>

lemma str_where_iff: "str_where P v \<longleftrightarrow> (\<exists>s. v = JStr s \<and> P s)"
  by (cases v) auto

lemma dec_value_canonical: "canonical_decimal s \<Longrightarrow> \<exists>n. dec_value s = int n \<and> show_nat n = s \<and> bigint_of s = Some (int n)"
  using parse_canonical_decimal [of s] bigint_of_decimal [of s] by (auto simp: dec_value_def)

definition evm_request_ok :: "evm_request \<Rightarrow> bool" where
  "evm_request_ok r \<longleftrightarrow>
     canonical_decimal (ev_amount r) \<and> 0 < dec_value (ev_amount r) \<and> dec_value (ev_amount r) \<le> uint256_max \<and>
     hex_literal 40 (ev_currency r) \<and> hex_literal 40 (ev_recipient r) \<and> 0 < ev_chainId r \<and> safe_integer (ev_chainId r)"

lemma readEvmRequest_Inr:
  "readEvmRequest p = Inr r \<longleftrightarrow> evm_request_refusal p = None \<and>
     r = \<lparr>ev_amount = str_of (field ''amount'' p), ev_currency = str_of (field ''currency'' p),
          ev_recipient = str_of (field ''recipient'' p),
          ev_chainId = int_of (field ''chainId'' (props_of (field ''methodDetails'' p))),
          ev_externalId = defined str_of (field ''externalId'' p)\<rparr>"
  by (auto simp: readEvmRequest_def split: option.splits)

lemma evm_refusal_None:
  assumes "evm_request_refusal p = None"
  shows "\<exists>a t q n. field ''amount'' p = JStr a \<and> canonical_decimal a \<and> dec_value a \<noteq> 0 \<and> dec_value a \<le> uint256_max \<and>
    field ''currency'' p = JStr t \<and> hex_literal 40 t \<and> field ''recipient'' p = JStr q \<and> hex_literal 40 q \<and>
    field ''chainId'' (props_of (field ''methodDetails'' p)) = JInt n \<and> safe_integer n \<and> 0 < n"
  using assms by (auto simp: evm_request_refusal_def Let_def str_where_iff safe_where_iff)

lemma readEvmRequest_ok: "readEvmRequest p = Inr r \<Longrightarrow> evm_request_ok r"
  unfolding readEvmRequest_Inr evm_request_ok_def
  by (auto dest!: evm_refusal_None) (use dec_value_canonical in fastforce)

definition solana_request_ok :: "solana_request \<Rightarrow> bool" where
  "solana_request_ok r \<longleftrightarrow>
     canonical_decimal (so_amount r) \<and> 0 < dec_value (so_amount r) \<and> dec_value (so_amount r) \<le> u64_max \<and>
     sol_address (so_currency r) \<and> sol_address (so_recipient r) \<and> 0 \<le> so_decimals r \<and> so_decimals r \<le> 9 \<and>
     (so_network r = solana_mainnet \<or> so_network r = solana_devnet) \<and>
     (\<forall>t. so_tokenProgram r = Some t \<longrightarrow> is_token_program t) \<and>
     (\<forall>k. so_feePayerKey r = Some k \<longrightarrow> sol_address k)"

lemma integer_where_iff: "integer_where P v \<longleftrightarrow> (\<exists>n. v = JInt n \<and> P n)"
  by (cases v) auto

lemma readSolanaRequest_Inr:
  "readSolanaRequest rt ns p = Inr r \<longleftrightarrow> solana_request_refusal rt ns p = None \<and>
     (let d = props_of (field ''methodDetails'' p) in r =
       \<lparr>so_amount = str_of (field ''amount'' p), so_currency = str_of (field ''currency'' p),
        so_recipient = str_of (field ''recipient'' p),
        so_network = or_nil (map_of clusters (str_of (request_network d))),
        so_decimals = int_of (field ''decimals'' d),
        so_tokenProgram = defined str_of (field ''tokenProgram'' d),
        so_feePayerKey = (if field ''feePayer'' d = JBool True then Some (str_of (field ''feePayerKey'' d)) else None),
        so_recentBlockhash = defined str_of (field ''recentBlockhash'' d),
        so_externalId = defined str_of (field ''externalId'' p)\<rparr>)"
  by (auto simp: readSolanaRequest_def Let_def split: option.splits)

lemma solana_refusal_None:
  assumes "solana_request_refusal rt ns p = None"
  shows "\<exists>a t q. field ''amount'' p = JStr a \<and> canonical_decimal a \<and> dec_value a \<noteq> 0 \<and> dec_value a \<le> u64_max \<and>
    field ''currency'' p = JStr t \<and> sol_address t \<and> field ''recipient'' p = JStr q \<and> sol_address q"
    "solana_details_refusal rt ns (props_of (field ''methodDetails'' p)) = None"
  using assms by (auto simp: solana_request_refusal_def Let_def str_where_iff)

lemma solana_details_None:
  assumes "solana_details_refusal rt ns d = None"
  shows "request_network d = JStr ''mainnet'' \<or> request_network d = JStr ''devnet''"
    "\<exists>n. field ''decimals'' d = JInt n \<and> 0 \<le> n \<and> n \<le> 9"
    "field ''tokenProgram'' d \<in> {JUndefined, JStr token_program, JStr token2022_program}"
    "field ''feePayer'' d = JBool True \<Longrightarrow> \<exists>k. field ''feePayerKey'' d = JStr k \<and> sol_address k"
  using assms by (auto simp: solana_details_refusal_def integer_where_iff str_where_iff)

lemma readSolanaRequest_ok:
  assumes "readSolanaRequest rt ns p = Inr r"
  shows "solana_request_ok r"
proof -
  note h = assms [unfolded readSolanaRequest_Inr Let_def]
  note f = solana_refusal_None [OF h [THEN conjunct1]]
  note d = solana_details_None [OF f(2)]
  have "canonical_decimal (so_amount r) \<and> 0 < dec_value (so_amount r) \<and> dec_value (so_amount r) \<le> u64_max \<and>
     sol_address (so_currency r) \<and> sol_address (so_recipient r)"
    using f(1) h dec_value_canonical by fastforce
  moreover have "0 \<le> so_decimals r \<and> so_decimals r \<le> 9" using d(2) h by auto
  moreover have "so_network r = solana_mainnet \<or> so_network r = solana_devnet" using d(1) h by (auto simp: clusters_def)
  moreover have "so_tokenProgram r = Some t \<Longrightarrow> is_token_program t" for t
    using d(3) h by (auto simp: is_token_program_def)
  moreover have "so_feePayerKey r = Some k \<Longrightarrow> sol_address k" for k
    using d(4) h by (auto split: if_splits)
  ultimately show ?thesis unfolding solana_request_ok_def by blast
qed

end
