(* ===== verification/MppChallenge.thy ===== *)
theory MppChallenge
  imports MppRequests
begin

text \<open>
  packages/payments-mpp/src/server/challenge.ts: the parameters of a challenge, the identifier that
  binds them with HMAC-SHA256, and the header that carries them.  A function that throws a
  \<open>TypeError\<close> returns its message on the left.
\<close>

section \<open>The identifier\<close>

datatype secret = SecretText string | SecretBytes bytes

definition secretBytes :: "secret \<Rightarrow> string + bytes" where
  "secretBytes s =
     (let bs = (case s of SecretText t \<Rightarrow> utf8 t | SecretBytes b \<Rightarrow> b)
      in if length bs < 16 then Inl ''The challenge secret must be at least 16 bytes.'' else Inr bs)"

fun join_bars :: "string list \<Rightarrow> string" where
  "join_bars [] = []"
| "join_bars [s] = s"
| "join_bars (s # ss) = s @ CHR ''|'' # join_bars ss"

definition challengeBindingInput :: "challenge_params \<Rightarrow> string" where
  "challengeBindingInput p =
     join_bars ([cp_realm p, cp_method p, cp_intent p, cp_request p, or_nil (cp_expires p), or_nil (cp_digest p)] @
       (case cp_header p of None \<Rightarrow> [] | Some h \<Rightarrow> [h]) @ [or_nil (cp_opaque p)])"

definition challengeId :: "crypto \<Rightarrow> challenge_params \<Rightarrow> secret \<Rightarrow> string + string" where
  "challengeId c p s =
     andThen (secretBytes s) (\<lambda>key. Inr (base64Url (hmac_sha256 c key (utf8 (challengeBindingInput p)))))"

text \<open>The loop of \<open>timingSafeEqual\<close> is that of \<open>equal_bytes\<close>: every pair of bytes is compared.\<close>

definition timingSafeEqual :: "string \<Rightarrow> string \<Rightarrow> bool" where
  "timingSafeEqual a b = equal_bytes (utf8 a) (utf8 b)"

section \<open>Building a challenge\<close>

datatype expires_input = ExpiresText string | ExpiresDate "int option"

record challenge_input =
  ci_realm :: string
  ci_method :: string
  ci_intent :: string
  ci_request :: jsval
  ci_expires :: "expires_input option"
  ci_secret :: secret
  ci_digest :: "string option"
  ci_description :: "string option"
  ci_header :: "string option"
  ci_opaque :: "jsval option"

definition printable :: "string \<Rightarrow> bool" where
  "printable s \<longleftrightarrow> (\<forall>c \<in> set s. 32 \<le> ord c \<and> ord c \<le> 126)"

definition quotable :: "string \<Rightarrow> string \<Rightarrow> string + string" where
  "quotable name v = (if printable v then Inr v else Inl (name @ '' must be printable ASCII.''))"

definition quotable_opt :: "string \<Rightarrow> string option \<Rightarrow> string option" where
  "quotable_opt name v =
     (case v of None \<Rightarrow> None | Some s \<Rightarrow> throw_if (\<not> printable s) (name @ '' must be printable ASCII.''))"

definition readServerSolanaRequest :: "js_runtime \<Rightarrow> props \<Rightarrow> string + solana_request" where
  "readServerSolanaRequest rt r =
     andThen (readSolanaRequest rt both_networks r) (\<lambda>q.
       if or_nil (so_tokenProgram q) = [] then Inl ''methodDetails.tokenProgram is missing'' else Inr q)"

definition read_expires :: "js_runtime \<Rightarrow> expires_input option \<Rightarrow> string + string option" where
  "read_expires rt e =
     (case e of
        None \<Rightarrow> Inr None
      | Some (ExpiresDate None) \<Rightarrow> Inl ''expires is not a valid Date.''
      | Some (ExpiresDate (Some t)) \<Rightarrow> Inr (Some (rt_iso rt t))
      | Some (ExpiresText s) \<Rightarrow>
          if parseRfc3339 rt s = None then Inl ''expires is not an RFC 3339 time.'' else Inr (Some s))"

text \<open>What a chain method demands: the charge intent, an expiry and a request its client accepts.\<close>

definition method_refusal :: "js_runtime \<Rightarrow> challenge_input \<Rightarrow> string option \<Rightarrow> string option" where
  "method_refusal rt input expires =
     (let m = ci_method input in
      if m \<noteq> ''evm'' \<and> m \<noteq> ''solana'' then None
      else first_some
        [throw_if (ci_intent input \<noteq> ''charge'') ''Only charge is supported.'',
         throw_if (expires = None) (''A '' @ m @ '' challenge needs expires.''),
         (let reason = (if m = ''evm'' then (case readEvmRequest (props_of (ci_request input)) of Inl w \<Rightarrow> Some w | Inr _ \<Rightarrow> None)
              else (case readServerSolanaRequest rt (props_of (ci_request input)) of Inl w \<Rightarrow> Some w | Inr _ \<Rightarrow> None))
          in map_option (\<lambda>w. ''The '' @ m @ '' request is refused: '' @ w @ ''.'') reason)])"

definition read_opaque :: "js_runtime \<Rightarrow> jsval option \<Rightarrow> string + string option" where
  "read_opaque rt v =
     (case v of
        None \<Rightarrow> Inr None
      | Some m \<Rightarrow>
          if \<not> string_map m then Inl ''opaque must be a flat string map.''
          else andThen (encodeCanonical rt m) (\<lambda>t. Inr (Some t)))"

text \<open>The throws of \<open>buildChallenge\<close> before and after the expiry is read.\<close>

definition early_refusal :: "challenge_input \<Rightarrow> string option" where
  "early_refusal input = first_some
     [throw_if (\<not> printable (ci_realm input)) ''realm must be printable ASCII.'',
      throw_if (ci_realm input = []) ''realm must not be empty.'',
      throw_if (\<not> method_re (ci_method input)) ''method is not lowercase.'',
      throw_if (\<not> intent_re (ci_intent input)) ''intent is not a token.'',
      throw_if (\<not> isRecord (ci_request input)) ''request must be an object.'']"

definition throw_opt :: "'e option \<Rightarrow> 'e + unit" where
  "throw_opt e = (case e of None \<Rightarrow> Inr () | Some x \<Rightarrow> Inl x)"

lemma throw_opt_Inr [simp]: "throw_opt e = Inr u \<longleftrightarrow> e = None"
  by (auto simp: throw_opt_def split: option.splits)

definition header_refusal :: "string option \<Rightarrow> string option" where
  "header_refusal h =
     throw_if (h \<noteq> None \<and> h \<noteq> Some payment_authorization) (''header may only be '' @ payment_authorization @ ''.'')"

definition buildChallenge :: "js_runtime \<Rightarrow> crypto \<Rightarrow> challenge_input \<Rightarrow> string + challenge_params" where
  "buildChallenge rt c input =
     andThen (throw_opt (early_refusal input)) (\<lambda>_.
     andThen (read_expires rt (ci_expires input)) (\<lambda>expires.
     andThen (throw_opt (method_refusal rt input expires)) (\<lambda>_.
     andThen (throw_opt (header_refusal (ci_header input))) (\<lambda>_.
     andThen (read_opaque rt (ci_opaque input)) (\<lambda>opaque.
     andThen (throw_opt (quotable_opt ''digest'' (ci_digest input))) (\<lambda>_.
     andThen (throw_opt (quotable_opt ''description'' (ci_description input))) (\<lambda>_.
     andThen (encodeCanonical rt (ci_request input)) (\<lambda>request.
     let p = \<lparr>cp_id = [], cp_realm = ci_realm input, cp_method = ci_method input, cp_intent = ci_intent input,
              cp_request = request, cp_expires = expires, cp_digest = ci_digest input,
              cp_description = ci_description input, cp_header = ci_header input, cp_opaque = opaque\<rparr>
     in andThen (challengeId c p (ci_secret input)) (\<lambda>i. Inr (p\<lparr>cp_id := i\<rparr>))))))))))"

section \<open>The header\<close>

definition escape_quoted :: "string \<Rightarrow> string" where
  "escape_quoted v = concat (map (\<lambda>c. if c = CHR 34 \<or> c = CHR 92 then [CHR 92, c] else [c]) v)"

definition format_part :: "string \<Rightarrow> string \<Rightarrow> string" where
  "format_part name v = name @ CHR ''='' # CHR 34 # escape_quoted v @ [CHR 34]"

text \<open>The named parameters that are defined, in the order of the header.\<close>

definition opt_param :: "string \<Rightarrow> string option \<Rightarrow> (string \<times> string) list" where
  "opt_param n v = (case v of None \<Rightarrow> [] | Some s \<Rightarrow> [(n, s)])"

definition param_list :: "challenge_params \<Rightarrow> (string \<times> string) list" where
  "param_list p =
     [(''id'', cp_id p), (''realm'', cp_realm p), (''method'', cp_method p), (''intent'', cp_intent p),
      (''request'', cp_request p)] @
     opt_param ''expires'' (cp_expires p) @ opt_param ''digest'' (cp_digest p) @
     opt_param ''description'' (cp_description p) @ opt_param ''header'' (cp_header p) @
     opt_param ''opaque'' (cp_opaque p)"

definition format_parts :: "(string \<times> string) list \<Rightarrow> string + string list" where
  "format_parts ps = map_throw (\<lambda>(n, v). andThen (quotable n v) (\<lambda>v. Inr (format_part n v))) ps"

fun join_parts :: "string list \<Rightarrow> string" where
  "join_parts [] = []"
| "join_parts [s] = s"
| "join_parts (s # ss) = s @ '', '' @ join_parts ss"

definition formatChallenge :: "challenge_params \<Rightarrow> string + string" where
  "formatChallenge p = andThen (format_parts (param_list p)) (\<lambda>ts. Inr (''Payment '' @ join_parts ts))"

definition createChallenge :: "js_runtime \<Rightarrow> crypto \<Rightarrow> challenge_input \<Rightarrow> string + string" where
  "createChallenge rt c input = andThen (buildChallenge rt c input) formatChallenge"

section \<open>The comparison of identifiers\<close>

lemma timingSafeEqual_iff [simp]: "timingSafeEqual a b \<longleftrightarrow> a = b"
  by (simp add: timingSafeEqual_def utf8_inj)

section \<open>Reading a formatted header back\<close>

lemma quoted_plain:
  "c \<noteq> CHR 34 \<Longrightarrow> c \<noteq> CHR 92 \<Longrightarrow> \<not> quoted_control c \<Longrightarrow> r \<noteq> [] \<Longrightarrow> quoted out (c # r) = quoted (out @ [c]) r"
  by (cases r) auto

lemma quoted_reads_back:
  "printable v \<Longrightarrow> quoted out (escape_quoted v @ CHR 34 # r) = Inr (out @ v, r)"
proof (induction v arbitrary: out)
  case Nil
  then show ?case by (cases r) (simp_all add: escape_quoted_def)
next
  case (Cons c v)
  have pc: "\<not> quoted_control c" "printable v" using Cons.prems by (auto simp: printable_def quoted_control_def)
  have ih: "quoted (out @ [c]) (escape_quoted v @ CHR 34 # r) = Inr (out @ c # v, r)"
    using Cons.IH [OF pc(2), of "out @ [c]"] by simp
  show ?case
  proof (cases "c = CHR 34 \<or> c = CHR 92")
    case True
    then show ?thesis using pc ih by (auto simp: escape_quoted_def)
  next
    case False
    then show ?thesis using pc ih quoted_plain [of c "escape_quoted v @ CHR 34 # r" out] by (simp add: escape_quoted_def)
  qed
qed

definition name_ok :: "string \<Rightarrow> bool" where
  "name_ok n \<longleftrightarrow> n \<noteq> [] \<and> n \<noteq> ''__proto__'' \<and> (\<forall>c \<in> set n. tchar c \<and> lower_char c = c)"

lemma mark_facts: "\<not> tchar CHR ''=''" "\<not> is_ows CHR ''=''" "\<not> is_ows CHR 34" "\<not> is_ows CHR '',''" "is_ows CHR '' ''"
  "\<not> tchar CHR '' ''" "is_separator CHR '',''" "is_separator CHR '' ''"
  by (simp_all add: tchar_def is_ows_def is_separator_def ord_def)

lemma tchar_not_separator: "tchar c \<Longrightarrow> \<not> is_separator c"
  by (auto simp: tchar_def is_separator_def is_ows_def ord_def)

lemma token_name: "\<forall>c \<in> set n. tchar c \<Longrightarrow> token (n @ CHR ''='' # s) = (n, CHR ''='' # s)"
  by (simp add: token_def takeWhile_append2 dropWhile_append2 mark_facts)

definition param_end :: "string \<Rightarrow> bool" where
  "param_end r \<longleftrightarrow> r = [] \<or> hd r = CHR '',''"

lemma skipOws_end: "param_end r \<Longrightarrow> skipOws r = r"
  by (cases r) (auto simp: skipOws_def param_end_def mark_facts)

lemma auth_param_reads_back:
  assumes "name_ok n" "printable v" "param_end r"
  shows "auth_param (format_part n v @ r) = Inr ((n, v), r)"
proof -
  have t: "token (format_part n v @ r) = (n, CHR ''='' # CHR 34 # escape_quoted v @ CHR 34 # r)"
    using assms(1) token_name [of n "CHR 34 # escape_quoted v @ CHR 34 # r"] by (simp add: format_part_def name_ok_def)
  have l: "lower n = n" using assms(1) by (simp add: lower_def name_ok_def map_idI)
  show ?thesis
    by (simp add: auth_param_def Let_def t l skipOws_def mark_facts quoted_reads_back [OF assms(2)])
      (simp add: skipOws_end [OF assms(3), unfolded skipOws_def])
qed

lemma atParam_part: "name_ok n \<Longrightarrow> atParam (format_part n v @ r)"
  using token_name [of n "CHR 34 # escape_quoted v @ CHR 34 # r"]
  by (simp add: atParam_def Let_def format_part_def name_ok_def skipOws_def mark_facts)

lemma part_start: "name_ok n \<Longrightarrow> \<exists>c s. format_part n v @ r = c # s \<and> tchar c"
  by (cases n) (auto simp: format_part_def name_ok_def)

lemma join_parts_Cons:
  "join_parts (t # ts) = t @ (if ts = [] then [] else '', '' @ join_parts ts)"
  by (cases ts) auto

lemma params_read_back:
  assumes "ps \<noteq> []" "\<forall>(n, v) \<in> set ps. name_ok n \<and> printable v" "distinct (map fst (rc_params c @ ps))"
  shows "params_loop c (join_parts (map (\<lambda>(n, v). format_part n v) ps)) = Some (Inr (c\<lparr>rc_params := rc_params c @ ps\<rparr>, []))"
  using assms
proof (induction ps arbitrary: c)
  case (Cons p ps)
  obtain n v where p: "p = (n, v)" by (metis surj_pair)
  have ok: "name_ok n" "printable v" using Cons.prems(2) p by auto
  have add: "add_param c n v = c\<lparr>rc_params := rc_params c @ [(n, v)]\<rparr>"
    using Cons.prems(3) ok p by (auto simp: add_param_def name_ok_def)
  show ?case
  proof (cases ps)
    case Nil
    have "auth_param (format_part n v) = Inr ((n, v), [])"
      using auth_param_reads_back [OF ok, of "[]"] by (simp add: param_end_def)
    then show ?thesis using Nil p add by (simp add: params_loop.simps [of c "format_part n v"])
  next
    case ps: (Cons q qs)
    obtain m w where q: "q = (m, w)" by (metis surj_pair)
    define t where "t = join_parts (map (\<lambda>(n, v). format_part n v) ps)"
    have okm: "name_ok m" using Cons.prems(2) ps q by auto
    obtain u where u: "t = format_part m w @ u" using ps q by (auto simp: t_def join_parts_Cons)
    then obtain d s where ds: "t = d # s" "tchar d" using part_start [OF okm] by metis
    have ap: "auth_param (format_part n v @ '', '' @ t) = Inr ((n, v), '', '' @ t)"
      using auth_param_reads_back [OF ok, of "'', '' @ t"] by (simp add: param_end_def)
    have dw: "dropWhile is_separator ('', '' @ t) = t"
      using ds tchar_not_separator by (simp add: mark_facts)
    have at: "atParam t" "t \<noteq> []" using atParam_part [OF okm, of w u] u ds by auto
    have "params_loop c (format_part n v @ '', '' @ t) = params_loop (add_param c n v) t"
      unfolding params_loop.simps [of c "format_part n v @ '', '' @ t"] ap sum.case prod.case Let_def dw
      using at by simp
    also have "\<dots> = Some (Inr (c\<lparr>rc_params := rc_params c @ p # ps\<rparr>, []))"
      unfolding t_def add using Cons.prems p ps by (subst Cons.IH) auto
    finally show ?thesis using p ps by (simp add: join_parts_Cons t_def)
  qed
qed simp

lemma header_reads_back:
  assumes "ps \<noteq> []" "\<forall>(n, v) \<in> set ps. name_ok n \<and> printable v" "distinct (map fst ps)"
  shows "parseAuthenticate (''Payment '' @ join_parts (map (\<lambda>(n, v). format_part n v) ps)) =
    Some (Inr [\<lparr>rc_scheme = ''Payment'', rc_params = ps, rc_error = None\<rparr>])"
proof -
  define t where "t = join_parts (map (\<lambda>(n, v). format_part n v) ps)"
  obtain n v qs where ps: "ps = (n, v) # qs" using assms(1) by (cases ps) auto
  have ok: "name_ok n" using assms(2) ps by auto
  obtain u where u: "t = format_part n v @ u" using ps by (auto simp: t_def join_parts_Cons)
  then obtain d s where ds: "t = d # s" "tchar d" using part_start [OF ok] by metis
  have P: "\<forall>c \<in> set ''Payment''. tchar c" by (simp add: tchar_def ord_def)
  have tk: "token (''Payment'' @ CHR '' '' # t) = (''Payment'', CHR '' '' # t)"
    unfolding token_def by (subst takeWhile_append2 dropWhile_append2, use P in blast)+ (simp add: mark_facts)
  have sp: "skipOws (CHR '' '' # t) = t"
    using ds tchar_not_separator [OF ds(2)] by (simp add: skipOws_def mark_facts is_separator_def)
  have dw: "dropWhile is_separator (''Payment'' @ CHR '' '' # t) = ''Payment'' @ CHR '' '' # t"
    using tchar_not_separator [of "CHR ''P''"] P by simp
  have pl: "params_loop \<lparr>rc_scheme = ''Payment'', rc_params = [], rc_error = None\<rparr> t =
      Some (Inr (\<lparr>rc_scheme = ''Payment'', rc_params = ps, rc_error = None\<rparr>, []))"
    unfolding t_def using assms by (subst params_read_back) auto
  have at: "atParam t" using atParam_part [OF ok, of v u] unfolding u .
  have ne: "t \<noteq> []" "hd t \<noteq> CHR '',''" using ds mark_facts(7) tchar_not_separator [OF ds(2)] by auto
  have e: "challenges_loop cs [] = Some (Inr cs)" for cs by (simp add: challenges_loop.simps [of cs "[]"])
  have "challenges_loop [] (''Payment'' @ CHR '' '' # t) =
      Some (Inr [\<lparr>rc_scheme = ''Payment'', rc_params = ps, rc_error = None\<rparr>])"
    unfolding challenges_loop.simps [of "[]" "''Payment'' @ CHR '' '' # t"] Let_def dw tk fst_conv snd_conv sp
    using at ne pl e by simp
  then show ?thesis by (simp add: parseAuthenticate_def t_def)
qed

lemma opt_param_facts:
  "map_of (opt_param n v @ r) k = (if k = n \<and> v \<noteq> None then v else map_of r k)"
  "map_of (opt_param n v) k = (if k = n then v else None)"
  "distinct (map fst (opt_param n v @ r)) \<longleftrightarrow> (v = None \<or> n \<notin> set (map fst r)) \<and> distinct (map fst r)"
  "k \<in> set (map fst (opt_param n v @ r)) \<longleftrightarrow> k = n \<and> v \<noteq> None \<or> k \<in> set (map fst r)"
  "distinct (map fst (opt_param n v))" "k \<in> set (map fst (opt_param n v)) \<longleftrightarrow> k = n \<and> v \<noteq> None"
  "set (opt_param n v) \<subseteq> {n} \<times> UNIV"
  by (auto simp: opt_param_def split: option.splits)

lemma opt_param_key: "k \<in> fst ` set (opt_param n v) \<longleftrightarrow> k = n \<and> v \<noteq> None"
  by (auto simp: opt_param_def split: option.splits)

definition param_names :: "string list" where
  "param_names = [''id'', ''realm'', ''method'', ''intent'', ''request'', ''expires'', ''digest'', ''description'', ''header'', ''opaque'']"

lemma known_name_ok: "n \<in> set param_names \<Longrightarrow> name_ok n"
proof -
  have "list_all name_ok param_names" by code_simp
  then show "n \<in> set param_names \<Longrightarrow> name_ok n" by (simp add: list_all_iff)
qed

lemma param_list_facts:
  "distinct (map fst (param_list p))" "\<forall>(n, v) \<in> set (param_list p). name_ok n" "params_of (param_list p) = p"
proof -
  show "distinct (map fst (param_list p))"
    by (simp only: param_list_def append_Cons append_Nil list.map fst_conv distinct.simps opt_param_facts list.set) (simp add: opt_param_key)
  have "set (param_list p) \<subseteq> set param_names \<times> UNIV"
    using opt_param_facts(7) by (fastforce simp: param_list_def param_names_def)
  then show "\<forall>(n, v) \<in> set (param_list p). name_ok n"
    using known_name_ok by blast
  show "params_of (param_list p) = p"
    by (simp add: param_list_def params_of_def opt_param_facts del: map_of_append)
qed

lemma format_parts_Inr:
  "format_parts ps = Inr ts \<longleftrightarrow> (\<forall>(n, v) \<in> set ps. printable v) \<and> ts = map (\<lambda>(n, v). format_part n v) ps"
proof (induction ps arbitrary: ts)
  case (Cons p ps)
  obtain n v where "p = (n, v)" by (metis surj_pair)
  then show ?case using Cons.IH by (auto simp: format_parts_def quotable_def)
qed (auto simp: format_parts_def)

lemma formatted_reads_back:
  assumes "formatChallenge p = Inr header"
  shows "parseAuthenticate header = Some (Inr [\<lparr>rc_scheme = ''Payment'', rc_params = param_list p, rc_error = None\<rparr>])"
proof -
  have h: "\<forall>(n, v) \<in> set (param_list p). printable v"
    "header = ''Payment '' @ join_parts (map (\<lambda>(n, v). format_part n v) (param_list p))"
    using assms by (auto simp: formatChallenge_def format_parts_Inr)
  have ne: "param_list p \<noteq> []" by (simp add: param_list_def)
  have "\<forall>(n, v) \<in> set (param_list p). name_ok n \<and> printable v" using h(1) param_list_facts(2) by blast
  then show ?thesis using header_reads_back [OF ne _ param_list_facts(1)] h(2) by blast
qed

section \<open>What a built challenge contains\<close>

lemma built_challenge:
  assumes "buildChallenge rt c input = Inr p"
  shows "early_refusal input = None \<and> read_expires rt (ci_expires input) = Inr (cp_expires p) \<and>
    method_refusal rt input (cp_expires p) = None \<and> header_refusal (ci_header input) = None \<and>
    read_opaque rt (ci_opaque input) = Inr (cp_opaque p) \<and> encodeCanonical rt (ci_request input) = Inr (cp_request p) \<and>
    challengeId c p (ci_secret input) = Inr (cp_id p) \<and> cp_realm p = ci_realm input \<and> cp_method p = ci_method input \<and>
    cp_intent p = ci_intent input \<and> cp_header p = ci_header input \<and> cp_digest p = ci_digest input \<and>
    cp_description p = ci_description input"
  using assms by (auto simp: buildChallenge_def Let_def challengeId_def challengeBindingInput_def)

lemma challengeId_nonempty:
  assumes "challengeId c p s = Inr i" "\<And>k x. hmac_sha256 c k x \<noteq> []"
  shows "i \<noteq> []"
proof -
  obtain k where "i = base64Url (hmac_sha256 c k (utf8 (challengeBindingInput p)))"
    using assms(1) by (auto simp: challengeId_def)
  moreover have "base64Url bs = [] \<Longrightarrow> bs = []" for bs
    using base64Url_inj [of bs "[]"] by (simp add: base64Url_chars)
  ultimately show ?thesis using assms(2) by auto
qed

lemma string_map_sorted: "string_map v \<Longrightarrow> string_map (sorted_value v)"
proof (cases v)
  case (JObj ps)
  assume h: "string_map v"
  then have "is_str (sorted_value (snd q))" if "q \<in> set ps" for q
    using that JObj by (cases "snd q") (force simp: string_map_def)+
  then show ?thesis using JObj by (auto simp: string_map_def)
qed (auto simp: string_map_def)

section \<open>A concrete challenge\<close>

definition demo_rt :: js_runtime where
  "demo_rt = \<lparr>rt_decode = (\<lambda>bs. None), rt_decode_lossy = bytes_text, rt_unit = char_of, rt_number = JFloat,
     rt_number_text = show_int, rt_date = (\<lambda>s. Some 1000000), rt_iso = (\<lambda>t. ''1970-01-01T00:16:40Z'')\<rparr>"

definition evm_addr :: "char \<Rightarrow> string" where "evm_addr c = ''0x'' @ replicate 40 c"

definition demo_price :: jsval where
  "demo_price = JObj [(''amount'', JStr ''25''), (''currency'', JStr (evm_addr CHR ''c'')),
     (''recipient'', JStr (evm_addr CHR ''d'')),
     (''methodDetails'', JObj [(''chainId'', JInt 1), (''credentialTypes'', JArr [JStr ''authorization''])])]"

definition demo_hmac_secret :: secret where "demo_hmac_secret = SecretText ''0123456789abcdef''"

definition demo_challenge_input :: challenge_input where
  "demo_challenge_input = \<lparr>ci_realm = ''shop'', ci_method = ''evm'', ci_intent = ''charge'', ci_request = demo_price,
     ci_expires = Some (ExpiresDate (Some 1000000)), ci_secret = demo_hmac_secret, ci_digest = None,
     ci_description = Some ''A \"book\"'', ci_header = Some payment_authorization,
     ci_opaque = Some (JObj [(''order'', JStr ''7'')])\<rparr>"

lemma created_challenge_read:
  assumes header: "createChallenge rt c input = Inr header"
    and data: "json_data (ci_request input)" "\<And>v. ci_opaque input = Some v \<Longrightarrow> json_data v"
    and mac: "\<And>k x. hmac_sha256 c k x \<noteq> []"
    and dates: "\<And>t. ci_expires input = Some (ExpiresDate (Some t)) \<Longrightarrow> parseRfc3339 rt (rt_iso rt t) = Some t"
  shows "\<exists>p. buildChallenge rt c input = Inr p \<and>
    parsePaymentChallenges rt (Some header) =
      Some (Inr ([\<lparr>wc_params = p, wc_request = props_of (sorted_value (ci_request input)),
                   wc_expiresAt = Option.bind (cp_expires p) (parseRfc3339 rt)\<rparr>], []))"
proof -
  obtain p where p: "buildChallenge rt c input = Inr p" "formatChallenge p = Inr header"
    using header by (auto simp: createChallenge_def)
  note b = built_challenge [OF p(1)]
  let ?raw = "\<lparr>rc_scheme = ''Payment'', rc_params = param_list p, rc_error = None\<rparr>"
  note early = b [THEN conjunct1, unfolded early_refusal_def first_some_None, simplified]
  have e: "cp_realm p \<noteq> []" "method_re (cp_method p)" "intent_re (cp_intent p)" "isRecord (ci_request input)"
    using early b by auto
  have d: "decodeBase64UrlJson rt (cp_request p) = sorted_value (ci_request input)"
    using canonical_message_roundtrip [OF data(1)] b by blast
  have r: "isRecord (decodeBase64UrlJson rt (cp_request p))"
    using d e(4) by (cases "ci_request input") auto
  have i: "cp_id p \<noteq> []" using challengeId_nonempty mac b by blast
  have x: "cp_expires p = Some t \<Longrightarrow> parseRfc3339 rt t \<noteq> None" for t
    using b dates by (auto simp: read_expires_def split: option.splits expires_input.splits if_splits)
  have o: "\<not> opaque_bad rt (cp_opaque p)"
  proof (cases "ci_opaque input")
    case (Some v)
    then obtain s where "encodeCanonical rt v = Inr s" "cp_opaque p = Some s" "string_map v"
      using b by (auto simp: read_opaque_def split: if_splits)
    then show ?thesis
      using canonical_message_roundtrip [OF data(2) [OF Some]] string_map_sorted by (auto simp: opaque_bad_def)
  qed (use b in \<open>auto simp: read_opaque_def opaque_bad_def\<close>)
  have h: "cp_header p = None \<or> cp_header p = Some payment_authorization"
    using b by (auto simp: header_refusal_def)
  have m: "map_of (param_list p) n \<noteq> None" if "n \<in> set required_params" for n
    using that by (auto simp: required_params_def param_list_def)
  have "challenge_refusal rt ?raw = None"
    using e r i x o h m by (auto simp: challenge_refusal_def Let_def param_list_facts(3) split: option.splits)
  then have "readChallenge rt ?raw = Inr \<lparr>wc_params = p, wc_request = props_of (sorted_value (ci_request input)),
      wc_expiresAt = Option.bind (cp_expires p) (parseRfc3339 rt)\<rparr>"
    by (simp add: readChallenge_def param_list_facts(3) d Let_def)
  then have "sort_challenge rt ?raw ([], []) =
      ([\<lparr>wc_params = p, wc_request = props_of (sorted_value (ci_request input)),
         wc_expiresAt = Option.bind (cp_expires p) (parseRfc3339 rt)\<rparr>], [])"
  proof -
    have "lower ''Payment'' = ''payment''" by code_simp
    then show "readChallenge rt ?raw = Inr x \<Longrightarrow> sort_challenge rt ?raw ([], []) = ([x], [])" for x
      by (simp add: sort_challenge_def)
  qed
  moreover have "header \<noteq> []" using p(2) by (auto simp: formatChallenge_def)
  ultimately show ?thesis
    using p(1) formatted_reads_back [OF p(2)] by (simp add: parsePaymentChallenges_def Let_def)
qed

text \<open>
  C34: a challenge the server creates reaches the client unchanged.  The header parses to exactly one
  Payment challenge and none is rejected; its parameters are those the server bound, its request is
  the one that was priced, with sorted keys, and its expiry is the one given.  (A \<open>Date\<close> must print
  as a time the runtime can read, and a MAC is not empty.)
\<close>

theorem challenge_reaches_client:
  assumes header: "createChallenge rt c input = Inr header"
    and data: "json_data (ci_request input)" "\<And>v. ci_opaque input = Some v \<Longrightarrow> json_data v"
    and mac: "\<And>k x. hmac_sha256 c k x \<noteq> []"
    and dates: "\<And>t. ci_expires input = Some (ExpiresDate (Some t)) \<Longrightarrow> parseRfc3339 rt (rt_iso rt t) = Some t"
  shows "\<exists>p. buildChallenge rt c input = Inr p \<and>
    parsePaymentChallenges rt (Some header) =
      Some (Inr ([\<lparr>wc_params = p, wc_request = props_of (sorted_value (ci_request input)),
                   wc_expiresAt = Option.bind (cp_expires p) (parseRfc3339 rt)\<rparr>], []))"
  by (rule created_challenge_read [OF assms])

lemma toy_mac: "hmac_sha256 toy_crypto k x \<noteq> []"
  by (simp add: toy_crypto_def toy_digest_def)

lemma demo_challenge_created: "\<exists>header. createChallenge demo_rt toy_crypto demo_challenge_input = Inr header"
proof -
  have "(case createChallenge demo_rt toy_crypto demo_challenge_input of Inr x \<Rightarrow> True | Inl _ \<Rightarrow> False)" by code_simp
  then show ?thesis by (auto split: sum.splits)
qed

theorem challenge_reaches_client_witness:
  "\<exists>header p. createChallenge demo_rt toy_crypto demo_challenge_input = Inr header \<and>
    parsePaymentChallenges demo_rt (Some header) =
      Some (Inr ([\<lparr>wc_params = p, wc_request = props_of (sorted_value demo_price),
                   wc_expiresAt = Option.bind (cp_expires p) (parseRfc3339 demo_rt)\<rparr>], []))"
proof -
  obtain header where h: "createChallenge demo_rt toy_crypto demo_challenge_input = Inr header" using demo_challenge_created by blast
  have d: "json_data (ci_request demo_challenge_input)" by code_simp
  have o: "json_data (JObj [(''order'', JStr ''7'')])" by code_simp
  have t: "parseRfc3339 demo_rt (rt_iso demo_rt 1000000) = Some 1000000" by code_simp
  have r: "ci_request demo_challenge_input = demo_price" by (simp add: demo_challenge_input_def)
  from challenge_reaches_client [OF h d _ toy_mac] obtain p where
    "parsePaymentChallenges demo_rt (Some header) = Some (Inr ([\<lparr>wc_params = p, wc_request = props_of (sorted_value demo_price),
                   wc_expiresAt = Option.bind (cp_expires p) (parseRfc3339 demo_rt)\<rparr>], []))"
    using o t unfolding r by (auto simp: demo_challenge_input_def)
  with h show ?thesis by blast
qed

section \<open>What the identifier binds\<close>

definition bar_free :: "string \<Rightarrow> bool" where
  "bar_free s \<longleftrightarrow> CHR ''|'' \<notin> set s"

lemma bar_split: "bar_free a \<Longrightarrow> bar_free b \<Longrightarrow> a @ CHR ''|'' # r = b @ CHR ''|'' # s \<Longrightarrow> a = b \<and> r = s"
proof (induction a arbitrary: b)
  case Nil
  then show ?case by (cases b) (auto simp: bar_free_def)
next
  case (Cons c a)
  then show ?case by (cases b) (auto simp: bar_free_def)
qed

definition bound_tail :: "challenge_params \<Rightarrow> string" where
  "bound_tail p =
     join_bars (or_nil (cp_digest p) # (case cp_header p of None \<Rightarrow> [] | Some h \<Rightarrow> [h]) @ [or_nil (cp_opaque p)])"

lemma binding_parts:
  "challengeBindingInput p = cp_realm p @ CHR ''|'' # cp_method p @ CHR ''|'' # cp_intent p @ CHR ''|'' #
     cp_request p @ CHR ''|'' # or_nil (cp_expires p) @ CHR ''|'' # bound_tail p"
  by (auto simp: challengeBindingInput_def bound_tail_def split: option.splits)

definition bars_absent :: "challenge_params \<Rightarrow> bool" where
  "bars_absent p \<longleftrightarrow> bar_free (cp_realm p) \<and> bar_free (cp_method p) \<and> bar_free (cp_intent p) \<and> bar_free (cp_request p) \<and>
     bar_free (or_nil (cp_expires p))"

lemma binding_determines:
  assumes "challengeBindingInput p = challengeBindingInput q" "bars_absent p" "bars_absent q"
  shows "cp_realm p = cp_realm q \<and> cp_method p = cp_method q \<and> cp_intent p = cp_intent q \<and>
    cp_request p = cp_request q \<and> or_nil (cp_expires p) = or_nil (cp_expires q) \<and> bound_tail p = bound_tail q"
proof -
  note e = assms(1) [unfolded binding_parts] and b = assms(2,3) [unfolded bars_absent_def]
  from e b have 1: "cp_realm p = cp_realm q" and e1: "cp_method p @ CHR ''|'' # cp_intent p @ CHR ''|'' #
     cp_request p @ CHR ''|'' # or_nil (cp_expires p) @ CHR ''|'' # bound_tail p = cp_method q @ CHR ''|'' # cp_intent q @ CHR ''|'' #
     cp_request q @ CHR ''|'' # or_nil (cp_expires q) @ CHR ''|'' # bound_tail q" using bar_split by blast+
  from e1 b have 2: "cp_method p = cp_method q" and e2: "cp_intent p @ CHR ''|'' #
     cp_request p @ CHR ''|'' # or_nil (cp_expires p) @ CHR ''|'' # bound_tail p = cp_intent q @ CHR ''|'' #
     cp_request q @ CHR ''|'' # or_nil (cp_expires q) @ CHR ''|'' # bound_tail q" using bar_split by blast+
  from e2 b have 3: "cp_intent p = cp_intent q" and e3: "cp_request p @ CHR ''|'' # or_nil (cp_expires p) @ CHR ''|'' # bound_tail p =
     cp_request q @ CHR ''|'' # or_nil (cp_expires q) @ CHR ''|'' # bound_tail q" using bar_split by blast+
  from e3 b have 4: "cp_request p = cp_request q" and e4: "or_nil (cp_expires p) @ CHR ''|'' # bound_tail p =
     or_nil (cp_expires q) @ CHR ''|'' # bound_tail q" using bar_split by blast+
  from e4 b have "or_nil (cp_expires p) = or_nil (cp_expires q)" "bound_tail p = bound_tail q" using bar_split by blast+
  with 1 2 3 4 show ?thesis by simp
qed

text \<open>With no bar in the tail either, its parts are determined too.\<close>

lemma tail_determines:
  assumes "bound_tail p = bound_tail q"
    "bar_free (or_nil (cp_digest p))" "bar_free (or_nil (cp_header p))" "bar_free (or_nil (cp_opaque p))"
    "bar_free (or_nil (cp_digest q))" "bar_free (or_nil (cp_header q))" "bar_free (or_nil (cp_opaque q))"
  shows "or_nil (cp_digest p) = or_nil (cp_digest q) \<and> cp_header p = cp_header q \<and> or_nil (cp_opaque p) = or_nil (cp_opaque q)"
proof -
  have no_bar: "bar_free x \<Longrightarrow> x \<noteq> y @ CHR ''|'' # z" for x y z by (auto simp: bar_free_def)
  have s: "or_nil (cp_digest p) = or_nil (cp_digest q) \<and> x = y"
    if "or_nil (cp_digest p) @ CHR ''|'' # x = or_nil (cp_digest q) @ CHR ''|'' # y" for x y
    using bar_split [OF assms(2,5) that] .
  show ?thesis
  proof (cases "cp_header p"; cases "cp_header q")
    assume n: "cp_header p = None" "cp_header q = None"
    then show ?thesis using assms(1) s [of "or_nil (cp_opaque p)" "or_nil (cp_opaque q)"] by (simp add: bound_tail_def)
  next
    fix h assume n: "cp_header p = None" "cp_header q = Some h"
    then have "or_nil (cp_opaque p) = h @ CHR ''|'' # or_nil (cp_opaque q)"
      using assms(1) s [of "or_nil (cp_opaque p)" "h @ CHR ''|'' # or_nil (cp_opaque q)"] by (simp add: bound_tail_def)
    then show ?thesis using no_bar [OF assms(4)] by blast
  next
    fix h assume n: "cp_header p = Some h" "cp_header q = None"
    then have "or_nil (cp_opaque q) = h @ CHR ''|'' # or_nil (cp_opaque p)"
      using assms(1) s [of "h @ CHR ''|'' # or_nil (cp_opaque p)" "or_nil (cp_opaque q)"] by (simp add: bound_tail_def)
    then show ?thesis using no_bar [OF assms(7)] by blast
  next
    fix h h' assume n: "cp_header p = Some h" "cp_header q = Some h'"
    then have t: "or_nil (cp_digest p) = or_nil (cp_digest q)"
      "h @ CHR ''|'' # or_nil (cp_opaque p) = h' @ CHR ''|'' # or_nil (cp_opaque q)"
      using assms(1) s [of "h @ CHR ''|'' # or_nil (cp_opaque p)" "h' @ CHR ''|'' # or_nil (cp_opaque q)"]
      by (simp_all add: bound_tail_def)
    have b: "bar_free h" "bar_free h'" using n assms(3,6) by simp_all
    show ?thesis using bar_split [OF b t(2)] t(1) n by simp
  qed
qed

text \<open>
  C35: the identifier binds the challenge.  Two challenges with the same identifier under the same
  secret, for which HMAC does not collide, have the same realm, method, intent, request and expiry
  when these contain no vertical bar; and when no other parameter contains one either, the same
  digest, header field and opaque data, where an absent text counts as the empty one.
\<close>

theorem challenge_id_binds:
  assumes ids: "challengeId c p s = Inr i" "challengeId c q s = Inr i"
    and apart: "\<And>k. hash_apart (hmac_sha256 c k) [utf8 (challengeBindingInput p), utf8 (challengeBindingInput q)]"
    and bars: "bars_absent p" "bars_absent q"
  shows "cp_realm p = cp_realm q \<and> cp_method p = cp_method q \<and> cp_intent p = cp_intent q \<and>
    cp_request p = cp_request q \<and> or_nil (cp_expires p) = or_nil (cp_expires q) \<and>
    (bar_free (or_nil (cp_digest p) @ or_nil (cp_header p) @ or_nil (cp_opaque p)) \<longrightarrow>
     bar_free (or_nil (cp_digest q) @ or_nil (cp_header q) @ or_nil (cp_opaque q)) \<longrightarrow>
     or_nil (cp_digest p) = or_nil (cp_digest q) \<and> cp_header p = cp_header q \<and> or_nil (cp_opaque p) = or_nil (cp_opaque q))"
proof -
  obtain k where "hmac_sha256 c k (utf8 (challengeBindingInput p)) = hmac_sha256 c k (utf8 (challengeBindingInput q))"
  proof -
    obtain k where "secretBytes s = Inr k" using ids(1) by (auto simp: challengeId_def)
    then have "base64Url (hmac_sha256 c k (utf8 (challengeBindingInput p))) = base64Url (hmac_sha256 c k (utf8 (challengeBindingInput q)))"
      using ids by (simp add: challengeId_def)
    then show ?thesis using that base64Url_inj by blast
  qed
  then have "utf8 (challengeBindingInput p) = utf8 (challengeBindingInput q)"
    using apart [of k] by (auto intro: hash_apartD)
  then have eq: "challengeBindingInput p = challengeBindingInput q" by (simp add: utf8_inj)
  note d = binding_determines [OF eq bars]
  then show ?thesis using tail_determines [of p q] by (auto simp: bar_free_def)
qed

definition demo_params :: challenge_params where
  "demo_params = \<lparr>cp_id = [], cp_realm = ''shop'', cp_method = ''evm'', cp_intent = ''charge'', cp_request = ''e30'',
     cp_expires = Some ''1970-01-01T00:16:40Z'', cp_digest = Some ''d'', cp_description = None,
     cp_header = Some payment_authorization, cp_opaque = None\<rparr>"

theorem challenge_id_binds_witness:
  "\<exists>i. challengeId toy_crypto demo_params demo_hmac_secret = Inr i \<and>
     challengeId toy_crypto (demo_params\<lparr>cp_description := Some ''x'', cp_opaque := Some []\<rparr>) demo_hmac_secret = Inr i \<and>
     cp_digest demo_params = Some ''d''"
proof -
  let ?q = "demo_params\<lparr>cp_description := Some ''x'', cp_opaque := Some []\<rparr>"
  have "(case challengeId toy_crypto demo_params demo_hmac_secret of Inr x \<Rightarrow> challengeId toy_crypto ?q demo_hmac_secret = Inr x | Inl _ \<Rightarrow> False)"
    by code_simp
  then obtain i where i: "challengeId toy_crypto demo_params demo_hmac_secret = Inr i" "challengeId toy_crypto ?q demo_hmac_secret = Inr i"
    by (auto split: sum.splits)
  have b: "bars_absent demo_params" "bars_absent ?q" by code_simp+
  have e: "utf8 (challengeBindingInput demo_params) = utf8 (challengeBindingInput ?q)" by code_simp
  have "or_nil (cp_digest demo_params) = or_nil (cp_digest ?q) \<and> cp_header demo_params = cp_header ?q"
    using challenge_id_binds [OF i _ b] e by (simp add: hash_apart_def demo_params_def)
  then show ?thesis using i by (auto simp: demo_params_def)
qed

text \<open>
  Without that proviso an edited challenge can keep its identifier: the header field moves into the
  digest, although the comment of the file says that any edited parameter changes the id.
\<close>

lemma header_moves_into_digest:
  assumes "cp_header p = Some h" "cp_digest p = None"
  shows "challengeId c (p\<lparr>cp_header := None, cp_digest := Some (CHR ''|'' # h)\<rparr>) s = challengeId c p s"
  using assms by (simp add: challengeId_def challengeBindingInput_def)

end
