(* ===== verification/MppReplay.thy ===== *)
theory MppReplay
  imports MppChallenge
begin

text \<open>
  packages/payments-mpp/src/server/problems.ts and replay.ts: the problems a payment is refused with,
  their responses, and the store of used keys.  What a settlement relies on is the locale
  \<open>once_store\<close>: a key is recorded by exactly one of the calls that consume it before it expires.
  The in-process store is proved to be one.
\<close>

section \<open>Problems\<close>

datatype problem_code =
    Pb_payment_required | Pb_payment_insufficient | Pb_payment_expired | Pb_verification_failed
  | Pb_method_unsupported | Pb_malformed_credential | Pb_invalid_challenge | Pb_bad_request
  | Pb_invalid_payload | Pb_internal_payment_error | Pb_payment_action_required

fun problem_text :: "problem_code \<Rightarrow> string" where
  "problem_text Pb_payment_required = ''payment-required''"
| "problem_text Pb_payment_insufficient = ''payment-insufficient''"
| "problem_text Pb_payment_expired = ''payment-expired''"
| "problem_text Pb_verification_failed = ''verification-failed''"
| "problem_text Pb_method_unsupported = ''method-unsupported''"
| "problem_text Pb_malformed_credential = ''malformed-credential''"
| "problem_text Pb_invalid_challenge = ''invalid-challenge''"
| "problem_text Pb_bad_request = ''bad-request''"
| "problem_text Pb_invalid_payload = ''invalid-payload''"
| "problem_text Pb_internal_payment_error = ''internal-payment-error''"
| "problem_text Pb_payment_action_required = ''payment-action-required''"

fun problem_title :: "problem_code \<Rightarrow> string" where
  "problem_title Pb_payment_required = ''Payment Required''"
| "problem_title Pb_payment_insufficient = ''Payment Insufficient''"
| "problem_title Pb_payment_expired = ''Payment Expired''"
| "problem_title Pb_verification_failed = ''Verification Failed''"
| "problem_title Pb_method_unsupported = ''Method Unsupported''"
| "problem_title Pb_malformed_credential = ''Malformed Credential''"
| "problem_title Pb_invalid_challenge = ''Invalid Challenge''"
| "problem_title Pb_bad_request = ''Bad Request''"
| "problem_title Pb_invalid_payload = ''Invalid Payload''"
| "problem_title Pb_internal_payment_error = ''Internal Payment Error''"
| "problem_title Pb_payment_action_required = ''Payment Action Required''"

fun problem_status :: "problem_code \<Rightarrow> int" where
  "problem_status Pb_method_unsupported = 400"
| "problem_status Pb_bad_request = 400"
| "problem_status Pb_internal_payment_error = 500"
| "problem_status _ = 402"

text \<open>What the server functions throw: a \<open>PaymentProblem\<close>, or anything else with its message.\<close>

datatype server_error = Problem problem_code string | Crash string

abbreviation problem :: "problem_code \<Rightarrow> string \<Rightarrow> server_error + 'a" where
  "problem code detail \<equiv> Inl (Problem code detail)"

fun toPaymentProblem :: "server_error \<Rightarrow> server_error" where
  "toPaymentProblem (Problem code detail) = Problem code detail"
| "toPaymentProblem (Crash m) = Problem Pb_internal_payment_error ''The payment could not be processed.''"

fun problem_json :: "problem_code \<Rightarrow> string \<Rightarrow> jsval" where
  "problem_json code detail = JObj
     [(''type'', JStr (''https://paymentauth.org/problems/'' @ problem_text code)), (''title'', JStr (problem_title code)),
      (''status'', JInt (problem_status code)), (''detail'', JStr detail)]"

record http_response =
  hr_status :: int
  hr_headers :: "(string \<times> string) list"
  hr_body :: jsval

text \<open>The body is the JSON value that is printed into it; a 402 without a fresh challenge throws.\<close>

definition problemResponse :: "server_error \<Rightarrow> string list \<Rightarrow> server_error + http_response" where
  "problemResponse e challenges =
     (case toPaymentProblem e of
        Problem code detail \<Rightarrow>
          if problem_status code = 402 \<and> challenges = [] then Inl (Crash ''A 402 needs at least one fresh Payment challenge.'')
          else Inr \<lparr>hr_status = problem_status code,
                    hr_headers = [(''Content-Type'', ''application/problem+json''), (''Cache-Control'', ''no-store'')] @
                      (if problem_status code = 402 then map (Pair ''WWW-Authenticate'') challenges else []),
                    hr_body = problem_json code detail\<rparr>
      | Crash m \<Rightarrow> Inl (Crash m))"

definition paymentRequiredResponse :: "string list \<Rightarrow> string \<Rightarrow> server_error + http_response" where
  "paymentRequiredResponse challenges detail = problemResponse (Problem Pb_payment_required detail) challenges"

definition receiptHeaders :: "string \<Rightarrow> (string \<times> string) list" where
  "receiptHeaders h = [(''Payment-Receipt'', h), (''Cache-Control'', ''private'')]"

text \<open>A refusal never carries the message of an internal error.\<close>

lemma problem_hides_crash:
  "problemResponse (Crash m) cs = problemResponse (Crash m') cs"
  by (simp add: problemResponse_def)

section \<open>A store of keys used once\<close>

text \<open>
  \<open>consume now key until\<close> at time \<open>now\<close>; \<open>live s now key\<close> says that the key is recorded and has not
  expired.
\<close>

locale once_store =
  fixes consume :: "int \<Rightarrow> string \<Rightarrow> int \<Rightarrow> 's \<Rightarrow> bool \<times> 's"
    and live :: "'s \<Rightarrow> int \<Rightarrow> string \<Rightarrow> bool"
  assumes consume_fresh: "fst (consume now k u s) \<longleftrightarrow> \<not> live s now k"
    and consume_live: "now \<le> t \<Longrightarrow>
      live (snd (consume now k u s)) t k' \<longleftrightarrow> live s t k' \<or> (k' = k \<and> \<not> live s now k \<and> t < u)"
    and live_antimono: "now \<le> t \<Longrightarrow> live s t k \<Longrightarrow> live s now k"
begin

text \<open>Calls \<open>(now, key, until)\<close> in the order they are made, and what each of them answers.\<close>

fun answers :: "(int \<times> string \<times> int) list \<Rightarrow> 's \<Rightarrow> bool list" where
  "answers [] s = []"
| "answers ((now, k, u) # cs) s = fst (consume now k u s) # answers cs (snd (consume now k u s))"

lemma live_kept: "now \<le> t \<Longrightarrow> live s t k' \<Longrightarrow> live (snd (consume now k u s)) t k'"
  by (simp add: consume_live)

lemma live_recorded: "fst (consume now k u s) \<Longrightarrow> now \<le> t \<Longrightarrow> t < u \<Longrightarrow> live (snd (consume now k u s)) t k"
  by (simp add: consume_live consume_fresh)

text \<open>While a key is live every later call for it is answered no.\<close>

lemma refused_while_live:
  assumes "sorted (map fst cs)" "live s t k" "\<forall>c \<in> set cs. fst c \<le> t"
  shows "\<forall>i < length cs. fst (snd (cs ! i)) = k \<longrightarrow> \<not> answers cs s ! i"
  using assms
proof (induction cs arbitrary: s)
  case (Cons c cs)
  obtain now k' u where c: "c = (now, k', u)" by (metis prod_cases3)
  have le: "now \<le> t" using Cons.prems(3) c by simp
  have "live (snd (consume now k' u s)) t k" using live_kept [OF le Cons.prems(2)] .
  then have ih: "\<forall>i < length cs. fst (snd (cs ! i)) = k \<longrightarrow> \<not> answers cs (snd (consume now k' u s)) ! i"
    using Cons by simp
  have "k' = k \<Longrightarrow> \<not> fst (consume now k' u s)"
    using live_antimono [OF le Cons.prems(2)] by (simp add: consume_fresh)
  with ih show ?case unfolding c by (auto simp: nth_Cons split: nat.splits)
qed simp

end

section \<open>The in-process store\<close>

type_synonym memory_store = "(string \<times> int) list"

definition purge :: "int \<Rightarrow> memory_store \<Rightarrow> memory_store" where
  "purge now s = filter (\<lambda>(k, until). \<not> until \<le> now) s"

definition memory_consume :: "int \<Rightarrow> string \<Rightarrow> int \<Rightarrow> memory_store \<Rightarrow> bool \<times> memory_store" where
  "memory_consume now k until s =
     (let s' = purge now s in
      if k \<in> fst ` set s' then (False, s') else (True, AList.update k until s'))"

definition memory_has :: "int \<Rightarrow> string \<Rightarrow> memory_store \<Rightarrow> bool \<times> memory_store" where
  "memory_has now k s = (k \<in> fst ` set (purge now s), purge now s)"

definition memory_size :: "int \<Rightarrow> memory_store \<Rightarrow> nat \<times> memory_store" where
  "memory_size now s = (length (purge now s), purge now s)"

definition memory_live :: "memory_store \<Rightarrow> int \<Rightarrow> string \<Rightarrow> bool" where
  "memory_live s now k \<longleftrightarrow> k \<in> fst ` set (purge now s)"

lemma memory_live_iff: "memory_live s now k \<longleftrightarrow> (\<exists>u. (k, u) \<in> set s \<and> now < u)"
  by (force simp: memory_live_def purge_def)

lemma update_set: "k \<notin> fst ` set s \<Longrightarrow> set (AList.update k v s) = insert (k, v) (set s)"
  by (simp add: update_fresh)

interpretation memory: once_store memory_consume memory_live
proof
  fix now t :: int and k k' :: string and u :: int and s :: memory_store
  show "fst (memory_consume now k u s) \<longleftrightarrow> \<not> memory_live s now k"
    by (simp add: memory_consume_def memory_live_def Let_def)
  show "now \<le> t \<Longrightarrow> memory_live s t k \<Longrightarrow> memory_live s now k"
    by (force simp: memory_live_iff)
  assume le: "now \<le> t"
  have p: "memory_live (purge now s) t k' \<longleftrightarrow> memory_live s t k'"
    using le by (force simp: memory_live_iff purge_def)
  show "memory_live (snd (memory_consume now k u s)) t k' \<longleftrightarrow>
      memory_live s t k' \<or> (k' = k \<and> \<not> memory_live s now k \<and> t < u)"
  proof (cases "k \<in> fst ` set (purge now s)")
    case True
    then show ?thesis using p by (auto simp: memory_consume_def Let_def memory_live_def [of s now])
  next
    case False
    then have "memory_live (AList.update k u (purge now s)) t k' \<longleftrightarrow> memory_live (purge now s) t k' \<or> (k' = k \<and> t < u)"
      by (auto simp: memory_live_iff update_set)
    then show ?thesis using False p by (simp add: memory_consume_def Let_def memory_live_def [of s now])
  qed
qed

end
