(* ===== verification/MppVerify.thy ===== *)
theory MppVerify
  imports MppReplay
begin

text \<open>
  packages/payments-mpp/src/server/verify.ts, evm.ts and solana.ts: the verification of a payment
  credential, from the text of the header to the proof of its method.  The chain reads, the domains
  and the clock are arguments; \<open>verifyCredential\<close> turns every other error into a problem.
\<close>

section \<open>Reading a credential\<close>

definition max_credential_length :: nat where "max_credential_length = 16384"

text \<open>\<open>/^[ \t]*Payment +([A-Za-z0-9_-]+)[ \t]*$/i\<close>: the captured text.\<close>

definition credential_text :: "string \<Rightarrow> string option" where
  "credential_text s =
     (let a = dropWhile is_ows s; b = drop 7 a; c = dropWhile (\<lambda>x. x = CHR '' '') b;
          t = takeWhile url_char c; r = dropWhile url_char c
      in if lower (take 7 a) = ''payment'' \<and> opens_with CHR '' '' b \<and> t \<noteq> [] \<and> (\<forall>x \<in> set r. is_ows x)
         then Some t else None)"

record credential =
  cd_challenge :: challenge_params
  cd_payload :: props
  cd_source :: "string option"

definition optional_params :: "string list" where
  "optional_params = [''expires'', ''digest'', ''description'', ''header'', ''opaque'']"

definition echoed_refusal :: "props \<Rightarrow> server_error option" where
  "echoed_refusal e = first_some
     [first_error (\<lambda>n. throw_if (\<not> is_str (field n e)) (Problem Pb_malformed_credential (''challenge.'' @ n @ '' is missing.'')))
        required_params,
      first_error (\<lambda>n. throw_if (field n e \<noteq> JUndefined \<and> \<not> is_str (field n e))
          (Problem Pb_malformed_credential (''challenge.'' @ n @ '' is not a string.'')))
        optional_params]"

definition echoed_params :: "props \<Rightarrow> challenge_params" where
  "echoed_params e =
     \<lparr>cp_id = str_of (field ''id'' e), cp_realm = str_of (field ''realm'' e), cp_method = str_of (field ''method'' e),
      cp_intent = str_of (field ''intent'' e), cp_request = str_of (field ''request'' e),
      cp_expires = defined str_of (field ''expires'' e), cp_digest = defined str_of (field ''digest'' e),
      cp_description = defined str_of (field ''description'' e), cp_header = defined str_of (field ''header'' e),
      cp_opaque = defined str_of (field ''opaque'' e)\<rparr>"

definition readCredential :: "js_runtime \<Rightarrow> string option \<Rightarrow> server_error + credential" where
  "readCredential rt v =
     (if or_nil v = [] then problem Pb_payment_required ''No Payment credential was sent.''
      else if length (or_nil v) > max_credential_length then problem Pb_malformed_credential ''The credential is too large.''
      else case credential_text (or_nil v) of
        None \<Rightarrow> problem Pb_malformed_credential ''The credential is not Payment <base64url>.''
      | Some t \<Rightarrow>
          let d = props_of (decodeBase64UrlJson rt t); src = field ''source'' d in
          if \<not> isRecord (decodeBase64UrlJson rt t) \<or> \<not> isRecord (field ''challenge'' d) \<or> \<not> isRecord (field ''payload'' d) \<or>
             (src \<noteq> JUndefined \<and> \<not> is_str src)
          then problem Pb_malformed_credential ''The credential is not a JSON object with challenge and payload.''
          else case echoed_refusal (props_of (field ''challenge'' d)) of
            Some e \<Rightarrow> Inl e
          | None \<Rightarrow> Inr \<lparr>cd_challenge = echoed_params (props_of (field ''challenge'' d)),
                         cd_payload = props_of (field ''payload'' d), cd_source = defined str_of src\<rparr>)"

section \<open>EVM authorizations\<close>

record evm_rpc =
  authorizationState :: "int \<Rightarrow> string \<Rightarrow> string \<Rightarrow> string \<Rightarrow> server_error + jsval"
  balanceOf :: "int \<Rightarrow> string \<Rightarrow> string \<Rightarrow> server_error + jsval"

record evm_options =
  eo_rpc :: evm_rpc
  eo_tokenDomains :: "token_domain list option"

record verified_evm =
  ve_domain :: token_domain
  ve_authorization :: typed_data_request
  ve_signature :: string
  ve_payer :: string

definition same :: "string \<Rightarrow> string \<Rightarrow> bool" where
  "same a b \<longleftrightarrow> lower a = lower b"

definition challengeNonce :: "crypto \<Rightarrow> challenge_params \<Rightarrow> string" where
  "challengeNonce c p = ''0x'' @ bytesToHex (keccak_256 c (utf8 (cp_id p @ cp_realm p)))"

definition decimal_uint256 :: "string \<Rightarrow> bool" where
  "decimal_uint256 s \<longleftrightarrow> canonical_decimal s \<and> dec_value s \<le> uint256_max"

text \<open>The shape of the payload, in the order of the checks.\<close>

definition evm_payload_refusal :: "js_runtime \<Rightarrow> props \<Rightarrow> server_error option" where
  "evm_payload_refusal rt p = first_some
     [throw_if (field ''type'' p \<noteq> JStr ''authorization'')
        (Problem Pb_invalid_payload (''Credential type '' @ js_text rt (field ''type'' p) @ '' is not accepted; use authorization.'')),
      throw_if (\<not> str_where (hex_literal 40) (field ''from'' p) \<or> \<not> str_where (hex_literal 40) (field ''to'' p) \<or>
          \<not> str_where (hex_literal 64) (field ''nonce'' p) \<or> \<not> str_where (hex_literal 130) (field ''signature'' p))
        (Problem Pb_invalid_payload ''The authorization payload is malformed.''),
      first_error (\<lambda>n. throw_if (\<not> str_where decimal_uint256 (field n p))
          (Problem Pb_invalid_payload (n @ '' is not a decimal uint256.'')))
        [''value'', ''validAfter'', ''validBefore'']]"

abbreviation failed :: "string \<Rightarrow> server_error" where "failed m \<equiv> Problem Pb_verification_failed m"

text \<open>The authorization against the request, the challenge and the clock.\<close>

definition evm_terms_refusal ::
  "crypto \<Rightarrow> challenge_params \<Rightarrow> evm_request \<Rightarrow> props \<Rightarrow> int \<Rightarrow> int \<Rightarrow> server_error option" where
  "evm_terms_refusal c ch r p now_ms expiresAt = first_some
     [throw_if (same (str_of (field ''from'' p)) (''0x'' @ replicate 40 CHR ''0'')) (failed ''from is zero.''),
      throw_if (\<not> same (str_of (field ''to'' p)) (ev_recipient r)) (failed ''to does not match the recipient.''),
      throw_if (str_of (field ''value'' p) \<noteq> ev_amount r) (failed ''value does not match the amount.''),
      throw_if (\<not> same (str_of (field ''nonce'' p)) (challengeNonce c ch))
        (failed ''nonce is not keccak256(challenge.id, challenge.realm).''),
      throw_if (dec_value (str_of (field ''validAfter'' p)) > now_ms div 1000) (failed ''The authorization is not valid yet.''),
      throw_if (dec_value (str_of (field ''validBefore'' p)) \<le> now_ms div 1000)
        (Problem Pb_payment_expired ''The authorization has expired.''),
      throw_if (dec_value (str_of (field ''validBefore'' p)) > expiresAt div 1000)
        (failed ''The authorization outlives the challenge.'')]"

definition evm_authorization :: "token_domain \<Rightarrow> props \<Rightarrow> typed_data_request" where
  "evm_authorization d p =
     \<lparr>r_name = td_name d, r_version = td_version d, r_chainId = td_chainId d, r_verifyingContract = td_address d,
      r_primaryType = ''TransferWithAuthorization'', r_from = str_of (field ''from'' p), r_to = str_of (field ''to'' p),
      r_value = str_of (field ''value'' p), r_validAfter = str_of (field ''validAfter'' p),
      r_validBefore = str_of (field ''validBefore'' p), r_nonce = str_of (field ''nonce'' p)\<rparr>"

definition evm_signer_refusal ::
  "crypto \<Rightarrow> evm_request \<Rightarrow> typed_data_request \<Rightarrow> string \<Rightarrow> string option \<Rightarrow> server_error option" where
  "evm_signer_refusal c r a signature src = first_some
     [throw_if (case recoverTypedDataSigner c a signature of None \<Rightarrow> True | Some s \<Rightarrow> s = [] \<or> \<not> same s (r_from a))
        (failed ''The signature does not recover to from.''),
      throw_if (case src of None \<Rightarrow> False
          | Some s \<Rightarrow> \<not> same s (''did:pkh:eip155:'' @ show_int (ev_chainId r) @ '':'' @ r_from a))
        (failed ''source does not match from.'')]"

definition verifyEvmAuthorization ::
  "js_runtime \<Rightarrow> crypto \<Rightarrow> challenge_params \<Rightarrow> evm_request \<Rightarrow> props \<Rightarrow> string option \<Rightarrow> evm_options option \<Rightarrow>
   int \<Rightarrow> int \<Rightarrow> server_error + verified_evm" where
  "verifyEvmAuthorization rt c ch r p src opts now_ms expiresAt =
     (case opts of
        None \<Rightarrow> Inl (Crash ''verifyCredential needs evm.rpc for evm charges.'')
      | Some eo \<Rightarrow>
          andThen (throw_opt (evm_payload_refusal rt p)) (\<lambda>_.
          case findDomain r (eo_tokenDomains eo) of
            None \<Rightarrow> Inl (failed ''The currency is not a token this server accepts EIP-3009 authorizations for.'')
          | Some d \<Rightarrow>
              andThen (throw_opt (evm_terms_refusal c ch r p now_ms expiresAt)) (\<lambda>_.
              let a = evm_authorization d p; signature = str_of (field ''signature'' p) in
              andThen (throw_opt (evm_signer_refusal c r a signature src)) (\<lambda>_.
              andThen (authorizationState (eo_rpc eo) (ev_chainId r) (td_address d) (r_from a) (r_nonce a)) (\<lambda>used.
              if used \<noteq> JBool False then problem Pb_invalid_challenge ''This authorization was already used.''
              else andThen (balanceOf (eo_rpc eo) (ev_chainId r) (td_address d) (r_from a)) (\<lambda>balance.
              if \<not> big_where (\<lambda>b. dec_value (ev_amount r) \<le> b) balance then
                Inl (failed ''The payer's balance is insufficient.'')
              else Inr \<lparr>ve_domain = d, ve_authorization = a, ve_signature = signature, ve_payer = r_from a\<rparr>))))))"

section \<open>Solana transactions\<close>

text \<open>The expression \<open>BASE64\<close>: full groups of the standard alphabet, padded.\<close>

definition base64_re :: "string \<Rightarrow> bool" where
  "base64_re s \<longleftrightarrow> length s mod 4 = 0 \<and> (\<forall>c \<in> set (unpad s). b64_value c \<noteq> None)"

definition decodeBase64 :: "string \<Rightarrow> bytes option" where
  "decodeBase64 s = (if base64_re s then atob s else None)"

definition readU64 :: "bytes \<Rightarrow> nat \<Rightarrow> int" where
  "readU64 bs offset = int (le_value (take 8 (drop offset bs)))"

definition readU32 :: "bytes \<Rightarrow> nat \<Rightarrow> int" where
  "readU32 bs offset = int (le_value (take 4 (drop offset bs)))"

text \<open>\<open>isWritable(tx, keys.indexOf(a))\<close> of this file: a missing account has index -1.\<close>

definition account_writable :: "parsed_tx \<Rightarrow> string \<Rightarrow> bool" where
  "account_writable tx a =
     (let i = (case index_of (t_keys tx) a of None \<Rightarrow> -1 | Some n \<Rightarrow> int n) in
      if i < int (t_required tx) then i < int (t_required tx) - int (t_readonlySigned tx)
      else i < int (length (t_keys tx)) - int (t_readonlyUnsigned tx))"

record verified_sol =
  vs_transaction :: bytes
  vs_payer :: string
  vs_payerSignature :: string
  vs_messageHash :: string

text \<open>What the loop over the instructions has seen.\<close>

record tx_tally =
  ty_limit :: "int option"
  ty_price :: "int option"
  ty_transfers :: nat
  ty_memos :: nat
  ty_others :: nat

definition budget_instruction :: "parsed_instruction \<Rightarrow> tx_tally \<Rightarrow> server_error + tx_tally" where
  "budget_instruction ix t =
     (let d = pi_data ix in
      if pi_accounts ix \<noteq> [] then Inl (failed ''A ComputeBudget instruction has accounts.'')
      else if byte_at d 0 = Some 2 \<and> length d = 5 \<and> ty_limit t = None then Inr (t\<lparr>ty_limit := Some (readU32 d 1)\<rparr>)
      else if byte_at d 0 = Some 3 \<and> length d = 9 \<and> ty_price t = None then Inr (t\<lparr>ty_price := Some (readU64 d 1)\<rparr>)
      else Inl (failed ''Only one compute unit limit and one price are accepted.''))"

definition memo_refusal :: "js_runtime \<Rightarrow> solana_request \<Rightarrow> parsed_instruction \<Rightarrow> nat \<Rightarrow> server_error option" where
  "memo_refusal rt r ix memos = first_some
     [throw_if (decode_text rt (pi_data ix) = None) (failed ''The memo is not UTF-8.''),
      throw_if (memos > 1 \<or> pi_accounts ix \<noteq> []) (failed ''Only one memo without signers is accepted.''),
      throw_if (so_externalId r \<noteq> None \<and> decode_text rt (pi_data ix) \<noteq> so_externalId r)
        (failed ''The memo is not the externalId.'')]"

definition transfer_refusal ::
  "solana_request \<Rightarrow> parsed_tx \<Rightarrow> string \<Rightarrow> string \<Rightarrow> parsed_instruction \<Rightarrow> nat \<Rightarrow> server_error option" where
  "transfer_refusal r tx payer destination ix transfers =
     (let d = pi_data ix; a = pi_accounts ix in first_some
       [throw_if (transfers > 1 \<or> length d \<noteq> 10 \<or> byte_at d 0 \<noteq> Some 12 \<or> length a \<noteq> 4)
          (failed ''The token instruction is not one TransferChecked.''),
        throw_if (a ! 1 \<noteq> so_currency r) (failed ''The transfer is of another mint.''),
        throw_if (a ! 2 \<noteq> destination) (failed ''The destination is not the recipient's associated token account.''),
        throw_if (readU64 d 1 \<noteq> dec_value (so_amount r)) (failed ''The transfer amount does not match.''),
        throw_if (int (unat (d ! 9)) \<noteq> so_decimals r) (failed ''The transfer decimals do not match.''),
        throw_if (a ! 3 \<noteq> payer) (failed ''The transfer authority is not the signer.''),
        throw_if (a ! 0 = a ! 2 \<or> \<not> account_writable tx (a ! 0) \<or> \<not> account_writable tx (a ! 2))
          (failed ''The transfer's accounts are not writable.'')])"

definition check_instruction ::
  "js_runtime \<Rightarrow> solana_request \<Rightarrow> parsed_tx \<Rightarrow> string \<Rightarrow> string \<Rightarrow> parsed_instruction \<Rightarrow> tx_tally \<Rightarrow> server_error + tx_tally" where
  "check_instruction rt r tx payer destination ix t =
     (if (case so_feePayerKey r of None \<Rightarrow> False | Some s \<Rightarrow> s \<in> set (pi_accounts ix)) then
        Inl (failed ''An instruction uses the server's fee payer account.'')
      else if pi_program ix = compute_budget_program then budget_instruction ix t
      else let t = t\<lparr>ty_others := ty_others t + 1\<rparr> in
        if pi_program ix = memo_program then
          (let t = t\<lparr>ty_memos := ty_memos t + 1\<rparr>
           in andThen (throw_opt (memo_refusal rt r ix (ty_memos t))) (\<lambda>_. Inr t))
        else if pi_program ix \<noteq> or_nil (so_tokenProgram r) then
          Inl (failed (''The transaction calls '' @ pi_program ix @ '', which a charge does not need.''))
        else let t = t\<lparr>ty_transfers := ty_transfers t + 1\<rparr>
          in andThen (throw_opt (transfer_refusal r tx payer destination ix (ty_transfers t))) (\<lambda>_. Inr t))"

fun check_instructions ::
  "js_runtime \<Rightarrow> solana_request \<Rightarrow> parsed_tx \<Rightarrow> string \<Rightarrow> string \<Rightarrow> parsed_instruction list \<Rightarrow> tx_tally \<Rightarrow> server_error + tx_tally" where
  "check_instructions rt r tx payer destination [] t = Inr t"
| "check_instructions rt r tx payer destination (ix # ixs) t =
     andThen (check_instruction rt r tx payer destination ix t) (check_instructions rt r tx payer destination ixs)"

definition priority_fee :: "tx_tally \<Rightarrow> int" where
  "priority_fee t =
     (let lim = or_else (ty_limit t) (200000 * int (ty_others t)); units = (if lim < 1400000 then lim else 1400000)
      in (units * or_else (ty_price t) 0 + 999999) div 1000000)"

definition sponsor_refusal :: "int option \<Rightarrow> parsed_tx \<Rightarrow> tx_tally \<Rightarrow> server_error option" where
  "sponsor_refusal maxFee tx t = first_some
     [throw_if (priority_fee t > or_else maxFee 10000) (failed ''The priority fee exceeds the sponsor's limit.''),
      throw_if (\<exists>b \<in> set (t_signatures tx ! 0). b \<noteq> 0) (failed ''The fee payer's signature slot is not empty.'')]"

definition signers_refusal :: "solana_request \<Rightarrow> parsed_tx \<Rightarrow> server_error option" where
  "signers_refusal r tx = first_some
     [throw_if (\<not> distinct (t_keys tx)) (failed ''The transaction lists an account twice.''),
      throw_if (t_required tx \<noteq> (if so_feePayerKey r \<noteq> None then 2 else 1))
        (failed (if so_feePayerKey r \<noteq> None then ''A sponsored payment is signed by the fee payer and the payer only.''
           else ''A self-funded payment is signed by the payer alone.'')),
      throw_if (so_feePayerKey r \<noteq> None \<and> t_keys tx ! 0 \<noteq> the (so_feePayerKey r))
        (failed ''The fee payer is not the server's.'')]"

definition signature_refusal ::
  "sol_env \<Rightarrow> solana_request \<Rightarrow> parsed_tx \<Rightarrow> string \<Rightarrow> string option \<Rightarrow> server_error option" where
  "signature_refusal env r tx payer src = first_some
     [throw_if (\<not> verifySolanaSignature env tx payer) (failed ''The payer's signature does not verify.''),
      throw_if (case src of None \<Rightarrow> False | Some s \<Rightarrow> s \<noteq> payer \<and> s \<noteq> ''did:pkh:'' @ so_network r @ '':'' @ payer)
        (failed ''source does not match the payer.'')]"

definition payer_index :: "solana_request \<Rightarrow> nat" where
  "payer_index r = (if so_feePayerKey r \<noteq> None then 1 else 0)"

definition sol_payload :: "js_runtime \<Rightarrow> props \<Rightarrow> server_error + bytes" where
  "sol_payload rt p =
     (if field ''type'' p \<noteq> JStr ''transaction'' then
        problem Pb_invalid_payload (''Credential type '' @ js_text rt (field ''type'' p) @ '' is not accepted; use transaction.'')
      else if \<not> is_str (field ''transaction'' p) then problem Pb_invalid_payload ''transaction is missing.''
      else case decodeBase64 (str_of (field ''transaction'' p)) of
        None \<Rightarrow> problem Pb_invalid_payload ''transaction is not base64.''
      | Some w \<Rightarrow> Inr w)"

definition parse_payload :: "sol_env \<Rightarrow> bytes \<Rightarrow> server_error + parsed_tx" where
  "parse_payload env wire =
     (case parseSolanaTransaction env wire of
        Inl e \<Rightarrow> problem Pb_invalid_payload (''transaction is not a v0 transaction without lookup tables: '' @ we_message e)
      | Inr tx \<Rightarrow> Inr tx)"

text \<open>An error of the core package inside a check is none of the problems.\<close>

definition crash :: "wallet_error + 'a \<Rightarrow> server_error + 'a" where
  "crash r = (case r of Inl e \<Rightarrow> Inl (Crash (we_message e)) | Inr x \<Rightarrow> Inr x)"

definition verifySolanaTransaction ::
  "js_runtime \<Rightarrow> sol_env \<Rightarrow> solana_request \<Rightarrow> props \<Rightarrow> string option \<Rightarrow> int option \<Rightarrow> server_error + verified_sol" where
  "verifySolanaTransaction rt env r p src maxFee =
     andThen (sol_payload rt p) (\<lambda>wire.
     andThen (parse_payload env wire) (\<lambda>tx.
     andThen (throw_opt (signers_refusal r tx)) (\<lambda>_.
     let payer = t_keys tx ! payer_index r in
     andThen (crash (associatedTokenAddress env (so_recipient r) (so_currency r) (or_nil (so_tokenProgram r)))) (\<lambda>destination.
     andThen (check_instructions rt r tx payer destination (t_instructions tx)
        \<lparr>ty_limit = None, ty_price = None, ty_transfers = 0, ty_memos = 0, ty_others = 0\<rparr>) (\<lambda>t.
     if ty_transfers t \<noteq> 1 then Inl (failed ''The transaction holds no TransferChecked.'')
     else
       andThen (throw_opt (if so_feePayerKey r \<noteq> None then sponsor_refusal maxFee tx t else None)) (\<lambda>_.
       andThen (throw_opt (signature_refusal env r tx payer src)) (\<lambda>_.
       Inr \<lparr>vs_transaction = wire, vs_payer = payer,
            vs_payerSignature = bytesToHex (t_signatures tx ! payer_index r),
            vs_messageHash = bytesToHex (sha256 (s_crypto env) (t_message tx))\<rparr>)))))))"

section \<open>The credential\<close>

record offer =
  of_method :: string
  of_request :: jsval

record verify_options =
  vo_secret :: secret
  vo_previous :: "secret list"
  vo_realm :: string
  vo_accept :: "offer list"
  vo_field :: "string option"
  vo_digest :: "string option"
  vo_now :: int
  vo_used :: "(string \<Rightarrow> bool) option"
  vo_evm :: "evm_options option"
  vo_maxFee :: "int option"

datatype payment = EvmPayment evm_request verified_evm | SolanaPayment solana_request verified_sol

record verified =
  vc_challenge :: challenge_params
  vc_expiresAt :: int
  vc_source :: "string option"
  vc_network :: string
  vc_payer :: string
  vc_payment :: payment

definition challengeKey :: "challenge_params \<Rightarrow> string" where
  "challengeKey p = ''mpp:challenge:'' @ cp_id p"

text \<open>\<open>secrets.some(...)\<close>: a secret that is too short throws when its turn comes.\<close>

fun some_secret :: "crypto \<Rightarrow> challenge_params \<Rightarrow> secret list \<Rightarrow> server_error + bool" where
  "some_secret c p [] = Inr False"
| "some_secret c p (s # ss) =
     (case challengeId c p s of
        Inl m \<Rightarrow> Inl (Crash m)
      | Inr i \<Rightarrow> if timingSafeEqual (cp_id p) i then Inr True else some_secret c p ss)"

fun some_offer :: "js_runtime \<Rightarrow> challenge_params \<Rightarrow> offer list \<Rightarrow> server_error + bool" where
  "some_offer rt p [] = Inr False"
| "some_offer rt p (f # fs) =
     (if of_method f \<noteq> cp_method p then some_offer rt p fs
      else case encodeCanonical rt (of_request f) of
        Inl m \<Rightarrow> Inl (Crash m)
      | Inr t \<Rightarrow> if t = cp_request p then Inr True else some_offer rt p fs)"

text \<open>The checks of the bound parameters, up to the body digest; the result is the expiry.\<close>

definition check_bound :: "js_runtime \<Rightarrow> verify_options \<Rightarrow> challenge_params \<Rightarrow> server_error + int" where
  "check_bound rt opts p =
     (let want = or_else (cp_header p) ''Authorization'' in
      if cp_realm p \<noteq> vo_realm opts then problem Pb_invalid_challenge ''The challenge is for another realm.''
      else if want \<noteq> or_else (vo_field opts) ''Authorization'' then
        problem Pb_invalid_challenge (''The credential must be sent in '' @ want @ ''.'')
      else if cp_intent p \<noteq> ''charge'' then problem Pb_method_unsupported (''Intent '' @ cp_intent p @ '' is not supported.'')
      else if cp_method p \<noteq> ''evm'' \<and> cp_method p \<noteq> ''solana'' then
        problem Pb_method_unsupported (''Method '' @ cp_method p @ '' is not supported.'')
      else case cp_expires p of
        None \<Rightarrow> problem Pb_invalid_challenge ''The challenge has no expiry.''
      | Some e \<Rightarrow>
          (case parseRfc3339 rt e of
             None \<Rightarrow> problem Pb_invalid_challenge ''The challenge expiry is unreadable.''
           | Some expiresAt \<Rightarrow>
               if expiresAt \<le> vo_now opts then problem Pb_payment_expired ''The challenge has expired.''
               else if cp_digest p \<noteq> None \<and> cp_digest p \<noteq> vo_digest opts then
                 Inl (failed ''The request body does not match the challenge digest.'')
               else Inr expiresAt))"

definition verify_payment ::
  "js_runtime \<Rightarrow> crypto \<Rightarrow> sol_env \<Rightarrow> verify_options \<Rightarrow> credential \<Rightarrow> int \<Rightarrow> props \<Rightarrow> server_error + verified" where
  "verify_payment rt c env opts cd expiresAt request =
     (let p = cd_challenge cd;
          refused = (\<lambda>why. problem Pb_invalid_challenge (''The challenge request is refused: '' @ why @ ''.''))
      in if cp_method p = ''evm'' then
        (case readEvmRequest request of
           Inl why \<Rightarrow> refused why
         | Inr r \<Rightarrow>
             andThen (verifyEvmAuthorization rt c p r (cd_payload cd) (cd_source cd) (vo_evm opts) (vo_now opts) expiresAt) (\<lambda>v.
             Inr \<lparr>vc_challenge = p, vc_expiresAt = expiresAt, vc_source = cd_source cd,
                  vc_network = ''eip155:'' @ show_int (ev_chainId r), vc_payer = ve_payer v, vc_payment = EvmPayment r v\<rparr>))
      else (case readServerSolanaRequest rt request of
           Inl why \<Rightarrow> refused why
         | Inr r \<Rightarrow>
             andThen (verifySolanaTransaction rt env r (cd_payload cd) (cd_source cd) (vo_maxFee opts)) (\<lambda>v.
             Inr \<lparr>vc_challenge = p, vc_expiresAt = expiresAt, vc_source = cd_source cd,
                  vc_network = so_network r, vc_payer = vs_payer v, vc_payment = SolanaPayment r v\<rparr>)))"

definition verify_credential ::
  "js_runtime \<Rightarrow> crypto \<Rightarrow> sol_env \<Rightarrow> verify_options \<Rightarrow> string option \<Rightarrow> server_error + verified" where
  "verify_credential rt c env opts header =
     andThen (readCredential rt header) (\<lambda>cd.
     let p = cd_challenge cd in
     andThen (some_secret c p (vo_secret opts # vo_previous opts)) (\<lambda>bound.
     if \<not> bound then problem Pb_invalid_challenge ''The challenge was not issued by this server or was altered.''
     else
       andThen (check_bound rt opts p) (\<lambda>expiresAt.
       andThen (some_offer rt p (vo_accept opts)) (\<lambda>sold.
       if \<not> sold then problem Pb_invalid_challenge ''The challenge is not for this resource.''
       else if (case vo_used opts of None \<Rightarrow> False | Some used \<Rightarrow> used (challengeKey p)) then
         problem Pb_invalid_challenge ''The challenge was already used.''
       else let request = decodeBase64UrlJson rt (cp_request p) in
         if \<not> isRecord request then problem Pb_invalid_challenge ''The challenge request is unreadable.''
         else verify_payment rt c env opts cd expiresAt (props_of request)))))"

definition verifyCredential ::
  "js_runtime \<Rightarrow> crypto \<Rightarrow> sol_env \<Rightarrow> verify_options \<Rightarrow> string option \<Rightarrow> server_error + verified" where
  "verifyCredential rt c env opts header =
     (case verify_credential rt c env opts header of
        Inl e \<Rightarrow> Inl (toPaymentProblem e)
      | Inr v \<Rightarrow> Inr v)"

end
