(* ===== verification/MppServerSafety.thy ===== *)
theory MppServerSafety
  imports MppVerify SolanaChecks
begin

text \<open>
  What a credential that \<open>verifyCredential\<close> accepts guarantees, for the EVM and the Solana method.
\<close>

section \<open>The readers do not depend on the order of keys\<close>

lemma sorted_value_shape [simp]:
  "isRecord (sorted_value v) = isRecord v" "is_str (sorted_value v) = is_str v" "str_of (sorted_value v) = str_of v"
  "int_of (sorted_value v) = int_of v" "str_where P (sorted_value v) = str_where P v"
  "safe_where Q (sorted_value v) = safe_where Q v" "integer_where Q (sorted_value v) = integer_where Q v"
  "sorted_value v = JUndefined \<longleftrightarrow> v = JUndefined" "sorted_value v = JStr s \<longleftrightarrow> v = JStr s"
  "sorted_value v = JBool b \<longleftrightarrow> v = JBool b" "sorted_value v = JArr [] \<longleftrightarrow> v = JArr []"
  "defined str_of (sorted_value v) = defined str_of v"
  by (cases v; auto simp: defined_def)+

lemma sorted_value_items [simp]: "JStr s \<in> set (items_of (sorted_value v)) \<longleftrightarrow> JStr s \<in> set (items_of v)"
proof -
  have "JStr s = sorted_value w \<longleftrightarrow> w = JStr s" for w by (cases w) auto
  then show ?thesis by (cases v) (auto simp: image_iff)
qed

lemma sorted_value_more [simp]:
  "splits_bad (sorted_value v) = splits_bad v" "js_text rt (sorted_value v) = js_text rt v"
proof -
  show "splits_bad (sorted_value v) = splits_bad v" by (simp add: splits_bad_def)
  have n: "sorted_value w = JNull \<longleftrightarrow> w = JNull" for w by (cases w) auto
  show "js_text rt (sorted_value v) = js_text rt v"
    by (induction v) (auto simp: n intro!: arg_cong [where f = join_texts])
qed

lemma field_of_sorted: "json_data v \<Longrightarrow> field k (props_of (sorted_value v)) = sorted_value (field k (props_of v))"
proof (cases v)
  case (JObj ps)
  assume "json_data v"
  then show ?thesis using JObj field_sorted by simp
qed (simp_all add: field_def or_else_def)

lemma json_data_field: "json_data v \<Longrightarrow> field k (props_of v) \<noteq> JUndefined \<Longrightarrow> json_data (field k (props_of v))"
  by (cases v) (auto simp: field_def or_else_def list_all_iff split: option.splits dest!: map_of_SomeD)

lemma nested_field_sorted:
  assumes "json_data v"
  shows "field k (props_of (sorted_value (field m (props_of v)))) = sorted_value (field k (props_of (field m (props_of v))))"
proof (cases "field m (props_of v) = JUndefined")
  case True
  then show ?thesis by (simp add: field_def or_else_def)
next
  case False
  from field_of_sorted [OF json_data_field [OF assms this]] show ?thesis .
qed

lemma readEvmRequest_sorted:
  assumes "json_data v"
  shows "readEvmRequest (props_of (sorted_value v)) = readEvmRequest (props_of v)"
  unfolding readEvmRequest_def evm_request_refusal_def field_of_sorted [OF assms] nested_field_sorted [OF assms] Let_def
  by (simp only: sorted_value_shape sorted_value_items sorted_value_more)

lemma request_network_sorted:
  assumes "json_data v"
  shows "request_network (props_of (sorted_value (field m (props_of v)))) = sorted_value (request_network (props_of (field m (props_of v))))"
  unfolding request_network_def nested_field_sorted [OF assms] by simp

lemma readSolanaRequest_sorted:
  assumes "json_data v"
  shows "readSolanaRequest rt ns (props_of (sorted_value v)) = readSolanaRequest rt ns (props_of v)"
  unfolding readSolanaRequest_def solana_request_refusal_def solana_details_refusal_def
    field_of_sorted [OF assms] nested_field_sorted [OF assms] request_network_sorted [OF assms] Let_def
  by (simp only: sorted_value_shape sorted_value_more insert_iff empty_iff)

section \<open>The bound parameters\<close>

lemma some_secret_True: "some_secret c p ss = Inr True \<Longrightarrow> \<exists>s \<in> set ss. challengeId c p s = Inr (cp_id p)"
  by (induction ss) (auto split: sum.splits if_splits)

lemma some_offer_True:
  "some_offer rt p fs = Inr True \<Longrightarrow>
     \<exists>f \<in> set fs. of_method f = cp_method p \<and> encodeCanonical rt (of_request f) = Inr (cp_request p)"
  by (induction fs) (auto split: sum.splits if_splits)

text \<open>
  The part of an acceptance both methods share: issued under one of the secrets, for this realm and
  field, a charge, unexpired, with the digest of the body, and one of the charges on offer.
\<close>

definition bound_challenge :: "js_runtime \<Rightarrow> crypto \<Rightarrow> verify_options \<Rightarrow> challenge_params \<Rightarrow> int \<Rightarrow> bool" where
  "bound_challenge rt c opts p expiresAt \<longleftrightarrow>
     (\<exists>s \<in> set (vo_secret opts # vo_previous opts). challengeId c p s = Inr (cp_id p)) \<and>
     cp_realm p = vo_realm opts \<and> cp_intent p = ''charge'' \<and> (cp_method p = ''evm'' \<or> cp_method p = ''solana'') \<and>
     or_else (cp_header p) ''Authorization'' = or_else (vo_field opts) ''Authorization'' \<and>
     (\<exists>t. cp_expires p = Some t \<and> parseRfc3339 rt t = Some expiresAt) \<and> vo_now opts < expiresAt \<and>
     (cp_digest p \<noteq> None \<longrightarrow> cp_digest p = vo_digest opts) \<and>
     (\<exists>f \<in> set (vo_accept opts). of_method f = cp_method p \<and> encodeCanonical rt (of_request f) = Inr (cp_request p)) \<and>
     (\<forall>used. vo_used opts = Some used \<longrightarrow> \<not> used (challengeKey p))"

lemma check_bound_Inr:
  "check_bound rt opts p = Inr expiresAt \<longleftrightarrow>
     cp_realm p = vo_realm opts \<and> or_else (cp_header p) ''Authorization'' = or_else (vo_field opts) ''Authorization'' \<and>
     cp_intent p = ''charge'' \<and> (cp_method p = ''evm'' \<or> cp_method p = ''solana'') \<and>
     (\<exists>t. cp_expires p = Some t \<and> parseRfc3339 rt t = Some expiresAt) \<and> vo_now opts < expiresAt \<and>
     (cp_digest p \<noteq> None \<longrightarrow> cp_digest p = vo_digest opts)"
  by (auto simp: check_bound_def Let_def not_le split: option.splits if_splits)

lemma accepted_credential:
  assumes "verifyCredential rt c env opts header = Inr v"
  shows "\<exists>cd expiresAt. readCredential rt header = Inr cd \<and> bound_challenge rt c opts (cd_challenge cd) expiresAt \<and>
    isRecord (decodeBase64UrlJson rt (cp_request (cd_challenge cd))) \<and>
    verify_payment rt c env opts cd expiresAt (props_of (decodeBase64UrlJson rt (cp_request (cd_challenge cd)))) = Inr v"
proof -
  have "verify_credential rt c env opts header = Inr v"
    using assms by (auto simp: verifyCredential_def split: sum.splits)
  then obtain cd expiresAt where h: "readCredential rt header = Inr cd"
    "some_secret c (cd_challenge cd) (vo_secret opts # vo_previous opts) = Inr True"
    "check_bound rt opts (cd_challenge cd) = Inr expiresAt"
    "some_offer rt (cd_challenge cd) (vo_accept opts) = Inr True"
    "\<not> (case vo_used opts of None \<Rightarrow> False | Some used \<Rightarrow> used (challengeKey (cd_challenge cd)))"
    "isRecord (decodeBase64UrlJson rt (cp_request (cd_challenge cd)))"
    "verify_payment rt c env opts cd expiresAt (props_of (decodeBase64UrlJson rt (cp_request (cd_challenge cd)))) = Inr v"
    by (auto simp: verify_credential_def Let_def simp del: some_secret.simps split: if_splits)
  have "bound_challenge rt c opts (cd_challenge cd) expiresAt"
    unfolding bound_challenge_def
    using some_secret_True [OF h(2)] some_offer_True [OF h(4)] h(3,5) by (auto simp: check_bound_Inr)
  with h show ?thesis by blast
qed

section \<open>EVM authorizations\<close>

lemma findDomain_Some:
  "findDomain r ds = Some d \<Longrightarrow> td_chainId d = ev_chainId r \<and> same (td_address d) (ev_currency r) \<and>
     (d \<in> set (or_nil ds) \<or> d \<in> set usdc_domains)"
  by (auto simp: findDomain_def domain_matches_def same_def find_Some_iff split: option.splits)

lemma verified_evm_payment:
  assumes "verifyEvmAuthorization rt c ch r p src opts now_ms expiresAt = Inr e"
  shows "\<exists>eo d. opts = Some eo \<and> evm_payload_refusal rt p = None \<and> findDomain r (eo_tokenDomains eo) = Some d \<and>
    evm_terms_refusal c ch r p now_ms expiresAt = None \<and>
    evm_signer_refusal c r (evm_authorization d p) (str_of (field ''signature'' p)) src = None \<and>
    authorizationState (eo_rpc eo) (ev_chainId r) (td_address d) (str_of (field ''from'' p)) (str_of (field ''nonce'' p)) = Inr (JBool False) \<and>
    (\<exists>b. balanceOf (eo_rpc eo) (ev_chainId r) (td_address d) (str_of (field ''from'' p)) = Inr (JBig b) \<and>
      dec_value (ev_amount r) \<le> b) \<and>
    e = \<lparr>ve_domain = d, ve_authorization = evm_authorization d p, ve_signature = str_of (field ''signature'' p),
         ve_payer = str_of (field ''from'' p)\<rparr>"
proof -
  obtain eo where o: "opts = Some eo" using assms by (cases opts) (simp_all add: verifyEvmAuthorization_def)
  have pay: "evm_payload_refusal rt p = None" using assms o by (simp add: verifyEvmAuthorization_def)
  obtain d where d: "findDomain r (eo_tokenDomains eo) = Some d"
    using assms o by (cases "findDomain r (eo_tokenDomains eo)") (simp_all add: verifyEvmAuthorization_def)
  have f: "r_from (evm_authorization d p) = str_of (field ''from'' p)" "r_nonce (evm_authorization d p) = str_of (field ''nonce'' p)"
    by (simp_all add: evm_authorization_def)
  show ?thesis
    using assms by (simp add: verifyEvmAuthorization_def o pay d f Let_def big_where_iff split: if_splits) blast
qed

lemma evm_terms_None:
  "evm_terms_refusal c ch r p now_ms expiresAt = None \<longleftrightarrow>
     \<not> same (str_of (field ''from'' p)) (''0x'' @ replicate 40 CHR ''0'') \<and> same (str_of (field ''to'' p)) (ev_recipient r) \<and>
     str_of (field ''value'' p) = ev_amount r \<and> same (str_of (field ''nonce'' p)) (challengeNonce c ch) \<and>
     dec_value (str_of (field ''validAfter'' p)) \<le> now_ms div 1000 \<and>
     now_ms div 1000 < dec_value (str_of (field ''validBefore'' p)) \<and>
     dec_value (str_of (field ''validBefore'' p)) \<le> expiresAt div 1000"
  by (simp add: evm_terms_refusal_def not_le not_less)

text \<open>What an accepted EVM credential answers, and the payment it carries.\<close>

lemma accepted_evm:
  assumes v: "verifyCredential rt c env opts header = Inr v" and pay: "vc_payment v = EvmPayment r e"
  obtains cd :: credential where "bound_challenge rt c opts (vc_challenge v) (vc_expiresAt v)" "vc_challenge v = cd_challenge cd"
    "readEvmRequest (props_of (decodeBase64UrlJson rt (cp_request (vc_challenge v)))) = Inr r"
    "verifyEvmAuthorization rt c (cd_challenge cd) r (cd_payload cd) (cd_source cd) (vo_evm opts) (vo_now opts) (vc_expiresAt v) = Inr e"
    "vc_payer v = ve_payer e"
proof -
  obtain cd x where cd: "bound_challenge rt c opts (cd_challenge cd) x"
    "verify_payment rt c env opts cd x (props_of (decodeBase64UrlJson rt (cp_request (cd_challenge cd)))) = Inr v"
    using accepted_credential [OF v] by blast
  have m: "cp_method (cd_challenge cd) = ''evm''"
    using cd(2) pay by (auto simp: verify_payment_def Let_def split: if_splits sum.splits)
  have r: "readEvmRequest (props_of (decodeBase64UrlJson rt (cp_request (cd_challenge cd)))) = Inr r"
    "verifyEvmAuthorization rt c (cd_challenge cd) r (cd_payload cd) (cd_source cd) (vo_evm opts) (vo_now opts) x = Inr e"
    "vc_challenge v = cd_challenge cd" "vc_expiresAt v = x" "vc_payer v = ve_payer e"
    using cd(2) pay m by (auto simp: verify_payment_def Let_def split: sum.splits)
  then show thesis using that [of cd] cd(1) by simp
qed

lemma evm_offer_priced:
  assumes "verifyCredential rt c env opts header = Inr v" "vc_payment v = EvmPayment r e"
    and "encodeCanonical rt (of_request f) = Inr (cp_request (vc_challenge v))" "json_data (of_request f)"
  shows "readEvmRequest (props_of (of_request f)) = Inr r"
  using accepted_evm [OF assms(1,2)] readEvmRequest_sorted [OF assms(4)] canonical_message_roundtrip [OF assms(4,3)] by metis

lemma evm_authorization_pays:
  assumes "verifyCredential rt c env opts header = Inr v" "vc_payment v = EvmPayment r e"
  shows "let a = ve_authorization e in
      (\<exists>s. recoverTypedDataSigner c a (ve_signature e) = Some s \<and> same s (r_from a)) \<and>
      r_primaryType a = ''TransferWithAuthorization'' \<and> r_value a = ev_amount r \<and> 0 < dec_value (r_value a) \<and>
      same (r_to a) (ev_recipient r) \<and> r_chainId a = ev_chainId r \<and> same (r_verifyingContract a) (ev_currency r) \<and>
      same (r_nonce a) (challengeNonce c (vc_challenge v)) \<and>
      dec_value (r_validAfter a) \<le> vo_now opts div 1000 \<and> vo_now opts div 1000 < dec_value (r_validBefore a) \<and>
      dec_value (r_validBefore a) * 1000 \<le> vc_expiresAt v \<and> vc_payer v = r_from a \<and>
      (\<exists>eo b. vo_evm opts = Some eo \<and>
        authorizationState (eo_rpc eo) (r_chainId a) (r_verifyingContract a) (r_from a) (r_nonce a) = Inr (JBool False) \<and>
        balanceOf (eo_rpc eo) (r_chainId a) (r_verifyingContract a) (r_from a) = Inr (JBig b) \<and> dec_value (r_value a) \<le> b)"
proof (rule accepted_evm [OF assms])
  fix cd
  assume r: "vc_challenge v = cd_challenge cd" "readEvmRequest (props_of (decodeBase64UrlJson rt (cp_request (vc_challenge v)))) = Inr r"
    "verifyEvmAuthorization rt c (cd_challenge cd) r (cd_payload cd) (cd_source cd) (vo_evm opts) (vo_now opts) (vc_expiresAt v) = Inr e"
    "vc_payer v = ve_payer e"
  have ok: "evm_request_ok r" using readEvmRequest_ok [OF r(2)] .
  obtain eo d b where e: "vo_evm opts = Some eo" "findDomain r (eo_tokenDomains eo) = Some d"
    "evm_terms_refusal c (cd_challenge cd) r (cd_payload cd) (vo_now opts) (vc_expiresAt v) = None"
    "evm_signer_refusal c r (evm_authorization d (cd_payload cd)) (str_of (field ''signature'' (cd_payload cd))) (cd_source cd) = None"
    "authorizationState (eo_rpc eo) (ev_chainId r) (td_address d) (str_of (field ''from'' (cd_payload cd)))
       (str_of (field ''nonce'' (cd_payload cd))) = Inr (JBool False)"
    "balanceOf (eo_rpc eo) (ev_chainId r) (td_address d) (str_of (field ''from'' (cd_payload cd))) = Inr (JBig b)"
    "dec_value (ev_amount r) \<le> b"
    "e = \<lparr>ve_domain = d, ve_authorization = evm_authorization d (cd_payload cd),
          ve_signature = str_of (field ''signature'' (cd_payload cd)), ve_payer = str_of (field ''from'' (cd_payload cd))\<rparr>"
    using verified_evm_payment [OF r(3)] by blast
  note dom = findDomain_Some [OF e(2)] and t = e(3) [unfolded evm_terms_None]
  have s: "\<exists>s. recoverTypedDataSigner c (ve_authorization e) (ve_signature e) = Some s \<and> same s (r_from (ve_authorization e))"
    using e(4,8) by (auto simp: evm_signer_refusal_def split: option.splits)
  have div: "n \<le> y div 1000 \<Longrightarrow> n * 1000 \<le> y" for n y :: int by linarith
  let ?a = "ve_authorization e"
  have q: "\<exists>eo b. vo_evm opts = Some eo \<and>
        authorizationState (eo_rpc eo) (r_chainId ?a) (r_verifyingContract ?a) (r_from ?a) (r_nonce ?a) = Inr (JBool False) \<and>
        balanceOf (eo_rpc eo) (r_chainId ?a) (r_verifyingContract ?a) (r_from ?a) = Inr (JBig b) \<and> dec_value (r_value ?a) \<le> b"
    using e(1,5,6,7) dom t by (intro exI [of _ eo] exI [of _ b]) (simp add: e(8) evm_authorization_def)
  show ?thesis
    unfolding Let_def
    by (intro conjI s q) (use dom t ok r(1,4) div in \<open>simp_all add: e(8) evm_authorization_def evm_request_ok_def\<close>)
qed

text \<open>
  C30: a credential that pays with an EVM authorization pays the price.  It answers a challenge issued
  under one of the server's secrets, for this realm, unexpired and on offer; the authorization is
  signed by the address it takes the money from, moves exactly the priced amount of the priced token
  on the priced chain to the priced recipient, is bound to the challenge by its nonce and valid from
  now until some time before the challenge expires; the chain says it is unused and the balance
  suffices.
\<close>

theorem evm_credential_pays:
  assumes v: "verifyCredential rt c env opts header = Inr v" and pay: "vc_payment v = EvmPayment r e"
  shows "bound_challenge rt c opts (vc_challenge v) (vc_expiresAt v) \<and>
    (\<forall>f \<in> set (vo_accept opts). encodeCanonical rt (of_request f) = Inr (cp_request (vc_challenge v)) \<longrightarrow>
       json_data (of_request f) \<longrightarrow> readEvmRequest (props_of (of_request f)) = Inr r) \<and>
    (let a = ve_authorization e in
      (\<exists>s. recoverTypedDataSigner c a (ve_signature e) = Some s \<and> same s (r_from a)) \<and>
      r_primaryType a = ''TransferWithAuthorization'' \<and> r_value a = ev_amount r \<and> 0 < dec_value (r_value a) \<and>
      same (r_to a) (ev_recipient r) \<and> r_chainId a = ev_chainId r \<and> same (r_verifyingContract a) (ev_currency r) \<and>
      same (r_nonce a) (challengeNonce c (vc_challenge v)) \<and>
      dec_value (r_validAfter a) \<le> vo_now opts div 1000 \<and> vo_now opts div 1000 < dec_value (r_validBefore a) \<and>
      dec_value (r_validBefore a) * 1000 \<le> vc_expiresAt v \<and> vc_payer v = r_from a \<and>
      (\<exists>eo b. vo_evm opts = Some eo \<and>
        authorizationState (eo_rpc eo) (r_chainId a) (r_verifyingContract a) (r_from a) (r_nonce a) = Inr (JBool False) \<and>
        balanceOf (eo_rpc eo) (r_chainId a) (r_verifyingContract a) (r_from a) = Inr (JBig b) \<and> dec_value (r_value a) \<le> b))"
  using accepted_evm [OF assms] evm_offer_priced [OF assms] evm_authorization_pays [OF assms] by blast

section \<open>Solana transactions\<close>

text \<open>The one instruction that moves the tokens, and the ones that move nothing.\<close>

definition charge_transfer :: "solana_request \<Rightarrow> parsed_tx \<Rightarrow> string \<Rightarrow> string \<Rightarrow> parsed_instruction \<Rightarrow> bool" where
  "charge_transfer r tx payer destination ix \<longleftrightarrow>
     pi_program ix = or_nil (so_tokenProgram r) \<and>
     (\<exists>source. pi_accounts ix = [source, so_currency r, destination, payer] \<and> source \<noteq> destination \<and>
        account_writable tx source \<and> account_writable tx destination) \<and>
     pi_data ix = 12 # le_u64 (dec_value (so_amount r)) @ [word_of_int (so_decimals r)]"

definition harmless :: "parsed_instruction \<Rightarrow> bool" where
  "harmless ix \<longleftrightarrow> pi_accounts ix = [] \<and> (pi_program ix = compute_budget_program \<or> pi_program ix = memo_program)"

lemma transfer_not_harmless: "charge_transfer r tx payer destination ix \<Longrightarrow> \<not> harmless ix"
  by (auto simp: charge_transfer_def harmless_def)

lemma four: "length xs = 4 \<longleftrightarrow> (\<exists>a b c d. xs = [a, b, c, d])"
  by (auto simp: length_Suc_conv eval_nat_numeral)

lemma transfer_data:
  assumes "length d = 10" "byte_at d 0 = Some 12" "readU64 d 1 = n" "int (unat (d ! 9)) = m"
  shows "d = 12 # le_u64 n @ [word_of_int m]"
proof -
  have h: "d ! 0 = 12" using assms(1,2) by (auto simp: byte_at_def split: if_splits)
  have mid: "le_u64 n = take 8 (drop 1 d)"
  proof -
    have "length (take 8 (drop 1 d)) = 8" using assms(1) by simp
    then show ?thesis
      using le_bytes_le_value [of "take 8 (drop 1 d)"] assms(3) by (auto simp: le_u64_def readU64_def)
  qed
  have l: "word_of_int m = d ! 9" using assms(4) by auto
  have "d = take 1 d @ take 8 (drop 1 d) @ drop 9 d" by (metis append_take_drop_id drop_drop numeral_plus_one semiring_norm(5) add.commute plus_nat.add_0 one_plus_numeral)
  moreover have "take 1 d = [12]" using h assms(1) by (cases d) auto
  moreover have "drop 9 d = [d ! 9]" using assms(1) by (simp add: Cons_nth_drop_Suc [symmetric])
  ultimately show ?thesis using mid l by simp
qed

lemma transfer_refusal_None:
  assumes "transfer_refusal r tx payer destination ix n = None"
    and "pi_program ix = or_nil (so_tokenProgram r)"
  shows "charge_transfer r tx payer destination ix \<and> n \<le> 1"
proof -
  note h = assms(1) [unfolded transfer_refusal_def Let_def, simplified]
  have "length (pi_accounts ix) = 4" using h by blast
  then obtain a b c d where acc: "pi_accounts ix = [a, b, c, d]" unfolding four by blast
  show ?thesis
    using h assms(2) acc transfer_data [of "pi_data ix" "dec_value (so_amount r)" "so_decimals r"]
    by (auto simp: charge_transfer_def)
qed

text \<open>The values the compute budget instructions of one kind carry: 2 is the unit limit, 3 the price.\<close>

definition budget_values :: "byte \<Rightarrow> parsed_instruction list \<Rightarrow> int list" where
  "budget_values kind ixs = map (\<lambda>ix. int (le_value (tl (pi_data ix))))
     (filter (\<lambda>ix. pi_program ix = compute_budget_program \<and> byte_at (pi_data ix) 0 = Some kind) ixs)"

definition first_of :: "int list \<Rightarrow> int option" where
  "first_of vs = (case vs of [] \<Rightarrow> None | v # _ \<Rightarrow> Some v)"

definition paying :: "parsed_instruction list \<Rightarrow> nat" where
  "paying ixs = length (filter (\<lambda>ix. pi_program ix \<noteq> compute_budget_program) ixs)"

lemma budget_Inr:
  assumes "budget_instruction ix t = Inr t'" "pi_program ix = compute_budget_program"
  shows "pi_accounts ix = [] \<and>
    ((ty_limit t = None \<and> budget_values 2 [ix] = [the (ty_limit t')] \<and> budget_values 3 [ix] = [] \<and>
      t' = t\<lparr>ty_limit := Some (the (ty_limit t'))\<rparr>) \<or>
     (ty_price t = None \<and> budget_values 3 [ix] = [the (ty_price t')] \<and> budget_values 2 [ix] = [] \<and>
      t' = t\<lparr>ty_price := Some (the (ty_price t'))\<rparr>))"
proof -
  have tl: "length d = Suc n \<Longrightarrow> take n (drop (Suc 0) d) = tl d" for n and d :: bytes by (cases d) simp_all
  show ?thesis
    using assms tl [of "pi_data ix" 4] tl [of "pi_data ix" 8]
    by (auto simp: budget_instruction_def Let_def budget_values_def readU32_def readU64_def split: if_splits)
qed

definition uses_sponsor :: "solana_request \<Rightarrow> parsed_instruction \<Rightarrow> bool" where
  "uses_sponsor r ix \<longleftrightarrow> (\<exists>s. so_feePayerKey r = Some s \<and> s \<in> set (pi_accounts ix))"

lemma checked_instruction:
  assumes "check_instruction rt r tx payer destination ix t = Inr t'"
  shows "\<not> uses_sponsor r ix \<and>
    (harmless ix \<or> charge_transfer r tx payer destination ix) \<and>
    ty_transfers t' = ty_transfers t + (if harmless ix then 0 else 1) \<and>
    ty_others t' = ty_others t + paying [ix] \<and>
    (ty_limit t = None \<longrightarrow> ty_limit t' = first_of (budget_values 2 [ix])) \<and>
    (ty_limit t \<noteq> None \<longrightarrow> budget_values 2 [ix] = [] \<and> ty_limit t' = ty_limit t) \<and>
    (ty_price t = None \<longrightarrow> ty_price t' = first_of (budget_values 3 [ix])) \<and>
    (ty_price t \<noteq> None \<longrightarrow> budget_values 3 [ix] = [] \<and> ty_price t' = ty_price t)"
proof -
  have s: "\<not> uses_sponsor r ix" using assms by (auto simp: check_instruction_def uses_sponsor_def split: if_splits option.splits)
  then have n: "\<not> (case so_feePayerKey r of None \<Rightarrow> False | Some s \<Rightarrow> s \<in> set (pi_accounts ix))"
    by (auto simp: uses_sponsor_def split: option.splits)
  consider (budget) "pi_program ix = compute_budget_program"
    | (memo) "pi_program ix \<noteq> compute_budget_program" "pi_program ix = memo_program"
    | (token) "pi_program ix \<noteq> compute_budget_program" "pi_program ix \<noteq> memo_program" by blast
  then show ?thesis
  proof cases
    case budget
    then have "budget_instruction ix t = Inr t'" using assms n by (simp add: check_instruction_def)
    note b = budget_Inr [OF this budget]
    have h: "harmless ix" "paying [ix] = 0" using b budget by (simp_all add: harmless_def paying_def)
    have f: "first_of [v] = Some v" "first_of [] = None" for v by (simp_all add: first_of_def)
    from b show ?thesis using s h f by (elim conjE disjE) (simp_all, (metis tx_tally.select_convs tx_tally.surjective tx_tally.update_convs)+)
  next
    case memo
    then have m: "memo_refusal rt r ix (ty_memos t + 1) = None" "t' = t\<lparr>ty_others := ty_others t + 1, ty_memos := ty_memos t + 1\<rparr>"
      using assms n by (auto simp: check_instruction_def Let_def)
    then have "harmless ix" "paying [ix] = 1" "budget_values k [ix] = []" for k
      using memo by (simp_all add: memo_refusal_def harmless_def paying_def budget_values_def)
    then show ?thesis using s m by (simp add: first_of_def)
  next
    case token
    then have p: "pi_program ix = or_nil (so_tokenProgram r)"
      "transfer_refusal r tx payer destination ix (ty_transfers t + 1) = None"
      "t' = t\<lparr>ty_others := ty_others t + 1, ty_transfers := ty_transfers t + 1\<rparr>"
      using assms n by (auto simp: check_instruction_def Let_def split: if_splits)
    note c = transfer_refusal_None [OF p(2,1)]
    have "\<not> harmless ix" "paying [ix] = 1" "budget_values k [ix] = []" for k
      using token by (simp_all add: harmless_def paying_def budget_values_def)
    then show ?thesis using s p(3) c by (simp add: first_of_def)
  qed
qed

lemma budget_values_Cons: "budget_values k (ix # ixs) = budget_values k [ix] @ budget_values k ixs"
  by (simp add: budget_values_def)

lemma paying_Cons: "paying (ix # ixs) = paying [ix] + paying ixs"
  by (simp add: paying_def)

lemma first_of_append: "first_of (us @ vs) = (if us = [] then first_of vs else first_of us)"
  by (cases us) (simp_all add: first_of_def)

lemma first_of_None: "first_of vs = None \<longleftrightarrow> vs = []"
  by (cases vs) (simp_all add: first_of_def)

lemma checked_instructions:
  assumes "check_instructions rt r tx payer destination ixs t = Inr t'"
  shows "(\<forall>ix \<in> set ixs. \<not> uses_sponsor r ix \<and> (harmless ix \<or> charge_transfer r tx payer destination ix)) \<and>
    ty_transfers t' = ty_transfers t + length (filter (\<lambda>ix. \<not> harmless ix) ixs) \<and>
    ty_others t' = ty_others t + paying ixs \<and>
    ty_limit t' = (if ty_limit t = None then first_of (budget_values 2 ixs) else ty_limit t) \<and>
    ty_price t' = (if ty_price t = None then first_of (budget_values 3 ixs) else ty_price t)"
  using assms
proof (induction ixs arbitrary: t)
  case Nil
  then show ?case by (simp add: paying_def budget_values_def first_of_def)
next
  case (Cons ix ixs)
  then obtain u where u: "check_instruction rt r tx payer destination ix t = Inr u"
    "check_instructions rt r tx payer destination ixs u = Inr t'" by auto
  show ?case
    using checked_instruction [OF u(1)] Cons.IH [OF u(2)]
    by (simp add: budget_values_Cons [of _ ix ixs] paying_Cons [of ix ixs] first_of_append first_of_None)
qed

text \<open>A list with one element that is not harmless.\<close>

lemma one_of: "length (filter P xs) = 1 \<Longrightarrow> \<exists>us x vs. xs = us @ x # vs \<and> P x \<and> (\<forall>y \<in> set us \<union> set vs. \<not> P y)"
proof -
  assume "length (filter P xs) = 1"
  then obtain x where "filter P xs = [x]" by (auto simp: length_Suc_conv)
  then obtain us vs where "xs = us @ x # vs" "P x" "\<forall>u \<in> set us. \<not> P u" "filter P vs = []"
    by (auto simp: filter_eq_Cons_iff)
  then show ?thesis by (fastforce simp: filter_empty_conv)
qed

text \<open>The lamports the runtime charges for priority are these units times this price, over \<open>10^6\<close>, rounded up.\<close>

definition charged_units :: "parsed_instruction list \<Rightarrow> int" where
  "charged_units ixs = min (or_else (first_of (budget_values 2 ixs)) (200000 * int (paying ixs))) 1400000"

definition charged_price :: "parsed_instruction list \<Rightarrow> int" where
  "charged_price ixs = or_else (first_of (budget_values 3 ixs)) 0"

lemma rounded_up: "(x + 999999) div 1000000 \<le> m \<Longrightarrow> x \<le> m * 1000000" for x m :: int
  by linarith

lemma verified_solana_payment:
  assumes "verifySolanaTransaction rt env r p src maxFee = Inr e"
  shows "\<exists>tx destination t. parseSolanaTransaction env (vs_transaction e) = Inr tx \<and> signers_refusal r tx = None \<and>
    associatedTokenAddress env (so_recipient r) (so_currency r) (or_nil (so_tokenProgram r)) = Inr destination \<and>
    vs_payer e = t_keys tx ! payer_index r \<and>
    check_instructions rt r tx (vs_payer e) destination (t_instructions tx)
      \<lparr>ty_limit = None, ty_price = None, ty_transfers = 0, ty_memos = 0, ty_others = 0\<rparr> = Inr t \<and> ty_transfers t = 1 \<and>
    (so_feePayerKey r \<noteq> None \<longrightarrow> sponsor_refusal maxFee tx t = None) \<and>
    signature_refusal env r tx (vs_payer e) src = None \<and>
    vs_messageHash e = bytesToHex (sha256 (s_crypto env) (t_message tx))"
proof -
  obtain wire where w: "sol_payload rt p = Inr wire" using assms by (auto simp: verifySolanaTransaction_def)
  obtain tx where tx: "parseSolanaTransaction env wire = Inr tx" "signers_refusal r tx = None"
    using assms w by (auto simp: verifySolanaTransaction_def parse_payload_def split: sum.splits)
  obtain d where d: "associatedTokenAddress env (so_recipient r) (so_currency r) (or_nil (so_tokenProgram r)) = Inr d"
    using assms w tx by (auto simp: verifySolanaTransaction_def parse_payload_def Let_def crash_def split: sum.splits)
  let ?start = "\<lparr>ty_limit = None, ty_price = None, ty_transfers = 0, ty_memos = 0, ty_others = 0\<rparr>"
  obtain t where t: "check_instructions rt r tx (t_keys tx ! payer_index r) d (t_instructions tx) ?start = Inr t"
    using assms w tx d by (auto simp: verifySolanaTransaction_def parse_payload_def Let_def crash_def)
  have one: "ty_transfers t = 1"
    using assms w tx d t by (auto simp: verifySolanaTransaction_def parse_payload_def Let_def crash_def split: if_splits)
  have rest: "so_feePayerKey r \<noteq> None \<longrightarrow> sponsor_refusal maxFee tx t = None"
    "signature_refusal env r tx (t_keys tx ! payer_index r) src = None"
    "e = \<lparr>vs_transaction = wire, vs_payer = t_keys tx ! payer_index r,
          vs_payerSignature = bytesToHex (t_signatures tx ! payer_index r),
          vs_messageHash = bytesToHex (sha256 (s_crypto env) (t_message tx))\<rparr>"
    using assms w tx d t one
    by (simp_all add: verifySolanaTransaction_def parse_payload_def Let_def crash_def split: if_splits)
  show ?thesis using tx d t one rest by (intro exI [of _ tx] exI [of _ d] exI [of _ t]) simp
qed

text \<open>What an accepted Solana credential answers, and the transaction it carries.\<close>

lemma accepted_solana:
  assumes v: "verifyCredential rt c env opts header = Inr v" and pay: "vc_payment v = SolanaPayment r e"
  obtains cd :: credential where "bound_challenge rt c opts (vc_challenge v) (vc_expiresAt v)"
    "readServerSolanaRequest rt (props_of (decodeBase64UrlJson rt (cp_request (vc_challenge v)))) = Inr r"
    "verifySolanaTransaction rt env r (cd_payload cd) (cd_source cd) (vo_maxFee opts) = Inr e" "vc_payer v = vs_payer e"
proof -
  obtain cd x where cd: "bound_challenge rt c opts (cd_challenge cd) x"
    "verify_payment rt c env opts cd x (props_of (decodeBase64UrlJson rt (cp_request (cd_challenge cd)))) = Inr v"
    using accepted_credential [OF v] by blast
  have m: "cp_method (cd_challenge cd) \<noteq> ''evm''"
    using cd(2) pay by (auto simp: verify_payment_def Let_def split: if_splits sum.splits)
  have r: "readServerSolanaRequest rt (props_of (decodeBase64UrlJson rt (cp_request (cd_challenge cd)))) = Inr r"
    "verifySolanaTransaction rt env r (cd_payload cd) (cd_source cd) (vo_maxFee opts) = Inr e"
    "vc_challenge v = cd_challenge cd" "vc_expiresAt v = x" "vc_payer v = vs_payer e"
    using cd(2) pay m by (auto simp: verify_payment_def Let_def split: sum.splits)
  then show thesis using that [of cd] cd(1) by simp
qed

lemma solana_offer_priced:
  assumes "verifyCredential rt c env opts header = Inr v" "vc_payment v = SolanaPayment r e"
    and "encodeCanonical rt (of_request f) = Inr (cp_request (vc_challenge v))" "json_data (of_request f)"
  shows "readServerSolanaRequest rt (props_of (of_request f)) = Inr r"
proof (rule accepted_solana [OF assms(1,2)])
  assume "readServerSolanaRequest rt (props_of (decodeBase64UrlJson rt (cp_request (vc_challenge v)))) = Inr r"
  then show ?thesis
    using readSolanaRequest_sorted [OF assms(4)] canonical_message_roundtrip [OF assms(4,3)] by (simp add: readServerSolanaRequest_def)
qed

text \<open>Who signs and who pays the fee, when the checks of signers and sponsor pass.\<close>

lemma fee_terms:
  assumes start: "check_instructions rt r tx payer d (t_instructions tx)
      \<lparr>ty_limit = None, ty_price = None, ty_transfers = 0, ty_memos = 0, ty_others = 0\<rparr> = Inr t"
    and s: "signers_refusal r tx = None" "payer = t_keys tx ! payer_index r"
    and f: "so_feePayerKey r \<noteq> None \<longrightarrow> sponsor_refusal maxFee tx t = None"
  shows "case so_feePayerKey r of
          None \<Rightarrow> t_required tx = 1 \<and> t_keys tx ! 0 = payer
        | Some k \<Rightarrow> t_required tx = 2 \<and> t_keys tx ! 0 = k \<and> t_keys tx ! 1 = payer \<and>
            (\<forall>y \<in> set (t_instructions tx). k \<notin> set (pi_accounts y)) \<and>
            (\<forall>b \<in> set (t_signatures tx ! 0). b = 0) \<and>
            charged_units (t_instructions tx) * charged_price (t_instructions tx) \<le> or_else maxFee 10000 * 1000000"
proof (cases "so_feePayerKey r")
  case None
  then show ?thesis using s by (simp add: signers_refusal_def payer_index_def)
next
  case (Some sponsor)
  note k = checked_instructions [OF start]
  have fee: "sponsor_refusal maxFee tx t = None" using f Some by simp
  have lim: "ty_limit t = first_of (budget_values 2 (t_instructions tx))" "ty_price t = first_of (budget_values 3 (t_instructions tx))"
    "ty_others t = paying (t_instructions tx)" using k by simp_all
  have "priority_fee t = (charged_units (t_instructions tx) * charged_price (t_instructions tx) + 999999) div 1000000"
    by (simp add: priority_fee_def Let_def lim charged_units_def charged_price_def min_def)
  then have "charged_units (t_instructions tx) * charged_price (t_instructions tx) \<le> or_else maxFee 10000 * 1000000"
    using fee rounded_up by (simp add: sponsor_refusal_def)
  moreover have "\<forall>y \<in> set (t_instructions tx). sponsor \<notin> set (pi_accounts y)" using k Some by (simp add: uses_sponsor_def)
  ultimately show ?thesis
    using s fee Some by (simp add: signers_refusal_def payer_index_def sponsor_refusal_def)
qed

text \<open>
  C31: a credential that pays with a Solana transaction pays the price.  It answers a challenge issued
  under one of the server's secrets, for this realm, unexpired and on offer; the transaction holds
  exactly one transfer, of the priced amount of the priced token from a writable account of its
  own under the payer's authority to the recipient's token account, and otherwise only compute
  budget and memo instructions without accounts; the payer's signature verifies.  A sponsored
  transaction names the sponsor's account in no instruction, has the sponsor's signature left open
  and a priority fee within the limit.
\<close>

theorem solana_credential_pays:
  assumes v: "verifyCredential rt c env opts header = Inr v" and pay: "vc_payment v = SolanaPayment r e"
  shows "bound_challenge rt c opts (vc_challenge v) (vc_expiresAt v) \<and>
    (\<forall>f \<in> set (vo_accept opts). encodeCanonical rt (of_request f) = Inr (cp_request (vc_challenge v)) \<longrightarrow>
       json_data (of_request f) \<longrightarrow> readServerSolanaRequest rt (props_of (of_request f)) = Inr r) \<and>
    (\<exists>tx destination us ix vs. parseSolanaTransaction env (vs_transaction e) = Inr tx \<and>
       associatedTokenAddress env (so_recipient r) (so_currency r) (or_nil (so_tokenProgram r)) = Inr destination \<and>
       t_instructions tx = us @ ix # vs \<and> charge_transfer r tx (vc_payer v) destination ix \<and>
       (\<forall>y \<in> set us \<union> set vs. harmless y) \<and> distinct (t_keys tx) \<and>
       verifySolanaSignature env tx (vc_payer v) \<and>
       (case so_feePayerKey r of
          None \<Rightarrow> t_required tx = 1 \<and> t_keys tx ! 0 = vc_payer v
        | Some k \<Rightarrow> t_required tx = 2 \<and> t_keys tx ! 0 = k \<and> t_keys tx ! 1 = vc_payer v \<and>
            (\<forall>y \<in> set (t_instructions tx). k \<notin> set (pi_accounts y)) \<and>
            (\<forall>b \<in> set (t_signatures tx ! 0). b = 0) \<and>
            charged_units (t_instructions tx) * charged_price (t_instructions tx) \<le> or_else (vo_maxFee opts) 10000 * 1000000))"
proof (rule accepted_solana [OF assms])
  fix cd :: credential
  assume b: "bound_challenge rt c opts (vc_challenge v) (vc_expiresAt v)"
    and x: "verifySolanaTransaction rt env r (cd_payload cd) (cd_source cd) (vo_maxFee opts) = Inr e" and p: "vc_payer v = vs_payer e"
  obtain tx d t where t: "parseSolanaTransaction env (vs_transaction e) = Inr tx" "signers_refusal r tx = None"
    "associatedTokenAddress env (so_recipient r) (so_currency r) (or_nil (so_tokenProgram r)) = Inr d"
    "vs_payer e = t_keys tx ! payer_index r"
    "check_instructions rt r tx (vs_payer e) d (t_instructions tx)
      \<lparr>ty_limit = None, ty_price = None, ty_transfers = 0, ty_memos = 0, ty_others = 0\<rparr> = Inr t" "ty_transfers t = 1"
    "so_feePayerKey r \<noteq> None \<longrightarrow> sponsor_refusal (vo_maxFee opts) tx t = None"
    "signature_refusal env r tx (vs_payer e) (cd_source cd) = None"
    using verified_solana_payment [OF x] by blast
  note k = checked_instructions [OF t(5)]
  obtain us ix vs where l: "t_instructions tx = us @ ix # vs" "\<not> harmless ix" "\<forall>y \<in> set us \<union> set vs. harmless y"
    using one_of [of "\<lambda>ix. \<not> harmless ix" "t_instructions tx"] k t(6) by auto
  have ch: "charge_transfer r tx (vc_payer v) d ix" using k l(1,2) p by auto
  have sg: "distinct (t_keys tx)" "verifySolanaSignature env tx (vc_payer v)"
    using t(2,8) p by (auto simp: signers_refusal_def signature_refusal_def)
  note fee = fee_terms [OF t(5,2,4,7), folded p]
  show ?thesis
  proof (intro conjI b)
    show "\<forall>f \<in> set (vo_accept opts). encodeCanonical rt (of_request f) = Inr (cp_request (vc_challenge v)) \<longrightarrow>
       json_data (of_request f) \<longrightarrow> readServerSolanaRequest rt (props_of (of_request f)) = Inr r"
      using solana_offer_priced [OF assms] by blast
  qed (intro exI conjI, rule t(1), rule t(3), rule l(1), rule ch, rule l(3), rule sg(1), rule sg(2), rule fee)
qed

end
