(* ===== verification/MppCharge.thy ===== *)
theory MppCharge
  imports MppVerify SessionManager
begin

text \<open>
  The client side of an MPP charge: packages/payments-mpp/src/evm-charge.ts and solana-charge.ts build
  the credential of the selected challenge, and fetch.ts pays the challenge of a 402 response once.
  Signers, the RPC and the HTTP answers are arguments; a \<open>TypeError\<close> is a thrown error of no code.
\<close>

section \<open>EVM charges\<close>

record typed_signer =
  ts_address :: string
  ts_sign :: "typed_data_request \<Rightarrow> mpp_error + string"

text \<open>
  \<open>sessionKeyMppSigner\<close> over the listing of the manager; signing is the operation
  \<open>signTypedDataWithSessionKey\<close> on the rail \<open>mpp-charge\<close>, an argument here.
\<close>

definition sessionKeyMppSigner ::
  "crypto \<Rightarrow> key_info list \<Rightarrow> string \<Rightarrow> (typed_data_request \<Rightarrow> mpp_error + string) \<Rightarrow> mpp_error + typed_signer" where
  "sessionKeyMppSigner c listing sid sign =
     (case find (\<lambda>k. i_id k = sid) listing of
        None \<Rightarrow> Inl (bad_input (''Session key '' @ sid @ '' not found.''))
      | Some info \<Rightarrow>
          (case sessionKeyAddress c (i_publicKey info) of
             None \<Rightarrow> Inl (Thrown (WalletError ''error'' ''invalid public key''))
           | Some a \<Rightarrow> Inr \<lparr>ts_address = a, ts_sign = sign\<rparr>))"

definition default_validity :: int where "default_validity = 300"

text \<open>\<open>String(validBefore)\<close> of a whole number of seconds, which a date never makes unsafe.\<close>

definition buildChargeAuthorization ::
  "crypto \<Rightarrow> wire_challenge \<Rightarrow> evm_request \<Rightarrow> token_domain \<Rightarrow> string \<Rightarrow> int \<Rightarrow> typed_data_request" where
  "buildChargeAuthorization c ch r d payer now_ms =
     \<lparr>r_name = td_name d, r_version = td_version d, r_chainId = ev_chainId r, r_verifyingContract = ev_currency r,
      r_primaryType = ''TransferWithAuthorization'', r_from = payer, r_to = ev_recipient r, r_value = ev_amount r,
      r_validAfter = ''0'',
      r_validBefore = show_int (case wc_expiresAt ch of Some e \<Rightarrow> e div 1000 | None \<Rightarrow> now_ms div 1000 + default_validity),
      r_nonce = challengeNonce c (wc_params ch)\<rparr>"

record evm_binding =
  eb_chainId :: string
  eb_token :: string
  eb_from :: string
  eb_to :: string
  eb_amount :: string
  eb_nonce :: string

record solana_binding =
  bi_cluster :: string
  bi_mint :: string
  bi_payer :: string
  bi_signer :: string
  bi_recipient :: string
  bi_amount :: string
  bi_signedMessageHash :: string

datatype charge_binding = Eip3009Binding evm_binding | TransferBinding solana_binding

record charge_credential =
  cc_header :: string
  cc_value :: string
  cc_binding :: charge_binding

definition type_error :: "string + 'a \<Rightarrow> mpp_error + 'a" where
  "type_error r = (case r of Inl m \<Rightarrow> Inl (Thrown (WalletError ''error'' m)) | Inr x \<Rightarrow> Inr x)"

lemma type_error_Inr [simp]: "type_error r = Inr x \<longleftrightarrow> r = Inr x"
  by (auto simp: type_error_def split: sum.splits)

definition authorization_payload :: "typed_data_request \<Rightarrow> string \<Rightarrow> props" where
  "authorization_payload a signature =
     [(''type'', JStr ''authorization''), (''from'', JStr (r_from a)), (''to'', JStr (r_to a)), (''value'', JStr (r_value a)),
      (''validAfter'', JStr (r_validAfter a)), (''validBefore'', JStr (r_validBefore a)), (''nonce'', JStr (r_nonce a)),
      (''signature'', JStr signature)]"

definition evm_credential :: "wire_challenge \<Rightarrow> evm_request \<Rightarrow> typed_data_request \<Rightarrow> string \<Rightarrow> mpp_credential" where
  "evm_credential ch r a signature =
     \<lparr>cr_challenge = wc_params ch, cr_payload = authorization_payload a signature,
      cr_source = Some (''did:pkh:eip155:'' @ show_int (ev_chainId r) @ '':'' @ r_from a)\<rparr>"

definition createChargeCredential ::
  "js_runtime \<Rightarrow> crypto \<Rightarrow> wire_challenge \<Rightarrow> evm_request \<Rightarrow> token_domain \<Rightarrow> typed_signer \<Rightarrow> int \<Rightarrow> mpp_error + charge_credential" where
  "createChargeCredential rt c ch r d signer now_ms =
     (let a = buildChargeAuthorization c ch r d (ts_address signer) now_ms in
      andThen (ts_sign signer a) (\<lambda>signature.
      if \<not> hex_literal 130 signature then Inl (bad_input ''Signer did not return a 65-byte signature.'')
      else andThen (type_error (encodeCredential rt (evm_credential ch r a signature))) (\<lambda>(h, v).
      Inr \<lparr>cc_header = h, cc_value = v,
           cc_binding = Eip3009Binding \<lparr>eb_chainId = ''eip155:'' @ show_int (ev_chainId r), eb_token = ev_currency r,
             eb_from = ts_address signer, eb_to = ev_recipient r, eb_amount = ev_amount r, eb_nonce = r_nonce a\<rparr>\<rparr>)))"

section \<open>Solana charges\<close>

text \<open>
  \<open>hashSolanaTransactionMessage\<close> of core/src/settlement-verification.ts; base64 decoding is third-party.
\<close>

definition hashHex :: "crypto \<Rightarrow> bytes \<Rightarrow> string" where
  "hashHex c bs = ''0x'' @ bytesToHex (sha256 c bs)"

definition hashSolanaTransactionMessage ::
  "sol_env \<Rightarrow> (string \<Rightarrow> bytes option) \<Rightarrow> string \<Rightarrow> wallet_error + string" where
  "hashSolanaTransactionMessage env b64 t =
     (case b64 t of
        None \<Rightarrow> Inl (WalletError ''error'' ''base64'')
      | Some wire \<Rightarrow> andThen (parseSolanaTransaction env wire) (\<lambda>tx. Inr (hashHex (s_crypto env) (t_message tx))))"

definition solana_credential :: "wire_challenge \<Rightarrow> solana_request \<Rightarrow> string \<Rightarrow> string \<Rightarrow> mpp_credential" where
  "solana_credential ch r transaction signer =
     \<lparr>cr_challenge = wc_params ch,
      cr_payload = [(''type'', JStr ''transaction''), (''transaction'', JStr transaction)],
      cr_source = Some (''did:pkh:'' @ so_network r @ '':'' @ signer)\<rparr>"

definition boundCredential ::
  "js_runtime \<Rightarrow> sol_env \<Rightarrow> (string \<Rightarrow> bytes option) \<Rightarrow> wire_challenge \<Rightarrow> solana_request \<Rightarrow> string \<Rightarrow> string \<Rightarrow> string \<Rightarrow>
   mpp_error + charge_credential" where
  "boundCredential rt env b64 ch r transaction payer signer =
     andThen (type_error (encodeCredential rt (solana_credential ch r transaction signer))) (\<lambda>(h, v).
     andThen (from_core (hashSolanaTransactionMessage env b64 transaction)) (\<lambda>hash.
     Inr \<lparr>cc_header = h, cc_value = v,
          cc_binding = TransferBinding \<lparr>bi_cluster = so_network r, bi_mint = so_currency r, bi_payer = payer,
            bi_signer = signer, bi_recipient = so_recipient r, bi_amount = so_amount r, bi_signedMessageHash = hash\<rparr>\<rparr>))"

text \<open>\<open>randomMemo\<close>: 16 random bytes as hexadecimal.\<close>

definition randomMemo :: "bytes \<Rightarrow> string" where
  "randomMemo bs = bytesToHex (take 16 bs)"

definition mint_refusal :: "solana_request \<Rightarrow> string \<Rightarrow> nat \<Rightarrow> mpp_error option" where
  "mint_refusal r prog dec = first_some
     [throw_if (int dec \<noteq> so_decimals r)
        (bad_challenge (''The mint has '' @ show_nat dec @ '' decimals, not '' @ show_int (so_decimals r) @ ''.'')),
      throw_if (or_nil (so_tokenProgram r) \<noteq> [] \<and> Some prog \<noteq> so_tokenProgram r)
        (bad_challenge ''The mint is not owned by the challenge's token program.'')]"

definition wallet_payment :: "solana_request \<Rightarrow> string \<Rightarrow> string \<Rightarrow> int \<Rightarrow> string \<Rightarrow> string \<Rightarrow> spl_payment" where
  "wallet_payment r payer prog dec m blockhash =
     \<lparr>feePayer = or_else (so_feePayerKey r) payer, authority = payer, sourceOwner = None, mint = so_currency r,
      tokenProgram = prog, decimals = dec, recipient = so_recipient r, amount = dec_value (so_amount r),
      memo = Some m, recentBlockhash = blockhash, computeUnitLimit = None, computeUnitPrice = None\<rparr>"

record sol_wallet =
  sw_address :: string
  sw_sign :: "bytes \<Rightarrow> wallet_error + bytes"

definition payWithWallet ::
  "js_runtime \<Rightarrow> sol_env \<Rightarrow> (string \<Rightarrow> bytes option) \<Rightarrow> wire_challenge \<Rightarrow> solana_request \<Rightarrow> sol_wallet \<Rightarrow> sol_rpc \<Rightarrow> bytes \<Rightarrow>
   mpp_error + charge_credential" where
  "payWithWallet rt env b64 ch r w rpc random =
     (if so_feePayerKey r = Some (sw_address w) then Inl (bad_challenge ''The server's fee payer is the payer itself.'')
      else
        andThen (from_core (assertSolanaCluster rpc (so_network r))) (\<lambda>_.
        andThen (from_core (getAccountInfo rpc (so_currency r))) (\<lambda>acc.
        case acc of
          None \<Rightarrow> Inl (bad_challenge ''The mint does not exist.'')
        | Some (owner, data) \<Rightarrow>
            andThen (from_core (readMint owner data)) (\<lambda>(prog, dec).
            andThen (throw_opt (mint_refusal r prog dec)) (\<lambda>_.
            andThen (from_core (getLatestBlockhash rpc)) (\<lambda>blockhash.
            let p = wallet_payment r (sw_address w) prog (int dec) (or_else (so_externalId r) (randomMemo random)) blockhash in
            andThen (from_core (buildSplTransferTransaction env p)) (\<lambda>wire.
            andThen (from_core (sw_sign w wire)) (\<lambda>signed.
            andThen (from_core (verifySignedSplTransfer env signed p False)) (\<lambda>transaction.
            boundCredential rt env b64 ch r transaction (sw_address w) (sw_address w))))))))))"

text \<open>
  A payment by a session key of \<open>SolanaSessionKeyManager\<close>.  Each of its awaits reads the keys anew: the
  stores the two listings, the check of the payment and its record see are separate arguments.
\<close>

record key_views =
  kv_mismatch :: "sol_key adapter"
  kv_info :: "sol_key adapter"
  kv_checked :: "sol_key adapter"
  kv_signed :: "sol_key adapter"
  kv_now :: int

definition listed_key :: "int \<Rightarrow> string \<Rightarrow> sol_key adapter \<Rightarrow> wallet_error + sol_info option" where
  "listed_key now_ms kid a = andThen (sol_listSessions now_ms a) (\<lambda>ks. Inr (find (\<lambda>k. sk_id k = kid) ks))"

definition key_mismatch :: "solana_request \<Rightarrow> sol_info \<Rightarrow> string option" where
  "key_mismatch r k = first_some
     [throw_if (so_network r \<noteq> ss_cluster (sk_scope k)) ''the charge is not on the session key's cluster'',
      throw_if (so_currency r \<noteq> ss_mint (sk_scope k)) ''the charge is not in the session key's mint'',
      throw_if (so_decimals r \<noteq> sk_decimals k)
        (''the mint has '' @ show_int (sk_decimals k) @ '' decimals, not '' @ show_int (so_decimals r)),
      throw_if (or_nil (so_tokenProgram r) \<noteq> [] \<and> so_tokenProgram r \<noteq> Some (sk_tokenProgram k))
        ''the mint is not owned by the charge's token program'',
      throw_if (or_nil (so_feePayerKey r) = []) ''a session key pays only charges whose fee the server sponsors'']"

definition sessionKeyMismatch ::
  "solana_request \<Rightarrow> string \<Rightarrow> int \<Rightarrow> sol_key adapter \<Rightarrow> wallet_error + string option" where
  "sessionKeyMismatch r kid now_ms a =
     andThen (listed_key now_ms kid a) (\<lambda>info.
       case info of
         None \<Rightarrow> Inr (Some (''Solana session key '' @ kid @ '' not found''))
       | Some k \<Rightarrow> Inr (key_mismatch r k))"

text \<open>
  The result and the keys after the call: an error after \<open>signPayment\<close> leaves the recorded payment.
\<close>

definition payWithSessionKey ::
  "js_runtime \<Rightarrow> sol_env \<Rightarrow> (string \<Rightarrow> bytes option) \<Rightarrow> wire_challenge \<Rightarrow> solana_request \<Rightarrow> sol_config \<Rightarrow> string \<Rightarrow> sol_rpc \<Rightarrow>
   bytes \<Rightarrow> sol_clock \<Rightarrow> key_views \<Rightarrow> (mpp_error + charge_credential) \<times> sol_key adapter" where
  "payWithSessionKey rt env b64 ch r cfg kid rpc random clk views =
     (case andThen (from_core (sessionKeyMismatch r kid (kv_now views) (kv_mismatch views))) (\<lambda>mismatch.
        case mismatch of
          Some why \<Rightarrow> Inl (MppError NoAcceptableChallenge why)
        | None \<Rightarrow>
            andThen (from_core (listed_key (kv_now views) kid (kv_info views))) (\<lambda>info.
            andThen (from_core (sol_signPayment env cfg kid
                \<lparr>sp_recipient = so_recipient r, sp_amount = dec_value (so_amount r), sp_feePayer = or_nil (so_feePayerKey r),
                 sp_memo = Some (or_else (so_externalId r) (randomMemo random))\<rparr>
                rpc clk (kv_checked views) (kv_signed views))) (\<lambda>(transaction, a). Inr (info, transaction, a)))) of
        Inl e \<Rightarrow> (Inl e, kv_signed views)
      | Inr (info, transaction, a) \<Rightarrow>
          ((case info of
              None \<Rightarrow> Inl (Thrown (WalletError ''error'' ''Cannot read properties of undefined (reading 'owner')''))
            | Some k \<Rightarrow> boundCredential rt env b64 ch r transaction (sk_owner k) (sk_address k)), a))"

section \<open>The fetch that pays\<close>

text \<open>A response; \<open>fr_origin\<close> is the origin of its URL when that is not empty.\<close>

record fetch_response =
  fr_status :: int
  fr_redirected :: bool
  fr_origin :: "string option"
  fr_authenticate :: "string option"
  fr_receipt :: "string option"
  fr_problemJson :: bool
  fr_body :: "bytes option list option"

datatype solana_payer = ByWallet sol_wallet | ByKey sol_config string

record solana_options =
  sv_payer :: solana_payer
  sv_rpc :: sol_rpc
  sv_networks :: "string list option"

record fetch_options =
  fo_chainIds :: "int list option"
  fo_tokenDomains :: "token_domain list option"
  fo_signer :: "typed_signer option"
  fo_solana :: "solana_options option"
  fo_approve :: "(selected_charge \<Rightarrow> bool) option"

text \<open>What one call reads of its surroundings, with the session keys as the filter sees them.\<close>

record fetch_world =
  fw_rt :: js_runtime
  fw_env :: sol_env
  fw_b64 :: "string \<Rightarrow> bytes option"
  fw_origin :: string
  fw_select_now :: int
  fw_sign_now :: int
  fw_random :: bytes
  fw_clk :: sol_clock
  fw_filter :: "sol_key adapter"
  fw_views :: key_views

record fetch_result =
  fe_response :: fetch_response
  fe_paid :: "selected_charge option"
  fe_receipt :: "props option"
  fe_binding :: "charge_binding option"

definition createMppFetch :: "fetch_options \<Rightarrow> mpp_error + fetch_options" where
  "createMppFetch opts =
     (if fo_signer opts = None \<and> fo_solana opts = None then
        Inl (bad_input ''createMppFetch needs a signer, a solana signer, or both.'')
      else Inr opts)"

definition keeps_challenge :: "fetch_world \<Rightarrow> solana_options \<Rightarrow> string \<Rightarrow> wire_challenge \<Rightarrow> mpp_error + bool" where
  "keeps_challenge w so kid c =
     (if cp_method (wc_params c) \<noteq> ''solana'' then Inr True
      else case readSolanaRequest (fw_rt w) (or_else (sv_networks so) both_networks) (wc_request c) of
        Inl _ \<Rightarrow> Inr False
      | Inr r \<Rightarrow> andThen (from_core (sessionKeyMismatch r kid (kv_now (fw_views w)) (fw_filter w))) (\<lambda>m. Inr (m = None)))"

definition filterAsync :: "('a \<Rightarrow> mpp_error + bool) \<Rightarrow> 'a list \<Rightarrow> mpp_error + 'a list" where
  "filterAsync keep items = andThen (map_throw keep items) (\<lambda>kept. Inr (map fst (filter snd (zip items kept))))"

definition payable :: "fetch_options \<Rightarrow> fetch_world \<Rightarrow> wire_challenge list \<Rightarrow> mpp_error + wire_challenge list" where
  "payable opts w cs =
     (case fo_solana opts of
        Some so \<Rightarrow> (case sv_payer so of ByKey cfg kid \<Rightarrow> filterAsync (keeps_challenge w so kid) cs | ByWallet _ \<Rightarrow> Inr cs)
      | None \<Rightarrow> Inr cs)"

definition fetch_selects :: "fetch_options \<Rightarrow> fetch_world \<Rightarrow> select_options" where
  "fetch_selects opts w =
     \<lparr>se_chainIds = fo_chainIds opts, se_tokenDomains = fo_tokenDomains opts, se_now = fw_select_now w,
      se_evm = (fo_signer opts \<noteq> None), se_solana = (fo_solana opts \<noteq> None),
      se_solanaNetworks = Option.bind (fo_solana opts) sv_networks\<rparr>"

text \<open>From the 402 response to the approved charge.\<close>

definition selected_of :: "fetch_options \<Rightarrow> fetch_world \<Rightarrow> fetch_response \<Rightarrow> mpp_error + selected_charge" where
  "selected_of opts w resp =
     (if fr_redirected resp \<or> (\<exists>x \<in> set_option (fr_origin resp). x \<noteq> fw_origin w) then
        Inl (bad_challenge ''Payment challenge arrived through a redirect; refusing to pay.'')
      else
        andThen (or_else (parsePaymentChallenges (fw_rt w) (fr_authenticate resp)) (Inl (bad_challenge []))) (\<lambda>(cs, rejected).
        andThen (payable opts w cs) (\<lambda>pcs.
        andThen (selectCharge (fw_rt w) pcs (fetch_selects opts w) rejected) (\<lambda>sel.
        if (case fo_approve opts of None \<Rightarrow> False | Some f \<Rightarrow> \<not> f sel) then
          Inl (MppError PaymentRejected ''Payment declined by approve().'')
        else Inr sel))))"

definition createSolanaChargeCredential ::
  "fetch_world \<Rightarrow> wire_challenge \<Rightarrow> solana_request \<Rightarrow> solana_options \<Rightarrow> (mpp_error + charge_credential) \<times> sol_key adapter" where
  "createSolanaChargeCredential w ch r so =
     (case sv_payer so of
        ByKey cfg kid \<Rightarrow>
          payWithSessionKey (fw_rt w) (fw_env w) (fw_b64 w) ch r cfg kid (sv_rpc so) (fw_random w) (fw_clk w) (fw_views w)
      | ByWallet sw \<Rightarrow>
          (payWithWallet (fw_rt w) (fw_env w) (fw_b64 w) ch r sw (sv_rpc so) (fw_random w), kv_signed (fw_views w)))"

text \<open>The branches without a signer are not reached: such a charge is not selected.\<close>

definition charge_credential_of ::
  "fetch_options \<Rightarrow> fetch_world \<Rightarrow> selected_charge \<Rightarrow> (mpp_error + charge_credential) \<times> sol_key adapter" where
  "charge_credential_of opts w sel =
     (case sel of
        SelectedEvm ch r d \<Rightarrow>
          ((case fo_signer opts of
              None \<Rightarrow> Inl (Thrown (WalletError ''error'' ''signer is undefined''))
            | Some sg \<Rightarrow> createChargeCredential (fw_rt w) (s_crypto (fw_env w)) ch r d sg (fw_sign_now w)), kv_signed (fw_views w))
      | SelectedSolana ch r \<Rightarrow>
          (case fo_solana opts of
             None \<Rightarrow> (Inl (Thrown (WalletError ''error'' ''solana is undefined'')), kv_signed (fw_views w))
           | Some so \<Rightarrow> createSolanaChargeCredential w ch r so))"

definition charge_challenge :: "selected_charge \<Rightarrow> challenge_params" where
  "charge_challenge sel = (case sel of SelectedEvm ch _ _ \<Rightarrow> wc_params ch | SelectedSolana ch _ \<Rightarrow> wc_params ch)"

text \<open>A receipt that is malformed or names another challenge is dropped.\<close>

definition receipt_for :: "js_runtime \<Rightarrow> string \<Rightarrow> string option \<Rightarrow> props option" where
  "receipt_for rt i v =
     (case parsePaymentReceipt rt v of
        Inr (Some ps) \<Rightarrow>
          if field ''challengeId'' ps \<noteq> JUndefined \<and> field ''challengeId'' ps \<noteq> JStr i then None else Some ps
      | _ \<Rightarrow> None)"

definition paid_answer ::
  "fetch_world \<Rightarrow> selected_charge \<Rightarrow> charge_credential \<Rightarrow> fetch_response \<Rightarrow> mpp_error + fetch_result" where
  "paid_answer w sel cc resp =
     (if fr_status resp = 402 then
        Inl (MppError PaymentRejected (''Server refused the payment'' @ problemDetail (fw_rt w) (fr_problemJson resp) (fr_body resp) @ ''.''))
      else Inr \<lparr>fe_response = resp, fe_paid = Some sel,
                fe_receipt = receipt_for (fw_rt w) (cp_id (charge_challenge sel)) (fr_receipt resp),
                fe_binding = Some (cc_binding cc)\<rparr>)"

text \<open>
  \<open>mppFetch\<close>: the first answer and the answer to the retry with a credential are given.  The result
  comes with the credentials sent, as field and value, and the session keys left behind.
\<close>

definition mppFetch ::
  "fetch_options \<Rightarrow> fetch_world \<Rightarrow> (mpp_error + fetch_response) \<Rightarrow> (string \<Rightarrow> string \<Rightarrow> mpp_error + fetch_response) \<Rightarrow>
   (mpp_error + fetch_result) \<times> (string \<times> string) list \<times> sol_key adapter" where
  "mppFetch opts w first second =
     (let keys = kv_signed (fw_views w) in
      case first of
        Inl e \<Rightarrow> (Inl e, [], keys)
      | Inr resp \<Rightarrow>
          if fr_status resp \<noteq> 402 then
            (Inr \<lparr>fe_response = resp, fe_paid = None, fe_receipt = None, fe_binding = None\<rparr>, [], keys)
          else case selected_of opts w resp of
            Inl e \<Rightarrow> (Inl e, [], keys)
          | Inr sel \<Rightarrow>
              (case charge_credential_of opts w sel of
                 (Inl e, a) \<Rightarrow> (Inl e, [], a)
               | (Inr cc, a) \<Rightarrow>
                   (andThen (second (cc_header cc) (cc_value cc)) (paid_answer w sel cc), [(cc_header cc, cc_value cc)], a)))"

end
