(* ===== verification/MppExchange.thy ===== *)
theory MppExchange
  imports MppServerSafety MppCharge
begin

text \<open>
  The client and the server of an MPP charge together: the credential the client sends is read back as
  it was built, and a payment of a challenge the server created is accepted by that server.
\<close>

text \<open>A credential is at most twice as long as its JSON text.\<close>

lemma credential_length:
  assumes "json_stringify rt (credential_value cr) = Inr (Some t)" "length (utf8 t) \<le> 8000"
  shows "\<exists>h v. encodeCredential rt cr = Inr (h, v) \<and> length v \<le> max_credential_length"
proof -
  have s: "length (byte_sextets bs) \<le> 2 * length bs" for bs
    by (induction bs rule: byte_sextets.induct) auto
  have "length (base64Url (utf8 t)) \<le> 16000" using s [of "utf8 t"] assms(2) by (simp add: base64Url_chars)
  then show ?thesis using assms(1) by (auto simp: encodeCredential_def encodeBase64UrlJson_def max_credential_length_def)
qed

section \<open>A credential is read back\<close>

lemma payment_text:
  assumes "t \<noteq> []" "\<forall>c \<in> set t. url_char c"
  shows "credential_text (''Payment '' @ t) = Some t"
proof -
  have p: "\<not> is_ows CHR ''P''" "lower ''Payment'' = ''payment''" "\<not> url_char CHR '' ''"
    by (simp_all add: is_ows_def) code_simp+
  have "t = hd t # tl t" "url_char (hd t)" using assms by (cases t; simp)+
  then have d: "dropWhile (\<lambda>x. x = CHR '' '') t = t" using p(3) by (cases t) auto
  have w: "takeWhile url_char t = t" "dropWhile url_char t = []" using assms(2) by simp_all
  show ?thesis
    using assms p d by (simp add: credential_text_def Let_def opens_with_def takeWhile_eq_all_conv [THEN iffD2] dropWhile_eq_Nil_conv [THEN iffD2])
qed

lemma field_opt_prop: "field k (opt_prop k' f v @ ps) = (case v of Some x \<Rightarrow> if k = k' then f x else field k ps | None \<Rightarrow> field k ps)"
  by (auto simp: opt_prop_def field_Cons split: option.splits)

lemma field_opt_prop_last: "field k (opt_prop k' f v) = (case v of Some x \<Rightarrow> if k = k' then f x else JUndefined | None \<Rightarrow> JUndefined)"
  by (auto simp: opt_prop_def field_Cons split: option.splits)

lemmas fields = field_Cons field_opt_prop field_opt_prop_last

lemma echoed_back: "echoed_params (params_props p) = p" "echoed_refusal (params_props p) = None"
proof -
  show "echoed_params (params_props p) = p"
    by (simp add: echoed_params_def params_props_def fields defined_def split: option.splits)
  have "is_str (field n (params_props p))" if "n \<in> set required_params" for n
    using that by (auto simp: required_params_def params_props_def fields)
  moreover have "field n (params_props p) = JUndefined \<or> is_str (field n (params_props p))" if "n \<in> set optional_params" for n
    using that by (auto simp: optional_params_def params_props_def fields split: option.splits)
  ultimately show "echoed_refusal (params_props p) = None" by (auto simp: echoed_refusal_def)
qed

lemma credential_reads_back:
  assumes data: "json_data (credential_value cr)" and enc: "encodeCredential rt cr = Inr (h, v)"
    and size: "length v \<le> max_credential_length"
  shows "h = or_else (cp_header (cr_challenge cr)) ''Authorization'' \<and>
    readCredential rt (Some v) = Inr \<lparr>cd_challenge = cr_challenge cr, cd_payload = cr_payload cr, cd_source = cr_source cr\<rparr>"
proof -
  let ?t = "base64Url (utf8 (stringified rt (credential_value cr)))"
  note rt = json_message_roundtrip [OF data, of rt]
  have v: "h = or_else (cp_header (cr_challenge cr)) ''Authorization''" "v = ''Payment '' @ ?t"
    using enc rt(1) by (auto simp: encodeCredential_def)
  have ne: "?t \<noteq> []"
  proof
    assume "?t = []"
    then have "utf8 (stringified rt (credential_value cr)) = []" using base64Url_inj [of _ "[]"] by (simp add: base64Url_chars)
    then show False using stringify_parses [OF data, of rt] by (auto simp: utf8_def starts_value_def)
  qed
  have t: "credential_text v = Some ?t" using payment_text [OF ne] base64Url_set v(2) by blast
  have f: "field ''challenge'' (props_of (credential_value cr)) = JObj (params_props (cr_challenge cr))"
    "field ''payload'' (props_of (credential_value cr)) = JObj (cr_payload cr)"
    "field ''source'' (props_of (credential_value cr)) = (case cr_source cr of None \<Rightarrow> JUndefined | Some s \<Rightarrow> JStr s)"
    by (simp_all add: credential_value_def fields split: option.splits)
  have s: "isRecord (credential_value cr)" by (simp add: credential_value_def)
  show ?thesis
    using v t size rt(2) f s
    by (cases "cr_source cr") (simp_all add: readCredential_def Let_def echoed_back defined_def)
qed

section \<open>The same authorization on both sides\<close>

lemma hex_decode_case: "lower s = lower t \<Longrightarrow> hex_decode s = hex_decode t"
proof -
  have d: "hex_decode (lower u) = hex_decode u" for u
    using byte_pairs_lower [of u] by (auto simp: hex_decode_def lower_def simp del: byte_pairs_lower)
  assume "lower s = lower t"
  then show ?thesis using d [of s] d [of t] by simp
qed

text \<open>The digest reads an address as bytes: the case of its digits does not matter.\<close>

lemma recover_same_contract:
  assumes "hex_literal 40 x" "hex_literal 40 (r_verifyingContract a)" "lower x = lower (r_verifyingContract a)"
  shows "recoverTypedDataSigner c (a\<lparr>r_verifyingContract := x\<rparr>) sig = recoverTypedDataSigner c a sig"
proof -
  let ?b = "a\<lparr>r_verifyingContract := x\<rparr>"
  have "lower (drop 2 x) = lower (drop 2 (r_verifyingContract a))" using assms(3) by (simp add: lower_drop)
  then have "hex_decode (drop 2 x) = hex_decode (drop 2 (r_verifyingContract a))" by (rule hex_decode_case)
  then have "abi_word x = abi_word (r_verifyingContract a)" by (simp add: abi_word_def)
  then have d: "typedDataDigest c ?b = typedDataDigest c a"
    unfolding typedDataDigest_def domain_separator_def domain_preimage_def struct_hash_def struct_preimage_def
    by (cases a) (simp only: typed_data_request.simps)
  have "validateTypedDataRequest ?b = validateTypedDataRequest a"
    using assms(1,2) unfolding validateTypedDataRequest_def by (cases a) (simp only: typed_data_request.simps)
  then show ?thesis by (simp add: recoverTypedDataSigner_def d)
qed

section \<open>What a client sends is data\<close>

lemma printable_ascii: "printable s \<Longrightarrow> ascii s"
  by (auto simp: printable_def ascii_def)

lemma hex_literal_ascii: "hex_literal n s \<Longrightarrow> ascii s"
proof -
  assume h: "hex_literal n s"
  then have r: "s = ''0x'' @ drop 2 s" "\<forall>c \<in> set (drop 2 s). is_hex c"
    using h append_take_drop_id [of "length ''0x''" s] by (auto simp: hex_literal_def starts_with_def simp flip: numeral_2_eq_2)
  have "ascii ''0x''" by code_simp
  then show ?thesis using ascii_hex [OF r(2)] by (subst r(1)) (simp only: ascii_simps)
qed

lemma formatted_data:
  assumes "formatChallenge p = Inr header"
  shows "json_data (JObj (params_props p))"
proof -
  have h: "\<forall>(n, v) \<in> set (param_list p). printable v" using assms by (auto simp: formatChallenge_def format_parts_Inr)
  have o: "opt_prop n JStr v = map (\<lambda>(n, v). (n, JStr v)) (opt_param n v)" for n and v :: "string option"
    by (cases v) (simp_all add: opt_prop_def opt_param_def)
  have e: "params_props p = map (\<lambda>(n, v). (n, JStr v)) (param_list p)"
    unfolding params_props_def param_list_def o by (simp only: list.map map_append prod.case append.simps)
  have "\<forall>q \<in> set (param_list p). ascii (fst q) \<and> ascii (snd q)"
  proof
    fix q assume q: "q \<in> set (param_list p)"
    then have "name_ok (fst q)" using param_list_facts(2) by fastforce
    then have "ascii (fst q)" by (auto simp: name_ok_def ascii_def tchar_def)
    then show "ascii (fst q) \<and> ascii (snd q)" using h q printable_ascii by fastforce
  qed
  then show ?thesis
    using param_list_facts(1) [of p] by (auto simp: e list_all_iff o_def case_prod_beta)
qed

lemma evm_credential_data:
  assumes "json_data (JObj (params_props (wc_params ch)))" "hex_literal 40 (r_from a)" "hex_literal 40 (r_to a)"
    "canonical_decimal (r_value a)" "canonical_decimal (r_validAfter a)" "canonical_decimal (r_validBefore a)"
    "hex_literal 64 (r_nonce a)" "hex_literal 130 sig"
  shows "json_data (credential_value (evm_credential ch r a sig))"
proof -
  have d: "ascii s" if c: "canonical_decimal s" for s
  proof -
    obtain n where "show_nat n = s" using parse_canonical_decimal [OF c] by blast
    then show ?thesis using ascii_digits [of "int n"] by (simp add: show_int_def)
  qed
  note asc = hex_literal_ascii d
  show ?thesis
    using assms(1) asc(1) [OF assms(2)] asc(1) [OF assms(3)] asc(1) [OF assms(7)] asc(1) [OF assms(8)]
      asc(2) [OF assms(4)] asc(2) [OF assms(5)] asc(2) [OF assms(6)] ascii_digits [of "ev_chainId r"]
    by (simp add: credential_value_def evm_credential_def authorization_payload_def opt_prop_def ord_def)
qed

section \<open>The server accepts what the client pays\<close>

lemma dec_value_show: "0 \<le> n \<Longrightarrow> dec_value (show_int n) = n"
proof -
  assume n: "0 \<le> n"
  then have s: "show_int n = show_nat (nat n)" by (simp add: show_int_def)
  obtain m where "dec_value (show_nat (nat n)) = int m" "show_nat m = show_nat (nat n)"
    using dec_value_canonical [OF canonical_decimal_show] by blast
  then show ?thesis using n s show_int_inj [of "int m" n] by (simp add: show_int_def)
qed

lemma some_offer_found:
  assumes "\<forall>f \<in> set fs. json_data (of_request f)" "f \<in> set fs" "of_method f = cp_method p"
    "encodeCanonical rt (of_request f) = Inr (cp_request p)"
  shows "some_offer rt p fs = Inr True"
  using assms
proof (induction fs)
  case (Cons g gs)
  have "\<exists>t. encodeCanonical rt (of_request g) = Inr t"
    using canonical_total [of "of_request g" rt] Cons.prems(1) by (auto simp: encodeCanonical_def)
  then show ?case using Cons by auto
qed simp

text \<open>What the server must be told to accept a challenge it built from an input.\<close>

definition server_expects :: "challenge_input \<Rightarrow> verify_options \<Rightarrow> int \<Rightarrow> bool" where
  "server_expects input opts expiresAt \<longleftrightarrow>
     vo_secret opts = ci_secret input \<and> vo_realm opts = ci_realm input \<and>
     or_else (ci_header input) ''Authorization'' = or_else (vo_field opts) ''Authorization'' \<and>
     (ci_digest input \<noteq> None \<longrightarrow> ci_digest input = vo_digest opts) \<and>
     \<lparr>of_method = ci_method input, of_request = ci_request input\<rparr> \<in> set (vo_accept opts) \<and>
     (\<forall>f \<in> set (vo_accept opts). json_data (of_request f)) \<and>
     (\<forall>used. vo_used opts = Some used \<longrightarrow> (\<forall>k. \<not> used k)) \<and>
     0 \<le> vo_now opts \<and> vo_now opts div 1000 < expiresAt div 1000"

lemma readback_accepted:
  assumes p: "buildChallenge rt c input = Inr p" and exp: "Option.bind (cp_expires p) (parseRfc3339 rt) = Some x"
    and m: "ci_method input = ''evm'' \<or> ci_method input = ''solana''"
    and ok: "server_expects input opts x" and cd: "readCredential rt header = Inr cd" "cd_challenge cd = p"
  shows "verify_credential rt c env opts header =
    verify_payment rt c env opts cd x (props_of (sorted_value (ci_request input)))"
proof -
  note b = built_challenge [OF p]
  note e = ok [unfolded server_expects_def]
  have x: "vo_now opts < x" using e by (metis not_le zdiv_mono1 zero_less_numeral)
  have s: "some_secret c p (vo_secret opts # vo_previous opts) = Inr True" using b e by simp
  have intent: "cp_intent p = ''charge''"
    using b m by (auto simp: method_refusal_def Let_def)
  obtain t where t: "cp_expires p = Some t" "parseRfc3339 rt t = Some x" using exp by (cases "cp_expires p") auto
  have c: "check_bound rt opts p = Inr x"
    unfolding check_bound_Inr using b e intent m x t by auto
  have o: "some_offer rt p (vo_accept opts) = Inr True"
    using some_offer_found [of "vo_accept opts" "\<lparr>of_method = ci_method input, of_request = ci_request input\<rparr>" p rt] b e by simp
  have u: "\<not> (case vo_used opts of None \<Rightarrow> False | Some used \<Rightarrow> used (challengeKey p))"
    using e by (auto split: option.splits)
  have j: "json_data (ci_request input)" using e by fastforce
  have d: "decodeBase64UrlJson rt (cp_request p) = sorted_value (ci_request input)"
    using canonical_message_roundtrip [OF j] b by blast
  have r: "isRecord (ci_request input)"
    using b by (auto simp: early_refusal_def)
  show ?thesis
    using cd(1) s c o u d r unfolding cd(2) [symmetric]
    by (simp add: verify_credential_def Let_def del: some_secret.simps)
qed

text \<open>The server's authorization is the client's, up to the case of the token address.\<close>

lemma evm_authorization_back:
  "evm_authorization d' (authorization_payload (buildChargeAuthorization c ch r d payer now_ms) sig) =
     (buildChargeAuthorization c ch r d payer now_ms)
       \<lparr>r_name := td_name d', r_version := td_version d', r_chainId := td_chainId d', r_verifyingContract := td_address d'\<rparr>"
  by (simp add: evm_authorization_def authorization_payload_def buildChargeAuthorization_def fields)

lemma challengeNonce_hex:
  assumes "hash_lengths c"
  shows "hex_literal 64 (challengeNonce c p)"
  using assms bytesToHex_hex by (auto simp: challengeNonce_def hex_literal_def starts_with_def hash_lengths_def)

text \<open>
  The law of the client's signer: a signature of an authorization from its own address recovers to it.
\<close>

definition signs_as_itself :: "crypto \<Rightarrow> typed_signer \<Rightarrow> bool" where
  "signs_as_itself c sg \<longleftrightarrow> (\<forall>a sig. ts_sign sg a = Inr sig \<longrightarrow> r_from a = ts_address sg \<longrightarrow>
     (\<exists>s. recoverTypedDataSigner c a sig = Some s \<and> s \<noteq> [] \<and> same s (r_from a)))"

text \<open>The chain: the authorization is unused and the payer holds the amount.\<close>

definition chain_agrees :: "evm_rpc \<Rightarrow> int \<Rightarrow> string \<Rightarrow> string \<Rightarrow> string \<Rightarrow> int \<Rightarrow> bool" where
  "chain_agrees rpc cid contract payer nonce n \<longleftrightarrow>
     authorizationState rpc cid contract payer nonce = Inr (JBool False) \<and>
     (\<exists>b. balanceOf rpc cid contract payer = Inr (JBig b) \<and> n \<le> b)"

lemma evm_authorization_accepted:
  assumes lens: "hash_lengths c" and r: "evm_request_ok r" and payer: "hex_literal 40 payer"
    and notzero: "\<not> same payer (''0x'' @ replicate 40 CHR ''0'')"
    and a: "a = buildChargeAuthorization c ch r d payer sign_now" and sig: "hex_literal 130 sig"
    and exp: "wc_expiresAt ch = Some x"
    and sgn: "recoverTypedDataSigner c a sig = Some sgner" "sgner \<noteq> []" "same sgner payer"
    and d: "findDomain r (eo_tokenDomains eo) = Some d'" "td_name d' = td_name d" "td_version d' = td_version d"
      "hex_literal 40 (td_address d')"
    and now: "0 \<le> now_ms" "now_ms div 1000 < x div 1000" "x div 1000 \<le> uint256_max"
    and chain: "chain_agrees (eo_rpc eo) (ev_chainId r) (td_address d') payer (challengeNonce c (wc_params ch)) (dec_value (ev_amount r))"
    and src: "src = Some (''did:pkh:eip155:'' @ show_int (ev_chainId r) @ '':'' @ payer)"
  shows "\<exists>e. verifyEvmAuthorization rt c (wc_params ch) r (authorization_payload a sig) src (Some eo) now_ms x = Inr e \<and>
    ve_payer e = payer \<and> ve_authorization e = a\<lparr>r_verifyingContract := td_address d'\<rparr> \<and> ve_signature e = sig"
proof -
  note dom = findDomain_Some [OF d(1)]
  let ?p = "authorization_payload a sig"
  have f: "field ''type'' ?p = JStr ''authorization''" "field ''from'' ?p = JStr payer" "field ''to'' ?p = JStr (ev_recipient r)"
    "field ''value'' ?p = JStr (ev_amount r)" "field ''validAfter'' ?p = JStr ''0''"
    "field ''validBefore'' ?p = JStr (show_int (x div 1000))"
    "field ''nonce'' ?p = JStr (challengeNonce c (wc_params ch))" "field ''signature'' ?p = JStr sig"
    by (simp_all add: authorization_payload_def a buildChargeAuthorization_def fields exp)
  have x: "0 \<le> x div 1000" using now by linarith
  have zero: "dec_value ''0'' = 0" by code_simp
  have cd: "canonical_decimal (show_int (x div 1000))" using x by (simp add: show_int_def)
  have pay: "evm_payload_refusal rt ?p = None"
    using payer r challengeNonce_hex [OF lens] sig cd now(3) x zero
    by (simp add: evm_payload_refusal_def f decimal_uint256_def evm_request_ok_def dec_value_show canonical_decimal_def
        del: first_error.simps)
  have terms: "evm_terms_refusal c (wc_params ch) r ?p now_ms x = None"
    unfolding evm_terms_None f str_of.simps using notzero now x zero by (simp add: same_def dec_value_show)
  have eq: "evm_authorization d' ?p = a\<lparr>r_verifyingContract := td_address d'\<rparr>"
    unfolding a evm_authorization_back using d dom by (simp add: buildChargeAuthorization_def)
  have contract: "r_verifyingContract a = ev_currency r" "r_from a = payer" by (simp_all add: a buildChargeAuthorization_def)
  have "recoverTypedDataSigner c (a\<lparr>r_verifyingContract := td_address d'\<rparr>) sig = Some sgner"
    using recover_same_contract [of "td_address d'" a c sig] d(4) dom r sgn(1) contract
    by (simp add: evm_request_ok_def same_def)
  then have "evm_signer_refusal c r (evm_authorization d' ?p) sig src = None"
    using sgn(2,3) src contract by (simp add: evm_signer_refusal_def eq same_def)
  moreover obtain b where "balanceOf (eo_rpc eo) (ev_chainId r) (td_address d') payer = Inr (JBig b)" "dec_value (ev_amount r) \<le> b"
    using chain by (auto simp: chain_agrees_def)
  moreover have "r_from (a\<lparr>r_verifyingContract := td_address d'\<rparr>) = payer"
    "r_nonce (a\<lparr>r_verifyingContract := td_address d'\<rparr>) = challengeNonce c (wc_params ch)"
    by (simp_all add: a buildChargeAuthorization_def)
  ultimately show ?thesis
    using pay terms d(1) chain by (simp add: verifyEvmAuthorization_def f Let_def eq chain_agrees_def big_where_iff)
qed

lemma created_expiry:
  assumes "buildChallenge rt c input = Inr p" "ci_method input = ''evm'' \<or> ci_method input = ''solana''"
    and "\<And>t. ci_expires input = Some (ExpiresDate (Some t)) \<Longrightarrow> parseRfc3339 rt (rt_iso rt t) = Some t"
  shows "\<exists>x. Option.bind (cp_expires p) (parseRfc3339 rt) = Some x"
proof -
  note b = built_challenge [OF assms(1)]
  have "cp_expires p \<noteq> None" using b assms(2) by (auto simp: method_refusal_def Let_def)
  then show ?thesis
    using b assms(3) by (auto simp: read_expires_def split: option.splits expires_input.splits if_splits)
qed

lemma single_selection:
  assumes "parsePaymentChallenges rt (Some header) = Some (Inr ([w], []))"
    and "parsePaymentChallenges rt (Some header) = Some (Inr (cs, rejected))"
    and "selectCharge rt cs sopts rejected = Inr sel"
  shows "charge_of rt w sopts = Inr sel"
  using assms by (auto simp: selectCharge_def split: sum.splits)

lemma charge_of_evm:
  assumes "charge_of rt w sopts = Inr (SelectedEvm ch r d)"
  shows "ch = w \<and> cp_method (wc_params w) = ''evm'' \<and> readEvmRequest (wc_request w) = Inr r \<and>
    findDomain r (se_tokenDomains sopts) = Some d"
  using assms by (auto simp: charge_of_def evm_charge_of_def Let_def split: if_splits option.splits)

lemma created_credential:
  assumes "createChargeCredential rt c ch r d sg now_ms = Inr cc"
  shows "\<exists>sig. ts_sign sg (buildChargeAuthorization c ch r d (ts_address sg) now_ms) = Inr sig \<and> hex_literal 130 sig \<and>
    encodeCredential rt (evm_credential ch r (buildChargeAuthorization c ch r d (ts_address sg) now_ms) sig) =
      Inr (cc_header cc, cc_value cc)"
  using assms by (auto simp: createChargeCredential_def Let_def split: if_splits)

lemma evm_exchange_accepted:
  assumes header: "createChallenge rt c input = Inr header" and m: "ci_method input = ''evm''"
    and data: "json_data (ci_request input)" "\<And>v. ci_opaque input = Some v \<Longrightarrow> json_data v"
    and crypto: "\<And>k x. hmac_sha256 c k x \<noteq> []" "hash_lengths c"
    and dates: "\<And>t. ci_expires input = Some (ExpiresDate (Some t)) \<Longrightarrow> parseRfc3339 rt (rt_iso rt t) = Some t"
    and read: "parsePaymentChallenges rt (Some header) = Some (Inr (cs, rejected))"
    and sel: "selectCharge rt cs sopts rejected = Inr (SelectedEvm ch r d)"
    and signer: "hex_literal 40 (ts_address sg)" "\<not> same (ts_address sg) (''0x'' @ replicate 40 CHR ''0'')" "signs_as_itself c sg"
    and cc: "createChargeCredential rt c ch r d sg sign_now = Inr cc" "length (cc_value cc) \<le> max_credential_length"
    and server: "\<And>x. wc_expiresAt ch = Some x \<Longrightarrow> server_expects input opts x \<and> x div 1000 \<le> uint256_max"
      "vo_evm opts = Some eo" "findDomain r (eo_tokenDomains eo) = Some d'" "td_name d' = td_name d"
      "td_version d' = td_version d" "hex_literal 40 (td_address d')"
    and agrees: "chain_agrees (eo_rpc eo) (ev_chainId r) (td_address d') (ts_address sg) (challengeNonce c (wc_params ch))
      (dec_value (ev_amount r))"
  shows "cc_header cc = or_else (vo_field opts) ''Authorization'' \<and>
    readEvmRequest (props_of (ci_request input)) = Inr r \<and>
    (\<exists>v e. verifyCredential rt c env opts (Some (cc_value cc)) = Inr v \<and> vc_payment v = EvmPayment r e \<and>
       vc_challenge v = wc_params ch \<and> vc_payer v = ts_address sg)"
proof -
  obtain p where p: "buildChallenge rt c input = Inr p" "formatChallenge p = Inr header"
    using header by (auto simp: createChallenge_def)
  note b = built_challenge [OF p(1)]
  obtain x where x: "Option.bind (cp_expires p) (parseRfc3339 rt) = Some x" using created_expiry [OF p(1) _ dates] m by blast
  let ?w = "\<lparr>wc_params = p, wc_request = props_of (sorted_value (ci_request input)), wc_expiresAt = Some x\<rparr>"
  have "parsePaymentChallenges rt (Some header) = Some (Inr ([?w], []))"
    using created_challenge_read [OF header data crypto(1) dates] p(1) x by auto
  note c = charge_of_evm [OF single_selection [OF this read sel]]
  have w: "wc_params ch = p" "wc_expiresAt ch = Some x" "readEvmRequest (props_of (ci_request input)) = Inr r"
    using c readEvmRequest_sorted [OF data(1)] by auto
  have srv: "server_expects input opts x" "x div 1000 \<le> uint256_max" using server(1) w(2) by blast+
  note e = srv(1) [unfolded server_expects_def]
  have ok: "evm_request_ok r" using readEvmRequest_ok w(3) by blast
  let ?a = "buildChargeAuthorization c ch r d (ts_address sg) sign_now"
  obtain sig where sig: "ts_sign sg ?a = Inr sig" "hex_literal 130 sig"
    "encodeCredential rt (evm_credential ch r ?a sig) = Inr (cc_header cc, cc_value cc)"
    using created_credential [OF cc(1)] by blast
  have f: "r_from ?a = ts_address sg" "r_to ?a = ev_recipient r" "r_value ?a = ev_amount r" "r_validAfter ?a = ''0''"
    "r_validBefore ?a = show_int (x div 1000)" "r_nonce ?a = challengeNonce c p"
    by (simp_all add: buildChargeAuthorization_def w)
  have x0: "0 \<le> x div 1000" "vo_now opts div 1000 < x div 1000" "0 \<le> vo_now opts" using e by linarith+
  have "json_data (credential_value (evm_credential ch r ?a sig))"
    using formatted_data [OF p(2)] w signer(1) ok sig(2) challengeNonce_hex [OF crypto(2)] x0
    by (intro evm_credential_data) (simp_all add: f evm_request_ok_def show_int_def canonical_decimal_def [of "''0''"])
  note readback = credential_reads_back [OF this sig(3) cc(2)]
  let ?cd = "\<lparr>cd_challenge = p, cd_payload = authorization_payload ?a sig,
     cd_source = Some (''did:pkh:eip155:'' @ show_int (ev_chainId r) @ '':'' @ ts_address sg)\<rparr>"
  have cd: "readCredential rt (Some (cc_value cc)) = Inr ?cd" "cc_header cc = or_else (cp_header p) ''Authorization''"
    using readback by (simp_all add: evm_credential_def w f)
  have v: "verify_credential rt c env opts (Some (cc_value cc)) =
      verify_payment rt c env opts ?cd x (props_of (sorted_value (ci_request input)))"
    using readback_accepted [OF p(1) x _ srv(1) cd(1)] m by simp
  obtain sgner where sgner: "recoverTypedDataSigner c ?a sig = Some sgner" "sgner \<noteq> []" "same sgner (ts_address sg)"
    using signer(3) sig(1) f(1) unfolding signs_as_itself_def by metis
  obtain ev where ev: "verifyEvmAuthorization rt c p r (authorization_payload ?a sig)
      (Some (''did:pkh:eip155:'' @ show_int (ev_chainId r) @ '':'' @ ts_address sg)) (Some eo) (vo_now opts) x = Inr ev"
    "ve_payer ev = ts_address sg"
    using evm_authorization_accepted [OF crypto(2) ok signer(1,2) refl sig(2) w(2) sgner server(3-6) x0(3,2) srv(2) agrees refl]
    unfolding w(1) by blast
  have "verify_payment rt c env opts ?cd x (props_of (sorted_value (ci_request input))) =
      Inr \<lparr>vc_challenge = p, vc_expiresAt = x, vc_source = cd_source ?cd, vc_network = ''eip155:'' @ show_int (ev_chainId r),
           vc_payer = ts_address sg, vc_payment = EvmPayment r ev\<rparr>"
    using ev b m server(2) w(3) by (simp add: verify_payment_def Let_def readEvmRequest_sorted [OF data(1)])
  then show ?thesis
    using v cd(2) b e w by (simp add: verifyCredential_def)
qed

text \<open>
  C32: an EVM charge works end to end.  The server creates a challenge for a price; a client that parses
  the header, selects it and pays it with a signer that signs as its own address produces a credential,
  for the field the server expects, that the server accepts as a payment of exactly that request from
  that address.  (The server offers the price, knows the token under the same name and version and has
  a second left before the expiry; the chain reports the authorization unused and the balance
  sufficient.)
\<close>

theorem evm_charge_completes:
  assumes header: "createChallenge rt c input = Inr header" and m: "ci_method input = ''evm''"
    and data: "json_data (ci_request input)" "\<And>v. ci_opaque input = Some v \<Longrightarrow> json_data v"
    and crypto: "\<And>k x. hmac_sha256 c k x \<noteq> []" "hash_lengths c"
    and dates: "\<And>t. ci_expires input = Some (ExpiresDate (Some t)) \<Longrightarrow> parseRfc3339 rt (rt_iso rt t) = Some t"
    and read: "parsePaymentChallenges rt (Some header) = Some (Inr (cs, rejected))"
    and sel: "selectCharge rt cs sopts rejected = Inr (SelectedEvm ch r d)"
    and signer: "hex_literal 40 (ts_address sg)" "\<not> same (ts_address sg) (''0x'' @ replicate 40 CHR ''0'')" "signs_as_itself c sg"
    and cc: "createChargeCredential rt c ch r d sg sign_now = Inr cc" "length (cc_value cc) \<le> max_credential_length"
    and server: "\<And>x. wc_expiresAt ch = Some x \<Longrightarrow> server_expects input opts x \<and> x div 1000 \<le> uint256_max"
      "vo_evm opts = Some eo" "findDomain r (eo_tokenDomains eo) = Some d'" "td_name d' = td_name d"
      "td_version d' = td_version d" "hex_literal 40 (td_address d')"
    and agrees: "chain_agrees (eo_rpc eo) (ev_chainId r) (td_address d') (ts_address sg) (challengeNonce c (wc_params ch))
      (dec_value (ev_amount r))"
  shows "cc_header cc = or_else (vo_field opts) ''Authorization'' \<and>
    readEvmRequest (props_of (ci_request input)) = Inr r \<and>
    (\<exists>v e. verifyCredential rt c env opts (Some (cc_value cc)) = Inr v \<and> vc_payment v = EvmPayment r e \<and>
       vc_challenge v = wc_params ch \<and> vc_payer v = ts_address sg)"
  by (rule evm_exchange_accepted [OF assms])

end
