(* ===== verification/MppSettle.thy ===== *)
theory MppSettle
  imports MppServerSafety
begin

text \<open>
  packages/payments-mpp/src/server/verify.ts (\<open>settleCredential\<close>), evm.ts and solana.ts: the settlement
  of a verified credential.  The challenge and the payment are recorded as used before anything is
  sent.  The chain and the keys are arguments; an answer that is not checked for its type is a
  dynamic value.
\<close>

section \<open>Submission\<close>

record evm_submission =
  es_chainId :: int
  es_token :: string
  es_from :: string
  es_to :: string
  es_value :: int
  es_validAfter :: int
  es_validBefore :: int
  es_nonce :: string
  es_signature :: string
  es_v :: "nat option"
  es_r :: string
  es_s :: string

definition evm_submission_of :: "verified_evm \<Rightarrow> evm_submission" where
  "evm_submission_of e =
     (let a = ve_authorization e; sig = ve_signature e in
      \<lparr>es_chainId = r_chainId a, es_token = r_verifyingContract a, es_from = r_from a, es_to = r_to a,
       es_value = dec_value (r_value a), es_validAfter = dec_value (r_validAfter a),
       es_validBefore = dec_value (r_validBefore a), es_nonce = r_nonce a, es_signature = sig,
       es_v = parse_base 16 (js_slice 130 132 sig), es_r = ''0x'' @ js_slice 2 66 sig, es_s = ''0x'' @ js_slice 66 130 sig\<rparr>)"

text \<open>The answer of \<open>submit\<close> is its \<open>transactionHash\<close>.\<close>

definition settleEvmAuthorization ::
  "verified_evm \<Rightarrow> (evm_submission \<Rightarrow> server_error + jsval) option \<Rightarrow> server_error + string" where
  "settleEvmAuthorization e submit =
     (case submit of
        None \<Rightarrow> Inl (Crash ''settleCredential needs evm.submit for evm charges.'')
      | Some f \<Rightarrow>
          andThen (f (evm_submission_of e)) (\<lambda>hash.
          if str_where (hex_literal 64) hash then Inr (lower (str_of hash))
          else Inl (Crash ''evm.submit did not return a transaction hash.'')))"

record settle_rpc =
  sr_simulate :: "string \<Rightarrow> server_error + jsval"
  sr_send :: "string \<Rightarrow> server_error + jsval"
  sr_confirm :: "string \<Rightarrow> server_error + jsval"
  sr_account :: "(string \<Rightarrow> server_error + (string \<times> bytes) option) option"

record solana_deps =
  sd_rpc :: settle_rpc
  sd_signAsFeePayer :: "(bytes \<Rightarrow> server_error + bytes) option"

definition assertUsableMint :: "solana_request \<Rightarrow> settle_rpc \<Rightarrow> server_error + unit" where
  "assertUsableMint r rpc =
     (case sr_account rpc of
        None \<Rightarrow> Inl (Crash ''settleCredential needs solana.rpc.getAccountInfo for Token-2022 charges.'')
      | Some account \<Rightarrow>
          andThen (account (so_currency r)) (\<lambda>acc.
          case acc of
            None \<Rightarrow> Inl (failed ''The mint does not exist.'')
          | Some (owner, data) \<Rightarrow>
              (case readMint owner data of
                 Inl e \<Rightarrow> Inl (failed (we_message e))
               | Inr (prog, dec) \<Rightarrow>
                   if Some prog \<noteq> so_tokenProgram r \<or> int dec \<noteq> so_decimals r then
                     Inl (failed ''The mint does not match the challenge's token program or decimals.'')
                   else Inr ())))"

text \<open>The co-signature of a sponsored transaction: only the sponsor's signature may change.\<close>

definition cosign_refusal :: "sol_env \<Rightarrow> parsed_tx \<Rightarrow> parsed_tx \<Rightarrow> string \<Rightarrow> bool" where
  "cosign_refusal env unsigned_tx tx sponsor \<longleftrightarrow>
     t_message tx \<noteq> t_message unsigned_tx \<or> length (t_signatures tx) \<noteq> 2 \<or>
     take 1 (drop 1 (t_signatures tx)) \<noteq> take 1 (drop 1 (t_signatures unsigned_tx)) \<or>
     \<not> verifySolanaSignature env tx sponsor"

definition cosigned :: "sol_env \<Rightarrow> solana_request \<Rightarrow> solana_deps \<Rightarrow> bytes \<Rightarrow> parsed_tx \<Rightarrow> server_error + bytes" where
  "cosigned env r deps wire tx =
     (case so_feePayerKey r of
        None \<Rightarrow> Inr wire
      | Some sponsor \<Rightarrow>
          (case sd_signAsFeePayer deps of
             None \<Rightarrow> Inl (Crash ''settleCredential needs solana.signAsFeePayer for sponsored charges.'')
           | Some sign \<Rightarrow>
               andThen (sign wire) (\<lambda>wire'.
               case parseSolanaTransaction env wire' of
                 Inl _ \<Rightarrow> Inl (Crash ''signAsFeePayer returned an unreadable transaction.'')
               | Inr tx' \<Rightarrow>
                   if cosign_refusal env tx tx' sponsor then
                     Inl (Crash ''signAsFeePayer changed the transaction or did not sign it as the fee payer.'')
                   else Inr wire')))"

definition settleSolanaTransaction ::
  "sol_env \<Rightarrow> solana_request \<Rightarrow> verified_sol \<Rightarrow> solana_deps option \<Rightarrow> server_error + string" where
  "settleSolanaTransaction env r v deps =
     (case deps of
        None \<Rightarrow> Inl (Crash ''settleCredential needs solana.rpc for solana charges.'')
      | Some d \<Rightarrow>
          let rpc = sd_rpc d in
          andThen (if so_tokenProgram r \<noteq> Some token_program then assertUsableMint r rpc else Inr ()) (\<lambda>_.
          andThen (crash (parseSolanaTransaction env (vs_transaction v))) (\<lambda>tx.
          andThen (cosigned env r d (vs_transaction v) tx) (\<lambda>wire.
          andThen (crash (andThen (parseSolanaTransaction env wire) (solanaTransactionId env))) (\<lambda>expected.
          andThen (sr_simulate rpc (btoa wire)) (\<lambda>simulation.
          if \<not> isRecord simulation \<or> field ''err'' (props_of simulation) \<noteq> JNull then
            Inl (failed ''The transaction fails in simulation.'')
          else
            andThen (sr_send rpc (btoa wire)) (\<lambda>signature.
            if signature \<noteq> JStr expected then Inl (Crash ''sendTransaction reported another signature.'')
            else
              andThen (sr_confirm rpc expected) (\<lambda>confirmed.
              if confirmed \<noteq> JBool True then Inl (failed ''The transaction did not confirm.'')
              else Inr expected))))))))"

section \<open>Recording a payment as used\<close>

type_synonym 's consume = "int \<Rightarrow> string \<Rightarrow> int \<Rightarrow> 's \<Rightarrow> bool \<times> 's"

definition consume_key :: "'s consume \<Rightarrow> int \<Rightarrow> string \<Rightarrow> int \<Rightarrow> 's \<Rightarrow> (server_error + unit) \<times> 's" where
  "consume_key consume now k until s =
     (case consume now k until s of (recorded, s') \<Rightarrow>
        (if recorded then Inr () else problem Pb_invalid_challenge ''The challenge or its payment was already used.'', s'))"

text \<open>Up to the first \<open>consume\<close>: the expiry and the challenge.\<close>

definition settle_begin :: "'s consume \<Rightarrow> int \<Rightarrow> verified \<Rightarrow> 's \<Rightarrow> (server_error + unit) \<times> 's" where
  "settle_begin consume now v s =
     (if vc_expiresAt v \<le> now then (problem Pb_payment_expired ''The challenge has expired.'', s)
      else consume_key consume now (challengeKey (vc_challenge v)) (vc_expiresAt v) s)"

definition signature_retention :: int where "signature_retention = 24 * 60 * 60 * 1000"

text \<open>The key of the payment itself and the time until which it is recorded.\<close>

definition payment_key :: "payment \<Rightarrow> string" where
  "payment_key p = (case p of
     EvmPayment r e \<Rightarrow>
       ''mpp:evm:'' @ show_int (ev_chainId r) @ '':'' @ lower (ev_currency r) @ '':'' @
         lower (r_from (ve_authorization e)) @ '':'' @ lower (r_nonce (ve_authorization e))
   | SolanaPayment r e \<Rightarrow> ''mpp:solana:'' @ vs_messageHash e)"

definition payment_until :: "verified \<Rightarrow> int" where
  "payment_until v = (case vc_payment v of
     EvmPayment r e \<Rightarrow> dec_value (r_validBefore (ve_authorization e)) * 1000
   | SolanaPayment r e \<Rightarrow> vc_expiresAt v + signature_retention)"

definition settle_proof :: "'s consume \<Rightarrow> int \<Rightarrow> verified \<Rightarrow> 's \<Rightarrow> (server_error + unit) \<times> 's" where
  "settle_proof consume now v s = consume_key consume now (payment_key (vc_payment v)) (payment_until v) s"

record settle_deps =
  st_submit :: "(evm_submission \<Rightarrow> server_error + jsval) option"
  st_solana :: "solana_deps option"

definition settle_submit :: "sol_env \<Rightarrow> settle_deps \<Rightarrow> verified \<Rightarrow> server_error + string" where
  "settle_submit env deps v = (case vc_payment v of
     EvmPayment r e \<Rightarrow> settleEvmAuthorization e (st_submit deps)
   | SolanaPayment r e \<Rightarrow> settleSolanaTransaction env r e (st_solana deps))"

definition receipt_props :: "string \<Rightarrow> string \<Rightarrow> verified \<Rightarrow> props" where
  "receipt_props timestamp reference v =
     [(''status'', JStr ''success''), (''method'', JStr (case vc_payment v of EvmPayment _ _ \<Rightarrow> ''evm'' | SolanaPayment _ _ \<Rightarrow> ''solana'')),
      (''timestamp'', JStr timestamp), (''reference'', JStr reference), (''challengeId'', JStr (cp_id (vc_challenge v)))] @
     (case vc_payment v of
        EvmPayment r _ \<Rightarrow> (''chainId'', JInt (ev_chainId r)) # opt_prop ''externalId'' JStr (ev_externalId r)
      | SolanaPayment r _ \<Rightarrow> opt_prop ''externalId'' JStr (so_externalId r))"

text \<open>
  One call without others in between.  \<open>now\<close> is the time it starts and \<open>end_now\<close> the time its receipt
  is made; \<open>known\<close> says that the argument is a result of \<open>verifyCredential\<close>.
\<close>

definition settle ::
  "js_runtime \<Rightarrow> sol_env \<Rightarrow> 's consume \<Rightarrow> settle_deps \<Rightarrow> bool \<Rightarrow> int \<Rightarrow> int \<Rightarrow> verified \<Rightarrow> 's \<Rightarrow>
   (server_error + props \<times> string) \<times> 's" where
  "settle rt env consume deps known now end_now v s =
     (if \<not> known then (Inl (Crash ''settleCredential takes only verifyCredential results.''), s)
      else case settle_begin consume now v s of
        (Inl e, s1) \<Rightarrow> (Inl e, s1)
      | (Inr _, s1) \<Rightarrow>
          (case settle_proof consume now v s1 of
             (Inl e, s2) \<Rightarrow> (Inl e, s2)
           | (Inr _, s2) \<Rightarrow>
               (andThen (settle_submit env deps v) (\<lambda>reference.
                let receipt = receipt_props (rt_iso rt end_now) reference v in
                case encodeCanonical rt (JObj receipt) of Inl m \<Rightarrow> Inl (Crash m) | Inr h \<Rightarrow> Inr (receipt, h)), s2)))"

definition settleCredential ::
  "js_runtime \<Rightarrow> sol_env \<Rightarrow> 's consume \<Rightarrow> settle_deps \<Rightarrow> bool \<Rightarrow> int \<Rightarrow> int \<Rightarrow> verified \<Rightarrow> 's \<Rightarrow>
   (server_error + props \<times> string) \<times> 's" where
  "settleCredential rt env consume deps known now end_now v s =
     (case settle rt env consume deps known now end_now v s of
        (Inl e, s') \<Rightarrow> (Inl (toPaymentProblem e), s')
      | (Inr x, s') \<Rightarrow> (Inr x, s'))"

section \<open>Settlements that run at the same time\<close>

text \<open>
  The calls of a server between their awaits: \<open>ss_open\<close> holds those that have consumed their
  challenge, \<open>ss_sent\<close> the payments handed to the chain with the time, the newest first.
\<close>

record 's settle_state =
  ss_now :: int
  ss_store :: 's
  ss_open :: "verified list"
  ss_sent :: "(int \<times> verified) list"

inductive settle_step :: "'s consume \<Rightarrow> (verified \<Rightarrow> bool) \<Rightarrow> 's settle_state \<Rightarrow> 's settle_state \<Rightarrow> bool"
  for consume accepted where
  tick: "ss_now s \<le> t \<Longrightarrow> settle_step consume accepted s (s\<lparr>ss_now := t\<rparr>)"
| begun: "accepted v \<Longrightarrow> settle_begin consume (ss_now s) v (ss_store s) = (Inr u, st) \<Longrightarrow>
    settle_step consume accepted s (s\<lparr>ss_store := st, ss_open := v # ss_open s\<rparr>)"
| begin_refused: "accepted v \<Longrightarrow> settle_begin consume (ss_now s) v (ss_store s) = (Inl e, st) \<Longrightarrow>
    settle_step consume accepted s (s\<lparr>ss_store := st\<rparr>)"
| sent: "ss_open s = us @ v # vs \<Longrightarrow> settle_proof consume (ss_now s) v (ss_store s) = (Inr u, st) \<Longrightarrow>
    settle_step consume accepted s (s\<lparr>ss_store := st, ss_open := us @ vs, ss_sent := (ss_now s, v) # ss_sent s\<rparr>)"
| proof_refused: "ss_open s = us @ v # vs \<Longrightarrow> settle_proof consume (ss_now s) v (ss_store s) = (Inl e, st) \<Longrightarrow>
    settle_step consume accepted s (s\<lparr>ss_store := st, ss_open := us @ vs\<rparr>)"

section \<open>Each challenge is settled at most once\<close>

lemma settle_begin_Inr:
  "settle_begin consume now v s = (Inr u, st) \<Longrightarrow> now < vc_expiresAt v \<and>
     fst (consume now (challengeKey (vc_challenge v)) (vc_expiresAt v) s) \<and>
     st = snd (consume now (challengeKey (vc_challenge v)) (vc_expiresAt v) s)"
  by (auto simp: settle_begin_def consume_key_def split: if_splits prod.splits)

lemma settle_begin_Inl:
  "settle_begin consume now v s = (Inl e, st) \<Longrightarrow>
     st = s \<or> st = snd (consume now (challengeKey (vc_challenge v)) (vc_expiresAt v) s)"
  by (auto simp: settle_begin_def consume_key_def split: if_splits prod.splits)

lemma settle_proof_cases:
  "settle_proof consume now v s = (r, st) \<Longrightarrow>
     st = snd (consume now (payment_key (vc_payment v)) (payment_until v) s) \<and>
     ((\<exists>u. r = Inr u) \<longleftrightarrow> fst (consume now (payment_key (vc_payment v)) (payment_until v) s))"
  by (auto simp: settle_proof_def consume_key_def split: if_splits prod.splits)

abbreviation paid_key :: "verified \<Rightarrow> string" where
  "paid_key v \<equiv> payment_key (vc_payment v)"

abbreviation challenge_id :: "verified \<Rightarrow> string" where
  "challenge_id v \<equiv> cp_id (vc_challenge v)"

text \<open>Newer first: the same payment is sent again only after its key has expired.\<close>

definition spaced :: "(int \<times> verified) list \<Rightarrow> bool" where
  "spaced ps \<longleftrightarrow> sorted_wrt (\<lambda>(x, v) (y, w). y \<le> x \<and> (paid_key v = paid_key w \<longrightarrow> payment_until w \<le> x)) ps"

context once_store
begin

definition settle_inv :: "(verified \<Rightarrow> bool) \<Rightarrow> 's settle_state \<Rightarrow> bool" where
  "settle_inv accepted s \<longleftrightarrow>
     (\<forall>v \<in> set (ss_open s @ map snd (ss_sent s)). accepted v \<and>
        (\<forall>t. ss_now s \<le> t \<longrightarrow> t < vc_expiresAt v \<longrightarrow> live (ss_store s) t (challengeKey (vc_challenge v)))) \<and>
     distinct (map challenge_id (ss_open s @ map snd (ss_sent s))) \<and>
     (\<forall>(x, v) \<in> set (ss_sent s). x \<le> ss_now s \<and>
        (\<forall>t. ss_now s \<le> t \<longrightarrow> t < payment_until v \<longrightarrow> live (ss_store s) t (paid_key v))) \<and>
     spaced (ss_sent s)"

lemma inv_store:
  assumes "settle_inv accepted s" "st = ss_store s \<or> st = snd (consume (ss_now s) k u (ss_store s))"
  shows "settle_inv accepted (s\<lparr>ss_store := st\<rparr>)"
  using assms live_kept by (fastforce simp: settle_inv_def)

lemma inv_tick: "settle_inv accepted s \<Longrightarrow> ss_now s \<le> t \<Longrightarrow> settle_inv accepted (s\<lparr>ss_now := t\<rparr>)"
  unfolding settle_inv_def by (force intro: order_trans)

lemma inv_dropped:
  assumes "settle_inv accepted s" "ss_open s = us @ v # vs"
  shows "settle_inv accepted (s\<lparr>ss_open := us @ vs\<rparr>)"
  using assms by (auto simp: settle_inv_def)

lemma inv_begun:
  assumes inv: "settle_inv accepted s" and v: "accepted v" "ss_now s < vc_expiresAt v"
    and one: "\<And>v w. accepted v \<Longrightarrow> accepted w \<Longrightarrow> challenge_id v = challenge_id w \<Longrightarrow> vc_expiresAt v = vc_expiresAt w"
    and c: "fst (consume (ss_now s) (challengeKey (vc_challenge v)) (vc_expiresAt v) (ss_store s))"
  shows "settle_inv accepted (s\<lparr>ss_store := snd (consume (ss_now s) (challengeKey (vc_challenge v)) (vc_expiresAt v) (ss_store s)),
    ss_open := v # ss_open s\<rparr>)"
proof -
  let ?k = "challengeKey (vc_challenge v)"
  let ?st = "snd (consume (ss_now s) ?k (vc_expiresAt v) (ss_store s))"
  have i: "settle_inv accepted (s\<lparr>ss_store := ?st\<rparr>)" using inv_store [OF inv] by blast
  have fresh: "\<not> live (ss_store s) (ss_now s) ?k" using c consume_fresh by blast
  have new: "challenge_id v \<noteq> challenge_id w" if w: "w \<in> set (ss_open s @ map snd (ss_sent s))" for w
  proof
    assume e: "challenge_id v = challenge_id w"
    have "accepted w" using inv w by (auto simp: settle_inv_def)
    then have "ss_now s < vc_expiresAt w" using one [OF v(1) _ e] v(2) by simp
    then have "live (ss_store s) (ss_now s) (challengeKey (vc_challenge w))"
      using inv w unfolding settle_inv_def by blast
    then show False using fresh e by (simp add: challengeKey_def)
  qed
  have "\<forall>t. ss_now s \<le> t \<longrightarrow> t < vc_expiresAt v \<longrightarrow> live ?st t ?k" using live_recorded c by blast
  then show ?thesis using i v(1) new by (auto simp: settle_inv_def)
qed

lemma inv_sent:
  assumes inv: "settle_inv accepted s" and v: "ss_open s = us @ v # vs"
    and c: "fst (consume (ss_now s) (paid_key v) (payment_until v) (ss_store s))"
  shows "settle_inv accepted (s\<lparr>ss_store := snd (consume (ss_now s) (paid_key v) (payment_until v) (ss_store s)),
    ss_open := us @ vs, ss_sent := (ss_now s, v) # ss_sent s\<rparr>)"
proof -
  let ?st = "snd (consume (ss_now s) (paid_key v) (payment_until v) (ss_store s))"
  have i: "settle_inv accepted (s\<lparr>ss_store := ?st\<rparr>)" using inv_store [OF inv] by blast
  have fresh: "\<not> live (ss_store s) (ss_now s) (paid_key v)" using c consume_fresh by blast
  have old: "y \<le> ss_now s \<and> (paid_key v = paid_key w \<longrightarrow> payment_until w \<le> ss_now s)" if "(y, w) \<in> set (ss_sent s)" for y w
  proof -
    have "ss_now s < payment_until w \<Longrightarrow> live (ss_store s) (ss_now s) (paid_key w)" and "y \<le> ss_now s"
      using inv that unfolding settle_inv_def by fastforce+
    then show ?thesis using fresh by (metis not_le)
  qed
  have "spaced ((ss_now s, v) # ss_sent s)"
    using inv old by (auto simp: spaced_def settle_inv_def)
  moreover have "\<forall>t. ss_now s \<le> t \<longrightarrow> t < payment_until v \<longrightarrow> live ?st t (paid_key v)" using live_recorded c by blast
  ultimately show ?thesis using i v by (auto simp: settle_inv_def)
qed

lemma inv_step:
  assumes "settle_step consume accepted s s'" "settle_inv accepted s"
    and "\<And>v w. accepted v \<Longrightarrow> accepted w \<Longrightarrow> challenge_id v = challenge_id w \<Longrightarrow> vc_expiresAt v = vc_expiresAt w"
  shows "settle_inv accepted s'"
  using assms(1)
proof (cases rule: settle_step.cases)
  case (tick t)
  then show ?thesis using inv_tick [OF assms(2)] by simp
next
  case (begun v u st)
  note b = settle_begin_Inr [OF begun(3)]
  have e: "s' = s\<lparr>ss_store := snd (consume (ss_now s) (challengeKey (vc_challenge v)) (vc_expiresAt v) (ss_store s)),
      ss_open := v # ss_open s\<rparr>" using begun(1) b by simp
  show ?thesis
    unfolding e by (rule inv_begun) (use assms(2,3) begun(2) b in blast)+
next
  case (begin_refused v e st)
  then show ?thesis using settle_begin_Inl [OF begin_refused(3)] inv_store [OF assms(2)] by metis
next
  case (sent us v vs u st)
  note p = settle_proof_cases [OF sent(3)]
  have c: "fst (consume (ss_now s) (paid_key v) (payment_until v) (ss_store s))" using p by blast
  have "s' = s\<lparr>ss_store := snd (consume (ss_now s) (paid_key v) (payment_until v) (ss_store s)), ss_open := us @ vs,
      ss_sent := (ss_now s, v) # ss_sent s\<rparr>" using sent(1) p by simp
  then show ?thesis using inv_sent [OF assms(2) sent(2) c] by simp
next
  case (proof_refused us v vs e st)
  have "settle_inv accepted (s\<lparr>ss_store := st\<rparr>)"
    using settle_proof_cases [OF proof_refused(3)] inv_store [OF assms(2)] by metis
  then have "settle_inv accepted (s\<lparr>ss_store := st, ss_open := us @ vs\<rparr>)"
    using inv_dropped [of accepted "s\<lparr>ss_store := st\<rparr>" us v vs] proof_refused(2) by simp
  then show ?thesis using proof_refused by simp
qed

lemma settled_once:
  assumes "(settle_step consume accepted)\<^sup>*\<^sup>* \<lparr>ss_now = t0, ss_store = s0, ss_open = [], ss_sent = []\<rparr> s"
    and "\<And>v w. accepted v \<Longrightarrow> accepted w \<Longrightarrow> challenge_id v = challenge_id w \<Longrightarrow> vc_expiresAt v = vc_expiresAt w"
  shows "distinct (map challenge_id (ss_open s @ map snd (ss_sent s))) \<and> spaced (ss_sent s)"
proof -
  have "settle_inv accepted s"
    using assms(1)
  proof (induction rule: rtranclp_induct)
    case base
    then show ?case by (simp add: settle_inv_def spaced_def)
  next
    case (step s s')
    then show ?case using inv_step assms(2) by blast
  qed
  then show ?thesis unfolding settle_inv_def by blast
qed

end

section \<open>A server's settlements\<close>

lemma bar_free_append [simp]: "bar_free (a @ b) \<longleftrightarrow> bar_free a \<and> bar_free b"
  by (auto simp: bar_free_def)

lemma shaped_bar_free: "shaped p s \<Longrightarrow> bar_free p \<Longrightarrow> bar_free s"
  unfolding shaped_def
proof (induction rule: list_all2_induct)
  case (Cons x xs y ys)
  have "is_digit CHR ''|'' = False" "lower_char CHR ''|'' = CHR ''|''" by code_simp+
  then show ?case using Cons by (auto simp: bar_free_def shape_char_def split: if_splits)
qed (simp add: bar_free_def)

lemma rfc3339_bar_free: "rfc3339_re s \<Longrightarrow> bar_free s"
proof -
  assume h: "rfc3339_re s"
  let ?r = "drop 19 s"
  define z where "z = (if opens_with CHR ''.'' ?r then dropWhile is_digit (tl ?r) else ?r)"
  have p: "bar_free ''dddd-dd-ddtdd:dd:dd''" "bar_free ''+dd:dd''" "bar_free ''-dd:dd''" by code_simp+
  have t: "bar_free (take 19 s)" using h p by (auto simp: rfc3339_re_def intro: shaped_bar_free)
  have "lower z = ''z'' \<or> shaped ''+dd:dd'' z \<or> shaped ''-dd:dd'' z"
    using h by (auto simp: rfc3339_re_def Let_def z_def)
  moreover have "lower z = ''z'' \<Longrightarrow> bar_free z"
  proof -
    assume l: "lower z = ''z''"
    have "lower_char CHR ''|'' = CHR ''|''" by code_simp
    then have "CHR ''|'' \<in> set z \<Longrightarrow> CHR ''|'' \<in> set (lower z)" by (force simp: lower_def)
    then show "bar_free z" using l by (auto simp: bar_free_def)
  qed
  ultimately have z: "bar_free z" using p shaped_bar_free by blast
  have "bar_free ?r"
  proof (cases "opens_with CHR ''.'' ?r")
    case True
    then obtain q where q: "?r = CHR ''.'' # q" by (cases ?r) auto
    have "\<not> is_digit CHR ''|''" by code_simp
    then have "bar_free (takeWhile is_digit q)" by (auto simp: bar_free_def dest: set_takeWhileD)
    moreover have "bar_free (dropWhile is_digit q)" using z True q by (simp add: z_def)
    ultimately have "bar_free q" by (metis bar_free_append takeWhile_dropWhile_id)
    then show ?thesis by (simp add: q bar_free_def)
  next
    case False
    then show ?thesis using z by (simp add: z_def)
  qed
  then show ?thesis using t by (metis append_take_drop_id bar_free_append)
qed

text \<open>What a server with one secret and realm accepts.\<close>

definition accepted_under :: "js_runtime \<Rightarrow> crypto \<Rightarrow> sol_env \<Rightarrow> secret \<Rightarrow> string \<Rightarrow> verified \<Rightarrow> bool" where
  "accepted_under rt c env s realm v \<longleftrightarrow> (\<exists>opts header. vo_secret opts = s \<and> vo_previous opts = [] \<and> vo_realm opts = realm \<and>
     verifyCredential rt c env opts header = Inr v)"

lemma verify_payment_fields:
  "verify_payment rt c env opts cd x q = Inr v \<Longrightarrow> vc_challenge v = cd_challenge cd \<and> vc_expiresAt v = x"
  by (auto simp: verify_payment_def Let_def split: if_splits sum.splits)

lemma accepted_under_bound:
  assumes "accepted_under rt c env s realm v"
  shows "challengeId c (vc_challenge v) s = Inr (challenge_id v) \<and>
    (\<exists>t. cp_expires (vc_challenge v) = Some t \<and> parseRfc3339 rt t = Some (vc_expiresAt v)) \<and>
    (bar_free realm \<longrightarrow> bars_absent (vc_challenge v))"
proof -
  obtain opts header where o: "vo_secret opts = s" "vo_previous opts = []" "vo_realm opts = realm"
    "verifyCredential rt c env opts header = Inr v" using assms unfolding accepted_under_def by blast
  obtain cd x where cd: "bound_challenge rt c opts (cd_challenge cd) x"
    "verify_payment rt c env opts cd x (props_of (decodeBase64UrlJson rt (cp_request (cd_challenge cd)))) = Inr v"
    using accepted_credential [OF o(4)] by blast
  let ?p = "cd_challenge cd"
  have f: "vc_challenge v = ?p" "vc_expiresAt v = x" using verify_payment_fields [OF cd(2)] by simp_all
  note b = cd(1) [unfolded bound_challenge_def]
  obtain t where t: "cp_expires ?p = Some t" "parseRfc3339 rt t = Some x" using b by blast
  have m: "cp_method ?p = ''evm'' \<or> cp_method ?p = ''solana''" using b by blast
  obtain f :: offer where "encodeCanonical rt (of_request f) = Inr (cp_request ?p)" using b by blast
  then obtain q where q: "base64Url q = cp_request ?p" by (auto simp: encodeCanonical_def)
  have "bar_free (cp_request ?p)"
    using base64Url_set [of "CHR ''|''" q] unfolding q by (auto simp: bar_free_def url_char_def ord_def)
  moreover have "bar_free t" using t(2) rfc3339_bar_free by (auto simp: parseRfc3339_def split: if_splits)
  moreover have "bar_free (cp_intent ?p)" "bar_free (cp_method ?p)" using b m by (auto simp: bar_free_def)
  ultimately have "bar_free realm \<longrightarrow> bars_absent ?p" using b t o(3) by (simp add: bars_absent_def)
  then show ?thesis using b o(1,2) f t by auto
qed

text \<open>
  C29: a server settles each challenge at most once.  In every interleaving of its settlements over the
  in-process store, with time never going back, no two payments that were sent to the chain answer the
  same challenge, and a payment with the key of an earlier one (the same authorization, the same signed
  message) is sent only after that key has expired.  The payments are those \<open>verifyCredential\<close> accepts
  under one secret and a realm without a vertical bar, for which HMAC does not collide.
\<close>

theorem settlements_happen_once:
  assumes run: "(settle_step memory_consume (accepted_under rt c env s realm))\<^sup>*\<^sup>*
      \<lparr>ss_now = t0, ss_store = [], ss_open = [], ss_sent = []\<rparr> st"
    and realm: "bar_free realm"
    and apart: "\<And>v w k. accepted_under rt c env s realm v \<Longrightarrow> accepted_under rt c env s realm w \<Longrightarrow>
      hash_apart (hmac_sha256 c k) [utf8 (challengeBindingInput (vc_challenge v)), utf8 (challengeBindingInput (vc_challenge w))]"
  shows "distinct (map (\<lambda>(x, v). cp_id (vc_challenge v)) (ss_sent st)) \<and>
    (\<forall>i j. i < j \<longrightarrow> j < length (ss_sent st) \<longrightarrow>
       payment_key (vc_payment (snd (ss_sent st ! i))) = payment_key (vc_payment (snd (ss_sent st ! j))) \<longrightarrow>
       payment_until (snd (ss_sent st ! j)) \<le> fst (ss_sent st ! i))"
proof -
  let ?ok = "accepted_under rt c env s realm"
  have one: "vc_expiresAt v = vc_expiresAt w" if v: "?ok v" and w: "?ok w" and i: "challenge_id v = challenge_id w" for v w
  proof -
    note bv = accepted_under_bound [OF v] and bw = accepted_under_bound [OF w]
    obtain k where k: "secretBytes s = Inr k" using bv by (auto simp: challengeId_def)
    have "base64Url (hmac_sha256 c k (utf8 (challengeBindingInput (vc_challenge v)))) =
        base64Url (hmac_sha256 c k (utf8 (challengeBindingInput (vc_challenge w))))"
      using bv bw i by (simp add: challengeId_def k)
    then have "utf8 (challengeBindingInput (vc_challenge v)) = utf8 (challengeBindingInput (vc_challenge w))"
      using apart [OF v w, of k] base64Url_inj by (auto intro: hash_apartD)
    then have "challengeBindingInput (vc_challenge v) = challengeBindingInput (vc_challenge w)" by (simp add: utf8_inj)
    then have "or_nil (cp_expires (vc_challenge v)) = or_nil (cp_expires (vc_challenge w))"
      using binding_determines bv bw realm by blast
    then show ?thesis using bv bw by auto
  qed
  note o = memory.settled_once [OF run one]
  have "map challenge_id (map snd (ss_sent st)) = map (\<lambda>(x, v). cp_id (vc_challenge v)) (ss_sent st)" by auto
  then have d: "distinct (map (\<lambda>(x, v). cp_id (vc_challenge v)) (ss_sent st))" using o by (metis distinct_append map_append)
  have "spaced (ss_sent st)" using o by blast
  then have e: "\<forall>i j. i < j \<longrightarrow> j < length (ss_sent st) \<longrightarrow>
       paid_key (snd (ss_sent st ! i)) = paid_key (snd (ss_sent st ! j)) \<longrightarrow> payment_until (snd (ss_sent st ! j)) \<le> fst (ss_sent st ! i)"
    unfolding spaced_def sorted_wrt_iff_nth_less case_prod_beta by blast
  show ?thesis by (intro conjI d e)
qed

end
