(* ===== verification/Settlement.thy ===== *)
theory Settlement
  imports MppCharge MppSession
begin

text \<open>
  The later check of a settlement on chain: packages/core/src/settlement-verification.ts and
  \<open>verifyMppSettlement\<close> of packages/payments-mpp/src/evm-charge.ts.  A node is a function from a method
  and its parameters to an answer, a dynamic value that is not trusted, or to the message of the error
  it throws; the \<open>catch\<close> of each function turns any error into \<open>unavailable\<close>.
\<close>

section \<open>Answers\<close>

type_synonym settlement_rpc = "string \<Rightarrow> jsval list \<Rightarrow> string + jsval"

text \<open>The status, with the block number or slot of a verified settlement.\<close>

datatype settlement =
    Settled "int option"
  | SettlementPending
  | SettlementFailed string
  | SettlementMismatch string
  | SettlementUnavailable string

definition settlement_result :: "string + settlement \<Rightarrow> settlement" where
  "settlement_result r = (case r of Inl m \<Rightarrow> SettlementUnavailable m | Inr s \<Rightarrow> s)"

lemma settlement_result_Settled [simp]: "settlement_result r = Settled n \<longleftrightarrow> r = Inr (Settled n)"
  by (auto simp: settlement_result_def split: sum.splits)

text \<open>An amount of type \<open>bigint | string\<close>, and \<open>BigInt(amount)\<close>.\<close>

datatype big_input = Big int | BigText string

fun big_value :: "big_input \<Rightarrow> string + int" where
  "big_value (Big n) = Inr n"
| "big_value (BigText s) = (case bigint_of s of None \<Rightarrow> Inl (''Cannot convert '' @ s @ '' to a BigInt'') | Some n \<Rightarrow> Inr n)"

fun js_truthy :: "jsval \<Rightarrow> bool" where
  "js_truthy JUndefined = False"
| "js_truthy JNull = False"
| "js_truthy (JBool b) = b"
| "js_truthy (JInt n) = (n \<noteq> 0)"
| "js_truthy (JFloat t) = (t \<noteq> ''NaN'')"
| "js_truthy (JBig n) = (n \<noteq> 0)"
| "js_truthy (JStr s) = (s \<noteq> [])"
| "js_truthy (JArr vs) = True"
| "js_truthy (JObj ps) = True"

text \<open>\<open>/^0x[0-9a-f]+$/i\<close>.\<close>

definition hex_number :: "string \<Rightarrow> bool" where
  "hex_number s \<longleftrightarrow> 2 < length s \<and> lower (take 2 s) = ''0x'' \<and> (\<forall>c \<in> set (drop 2 s). is_hex c)"

definition hexBigInt :: "jsval \<Rightarrow> int option" where
  "hexBigInt v = (if str_where hex_number v then bigint_of (str_of v) else None)"

section \<open>EIP-3009\<close>

record eip3009_expected =
  xe_chainId :: string
  xe_txHash :: string
  xe_token :: string
  xe_from :: string
  xe_to :: string
  xe_amount :: big_input
  xe_nonce :: string
  xe_minConfirmations :: "int option"

definition transfer_topic :: string where
  "transfer_topic = ''0xddf252ad1be2c89b69c2b068fc378daa952ba7f163c4a11628f55a4df523b3ef''"

definition authorization_used_topic :: string where
  "authorization_used_topic = ''0x98de503528ee59b575ef0c0a2576a82497bfc029a5685b209e9ec333479b10a5''"

text \<open>\<open>/^eip155:([1-9][0-9]*|0)$/\<close>: the number.\<close>

definition eip155_number :: "string \<Rightarrow> int option" where
  "eip155_number s = (if starts_with ''eip155:'' s \<and> canonical_decimal (drop 7 s) then Some (dec_value (drop 7 s)) else None)"

definition wordAddress :: "string \<Rightarrow> string" where
  "wordAddress t = lower (''0x'' @ drop (length t - 40) t)"

definition log_topics :: "jsval \<Rightarrow> string list option" where
  "log_topics v = (case v of JArr ts \<Rightarrow> if \<forall>t \<in> set ts. is_str t then Some (map str_of ts) else None | _ \<Rightarrow> None)"

text \<open>The topics of a log of the token; a log of another contract or shape is skipped.\<close>

definition token_log :: "string \<Rightarrow> jsval \<Rightarrow> string list option" where
  "token_log tok v =
     (let p = props_of v in
      if is_str (field ''address'' p) \<and> lower (str_of (field ''address'' p)) = tok then log_topics (field ''topics'' p) else None)"

definition event_named :: "string \<Rightarrow> string list \<Rightarrow> bool" where
  "event_named topic ts \<longleftrightarrow> 3 \<le> length ts \<and> lower (ts ! 0) = topic"

definition transfer_parties :: "eip3009_expected \<Rightarrow> string list \<Rightarrow> bool" where
  "transfer_parties e ts \<longleftrightarrow>
     event_named transfer_topic ts \<and> wordAddress (ts ! 1) = lower (xe_from e) \<and> wordAddress (ts ! 2) = lower (xe_to e)"

definition authorization_used :: "eip3009_expected \<Rightarrow> string list \<Rightarrow> bool" where
  "authorization_used e ts \<longleftrightarrow>
     event_named authorization_used_topic ts \<and> wordAddress (ts ! 1) = lower (xe_from e) \<and> lower (ts ! 2) = lower (xe_nonce e)"

text \<open>The amount is read only when the parties match, so an unreadable one throws only then.\<close>

fun scan_logs :: "eip3009_expected \<Rightarrow> jsval list \<Rightarrow> bool \<Rightarrow> bool \<Rightarrow> string + bool \<times> bool" where
  "scan_logs e [] transfer used = Inr (transfer, used)"
| "scan_logs e (l # ls) transfer used =
     (case token_log (lower (xe_token e)) l of
        None \<Rightarrow> scan_logs e ls transfer used
      | Some ts \<Rightarrow>
          andThen (if transfer_parties e ts then andThen (big_value (xe_amount e)) (\<lambda>a. Inr (hexBigInt (field ''data'' (props_of l)) = Some a))
                   else Inr False) (\<lambda>t.
          scan_logs e ls (transfer \<or> t) (used \<or> authorization_used e ts)))"

definition logs_status :: "eip3009_expected \<Rightarrow> jsval \<Rightarrow> int \<Rightarrow> string + settlement" where
  "logs_status e logs blockNumber =
     andThen (scan_logs e (items_of logs) False False) (\<lambda>(transfer, used).
     Inr (if \<not> transfer then SettlementMismatch ''Expected Transfer log was not emitted.''
          else if \<not> used then SettlementMismatch ''Expected AuthorizationUsed log was not emitted.''
          else Settled (Some blockNumber)))"

definition receipt_status :: "settlement_rpc \<Rightarrow> eip3009_expected \<Rightarrow> props \<Rightarrow> string + settlement" where
  "receipt_status rpc e p =
     (let code = hexBigInt (field ''status'' p); least = or_else (xe_minConfirmations e) 1 in
      if code = Some 0 then Inr (SettlementFailed ''Transaction reverted.'')
      else if code \<noteq> Some 1 then Inr (SettlementMismatch ''Receipt status is malformed.'')
      else case hexBigInt (field ''blockNumber'' p) of
        None \<Rightarrow> Inr (SettlementMismatch ''Receipt block number is malformed.'')
      | Some b \<Rightarrow>
          andThen (rpc ''eth_blockNumber'' []) (\<lambda>l.
          case hexBigInt l of
            None \<Rightarrow> Inr (SettlementMismatch ''Latest block number is malformed.'')
          | Some latest \<Rightarrow>
              if \<not> safe_integer least \<or> least < 1 then Inr (SettlementMismatch ''minConfirmations must be positive.'')
              else if latest < b \<or> latest - b + 1 < least then Inr SettlementPending
              else logs_status e (field ''logs'' p) b))"

definition eip3009_status :: "settlement_rpc \<Rightarrow> eip3009_expected \<Rightarrow> string + settlement" where
  "eip3009_status rpc e =
     (case eip155_number (xe_chainId e) of
        None \<Rightarrow> Inr (SettlementMismatch ''Expected chainId is not EIP-155.'')
      | Some n \<Rightarrow>
          andThen (rpc ''eth_chainId'' []) (\<lambda>served.
          if hexBigInt served \<noteq> Some n then Inr (SettlementMismatch ''RPC serves another chain.'')
          else
            andThen (rpc ''eth_getTransactionReceipt'' [JStr (xe_txHash e)]) (\<lambda>receipt.
            if \<not> js_truthy receipt then Inr SettlementPending else receipt_status rpc e (props_of receipt))))"

definition verifyEip3009Settlement :: "settlement_rpc \<Rightarrow> eip3009_expected \<Rightarrow> settlement" where
  "verifyEip3009Settlement rpc e = settlement_result (eip3009_status rpc e)"

section \<open>Solana transfers\<close>

record transfer_expected =
  xt_cluster :: string
  xt_signature :: string
  xt_mint :: string
  xt_payer :: string
  xt_signer :: string
  xt_recipient :: string
  xt_amount :: big_input
  xt_messageHash :: "string option"
  xt_commitment :: "string option"

text \<open>\<open>/^solana:(.+)$/\<close>, whose dot matches no line end.\<close>

definition cluster_reference :: "string \<Rightarrow> string option" where
  "cluster_reference s =
     (if starts_with ''solana:'' s \<and> drop 7 s \<noteq> [] \<and> (\<forall>c \<in> set (drop 7 s). ord c \<noteq> 10 \<and> ord c \<noteq> 13) then Some (drop 7 s)
      else None)"

text \<open>\<open>served.slice(0, 32) === reference\<close>: an array has a \<open>slice\<close>, which is never a string.\<close>

fun served_slice :: "jsval \<Rightarrow> string + jsval" where
  "served_slice (JStr s) = Inr (JStr (js_slice 0 32 s))"
| "served_slice (JArr vs) = Inr (JArr (take 32 vs))"
| "served_slice JUndefined = Inl ''Cannot read properties of undefined (reading 'slice')''"
| "served_slice JNull = Inl ''Cannot read properties of null (reading 'slice')''"
| "served_slice _ = Inl ''served.slice is not a function''"

definition rpcServesSolanaCluster :: "settlement_rpc \<Rightarrow> string \<Rightarrow> string + bool" where
  "rpcServesSolanaCluster rpc cluster =
     andThen (rpc ''getGenesisHash'' []) (\<lambda>served.
     case cluster_reference cluster of
       None \<Rightarrow> Inr False
     | Some ref \<Rightarrow> andThen (served_slice served) (\<lambda>x. Inr (x = JStr ref)))"

type_synonym balances = "(string \<times> int) list"

definition balance_get :: "balances \<Rightarrow> string \<Rightarrow> int" where
  "balance_get m k = or_else (map_of m k) 0"

fun balance_loop :: "string \<Rightarrow> jsval list \<Rightarrow> balances \<Rightarrow> balances option" where
  "balance_loop mnt [] out = Some out"
| "balance_loop mnt (v # vs) out =
     (let p = props_of v; owner = field ''owner'' p; a = field ''amount'' (props_of (field ''uiTokenAmount'' p)) in
      if field ''mint'' p \<noteq> JStr mnt \<or> \<not> is_str owner then balance_loop mnt vs out
      else if \<not> str_where canonical_decimal a then None
      else balance_loop mnt vs (AList.update (str_of owner) (balance_get out (str_of owner) + dec_value (str_of a)) out))"

definition balanceMap :: "jsval \<Rightarrow> string \<Rightarrow> balances option" where
  "balanceMap v mnt = (case v of JArr vs \<Rightarrow> balance_loop mnt vs [] | _ \<Rightarrow> None)"

definition balance_refusal :: "transfer_expected \<Rightarrow> int \<Rightarrow> balances \<Rightarrow> balances \<Rightarrow> settlement option" where
  "balance_refusal e a pre post = first_some
     [throw_if (balance_get post (xt_recipient e) - balance_get pre (xt_recipient e) \<noteq> a)
        (SettlementMismatch ''Recipient token balance delta does not match.''),
      throw_if (balance_get pre (xt_payer e) - balance_get post (xt_payer e) < a)
        (SettlementMismatch ''Payer token balance did not fall enough.'')]"

text \<open>The check of the signed message, when its hash is expected.\<close>

definition wire_refusal :: "sol_env \<Rightarrow> transfer_expected \<Rightarrow> string \<Rightarrow> bytes option \<Rightarrow> settlement option" where
  "wire_refusal env e hash wire =
     (case wire of
        None \<Rightarrow> Some (SettlementMismatch ''Transaction wire bytes are malformed.'')
      | Some w \<Rightarrow>
          (case parseSolanaTransaction env w of
             Inl _ \<Rightarrow> Some (SettlementMismatch ''Transaction wire bytes are malformed.'')
           | Inr tx \<Rightarrow>
               if t_signatures tx = [] then Some (SettlementMismatch ''Transaction wire bytes are malformed.'')
               else if s58_encode env (hd (t_signatures tx)) \<noteq> xt_signature e \<or> \<not> verifySolanaSignature env tx (xt_signer e) then
                 Some (SettlementMismatch ''Transaction does not contain the expected signer signature.'')
               else if lower (hashHex (s_crypto env) (t_message tx)) \<noteq> lower hash then
                 Some (SettlementMismatch ''Transaction message hash does not match.'')
               else None))"

definition first_item :: "jsval \<Rightarrow> jsval" where
  "first_item v = (case items_of v of [] \<Rightarrow> JNull | x # _ \<Rightarrow> x)"

definition message_refusal ::
  "sol_env \<Rightarrow> (string \<Rightarrow> bytes option) \<Rightarrow> transfer_expected \<Rightarrow> jsval \<Rightarrow> settlement option" where
  "message_refusal env b64 e tx =
     (case xt_messageHash e of
        None \<Rightarrow> None
      | Some hash \<Rightarrow>
          if is_str (first_item tx) then wire_refusal env e hash (b64 (str_of (first_item tx)))
          else Some (SettlementMismatch ''Transaction wire bytes are missing.''))"

definition transaction_status ::
  "sol_env \<Rightarrow> (string \<Rightarrow> bytes option) \<Rightarrow> transfer_expected \<Rightarrow> props \<Rightarrow> string + settlement" where
  "transaction_status env b64 e tx =
     (let slot = field ''slot'' tx; m = props_of (field ''meta'' tx) in
      if \<not> safe_where (\<lambda>n. True) slot then Inr (SettlementMismatch ''Transaction slot is malformed.'')
      else if \<not> js_truthy (field ''meta'' tx) then Inr (SettlementMismatch ''Transaction metadata is missing.'')
      else if field ''err'' m \<noteq> JNull then Inr (SettlementFailed ''Transaction failed.'')
      else case (balanceMap (field ''preTokenBalances'' m) (xt_mint e), balanceMap (field ''postTokenBalances'' m) (xt_mint e)) of
        (Some pre, Some post) \<Rightarrow>
          andThen (big_value (xt_amount e)) (\<lambda>a.
          Inr (or_else (first_some [balance_refusal e a pre post, message_refusal env b64 e (field ''transaction'' tx)])
            (Settled (Some (int_of slot)))))
      | _ \<Rightarrow> Inr (SettlementMismatch ''Token balances are malformed.''))"

definition transaction_query :: "transfer_expected \<Rightarrow> jsval list" where
  "transaction_query e =
     [JStr (xt_signature e),
      JObj [(''encoding'', JStr ''base64''), (''commitment'', JStr (or_else (xt_commitment e) ''confirmed'')),
            (''maxSupportedTransactionVersion'', JInt 0)]]"

definition verifySolanaTransferSettlement ::
  "sol_env \<Rightarrow> (string \<Rightarrow> bytes option) \<Rightarrow> settlement_rpc \<Rightarrow> transfer_expected \<Rightarrow> settlement" where
  "verifySolanaTransferSettlement env b64 rpc e = settlement_result
     (andThen (rpcServesSolanaCluster rpc (xt_cluster e)) (\<lambda>serves.
      if \<not> serves then Inr (SettlementMismatch ''RPC serves another Solana cluster.'')
      else
        andThen (rpc ''getTransaction'' (transaction_query e)) (\<lambda>tx.
        if \<not> js_truthy tx then Inr SettlementPending else transaction_status env b64 e (props_of tx))))"

section \<open>Payment channels\<close>

record channel_expected =
  xc_cluster :: string
  xc_channelId :: string
  xc_channelProgram :: string
  xc_expectedSettled :: big_input
  xc_afterForcedClose :: bool

text \<open>The account of the program: status at byte 3, settled amount at 20, withdrawal time at 44.\<close>

definition channel_refusal :: "channel_expected \<Rightarrow> bytes \<Rightarrow> int \<Rightarrow> settlement option" where
  "channel_refusal e d expected =
     (let code = unat (d ! 3); settled = readU64 d 20; withdrawn = readU64 d 44 in
      if \<not> xc_afterForcedClose e then first_some
        [throw_if (code \<noteq> 3) SettlementPending,
         throw_if (settled \<noteq> expected) (SettlementMismatch ''Channel settled amount does not match the last voucher.'')]
      else first_some
        [throw_if (code = 2) SettlementPending,
         throw_if (code = 0) (SettlementMismatch ''Forced-close channel is still open.''),
         throw_if (code \<noteq> 1 \<and> code \<noteq> 3) (SettlementMismatch ''Channel status is malformed.''),
         throw_if (withdrawn = 0) SettlementPending,
         throw_if (expected < settled) (SettlementMismatch ''Channel settled more than the last signed voucher.'')])"

fun optional_slot :: "jsval \<Rightarrow> int option" where
  "optional_slot (JInt n) = (if safe_integer n then Some n else None)"
| "optional_slot _ = None"

definition account_status ::
  "(string \<Rightarrow> string + bytes) \<Rightarrow> channel_expected \<Rightarrow> props \<Rightarrow> string + settlement" where
  "account_status b64 e response =
     (let account = props_of (field ''value'' response); enc = first_item (field ''data'' account) in
      if \<not> js_truthy (field ''value'' response) then Inr (SettlementUnavailable ''Channel account was reclaimed or is unavailable.'')
      else if field ''owner'' account \<noteq> JStr (xc_channelProgram e) then Inr (SettlementMismatch ''Channel account owner does not match.'')
      else if \<not> is_str enc then Inr (SettlementMismatch ''Channel account data is malformed.'')
      else
        andThen (b64 (str_of enc)) (\<lambda>d.
        if length d < 52 then Inr (SettlementMismatch ''Channel account data is too short.'')
        else
          andThen (big_value (xc_expectedSettled e)) (\<lambda>expected.
          Inr (or_else (channel_refusal e d expected)
            (Settled (optional_slot (field ''slot'' (props_of (field ''context'' response)))))))))"

definition verifyChannelSettlement ::
  "(string \<Rightarrow> string + bytes) \<Rightarrow> settlement_rpc \<Rightarrow> channel_expected \<Rightarrow> settlement" where
  "verifyChannelSettlement b64 rpc e = settlement_result
     (andThen (rpcServesSolanaCluster rpc (xc_cluster e)) (\<lambda>serves.
      if \<not> serves then Inr (SettlementMismatch ''RPC serves another Solana cluster.'')
      else
        andThen (rpc ''getAccountInfo''
            [JStr (xc_channelId e), JObj [(''encoding'', JStr ''base64''), (''commitment'', JStr ''confirmed'')]]) (\<lambda>response.
        account_status b64 e (props_of response))))"

section \<open>The result of a payment\<close>

datatype result_binding = ChargeSettlement charge_binding | ChannelSettlement settlement_binding

fun expected_charge :: "charge_binding \<Rightarrow> string \<Rightarrow> eip3009_expected + transfer_expected" where
  "expected_charge (Eip3009Binding b) reference =
     Inl \<lparr>xe_chainId = eb_chainId b, xe_txHash = reference, xe_token = eb_token b, xe_from = eb_from b, xe_to = eb_to b,
          xe_amount = BigText (eb_amount b), xe_nonce = eb_nonce b, xe_minConfirmations = None\<rparr>"
| "expected_charge (TransferBinding b) reference =
     Inr \<lparr>xt_cluster = bi_cluster b, xt_signature = reference, xt_mint = bi_mint b, xt_payer = bi_payer b,
          xt_signer = bi_signer b, xt_recipient = bi_recipient b, xt_amount = BigText (bi_amount b),
          xt_messageHash = Some (bi_signedMessageHash b), xt_commitment = None\<rparr>"

definition expected_channel :: "settlement_binding \<Rightarrow> channel_expected" where
  "expected_channel b =
     \<lparr>xc_cluster = sb_cluster b, xc_channelId = sb_channelId b, xc_channelProgram = sb_channelProgram b,
      xc_expectedSettled = BigText (sb_expectedSettled b), xc_afterForcedClose = sb_afterForcedClose b\<rparr>"

text \<open>\<open>reference\<close> is \<open>result.receipt?.reference\<close>; an error of base64 decoding carries its message.\<close>

definition verifyMppSettlement ::
  "sol_env \<Rightarrow> (string \<Rightarrow> string + bytes) \<Rightarrow> result_binding option \<Rightarrow> string option \<Rightarrow> settlement_rpc \<Rightarrow> settlement" where
  "verifyMppSettlement env b64 binding reference rpc =
     (case binding of
        Some (ChannelSettlement b) \<Rightarrow> verifyChannelSettlement b64 rpc (expected_channel b)
      | Some (ChargeSettlement b) \<Rightarrow>
          (if or_nil reference = [] then SettlementMismatch ''Result has no settlement binding or reference.''
           else case expected_charge b (or_nil reference) of
             Inl e \<Rightarrow> verifyEip3009Settlement rpc e
           | Inr e \<Rightarrow>
               verifySolanaTransferSettlement env (\<lambda>t. case b64 t of Inl _ \<Rightarrow> None | Inr w \<Rightarrow> Some w) rpc e)
      | None \<Rightarrow> SettlementMismatch ''Result has no settlement binding or reference.'')"

end
