(* ===== verification/SettlementSafety.thy ===== *)
theory SettlementSafety
  imports Settlement
begin

text \<open>
  What a verified settlement says of the chain, exactly: the answers of the node under which the checks
  of core/src/settlement-verification.ts answer \<open>verified\<close>.
\<close>

section \<open>EIP-3009\<close>

text \<open>The receipt holds both events of the authorization, emitted by the token.\<close>

definition transfer_emitted :: "eip3009_expected \<Rightarrow> int \<Rightarrow> jsval list \<Rightarrow> bool" where
  "transfer_emitted e a ls \<longleftrightarrow> (\<exists>l \<in> set ls. \<exists>ts. token_log (lower (xe_token e)) l = Some ts \<and> transfer_parties e ts \<and>
     hexBigInt (field ''data'' (props_of l)) = Some a)"

definition authorization_emitted :: "eip3009_expected \<Rightarrow> jsval list \<Rightarrow> bool" where
  "authorization_emitted e ls \<longleftrightarrow>
     (\<exists>l \<in> set ls. \<exists>ts. token_log (lower (xe_token e)) l = Some ts \<and> authorization_used e ts)"

lemma scan_logs_exact:
  "big_value (xe_amount e) = Inr a \<Longrightarrow>
     scan_logs e ls t u = Inr (t \<or> transfer_emitted e a ls, u \<or> authorization_emitted e ls)"
proof (induction ls arbitrary: t u)
  case (Cons l ls)
  then show ?case
    by (cases "token_log (lower (xe_token e)) l") (auto simp: transfer_emitted_def authorization_emitted_def)
qed (simp add: transfer_emitted_def authorization_emitted_def)

lemma scan_logs_unreadable: "big_value (xe_amount e) = Inl m \<Longrightarrow> scan_logs e ls False u = Inr (t, u') \<Longrightarrow> \<not> t"
  by (induction ls arbitrary: u) (auto split: option.splits if_splits)

lemma logs_status_exact:
  "logs_status e logs b = Inr (Settled n) \<longleftrightarrow>
     n = Some b \<and> (\<exists>a. big_value (xe_amount e) = Inr a \<and> transfer_emitted e a (items_of logs)) \<and>
     authorization_emitted e (items_of logs)"
proof (cases "big_value (xe_amount e)")
  case (Inl m)
  then show ?thesis using scan_logs_unreadable by (fastforce simp: logs_status_def)
next
  case (Inr a)
  then show ?thesis using scan_logs_exact by (auto simp: logs_status_def)
qed

lemma receipt_status_exact:
  "receipt_status rpc e p = Inr (Settled n) \<longleftrightarrow>
     hexBigInt (field ''status'' p) = Some 1 \<and>
     (\<exists>b head latest. hexBigInt (field ''blockNumber'' p) = Some b \<and> n = Some b \<and>
        rpc ''eth_blockNumber'' [] = Inr head \<and> hexBigInt head = Some latest \<and>
        safe_integer (or_else (xe_minConfirmations e) 1) \<and> 1 \<le> or_else (xe_minConfirmations e) 1 \<and>
        or_else (xe_minConfirmations e) 1 \<le> latest - b + 1 \<and>
        (\<exists>a. big_value (xe_amount e) = Inr a \<and> transfer_emitted e a (items_of (field ''logs'' p))) \<and>
        authorization_emitted e (items_of (field ''logs'' p)))"
proof (cases "hexBigInt (field ''blockNumber'' p)")
  case (Some b)
  show ?thesis
  proof (cases "rpc ''eth_blockNumber'' []")
    case (Inr head)
    with Some show ?thesis
      by (cases "hexBigInt head") (auto simp: receipt_status_def Let_def logs_status_exact)
  qed (use Some in \<open>auto simp: receipt_status_def Let_def\<close>)
qed (auto simp: receipt_status_def Let_def)

lemma eip3009_status_settled:
  "verifyEip3009Settlement rpc e = Settled n \<longleftrightarrow>
     (\<exists>chain_id served receipt b head latest a.
        eip155_number (xe_chainId e) = Some chain_id \<and> rpc ''eth_chainId'' [] = Inr served \<and> hexBigInt served = Some chain_id \<and>
        rpc ''eth_getTransactionReceipt'' [JStr (xe_txHash e)] = Inr receipt \<and> js_truthy receipt \<and>
        hexBigInt (field ''status'' (props_of receipt)) = Some 1 \<and>
        hexBigInt (field ''blockNumber'' (props_of receipt)) = Some b \<and> n = Some b \<and>
        rpc ''eth_blockNumber'' [] = Inr head \<and> hexBigInt head = Some latest \<and>
        safe_integer (or_else (xe_minConfirmations e) 1) \<and> 1 \<le> or_else (xe_minConfirmations e) 1 \<and>
        or_else (xe_minConfirmations e) 1 \<le> latest - b + 1 \<and> big_value (xe_amount e) = Inr a \<and>
        transfer_emitted e a (items_of (field ''logs'' (props_of receipt))) \<and>
        authorization_emitted e (items_of (field ''logs'' (props_of receipt))))"
proof (cases "eip155_number (xe_chainId e)")
  case (Some i)
  show ?thesis
  proof (cases "rpc ''eth_chainId'' []")
    case (Inr served)
    with Some show ?thesis
      by (cases "rpc ''eth_getTransactionReceipt'' [JStr (xe_txHash e)]")
        (auto simp: verifyEip3009Settlement_def eip3009_status_def receipt_status_exact)
  qed (use Some in \<open>auto simp: verifyEip3009Settlement_def eip3009_status_def\<close>)
qed (auto simp: verifyEip3009Settlement_def eip3009_status_def)


section \<open>Solana transfers\<close>

text \<open>The items of a balance list that count for an owner, and what they hold together.\<close>

definition held_by :: "string \<Rightarrow> string \<Rightarrow> jsval \<Rightarrow> bool" where
  "held_by mnt k v \<longleftrightarrow> field ''mint'' (props_of v) = JStr mnt \<and> field ''owner'' (props_of v) = JStr k"

definition item_amount :: "jsval \<Rightarrow> jsval" where
  "item_amount v = field ''amount'' (props_of (field ''uiTokenAmount'' (props_of v)))"

definition holding :: "string \<Rightarrow> jsval list \<Rightarrow> string \<Rightarrow> int" where
  "holding mnt vs k = sum_list (map (\<lambda>v. dec_value (str_of (item_amount v))) (filter (held_by mnt k) vs))"

definition readable_balances :: "string \<Rightarrow> jsval list \<Rightarrow> bool" where
  "readable_balances mnt vs \<longleftrightarrow> (\<forall>v \<in> set vs. \<forall>k. held_by mnt k v \<longrightarrow> str_where canonical_decimal (item_amount v))"

lemma balance_get_update: "balance_get (AList.update k x m) j = (if j = k then x else balance_get m j)"
  by (simp add: balance_get_def update_conv')

lemma balance_loop_sums:
  "(balance_loop mnt vs out \<noteq> None \<longleftrightarrow> readable_balances mnt vs) \<and>
     (\<forall>m k. balance_loop mnt vs out = Some m \<longrightarrow> balance_get m k = balance_get out k + holding mnt vs k)"
proof (induction vs arbitrary: out)
  case (Cons v vs)
  let ?p = "props_of v"
  show ?case
  proof (cases "field ''mint'' ?p \<noteq> JStr mnt \<or> \<not> is_str (field ''owner'' ?p)")
    case True
    then have "\<not> held_by mnt k v" for k by (auto simp: held_by_def)
    then show ?thesis using True Cons.IH [of out] by (simp add: readable_balances_def holding_def Let_def)
  next
    case False
    then obtain o' where o: "field ''mint'' ?p = JStr mnt" "field ''owner'' ?p = JStr o'" by (cases "field ''owner'' ?p") auto
    then have h: "held_by mnt k v \<longleftrightarrow> k = o'" for k by (auto simp: held_by_def)
    show ?thesis
    proof (cases "str_where canonical_decimal (item_amount v)")
      case True
      then show ?thesis
        using o h Cons.IH [of "AList.update o' (balance_get out o' + dec_value (str_of (item_amount v))) out"]
        by (auto simp: readable_balances_def holding_def Let_def item_amount_def balance_get_update)
    next
      case bad: False
      then show ?thesis using o h by (auto simp: readable_balances_def Let_def item_amount_def)
    qed
  qed
qed (simp add: readable_balances_def holding_def)

lemma balanceMap_Some:
  "balanceMap v mnt = Some m \<Longrightarrow> \<exists>vs. v = JArr vs \<and> readable_balances mnt vs \<and> (\<forall>k. balance_get m k = holding mnt vs k)"
  using balance_loop_sums [of mnt _ "[]"] by (cases v) (force simp: balanceMap_def balance_get_def)+

lemma balanceMap_readable: "readable_balances mnt vs \<Longrightarrow> \<exists>m. balanceMap (JArr vs) mnt = Some m"
  using balance_loop_sums [of mnt vs "[]"] by (auto simp: balanceMap_def)

text \<open>When a message hash is expected, the transaction on chain is that message, signed by the signer.\<close>

definition message_confirmed :: "sol_env \<Rightarrow> (string \<Rightarrow> bytes option) \<Rightarrow> transfer_expected \<Rightarrow> jsval \<Rightarrow> bool" where
  "message_confirmed env b64 e tx \<longleftrightarrow> (case xt_messageHash e of
     None \<Rightarrow> True
   | Some hash \<Rightarrow>
       (\<exists>t w x. first_item tx = JStr t \<and> b64 t = Some w \<and> parseSolanaTransaction env w = Inr x \<and> t_signatures x \<noteq> [] \<and>
          s58_encode env (hd (t_signatures x)) = xt_signature e \<and> verifySolanaSignature env x (xt_signer e) \<and>
          lower (hashHex (s_crypto env) (t_message x)) = lower hash))"

lemma message_refusal_None: "message_refusal env b64 e tx = None \<longleftrightarrow> message_confirmed env b64 e tx"
proof (cases "xt_messageHash e")
  case (Some hash)
  then show ?thesis
    by (cases "first_item tx")
      (auto simp: message_refusal_def message_confirmed_def wire_refusal_def split: option.splits sum.splits if_splits)
qed (simp add: message_refusal_def message_confirmed_def)

lemma message_refusal_not_settled: "message_refusal env b64 e tx \<noteq> Some (Settled n)"
  by (auto simp: message_refusal_def wire_refusal_def split: option.splits sum.splits if_splits)

lemma balance_refusal_None:
  "balance_refusal e a pre post = None \<longleftrightarrow>
     balance_get post (xt_recipient e) - balance_get pre (xt_recipient e) = a \<and>
     a \<le> balance_get pre (xt_payer e) - balance_get post (xt_payer e)"
  by (auto simp: balance_refusal_def)

lemma refused_or_settled:
  "or_else (first_some [balance_refusal e a pre post, message_refusal env b64 e tx]) (Settled k) = Settled n \<longleftrightarrow>
     n = k \<and> balance_refusal e a pre post = None \<and> message_confirmed env b64 e tx"
proof -
  have b: "balance_refusal e a pre post \<noteq> Some (Settled n)" by (auto simp: balance_refusal_def throw_if_def)
  show ?thesis
    using b message_refusal_not_settled [of env b64 e tx n] message_refusal_None [of env b64 e tx]
    by (cases "balance_refusal e a pre post"; cases "message_refusal env b64 e tx") auto
qed

definition transfer_settled ::
  "sol_env \<Rightarrow> (string \<Rightarrow> bytes option) \<Rightarrow> transfer_expected \<Rightarrow> props \<Rightarrow> int option \<Rightarrow> bool" where
  "transfer_settled env b64 e tx n \<longleftrightarrow>
     (\<exists>k ps qs a. field ''slot'' tx = JInt k \<and> safe_integer k \<and> n = Some k \<and> js_truthy (field ''meta'' tx) \<and>
        field ''err'' (props_of (field ''meta'' tx)) = JNull \<and>
        field ''preTokenBalances'' (props_of (field ''meta'' tx)) = JArr ps \<and> readable_balances (xt_mint e) ps \<and>
        field ''postTokenBalances'' (props_of (field ''meta'' tx)) = JArr qs \<and> readable_balances (xt_mint e) qs \<and>
        big_value (xt_amount e) = Inr a \<and>
        holding (xt_mint e) qs (xt_recipient e) = holding (xt_mint e) ps (xt_recipient e) + a \<and>
        holding (xt_mint e) qs (xt_payer e) + a \<le> holding (xt_mint e) ps (xt_payer e) \<and>
        message_confirmed env b64 e (field ''transaction'' tx))"

lemma transaction_status_exact:
  "transaction_status env b64 e tx = Inr (Settled n) \<longleftrightarrow> transfer_settled env b64 e tx n"
proof
  let ?m = "props_of (field ''meta'' tx)"
  assume h: "transaction_status env b64 e tx = Inr (Settled n)"
  then obtain k where k: "field ''slot'' tx = JInt k" "safe_integer k" "js_truthy (field ''meta'' tx)" "field ''err'' ?m = JNull"
    by (auto simp: transaction_status_def Let_def safe_where_iff split: if_splits)
  obtain pre post where b: "balanceMap (field ''preTokenBalances'' ?m) (xt_mint e) = Some pre"
    "balanceMap (field ''postTokenBalances'' ?m) (xt_mint e) = Some post"
    using h k by (auto simp: transaction_status_def Let_def split: option.splits)
  obtain a where a: "big_value (xt_amount e) = Inr a"
    using h k b by (cases "big_value (xt_amount e)") (auto simp: transaction_status_def Let_def)
  have r: "n = Some k" "balance_refusal e a pre post = None" "message_confirmed env b64 e (field ''transaction'' tx)"
    using h k b a refused_or_settled [of e a pre post env b64 "field ''transaction'' tx" "Some k" n]
    by (auto simp: transaction_status_def Let_def)
  show "transfer_settled env b64 e tx n"
    using k a r balanceMap_Some [OF b(1)] balanceMap_Some [OF b(2)] by (auto simp: transfer_settled_def balance_refusal_None)
next
  let ?m = "props_of (field ''meta'' tx)"
  assume "transfer_settled env b64 e tx n"
  then obtain k ps qs a where k: "field ''slot'' tx = JInt k" "safe_integer k" "n = Some k" "js_truthy (field ''meta'' tx)"
    "field ''err'' ?m = JNull" and b: "field ''preTokenBalances'' ?m = JArr ps" "readable_balances (xt_mint e) ps"
    "field ''postTokenBalances'' ?m = JArr qs" "readable_balances (xt_mint e) qs"
    and a: "big_value (xt_amount e) = Inr a" "message_confirmed env b64 e (field ''transaction'' tx)"
      "holding (xt_mint e) qs (xt_recipient e) = holding (xt_mint e) ps (xt_recipient e) + a"
      "holding (xt_mint e) qs (xt_payer e) + a \<le> holding (xt_mint e) ps (xt_payer e)"
    unfolding transfer_settled_def by blast
  obtain pre post where p: "balanceMap (JArr ps) (xt_mint e) = Some pre" "balanceMap (JArr qs) (xt_mint e) = Some post"
    using balanceMap_readable b by blast
  have "balance_refusal e a pre post = None"
    using a(3,4) balanceMap_Some [OF p(1)] balanceMap_Some [OF p(2)] by (auto simp: balance_refusal_None)
  then have "or_else (first_some [balance_refusal e a pre post, message_refusal env b64 e (field ''transaction'' tx)]) (Settled n) = Settled n"
    using refused_or_settled a(2) by blast
  then show "transaction_status env b64 e tx = Inr (Settled n)"
    using k b p a(1) by (simp add: transaction_status_def Let_def safe_where_iff)
qed

lemma serves_cluster:
  "rpcServesSolanaCluster rpc cluster = Inr True \<longleftrightarrow>
     (\<exists>genesis. rpc ''getGenesisHash'' [] = Inr (JStr genesis) \<and> cluster_reference cluster = Some (js_slice 0 32 genesis))"
proof (cases "rpc ''getGenesisHash'' []")
  case (Inr v)
  then show ?thesis by (cases v) (auto simp: rpcServesSolanaCluster_def split: option.splits)
qed (simp add: rpcServesSolanaCluster_def)

text \<open>
  C40: a Solana settlement is reported as verified exactly when the node serves the expected cluster and
  the transaction of that signature executed without error, raised what the recipient holds of the mint
  by exactly the amount and lowered what the payer holds by at least the amount, summed over all their
  token accounts, and, when the hash of a signed message is expected, carries that message with the
  signer's valid signature; the answer carries its slot.
\<close>

theorem solana_settled_exact:
  "verifySolanaTransferSettlement env b64 rpc e = Settled n \<longleftrightarrow>
     (\<exists>genesis tx. rpc ''getGenesisHash'' [] = Inr (JStr genesis) \<and> cluster_reference (xt_cluster e) = Some (js_slice 0 32 genesis) \<and>
        rpc ''getTransaction'' (transaction_query e) = Inr tx \<and> js_truthy tx \<and>
        transfer_settled env b64 e (props_of tx) n)"
proof (cases "rpcServesSolanaCluster rpc (xt_cluster e) = Inr True")
  case True
  then show ?thesis
    using serves_cluster [of rpc "xt_cluster e"]
    by (cases "rpc ''getTransaction'' (transaction_query e)")
      (auto simp: verifySolanaTransferSettlement_def transaction_status_exact)
next
  case False
  then show ?thesis
    using serves_cluster [of rpc "xt_cluster e"]
    by (cases "rpcServesSolanaCluster rpc (xt_cluster e)") (auto simp: verifySolanaTransferSettlement_def)
qed

end
