(* ===== verification/MppSettled.thy ===== *)
theory MppSettled
  imports MppExchange MppSettle SettlementSafety
begin

text \<open>
  A settled charge seen from both sides: the transfer the server submits for an accepted EVM credential
  is the one the client's settlement binding names, so \<open>verifyMppSettlement\<close> verifies it.
\<close>

section \<open>The events of a submission\<close>

text \<open>
  What \<open>transferWithAuthorization\<close> emits (EIP-20, EIP-3009): an address in a topic is padded to 32
  bytes, and the amount is the data.
\<close>

definition address_topic :: "string \<Rightarrow> string" where
  "address_topic a = ''0x'' @ replicate 24 CHR ''0'' @ drop 2 a"

definition transfer_log :: "evm_submission \<Rightarrow> jsval" where
  "transfer_log s = JObj [(''address'', JStr (es_token s)),
     (''topics'', JArr [JStr transfer_topic, JStr (address_topic (es_from s)), JStr (address_topic (es_to s))]),
     (''data'', JStr (''0x'' @ hex_padded 64 (nat (es_value s))))]"

definition authorization_log :: "evm_submission \<Rightarrow> jsval" where
  "authorization_log s = JObj [(''address'', JStr (es_token s)),
     (''topics'', JArr [JStr authorization_used_topic, JStr (address_topic (es_from s)), JStr (es_nonce s)]),
     (''data'', JStr ''0x'')]"

lemma topics_lower: "lower transfer_topic = transfer_topic" "lower authorization_used_topic = authorization_used_topic"
  by code_simp+

lemma wordAddress_topic: "length a = 42 \<Longrightarrow> wordAddress (address_topic a) = lower (''0x'' @ drop 2 a)"
  by (simp add: wordAddress_def address_topic_def)

lemma hex_literal_parts: "hex_literal n a \<Longrightarrow> length a = n + 2 \<and> ''0x'' @ drop 2 a = a"
proof -
  assume h: "hex_literal n a"
  then have "take 2 a = ''0x''" by (simp add: hex_literal_def starts_with_def numeral_2_eq_2)
  then have "''0x'' @ drop 2 a = a" by (metis append_take_drop_id)
  then show ?thesis using h by (simp add: hex_literal_def)
qed

text \<open>The log of an address shows every address that is equal to it up to case.\<close>

lemma address_shown: "hex_literal 40 b \<Longrightarrow> same a b \<Longrightarrow> wordAddress (address_topic a) = lower b"
proof -
  assume b: "hex_literal 40 b" and s: "same a b"
  have "length (lower a) = length (lower b)" using s by (simp add: same_def)
  then have l: "length a = 42" using hex_literal_parts [OF b] by simp
  have "lower (drop 2 a) = lower (drop 2 b)" using s by (simp add: same_def lower_drop)
  then have "lower (''0x'' @ drop 2 a) = lower (''0x'' @ drop 2 b)" by (simp only: lower_append)
  then show ?thesis using wordAddress_topic [OF l] hex_literal_parts [OF b] by simp
qed

lemma hexBigInt_word: "0 \<le> n \<Longrightarrow> n < 16 ^ 64 \<Longrightarrow> hexBigInt (JStr (''0x'' @ hex_padded 64 (nat n))) = Some n"
proof -
  assume n: "0 \<le> n" "n < 16 ^ 64"
  have l: "length (hex_padded 64 (nat n)) = 64" using n by (intro length_hex_padded) auto
  have h: "\<forall>c \<in> set (hex_padded 64 (nat n)). is_hex c" using hex_padded_hex by blast
  have x: "lower ''0x'' = ''0x''" by code_simp
  have "hex_number (''0x'' @ hex_padded 64 (nat n))" using l h x by (simp add: hex_number_def)
  then show ?thesis using n(1) bigint_of_hex [OF h] by (simp add: hexBigInt_def)
qed


section \<open>The client's check of a settled charge\<close>

text \<open>A successful receipt with the events of a submission, in a block the node has.\<close>

definition submission_mined :: "settlement_rpc \<Rightarrow> evm_submission \<Rightarrow> string \<Rightarrow> int \<Rightarrow> bool" where
  "submission_mined rpc s hash b \<longleftrightarrow>
     (\<exists>served receipt head latest. rpc ''eth_chainId'' [] = Inr served \<and> hexBigInt served = Some (es_chainId s) \<and>
        rpc ''eth_getTransactionReceipt'' [JStr hash] = Inr (JObj receipt) \<and>
        hexBigInt (field ''status'' receipt) = Some 1 \<and> hexBigInt (field ''blockNumber'' receipt) = Some b \<and>
        rpc ''eth_blockNumber'' [] = Inr head \<and> hexBigInt head = Some latest \<and> b \<le> latest \<and>
        transfer_log s \<in> set (items_of (field ''logs'' receipt)) \<and>
        authorization_log s \<in> set (items_of (field ''logs'' receipt)))"

lemma created_binding:
  assumes "createChargeCredential rt c ch r d sg now_ms = Inr cc"
  shows "cc_binding cc = Eip3009Binding \<lparr>eb_chainId = ''eip155:'' @ show_int (ev_chainId r), eb_token = ev_currency r,
    eb_from = ts_address sg, eb_to = ev_recipient r, eb_amount = ev_amount r, eb_nonce = challengeNonce c (wc_params ch)\<rparr>"
  using assms by (auto simp: createChargeCredential_def buildChargeAuthorization_def Let_def split: if_splits)

text \<open>The transfer that is submitted for an accepted credential, in the terms of its request.\<close>

lemma submission_of_accepted:
  assumes "verifyCredential rt c env opts header = Inr v" "vc_payment v = EvmPayment r e"
  shows "es_chainId (evm_submission_of e) = ev_chainId r \<and> same (es_token (evm_submission_of e)) (ev_currency r) \<and>
    es_from (evm_submission_of e) = vc_payer v \<and> same (es_to (evm_submission_of e)) (ev_recipient r) \<and>
    es_value (evm_submission_of e) = dec_value (ev_amount r) \<and>
    same (es_nonce (evm_submission_of e)) (challengeNonce c (vc_challenge v))"
  using evm_authorization_pays [OF assms] by (auto simp: evm_submission_of_def Let_def)

lemma eip155_number_show: "0 < n \<Longrightarrow> eip155_number (''eip155:'' @ show_int n) = Some n"
  by (simp add: eip155_number_def starts_with_def dec_value_show) (simp add: show_int_def)

text \<open>The expectation of a binding whose values are those of a submission, up to case.\<close>

lemma submission_shown:
  assumes s: "same (es_token s) (xe_token e)" "same (es_from s) (xe_from e)" "same (es_to s) (xe_to e)" "same (es_nonce s) (xe_nonce e)"
    and a: "hex_literal 40 (xe_from e)" "hex_literal 40 (xe_to e)" "0 \<le> es_value s" "es_value s < 16 ^ 64"
    and l: "transfer_log s \<in> set ls" "authorization_log s \<in> set ls"
  shows "transfer_emitted e (es_value s) ls \<and> authorization_emitted e ls"
proof
  show "transfer_emitted e (es_value s) ls"
    unfolding transfer_emitted_def
    by (rule bexI [OF _ l(1)], rule exI [of _ "[transfer_topic, address_topic (es_from s), address_topic (es_to s)]"])
      (use s a address_shown hexBigInt_word topics_lower in
        \<open>simp add: transfer_log_def token_log_def log_topics_def transfer_parties_def event_named_def same_def field_Cons\<close>)
  show "authorization_emitted e ls"
    unfolding authorization_emitted_def
    by (rule bexI [OF _ l(2)], rule exI [of _ "[authorization_used_topic, address_topic (es_from s), es_nonce s]"])
      (use s a address_shown topics_lower in
        \<open>simp add: authorization_log_def token_log_def log_topics_def authorization_used_def event_named_def same_def field_Cons\<close>)
qed

text \<open>
  C38: a settled charge verifies.  When a server has accepted the credential a client built and settles
  it, and the node shows the submitted transfer mined (the two events of the token for the submission
  \<open>settleEvmAuthorization\<close> makes, in a successful receipt under the transaction hash that it returned as
  the receipt's reference), then \<open>verifyMppSettlement\<close>, given the settlement binding that the client
  kept from building the credential and that reference, answers \<open>verified\<close> with the block.  So the binding
  names the transfer that the server was handed: token, payer, recipient, amount and nonce.
\<close>

theorem settled_charge_verifies:
  assumes cc: "createChargeCredential rt c ch r d sg sign_now = Inr cc"
    and r: "readEvmRequest (wc_request ch) = Inr r" "hex_literal 40 (ts_address sg)"
    and v: "verifyCredential rt' c env opts header = Inr v" "vc_payment v = EvmPayment r e"
      "vc_challenge v = wc_params ch" "vc_payer v = ts_address sg"
    and settled: "settleEvmAuthorization e (Some submit) = Inr hash"
    and mined: "submission_mined rpc (evm_submission_of e) hash b"
  shows "verifyMppSettlement env' b64 (Some (ChargeSettlement (cc_binding cc))) (Some hash) rpc = Settled (Some b)"
proof -
  let ?s = "evm_submission_of e"
  let ?x = "\<lparr>xe_chainId = ''eip155:'' @ show_int (ev_chainId r), xe_txHash = hash, xe_token = ev_currency r,
    xe_from = ts_address sg, xe_to = ev_recipient r, xe_amount = BigText (ev_amount r),
    xe_nonce = challengeNonce c (wc_params ch), xe_minConfirmations = None\<rparr>"
  note ok = readEvmRequest_ok [OF r(1), unfolded evm_request_ok_def]
  note s = submission_of_accepted [OF v(1,2)]
  obtain served receipt head latest where n: "rpc ''eth_chainId'' [] = Inr served" "hexBigInt served = Some (es_chainId ?s)"
    "rpc ''eth_getTransactionReceipt'' [JStr hash] = Inr (JObj receipt)"
    "hexBigInt (field ''status'' receipt) = Some 1" "hexBigInt (field ''blockNumber'' receipt) = Some b"
    "rpc ''eth_blockNumber'' [] = Inr head" "hexBigInt head = Some latest" "b \<le> latest"
    "transfer_log ?s \<in> set (items_of (field ''logs'' receipt))" "authorization_log ?s \<in> set (items_of (field ''logs'' receipt))"
    using mined unfolding submission_mined_def by blast
  have range: "0 \<le> es_value ?s" "es_value ?s < 16 ^ 64" using s ok by (simp_all add: uint256_max_def)
  have em: "transfer_emitted ?x (es_value ?s) (items_of (field ''logs'' receipt)) \<and> authorization_emitted ?x (items_of (field ''logs'' receipt))"
    by (rule submission_shown [OF _ _ _ _ _ _ range n(9,10)]) (use s v(3,4) r(2) ok in \<open>simp_all add: same_def\<close>)
  have big: "big_value (BigText (ev_amount r)) = Inr (es_value ?s)"
    using ok dec_value_canonical [of "ev_amount r"] s by auto
  have chain: "eip155_number (xe_chainId ?x) = Some (es_chainId ?s)"
    using eip155_number_show [of "ev_chainId r"] s ok by simp
  have "hash \<noteq> []"
    using settled by (auto simp: settleEvmAuthorization_def str_where_iff hex_literal_def starts_with_def split: if_splits)
  moreover have "verifyEip3009Settlement rpc ?x = Settled (Some b)"
    unfolding eip3009_status_settled using n em big chain by (auto simp: safe_integer_def max_safe_def)
  ultimately show ?thesis using created_binding [OF cc] by (simp add: verifyMppSettlement_def)
qed

end
