(* ===== verification/MppFetchSafety.thy ===== *)
theory MppFetchSafety
  imports MppCharge
begin

text \<open>
  What \<open>mppFetch\<close> (packages/payments-mpp/src/fetch.ts) sends: at most one credential, and only for a
  challenge that came from the requested origin, that the options admit and that was approved.
\<close>

section \<open>The selected charge\<close>

lemma map_throw_filter:
  "map_throw keep xs = Inr bs \<Longrightarrow> x \<in> set (map fst (filter snd (zip xs bs))) \<Longrightarrow> x \<in> set xs \<and> keep x = Inr True"
proof (induction xs arbitrary: bs)
  case (Cons y ys)
  then obtain b cs where "bs = b # cs" "keep y = Inr b" "map_throw keep ys = Inr cs" by auto
  then show ?case using Cons by (auto split: if_splits)
qed simp

lemma filterAsync_kept: "filterAsync keep xs = Inr ys \<Longrightarrow> x \<in> set ys \<Longrightarrow> x \<in> set xs \<and> keep x = Inr True"
  using map_throw_filter by (force simp: filterAsync_def)

text \<open>The terms under which the options admit a charge of a challenge.\<close>

definition charge_admitted :: "fetch_options \<Rightarrow> fetch_world \<Rightarrow> wire_challenge \<Rightarrow> selected_charge \<Rightarrow> bool" where
  "charge_admitted opts w ch sel \<longleftrightarrow> (case sel of
     SelectedEvm c r d \<Rightarrow>
       c = ch \<and> cp_method (wc_params ch) = ''evm'' \<and> fo_signer opts \<noteq> None \<and> readEvmRequest (wc_request ch) = Inr r \<and>
       (\<forall>ids. fo_chainIds opts = Some ids \<longrightarrow> ev_chainId r \<in> set ids) \<and> findDomain r (fo_tokenDomains opts) = Some d
   | SelectedSolana c r \<Rightarrow>
       c = ch \<and> cp_method (wc_params ch) = ''solana'' \<and>
       (\<exists>so. fo_solana opts = Some so \<and>
          readSolanaRequest (fw_rt w) (or_else (sv_networks so) both_networks) (wc_request ch) = Inr r \<and>
          (\<forall>cfg kid. sv_payer so = ByKey cfg kid \<longrightarrow>
             sessionKeyMismatch r kid (kv_now (fw_views w)) (fw_filter w) = Inr None)))"

lemma payable_kept:
  assumes "payable opts w cs = Inr pcs" "ch \<in> set pcs"
  shows "ch \<in> set cs \<and> (\<forall>so cfg kid. fo_solana opts = Some so \<longrightarrow> sv_payer so = ByKey cfg kid \<longrightarrow>
    keeps_challenge w so kid ch = Inr True)"
  using assms filterAsync_kept by (fastforce simp: payable_def split: option.splits solana_payer.splits)

lemma kept_key_matches:
  assumes "keeps_challenge w so kid ch = Inr True" "cp_method (wc_params ch) = ''solana''"
    and "readSolanaRequest (fw_rt w) (or_else (sv_networks so) both_networks) (wc_request ch) = Inr r"
  shows "sessionKeyMismatch r kid (kv_now (fw_views w)) (fw_filter w) = Inr None"
  using assms by (auto simp: keeps_challenge_def)

lemma charge_of_admitted:
  assumes sel: "charge_of (fw_rt w) ch (fetch_selects opts w) = Inr sel"
    and pay: "payable opts w cs = Inr pcs" "ch \<in> set pcs"
  shows "charge_admitted opts w ch sel \<and> charge_challenge sel = wc_params ch \<and> cp_intent (wc_params ch) = ''charge'' \<and>
    (\<forall>e. wc_expiresAt ch = Some e \<longrightarrow> fw_select_now w div 1000 < e div 1000)"
proof -
  note k = payable_kept [OF pay]
  have i: "cp_intent (wc_params ch) = ''charge''" "\<forall>e. wc_expiresAt ch = Some e \<longrightarrow> fw_select_now w div 1000 < e div 1000"
    using sel by (auto simp: charge_of_def fetch_selects_def Let_def split: if_splits option.splits)
  have "charge_admitted opts w ch sel \<and> charge_challenge sel = wc_params ch"
  proof (cases sel)
    case (SelectedEvm c r d)
    then show ?thesis
      using sel by (auto simp: charge_of_def evm_charge_of_def fetch_selects_def Let_def charge_admitted_def
        charge_challenge_def split: if_splits option.splits)
  next
    case (SelectedSolana c r)
    then obtain so where s: "fo_solana opts = Some so" "c = ch" "cp_method (wc_params ch) = ''solana''"
      "readSolanaRequest (fw_rt w) (or_else (sv_networks so) both_networks) (wc_request ch) = Inr r"
      using sel by (auto simp: charge_of_def evm_charge_of_def fetch_selects_def Let_def split: if_splits option.splits)
    then show ?thesis
      using k kept_key_matches SelectedSolana by (auto simp: charge_admitted_def charge_challenge_def)
  qed
  with i show ?thesis by blast
qed

lemma selected_of_Inr:
  assumes "selected_of opts w resp = Inr sel"
  shows "\<not> fr_redirected resp \<and> (\<forall>x. fr_origin resp = Some x \<longrightarrow> x = fw_origin w) \<and>
    (\<forall>f. fo_approve opts = Some f \<longrightarrow> f sel) \<and>
    (\<exists>cs rejected ch. parsePaymentChallenges (fw_rt w) (fr_authenticate resp) = Some (Inr (cs, rejected)) \<and> ch \<in> set cs \<and>
       charge_admitted opts w ch sel \<and> charge_challenge sel = wc_params ch \<and> cp_intent (wc_params ch) = ''charge'' \<and>
       (\<forall>e. wc_expiresAt ch = Some e \<longrightarrow> fw_select_now w div 1000 < e div 1000))"
proof -
  have r: "\<not> fr_redirected resp" "\<forall>x. fr_origin resp = Some x \<longrightarrow> x = fw_origin w"
    using assms by (auto simp: selected_of_def split: if_splits)
  obtain cs rejected where c: "parsePaymentChallenges (fw_rt w) (fr_authenticate resp) = Some (Inr (cs, rejected))"
    using assms r by (cases "parsePaymentChallenges (fw_rt w) (fr_authenticate resp)") (auto simp: selected_of_def)
  obtain pcs where p: "payable opts w cs = Inr pcs" "selectCharge (fw_rt w) pcs (fetch_selects opts w) rejected = Inr sel"
    "\<forall>f. fo_approve opts = Some f \<longrightarrow> f sel"
    using assms r c by (auto simp: selected_of_def split: if_splits option.splits)
  obtain ch where ch: "ch \<in> set pcs" "charge_of (fw_rt w) ch (fetch_selects opts w) = Inr sel"
    using p(2) unfolding select_first by (metis in_set_conv_decomp)
  show ?thesis using r c p(3) charge_of_admitted [OF ch(2) p(1) ch(1)] payable_kept [OF p(1) ch(1)] by blast
qed

lemma receipt_for_Some:
  "receipt_for rt i v = Some ps \<Longrightarrow>
     field ''status'' ps = JStr ''success'' \<and> (field ''challengeId'' ps = JUndefined \<or> field ''challengeId'' ps = JStr i)"
  by (auto simp: receipt_for_def parsePaymentReceipt_def receipt_bad_def Let_def split: sum.splits option.splits if_splits)

section \<open>One payment\<close>

text \<open>
  C37: the paying fetch pays at most once, and only what it was meant to.  It sends at most one
  credential.  It sends one only after a 402 from the requested origin, without a redirect, for a
  challenge of that response that has not expired, whose request reads as a charge the options admit
  (configured signer, listed chain and known token, or the session key's cluster, mint and sponsorship)
  and that \<open>approve\<close> accepted; the credential is the one built for that charge.  A result after a payment
  is not a 402, names the charge, and its receipt never names another challenge.  Without a payment the
  result is the first answer.
\<close>

theorem fetch_pays_once:
  assumes "mppFetch opts w first second = (res, sent, keys)"
  shows "length sent \<le> 1 \<and>
    (\<forall>h v. (h, v) \<in> set sent \<longrightarrow>
      (\<exists>resp cs rejected ch sel cc. first = Inr resp \<and> fr_status resp = 402 \<and> \<not> fr_redirected resp \<and>
        (\<forall>x. fr_origin resp = Some x \<longrightarrow> x = fw_origin w) \<and>
        parsePaymentChallenges (fw_rt w) (fr_authenticate resp) = Some (Inr (cs, rejected)) \<and> ch \<in> set cs \<and>
        cp_intent (wc_params ch) = ''charge'' \<and> (\<forall>e. wc_expiresAt ch = Some e \<longrightarrow> fw_select_now w div 1000 < e div 1000) \<and>
        charge_admitted opts w ch sel \<and> (\<forall>f. fo_approve opts = Some f \<longrightarrow> f sel) \<and>
        charge_credential_of opts w sel = (Inr cc, keys) \<and> h = cc_header cc \<and> v = cc_value cc \<and>
        (\<forall>r. res = Inr r \<longrightarrow> second h v = Inr (fe_response r) \<and> fr_status (fe_response r) \<noteq> 402 \<and>
           fe_paid r = Some sel \<and> fe_binding r = Some (cc_binding cc) \<and>
           (\<forall>ps. fe_receipt r = Some ps \<longrightarrow> field ''status'' ps = JStr ''success'' \<and>
              field ''challengeId'' ps \<in> {JUndefined, JStr (cp_id (wc_params ch))})))) \<and>
    (\<forall>r. res = Inr r \<longrightarrow> sent = [] \<longrightarrow> first = Inr (fe_response r) \<and> fr_status (fe_response r) \<noteq> 402 \<and> fe_paid r = None)"
proof (cases "\<exists>resp sel cc a. first = Inr resp \<and> fr_status resp = 402 \<and> selected_of opts w resp = Inr sel \<and>
    charge_credential_of opts w sel = (Inr cc, a)")
  case True
  then obtain resp sel cc a where f: "first = Inr resp" "fr_status resp = 402" "selected_of opts w resp = Inr sel"
    "charge_credential_of opts w sel = (Inr cc, a)" by blast
  then have m: "res = andThen (second (cc_header cc) (cc_value cc)) (paid_answer w sel cc)"
    "sent = [(cc_header cc, cc_value cc)]" "keys = a"
    using assms by (auto simp: mppFetch_def Let_def)
  have paid: "second (cc_header cc) (cc_value cc) = Inr (fe_response r) \<and> fr_status (fe_response r) \<noteq> 402 \<and>
      fe_paid r = Some sel \<and> fe_binding r = Some (cc_binding cc) \<and>
      (\<forall>ps. fe_receipt r = Some ps \<longrightarrow> field ''status'' ps = JStr ''success'' \<and>
         field ''challengeId'' ps \<in> {JUndefined, JStr (cp_id (charge_challenge sel))})"
    if "res = Inr r" for r
    using that m(1) by (auto simp: paid_answer_def split: if_splits dest: receipt_for_Some)
  note sel = selected_of_Inr [OF f(3)]
  then obtain cs rejected ch where ch: "parsePaymentChallenges (fw_rt w) (fr_authenticate resp) = Some (Inr (cs, rejected))"
    "ch \<in> set cs" "charge_admitted opts w ch sel" "charge_challenge sel = wc_params ch" "cp_intent (wc_params ch) = ''charge''"
    "\<forall>e. wc_expiresAt ch = Some e \<longrightarrow> fw_select_now w div 1000 < e div 1000" by blast
  have "charge_credential_of opts w sel = (Inr cc, keys)" using f(4) m(3) by simp
  then show ?thesis using f(1,2) sel ch(1,2,3,5,6) paid unfolding m(2) ch(4) by simp blast
next
  case False
  then show ?thesis using assms by (auto simp: mppFetch_def Let_def split: sum.splits if_splits prod.splits)
qed

end
