(* ===== verification/MppServerDemo.thy ===== *)
theory MppServerDemo
  imports MppSettled MppFetchSafety
begin

text \<open>
  A concrete EVM charge and a concrete Solana charge, evaluated: the instances at which the
  properties of the server are applied.
\<close>

section \<open>A message authentication code without collisions\<close>

definition mac_crypto :: crypto where
  "mac_crypto = toy_crypto\<lparr>hmac_sha256 := (\<lambda>key x. 1 # x)\<rparr>"

lemma mac_crypto_laws:
  "hash_lengths mac_crypto" "hmac_sha256 mac_crypto k x \<noteq> []" "hash_apart (hmac_sha256 mac_crypto k) xs"
  using toy_crypto_laws(1) by (simp_all add: mac_crypto_def hash_lengths_def hash_apart_def)

section \<open>An EVM charge\<close>

definition demo_evm_input :: challenge_input where
  "demo_evm_input = \<lparr>ci_realm = ''shop'', ci_method = ''evm'', ci_intent = ''charge'', ci_request = demo_price,
     ci_expires = Some (ExpiresDate (Some 1000000)), ci_secret = demo_hmac_secret, ci_digest = None,
     ci_description = None, ci_header = None, ci_opaque = None\<rparr>"

definition demo_domain :: token_domain where
  "demo_domain = \<lparr>td_chainId = 1, td_address = evm_addr CHR ''C'', td_name = ''Coin'', td_version = ''1''\<rparr>"

definition demo_evm_request :: evm_request where
  "demo_evm_request = \<lparr>ev_amount = ''25'', ev_currency = evm_addr CHR ''c'', ev_recipient = evm_addr CHR ''d'',
     ev_chainId = 1, ev_externalId = None\<rparr>"

definition demo_selects :: select_options where
  "demo_selects = \<lparr>se_chainIds = Some [1], se_tokenDomains = Some [demo_domain], se_now = 5000, se_evm = True,
     se_solana = False, se_solanaNetworks = None\<rparr>"

definition demo_evm_signature :: string where
  "demo_evm_signature = ''0x'' @ replicate 88 CHR ''1'' @ replicate 40 CHR ''a'' @ ''1b''"

text \<open>A signer that signs only what recovers to its address.\<close>

definition demo_signer :: typed_signer where
  "demo_signer = \<lparr>ts_address = evm_addr CHR ''a'',
     ts_sign = (\<lambda>a. case recoverTypedDataSigner mac_crypto a demo_evm_signature of
       None \<Rightarrow> Inl (bad_input ''refused'')
     | Some s \<Rightarrow> if s = evm_addr CHR ''a'' then Inr demo_evm_signature else Inl (bad_input ''refused''))\<rparr>"

definition demo_wire :: "challenge_params \<Rightarrow> wire_challenge" where
  "demo_wire p = \<lparr>wc_params = p, wc_request = props_of (sorted_value demo_price), wc_expiresAt = Some 1000000\<rparr>"

definition demo_authorization :: "challenge_params \<Rightarrow> typed_data_request" where
  "demo_authorization p = buildChargeAuthorization mac_crypto (demo_wire p) demo_evm_request demo_domain (evm_addr CHR ''a'') 5000"

definition demo_evm_credential :: "challenge_params \<Rightarrow> mpp_credential" where
  "demo_evm_credential p = evm_credential (demo_wire p) demo_evm_request (demo_authorization p) demo_evm_signature"

lemma demo_evm_run:
  "(case buildChallenge demo_rt mac_crypto demo_evm_input of
      Inr p \<Rightarrow>
        (case formatChallenge p of Inr _ \<Rightarrow> True | Inl _ \<Rightarrow> False) \<and>
        (case cp_expires p of Some t \<Rightarrow> parseRfc3339 demo_rt t = Some 1000000 | None \<Rightarrow> False) \<and>
        selectCharge demo_rt [demo_wire p] demo_selects [] = Inr (SelectedEvm (demo_wire p) demo_evm_request demo_domain) \<and>
        ts_sign demo_signer (demo_authorization p) = Inr demo_evm_signature \<and>
        (case json_stringify demo_rt (credential_value (demo_evm_credential p)) of
           Inr (Some t) \<Rightarrow> length t \<le> 8000
         | _ \<Rightarrow> False)
    | Inl _ \<Rightarrow> False)"
  by code_simp

definition demo_evm_rpc :: evm_rpc where
  "demo_evm_rpc = \<lparr>authorizationState = (\<lambda>cid t a n. Inr (JBool False)), balanceOf = (\<lambda>cid t a. Inr (JBig 25))\<rparr>"

definition demo_verify :: verify_options where
  "demo_verify = \<lparr>vo_secret = demo_hmac_secret, vo_previous = [], vo_realm = ''shop'',
     vo_accept = [\<lparr>of_method = ''evm'', of_request = demo_price\<rparr>], vo_field = None,
     vo_digest = None, vo_now = 6000, vo_used = None,
     vo_evm = Some \<lparr>eo_rpc = demo_evm_rpc, eo_tokenDomains = Some [demo_domain]\<rparr>, vo_maxFee = None\<rparr>"

lemma demo_input_facts:
  "ci_method demo_evm_input = ''evm''" "ci_request demo_evm_input = demo_price"
  "json_data demo_price" "ci_opaque demo_evm_input = Some v \<Longrightarrow> json_data v"
  "ci_expires demo_evm_input = Some (ExpiresDate (Some t)) \<Longrightarrow> parseRfc3339 demo_rt (rt_iso demo_rt t) = Some t"
proof -
  have "parseRfc3339 demo_rt (rt_iso demo_rt 1000000) = Some 1000000" by code_simp
  then show "ci_expires demo_evm_input = Some (ExpiresDate (Some t)) \<Longrightarrow> parseRfc3339 demo_rt (rt_iso demo_rt t) = Some t"
    by (auto simp: demo_evm_input_def)
  show "json_data demo_price" by code_simp
qed (simp_all add: demo_evm_input_def)

lemma demo_expected: "server_expects demo_evm_input demo_verify 1000000"
  using demo_input_facts(3) by (simp add: server_expects_def demo_evm_input_def demo_verify_def)

lemma demo_signs: "signs_as_itself mac_crypto demo_signer"
  by (auto simp: signs_as_itself_def demo_signer_def evm_addr_def same_def split: option.splits if_splits)

lemma demo_domain_found: "findDomain demo_evm_request (Some [demo_domain]) = Some demo_domain"
  by code_simp

text \<open>The challenge, what its header parses to, and the credential of the client.\<close>

lemma demo_evm_exchange:
  obtains header p cc where "createChallenge demo_rt mac_crypto demo_evm_input = Inr header"
    "parsePaymentChallenges demo_rt (Some header) = Some (Inr ([demo_wire p], []))"
    "selectCharge demo_rt [demo_wire p] demo_selects [] = Inr (SelectedEvm (demo_wire p) demo_evm_request demo_domain)"
    "createChargeCredential demo_rt mac_crypto (demo_wire p) demo_evm_request demo_domain demo_signer 5000 = Inr cc"
    "length (cc_value cc) \<le> max_credential_length"
proof -
  obtain p where p: "buildChallenge demo_rt mac_crypto demo_evm_input = Inr p"
    using demo_evm_run by (auto split: sum.splits)
  note run = demo_evm_run [unfolded p sum.case]
  obtain f where f: "formatChallenge p = Inr f" using run by (auto split: sum.splits)
  then have h: "createChallenge demo_rt mac_crypto demo_evm_input = Inr f" by (simp add: createChallenge_def p)
  have "parsePaymentChallenges demo_rt (Some f) =
      Some (Inr ([\<lparr>wc_params = p, wc_request = props_of (sorted_value demo_price),
                   wc_expiresAt = Option.bind (cp_expires p) (parseRfc3339 demo_rt)\<rparr>], []))"
    using created_challenge_read [OF h _ demo_input_facts(4) mac_crypto_laws(2) demo_input_facts(5)] demo_input_facts(2,3) p by auto
  then have w: "parsePaymentChallenges demo_rt (Some f) = Some (Inr ([demo_wire p], []))"
    using run by (auto simp: demo_wire_def split: option.splits)
  obtain t where t: "json_stringify demo_rt (credential_value (demo_evm_credential p)) = Inr (Some t)" "length t \<le> 8000"
    using run by (auto split: sum.splits option.splits)
  have "length (utf8 t) \<le> 8000" using t(2) by (simp add: utf8_def)
  then obtain hd v where e: "encodeCredential demo_rt (demo_evm_credential p) = Inr (hd, v)" "length v \<le> max_credential_length"
    using credential_length [OF t(1)] by blast
  have s: "hex_literal 130 demo_evm_signature" by code_simp
  have "ts_address demo_signer = evm_addr CHR ''a''" by (simp add: demo_signer_def)
  then obtain cc where "createChargeCredential demo_rt mac_crypto (demo_wire p) demo_evm_request demo_domain demo_signer 5000 = Inr cc"
    "cc_value cc = v"
    using run s e(1) by (auto simp: createChargeCredential_def Let_def demo_authorization_def demo_evm_credential_def)
  then show thesis using that [OF h w _ ] run e(2) by blast
qed

lemma demo_evm_facts:
  "ts_address demo_signer = evm_addr CHR ''a''" "hex_literal 40 (ts_address demo_signer)"
  "\<not> same (ts_address demo_signer) (''0x'' @ replicate 40 CHR ''0'')"
  "wc_expiresAt (demo_wire p) = Some y \<Longrightarrow> server_expects demo_evm_input demo_verify y \<and> y div 1000 \<le> uint256_max"
  "vo_evm demo_verify = Some \<lparr>eo_rpc = demo_evm_rpc, eo_tokenDomains = Some [demo_domain]\<rparr>"
  "findDomain demo_evm_request (eo_tokenDomains \<lparr>eo_rpc = demo_evm_rpc, eo_tokenDomains = Some [demo_domain]\<rparr>) = Some demo_domain"
  "hex_literal 40 (td_address demo_domain)"
  "chain_agrees (eo_rpc \<lparr>eo_rpc = demo_evm_rpc, eo_tokenDomains = Some [demo_domain]\<rparr>) (ev_chainId demo_evm_request)
     (td_address demo_domain) (ts_address demo_signer) (challengeNonce mac_crypto (wc_params (demo_wire p)))
     (dec_value (ev_amount demo_evm_request))"
proof -
  show a: "ts_address demo_signer = evm_addr CHR ''a''" by (simp add: demo_signer_def)
  show "hex_literal 40 (ts_address demo_signer)" "\<not> same (ts_address demo_signer) (''0x'' @ replicate 40 CHR ''0'')"
    unfolding a by code_simp+
  show "wc_expiresAt (demo_wire p) = Some y \<Longrightarrow> server_expects demo_evm_input demo_verify y \<and> y div 1000 \<le> uint256_max"
    using demo_expected by (auto simp: demo_wire_def uint256_max_def)
  show "hex_literal 40 (td_address demo_domain)" by code_simp
  have "dec_value (ev_amount demo_evm_request) = 25" by code_simp
  then show "chain_agrees (eo_rpc \<lparr>eo_rpc = demo_evm_rpc, eo_tokenDomains = Some [demo_domain]\<rparr>) (ev_chainId demo_evm_request)
     (td_address demo_domain) (ts_address demo_signer) (challengeNonce mac_crypto (wc_params (demo_wire p)))
     (dec_value (ev_amount demo_evm_request))"
    by (simp add: chain_agrees_def demo_evm_rpc_def)
qed (simp_all add: demo_verify_def demo_domain_found)

lemma demo_request_data: "json_data (ci_request demo_evm_input)"
  using demo_input_facts(2,3) by simp

lemma demo_evm_verified:
  "\<exists>hv v e. verifyCredential demo_rt mac_crypto toy_sol demo_verify (Some hv) = Inr v \<and>
     vc_payment v = EvmPayment demo_evm_request e"
proof (rule demo_evm_exchange)
  fix header p cc
  assume x: "createChallenge demo_rt mac_crypto demo_evm_input = Inr header"
    "parsePaymentChallenges demo_rt (Some header) = Some (Inr ([demo_wire p], []))"
    "selectCharge demo_rt [demo_wire p] demo_selects [] = Inr (SelectedEvm (demo_wire p) demo_evm_request demo_domain)"
    "createChargeCredential demo_rt mac_crypto (demo_wire p) demo_evm_request demo_domain demo_signer 5000 = Inr cc"
    "length (cc_value cc) \<le> max_credential_length"
  show ?thesis
    using evm_exchange_accepted [OF x(1) demo_input_facts(1) demo_request_data demo_input_facts(4) mac_crypto_laws(2)
      mac_crypto_laws(1) demo_input_facts(5) x(2,3) demo_evm_facts(2,3) demo_signs x(4,5) demo_evm_facts(4) [of p] demo_evm_facts(5,6) refl refl
      demo_evm_facts(7,8), where env = toy_sol] by auto
qed

theorem evm_charge_completes_witness:
  "\<exists>header cs cc v e. createChallenge demo_rt mac_crypto demo_evm_input = Inr header \<and>
     parsePaymentChallenges demo_rt (Some header) = Some (Inr (cs, [])) \<and>
     createChargeCredential demo_rt mac_crypto (hd cs) demo_evm_request demo_domain demo_signer 5000 = Inr cc \<and>
     verifyCredential demo_rt mac_crypto toy_sol demo_verify (Some (cc_value cc)) = Inr v \<and>
     vc_payment v = EvmPayment demo_evm_request e \<and> vc_payer v = evm_addr CHR ''a''"
proof (rule demo_evm_exchange)
  fix header p cc
  assume x: "createChallenge demo_rt mac_crypto demo_evm_input = Inr header"
    "parsePaymentChallenges demo_rt (Some header) = Some (Inr ([demo_wire p], []))"
    "selectCharge demo_rt [demo_wire p] demo_selects [] = Inr (SelectedEvm (demo_wire p) demo_evm_request demo_domain)"
    "createChargeCredential demo_rt mac_crypto (demo_wire p) demo_evm_request demo_domain demo_signer 5000 = Inr cc"
    "length (cc_value cc) \<le> max_credential_length"
  from evm_charge_completes [OF x(1) demo_input_facts(1) demo_request_data demo_input_facts(4) mac_crypto_laws(2)
      mac_crypto_laws(1) demo_input_facts(5) x(2,3) demo_evm_facts(2,3) demo_signs x(4,5) demo_evm_facts(4) [of p] demo_evm_facts(5,6) refl refl
      demo_evm_facts(7,8), where env = toy_sol]
  show ?thesis using x(1,2,4) demo_evm_facts(1) by (intro exI [of _ header] exI [of _ "[demo_wire p]"] exI [of _ cc]) auto
qed

theorem evm_credential_pays_witness:
  "\<exists>hv v e. verifyCredential demo_rt mac_crypto toy_sol demo_verify (Some hv) = Inr v \<and>
     vc_payment v = EvmPayment demo_evm_request e \<and> r_value (ve_authorization e) = ''25'' \<and>
     same (r_to (ve_authorization e)) (evm_addr CHR ''d'') \<and> vc_payer v = r_from (ve_authorization e)"
proof -
  obtain hv v e where v: "verifyCredential demo_rt mac_crypto toy_sol demo_verify (Some hv) = Inr v"
    "vc_payment v = EvmPayment demo_evm_request e" using demo_evm_verified by blast
  from evm_credential_pays [OF this] v show ?thesis by (auto simp: Let_def demo_evm_request_def)
qed

section \<open>The fetch that pays it\<close>

definition demo_fetch :: fetch_options where
  "demo_fetch = \<lparr>fo_chainIds = Some [1], fo_tokenDomains = Some [demo_domain], fo_signer = Some demo_signer,
     fo_solana = None, fo_approve = Some (\<lambda>sel. True)\<rparr>"

definition demo_fetch_world :: fetch_world where
  "demo_fetch_world = (let none = \<lparr>raw = NoRaw, accepts = True\<rparr> in
     \<lparr>fw_rt = demo_rt, fw_env = toy_sol\<lparr>s_crypto := mac_crypto\<rparr>, fw_b64 = decodeBase64, fw_origin = ''https://shop'',
      fw_select_now = 5000, fw_sign_now = 5000, fw_random = [],
      fw_clk = \<lparr>pre_expiry = 0, pre_period = 0, lk_expiry = 0, lk_period = 0, lk_account = 0, lk_used = 0\<rparr>,
      fw_filter = none, fw_views = \<lparr>kv_mismatch = none, kv_info = none, kv_checked = none, kv_signed = none, kv_now = 0\<rparr>\<rparr>)"

definition demo_response :: "int \<Rightarrow> string option \<Rightarrow> fetch_response" where
  "demo_response code auth = \<lparr>fr_status = code, fr_redirected = False, fr_origin = Some ''https://shop'',
     fr_authenticate = auth, fr_receipt = None, fr_problemJson = False, fr_body = None\<rparr>"

theorem fetch_pays_once_witness:
  "\<exists>header res h v keys. createChallenge demo_rt mac_crypto demo_evm_input = Inr header \<and>
     mppFetch demo_fetch demo_fetch_world (Inr (demo_response 402 (Some header))) (\<lambda>h v. Inr (demo_response 200 None)) =
       (Inr res, [(h, v)], keys) \<and> fe_paid res \<noteq> None \<and> fe_response res = demo_response 200 None"
proof (rule demo_evm_exchange)
  fix header p cc
  assume x: "createChallenge demo_rt mac_crypto demo_evm_input = Inr header"
    "parsePaymentChallenges demo_rt (Some header) = Some (Inr ([demo_wire p], []))"
    "selectCharge demo_rt [demo_wire p] demo_selects [] = Inr (SelectedEvm (demo_wire p) demo_evm_request demo_domain)"
    "createChargeCredential demo_rt mac_crypto (demo_wire p) demo_evm_request demo_domain demo_signer 5000 = Inr cc"
  let ?sel = "SelectedEvm (demo_wire p) demo_evm_request demo_domain" and ?none = "\<lparr>raw = NoRaw, accepts = True\<rparr> :: sol_key adapter"
  have w: "fw_rt demo_fetch_world = demo_rt" "s_crypto (fw_env demo_fetch_world) = mac_crypto" "fw_origin demo_fetch_world = ''https://shop''"
    "fw_sign_now demo_fetch_world = 5000" "kv_signed (fw_views demo_fetch_world) = ?none"
    "fetch_selects demo_fetch demo_fetch_world = demo_selects"
    by (simp_all add: demo_fetch_world_def fetch_selects_def demo_fetch_def demo_selects_def Let_def)
  have s: "selected_of demo_fetch demo_fetch_world (demo_response 402 (Some header)) = Inr ?sel"
    using x(2,3) by (simp add: selected_of_def w demo_response_def payable_def) (simp add: demo_fetch_def)
  have c: "charge_credential_of demo_fetch demo_fetch_world ?sel = (Inr cc, ?none)"
    using x(4) by (simp add: charge_credential_of_def demo_fetch_def w)
  obtain res where m: "mppFetch demo_fetch demo_fetch_world (Inr (demo_response 402 (Some header))) (\<lambda>h v. Inr (demo_response 200 None)) =
       (Inr res, [(cc_header cc, cc_value cc)], ?none)"
    using s c by (auto simp: mppFetch_def paid_answer_def demo_response_def)
  from fetch_pays_once [OF m] have "fe_paid res \<noteq> None" "fe_response res = demo_response 200 None" by auto
  with x(1) m show ?thesis by blast
qed

section \<open>Its settlement\<close>

theorem settlements_happen_once_witness:
  "\<exists>v st. accepted_under demo_rt mac_crypto toy_sol demo_hmac_secret ''shop'' v \<and>
     (settle_step memory_consume (accepted_under demo_rt mac_crypto toy_sol demo_hmac_secret ''shop''))\<^sup>*\<^sup>*
       \<lparr>ss_now = 6000, ss_store = [], ss_open = [], ss_sent = []\<rparr> st \<and>
     ss_sent st = [(6000, v)] \<and> distinct (map (\<lambda>(x, v). cp_id (vc_challenge v)) (ss_sent st))"
proof -
  obtain hv v e where v: "verifyCredential demo_rt mac_crypto toy_sol demo_verify (Some hv) = Inr v"
    "vc_payment v = EvmPayment demo_evm_request e" using demo_evm_verified by blast
  let ?ok = "accepted_under demo_rt mac_crypto toy_sol demo_hmac_secret ''shop''"
  have ok: "?ok v" unfolding accepted_under_def using v(1) by (intro exI [of _ demo_verify] exI [of _ "Some hv"]) (simp add: demo_verify_def)
  obtain cd x where "bound_challenge demo_rt mac_crypto demo_verify (cd_challenge cd) x"
    "verify_payment demo_rt mac_crypto toy_sol demo_verify cd x (props_of (decodeBase64UrlJson demo_rt (cp_request (cd_challenge cd)))) = Inr v"
    using accepted_credential [OF v(1)] by blast
  then have later: "6000 < vc_expiresAt v"
    using verify_payment_fields by (fastforce simp: bound_challenge_def demo_verify_def)
  let ?s0 = "\<lparr>ss_now = 6000, ss_store = [], ss_open = [], ss_sent = []\<rparr> :: memory_store settle_state"
  let ?k = "challengeKey (vc_challenge v)"
  let ?s1 = "?s0\<lparr>ss_store := [(?k, vc_expiresAt v)], ss_open := [v]\<rparr>"
  let ?s2 = "?s1\<lparr>ss_store := [(?k, vc_expiresAt v), (payment_key (vc_payment v), payment_until v)], ss_open := [], ss_sent := [(6000, v)]\<rparr>"
  have b1: "settle_begin memory_consume (ss_now ?s0) v (ss_store ?s0) = (Inr (), [(?k, vc_expiresAt v)])"
    using later by (simp add: settle_begin_def consume_key_def memory_consume_def purge_def)
  have one: "settle_step memory_consume ?ok ?s0 ?s1" using settle_step.begun [of ?ok, OF ok b1] by simp
  have ne: "payment_key (vc_payment v) \<noteq> ?k" by (simp add: v(2) payment_key_def challengeKey_def)
  have b2: "settle_proof memory_consume (ss_now ?s1) v (ss_store ?s1) =
      (Inr (), [(?k, vc_expiresAt v), (payment_key (vc_payment v), payment_until v)])"
    using later ne by (simp add: settle_proof_def consume_key_def memory_consume_def purge_def Let_def)
  have "ss_open ?s1 = [] @ v # []" by simp
  from settle_step.sent [of ?s1 "[]" v "[]" memory_consume "()" _ ?ok, OF this b2]
  have two: "settle_step memory_consume ?ok ?s1 ?s2" by simp
  have run: "(settle_step memory_consume ?ok)\<^sup>*\<^sup>* ?s0 ?s2" by (rule converse_rtranclp_into_rtranclp, rule one, rule r_into_rtranclp, rule two)
  have b: "bar_free ''shop''" by code_simp
  from settlements_happen_once [OF run b mac_crypto_laws(3)] run ok show ?thesis
    by (intro exI [of _ v] exI [of _ ?s2]) simp
qed


section \<open>The settlement on chain\<close>

definition demo_hash :: string where
  "demo_hash = ''0x'' @ replicate 64 CHR ''a''"

definition demo_node :: "evm_submission \<Rightarrow> settlement_rpc" where
  "demo_node s m ps = Inr
     (if m = ''eth_chainId'' then JStr ''0x1''
      else if m = ''eth_blockNumber'' then JStr ''0x11''
      else JObj [(''status'', JStr ''0x1''), (''blockNumber'', JStr ''0x10''),
        (''logs'', JArr [transfer_log s, authorization_log s])])"

lemma demo_node_mined: "es_chainId s = 1 \<Longrightarrow> submission_mined (demo_node s) s demo_hash 16"
proof -
  have h: "hexBigInt (JStr ''0x1'') = Some 1" "hexBigInt (JStr ''0x10'') = Some 16" "hexBigInt (JStr ''0x11'') = Some 17"
    by code_simp+
  assume "es_chainId s = 1"
  then show ?thesis using h by (simp add: submission_mined_def demo_node_def)
qed

theorem settled_charge_verifies_witness:
  "\<exists>p cc v e. createChargeCredential demo_rt mac_crypto (demo_wire p) demo_evm_request demo_domain demo_signer 5000 = Inr cc \<and>
     verifyCredential demo_rt mac_crypto toy_sol demo_verify (Some (cc_value cc)) = Inr v \<and>
     vc_payment v = EvmPayment demo_evm_request e \<and>
     verifyMppSettlement toy_sol (\<lambda>t. Inl []) (Some (ChargeSettlement (cc_binding cc))) (Some demo_hash) (demo_node (evm_submission_of e)) =
       Settled (Some 16)"
proof (rule demo_evm_exchange)
  fix header p cc
  assume x: "createChallenge demo_rt mac_crypto demo_evm_input = Inr header"
    "parsePaymentChallenges demo_rt (Some header) = Some (Inr ([demo_wire p], []))"
    "selectCharge demo_rt [demo_wire p] demo_selects [] = Inr (SelectedEvm (demo_wire p) demo_evm_request demo_domain)"
    "createChargeCredential demo_rt mac_crypto (demo_wire p) demo_evm_request demo_domain demo_signer 5000 = Inr cc"
    "length (cc_value cc) \<le> max_credential_length"
  obtain v e where v: "verifyCredential demo_rt mac_crypto toy_sol demo_verify (Some (cc_value cc)) = Inr v"
    "vc_payment v = EvmPayment demo_evm_request e" "vc_challenge v = wc_params (demo_wire p)" "vc_payer v = ts_address demo_signer"
    using evm_exchange_accepted [OF x(1) demo_input_facts(1) demo_request_data demo_input_facts(4) mac_crypto_laws(2)
      mac_crypto_laws(1) demo_input_facts(5) x(2,3) demo_evm_facts(2,3) demo_signs x(4,5) demo_evm_facts(4) [of p] demo_evm_facts(5,6) refl refl
      demo_evm_facts(7,8), where env = toy_sol] by auto
  have r: "readEvmRequest (wc_request (demo_wire p)) = Inr demo_evm_request" by code_simp
  have "hex_literal 64 demo_hash" "lower demo_hash = demo_hash" by code_simp+
  then have h: "settleEvmAuthorization e (Some (\<lambda>s. Inr (JStr demo_hash))) = Inr demo_hash"
    by (simp add: settleEvmAuthorization_def)
  have "es_chainId (evm_submission_of e) = 1" using submission_of_accepted [OF v(1,2)] by (simp add: demo_evm_request_def)
  from settled_charge_verifies [OF x(4) r demo_evm_facts(2) v h demo_node_mined [OF this]] x(4) v(1,2) show ?thesis by blast
qed

end
