(* ===== verification/MppSolanaExchange.thy ===== *)
theory MppSolanaExchange
  imports MppExchange
begin

text \<open>
  A Solana charge end to end: a transaction the client's wallet signs in its own slot is accepted by the
  server that asked for it.
\<close>

section \<open>The signed transaction\<close>

lemma wallet_signed_payment:
  assumes laws: "base58_laws env" "ed_laws env"
    and b: "buildSplTransferTransaction env p = Inr wire" and own: "authority p = s58_encode env (ed_public env secret)"
  obtains tx tx' limit price source destination slot signed where
    "parseSolanaTransaction env wire = Inr tx" "index_of (t_keys tx) (authority p) = Some slot"
    "slot = length (payment_signers p) - 1"
    "signed = set_at (1 + 64 * slot) (ed_sign env (t_message tx) secret) wire"
    "parseSolanaTransaction env signed = Inr tx'"
    "t_signatures tx' = replicate slot (replicate 64 0) @ [ed_sign env (t_message tx) secret]"
    "t_required tx' = length (payment_signers p)" "t_keys tx' = payment_keys p source destination" "distinct (t_keys tx')"
    "t_instructions tx' = [limit_instruction limit, price_instruction price, transfer_instruction p source destination] @
       (case memo p of None \<Rightarrow> [] | Some m \<Rightarrow> [memo_instruction m])"
    "checkPayment env p = Inr (limit, price)"
    "associatedTokenAddress env (recipient p) (mint p) (tokenProgram p) = Inr destination"
    "isWritable tx' source" "isWritable tx' destination" "verifySolanaSignature env tx' (authority p)"
proof -
  obtain ixs where ixs: "paymentInstructions env p = Inr ixs" using b by (auto simp: buildSplTransferTransaction_def)
  obtain limit price source destination where c: "checkPayment env p = Inr (limit, price)"
    and ata: "associatedTokenAddress env (recipient p) (mint p) (tokenProgram p) = Inr destination"
    and i: "ixs = [limit_instruction limit, price_instruction price, transfer_instruction p source destination] @
       (case memo p of None \<Rightarrow> [] | Some m \<Rightarrow> [memo_instruction m])"
    using ixs by (rule paymentInstructions_Inr)
  have acc: "pi_accounts (ixs ! 2) = [source, mint p, destination, authority p]" by (simp add: i transfer_instruction_def)
  let ?n = "length (payment_signers p)" and ?slot = "length (payment_signers p) - 1"
  obtain msg tx where w: "wire = shortVec ?n @ replicate (64 * ?n) 0 @ msg"
    and tx: "parseSolanaTransaction env (shortVec ?n @ concat (replicate ?n (replicate 64 0)) @ msg) = Inr tx"
      "t_message tx = msg" "t_keys tx = payment_keys p source destination"
    using payment_reads_back [OF laws(1) b ixs, of "replicate ?n (replicate 64 0)"] by (auto simp: acc)
  have z: "concat (replicate ?n (replicate 64 (0 :: byte))) = replicate (64 * ?n) 0"
    by (simp add: payment_signers_def flip: replicate_add)
  have slot: "index_of (payment_keys p source destination) (authority p) = Some ?slot"
    by (simp add: payment_keys_def payment_signers_def)
  let ?sig = "ed_sign env msg secret"
  let ?sigs = "replicate ?slot (replicate 64 0) @ [?sig]"
  have l: "length ?sig = 64" using laws(2) by (simp add: ed_laws_def)
  have w': "set_at (1 + 64 * ?slot) ?sig wire = shortVec ?n @ concat ?sigs @ msg"
    using l by (simp add: w set_at_def payment_signers_def shortVec_cases)
  obtain msg' tx' where t': "wire = shortVec ?n @ replicate (64 * ?n) 0 @ msg'"
    "parseSolanaTransaction env (shortVec ?n @ concat ?sigs @ msg') = Inr tx'"
    "t_signatures tx' = ?sigs" "t_message tx' = msg'" "t_required tx' = ?n"
    "t_keys tx' = payment_keys p source destination" "t_instructions tx' = ixs" "distinct (t_keys tx')"
    "t_readonlySigned tx' = (if feePayer p = authority p then 0 else 1)"
    "t_readonlyUnsigned tx' = length (payment_readonly p)"
    using payment_reads_back [OF laws(1) b ixs, of ?sigs] l by (auto simp: acc payment_signers_def)
  have m: "msg' = msg" using t'(1) w by simp
  have perms: "isWritable tx' source" "isWritable tx' destination"
    using group_permissions [of "[feePayer p]" "if feePayer p = authority p then [] else [authority p]"
        "[source, destination]" "payment_readonly p" tx'] t'(5,6,8,9,10)
    by (auto simp: payment_keys_def payment_signers_def split: if_splits)
  have sgn: "verifySolanaSignature env tx' (authority p)"
  proof -
    obtain k where "key_bytes env (authority p) ''authority'' = Inr k" using checkPayment_Inr [OF c] by blast
    then have "key_bytes env (authority p) ''signer'' = Inr (ed_public env secret)"
      using laws(1) own by (auto simp: key_bytes_Inr base58_laws_def)
    then show ?thesis
      using slot t'(3,4,5,6) m laws(2)
      by (simp add: verifySolanaSignature_def ed_laws_def nth_append payment_signers_def)
  qed
  show thesis
    by (rule that [of tx ?slot "set_at (1 + 64 * ?slot) ?sig wire" tx' source destination limit price])
      (use tx w z slot w' t' m ixs i c ata perms sgn in simp_all)
qed

section \<open>The server's checks\<close>

lemma values_of_Some: "values_of s = Some vs \<Longrightarrow> \<forall>c \<in> set s. b64_value c \<noteq> None"
  by (induction s arbitrary: vs) (auto split: option.splits)

lemma base64_of_btoa: "decodeBase64 (btoa bs) = Some bs"
proof -
  have "\<not> ascii_space CHR ''=''" by code_simp
  then have "filter (\<lambda>c. \<not> ascii_space c) (btoa bs) = btoa bs"
    by (auto simp: btoa_def filter_id_conv b64_char_facts dest!: sextets_bound)
  then have "\<exists>vs. values_of (unpad (btoa bs)) = Some vs"
    using atob_btoa [of bs] by (auto simp: atob_def Let_def split: if_splits)
  then have "\<forall>c \<in> set (unpad (btoa bs)). b64_value c \<noteq> None" using values_of_Some by blast
  moreover have "length (btoa bs) mod 4 = 0" using padding_fills(1) [of bs] by (simp add: btoa_def)
  ultimately show ?thesis using atob_btoa by (simp add: decodeBase64_def base64_re_def)
qed

lemma isWritable_account: "isWritable tx a \<Longrightarrow> account_writable tx a"
  by (auto simp: isWritable_def account_writable_def Let_def split: option.splits if_splits)

lemma wallet_instructions_checked:
  assumes p: "p = wallet_payment r payer prog (so_decimals r) m blockhash" and r: "solana_request_ok r" "so_tokenProgram r = Some prog"
    and keys: "distinct (payment_keys p source destination)"
    and c: "checkPayment env p = Inr (limit, price)"
    and wr: "isWritable tx source" "isWritable tx destination"
    and sponsor: "so_feePayerKey r \<noteq> Some payer"
    and memo: "ascii m" "so_externalId r \<noteq> None \<longrightarrow> so_externalId r = Some m"
  shows "check_instructions rt r tx payer destination
      ([limit_instruction limit, price_instruction price, transfer_instruction p source destination] @ [memo_instruction m])
      \<lparr>ty_limit = None, ty_price = None, ty_transfers = 0, ty_memos = 0, ty_others = 0\<rparr> =
    Inr \<lparr>ty_limit = Some 40000, ty_price = Some 1, ty_transfers = 1, ty_memos = 1, ty_others = 2\<rparr>"
proof -
  have lp: "limit = 40000" "price = 1"
    using c by (auto simp: checkPayment_def Let_def p wallet_payment_def default_unit_limit_def default_unit_price_def split: option.splits)
  have prog: "is_token_program prog" using r by (simp add: solana_request_ok_def)
  note diff = programs_differ(1) [OF prog]
  have other: "compute_budget_program \<noteq> memo_program" using diff by (simp add: compute_budget_program_def memo_program_def)
  obtain n where n: "dec_value (so_amount r) = int n" using dec_value_canonical r by (metis solana_request_ok_def)
  have amt: "n < 256 ^ 8" using r n by (simp add: solana_request_ok_def u64_max_def)
  have am: "readU64 (12 # le_u64 (dec_value (so_amount r)) @ [w]) (Suc 0) = dec_value (so_amount r)" for w
    using le_value_le_bytes [OF amt] by (simp add: readU64_def le_u64_def n)
  have dec: "uint (word_of_int (so_decimals r) :: byte) = so_decimals r"
    using r by (simp add: solana_request_ok_def unsigned_of_int take_bit_eq_mod)
  have u32: "readU32 (2 # le_u32 40000) (Suc 0) = 40000" "readU64 (3 # le_u64 1) (Suc 0) = 1"
    using le_value_le_bytes [of 40000 4] le_value_le_bytes [of 1 8] by (simp_all add: readU32_def readU64_def le_u32_def le_u64_def)
  have sp: "\<not> (case so_feePayerKey r of None \<Rightarrow> False | Some s \<Rightarrow> s \<in> {source, so_currency r, destination, payer})"
    using keys sponsor by (auto simp: payment_keys_def payment_signers_def payment_readonly_def p wallet_payment_def split: option.splits)
  have l: "check_instruction rt r tx payer destination (limit_instruction limit)
      \<lparr>ty_limit = None, ty_price = None, ty_transfers = 0, ty_memos = 0, ty_others = 0\<rparr> =
      Inr \<lparr>ty_limit = Some 40000, ty_price = None, ty_transfers = 0, ty_memos = 0, ty_others = 0\<rparr>"
    using u32(1) by (simp add: check_instruction_def limit_instruction_def lp budget_instruction_def byte_at_def le_u32_def split: option.splits)
  have pr: "check_instruction rt r tx payer destination (price_instruction price)
      \<lparr>ty_limit = Some 40000, ty_price = None, ty_transfers = 0, ty_memos = 0, ty_others = 0\<rparr> =
      Inr \<lparr>ty_limit = Some 40000, ty_price = Some 1, ty_transfers = 0, ty_memos = 0, ty_others = 0\<rparr>"
    using u32(2) by (simp add: check_instruction_def price_instruction_def lp budget_instruction_def byte_at_def le_u64_def split: option.splits)
  have tr: "transfer_refusal r tx payer destination (transfer_instruction p source destination) 1 = None"
    using keys wr [THEN isWritable_account] am dec
    by (simp add: transfer_refusal_def transfer_instruction_def Let_def byte_at_def p wallet_payment_def le_u64_def nth_append
        payment_keys_def payment_signers_def) 
  have acc: "pi_program (transfer_instruction p source destination) = prog"
    "pi_accounts (transfer_instruction p source destination) = [source, so_currency r, destination, payer]"
    by (simp_all add: transfer_instruction_def p wallet_payment_def)
  have t: "check_instruction rt r tx payer destination (transfer_instruction p source destination)
      \<lparr>ty_limit = Some 40000, ty_price = Some 1, ty_transfers = 0, ty_memos = 0, ty_others = 0\<rparr> =
      Inr \<lparr>ty_limit = Some 40000, ty_price = Some 1, ty_transfers = 1, ty_memos = 0, ty_others = 1\<rparr>"
    using sp tr diff by (cases "so_feePayerKey r") (simp_all add: check_instruction_def acc r(2) Let_def throw_opt_def)
  have mr: "memo_refusal rt r (memo_instruction m) 1 = None"
    using memo decode_utf8 [OF memo(1), of rt] by (auto simp: memo_refusal_def memo_instruction_def)
  have me: "check_instruction rt r tx payer destination (memo_instruction m)
      \<lparr>ty_limit = Some 40000, ty_price = Some 1, ty_transfers = 1, ty_memos = 0, ty_others = 1\<rparr> =
      Inr \<lparr>ty_limit = Some 40000, ty_price = Some 1, ty_transfers = 1, ty_memos = 1, ty_others = 2\<rparr>"
  proof -
    have "pi_program (memo_instruction m) = memo_program" "pi_accounts (memo_instruction m) = []"
      by (simp_all add: memo_instruction_def)
    then show ?thesis using other mr by (simp add: check_instruction_def Let_def throw_opt_def split: option.splits)
  qed
  show ?thesis by (simp only: append_Cons append_Nil check_instructions.simps l pr t me andThen_simps)
qed

text \<open>The law of the wallet: it writes its signature into its own slot and changes nothing else.\<close>

definition wallet_signs :: "sol_env \<Rightarrow> sol_wallet \<Rightarrow> bytes \<Rightarrow> bool" where
  "wallet_signs env w secret \<longleftrightarrow> sw_address w = s58_encode env (ed_public env secret) \<and>
     (\<forall>wire tx slot. parseSolanaTransaction env wire = Inr tx \<longrightarrow> index_of (t_keys tx) (sw_address w) = Some slot \<longrightarrow>
        sw_sign w wire = Inr (set_at (1 + 64 * slot) (ed_sign env (t_message tx) secret) wire))"

lemma wallet_transaction_accepted:
  assumes laws: "base58_laws env" "ed_laws env" and w: "wallet_signs env w secret"
    and p: "p = wallet_payment r (sw_address w) prog (so_decimals r) m blockhash"
    and r: "solana_request_ok r" "so_tokenProgram r = Some prog"
    and b: "buildSplTransferTransaction env p = Inr wire" and s: "sw_sign w wire = Inr swire"
    and sponsor: "so_feePayerKey r \<noteq> Some (sw_address w)"
    and memo: "ascii m" "so_externalId r \<noteq> None \<longrightarrow> so_externalId r = Some m"
    and src: "src = Some (''did:pkh:'' @ so_network r @ '':'' @ sw_address w)"
    and fee: "1 \<le> or_else maxFee 10000"
  shows "\<exists>e. verifySolanaTransaction rt env r
      [(''type'', JStr ''transaction''), (''transaction'', JStr (btoa swire))] src maxFee = Inr e \<and>
    vs_payer e = sw_address w \<and> vs_transaction e = swire"
proof -
  have own: "authority p = s58_encode env (ed_public env secret)" "authority p = sw_address w"
    using w by (simp_all add: p wallet_payment_def wallet_signs_def)
  obtain tx tx' limit price source destination slot swire' where t:
    "parseSolanaTransaction env wire = Inr tx" "index_of (t_keys tx) (authority p) = Some slot"
    "slot = length (payment_signers p) - 1"
    "swire' = set_at (1 + 64 * slot) (ed_sign env (t_message tx) secret) wire"
    "parseSolanaTransaction env swire' = Inr tx'"
    "t_signatures tx' = replicate slot (replicate 64 0) @ [ed_sign env (t_message tx) secret]"
    "t_required tx' = length (payment_signers p)" "t_keys tx' = payment_keys p source destination" "distinct (t_keys tx')"
    "t_instructions tx' = [limit_instruction limit, price_instruction price, transfer_instruction p source destination] @
       (case memo p of None \<Rightarrow> [] | Some m \<Rightarrow> [memo_instruction m])"
    "checkPayment env p = Inr (limit, price)"
    "associatedTokenAddress env (recipient p) (mint p) (tokenProgram p) = Inr destination"
    "isWritable tx' source" "isWritable tx' destination" "verifySolanaSignature env tx' (authority p)"
    using wallet_signed_payment [OF laws b own(1)] by metis
  have sd: "swire' = swire" using w s t(1,2,4) own(2) by (auto simp: wallet_signs_def)
  have fp: "feePayer p = or_else (so_feePayerKey r) (sw_address w)" "memo p = Some m" by (simp_all add: p wallet_payment_def)
  have pay: "payment_signers p = (case so_feePayerKey r of None \<Rightarrow> [sw_address w] | Some k \<Rightarrow> [k, sw_address w])"
    using sponsor by (auto simp: payment_signers_def fp own(2) split: option.splits)
  have payer: "t_keys tx' ! payer_index r = sw_address w"
    by (simp add: t(8) payment_keys_def pay payer_index_def split: option.splits)
  have signers: "signers_refusal r tx' = None"
    using t(9) by (auto simp: signers_refusal_def t(7,8) payment_keys_def pay split: option.splits)
  have ata: "associatedTokenAddress env (so_recipient r) (so_currency r) (or_nil (so_tokenProgram r)) = Inr destination"
    using t(12) by (simp add: p wallet_payment_def r(2))
  let ?t = "\<lparr>ty_limit = Some 40000, ty_price = Some 1, ty_transfers = 1, ty_memos = 1, ty_others = 2\<rparr>"
  have checked: "check_instructions rt r tx' (sw_address w) destination (t_instructions tx')
      \<lparr>ty_limit = None, ty_price = None, ty_transfers = 0, ty_memos = 0, ty_others = 0\<rparr> = Inr ?t"
    using wallet_instructions_checked [OF p r t(9) [unfolded t(8)] t(11,13,14) sponsor memo]
    by (simp only: t(10) fp(2) option.case)
  have sponsored: "so_feePayerKey r \<noteq> None \<Longrightarrow> sponsor_refusal maxFee tx' ?t = None"
    using fee t(3) by (auto simp: sponsor_refusal_def priority_fee_def t(6) pay)
  have sig: "signature_refusal env r tx' (sw_address w) src = None"
    using t(15) own(2) by (simp add: signature_refusal_def src)
  have pl: "sol_payload rt [(''type'', JStr ''transaction''), (''transaction'', JStr (btoa swire))] = Inr swire"
    by (simp add: sol_payload_def base64_of_btoa)
  show ?thesis
    using pl t(5) sd signers payer ata checked sponsored sig
    by (cases "so_feePayerKey r") (simp_all add: verifySolanaTransaction_def parse_payload_def Let_def crash_def throw_opt_def)
qed

section \<open>The exchange\<close>

lemma paid_with_wallet:
  assumes "payWithWallet rt env b64 ch r w rpc random = Inr cc"
  shows "\<exists>prog blockhash wire swire. so_feePayerKey r \<noteq> Some (sw_address w) \<and>
    (so_tokenProgram r \<noteq> None \<longrightarrow> or_nil (so_tokenProgram r) \<noteq> [] \<longrightarrow> so_tokenProgram r = Some prog) \<and>
    buildSplTransferTransaction env
      (wallet_payment r (sw_address w) prog (so_decimals r) (or_else (so_externalId r) (randomMemo random)) blockhash) = Inr wire \<and>
    sw_sign w wire = Inr swire \<and>
    encodeCredential rt (solana_credential ch r (s64_encode env swire) (sw_address w)) = Inr (cc_header cc, cc_value cc)"
proof -
  have f: "so_feePayerKey r \<noteq> Some (sw_address w)" using assms by (auto simp: payWithWallet_def split: if_splits)
  obtain owner data where a: "getAccountInfo rpc (so_currency r) = Inr (Some (owner, data))"
    using assms f by (auto simp: payWithWallet_def split: option.splits)
  obtain prog dec where m: "readMint owner data = Inr (prog, dec)" "mint_refusal r prog dec = None"
    using assms f a by (auto simp: payWithWallet_def)
  obtain blockhash where bh: "getLatestBlockhash rpc = Inr blockhash" using assms f a m by (auto simp: payWithWallet_def)
  have d: "int dec = so_decimals r" using m(2) by (simp add: mint_refusal_def)
  let ?p = "wallet_payment r (sw_address w) prog (so_decimals r) (or_else (so_externalId r) (randomMemo random)) blockhash"
  obtain wire where b: "buildSplTransferTransaction env ?p = Inr wire" using assms f a m bh d by (auto simp: payWithWallet_def Let_def)
  obtain swire where s: "sw_sign w wire = Inr swire" using assms f a m bh d b by (auto simp: payWithWallet_def Let_def)
  obtain t where v: "verifySignedSplTransfer env swire ?p False = Inr t"
    using assms f a m bh d b s by (auto simp: payWithWallet_def Let_def)
  have t: "t = s64_encode env swire" using verified_transfer [OF v] by blast
  have "boundCredential rt env b64 ch r t (sw_address w) (sw_address w) = Inr cc"
    using assms f a m bh d b s v by (auto simp: payWithWallet_def Let_def)
  then have e: "encodeCredential rt (solana_credential ch r (s64_encode env swire) (sw_address w)) = Inr (cc_header cc, cc_value cc)"
    unfolding t by (auto simp: boundCredential_def)
  have "so_tokenProgram r \<noteq> None \<longrightarrow> or_nil (so_tokenProgram r) \<noteq> [] \<longrightarrow> so_tokenProgram r = Some prog"
    using m(2) by (auto simp: mint_refusal_def)
  then show ?thesis using f b s e by blast
qed

lemma btoa_ascii: "ascii (btoa bs)"
proof -
  have "ord c < 128" if c: "c \<in> set (btoa bs)" for c
  proof (cases "c = CHR ''=''")
    case False
    then obtain v where v: "v \<in> set (byte_sextets bs)" "c = b64_char v" using c by (auto simp: btoa_def split: if_splits)
    have "url_char (to_url c)" using b64_char_facts(6) [OF sextets_bound [OF v(1)]] v(2) by simp
    then show ?thesis by (auto simp: url_char_def to_url_def ord_def split: if_splits)
  qed (simp add: ord_def)
  then show ?thesis by (simp add: ascii_def)
qed

lemma same_request: "readSolanaRequest rt ns q = Inr r \<Longrightarrow> readServerSolanaRequest rt q = Inr r' \<Longrightarrow> r = r' \<and> or_nil (so_tokenProgram r) \<noteq> []"
  by (auto simp: readServerSolanaRequest_def readSolanaRequest_Inr Let_def split: if_splits)

lemma charge_of_solana:
  assumes "charge_of rt w sopts = Inr (SelectedSolana ch r)"
  shows "ch = w \<and> cp_method (wc_params w) = ''solana'' \<and> (\<exists>ns. readSolanaRequest rt ns (wc_request w) = Inr r)"
  using assms by (auto simp: charge_of_def evm_charge_of_def Let_def split: if_splits option.splits)

lemma solana_exchange_accepted:
  assumes header: "createChallenge rt c input = Inr header" and m: "ci_method input = ''solana''"
    and data: "json_data (ci_request input)" "\<And>v. ci_opaque input = Some v \<Longrightarrow> json_data v"
    and crypto: "\<And>k x. hmac_sha256 c k x \<noteq> []"
    and dates: "\<And>t. ci_expires input = Some (ExpiresDate (Some t)) \<Longrightarrow> parseRfc3339 rt (rt_iso rt t) = Some t"
    and laws: "base58_laws env" "ed_laws env" "s64_encode env = btoa"
    and read: "parsePaymentChallenges rt (Some header) = Some (Inr (cs, rejected))"
    and sel: "selectCharge rt cs sopts rejected = Inr (SelectedSolana ch r)"
    and wallet: "wallet_signs env w secret" "ascii (sw_address w)"
    and cc: "payWithWallet rt env b64 ch r w rpc random = Inr cc" "length (cc_value cc) \<le> max_credential_length"
    and server: "\<And>x. wc_expiresAt ch = Some x \<Longrightarrow> server_expects input opts x" "1 \<le> or_else (vo_maxFee opts) 10000"
  shows "cc_header cc = or_else (vo_field opts) ''Authorization'' \<and>
    readServerSolanaRequest rt (props_of (ci_request input)) = Inr r \<and>
    (\<exists>v e. verifyCredential rt c env opts (Some (cc_value cc)) = Inr v \<and> vc_payment v = SolanaPayment r e \<and>
       vc_challenge v = wc_params ch \<and> vc_payer v = sw_address w)"
proof -
  obtain p where p: "buildChallenge rt c input = Inr p" "formatChallenge p = Inr header"
    using header by (auto simp: createChallenge_def)
  note b = built_challenge [OF p(1)]
  obtain x where x: "Option.bind (cp_expires p) (parseRfc3339 rt) = Some x" using created_expiry [OF p(1) _ dates] m by blast
  let ?w = "\<lparr>wc_params = p, wc_request = props_of (sorted_value (ci_request input)), wc_expiresAt = Some x\<rparr>"
  have "parsePaymentChallenges rt (Some header) = Some (Inr ([?w], []))"
    using created_challenge_read [OF header data crypto dates] p(1) x by auto
  note ch = charge_of_solana [OF single_selection [OF this read sel]]
  then obtain ns where ns: "readSolanaRequest rt ns (props_of (ci_request input)) = Inr r"
    using readSolanaRequest_sorted [OF data(1)] by auto
  obtain r' where "readServerSolanaRequest rt (props_of (ci_request input)) = Inr r'"
    using b m by (auto simp: method_refusal_def Let_def split: sum.splits)
  then have sr: "readServerSolanaRequest rt (props_of (ci_request input)) = Inr r" "or_nil (so_tokenProgram r) \<noteq> []"
    using same_request [OF ns] by auto
  have w: "wc_params ch = p" "wc_expiresAt ch = Some x" using ch by simp_all
  have srv: "server_expects input opts x" using server(1) w(2) by blast
  note e = srv [unfolded server_expects_def]
  have ok: "solana_request_ok r" using readSolanaRequest_ok [OF ns] .
  let ?m = "or_else (so_externalId r) (randomMemo random)"
  obtain prog blockhash wire swire where pay: "so_feePayerKey r \<noteq> Some (sw_address w)"
    "so_tokenProgram r \<noteq> None \<longrightarrow> or_nil (so_tokenProgram r) \<noteq> [] \<longrightarrow> so_tokenProgram r = Some prog"
    "buildSplTransferTransaction env (wallet_payment r (sw_address w) prog (so_decimals r) ?m blockhash) = Inr wire"
    "sw_sign w wire = Inr swire"
    "encodeCredential rt (solana_credential ch r (s64_encode env swire) (sw_address w)) = Inr (cc_header cc, cc_value cc)"
    using paid_with_wallet [OF cc(1)] by blast
  have prog: "so_tokenProgram r = Some prog" using pay(2) sr(2) by (cases "so_tokenProgram r") auto
  have memo: "ascii ?m"
  proof (cases "so_externalId r")
    case None
    then show ?thesis using ascii_hex [of "bytesToHex (take 16 random)"] bytesToHex_hex by (auto simp: randomMemo_def)
  next
    case (Some s)
    then have f: "defined str_of (field ''externalId'' (props_of (ci_request input))) = Some s"
      using ns by (simp add: readSolanaRequest_Inr Let_def)
    then have "field ''externalId'' (props_of (ci_request input)) \<noteq> JUndefined" by (auto simp: defined_def)
    from json_data_field [OF data(1) this] f have "ascii s"
      by (cases "field ''externalId'' (props_of (ci_request input))") (auto simp: defined_def)
    then show ?thesis using Some by simp
  qed
  have ext: "so_externalId r \<noteq> None \<longrightarrow> so_externalId r = Some ?m" by (cases "so_externalId r") simp_all
  have net: "ascii (so_network r)"
  proof -
    have "ascii solana_mainnet" "ascii solana_devnet" by code_simp+
    then show ?thesis using ok by (auto simp: solana_request_ok_def)
  qed
  have "json_data (credential_value (solana_credential ch r (s64_encode env swire) (sw_address w)))"
    using formatted_data [OF p(2)] w net wallet(2) btoa_ascii [of swire]
    by (simp add: credential_value_def solana_credential_def opt_prop_def laws(3) ord_def)
  note readback = credential_reads_back [OF this pay(5) cc(2)]
  let ?src = "Some (''did:pkh:'' @ so_network r @ '':'' @ sw_address w)"
  let ?cd = "\<lparr>cd_challenge = p, cd_payload = [(''type'', JStr ''transaction''), (''transaction'', JStr (btoa swire))], cd_source = ?src\<rparr>"
  have cd: "readCredential rt (Some (cc_value cc)) = Inr ?cd" "cc_header cc = or_else (cp_header p) ''Authorization''"
    using readback by (simp_all add: solana_credential_def w laws(3))
  have v: "verify_credential rt c env opts (Some (cc_value cc)) =
      verify_payment rt c env opts ?cd x (props_of (sorted_value (ci_request input)))"
    using readback_accepted [OF p(1) x _ srv cd(1)] m by simp
  obtain ev where ev: "verifySolanaTransaction rt env r (cd_payload ?cd) ?src (vo_maxFee opts) = Inr ev" "vs_payer ev = sw_address w"
    using wallet_transaction_accepted [OF laws(1,2) wallet(1) refl ok prog pay(3,4,1) memo ext refl server(2)] by auto
  have "readServerSolanaRequest rt (props_of (sorted_value (ci_request input))) = Inr r"
    using sr(1) readSolanaRequest_sorted [OF data(1)] by (simp add: readServerSolanaRequest_def)
  then have "verify_payment rt c env opts ?cd x (props_of (sorted_value (ci_request input))) =
      Inr \<lparr>vc_challenge = p, vc_expiresAt = x, vc_source = ?src, vc_network = so_network r,
           vc_payer = sw_address w, vc_payment = SolanaPayment r ev\<rparr>"
    using ev b m by (simp add: verify_payment_def Let_def)
  then show ?thesis using v cd(2) b e w sr(1) by (simp add: verifyCredential_def)
qed

text \<open>
  C33: a Solana charge works end to end.  The server creates a challenge for a price; a client that parses
  the header, selects it and pays it with a wallet that only writes its own signature produces a
  credential, for the field the server expects, that the server accepts as a payment of exactly that
  request by that wallet, sponsored or not.  (The server offers the price and has a second left before
  the expiry; its limit admits the one lamport of the default priority fee; base64 is the standard
  encoding, and base58 and Ed25519 satisfy their documented laws.)
\<close>

theorem solana_charge_completes:
  assumes header: "createChallenge rt c input = Inr header" and m: "ci_method input = ''solana''"
    and data: "json_data (ci_request input)" "\<And>v. ci_opaque input = Some v \<Longrightarrow> json_data v"
    and crypto: "\<And>k x. hmac_sha256 c k x \<noteq> []"
    and dates: "\<And>t. ci_expires input = Some (ExpiresDate (Some t)) \<Longrightarrow> parseRfc3339 rt (rt_iso rt t) = Some t"
    and laws: "base58_laws env" "ed_laws env" "s64_encode env = btoa"
    and read: "parsePaymentChallenges rt (Some header) = Some (Inr (cs, rejected))"
    and sel: "selectCharge rt cs sopts rejected = Inr (SelectedSolana ch r)"
    and wallet: "wallet_signs env w secret" "ascii (sw_address w)"
    and cc: "payWithWallet rt env b64 ch r w rpc random = Inr cc" "length (cc_value cc) \<le> max_credential_length"
    and server: "\<And>x. wc_expiresAt ch = Some x \<Longrightarrow> server_expects input opts x" "1 \<le> or_else (vo_maxFee opts) 10000"
  shows "cc_header cc = or_else (vo_field opts) ''Authorization'' \<and>
    readServerSolanaRequest rt (props_of (ci_request input)) = Inr r \<and>
    (\<exists>v e. verifyCredential rt c env opts (Some (cc_value cc)) = Inr v \<and> vc_payment v = SolanaPayment r e \<and>
       vc_challenge v = wc_params ch \<and> vc_payer v = sw_address w)"
  by (rule solana_exchange_accepted [OF assms])

section \<open>When the wallet pays\<close>

text \<open>
  With an RPC of the right cluster and mint, and a payment that can be built, the credential exists.
\<close>

lemma wallet_credential_created:
  assumes laws: "base58_laws env" "ed_laws env" and w: "wallet_signs env w secret"
    and r: "so_feePayerKey r \<noteq> Some (sw_address w)" "so_tokenProgram r = Some prog"
    and rpc: "assertSolanaCluster rpc (so_network r) = Inr ()" "getAccountInfo rpc (so_currency r) = Inr (Some (owner, data))"
      "readMint owner data = Inr (prog, dec)" "int dec = so_decimals r" "getLatestBlockhash rpc = Inr blockhash"
    and p: "p = wallet_payment r (sw_address w) prog (so_decimals r) (or_else (so_externalId r) (randomMemo random)) blockhash"
    and b: "buildSplTransferTransaction env p = Inr wire" and s: "sw_sign w wire = Inr swire"
    and cr: "encodeCredential rt (solana_credential ch r (s64_encode env swire) (sw_address w)) = Inr (h, v)"
    and b64: "b64 (s64_encode env swire) = Some swire"
  shows "\<exists>cc. payWithWallet rt env b64 ch r w rpc random = Inr cc \<and> cc_value cc = v"
proof -
  have own: "authority p = s58_encode env (ed_public env secret)" "authority p = sw_address w"
    using w by (simp_all add: p wallet_payment_def wallet_signs_def)
  obtain tx slot where t: "parseSolanaTransaction env wire = Inr tx" "index_of (t_keys tx) (authority p) = Some slot"
    "verifySignedSplTransfer env (set_at (1 + 64 * slot) (ed_sign env (t_message tx) secret) wire) p False =
      Inr (s64_encode env (set_at (1 + 64 * slot) (ed_sign env (t_message tx) secret) wire))"
    using sign_then_verify [OF laws b own(1), of False] by blast
  have sw: "swire = set_at (1 + 64 * slot) (ed_sign env (t_message tx) secret) wire"
    using w t(1,2) s own(2) by (auto simp: wallet_signs_def)
  have v: "verifySignedSplTransfer env swire p False = Inr (s64_encode env swire)" using t(3) sw by simp
  then obtain tx' where "parseSolanaTransaction env swire = Inr tx'" using verified_transfer by blast
  then have hash: "\<exists>x. hashSolanaTransactionMessage env b64 (s64_encode env swire) = Inr x"
    using b64 by (simp add: hashSolanaTransactionMessage_def)
  have m: "mint_refusal r prog dec = None" using r(2) rpc(4) by (simp add: mint_refusal_def)
  have p': "buildSplTransferTransaction env
      (wallet_payment r (sw_address w) prog (int dec) (or_else (so_externalId r) (randomMemo random)) blockhash) = Inr wire"
    "verifySignedSplTransfer env swire
      (wallet_payment r (sw_address w) prog (int dec) (or_else (so_externalId r) (randomMemo random)) blockhash) False = Inr (s64_encode env swire)"
    using b v p rpc(4) by simp_all
  show ?thesis
    using r(1) rpc m p' s hash cr
    by (auto simp: payWithWallet_def Let_def throw_opt_def boundCredential_def from_core_def type_error_def)
qed

end
