(* ===== verification/MppSolanaDemo.thy ===== *)
theory MppSolanaDemo
  imports MppSolanaExchange
begin

text \<open>
  A concrete sponsored Solana charge, evaluated: the instance at which the Solana properties of the
  server are applied.
\<close>

definition demo_sol :: sol_env where
  "demo_sol = toy_sol\<lparr>s64_encode := btoa\<rparr>"

lemma demo_sol_laws: "base58_laws demo_sol" "ed_laws demo_sol" "s64_encode demo_sol = btoa"
  using toy_sol_laws toy_ed_laws by (simp_all add: demo_sol_def base58_laws_def ed_laws_def)

definition demo_spl_price :: jsval where
  "demo_spl_price = JObj [(''amount'', JStr ''25''), (''currency'', JStr (sol_addr CHR ''m'')),
     (''recipient'', JStr (sol_addr CHR ''r'')),
     (''methodDetails'', JObj [(''network'', JStr ''devnet''), (''decimals'', JInt 6), (''tokenProgram'', JStr token_program),
        (''feePayer'', JBool True), (''feePayerKey'', JStr (sol_addr CHR ''f''))])]"

definition demo_spl_input :: challenge_input where
  "demo_spl_input = \<lparr>ci_realm = ''shop'', ci_method = ''solana'', ci_intent = ''charge'', ci_request = demo_spl_price,
     ci_expires = Some (ExpiresDate (Some 1000000)), ci_secret = demo_hmac_secret, ci_digest = None,
     ci_description = None, ci_header = None, ci_opaque = None\<rparr>"

definition demo_spl_request :: solana_request where
  "demo_spl_request = \<lparr>so_amount = ''25'', so_currency = sol_addr CHR ''m'', so_recipient = sol_addr CHR ''r'',
     so_network = solana_devnet, so_decimals = 6, so_tokenProgram = Some token_program,
     so_feePayerKey = Some (sol_addr CHR ''f''), so_recentBlockhash = None, so_externalId = None\<rparr>"

definition demo_sol_selects :: select_options where
  "demo_sol_selects = \<lparr>se_chainIds = None, se_tokenDomains = None, se_now = 5000, se_evm = False, se_solana = True,
     se_solanaNetworks = Some [''devnet'']\<rparr>"

definition demo_cluster_rpc :: sol_rpc where
  "demo_cluster_rpc = \<lparr>getGenesisHash = Inr (drop 7 solana_devnet @ ''GENESIS''), getLatestBlockhash = Inr (sol_addr CHR ''h''),
     getAccountInfo = (\<lambda>a. Inr (if a = sol_addr CHR ''m'' then Some (token_program, replicate 44 0 @ [6, 1] @ replicate 36 0) else None))\<rparr>"

definition demo_wallet_secret :: bytes where "demo_wallet_secret = utf8 (sol_addr CHR ''p'')"

text \<open>The wallet writes its signature into its slot of the wire.\<close>

definition demo_sol_wallet :: sol_wallet where
  "demo_sol_wallet = \<lparr>sw_address = sol_addr CHR ''p'', sw_sign = (\<lambda>wire.
     andThen (parseSolanaTransaction demo_sol wire) (\<lambda>tx.
     case index_of (t_keys tx) (sol_addr CHR ''p'') of
       None \<Rightarrow> Inl (fail ''No slot.'')
     | Some n \<Rightarrow> Inr (set_at (1 + 64 * n) (ed_sign demo_sol (t_message tx) demo_wallet_secret) wire)))\<rparr>"

lemma demo_sol_wallet_signs: "wallet_signs demo_sol demo_sol_wallet demo_wallet_secret"
proof -
  have "sw_address demo_sol_wallet = s58_encode demo_sol (ed_public demo_sol demo_wallet_secret)" by code_simp
  then show ?thesis by (auto simp: wallet_signs_def demo_sol_wallet_def)
qed

definition demo_spl_payment :: spl_payment where
  "demo_spl_payment = wallet_payment demo_spl_request (sol_addr CHR ''p'') token_program 6 (randomMemo (replicate 16 7)) (sol_addr CHR ''h'')"

definition demo_sol_wire :: "challenge_params \<Rightarrow> wire_challenge" where
  "demo_sol_wire p = \<lparr>wc_params = p, wc_request = props_of (sorted_value demo_spl_price), wc_expiresAt = Some 1000000\<rparr>"

lemma demo_spl_run:
  "(case buildChallenge demo_rt toy_crypto demo_spl_input of
      Inr p \<Rightarrow>
        (case formatChallenge p of Inr _ \<Rightarrow> True | Inl _ \<Rightarrow> False) \<and>
        (case cp_expires p of Some t \<Rightarrow> parseRfc3339 demo_rt t = Some 1000000 | None \<Rightarrow> False) \<and>
        selectCharge demo_rt [demo_sol_wire p] demo_sol_selects [] = Inr (SelectedSolana (demo_sol_wire p) demo_spl_request)
    | Inl _ \<Rightarrow> False)"
  by code_simp


definition demo_spl_signed :: "bytes option" where
  "demo_spl_signed =
     (case buildSplTransferTransaction demo_sol demo_spl_payment of
        Inl _ \<Rightarrow> None
      | Inr wire \<Rightarrow> (case sw_sign demo_sol_wallet wire of Inl _ \<Rightarrow> None | Inr w \<Rightarrow> Some w))"

lemma demo_spl_built: "demo_spl_signed \<noteq> None"
  by code_simp

lemma demo_spl_credential:
  "(case buildChallenge demo_rt toy_crypto demo_spl_input of
      Inl _ \<Rightarrow> False
    | Inr p \<Rightarrow> (case demo_spl_signed of
        None \<Rightarrow> False
      | Some w \<Rightarrow> (case json_stringify demo_rt (credential_value (solana_credential (demo_sol_wire p) demo_spl_request (btoa w) (sol_addr CHR ''p''))) of
           Inr (Some t) \<Rightarrow> length t \<le> 8000
         | _ \<Rightarrow> False)))"
  by code_simp


definition demo_spl_verify :: verify_options where
  "demo_spl_verify = \<lparr>vo_secret = demo_hmac_secret, vo_previous = [], vo_realm = ''shop'',
     vo_accept = [\<lparr>of_method = ''solana'', of_request = demo_spl_price\<rparr>], vo_field = None,
     vo_digest = None, vo_now = 6000, vo_used = None, vo_evm = None, vo_maxFee = None\<rparr>"

lemma demo_spl_facts:
  "ci_method demo_spl_input = ''solana''" "ci_request demo_spl_input = demo_spl_price"
  "json_data (ci_request demo_spl_input)" "ci_opaque demo_spl_input = Some v \<Longrightarrow> json_data v"
  "ci_expires demo_spl_input = Some (ExpiresDate (Some t)) \<Longrightarrow> parseRfc3339 demo_rt (rt_iso demo_rt t) = Some t"
  "sw_address demo_sol_wallet = sol_addr CHR ''p''" "ascii (sw_address demo_sol_wallet)"
  "wc_expiresAt (demo_sol_wire p) = Some y \<Longrightarrow> server_expects demo_spl_input demo_spl_verify y"
  "1 \<le> or_else (vo_maxFee demo_spl_verify) 10000"
proof -
  have "parseRfc3339 demo_rt (rt_iso demo_rt 1000000) = Some 1000000" by code_simp
  then show "ci_expires demo_spl_input = Some (ExpiresDate (Some t)) \<Longrightarrow> parseRfc3339 demo_rt (rt_iso demo_rt t) = Some t"
    by (auto simp: demo_spl_input_def)
  have d: "json_data demo_spl_price" by code_simp
  then show "json_data (ci_request demo_spl_input)" by (simp add: demo_spl_input_def)
  show a: "sw_address demo_sol_wallet = sol_addr CHR ''p''" by (simp add: demo_sol_wallet_def)
  show "ascii (sw_address demo_sol_wallet)" unfolding a by code_simp
  show "wc_expiresAt (demo_sol_wire p) = Some y \<Longrightarrow> server_expects demo_spl_input demo_spl_verify y"
    using d by (auto simp: server_expects_def demo_spl_input_def demo_spl_verify_def demo_sol_wire_def)
qed (simp_all add: demo_spl_input_def demo_spl_verify_def)

lemma demo_cluster_facts:
  "assertSolanaCluster demo_cluster_rpc (so_network demo_spl_request) = Inr ()"
  "getAccountInfo demo_cluster_rpc (so_currency demo_spl_request) = Inr (Some (token_program, replicate 44 0 @ [6, 1] @ replicate 36 0))"
  "readMint token_program (replicate 44 0 @ [6, 1] @ replicate 36 0) = Inr (token_program, 6)"
  "getLatestBlockhash demo_cluster_rpc = Inr (sol_addr CHR ''h'')"
  by (code_simp, simp add: demo_cluster_rpc_def demo_spl_request_def, code_simp, simp add: demo_cluster_rpc_def)

lemma demo_spl_exchange:
  obtains header p cc where "createChallenge demo_rt toy_crypto demo_spl_input = Inr header"
    "parsePaymentChallenges demo_rt (Some header) = Some (Inr ([demo_sol_wire p], []))"
    "selectCharge demo_rt [demo_sol_wire p] demo_sol_selects [] = Inr (SelectedSolana (demo_sol_wire p) demo_spl_request)"
    "payWithWallet demo_rt demo_sol decodeBase64 (demo_sol_wire p) demo_spl_request demo_sol_wallet demo_cluster_rpc (replicate 16 7) = Inr cc"
    "length (cc_value cc) \<le> max_credential_length"
proof -
  obtain p where p: "buildChallenge demo_rt toy_crypto demo_spl_input = Inr p"
    using demo_spl_run by (auto split: sum.splits)
  note run = demo_spl_run [unfolded p sum.case]
  obtain f where f: "formatChallenge p = Inr f" using run by (auto split: sum.splits)
  then have h: "createChallenge demo_rt toy_crypto demo_spl_input = Inr f" by (simp add: createChallenge_def p)
  have "parsePaymentChallenges demo_rt (Some f) =
      Some (Inr ([\<lparr>wc_params = p, wc_request = props_of (sorted_value demo_spl_price),
                   wc_expiresAt = Option.bind (cp_expires p) (parseRfc3339 demo_rt)\<rparr>], []))"
    using created_challenge_read [OF h demo_spl_facts(3,4) toy_mac demo_spl_facts(5)] demo_spl_facts(2) p by auto
  then have w: "parsePaymentChallenges demo_rt (Some f) = Some (Inr ([demo_sol_wire p], []))"
    using run by (auto simp: demo_sol_wire_def split: option.splits)
  obtain wire swire where b: "buildSplTransferTransaction demo_sol demo_spl_payment = Inr wire"
    "sw_sign demo_sol_wallet wire = Inr swire" "demo_spl_signed = Some swire"
    using demo_spl_built by (auto simp: demo_spl_signed_def split: sum.splits)
  note cred = demo_spl_credential [unfolded p b(3) sum.case option.case]
  obtain t where t: "json_stringify demo_rt (credential_value (solana_credential (demo_sol_wire p) demo_spl_request (btoa swire) (sol_addr CHR ''p''))) = Inr (Some t)"
    "length t \<le> 8000"
    using cred by (auto split: sum.splits option.splits)
  have "length (utf8 t) \<le> 8000" using t(2) by (simp add: utf8_def)
  then obtain hd v where e: "encodeCredential demo_rt (solana_credential (demo_sol_wire p) demo_spl_request (btoa swire) (sol_addr CHR ''p'')) = Inr (hd, v)"
    "length v \<le> max_credential_length"
    using credential_length [OF t(1)] by blast
  have q: "demo_spl_payment = wallet_payment demo_spl_request (sw_address demo_sol_wallet) token_program (so_decimals demo_spl_request)
      (or_else (so_externalId demo_spl_request) (randomMemo (replicate 16 7))) (sol_addr CHR ''h'')"
    by (simp add: demo_spl_payment_def demo_spl_facts demo_spl_request_def)
  have n: "so_feePayerKey demo_spl_request \<noteq> Some (sw_address demo_sol_wallet)" "so_tokenProgram demo_spl_request = Some token_program"
    "int 6 = so_decimals demo_spl_request"
    by (simp_all add: demo_spl_request_def demo_spl_facts sol_addr_def)
  have e': "encodeCredential demo_rt (solana_credential (demo_sol_wire p) demo_spl_request (s64_encode demo_sol swire) (sw_address demo_sol_wallet)) = Inr (hd, v)"
    using e(1) by (simp add: demo_sol_laws(3) demo_spl_facts)
  have d: "decodeBase64 (s64_encode demo_sol swire) = Some swire" by (simp add: demo_sol_laws(3) base64_of_btoa)
  obtain cc where cc: "payWithWallet demo_rt demo_sol decodeBase64 (demo_sol_wire p) demo_spl_request demo_sol_wallet demo_cluster_rpc (replicate 16 7) = Inr cc"
    "cc_value cc = v"
    using wallet_credential_created [where ?b64.0 = decodeBase64, OF demo_sol_laws(1,2) demo_sol_wallet_signs n(1,2) demo_cluster_facts(1-3) n(3) demo_cluster_facts(4) q b(1,2) e' d]
    by blast
  show thesis using that [OF h w _ cc(1)] run cc(2) e(2) by blast
qed


theorem solana_charge_completes_witness:
  "\<exists>header cs cc v e. createChallenge demo_rt toy_crypto demo_spl_input = Inr header \<and>
     parsePaymentChallenges demo_rt (Some header) = Some (Inr (cs, [])) \<and>
     payWithWallet demo_rt demo_sol decodeBase64 (hd cs) demo_spl_request demo_sol_wallet demo_cluster_rpc (replicate 16 7) = Inr cc \<and>
     verifyCredential demo_rt toy_crypto demo_sol demo_spl_verify (Some (cc_value cc)) = Inr v \<and>
     vc_payment v = SolanaPayment demo_spl_request e \<and> vc_payer v = sol_addr CHR ''p''"
proof (rule demo_spl_exchange)
  fix header p cc
  assume x: "createChallenge demo_rt toy_crypto demo_spl_input = Inr header"
    "parsePaymentChallenges demo_rt (Some header) = Some (Inr ([demo_sol_wire p], []))"
    "selectCharge demo_rt [demo_sol_wire p] demo_sol_selects [] = Inr (SelectedSolana (demo_sol_wire p) demo_spl_request)"
    "payWithWallet demo_rt demo_sol decodeBase64 (demo_sol_wire p) demo_spl_request demo_sol_wallet demo_cluster_rpc (replicate 16 7) = Inr cc"
    "length (cc_value cc) \<le> max_credential_length"
  from solana_charge_completes [where ?b64.0 = decodeBase64, OF x(1) demo_spl_facts(1,3,4) toy_mac demo_spl_facts(5) demo_sol_laws
      x(2,3) demo_sol_wallet_signs demo_spl_facts(7) x(4,5) demo_spl_facts(8) [of p] demo_spl_facts(9)]
  show ?thesis using x(1,2,4) demo_spl_facts(6)
    by (intro exI [of _ header] exI [of _ "[demo_sol_wire p]"] exI [of _ cc]) auto
qed

theorem solana_credential_pays_witness:
  "\<exists>hv v e tx. verifyCredential demo_rt toy_crypto demo_sol demo_spl_verify (Some hv) = Inr v \<and>
     vc_payment v = SolanaPayment demo_spl_request e \<and> parseSolanaTransaction demo_sol (vs_transaction e) = Inr tx \<and>
     t_required tx = 2 \<and> t_keys tx ! 0 = sol_addr CHR ''f'' \<and> t_keys tx ! 1 = vc_payer v"
proof (rule demo_spl_exchange)
  fix header p cc
  assume x: "createChallenge demo_rt toy_crypto demo_spl_input = Inr header"
    "parsePaymentChallenges demo_rt (Some header) = Some (Inr ([demo_sol_wire p], []))"
    "selectCharge demo_rt [demo_sol_wire p] demo_sol_selects [] = Inr (SelectedSolana (demo_sol_wire p) demo_spl_request)"
    "payWithWallet demo_rt demo_sol decodeBase64 (demo_sol_wire p) demo_spl_request demo_sol_wallet demo_cluster_rpc (replicate 16 7) = Inr cc"
    "length (cc_value cc) \<le> max_credential_length"
  from solana_exchange_accepted [where ?b64.0 = decodeBase64, OF x(1) demo_spl_facts(1,3,4) toy_mac demo_spl_facts(5) demo_sol_laws
      x(2,3) demo_sol_wallet_signs demo_spl_facts(7) x(4,5) demo_spl_facts(8) [of p] demo_spl_facts(9)]
  obtain v e where v: "verifyCredential demo_rt toy_crypto demo_sol demo_spl_verify (Some (cc_value cc)) = Inr v"
    "vc_payment v = SolanaPayment demo_spl_request e" by blast
  have k: "so_feePayerKey demo_spl_request = Some (sol_addr CHR ''f'')" by (simp add: demo_spl_request_def)
  from solana_credential_pays [OF v] v show ?thesis by (auto simp: k)
qed

end
