(* ===== verification/Spec2Isabelle.thy ===== *)
theory Spec2Isabelle
  imports SessionSafety AdapterLock Caip AuthzListing Findings SolanaSafety VoucherSafety MppSafety
    MppServerDemo MppSolanaDemo SettlementSafety
begin

text \<open>
  A verification library for connect-lib, the wallet connection and payment library under src/.
  It models the part of packages/core that decides what a delegated key may spend and what it
  signs: EVM session keys, their on-chain delegations, Solana session keys, payment channels and
  their voucher keys, the portable authorizations that all of these are compiled from; and the MPP
  payments of packages/payments-mpp, the session client that pays with voucher keys, the client that
  pays single charges, and the server that prices, verifies and settles them.

  \<^bold>\<open>How the parts interact.\<close>  An application validates a portable authorization
  (authorization/index.ts) and compiles it to the scope of an EVM key, of a Solana key, or to the
  policy of a voucher key.  A manager creates the key, seals the secret with the key encryption of
  session-keys/storage.ts and stores the record.  Every signing request is checked against the scope
  and the counters of the stored record, under a lock, and the counters are written before the
  signature is returned.  An EVM key in mode \<open>eip7702\<close> is also bound on chain by a delegation whose
  caveats are built from its scope (session-keys/delegation-framework.ts).  A server answers an unpaid
  request with a challenge bound to its price by HMAC (server/challenge.ts); the client parses the header
  (wire.ts), selects a challenge it can pay, signs it with a session key or a wallet (evm-charge.ts,
  solana-charge.ts, fetch.ts) and repeats the request with the credential; the server checks the
  credential against the challenge and the chain (server/verify.ts, evm.ts, solana.ts), records the
  challenge and the payment as used (server/replay.ts) and only then submits it.

  \<^bold>\<open>Theories and the code they model.\<close>

  \<^item> Prelude, JsStrings, JsNumbers, Bytes, JsValues, JsonText: the JavaScript the sources use (strings,
    \<open>BigInt\<close> and \<open>Number\<close> texts, hex codec of wallet-engine/src/signers/rlp.ts, dynamic values,
    \<open>JSON.stringify\<close>), with the round trips and injectivity facts everything else rests on.
  \<^item> Crypto: the primitives of the external curve and hash packages as one record of functions, with
    their documented laws as named predicates; Addresses: address-validation.ts; Caip: caip.ts and the
    chain readers of session-manager/types.ts.
  \<^item> SessionTypes, SessionScope, ScopeCheck: session-keys/types.ts and errors.ts, and in
    SessionKeyManager.ts \<open>resolveScope\<close>, \<open>validateScopeInput\<close>, \<open>decodeScopedTokenSpend\<close>,
    \<open>periodUsageFor\<close> and \<open>checkScopeAgainstTx\<close>, one definition per guard in the order of the code.
  \<^item> TypedData: session-keys/typed-data.ts; KeyVault: the encryption half of session-keys/storage.ts;
    SessionStore: its other half, over a backend that may fail; AdapterLock: the gate chain of
    \<open>withAdapterLock\<close> and \<open>withSessionLock\<close> as a step relation.
  \<^item> SessionManager, DelegationHandlers: every operation of the class \<open>SessionKeyManager\<close> on the state
    (store, cache, active bundle); AbiCodec, Delegation: delegation-framework.ts.
  \<^item> SessionRuns, Metering, SessionSafety, Scenario: requests as data, runs of requests, the counters
    along a run and the properties of every run; Scenario is a concrete manager for the witnesses.
  \<^item> SolanaWire, SolanaTx, SolanaPayment: solana-wire.ts and solana-payment.ts; SolanaCompile,
    SolanaDemo, SolanaChecks: their round trip and what an accepted wallet signature means;
    SolanaChannel: solana-channel.ts; KeyAdapter, SealedRecord: what session-keys/solana-session-keys.ts
    and channel-voucher-keys.ts share (load, find, replace, save; the binding of a sealed record);
    SolanaKeys, SolanaSafety: the first of them, VoucherKeys, VoucherSafety: the second; ChannelChecks:
    what an accepted channel opening means and that an honest wallet's opening is accepted.
  \<^item> MppSession: packages/payments-mpp/src/session.ts, the client that meters units, opens a channel for a
    challenge, pays with vouchers and closes the channel; MppSafety: what its runs can spend; MppDemo: a
    concrete session.
  \<^item> Base64, JsonParse, CanonicalJson: \<open>btoa\<close> and \<open>atob\<close>, \<open>JSON.parse\<close> and RFC 8785 texts, and that a value
    sent as base64url JSON is read back; MppWire: wire.ts (the tokenizer of \<open>WWW-Authenticate\<close>, challenges,
    credentials, receipts); MppRequests: the request readers and the selection of evm-charge.ts and
    solana-charge.ts; MppCharge: the credentials they build and fetch.ts; MppFetchSafety: what that fetch sends.
  \<^item> Settlement, SettlementSafety: core/src/settlement-verification.ts and \<open>verifyMppSettlement\<close>, the later check
    of a settlement on chain, and what its answer \<open>verified\<close> says exactly; MppSettled: that it verifies what
    the server submits.
  \<^item> MppChallenge: server/challenge.ts; MppReplay: server/problems.ts and replay.ts; MppVerify, MppSettle:
    \<open>verifyCredential\<close> and \<open>settleCredential\<close> of server/verify.ts with server/evm.ts and solana.ts;
    MppServerSafety: what an accepted credential means; MppExchange, MppSolanaExchange: a challenge from its
    creation to the acceptance of its payment; MppServerDemo, MppSolanaDemo: both on concrete input.
  \<^item> Authz, AuthzSpend: \<open>validateAuthorization\<close> and \<open>evaluateSpend\<close> over dynamic values;
    AuthzCompile, AuthzEnforce: the compilers and that compiled scopes enforce their authorization;
    AuthzList, AuthzListing: the listing and that it shows what was compiled; Findings: behaviours of
    the code that differ from its documents, each on a concrete input.
  \<^item> Interfaces: the locales \<open>keyed_map\<close> and \<open>keyed_table\<close> (find, put and remove by key; interpreted in
    KeyAdapter and SessionStore), \<open>budget\<close> (a counter that a check keeps under a cap; Metering, AuthzSpend
    and SolanaSafety), \<open>once_store\<close> (a store in which each key is consumed once until it expires; MppReplay,
    used by MppSettle), \<open>codec\<close> and \<open>strict_codec\<close> (a writer and the reader that accepts what it wrote;
    SolanaWire and SolanaTx).

  \<^bold>\<open>What is shown.\<close>  Per component: well-formedness of every accepted scope and authorization; the exact
  decision of \<open>evaluateSpend\<close>; that no run of operations lets a key exceed a limit of its scope, total,
  count, per transaction or per period (EVM, Solana, vouchers); that a returned signature came from an
  active, unexpired key, passed every guard and is accounted for; that retired keys never sign; that
  sealed records do not open when edited; that a delegation is never looser than its scope and its
  digest binds all its fields; that what is compiled parses back and what a wallet returned is what was
  asked; that an MPP session charges every metered unit once, at the policy's price, within the policy's
  ceiling and the deposit, and opens a channel only for a challenge within its policy; and across
  components that a compiled scope or policy lets through only what the authorization
  allows, and that the listing of a compiled key shows its grants; that the header of a created challenge reaches
  the client as it was meant, that reading any header returns, that a challenge identifier binds its
  parameters, that an accepted charge pays the offered price to the offered recipient, once, that each
  challenge is settled at most once in every interleaving, and that an honest client's payment of a
  challenge is accepted and, once mined, verifies as settled; that the paying fetch pays at most once.

  \<^bold>\<open>Modelling choices.\<close>  TypeScript numbers that are integers and \<open>bigint\<close> are \<open>int\<close>; where the code tests
  \<open>Number.isSafeInteger\<close> or a u64 or i64 bound the test is written out; bytes are \<open>8 word\<close>.  Strings are
  ASCII character lists, and \<open>Record\<close> objects association lists in insertion order.  Arguments are of their
  declared type, so \<open>typeof\<close> guards hold, except in Authz and the MPP readers, where the input is a dynamic value.  A thrown
  error or a rejected promise is \<open>Inl\<close>; the text of an error is kept where the code builds it.
  Time enters as an argument, one reading per \<open>Date.now()\<close> of the handler, and nothing is assumed of
  two readings unless a property says so.  Random bytes are arguments.  A handler that runs under the
  per-record lock is one atomic step; AdapterLock proves that the lock makes it so.  In MppSession a step
  is what runs between two awaits of the client, with the state of every waiting call kept as a task; the
  checks, the key creation and the wallet's signature of one opening are one step.
  \<open>refreshCache\<close> and the expiry note of \<open>validateSessionStatus\<close> run outside the lock and are modelled as
  the steps they take.  \<open>snapshotTypedDataRequest\<close> copies its argument and is the identity here.  A period
  of length zero is refused by validation, so the model divides by positive lengths only.  An RPC
  endpoint is the record of its answers.  Base58, ed25519, AES-GCM, PBKDF2, Keccak and SHA-256 are
  arguments of the definitions; a property that needs one of their laws names it (\<open>base58_laws\<close>, \<open>ed_laws\<close>,
  \<open>gcm_correct\<close>, \<open>gcm_binds\<close>, \<open>hash_lengths\<close>), and collision freedom is assumed only between the finitely
  many inputs the two computations hash (\<open>hash_apart\<close>).  How the platform decodes bytes that are not ASCII,
  reads dates and prints dates, fractions and lone code units is the record \<open>js_runtime\<close>, of which a
  property assumes only what it names.  An answer of an RPC node that the code does not trust is a dynamic
  value.  The loops of the code are structural or have a measure, with two exceptions: \<open>json_value\<close> has
  fuel, twice the length of the text and two more, which \<open>json_fuel_enough\<close> shows is never used up, and
  the tokenizer of challenges is a \<open>partial_function (option)\<close>, whose result \<open>parse_always_returns\<close> shows
  to exist for every header.

  \<^bold>\<open>Not modelled.\<close>  Connectors and the wallet engine (adapters around third-party wallets and browser
  workers), the session manager of connected wallets, account abstraction, routing, fees, token lists,
  notifications, name resolution and simulation (calls of remote services and caches around them), the
  HTTP layer of x402 (the MPP clients receive the answers as arguments), sign-in with X, and the user interface packages.  Of the modelled files:
  the display truncation of error details, the browser Web Lock around the in-process lock, and the JSON
  text of the session-key store, which is abstracted to the records it encodes.
\<close>

end
